(* ===== verification/Prelude.thy ===== *)
theory Prelude
  imports Main "HOL-Library.Word" "HOL-Library.List_Lexorder"
begin

text \<open>
  Shared vocabulary of the development: results with exceptions as values, the theorem
  collections the component theories fill, and list and option lemmas used by more than one
  component.

  Every Python exception the modelled code can raise is a constructor of \<open>pyerr\<close>. The text
  of a message is kept up to its first interpolated value: callers test the class of an exception,
  never its text. \<open>NoReturn\<close> is no exception: it is the result of a polling loop that has not ended
  within the iterations the model grants it.
\<close>

section \<open>Exceptions and results\<close>

datatype pyerr =
    ProtocolError string
  | AuthorityError string
  | AuthorityUnavailableError
  | DurabilityError string
  | SupervisorStateTokenError string
  | DeployCtlError string
  | FailpointError string
  | AuthorityInvariantError string
  | JSONDecodeError
  | UnicodeEncodeError
  | UnicodeDecodeError
  | ValueError string
  | TypeError string
  | KeyError
  | OSError
  | FileNotFoundError
  | PermissionError
  | ConnectivityError
  | DatabaseError
  | OverflowError
  | DesiredIntentError string
  | MissionAuthorityError string
  | DesiredAuthorityConflictError string
  | ConsumerLockTimeoutError
  | GenerationLockTimeoutError
  | LockTimeoutError
  | SystemExit
  | PendingRequestLockTimeoutError
  | MalformedSupervisorIdentityError
  | PidfileIdentityMismatchError string
  | OwnedGroupRecoveryError string
  | StartupContractError string
  | WorkerMetadataError string
  | CliError string
  | NoReturn
  | Unmodelled string

type_synonym 'a res = "pyerr + 'a"

abbreviation Ok :: "'a \<Rightarrow> 'a res" where "Ok \<equiv> Inr"
abbreviation Raise :: "pyerr \<Rightarrow> 'a res" where "Raise \<equiv> Inl"

text \<open>Sequencing: the second computation runs only when the first one returned.\<close>

definition ebind :: "'a res \<Rightarrow> ('a \<Rightarrow> 'b res) \<Rightarrow> 'b res" where
  "ebind m k = (case m of Inl e \<Rightarrow> Inl e | Inr x \<Rightarrow> k x)"

definition is_ok :: "'a res \<Rightarrow> bool" where
  "is_ok m = (case m of Inl _ \<Rightarrow> False | Inr _ \<Rightarrow> True)"

named_theorems json_simps \<open>evaluation of JSON object accesses\<close>
named_theorems parse_intros \<open>successful parses of well-formed sections\<close>
named_theorems wf_dests \<open>what a successful parse says about its result\<close>
named_theorems cas_simps \<open>unfolding of guarded row updates\<close>

lemma ebind_simps [simp]:
  "ebind (Inl e) k = Inl e"
  "ebind (Inr x) k = k x"
  by (simp_all add: ebind_def)

lemma ebind_Inr_iff [simp]: "ebind m k = Inr y \<longleftrightarrow> (\<exists>x. m = Inr x \<and> k x = Inr y)"
  by (cases m) simp_all

lemma ebind_Inl_iff:
  "ebind m k = Inl e \<longleftrightarrow> m = Inl e \<or> (\<exists>x. m = Inr x \<and> k x = Inl e)"
  by (cases m) auto

lemma ebind_assoc: "ebind (ebind m k) h = ebind m (\<lambda>x. ebind (k x) h)"
  by (cases m) simp_all

lemma ebind_return [simp]: "ebind m Inr = m"
  by (cases m) simp_all

lemma ebind_cong [fundef_cong]:
  "m = m' \<Longrightarrow> (\<And>x. m' = Inr x \<Longrightarrow> k x = k' x) \<Longrightarrow> ebind m k = ebind m' k'"
  by (cases m') simp_all

lemma is_ok_simps [simp]: "is_ok (Inr x)" "\<not> is_ok (Inl e)"
  by (simp_all add: is_ok_def)

lemma is_ok_iff: "is_ok m \<longleftrightarrow> (\<exists>x. m = Inr x)"
  by (cases m) simp_all

text \<open>A check that raises when its condition fails, and a mapped computation over a list.\<close>

definition require :: "bool \<Rightarrow> pyerr \<Rightarrow> unit res" where
  "require c e = (if c then Inr () else Inl e)"

lemma require_Inr [simp]: "require c e = Inr u \<longleftrightarrow> c"
  by (simp add: require_def)

lemma require_simps [simp]: "require True e = Inr ()" "require False e = Inl e"
  by (simp_all add: require_def)

text \<open>Taking a successful computation apart.\<close>

lemma ebindE: "ebind m k = Inr y \<Longrightarrow> (\<And>x. m = Inr x \<Longrightarrow> k x = Inr y \<Longrightarrow> R) \<Longrightarrow> R"
  by auto

lemma guardE: "(if c then Inl e else k) = Inr y \<Longrightarrow> (\<not> c \<Longrightarrow> k = Inr y \<Longrightarrow> R) \<Longrightarrow> R"
  by (auto split: if_splits)

lemmas succeedE = ebindE guardE

text \<open>The exceptions a computation can end with.\<close>

definition raises_only :: "(pyerr \<Rightarrow> bool) \<Rightarrow> 'a res \<Rightarrow> bool" where
  "raises_only P m \<longleftrightarrow> (case m of Inl e \<Rightarrow> P e | Inr _ \<Rightarrow> True)"

lemma raises_only_simps [simp]: "raises_only P (Inl e) \<longleftrightarrow> P e" "raises_only P (Inr x)"
  by (simp_all add: raises_only_def)

lemma raises_only_ebind:
  "raises_only P m \<Longrightarrow> (\<And>x. m = Inr x \<Longrightarrow> raises_only P (k x)) \<Longrightarrow> raises_only P (ebind m k)"
  by (cases m) simp_all

lemma raises_only_if:
  "(c \<Longrightarrow> raises_only P m) \<Longrightarrow> (\<not> c \<Longrightarrow> raises_only P m') \<Longrightarrow> raises_only P (if c then m else m')"
  by simp

lemma raises_onlyD: "raises_only P m \<Longrightarrow> m = Inl e \<Longrightarrow> P e"
  by simp

lemma raises_only_mono: "raises_only P m \<Longrightarrow> (\<And>e. P e \<Longrightarrow> Q e) \<Longrightarrow> raises_only Q m"
  by (cases m) auto

lemmas raises_rules = raises_only_ebind raises_only_if raises_only_simps

section \<open>Lists, options and association lists\<close>

lemma option_all_cases: "(\<forall>x. m \<noteq> Some x) \<longleftrightarrow> m = None"
  by (cases m) auto

lemma map_of_insort_key:
  "distinct (map fst (p # ps)) \<Longrightarrow> map_of (insort_key fst p ps) = map_of (p # ps)"
proof (induction ps)
  case Nil
  then show ?case by simp
next
  case (Cons q qs)
  have ne: "fst p \<noteq> fst q" using Cons.prems by auto
  have IH: "map_of (insort_key fst p qs) = map_of (p # qs)"
    using Cons by auto
  show ?case
  proof (cases "fst p \<le> fst q")
    case True
    then show ?thesis by simp
  next
    case False
    have "map_of (insort_key fst p (q # qs)) = (map_of (p # qs))(fst q \<mapsto> snd q)"
      using False IH by simp
    also have "\<dots> = map_of (p # q # qs)"
      using ne by (auto simp: fun_eq_iff)
    finally show ?thesis .
  qed
qed

lemma set_map_fst_sort_key [simp]: "fst ` set (sort_key fst ps) = fst ` set ps"
  by simp

lemma distinct_map_fst_insort_key:
  "distinct (map fst (insort_key fst p ps)) \<longleftrightarrow> distinct (map fst (p # ps))"
  by (induction ps) (auto simp: set_insort_key)

lemma distinct_map_fst_sort_key [simp]:
  "distinct (map fst (sort_key fst ps)) \<longleftrightarrow> distinct (map fst ps)"
proof (induction ps)
  case Nil
  then show ?case by simp
next
  case (Cons p ps)
  then show ?case by (simp add: distinct_map_fst_insort_key)
qed

lemma map_of_sort_key:
  "distinct (map fst ps) \<Longrightarrow> map_of (sort_key fst ps) = map_of ps"
proof (induction ps)
  case Nil
  then show ?case by simp
next
  case (Cons p ps)
  have "distinct (map fst (p # sort_key fst ps))"
    using Cons.prems by simp
  then have "map_of (insort_key fst p (sort_key fst ps)) = map_of (p # sort_key fst ps)"
    by (rule map_of_insort_key)
  with Cons show ?case by simp
qed

lemma take_drop_split: "n \<le> m \<Longrightarrow> take m xs = take n xs @ take (m - n) (drop n xs)"
  by (metis add_diff_cancel_left' le_Suc_ex take_add)

lemma dropWhile_length_le: "length (dropWhile P xs) \<le> length xs"
  by (induction xs) auto

section \<open>The interface of a text codec\<close>

text \<open>
  What a component that stores records as text relies on: text printed from an acceptable record
  reads back as that record, and only acceptable records are ever read.
\<close>

locale text_codec =
  fixes print_text :: "'r \<Rightarrow> 't res"
    and parse_text :: "'t \<Rightarrow> 'r res"
    and acceptable :: "'r \<Rightarrow> bool"
  assumes parse_print: "print_text r = Inr t \<Longrightarrow> acceptable r \<Longrightarrow> parse_text t = Inr r"
    and parse_acceptable: "parse_text t = Inr r \<Longrightarrow> acceptable r"
begin

lemma print_inject:
  "print_text r = Inr t \<Longrightarrow> print_text r' = Inr t \<Longrightarrow> acceptable r \<Longrightarrow> acceptable r' \<Longrightarrow> r = r'"
  by (metis parse_print sum.inject(2))

lemma reprint: "parse_text t = Inr r \<Longrightarrow> print_text r = Inr t' \<Longrightarrow> parse_text t' = Inr r"
  using parse_print parse_acceptable by blast

end

end
