(* ===== verification/PyStr.thy ===== *)
theory PyStr
  imports Prelude
begin

text \<open>
  Python's \<open>str\<close> and \<open>bytes\<close> as the modelled code uses them. A string is the list of its code
  points (a list of natural numbers), because the program's bounds are stated in UTF-8 bytes and
  not in characters, and because a Python string may hold lone surrogates, on which
  \<open>str.encode("utf-8")\<close> raises. Bytes are lists of 8-bit words.

  \<open>utf8_encode\<close> is the strict encoder, \<open>utf8_decode\<close> the decoder with
  \<open>errors="replace"\<close>: a maximal invalid prefix of a sequence becomes one U+FFFD.
\<close>

section \<open>Strings and literals\<close>

type_synonym pystr = "nat list"
type_synonym pybytes = "8 word list"

text \<open>A source literal.\<close>

definition lit :: "string \<Rightarrow> pystr" where
  "lit s = map of_char s"

definition replacement :: nat where
  "replacement = 0xFFFD"

section \<open>UTF-8\<close>

definition encodable :: "nat \<Rightarrow> bool" where
  "encodable c \<longleftrightarrow> c < 0xD800 \<or> (0xDFFF < c \<and> c < 0x110000)"

definition utf8_char :: "nat \<Rightarrow> pybytes" where
  "utf8_char c =
    (if c < 0x80 then [of_nat c]
     else if c < 0x800 then [of_nat (0xC0 + c div 64), of_nat (0x80 + c mod 64)]
     else if c < 0x10000 then
       [of_nat (0xE0 + c div 4096), of_nat (0x80 + c div 64 mod 64), of_nat (0x80 + c mod 64)]
     else
       [of_nat (0xF0 + c div 262144), of_nat (0x80 + c div 4096 mod 64),
        of_nat (0x80 + c div 64 mod 64), of_nat (0x80 + c mod 64)])"

definition utf8_encode :: "pystr \<Rightarrow> pybytes res" where
  "utf8_encode s =
    (if list_all encodable s then Ok (concat (map utf8_char s)) else Raise UnicodeEncodeError)"

text \<open>The encoded size of a string.\<close>

definition utf8_size :: "pystr \<Rightarrow> nat" where
  "utf8_size s = length (concat (map utf8_char s))"

definition is_cont :: "nat \<Rightarrow> bool" where
  "is_cont b \<longleftrightarrow> 0x80 \<le> b \<and> b \<le> 0xBF"

text \<open>The second byte of a three- or four-byte sequence, with the lead byte's extra limits.\<close>

definition second_ok :: "nat \<Rightarrow> nat \<Rightarrow> bool" where
  "second_ok b c \<longleftrightarrow> is_cont c
     \<and> (b = 0xE0 \<longrightarrow> 0xA0 \<le> c) \<and> (b = 0xED \<longrightarrow> c < 0xA0)
     \<and> (b = 0xF0 \<longrightarrow> 0x90 \<le> c) \<and> (b = 0xF4 \<longrightarrow> c < 0x90)"

text \<open>One decoding step at a lead byte: the code point and how many bytes it consumed.\<close>

definition utf8_step :: "nat \<Rightarrow> nat list \<Rightarrow> nat \<times> nat" where
  "utf8_step b r =
    (if b < 0x80 then (b, 1)
     else if 0xC2 \<le> b \<and> b \<le> 0xDF then
       (case r of [] \<Rightarrow> (replacement, 1)
        | c # _ \<Rightarrow> if is_cont c then ((b - 0xC0) * 64 + (c - 0x80), 2) else (replacement, 1))
     else if 0xE0 \<le> b \<and> b \<le> 0xEF then
       (case r of [] \<Rightarrow> (replacement, 1)
        | c # r2 \<Rightarrow> if \<not> second_ok b c then (replacement, 1)
            else (case r2 of [] \<Rightarrow> (replacement, 2)
              | d # _ \<Rightarrow> if is_cont d
                  then ((b - 0xE0) * 4096 + (c - 0x80) * 64 + (d - 0x80), 3)
                  else (replacement, 2)))
     else if 0xF0 \<le> b \<and> b \<le> 0xF4 then
       (case r of [] \<Rightarrow> (replacement, 1)
        | c # r2 \<Rightarrow> if \<not> second_ok b c then (replacement, 1)
            else (case r2 of [] \<Rightarrow> (replacement, 2)
              | d # r3 \<Rightarrow> if \<not> is_cont d then (replacement, 2)
                  else (case r3 of [] \<Rightarrow> (replacement, 3)
                    | e # _ \<Rightarrow> if is_cont e
                        then ((b - 0xF0) * 262144 + (c - 0x80) * 4096 + (d - 0x80) * 64
                              + (e - 0x80), 4)
                        else (replacement, 3))))
     else (replacement, 1))"

fun utf8_decode_nats :: "nat list \<Rightarrow> pystr" where
  "utf8_decode_nats [] = []"
| "utf8_decode_nats (b # r) =
     (case utf8_step b r of (c, n) \<Rightarrow> c # utf8_decode_nats (drop (n - 1) r))"

definition utf8_decode :: "pybytes \<Rightarrow> pystr" where
  "utf8_decode bs = utf8_decode_nats (map unat bs)"

section \<open>Facts on literals\<close>

lemma lit_inject [simp]: "lit s = lit t \<longleftrightarrow> s = t"
proof -
  have "inj (of_char :: char \<Rightarrow> nat)"
    by (rule injI) (metis char_of_char)
  then show ?thesis by (simp add: lit_def inj_map_eq_map)
qed

lemma lit_Nil [simp]: "lit [] = []"
  by (simp add: lit_def)

lemma lit_eq_Nil [simp]: "lit s = [] \<longleftrightarrow> s = []" "[] = lit s \<longleftrightarrow> s = []"
  by (auto simp: lit_def)

lemma lit_Cons: "lit (c # s) = of_char c # lit s"
  by (simp add: lit_def)

lemma length_lit [simp]: "length (lit s) = length s"
  by (simp add: lit_def)

lemma of_char_less [simp]: "(of_char c :: nat) < 256"
  by (metis nat_of_char_less_256)

lemma encodable_small [simp]: "c < 0xD800 \<Longrightarrow> encodable c"
  by (simp add: encodable_def)

lemma lit_encodable [simp]: "list_all encodable (lit s)"
proof (induction s)
  case (Cons c s)
  have "(of_char c :: nat) < 0xD800" using of_char_less [of c] by linarith
  with Cons show ?case by (simp add: lit_Cons)
qed simp

section \<open>Facts on UTF-8\<close>

lemma encodable_less: "encodable c \<Longrightarrow> c < 0x110000"
  by (auto simp: encodable_def)

lemma encodable_replacement [simp]: "encodable replacement"
  by (simp add: encodable_def replacement_def)

lemma utf8_step_consumes: "utf8_step b r = (c, n) \<Longrightarrow> 1 \<le> n \<and> n \<le> 4 \<and> n - 1 \<le> length r"
  by (auto simp: utf8_step_def split: if_splits list.splits)

lemma second_ok_cont: "second_ok b c \<Longrightarrow> 0x80 \<le> c \<and> c \<le> 0xBF"
  by (simp add: second_ok_def is_cont_def)

lemma two_byte_encodable:
  assumes "0xC2 \<le> b" "b \<le> 0xDF" "is_cont c"
  shows "encodable ((b - 0xC0) * 64 + (c - 0x80))"
proof -
  obtain x y where "b = 0xC0 + x" "c = 0x80 + y"
    by (rule that [of "b - 0xC0" "c - 0x80"]) (use assms in \<open>auto simp: is_cont_def\<close>)
  with assms show ?thesis by (simp add: encodable_def is_cont_def)
qed

lemma three_byte_encodable:
  assumes "0xE0 \<le> b" "b \<le> 0xEF" "second_ok b c" "is_cont d"
  shows "encodable ((b - 0xE0) * 4096 + (c - 0x80) * 64 + (d - 0x80))"
proof -
  obtain x where x: "b = 0xE0 + x" using assms(1) le_Suc_ex by blast
  obtain y where y: "c = 0x80 + y" using assms(3) le_Suc_ex by (metis second_ok_cont)
  obtain z where z: "d = 0x80 + z" using assms(4) le_Suc_ex by (metis is_cont_def)
  have lim: "x \<le> 15" "y \<le> 63" "z \<le> 63" "x = 13 \<longrightarrow> y < 32"
    using assms x y z by (auto simp: second_ok_def is_cont_def)
  consider "x < 13" | "x = 13" | "13 < x" by linarith
  then have "x * 4096 + y * 64 + z < 0xD800 \<or>
      0xDFFF < x * 4096 + y * 64 + z \<and> x * 4096 + y * 64 + z < 0x110000"
    by cases (use lim in linarith)+
  then show ?thesis using x y z by (simp add: encodable_def)
qed

lemma four_byte_encodable:
  assumes "0xF0 \<le> b" "b \<le> 0xF4" "second_ok b c" "is_cont d" "is_cont e"
  shows "encodable ((b - 0xF0) * 262144 + (c - 0x80) * 4096 + (d - 0x80) * 64 + (e - 0x80))"
proof -
  obtain x where x: "b = 0xF0 + x" using assms(1) le_Suc_ex by blast
  obtain y where y: "c = 0x80 + y" using assms(3) le_Suc_ex by (metis second_ok_cont)
  obtain z where z: "d = 0x80 + z" using assms(4) le_Suc_ex by (metis is_cont_def)
  obtain w where w: "e = 0x80 + w" using assms(5) le_Suc_ex by (metis is_cont_def)
  have lim: "x \<le> 4" "y \<le> 63" "z \<le> 63" "w \<le> 63" "x = 4 \<longrightarrow> y < 16" "x = 0 \<longrightarrow> 16 \<le> y"
    using assms x y z w by (auto simp: second_ok_def is_cont_def)
  consider "x = 0" | "0 < x" "x < 4" | "x = 4" using lim by linarith
  then have "0xDFFF < x * 262144 + y * 4096 + z * 64 + w
      \<and> x * 262144 + y * 4096 + z * 64 + w < 0x110000"
    by cases (use lim in linarith)+
  then show ?thesis using x y z w by (simp add: encodable_def)
qed

lemma utf8_step_encodable: "utf8_step b r = (c, n) \<Longrightarrow> encodable c"
  unfolding utf8_step_def
  by (simp split: if_splits list.splits
      add: two_byte_encodable three_byte_encodable four_byte_encodable)
    (auto intro: two_byte_encodable three_byte_encodable four_byte_encodable)

lemma utf8_decode_nats_encodable: "list_all encodable (utf8_decode_nats bs)"
proof (induction bs rule: utf8_decode_nats.induct)
  case 1
  then show ?case by simp
next
  case (2 b r)
  obtain c n where step: "utf8_step b r = (c, n)" by fastforce
  with 2 have "list_all encodable (utf8_decode_nats (drop (n - 1) r))" by simp
  moreover have "encodable c" using step by (rule utf8_step_encodable)
  ultimately show ?case using step by simp
qed

lemma utf8_decode_encodable [simp]: "list_all encodable (utf8_decode bs)"
  by (simp add: utf8_decode_def utf8_decode_nats_encodable)

lemma unat_byte: "n < 256 \<Longrightarrow> unat (of_nat n :: 8 word) = n"
  by (simp add: unat_of_nat take_bit_eq_mod)

lemma utf8_char_unat:
  assumes "encodable c"
  shows "map unat (utf8_char c) =
    (if c < 0x80 then [c]
     else if c < 0x800 then [0xC0 + c div 64, 0x80 + c mod 64]
     else if c < 0x10000 then [0xE0 + c div 4096, 0x80 + c div 64 mod 64, 0x80 + c mod 64]
     else [0xF0 + c div 262144, 0x80 + c div 4096 mod 64, 0x80 + c div 64 mod 64, 0x80 + c mod 64])"
proof -
  have m: "x mod 64 < 64" for x :: nat by simp
  have 1: "c < 0x800 \<Longrightarrow> unat (of_nat (0xC0 + c div 64) :: 8 word) = 0xC0 + c div 64"
    by (rule unat_byte) linarith
  have 2: "c < 0x10000 \<Longrightarrow> unat (of_nat (0xE0 + c div 4096) :: 8 word) = 0xE0 + c div 4096"
    by (rule unat_byte) linarith
  have 3: "unat (of_nat (0xF0 + c div 262144) :: 8 word) = 0xF0 + c div 262144"
    by (rule unat_byte) (use encodable_less [OF assms] in linarith)
  have 4: "unat (of_nat (0x80 + x mod 64) :: 8 word) = 0x80 + x mod 64" for x
    by (rule unat_byte) (use m [of x] in linarith)
  have 5: "c < 0x80 \<Longrightarrow> unat (of_nat c :: 8 word) = c"
    by (rule unat_byte) linarith
  show ?thesis unfolding utf8_char_def
    by (auto simp only: list.map 1 2 3 4 5 split: if_split)
qed

lemma utf8_step_ascii: "b < 0x80 \<Longrightarrow> utf8_step b r = (b, 1)"
  by (simp add: utf8_step_def)

lemma div_4096: "c div 4096 = c div 64 div (64::nat)"
  by (simp add: div_mult2_eq [symmetric])

lemma div_262144: "c div 262144 = c div 64 div 64 div (64::nat)"
  by (simp add: div_mult2_eq [symmetric])

lemma base64_digits:
  obtains x y z w where "c = ((x * 64 + y) * 64 + z) * 64 + w" "y < 64" "z < 64" "w < (64::nat)"
    "c mod 64 = w" "c div 64 = (x * 64 + y) * 64 + z" "c div 64 mod 64 = z"
    "c div 4096 = x * 64 + y" "c div 4096 mod 64 = y" "c div 262144 = x"
proof -
  have e: "c = c div 64 * 64 + c mod 64"
    "c div 64 = c div 4096 * 64 + c div 64 mod 64"
    "c div 4096 = c div 262144 * 64 + c div 4096 mod 64"
    by (simp_all add: div_4096 div_262144)
  show thesis
    by (rule that [of "c div 262144" "c div 4096 mod 64" "c div 64 mod 64" "c mod 64"])
      (simp_all only: e [symmetric] mod_less_divisor zero_less_numeral)
qed

lemma utf8_step_char:
  assumes "encodable c" and "map unat (utf8_char c) = b # bs"
  shows "utf8_step b (bs @ r) = (c, Suc (length bs))"
proof -
  obtain x y z w where c: "c = ((x * 64 + y) * 64 + z) * 64 + w" and l: "y < 64" "z < 64" "w < 64"
    and d: "c mod 64 = w" "c div 64 mod 64 = z" "c div 4096 mod 64 = y"
    "c div 262144 = x" and d2: "c div 64 = (x * 64 + y) * 64 + z" and d3: "c div 4096 = x * 64 + y"
    by (rule base64_digits)
  have c: "c = 262144 * x + 4096 * y + 64 * z + w" using c by simp
  note bs = utf8_char_unat [OF assms(1), unfolded d] assms(2)
  have lim: "c < 0x110000" and sur: "c < 0xD800 \<or> 0xDFFF < c"
    using assms(1) by (auto simp: encodable_def)
  consider (1) "c < 0x80" | (2) "0x80 \<le> c" "c < 0x800" | (3) "0x800 \<le> c" "c < 0x10000"
    | (4) "0x10000 \<le> c" by linarith
  then show ?thesis
  proof cases
    case 1
    with bs show ?thesis by (auto simp: utf8_step_def)
  next
    case 2
    with bs have b: "b = 0xC0 + c div 64" "bs = [0x80 + w]" by auto
    have "2 \<le> c div 64" "c div 64 < 32" using 2 by linarith+
    moreover have "c div 64 * 64 + w = c" unfolding d(1) [symmetric] by simp
    ultimately have ?thesis using l by (simp add: b utf8_step_def is_cont_def)
    then show ?thesis .
  next
    case 3
    with bs d3 have b: "b = 0xE0 + (x * 64 + y)" "bs = [0x80 + z, 0x80 + w]" by auto
    have "x < 1" using 3(2) c by linarith
    then have "x = 0" by simp
    moreover have "y < 16" using 3(2) c by linarith
    moreover have "y = 0 \<Longrightarrow> 32 \<le> z" "y = 13 \<Longrightarrow> z < 32"
      using 3 c l sur \<open>x = 0\<close> by linarith+
    ultimately show ?thesis using c l by (simp add: b utf8_step_def is_cont_def second_ok_def)
  next
    case 4
    with bs have b: "b = 0xF0 + x" "bs = [0x80 + y, 0x80 + z, 0x80 + w]" by auto
    have "x \<le> 4" "x = 0 \<Longrightarrow> 16 \<le> y" "x = 4 \<Longrightarrow> y < 16" using 4 c l lim by linarith+
    then show ?thesis using c l by (simp add: b utf8_step_def is_cont_def second_ok_def)
  qed
qed

lemma utf8_char_ne: "utf8_char c \<noteq> []"
  by (simp add: utf8_char_def)

lemma utf8_decode_nats_char:
  assumes "encodable c"
  shows "utf8_decode_nats (map unat (utf8_char c) @ r) = c # utf8_decode_nats r"
proof -
  obtain b bs where b: "map unat (utf8_char c) = b # bs"
    using utf8_char_ne [of c] by (cases "utf8_char c") auto
  show ?thesis
    using utf8_step_char [OF assms b, of r] by (simp add: b)
qed

lemma utf8_decode_chars_append:
  "list_all encodable s \<Longrightarrow>
   utf8_decode (concat (map utf8_char s) @ bs) = s @ utf8_decode bs"
proof (induction s)
  case (Cons c s)
  then show ?case
    using utf8_decode_nats_char [of c "map unat (concat (map utf8_char s) @ bs)"]
    by (simp add: utf8_decode_def)
qed simp

lemma utf8_decode_encode: "utf8_encode s = Inr bs \<Longrightarrow> utf8_decode bs = s"
  using utf8_decode_chars_append [of s "[]"]
  by (auto simp: utf8_encode_def utf8_decode_def split: if_splits)

lemma utf8_size_simps [simp]:
  "utf8_size [] = 0"
  "utf8_size (c # s) = length (utf8_char c) + utf8_size s"
  "utf8_size (s @ t) = utf8_size s + utf8_size t"
  by (simp_all add: utf8_size_def)

lemma utf8_char_length: "1 \<le> length (utf8_char c) \<and> length (utf8_char c) \<le> 4"
  by (simp add: utf8_char_def)

lemma utf8_char_length_le3: "c < 0x10000 \<Longrightarrow> length (utf8_char c) \<le> 3"
  by (simp add: utf8_char_def)

lemma utf8_encode_size: "utf8_encode s = Inr bs \<Longrightarrow> length bs = utf8_size s"
  by (auto simp: utf8_encode_def utf8_size_def split: if_splits)

lemma length_le_utf8_size: "length s \<le> utf8_size s"
proof (induction s)
  case (Cons c s)
  then show ?case using utf8_char_length [of c] by simp
qed simp

lemma utf8_step_growth: "utf8_step b r = (c, n) \<Longrightarrow> length (utf8_char c) \<le> 3 * n"
proof -
  assume step: "utf8_step b r = (c, n)"
  have "2 \<le> n \<or> c = replacement \<or> c < 0x80"
    using step by (simp add: utf8_step_def split: if_splits list.splits; fastforce)
  moreover have "1 \<le> n" using utf8_step_consumes [OF step] by simp
  moreover have "length (utf8_char replacement) = 3" by (simp add: utf8_char_def replacement_def)
  moreover have "c < 0x80 \<Longrightarrow> length (utf8_char c) = 1" by (simp add: utf8_char_def)
  ultimately show ?thesis using utf8_char_length [of c] by (cases "c = replacement") auto
qed

lemma utf8_size_decode_nats: "utf8_size (utf8_decode_nats bs) \<le> 3 * length bs"
proof (induction bs rule: utf8_decode_nats.induct)
  case (2 b r)
  obtain c n where step: "utf8_step b r = (c, n)" by fastforce
  have "utf8_size (utf8_decode_nats (drop (n - 1) r)) \<le> 3 * length (drop (n - 1) r)"
    using 2 step by simp
  moreover have "length (utf8_char c) \<le> 3 * n" using step by (rule utf8_step_growth)
  moreover have "1 \<le> n" "n - 1 \<le> length r" using utf8_step_consumes [OF step] by simp_all
  ultimately show ?case using step by simp
qed simp

lemma utf8_size_decode: "utf8_size (utf8_decode bs) \<le> 3 * length bs"
  using utf8_size_decode_nats [of "map unat bs"] by (simp add: utf8_decode_def)

lemma utf8_encode_decode: "\<exists>bs'. utf8_encode (utf8_decode bs) = Inr bs'"
  by (simp add: utf8_encode_def)

end
