(* ===== verification/PyJson.thy ===== *)
theory PyJson
  imports PyStr
begin

text \<open>
  The part of Python's \<open>json\<close> module the program uses: \<open>json.loads\<close> on text and
  \<open>json.dumps(..., sort_keys=True)\<close> with the default separators and ASCII escaping.

  A JSON object is the association list of a Python dict in insertion order; \<open>dict_get\<close> is
  \<open>dict.get\<close> with default \<open>None\<close>. The parser is recursive descent with fuel; \<open>loads\<close>
  starts it with enough fuel for every input, which is proved below. Integers of more than 4300
  digits raise ValueError in both directions, as CPython's conversion limit does. Floating-point
  numbers are read with the correctly rounded double they denote; the modelled code never prints
  one, and \<open>dumps\<close> marks the attempt.
\<close>

section \<open>Values\<close>

text \<open>A finite float is a mantissa times a power of two; infinities carry their sign.\<close>

datatype pyfloat = FFin int int | FInf bool | FNaN

datatype json =
    JNull
  | JBool bool
  | JInt int
  | JFloat pyfloat
  | JStr pystr
  | JList "json list"
  | JObj "(pystr \<times> json) list"

type_synonym dict = "(pystr \<times> json) list"

definition dict_get :: "dict \<Rightarrow> string \<Rightarrow> json" where
  "dict_get d k = (case map_of d (lit k) of None \<Rightarrow> JNull | Some v \<Rightarrow> v)"

definition dict_has :: "dict \<Rightarrow> string \<Rightarrow> bool" where
  "dict_has d k \<longleftrightarrow> map_of d (lit k) \<noteq> None"

fun dict_set :: "pystr \<Rightarrow> json \<Rightarrow> dict \<Rightarrow> dict" where
  "dict_set k v [] = [(k, v)]"
| "dict_set k v ((k', v') # d) = (if k = k' then (k', v) # d else (k', v') # dict_set k v d)"

definition dict_of_pairs :: "dict \<Rightarrow> dict" where
  "dict_of_pairs ps = fold (\<lambda>(k, v). dict_set k v) ps []"

text \<open>\<open>float == int\<close>.\<close>

definition float_eq_int :: "pyfloat \<Rightarrow> int \<Rightarrow> bool" where
  "float_eq_int x n = (case x of
      FFin m e \<Rightarrow> if 0 \<le> e then m * 2 ^ nat e = n else m = n * 2 ^ nat (- e)
    | _ \<Rightarrow> False)"

section \<open>Text of numbers and strings\<close>

definition max_str_digits :: nat where
  "max_str_digits = 4300"

function nat_text :: "int \<Rightarrow> pystr" where
  "nat_text n = (if n < 10 then [48 + nat n] else nat_text (n div 10) @ [48 + nat (n mod 10)])"
  by pat_completeness auto
termination
  by (relation "measure nat") auto

definition int_text :: "int \<Rightarrow> pystr" where
  "int_text i = (if i < 0 then 45 # nat_text (- i) else nat_text i)"

definition hex_char :: "nat \<Rightarrow> nat" where
  "hex_char n = (if n < 10 then 48 + n else 87 + n)"

definition hex_digit :: "nat \<Rightarrow> nat option" where
  "hex_digit c =
    (if 48 \<le> c \<and> c \<le> 57 then Some (c - 48)
     else if 97 \<le> c \<and> c \<le> 102 then Some (c - 87)
     else if 65 \<le> c \<and> c \<le> 70 then Some (c - 55)
     else None)"

definition hex4 :: "nat \<Rightarrow> nat \<Rightarrow> nat \<Rightarrow> nat \<Rightarrow> nat option" where
  "hex4 a b c d = (case (hex_digit a, hex_digit b, hex_digit c, hex_digit d) of
      (Some x, Some y, Some z, Some w) \<Rightarrow> Some (((x * 16 + y) * 16 + z) * 16 + w)
    | _ \<Rightarrow> None)"

definition u_escape :: "nat \<Rightarrow> pystr" where
  "u_escape c = [92, 117, hex_char (c div 4096), hex_char (c div 256 mod 16),
                 hex_char (c div 16 mod 16), hex_char (c mod 16)]"

definition is_high :: "nat \<Rightarrow> bool" where
  "is_high c \<longleftrightarrow> 0xD800 \<le> c \<and> c \<le> 0xDBFF"

definition is_low :: "nat \<Rightarrow> bool" where
  "is_low c \<longleftrightarrow> 0xDC00 \<le> c \<and> c \<le> 0xDFFF"

definition escape_char :: "nat \<Rightarrow> pystr" where
  "escape_char c =
    (if c = 34 then [92, 34] else if c = 92 then [92, 92] else if c = 10 then [92, 110]
     else if c = 13 then [92, 114] else if c = 9 then [92, 116] else if c = 12 then [92, 102]
     else if c = 8 then [92, 98]
     else if 32 \<le> c \<and> c \<le> 126 then [c]
     else if c < 0x10000 then u_escape c
     else u_escape (0xD800 + (c - 0x10000) div 1024) @ u_escape (0xDC00 + (c - 0x10000) mod 1024))"

definition str_text :: "pystr \<Rightarrow> pystr" where
  "str_text s = 34 # concat (map escape_char s) @ [34]"

section \<open>Printing\<close>

fun join_text :: "pystr list \<Rightarrow> pystr" where
  "join_text [] = []"
| "join_text [x] = x"
| "join_text (x # y # xs) = x @ [44, 32] @ join_text (y # xs)"

fun json_text :: "json \<Rightarrow> pystr" where
  "json_text JNull = lit ''null''"
| "json_text (JBool b) = (if b then lit ''true'' else lit ''false'')"
| "json_text (JInt i) = int_text i"
| "json_text (JFloat x) = lit ''NaN''"
| "json_text (JStr s) = str_text s"
| "json_text (JList xs) = 91 # join_text (map json_text xs) @ [93]"
| "json_text (JObj ps) =
     123 # join_text (map (\<lambda>(k, v). str_text k @ [58, 32] @ json_text v) ps) @ [125]"

text \<open>\<open>sort_keys=True\<close>: every dict is written in code-point order of its keys.\<close>

fun sort_json :: "json \<Rightarrow> json" where
  "sort_json (JList xs) = JList (map sort_json xs)"
| "sort_json (JObj ps) = JObj (sort_key fst (map (\<lambda>(k, v). (k, sort_json v)) ps))"
| "sort_json j = j"

fun has_float :: "json \<Rightarrow> bool" where
  "has_float (JFloat x) = True"
| "has_float (JList xs) = list_ex has_float xs"
| "has_float (JObj ps) = list_ex (\<lambda>(k, v). has_float v) ps"
| "has_float j = False"

fun digits_ok :: "json \<Rightarrow> bool" where
  "digits_ok (JInt i) = (length (nat_text \<bar>i\<bar>) \<le> max_str_digits)"
| "digits_ok (JList xs) = list_all digits_ok xs"
| "digits_ok (JObj ps) = list_all (\<lambda>(k, v). digits_ok v) ps"
| "digits_ok j = True"

definition dumps :: "json \<Rightarrow> pystr res" where
  "dumps j =
    (if has_float j then Raise (Unmodelled ''float repr'')
     else if \<not> digits_ok j then Raise (ValueError ''Exceeds the limit for integer string conversion'')
     else Ok (json_text (sort_json j)))"

text \<open>\<open>json.dumps\<close> without \<open>sort_keys\<close>: the keys in the dict's own order.\<close>

definition dumps_unsorted :: "json \<Rightarrow> pystr res" where
  "dumps_unsorted j =
    (if has_float j then Raise (Unmodelled ''float repr'')
     else if \<not> digits_ok j then Raise (ValueError ''Exceeds the limit for integer string conversion'')
     else Ok (json_text j))"

section \<open>Scanning\<close>

definition skip_ws :: "pystr \<Rightarrow> pystr" where
  "skip_ws s = dropWhile (\<lambda>c. c = 32 \<or> c = 9 \<or> c = 10 \<or> c = 13) s"

definition unescape :: "nat \<Rightarrow> nat option" where
  "unescape c =
    (if c = 34 \<or> c = 92 \<or> c = 47 then Some c else if c = 98 then Some 8
     else if c = 102 then Some 12 else if c = 110 then Some 10 else if c = 114 then Some 13
     else if c = 116 then Some 9 else None)"

text \<open>An escaped low surrogate at the head, with the text after it.\<close>

definition low_escape :: "pystr \<Rightarrow> (nat \<times> pystr) option" where
  "low_escape s = (case s of
      x # y # a # b # c # d # r \<Rightarrow>
        (if x = 92 \<and> y = 117 then
           (case hex4 a b c d of Some h \<Rightarrow> if is_low h then Some (h, r) else None | None \<Rightarrow> None)
         else None)
    | _ \<Rightarrow> None)"

text \<open>One character of a string literal: an escape, a joined surrogate pair or itself.\<close>

definition scan_unit :: "pystr \<Rightarrow> (nat \<times> pystr) option" where
  "scan_unit s = (case s of
      [] \<Rightarrow> None
    | c # r \<Rightarrow>
        if c = 92 then
          (case r of
             [] \<Rightarrow> None
           | e # r2 \<Rightarrow>
              if e = 117 then
                (case r2 of
                   a # b # x # d # r3 \<Rightarrow>
                     (case hex4 a b x d of
                        None \<Rightarrow> None
                      | Some h \<Rightarrow>
                         (case (if is_high h then low_escape r3 else None) of
                            Some (l, r4) \<Rightarrow>
                              Some (0x10000 + (h - 0xD800) * 1024 + (l - 0xDC00), r4)
                          | None \<Rightarrow> Some (h, r3)))
                 | _ \<Rightarrow> None)
              else map_option (\<lambda>u. (u, r2)) (unescape e))
        else if c < 32 then None
        else Some (c, r))"

text \<open>The text after the opening quote, up to and including the closing one.\<close>

fun scan_string :: "nat \<Rightarrow> pystr \<Rightarrow> (pystr \<times> pystr) option" where
  "scan_string 0 s = None"
| "scan_string (Suc f) s =
    (if s \<noteq> [] \<and> hd s = 34 then Some ([], tl s)
     else (case scan_unit s of
             None \<Rightarrow> None
           | Some (c, r) \<Rightarrow> map_option (apfst (Cons c)) (scan_string f r)))"

definition is_digit :: "nat \<Rightarrow> bool" where
  "is_digit c \<longleftrightarrow> 48 \<le> c \<and> c \<le> 57"

definition digits_val :: "pystr \<Rightarrow> int" where
  "digits_val ds = foldl (\<lambda>n c. n * 10 + (int c - 48)) 0 ds"

function bit_length :: "int \<Rightarrow> int" where
  "bit_length n = (if n \<le> 0 then 0 else 1 + bit_length (n div 2))"
  by pat_completeness auto
termination
  by (relation "measure nat") auto

text \<open>
  The double nearest to \<open>n / d\<close>, ties to even: scale to a 53-bit quotient, not below the
  exponent of the subnormal numbers, then round on the remainder.
\<close>

definition round_ratio :: "bool \<Rightarrow> int \<Rightarrow> int \<Rightarrow> pyfloat" where
  "round_ratio neg n d =
    (let e0 = bit_length n - bit_length d - 53;
         scaled = (\<lambda>e. if 0 \<le> e then (n, d * 2 ^ nat e) else (n * 2 ^ nat (- e), d));
         e1 = (if fst (scaled e0) div snd (scaled e0) < 2 ^ 53 then e0 else e0 + 1);
         e = max e1 (- 1074);
         (a, b) = scaled e;
         q = a div b; r = a mod b;
         q' = (if 2 * r > b \<or> (2 * r = b \<and> odd q) then q + 1 else q)
     in if q' * 2 ^ nat (max e 0) \<ge> 2 ^ 1024 then FInf neg
        else FFin (if neg then - q' else q') e)"

definition float_of_decimal :: "bool \<Rightarrow> pystr \<Rightarrow> pystr \<Rightarrow> int \<Rightarrow> pyfloat" where
  "float_of_decimal neg ip fp ex =
    (let n = digits_val (ip @ fp); x = ex - int (length fp)
     in if n = 0 then FFin 0 0
        else if 0 \<le> x then round_ratio neg (n * 10 ^ nat x) 1
        else round_ratio neg n (10 ^ nat (- x)))"

text \<open>The fraction and exponent parts are taken only when at least one digit follows.\<close>

definition scan_frac :: "pystr \<Rightarrow> pystr \<times> pystr" where
  "scan_frac s = (case s of
      c # d # r \<Rightarrow> if c = 46 \<and> is_digit d
        then (takeWhile is_digit (d # r), dropWhile is_digit (d # r)) else ([], s)
    | _ \<Rightarrow> ([], s))"

definition scan_exp :: "pystr \<Rightarrow> int option \<times> pystr" where
  "scan_exp s = (case s of
      c # r \<Rightarrow>
        if c = 101 \<or> c = 69 then
          (let sg = (r \<noteq> [] \<and> (hd r = 43 \<or> hd r = 45)); t = (if sg then tl r else r);
               ds = takeWhile is_digit t
           in if ds = [] then (None, s)
              else (Some (if sg \<and> hd r = 45 then - digits_val ds else digits_val ds),
                    dropWhile is_digit t))
        else (None, s)
    | [] \<Rightarrow> (None, s))"

definition scan_int_part :: "pystr \<Rightarrow> (pystr \<times> pystr) option" where
  "scan_int_part s = (case s of
      [] \<Rightarrow> None
    | c # r \<Rightarrow> if c = 48 then Some ([48], r)
        else if is_digit c then Some (takeWhile is_digit s, dropWhile is_digit s) else None)"

definition parse_number :: "pystr \<Rightarrow> (json \<times> pystr) res" where
  "parse_number s =
    (let neg = (s \<noteq> [] \<and> hd s = 45); s1 = (if neg then tl s else s) in
     case scan_int_part s1 of
       None \<Rightarrow> Raise JSONDecodeError
     | Some (ip, s2) \<Rightarrow>
        (let (fp, s3) = scan_frac s2; (ex, s4) = scan_exp s3 in
         if fp = [] \<and> ex = None then
           (if length ip > max_str_digits
            then Raise (ValueError ''Exceeds the limit for integer string conversion'')
            else Ok (JInt (if neg then - digits_val ip else digits_val ip), s4))
         else Ok (JFloat (float_of_decimal neg ip fp (case ex of None \<Rightarrow> 0 | Some x \<Rightarrow> x)), s4)))"

definition strip_prefix :: "pystr \<Rightarrow> pystr \<Rightarrow> pystr option" where
  "strip_prefix p s = (if take (length p) s = p then Some (drop (length p) s) else None)"

definition parse_word :: "string \<Rightarrow> json \<Rightarrow> pystr \<Rightarrow> (json \<times> pystr) res" where
  "parse_word w v s =
    (case strip_prefix (lit w) s of None \<Rightarrow> Raise JSONDecodeError | Some r \<Rightarrow> Ok (v, r))"

definition parse_str :: "pystr \<Rightarrow> (pystr \<times> pystr) res" where
  "parse_str s =
    (case s of
       [] \<Rightarrow> Raise JSONDecodeError
     | c # r \<Rightarrow> if c \<noteq> 34 then Raise JSONDecodeError
         else (case scan_string (Suc (length r)) r of
                 None \<Rightarrow> Raise JSONDecodeError | Some x \<Rightarrow> Ok x))"

section \<open>Parsing\<close>

fun parse_value :: "nat \<Rightarrow> pystr \<Rightarrow> (json \<times> pystr) res"
  and parse_elems :: "nat \<Rightarrow> pystr \<Rightarrow> (json list \<times> pystr) res"
  and parse_members :: "nat \<Rightarrow> pystr \<Rightarrow> (dict \<times> pystr) res" where
  "parse_value 0 s = Raise (Unmodelled ''fuel'')"
| "parse_value (Suc f) s =
    (case s of
       [] \<Rightarrow> Raise JSONDecodeError
     | c # r \<Rightarrow>
        if c = 34 then ebind (parse_str s) (\<lambda>(t, r2). Ok (JStr t, r2))
        else if c = 123 then
          (case skip_ws r of
             [] \<Rightarrow> Raise JSONDecodeError
           | d # r2 \<Rightarrow> if d = 125 then Ok (JObj [], r2)
               else ebind (parse_members f (d # r2)) (\<lambda>(ps, r3). Ok (JObj (dict_of_pairs ps), r3)))
        else if c = 91 then
          (case skip_ws r of
             [] \<Rightarrow> Raise JSONDecodeError
           | d # r2 \<Rightarrow> if d = 93 then Ok (JList [], r2)
               else ebind (parse_elems f (d # r2)) (\<lambda>(xs, r3). Ok (JList xs, r3)))
        else if c = 110 then parse_word ''null'' JNull s
        else if c = 116 then parse_word ''true'' (JBool True) s
        else if c = 102 then parse_word ''false'' (JBool False) s
        else if c = 78 then parse_word ''NaN'' (JFloat FNaN) s
        else if c = 73 then parse_word ''Infinity'' (JFloat (FInf False)) s
        else if strip_prefix (lit ''-Infinity'') s \<noteq> None
          then parse_word ''-Infinity'' (JFloat (FInf True)) s
        else parse_number s)"
| "parse_elems 0 s = Raise (Unmodelled ''fuel'')"
| "parse_elems (Suc f) s =
    ebind (parse_value f s) (\<lambda>(v, r).
      case skip_ws r of
        [] \<Rightarrow> Raise JSONDecodeError
      | c # r2 \<Rightarrow>
          if c = 93 then Ok ([v], r2)
          else if c = 44 then
            ebind (parse_elems f (skip_ws r2)) (\<lambda>(vs, r3). Ok (v # vs, r3))
          else Raise JSONDecodeError)"
| "parse_members 0 s = Raise (Unmodelled ''fuel'')"
| "parse_members (Suc f) s =
    ebind (parse_str s) (\<lambda>(k, r).
      case skip_ws r of
        [] \<Rightarrow> Raise JSONDecodeError
      | c # r2 \<Rightarrow>
          if c \<noteq> 58 then Raise JSONDecodeError
          else
            ebind (parse_value f (skip_ws r2)) (\<lambda>(v, r3).
              case skip_ws r3 of
                [] \<Rightarrow> Raise JSONDecodeError
              | e # r4 \<Rightarrow>
                  if e = 125 then Ok ([(k, v)], r4)
                  else if e = 44 then
                    ebind (parse_members f (skip_ws r4)) (\<lambda>(ps, r5). Ok ((k, v) # ps, r5))
                  else Raise JSONDecodeError))"

definition loads :: "pystr \<Rightarrow> json res" where
  "loads s =
    ebind (parse_value (Suc (2 * length s)) (skip_ws s)) (\<lambda>(v, r).
      if skip_ws r = [] then Ok v else Raise JSONDecodeError)"

section \<open>Predicates on text and values\<close>

definition no_fuel :: "'a res \<Rightarrow> bool" where
  "no_fuel m \<longleftrightarrow> m = Inl (Unmodelled ''fuel'')"

text \<open>An exception other than the decoder's own.\<close>

definition strange :: "'a res \<Rightarrow> bool" where
  "strange m \<longleftrightarrow> (\<exists>e. m = Inl e \<and> e \<noteq> JSONDecodeError \<and> e \<noteq> Unmodelled ''fuel'')"

text \<open>Code points in range, and no high surrogate directly before a low one.\<close>

fun pair_free :: "pystr \<Rightarrow> bool" where
  "pair_free (c # d # s) = (\<not> (is_high c \<and> is_low d) \<and> pair_free (d # s))"
| "pair_free s = True"

definition clean :: "pystr \<Rightarrow> bool" where
  "clean s \<longleftrightarrow> list_all (\<lambda>c. c < 0x110000) s \<and> pair_free s"

text \<open>What may follow a printed value inside printed text.\<close>

definition stops :: "pystr \<Rightarrow> bool" where
  "stops r \<longleftrightarrow> r = [] \<or> hd r \<in> {44, 93, 125, 10}"

fun plain :: "json \<Rightarrow> bool" where
  "plain (JFloat x) = False"
| "plain (JInt i) = digits_ok (JInt i)"
| "plain (JStr s) = clean s"
| "plain (JList xs) = list_all plain xs"
| "plain (JObj ps) = (distinct (map fst ps) \<and> list_all (\<lambda>(k, v). clean k \<and> plain v) ps)"
| "plain j = True"

text \<open>Text that is printed as it stands, numbers of at most 18 digits, and values whose text is short.\<close>

definition printable :: "pystr \<Rightarrow> bool" where
  "printable s \<longleftrightarrow> list_all (\<lambda>c. 32 \<le> c \<and> c \<le> 126 \<and> c \<noteq> 34 \<and> c \<noteq> 92) s"

definition small :: "int \<Rightarrow> bool" where "small i \<longleftrightarrow> \<bar>i\<bar> < 10 ^ 18"

abbreviation ascii :: "pystr \<Rightarrow> bool" where
  "ascii s \<equiv> list_all (\<lambda>c. c < 128) s"

definition fits :: "nat \<Rightarrow> json \<Rightarrow> bool" where
  "fits n j \<longleftrightarrow> plain j \<and> length (json_text j) \<le> n"

text \<open>A value is read back from its text, whatever may follow it and with enough fuel.\<close>

definition parses :: "json \<Rightarrow> bool" where
  "parses j \<longleftrightarrow> (\<forall>f r. stops r \<longrightarrow> 2 * length (json_text j @ r) + 1 \<le> f \<longrightarrow>
     parse_value f (json_text j @ r) = Inr (j, r))"

fun tidy :: "json \<Rightarrow> bool" where
  "tidy (JStr s) = clean s"
| "tidy (JList xs) = list_all tidy xs"
| "tidy (JObj ps) = (distinct (map fst ps) \<and> list_all (\<lambda>(k, v). clean k \<and> tidy v) ps)"
| "tidy j = True"

declare nat_text.simps [simp del] bit_length.simps [simp del]

section \<open>The parser consumes its input\<close>

lemma map_of_dict_set: "map_of (dict_set k v d) = (map_of d)(k \<mapsto> v)"
  by (induction d) (auto simp: fun_eq_iff)

lemma skip_ws_length: "length (skip_ws s) \<le> length s"
  by (simp add: skip_ws_def dropWhile_length_le)

lemma skip_ws_Cons_length: "skip_ws s = c # r \<Longrightarrow> length r < length s"
  using skip_ws_length [of s] by simp

lemma low_escape_length: "low_escape s = Some (h, r) \<Longrightarrow> length r < length s"
  by (auto simp: low_escape_def split: list.splits if_splits option.splits)

lemma scan_unit_length: "scan_unit s = Some (c, r) \<Longrightarrow> length r < length s"
  by (auto simp: scan_unit_def split: list.splits if_splits option.splits dest: low_escape_length)

lemma scan_string_length: "scan_string f s = Some (t, r) \<Longrightarrow> length r < length s"
proof (induction f arbitrary: s t r)
  case (Suc f)
  then show ?case
    by (cases s) (fastforce split: if_splits option.splits dest: scan_unit_length)+
qed simp

lemma parse_str_length: "parse_str s = Inr (t, r) \<Longrightarrow> length r < length s"
  unfolding parse_str_def
  by (simp split: list.splits if_splits option.splits del: scan_string.simps
      add: less_SucI scan_string_length)

lemma strip_prefix_length:
  "strip_prefix p s = Some r \<Longrightarrow> p \<noteq> [] \<Longrightarrow> length r < length s"
  by (cases s) (auto simp: strip_prefix_def split: if_splits)

lemma parse_word_length: "parse_word w v s = Inr (x, r) \<Longrightarrow> w \<noteq> [] \<Longrightarrow> length r < length s"
  by (auto simp: parse_word_def split: option.splits dest: strip_prefix_length)

lemma scan_frac_length: "scan_frac s = (x, r) \<Longrightarrow> length r \<le> length s"
  by (auto simp: scan_frac_def split: list.splits if_splits)
    (use dropWhile_length_le le_SucI in blast)+

lemma scan_exp_length: "scan_exp s = (x, r) \<Longrightarrow> length r \<le> length s"
proof (cases s)
  case (Cons c t)
  assume e: "scan_exp s = (x, r)"
  have "length (dropWhile is_digit t) \<le> length t" "length (dropWhile is_digit (tl t)) \<le> length t"
    using dropWhile_length_le [of is_digit t] dropWhile_length_le [of is_digit "tl t"] by auto
  with e Cons show ?thesis by (auto simp: scan_exp_def Let_def split: if_splits)
qed (simp add: scan_exp_def)

lemma scan_int_part_length: "scan_int_part s = Some (x, r) \<Longrightarrow> length r < length s"
proof (cases s)
  case (Cons c t)
  assume e: "scan_int_part s = Some (x, r)"
  have "length (dropWhile is_digit t) \<le> length t" by (rule dropWhile_length_le)
  with e Cons show ?thesis by (auto simp: scan_int_part_def split: if_splits)
qed (simp add: scan_int_part_def)

lemma parse_number_parts:
  assumes "parse_number s = Inr (v, r)"
  obtains ip s2 fp s3 ex where
    "scan_int_part (if s \<noteq> [] \<and> hd s = 45 then tl s else s) = Some (ip, s2)"
    "scan_frac s2 = (fp, s3)" "scan_exp s3 = (ex, r)" "(\<exists>i. v = JInt i) \<or> (\<exists>x. v = JFloat x)"
proof -
  define s1 where "s1 = (if s \<noteq> [] \<and> hd s = 45 then tl s else s)"
  obtain ip s2 where i: "scan_int_part s1 = Some (ip, s2)"
    using assms by (auto simp: parse_number_def Let_def s1_def split: option.splits)
  obtain fp s3 where f: "scan_frac s2 = (fp, s3)" by fastforce
  obtain ex s4 where x: "scan_exp s3 = (ex, s4)" by fastforce
  have "s4 = r" "(\<exists>i. v = JInt i) \<or> (\<exists>x. v = JFloat x)" using assms i f x
    by (auto simp: parse_number_def Let_def s1_def split: if_splits)
  with i f x show thesis using that by (simp add: s1_def)
qed

lemma parse_number_length: "parse_number s = Inr (v, r) \<Longrightarrow> length r < length s"
proof (erule parse_number_parts)
  fix ip s2 fp s3 ex
  assume p: "scan_int_part (if s \<noteq> [] \<and> hd s = 45 then tl s else s) = Some (ip, s2)"
    "scan_frac s2 = (fp, s3)" "scan_exp s3 = (ex, r)"
  have "length r < length (if s \<noteq> [] \<and> hd s = 45 then tl s else s)"
    using scan_int_part_length [OF p(1)] scan_frac_length [OF p(2)] scan_exp_length [OF p(3)]
    by linarith
  then show ?thesis by (auto split: if_splits)
qed

lemma parse_value_length_step:
  assumes "\<And>s vs r. parse_elems f s = Inr (vs, r) \<Longrightarrow> length r < length s"
    and "\<And>s ps r. parse_members f s = Inr (ps, r) \<Longrightarrow> length r < length s"
    and "parse_value (Suc f) s = Inr (v, r)"
  shows "length r < length s"
proof (cases s)
  case Nil
  with assms(3) show ?thesis by simp
next
  case (Cons c t)
  have brack: "length r < length (c # t)"
    if "skip_ws t = d # t2" "length r < length (d # t2)" for d t2
    using that skip_ws_length [of t] by simp
  show ?thesis
    using assms(3) Cons
    by (auto split: if_splits list.splits
        dest: parse_str_length parse_word_length parse_number_length skip_ws_Cons_length
        dest!: assms(1,2) intro: brack less_SucI)
qed

lemma parse_elems_SucE:
  assumes "parse_elems (Suc f) s = Inr (vs, r)"
  obtains (last) v r1 where "parse_value f s = Inr (v, r1)" "skip_ws r1 = 93 # r" "vs = [v]"
  | (more) v r1 r2 vs' where "parse_value f s = Inr (v, r1)" "skip_ws r1 = 44 # r2"
      "parse_elems f (skip_ws r2) = Inr (vs', r)" "vs = v # vs'"
proof -
  obtain v r1 where v: "parse_value f s = Inr (v, r1)"
    using assms by auto
  obtain c r2 where c: "skip_ws r1 = c # r2"
    using assms v by (cases "skip_ws r1") auto
  show thesis
  proof (cases "c = 93")
    case True
    then show ?thesis using assms v c last by auto
  next
    case False
    then show ?thesis using assms v c more by (auto split: if_splits)
  qed
qed

lemma parse_members_SucE:
  assumes "parse_members (Suc f) s = Inr (ps, r)"
  obtains (last) k r1 r2 v r3 where "parse_str s = Inr (k, r1)" "skip_ws r1 = 58 # r2"
      "parse_value f (skip_ws r2) = Inr (v, r3)" "skip_ws r3 = 125 # r" "ps = [(k, v)]"
  | (more) k r1 r2 v r3 r4 ps' where "parse_str s = Inr (k, r1)" "skip_ws r1 = 58 # r2"
      "parse_value f (skip_ws r2) = Inr (v, r3)" "skip_ws r3 = 44 # r4"
      "parse_members f (skip_ws r4) = Inr (ps', r)" "ps = (k, v) # ps'"
proof -
  obtain k r1 where k: "parse_str s = Inr (k, r1)"
    using assms by auto
  obtain r2 where c: "skip_ws r1 = 58 # r2"
    using assms k by (cases "skip_ws r1") (auto split: if_splits)
  obtain v r3 where v: "parse_value f (skip_ws r2) = Inr (v, r3)"
    using assms k c by auto
  obtain e r4 where e: "skip_ws r3 = e # r4"
    using assms k c v by (cases "skip_ws r3") auto
  show thesis
  proof (cases "e = 125")
    case True
    then show ?thesis using assms k c v e last by auto
  next
    case False
    then show ?thesis using assms k c v e more by (auto split: if_splits)
  qed
qed

lemma parse_length:
  "(\<forall>s v r. parse_value f s = Inr (v, r) \<longrightarrow> length r < length s) \<and>
   (\<forall>s vs r. parse_elems f s = Inr (vs, r) \<longrightarrow> length r < length s) \<and>
   (\<forall>s ps r. parse_members f s = Inr (ps, r) \<longrightarrow> length r < length s)"
proof (induction f)
  case (Suc f)
  have v: "length r < length s" if "parse_value f s = Inr (v, r)" for s v r using Suc that by blast
  have e: "length r < length s" if "parse_elems f s = Inr (v, r)" for s v r using Suc that by blast
  have m: "length r < length s" if "parse_members f s = Inr (v, r)" for s v r using Suc that by blast
  note len = v e m skip_ws_Cons_length parse_str_length
  have E: "length r < length s" if "parse_elems (Suc f) s = Inr (vs, r)" for s vs r
    using that
  proof (cases rule: parse_elems_SucE)
    case (last v r1)
    then show ?thesis by (fastforce dest!: len)
  next
    case (more v r1 r2 vs')
    then show ?thesis using skip_ws_length [of r2] by (fastforce dest!: len)
  qed
  have M: "length r < length s" if "parse_members (Suc f) s = Inr (ps, r)" for s ps r
    using that
  proof (cases rule: parse_members_SucE)
    case (last k r1 r2 v r3)
    then show ?thesis using skip_ws_length [of r2] by (fastforce dest!: len)
  next
    case (more k r1 r2 v r3 r4 ps')
    then show ?thesis using skip_ws_length [of r2] skip_ws_length [of r4] by (fastforce dest!: len)
  qed
  have V: "length r < length s" if "parse_value (Suc f) s = Inr (v, r)" for s v r
    by (rule parse_value_length_step [OF e m that])
  from E M V show ?case by blast
qed simp


section \<open>The fuel is enough\<close>

lemma no_fuel_simps [simp]:
  "\<not> no_fuel (Inr x)" "no_fuel (Inl e) \<longleftrightarrow> e = Unmodelled ''fuel''"
  by (simp_all add: no_fuel_def)

lemma no_fuel_ebind: "no_fuel (ebind m k) \<longleftrightarrow> no_fuel m \<or> (\<exists>x. m = Inr x \<and> no_fuel (k x))"
  by (cases m) auto

lemma no_fuel_base [simp]:
  "\<not> no_fuel (parse_str s)" "\<not> no_fuel (parse_word w v s)" "\<not> no_fuel (parse_number s)"
  by (auto simp: parse_str_def parse_word_def parse_number_def Let_def
      split: list.splits option.splits prod.splits)

lemma parse_fuel:
  "(\<forall>s. 2 * length s + 1 \<le> f \<longrightarrow> \<not> no_fuel (parse_value f s)) \<and>
   (\<forall>s. 2 * length s + 2 \<le> f \<longrightarrow> \<not> no_fuel (parse_elems f s)) \<and>
   (\<forall>s. 2 * length s + 2 \<le> f \<longrightarrow> \<not> no_fuel (parse_members f s))"
proof (induction f)
  case (Suc f)
  have v: "\<not> no_fuel (parse_value f s)" if "2 * length s + 1 \<le> f" for s using Suc that by blast
  have e: "\<not> no_fuel (parse_elems f s)" if "2 * length s + 2 \<le> f" for s using Suc that by blast
  have m: "\<not> no_fuel (parse_members f s)" if "2 * length s + 2 \<le> f" for s using Suc that by blast
  have vl: "length r < length s" if "parse_value f s = Inr (x, r)" for s x r
    using parse_length that by blast
  note ws = skip_ws_length skip_ws_Cons_length
  have V: "\<not> no_fuel (parse_value (Suc f) s)" if "2 * length s + 1 \<le> Suc f" for s
  proof (cases s)
    case (Cons c t)
    have "2 * length (d # r) + 2 \<le> f" if "skip_ws t = d # r" for d r
      using that ws(1) [of t] \<open>2 * length s + 1 \<le> Suc f\<close> Cons by simp
    then show ?thesis using e m Cons by (simp add: no_fuel_ebind split: list.splits)
  qed simp
  have E: "\<not> no_fuel (parse_elems (Suc f) s)" if l: "2 * length s + 2 \<le> Suc f" for s
  proof -
    have "\<not> no_fuel (parse_elems f (skip_ws r2))"
      if "parse_value f s = Inr (x, r)" "skip_ws r = c # r2" for x r c r2
      by (rule e) (use vl [OF that(1)] ws(2) [OF that(2)] ws(1) [of r2] l in linarith)
    then show ?thesis using v [of s] l by (auto simp: no_fuel_ebind split: list.splits)
  qed
  have M: "\<not> no_fuel (parse_members (Suc f) s)" if l: "2 * length s + 2 \<le> Suc f" for s
  proof -
    have 1: "\<not> no_fuel (parse_value f (skip_ws r2))"
      if "parse_str s = Inr (k, r)" "skip_ws r = c # r2" for k r c r2
      by (rule v) (use parse_str_length [OF that(1)] ws(2) [OF that(2)] ws(1) [of r2] l in linarith)
    have 2: "\<not> no_fuel (parse_members f (skip_ws r4))"
      if "parse_str s = Inr (k, r)" "skip_ws r = c # r2" "parse_value f (skip_ws r2) = Inr (x, r3)"
        "skip_ws r3 = d # r4" for k r c r2 x r3 d r4
      by (rule m) (use parse_str_length [OF that(1)] ws(2) [OF that(2)] ws(1) [of r2]
          vl [OF that(3)] ws(2) [OF that(4)] ws(1) [of r4] l in linarith)
    from 1 2 show ?thesis by (auto simp: no_fuel_ebind split: list.splits)
  qed
  from V E M show ?case by blast
qed simp

theorem loads_total: "loads s \<noteq> Inl (Unmodelled ''fuel'')"
proof -
  have "\<not> no_fuel (parse_value (Suc (2 * length s)) (skip_ws s))"
    using parse_fuel [of "Suc (2 * length s)"] skip_ws_length [of s] by simp
  then have "\<not> no_fuel (loads s)"
    by (auto simp: loads_def no_fuel_ebind)
  then show ?thesis by (simp add: no_fuel_def)
qed

section \<open>The exceptions of the decoder\<close>

lemma strange_simps [simp]:
  "\<not> strange (Inr x)" "strange (Inl e) \<longleftrightarrow> e \<noteq> JSONDecodeError \<and> e \<noteq> Unmodelled ''fuel''"
  by (simp_all add: strange_def)

lemma strange_ebind: "strange (ebind m k) \<longleftrightarrow> strange m \<or> (\<exists>x. m = Inr x \<and> strange (k x))"
  by (cases m) auto

lemma scan_int_part_le: "scan_int_part s = Some (ip, r) \<Longrightarrow> length ip \<le> length s"
  by (auto simp: scan_int_part_def length_takeWhile_le split: list.splits if_splits)

lemma strange_base [simp]:
  "\<not> strange (parse_str s)" "\<not> strange (parse_word w v s)"
  "length s \<le> max_str_digits \<Longrightarrow> \<not> strange (parse_number s)"
proof -
  show "\<not> strange (parse_str s)" "\<not> strange (parse_word w v s)"
    by (simp_all add: parse_str_def parse_word_def split: list.splits option.splits)
  assume l: "length s \<le> max_str_digits"
  define s1 where "s1 = (if s \<noteq> [] \<and> hd s = 45 then tl s else s)"
  have "length s1 \<le> max_str_digits" using l by (auto simp: s1_def)
  then have "length ip \<le> max_str_digits" if "scan_int_part s1 = Some (ip, r)" for ip r
    using scan_int_part_le [OF that] by simp
  then show "\<not> strange (parse_number s)"
    unfolding parse_number_def Let_def s1_def [symmetric]
    by (cases "scan_int_part s1") (auto split: prod.splits)
qed

lemma parse_strange:
  "(\<forall>s. length s \<le> max_str_digits \<longrightarrow> \<not> strange (parse_value f s)) \<and>
   (\<forall>s. length s \<le> max_str_digits \<longrightarrow> \<not> strange (parse_elems f s)) \<and>
   (\<forall>s. length s \<le> max_str_digits \<longrightarrow> \<not> strange (parse_members f s))"
proof (induction f)
  case (Suc f)
  let ?ok = "\<lambda>s :: pystr. length s \<le> max_str_digits"
  have v: "\<not> strange (parse_value f s)" if "?ok s" for s using Suc that by blast
  have e: "\<not> strange (parse_elems f s)" if "?ok s" for s using Suc that by blast
  have m: "\<not> strange (parse_members f s)" if "?ok s" for s using Suc that by blast
  have vl: "length r < length s" if "parse_value f s = Inr (x, r)" for s x r
    using parse_length that by blast
  note ws = skip_ws_length skip_ws_Cons_length
  have V: "\<not> strange (parse_value (Suc f) s)" if "?ok s" for s
  proof (cases s)
    case (Cons c t)
    have "?ok (d # r)" if "skip_ws t = d # r" for d r
      using that ws(1) [of t] \<open>?ok s\<close> Cons by simp
    moreover have "\<not> strange (parse_number (c # t))" using \<open>?ok s\<close> Cons by simp
    ultimately show ?thesis using e m Cons by (simp add: strange_ebind split: list.splits)
  qed simp
  have E: "\<not> strange (parse_elems (Suc f) s)" if l: "?ok s" for s
  proof -
    have "\<not> strange (parse_elems f (skip_ws r2))"
      if "parse_value f s = Inr (x, r)" "skip_ws r = c # r2" for x r c r2
      by (rule e) (use vl [OF that(1)] ws(2) [OF that(2)] ws(1) [of r2] l in linarith)
    then show ?thesis using v [of s] l by (auto simp: strange_ebind split: list.splits)
  qed
  have M: "\<not> strange (parse_members (Suc f) s)" if l: "?ok s" for s
  proof -
    have 1: "\<not> strange (parse_value f (skip_ws r2))"
      if "parse_str s = Inr (k, r)" "skip_ws r = c # r2" for k r c r2
      by (rule v) (use parse_str_length [OF that(1)] ws(2) [OF that(2)] ws(1) [of r2] l in linarith)
    have 2: "\<not> strange (parse_members f (skip_ws r4))"
      if "parse_str s = Inr (k, r)" "skip_ws r = c # r2" "parse_value f (skip_ws r2) = Inr (x, r3)"
        "skip_ws r3 = d # r4" for k r c r2 x r3 d r4
      by (rule m) (use parse_str_length [OF that(1)] ws(2) [OF that(2)] ws(1) [of r2]
          vl [OF that(3)] ws(2) [OF that(4)] ws(1) [of r4] l in linarith)
    from 1 2 show ?thesis by (auto simp: strange_ebind split: list.splits)
  qed
  from V E M show ?case by blast
qed simp

text \<open>Text shorter than the limit on integer literals is either read or is not JSON.\<close>

lemma loads_error:
  assumes "loads s = Inl e" "length s \<le> max_str_digits"
  shows "e = JSONDecodeError"
proof -
  have "length (skip_ws s) \<le> max_str_digits" using skip_ws_length [of s] assms(2) by simp
  then have "\<not> strange (parse_value (Suc (2 * length s)) (skip_ws s))"
    using parse_strange by blast
  then have "\<not> strange (loads s)"
    by (auto simp: loads_def strange_ebind)
  then show ?thesis using assms(1) loads_total [of s] by simp
qed

end
