(* ===== verification/PyJsonText.thy ===== *)
theory PyJsonText
  imports PyJson
begin

text \<open>
  The JSON codec: every value the program prints is read back as itself (\<open>loads_dumps\<close>), and
  every value read from encodable text has clean strings and distinct keys, so that it can be
  printed again (\<open>loads_tidy\<close>).
\<close>

section \<open>Strings survive printing and scanning\<close>

lemma clean_Cons: "clean (c # s) \<longleftrightarrow>
    c < 0x110000 \<and> \<not> (is_high c \<and> s \<noteq> [] \<and> is_low (hd s)) \<and> clean s"
  by (cases s) (auto simp: clean_def)

lemma clean_Nil [simp]: "clean []"
  by (simp add: clean_def)

lemma encodable_clean: "list_all encodable s \<Longrightarrow> clean s"
proof (induction s)
  case (Cons c s)
  then show ?case by (auto simp: clean_Cons encodable_def is_high_def)
qed simp

lemma lit_clean [simp]: "clean (lit s)"
  by (rule encodable_clean) simp

lemma hex_digit_char [simp]: "n < 16 \<Longrightarrow> hex_digit (hex_char n) = Some n"
  by (auto simp: hex_digit_def hex_char_def)

lemma hex4_digits: "c < 0x10000 \<Longrightarrow>
   hex4 (hex_char (c div 4096)) (hex_char (c div 256 mod 16)) (hex_char (c div 16 mod 16))
     (hex_char (c mod 16)) = Some c"
proof -
  assume c: "c < 0x10000"
  have d: "c div 256 = c div 16 div 16" "c div 4096 = c div 16 div 16 div 16"
    by (simp_all add: div_mult2_eq [symmetric])
  have "c div 4096 < 16" using c by linarith
  then show ?thesis by (simp add: hex4_def d)
qed

lemma low_escape_u: "c < 0x10000 \<Longrightarrow>
    low_escape (u_escape c @ r) = (if is_low c then Some (c, r) else None)"
  by (simp add: low_escape_def u_escape_def hex4_digits)

lemma low_escape_Cons: "x \<noteq> 92 \<Longrightarrow> low_escape (x # r) = None"
  by (auto simp: low_escape_def split: list.splits)

lemma low_escape_short: "y \<noteq> 117 \<Longrightarrow> low_escape (x # y # r) = None"
  by (auto simp: low_escape_def split: list.splits)

lemma scan_unit_u: "c < 0x10000 \<Longrightarrow>
    scan_unit (u_escape c @ r) =
      (case (if is_high c then low_escape r else None) of
         Some (l, r4) \<Rightarrow> Some (0x10000 + (c - 0xD800) * 1024 + (l - 0xDC00), r4)
       | None \<Rightarrow> Some (c, r))"
  by (simp add: scan_unit_def u_escape_def hex4_digits)

lemma surrogates_of_astral:
  assumes "0x10000 \<le> c" "c < 0x110000"
  shows "is_high (0xD800 + (c - 0x10000) div 1024)" "is_low (0xDC00 + (c - 0x10000) mod 1024)"
    "0xD800 + (c - 0x10000) div 1024 < 0x10000" "0xDC00 + (c - 0x10000) mod 1024 < 0x10000"
    "0x10000 + (c - 0x10000) div 1024 * 1024 + (c - 0x10000) mod 1024 = c"
proof -
  have "(c - 0x10000) div 1024 < 1024" using assms by linarith
  then show "is_high (0xD800 + (c - 0x10000) div 1024)" "0xD800 + (c - 0x10000) div 1024 < 0x10000"
    by (simp_all add: is_high_def)
  have "(c - 0x10000) mod 1024 < 1024" by simp
  then show "is_low (0xDC00 + (c - 0x10000) mod 1024)" "0xDC00 + (c - 0x10000) mod 1024 < 0x10000"
    unfolding is_low_def by linarith+
  have "(c - 0x10000) div 1024 * 1024 + (c - 0x10000) mod 1024 = c - 0x10000" by simp
  then show "0x10000 + (c - 0x10000) div 1024 * 1024 + (c - 0x10000) mod 1024 = c"
    using assms(1) by linarith
qed

lemma escape_char_cases:
  obtains (short) "c = 34 \<or> c = 92 \<or> c = 10 \<or> c = 13 \<or> c = 9 \<or> c = 12 \<or> c = 8"
    | (plain) "32 \<le> c" "c \<le> 126" "c \<noteq> 34" "c \<noteq> 92" "escape_char c = [c]"
    | (uni) "c < 0x10000" "escape_char c = u_escape c"
    | (astral) "0x10000 \<le> c"
proof (cases "c = 34 \<or> c = 92 \<or> c = 10 \<or> c = 13 \<or> c = 9 \<or> c = 12 \<or> c = 8")
  case False
  then show ?thesis
    by (cases "32 \<le> c \<and> c \<le> 126"; cases "c < 0x10000")
      (use that in \<open>auto simp: escape_char_def\<close>)
qed (use that in blast)

lemma scan_unit_escape:
  assumes "c < 0x110000" "is_high c \<Longrightarrow> low_escape r = None"
  shows "scan_unit (escape_char c @ r) = Some (c, r)"
proof (cases c rule: escape_char_cases)
    case short
    then show ?thesis by (auto simp: escape_char_def scan_unit_def unescape_def)
  next
    case plain
    then show ?thesis by (simp add: escape_char_def scan_unit_def)
  next
    case uni
    then show ?thesis using assms(2) by (simp add: scan_unit_u)
  next
    case astral
    note s = surrogates_of_astral [OF astral assms(1)]
    have "escape_char c @ r = u_escape (0xD800 + (c - 0x10000) div 1024) @
        u_escape (0xDC00 + (c - 0x10000) mod 1024) @ r"
      using astral by (simp add: escape_char_def)
    then show ?thesis using s by (simp add: scan_unit_u low_escape_u)
qed

lemma low_escape_escape: "c < 0x110000 \<Longrightarrow> \<not> is_low c \<Longrightarrow> low_escape (escape_char c @ r) = None"
proof -
  assume a: "c < 0x110000" "\<not> is_low c"
  show ?thesis
  proof (cases c rule: escape_char_cases)
    case short
    then show ?thesis by (auto simp: escape_char_def low_escape_short)
  next
    case plain
    then show ?thesis by (simp add: low_escape_Cons)
  next
    case uni
    then show ?thesis using a by (simp add: low_escape_u)
  next
    case astral
    note s = surrogates_of_astral [OF astral a(1)]
    have "\<not> is_low (0xD800 + (c - 0x10000) div 1024)" using s(1) by (simp add: is_low_def is_high_def)
    then show ?thesis using astral s(3) low_escape_u by (simp add: escape_char_def)
  qed
qed

lemma escape_char_not_quote: "\<exists>x y. escape_char c = x # y \<and> x \<noteq> 34"
  by (simp add: escape_char_def u_escape_def)

lemma scan_string_escaped:
  assumes "clean s" "length s < f"
  shows "scan_string f (concat (map escape_char s) @ 34 # r) = Some (s, r)"
  using assms
proof (induction s arbitrary: f)
  case Nil
  then show ?case by (cases f) simp_all
next
  case (Cons c s)
  obtain f' where f: "f = Suc f'" using Cons.prems(2) by (cases f) auto
  obtain x y where x: "escape_char c = x # y" "x \<noteq> 34" using escape_char_not_quote by blast
  let ?r = "concat (map escape_char s) @ 34 # r"
  have "is_high c \<Longrightarrow> low_escape ?r = None"
    using Cons.prems(1)
    by (cases s) (auto simp: clean_Cons low_escape_Cons low_escape_escape)
  then have "scan_unit (escape_char c @ ?r) = Some (c, ?r)"
    using Cons.prems(1) by (intro scan_unit_escape) (simp_all add: clean_Cons)
  moreover have "scan_string f' ?r = Some (s, r)"
    using Cons f by (simp add: clean_Cons)
  ultimately show ?case using f x by simp
qed

lemma length_escaped: "length s \<le> length (concat (map escape_char s))"
proof (induction s)
  case (Cons c s)
  then show ?case using escape_char_not_quote [of c] by auto
qed simp

lemma parse_str_text [simp]: "clean s \<Longrightarrow> parse_str (str_text s @ r) = Inr (s, r)"
  using scan_string_escaped [of s "Suc (length (concat (map escape_char s) @ 34 # r))" r]
    length_escaped [of s]
  by (simp add: parse_str_def str_text_def del: scan_string.simps)

section \<open>Integers survive printing and scanning\<close>

lemma nat_text_digits: "list_all is_digit (nat_text n)"
proof (induction n rule: nat_text.induct)
  case (1 n)
  show ?case
  proof (cases "n < 10")
    case True
    then show ?thesis by (subst nat_text.simps) (simp add: is_digit_def)
  next
    case False
    have "is_digit (48 + nat (n mod 10))" unfolding is_digit_def by linarith
    with False 1 show ?thesis by (subst nat_text.simps) simp
  qed
qed

lemma digits_val_snoc: "digits_val (ds @ [c]) = digits_val ds * 10 + (int c - 48)"
  by (simp add: digits_val_def)

lemma digits_val_nat_text: "0 \<le> n \<Longrightarrow> digits_val (nat_text n) = n"
proof (induction n rule: nat_text.induct)
  case (1 n)
  show ?case
  proof (cases "n < 10")
    case True
    then show ?thesis using 1 by (subst nat_text.simps) (simp add: digits_val_def)
  next
    case False
    then have "digits_val (nat_text (n div 10)) = n div 10" using 1 by simp
    then show ?thesis using False by (subst nat_text.simps) (simp add: digits_val_snoc)
  qed
qed

lemma nat_text_head:
  "0 \<le> n \<Longrightarrow> \<exists>c ds. nat_text n = c # ds \<and> is_digit c \<and> (c = 48 \<longrightarrow> n = 0 \<and> ds = [])"
proof (induction n rule: nat_text.induct)
  case (1 n)
  show ?case
  proof (cases "n < 10")
    case True
    then show ?thesis using 1 by (subst nat_text.simps) (auto simp: is_digit_def)
  next
    case False
    then obtain c ds where "nat_text (n div 10) = c # ds" "is_digit c" "c \<noteq> 48"
      using 1 by fastforce
    then show ?thesis using False by (subst nat_text.simps) simp
  qed
qed

lemma nat_text_length: "n < 10 ^ k \<Longrightarrow> 0 < k \<Longrightarrow> length (nat_text n) \<le> k"
proof (induction k arbitrary: n)
  case (Suc k)
  show ?case
  proof (cases "n < 10")
    case True
    then show ?thesis by (simp add: nat_text.simps)
  next
    case False
    then have "0 < k" using Suc.prems by (cases k) auto
    have "n div 10 < 10 ^ k" using Suc.prems by auto
    then have "length (nat_text (n div 10)) \<le> k" using Suc.IH \<open>0 < k\<close> by blast
    then show ?thesis using False nat_text.simps [of n] by simp
  qed
qed simp

lemma digits_ok_small: "\<bar>i\<bar> < 10 ^ 18 \<Longrightarrow> digits_ok (JInt i)"
  using nat_text_length [of "\<bar>i\<bar>" 18] by (auto simp: max_str_digits_def)
lemma stops_not_digit: "stops r \<Longrightarrow> r = [] \<or> (\<exists>c t. r = c # t \<and> \<not> is_digit c \<and> c \<noteq> 46 \<and> c \<noteq> 101 \<and> c \<noteq> 69)"
  by (cases r) (auto simp: stops_def is_digit_def)

lemma takeWhile_digits:
  assumes "list_all is_digit ds" "stops r"
  shows "takeWhile is_digit (ds @ r) = ds" "dropWhile is_digit (ds @ r) = r"
  using assms stops_not_digit [OF assms(2)]
  by (auto simp: list_all_iff takeWhile_append2 dropWhile_append2)

lemma scan_int_part_text:
  assumes "0 \<le> n" "stops r"
  shows "scan_int_part (nat_text n @ r) = Some (nat_text n, r)"
proof -
  obtain c ds where c: "nat_text n = c # ds" "is_digit c" "c = 48 \<longrightarrow> n = 0 \<and> ds = []"
    using nat_text_head [OF assms(1)] by blast
  show ?thesis
  proof (cases "c = 48")
    case True
    then show ?thesis using c by (simp add: scan_int_part_def)
  next
    case False
    then show ?thesis
      using c takeWhile_digits [OF nat_text_digits [of n] assms(2)] by (simp add: scan_int_part_def)
  qed
qed

lemma scan_frac_stops: "stops r \<Longrightarrow> scan_frac r = ([], r)"
  by (auto simp: scan_frac_def stops_def split: list.splits)

lemma scan_exp_stops: "stops r \<Longrightarrow> scan_exp r = (None, r)"
  by (auto simp: scan_exp_def stops_def split: list.splits)

lemma parse_number_text:
  assumes "stops r" "length (nat_text \<bar>i\<bar>) \<le> max_str_digits"
  shows "parse_number (int_text i @ r) = Inr (JInt i, r)"
proof -
  obtain c ds where c: "nat_text \<bar>i\<bar> = c # ds" "is_digit c" using nat_text_head [of "\<bar>i\<bar>"] by auto
  have "c \<noteq> 45" using c by (auto simp: is_digit_def)
  note facts = scan_int_part_text [of "\<bar>i\<bar>", OF _ assms(1)] scan_frac_stops [OF assms(1)]
    scan_exp_stops [OF assms(1)] digits_val_nat_text [of "\<bar>i\<bar>"] assms(2)
  show ?thesis
  proof (cases "i < 0")
    case True
    then show ?thesis using facts by (simp add: parse_number_def int_text_def)
  next
    case False
    then have "\<bar>i\<bar> = i" by simp
    then show ?thesis using False facts c \<open>c \<noteq> 45\<close> by (simp add: parse_number_def int_text_def)
  qed
qed

lemma int_text_head: "\<exists>c ds. int_text i = c # ds \<and> (c = 45 \<and> ds \<noteq> [] \<and> is_digit (hd ds) \<or> is_digit c)"
proof (cases "i < 0")
  case True
  then show ?thesis using nat_text_head [of "- i"] by (auto simp: int_text_def)
next
  case False
  then show ?thesis using nat_text_head [of i] by (auto simp: int_text_def)
qed

section \<open>Values survive printing and parsing\<close>

lemma dict_set_append: "k \<notin> fst ` set d \<Longrightarrow> dict_set k v d = d @ [(k, v)]"
  by (induction d) auto

lemma fold_dict_set:
  "distinct (map fst (d @ ps)) \<Longrightarrow> fold (\<lambda>(k, v). dict_set k v) ps d = d @ ps"
proof (induction ps arbitrary: d)
  case (Cons p ps)
  obtain k v where p: "p = (k, v)" by fastforce
  have "k \<notin> fst ` set d" using Cons.prems p by auto
  then have "dict_set k v d = d @ [(k, v)]" by (rule dict_set_append)
  then show ?case using Cons p by simp
qed simp

lemma dict_of_pairs_distinct: "distinct (map fst ps) \<Longrightarrow> dict_of_pairs ps = ps"
  using fold_dict_set [of "[]" ps] by (simp add: dict_of_pairs_def)

lemma skip_ws_head: "c \<notin> {32, 9, 10, 13} \<Longrightarrow> skip_ws (c # r) = c # r"
  by (simp add: skip_ws_def)

lemma skip_ws_space [simp]: "skip_ws (32 # r) = skip_ws r"
  by (simp add: skip_ws_def)

lemma json_text_head: "\<exists>c t. json_text j = c # t \<and> c \<notin> {32, 9, 10, 13, 93, 125}"
proof (cases j)
  case (JInt i)
  then show ?thesis using int_text_head [of i] by (auto simp: is_digit_def)
qed (auto simp: lit_def str_text_def)

lemma skip_ws_json [simp]: "skip_ws (json_text j @ r) = json_text j @ r"
  using json_text_head [of j] by (auto simp: skip_ws_head)

lemma skip_ws_str [simp]: "skip_ws (str_text s @ r) = str_text s @ r"
  by (simp add: str_text_def skip_ws_head)

lemma strip_prefix_append [simp]: "strip_prefix p (p @ r) = Some r"
  by (simp add: strip_prefix_def)

lemma parse_value_int:
  assumes "stops r" "digits_ok (JInt i)"
  shows "parse_value (Suc f) (int_text i @ r) = Inr (JInt i, r)"
proof -
  obtain c ds where c: "int_text i = c # ds" "c = 45 \<and> ds \<noteq> [] \<and> is_digit (hd ds) \<or> is_digit c"
    using int_text_head by blast
  have "c \<notin> {34, 123, 91, 110, 116, 102, 78, 73}" using c by (auto simp: is_digit_def)
  moreover have "strip_prefix (lit ''-Infinity'') (int_text i @ r) = None"
    using c by (cases ds) (auto simp: strip_prefix_def lit_def is_digit_def)
  moreover have "parse_number (int_text i @ r) = Inr (JInt i, r)"
    using parse_number_text [OF assms(1)] assms(2) by simp
  ultimately show ?thesis using c by simp
qed

lemma parsesD: "parses j \<Longrightarrow> stops r \<Longrightarrow> 2 * length (json_text j @ r) + 1 \<le> f \<Longrightarrow>
    parse_value f (json_text j @ r) = Inr (j, r)"
  by (simp add: parses_def)

lemma parse_elems_text:
  assumes "xs \<noteq> []" "list_all parses xs"
    and "2 * length (join_text (map json_text xs) @ 93 # r) + 2 \<le> f"
  shows "parse_elems f (join_text (map json_text xs) @ 93 # r) = Inr (xs, r)"
  using assms
proof (induction xs arbitrary: f)
  case outer: (Cons x xs)
  obtain f' where f: "f = Suc f'" using outer.prems(3) by (cases f) auto
  have x: "parses x" using outer.prems(2) by simp
  show ?case
  proof (cases xs)
    case Nil
    have "parse_value f' (json_text x @ 93 # r) = Inr (x, 93 # r)"
      using outer.prems(3) f Nil by (intro parsesD [OF x]) (simp_all add: stops_def)
    then show ?thesis using f Nil by (simp add: skip_ws_head)
  next
    case (Cons y ys)
    let ?t = "join_text (map json_text xs) @ 93 # r"
    have t: "join_text (map json_text (x # xs)) @ 93 # r = json_text x @ 44 # 32 # ?t"
      using Cons by simp
    obtain c t where c: "?t = c # t" "c \<notin> {32, 9, 10, 13, 93, 125}"
      using json_text_head [of y] Cons by (cases ys) auto
    have "parse_value f' (json_text x @ 44 # 32 # ?t) = Inr (x, 44 # 32 # ?t)"
      using outer.prems(3) f t by (intro parsesD [OF x]) (simp_all add: stops_def)
    moreover have "parse_elems f' ?t = Inr (xs, r)"
      by (rule outer.IH) (use outer.prems t Cons f in auto)
    moreover have "skip_ws ?t = ?t" using c by (simp add: skip_ws_head)
    ultimately show ?thesis using f t by (simp add: skip_ws_head)
  qed
qed simp

abbreviation member_text :: "pystr \<times> json \<Rightarrow> pystr" where
  "member_text \<equiv> (\<lambda>(k, v). str_text k @ [58, 32] @ json_text v)"

lemma parse_members_text:
  assumes "ps \<noteq> []" "list_all (\<lambda>(k, v). clean k \<and> parses v) ps"
    and "2 * length (join_text (map member_text ps) @ 125 # r) + 2 \<le> f"
  shows "parse_members f (join_text (map member_text ps) @ 125 # r) = Inr (ps, r)"
  using assms
proof (induction ps arbitrary: f)
  case outer: (Cons p ps)
  obtain k v where p: "p = (k, v)" by fastforce
  obtain f' where f: "f = Suc f'" using outer.prems(3) by (cases f) auto
  have k: "clean k" and v: "parses v" using outer.prems(2) p by simp_all
  show ?case
  proof (cases ps)
    case Nil
    have "parse_value f' (json_text v @ 125 # r) = Inr (v, 125 # r)"
      using outer.prems(3) f Nil p by (intro parsesD [OF v]) (simp_all add: stops_def)
    then show ?thesis using f Nil p k by (simp add: skip_ws_head)
  next
    case (Cons q qs)
    let ?t = "join_text (map member_text ps) @ 125 # r"
    have t: "join_text (map member_text (p # ps)) @ 125 # r =
        str_text k @ 58 # 32 # json_text v @ 44 # 32 # ?t"
      using Cons p by simp
    have ws: "skip_ws ?t = ?t"
      using Cons by (cases qs) (auto simp: str_text_def skip_ws_head split: prod.splits)
    have "parse_value f' (json_text v @ 44 # 32 # ?t) = Inr (v, 44 # 32 # ?t)"
      using outer.prems(3) f t by (intro parsesD [OF v]) (simp_all add: stops_def)
    moreover have "parse_members f' ?t = Inr (ps, r)"
      by (rule outer.IH) (use outer.prems t Cons f in auto)
    ultimately show ?thesis unfolding t using f p k ws by (simp add: skip_ws_head)
  qed
qed simp

lemma parse_value_list:
  assumes "list_all parses xs"
  shows "parses (JList xs)"
  unfolding parses_def
proof (intro allI impI)
  fix f r
  assume l: "2 * length (json_text (JList xs) @ r) + 1 \<le> f"
  then obtain f' where f: "f = Suc f'" by (cases f) auto
  show "parse_value f (json_text (JList xs) @ r) = Inr (JList xs, r)"
  proof (cases xs)
    case (Cons y ys)
    let ?t = "join_text (map json_text xs) @ 93 # r"
    obtain c t where c: "?t = c # t" "c \<notin> {32, 9, 10, 13, 93, 125}"
      using json_text_head [of y] Cons by (cases ys) auto
    have "parse_elems f' ?t = Inr (xs, r)"
      by (rule parse_elems_text) (use assms l f Cons in auto)
    then show ?thesis using f c by (simp add: skip_ws_head)
  qed (use f in \<open>simp add: skip_ws_head\<close>)
qed

lemma parse_value_obj:
  assumes "list_all (\<lambda>(k, v). clean k \<and> parses v) ps" "distinct (map fst ps)"
  shows "parses (JObj ps)"
  unfolding parses_def
proof (intro allI impI)
  fix f r
  assume l: "2 * length (json_text (JObj ps) @ r) + 1 \<le> f"
  then obtain f' where f: "f = Suc f'" by (cases f) auto
  show "parse_value f (json_text (JObj ps) @ r) = Inr (JObj ps, r)"
  proof (cases ps)
    case (Cons q qs)
    let ?t = "join_text (map member_text ps) @ 125 # r"
    obtain t where c: "?t = 34 # t"
      using Cons by (cases q; cases qs) (auto simp: str_text_def split: prod.splits)
    have "parse_members f' ?t = Inr (ps, r)"
      by (rule parse_members_text) (use assms l f Cons in auto)
    then show ?thesis using f c assms(2) by (simp add: skip_ws_head dict_of_pairs_distinct)
  qed (use f in \<open>simp add: skip_ws_head\<close>)
qed

lemma parses_plain: "plain j \<Longrightarrow> parses j"
proof (induction j)
  case JNull
  show ?case unfolding parses_def
    by (intro allI impI, case_tac f) (auto simp: parse_word_def lit_def strip_prefix_def)
next
  case (JBool b)
  show ?case unfolding parses_def
    by (intro allI impI, case_tac f; cases b) (auto simp: parse_word_def lit_def strip_prefix_def)
next
  case (JInt i)
  then show ?case unfolding parses_def
    by (intro allI impI, case_tac f)
      (auto simp: parse_value_int simp del: parse_value.simps digits_ok.simps)
next
  case (JStr s)
  have "parse_value (Suc f) (str_text s @ r) = Inr (JStr s, r)" for f r
  proof -
    obtain t where t: "str_text s @ r = 34 # t" by (simp add: str_text_def)
    then show ?thesis using parse_str_text [of s r] JStr by simp
  qed
  then show ?case unfolding parses_def
    by (intro allI impI, case_tac f) (auto simp del: parse_value.simps)
next
  case (JList xs)
  then show ?case by (intro parse_value_list) (auto simp: list_all_iff)
next
  case (JObj ps)
  then show ?case by (intro parse_value_obj) (auto simp: list_all_iff)
qed simp

theorem loads_json_text: "plain j \<Longrightarrow> loads (json_text j) = Inr j"
  using parsesD [OF parses_plain, of j "[]" "Suc (2 * length (json_text j))"] skip_ws_json [of j "[]"]
  by (simp add: loads_def stops_def skip_ws_def)

section \<open>Sorted keys\<close>

lemma map_fst_sort_values: "map fst (map (\<lambda>(k, v). (k, sort_json v)) ps) = map fst ps"
  by (simp add: case_prod_unfold)

lemma map_of_sort_values:
  "map_of (map (\<lambda>(k, v). (k, sort_json v)) ps) k = map_option sort_json (map_of ps k)"
  by (induction ps) auto

lemma plain_sort_json: "plain j \<Longrightarrow> plain (sort_json j)"
proof (induction j)
  case (JList xs)
  then show ?case by (auto simp: list_all_iff)
next
  case (JObj ps)
  have "distinct (map fst (sort_key fst (map (\<lambda>(k, v). (k, sort_json v)) ps)))"
    using JObj.prems by (simp only: distinct_map_fst_sort_key map_fst_sort_values) simp
  moreover have "list_all (\<lambda>(k, v). clean k \<and> plain v) (sort_key fst (map (\<lambda>(k, v). (k, sort_json v)) ps))"
    using JObj by (fastforce simp: list_all_iff)
  ultimately show ?case by simp
qed simp_all

lemma plain_dumps: "plain j \<Longrightarrow> dumps j = Inr (json_text (sort_json j))"
proof -
  assume p: "plain j"
  have "\<not> has_float j" "digits_ok j"
    using p by (induction j) (fastforce simp: list_all_iff list_ex_iff)+
  then show ?thesis by (simp add: dumps_def)
qed

lemma plain_dumps_unsorted: "plain j \<Longrightarrow> dumps_unsorted j = Inr (json_text j)"
  using plain_dumps [of j] by (auto simp: dumps_def dumps_unsorted_def split: if_splits)

theorem loads_dumps: "plain j \<Longrightarrow> \<exists>t. dumps j = Inr t \<and> loads t = Inr (sort_json j)"
  by (simp add: plain_dumps loads_json_text plain_sort_json)

lemma map_of_sorted_dict:
  "distinct (map fst ps) \<Longrightarrow>
   map_of (sort_key fst (map (\<lambda>(k, v). (k, sort_json v)) ps)) k = map_option sort_json (map_of ps k)"
  by (subst map_of_sort_key) (simp_all only: map_fst_sort_values map_of_sort_values)

section \<open>Dictionary access\<close>

lemma dict_get_Cons [json_simps]:
  "dict_get ((k, v) # d) x = (if k = lit x then v else dict_get d x)"
  by (auto simp: dict_get_def)

lemma dict_has_Cons [json_simps]:
  "dict_has ((k, v) # d) x = (k = lit x \<or> dict_has d x)"
  by (auto simp: dict_has_def)

lemma dict_get_Nil [json_simps]: "dict_get [] x = JNull" "\<not> dict_has [] x"
  by (simp_all add: dict_get_def dict_has_def)

lemma dict_get_sorted:
  "distinct (map fst ps) \<Longrightarrow>
   dict_get (sort_key fst (map (\<lambda>(k, v). (k, sort_json v)) ps)) x = sort_json (dict_get ps x)"
  by (simp add: dict_get_def map_of_sorted_dict split: option.splits)

lemma dict_has_sorted:
  "distinct (map fst ps) \<Longrightarrow>
   dict_has (sort_key fst (map (\<lambda>(k, v). (k, sort_json v)) ps)) x = dict_has ps x"
  by (simp add: dict_has_def map_of_sorted_dict)

lemma keys_dict_set: "fst ` set (dict_set k v d) = insert k (fst ` set d)"
proof (induction d)
  case (Cons p d)
  then show ?case by (cases p) (simp add: insert_commute)
qed simp

lemma distinct_dict_set: "distinct (map fst d) \<Longrightarrow> distinct (map fst (dict_set k v d))"
proof (induction d)
  case (Cons p d)
  then show ?case by (cases p) (simp add: keys_dict_set)
qed simp

lemma distinct_dict_of_pairs: "distinct (map fst (dict_of_pairs ps))"
proof -
  have "distinct (map fst d) \<Longrightarrow> distinct (map fst (fold (\<lambda>(k, v). dict_set k v) ps d))" for d
    by (induction ps arbitrary: d) (auto simp: distinct_dict_set)
  then show ?thesis by (simp add: dict_of_pairs_def)
qed

section \<open>What the parser returns can be printed again\<close>

abbreviation enc :: "pystr \<Rightarrow> bool" where
  "enc \<equiv> list_all encodable"

lemma hex_digit_less: "hex_digit c = Some x \<Longrightarrow> x < 16"
  by (auto simp: hex_digit_def split: if_splits)

lemma hex4_less: "hex4 a b c d = Some h \<Longrightarrow> h < 0x10000"
  by (auto simp: hex4_def split: option.splits dest!: hex_digit_less)

lemma low_escape_is_low: "low_escape s = Some (h, r) \<Longrightarrow> is_low h"
  by (auto simp: low_escape_def split: list.splits if_splits option.splits)

lemma low_escape_enc: "low_escape s = Some (h, r) \<Longrightarrow> enc s \<Longrightarrow> enc r"
  by (auto simp: low_escape_def split: list.splits if_splits option.splits)

lemma encodable_not_surrogate: "encodable c \<Longrightarrow> \<not> is_high c \<and> \<not> is_low c"
  by (auto simp: encodable_def is_high_def is_low_def)

lemma unescape_encodable: "unescape e = Some u \<Longrightarrow> encodable u"
  by (auto simp: unescape_def encodable_def split: if_splits)

lemma joined_encodable:
  assumes "is_high h" "is_low l"
  shows "encodable (0x10000 + (h - 0xD800) * 1024 + (l - 0xDC00))"
proof -
  obtain x y where "h = 0xD800 + x" "l = 0xDC00 + y"
    using assms by (metis is_high_def is_low_def le_Suc_ex)
  then show ?thesis using assms by (simp add: encodable_def is_high_def is_low_def)
qed

text \<open>A scanned unit is an encodable character or a lone surrogate read from an escape.\<close>

lemma scan_unit_cases:
  assumes "scan_unit s = Some (c, r)" "enc s"
  shows "enc r \<and> (encodable c \<or>
    (is_high c \<and> low_escape r = None) \<or> (is_low c \<and> low_escape s = Some (c, r)))"
proof (cases s)
  case (Cons x t)
  show ?thesis
  proof (cases "x = 92 \<and> t \<noteq> [] \<and> hd t = 117")
    case False
    then show ?thesis using assms Cons
      by (auto simp: scan_unit_def dest: unescape_encodable split: if_splits list.splits)
  next
    case True
    then obtain a b d e r3 where t: "t = 117 # a # b # d # e # r3"
      using assms(1) Cons by (auto simp: scan_unit_def split: list.splits)
    obtain h where h: "hex4 a b d e = Some h"
      using assms(1) Cons True t by (auto simp: scan_unit_def split: option.splits)
    have r3: "enc r3" using assms(2) Cons t by simp
    show ?thesis
    proof (cases "if is_high h then low_escape r3 else None")
      case None
      then have "c = h" "r = r3" using assms(1) Cons True t h by (simp_all add: scan_unit_def)
      moreover have "encodable h \<or> is_high h \<or> is_low h"
        using hex4_less [OF h] by (auto simp: encodable_def is_high_def is_low_def)
      moreover have "is_low h \<Longrightarrow> low_escape s = Some (h, r3)"
        using Cons True t h by (simp add: low_escape_def)
      ultimately show ?thesis using r3 None by (auto split: if_splits)
    next
      case (Some p)
      obtain l r4 where p: "p = (l, r4)" by fastforce
      with Some have l: "is_high h" "low_escape r3 = Some (l, r4)" by (auto split: if_splits)
      then have "c = 0x10000 + (h - 0xD800) * 1024 + (l - 0xDC00)" "r = r4"
        using assms(1) Cons True t h by (simp_all add: scan_unit_def)
      then show ?thesis
        using joined_encodable [OF l(1) low_escape_is_low [OF l(2)]] low_escape_enc [OF l(2) r3]
        by simp
    qed
  qed
qed (use assms in \<open>simp add: scan_unit_def\<close>)

lemma scan_string_clean:
  assumes "scan_string f s = Some (t, r)" "enc s"
  shows "clean t \<and> enc r \<and> (t \<noteq> [] \<and> is_low (hd t) \<longrightarrow> low_escape s \<noteq> None)"
  using assms
proof (induction f arbitrary: s t r)
  case (Suc f)
  show ?case
  proof (cases "s \<noteq> [] \<and> hd s = 34")
    case True
    then show ?thesis using Suc.prems by (cases s) auto
  next
    case False
    then obtain c r1 t' where u: "scan_unit s = Some (c, r1)" "scan_string f r1 = Some (t', r)" "t = c # t'"
      using Suc.prems(1) by (auto split: option.splits if_splits)
    note c = scan_unit_cases [OF u(1) Suc.prems(2)]
    note IH = Suc.IH [OF u(2)]
    have "c < 0x110000"
      using c by (auto simp: encodable_def is_high_def is_low_def)
    moreover have "\<not> (is_high c \<and> t' \<noteq> [] \<and> is_low (hd t'))"
      using c IH encodable_not_surrogate by (auto simp: is_high_def is_low_def)
    ultimately show ?thesis
      using c IH u(3) encodable_not_surrogate by (auto simp: clean_Cons is_high_def is_low_def)
  qed
qed simp

lemma enc_skip_ws: "enc s \<Longrightarrow> enc (skip_ws s)"
  by (induction s) (auto simp: skip_ws_def)

lemma enc_skip_ws_Cons: "skip_ws s = c # r \<Longrightarrow> enc s \<Longrightarrow> enc r"
  using enc_skip_ws [of s] by simp

lemma parse_str_clean: "parse_str s = Inr (t, r) \<Longrightarrow> enc s \<Longrightarrow> clean t \<and> enc r"
  unfolding parse_str_def
  by (auto split: list.splits if_splits option.splits simp del: scan_string.simps
      dest!: scan_string_clean)

lemma enc_drop: "enc s \<Longrightarrow> enc (drop n s)"
  by (auto simp: list_all_iff dest: in_set_dropD)

lemma parse_word_tidy: "parse_word w v s = Inr (x, r) \<Longrightarrow> enc s \<Longrightarrow> x = v \<and> enc r"
  by (auto simp: parse_word_def strip_prefix_def enc_drop split: option.splits if_splits)

lemma enc_dropWhile: "enc s \<Longrightarrow> enc (dropWhile P s)"
  by (induction s) auto

lemma enc_number_parts:
  "enc s \<Longrightarrow> scan_int_part s = Some (x, r) \<Longrightarrow> enc r"
  "enc s \<Longrightarrow> scan_frac s = (y, r) \<Longrightarrow> enc r"
  "enc s \<Longrightarrow> scan_exp s = (z, r) \<Longrightarrow> enc r"
proof -
  show "enc s \<Longrightarrow> scan_int_part s = Some (x, r) \<Longrightarrow> enc r"
    by (auto simp: scan_int_part_def enc_dropWhile split: list.splits if_splits)
  show "enc s \<Longrightarrow> scan_frac s = (y, r) \<Longrightarrow> enc r"
    by (auto simp: scan_frac_def enc_dropWhile split: list.splits if_splits)
  have "enc t \<Longrightarrow> enc (tl t)" for t by (cases t) auto
  then show "enc s \<Longrightarrow> scan_exp s = (z, r) \<Longrightarrow> enc r"
    by (auto simp: scan_exp_def Let_def enc_dropWhile split: list.splits if_splits)
qed

lemma parse_number_tidy: "parse_number s = Inr (v, r) \<Longrightarrow> enc s \<Longrightarrow> tidy v \<and> enc r"
proof (erule parse_number_parts)
  fix ip s2 fp s3 ex
  assume e: "enc s" and p: "scan_int_part (if s \<noteq> [] \<and> hd s = 45 then tl s else s) = Some (ip, s2)"
    "scan_frac s2 = (fp, s3)" "scan_exp s3 = (ex, r)" "(\<exists>i. v = JInt i) \<or> (\<exists>x. v = JFloat x)"
  have "enc (if s \<noteq> [] \<and> hd s = 45 then tl s else s)" using e by (cases s) auto
  then have "enc r" using enc_number_parts p(1-3) by blast
  then show ?thesis using p(4) by auto
qed

lemma tidy_dict_of_pairs:
  assumes "list_all (\<lambda>(k, v). clean k \<and> tidy v) ps"
  shows "tidy (JObj (dict_of_pairs ps))"
proof -
  have set: "list_all (\<lambda>(k, v). clean k \<and> tidy v) d \<Longrightarrow> clean k \<Longrightarrow> tidy v \<Longrightarrow>
      list_all (\<lambda>(k, v). clean k \<and> tidy v) (dict_set k v d)" for k v d
    by (induction d) auto
  have "list_all (\<lambda>(k, v). clean k \<and> tidy v) d \<Longrightarrow>
      list_all (\<lambda>(k, v). clean k \<and> tidy v) (fold (\<lambda>(k, v). dict_set k v) ps d)" for d
    using assms by (induction ps arbitrary: d) (auto simp: set)
  then show ?thesis
    using distinct_dict_of_pairs [of ps] by (simp add: dict_of_pairs_def)
qed

lemma parse_value_tidy_step:
  assumes "\<And>s vs r. parse_elems f s = Inr (vs, r) \<Longrightarrow> enc s \<Longrightarrow> list_all tidy vs \<and> enc r"
    and "\<And>s ps r. parse_members f s = Inr (ps, r) \<Longrightarrow> enc s \<Longrightarrow>
           list_all (\<lambda>(k, v). clean k \<and> tidy v) ps \<and> enc r"
    and "parse_value (Suc f) s = Inr (v, r)" "enc s"
  shows "tidy v \<and> enc r"
proof (cases s)
  case (Cons c t)
  have t: "enc t" using assms(4) Cons by simp
  have br: "enc (d # t2)" if "skip_ws t = d # t2" for d t2
    using enc_skip_ws [OF t] that by simp
  consider "c = 123" | "c = 91" | "c \<noteq> 123" "c \<noteq> 91" by blast
  then show ?thesis
  proof cases
    case 1
    obtain d t2 where d: "skip_ws t = d # t2" using assms(3) Cons 1 by (cases "skip_ws t") auto
    then show ?thesis
      using assms(3) Cons 1 br [OF d] assms(2) [of "d # t2"] tidy_dict_of_pairs
      by (auto split: if_splits simp del: tidy.simps(3)) auto
  next
    case 2
    obtain d t2 where d: "skip_ws t = d # t2" using assms(3) Cons 2 by (cases "skip_ws t") auto
    then show ?thesis
      using assms(3) Cons 2 br [OF d] assms(1) [of "d # t2"] by (auto split: if_splits)
  next
    case 3
    then show ?thesis
      using assms(3,4) Cons
      by (auto split: if_splits dest!: parse_str_clean parse_word_tidy parse_number_tidy)
  qed
qed (use assms in simp)

lemma parse_tidy:
  "(\<forall>s v r. parse_value f s = Inr (v, r) \<longrightarrow> enc s \<longrightarrow> tidy v \<and> enc r) \<and>
   (\<forall>s vs r. parse_elems f s = Inr (vs, r) \<longrightarrow> enc s \<longrightarrow> list_all tidy vs \<and> enc r) \<and>
   (\<forall>s ps r. parse_members f s = Inr (ps, r) \<longrightarrow> enc s \<longrightarrow>
      list_all (\<lambda>(k, v). clean k \<and> tidy v) ps \<and> enc r)"
proof (induction f)
  case (Suc f)
  have v: "tidy v \<and> enc r" if "parse_value f s = Inr (v, r)" "enc s" for s v r using Suc that by blast
  have e: "list_all tidy vs \<and> enc r" if "parse_elems f s = Inr (vs, r)" "enc s" for s vs r
    using Suc that by blast
  have m: "list_all (\<lambda>(k, v). clean k \<and> tidy v) ps \<and> enc r"
    if "parse_members f s = Inr (ps, r)" "enc s" for s ps r using Suc that by blast
  have E: "list_all tidy vs \<and> enc r" if "parse_elems (Suc f) s = Inr (vs, r)" "enc s" for s vs r
    using that(1)
  proof (cases rule: parse_elems_SucE)
    case (last x r1)
    then show ?thesis using v [OF last(1) that(2)] enc_skip_ws_Cons [OF last(2)] by simp
  next
    case (more x r1 r2 vs')
    have "enc (skip_ws r2)"
      using v [OF more(1) that(2)] enc_skip_ws_Cons [OF more(2)] enc_skip_ws by blast
    then show ?thesis using v [OF more(1) that(2)] e [OF more(3)] more(4) by simp
  qed
  have M: "list_all (\<lambda>(k, v). clean k \<and> tidy v) ps \<and> enc r"
    if "parse_members (Suc f) s = Inr (ps, r)" "enc s" for s ps r
    using that(1)
  proof (cases rule: parse_members_SucE)
    case (last k r1 r2 x r3)
    have k: "clean k" and "enc (skip_ws r2)"
      using parse_str_clean [OF last(1) that(2)] enc_skip_ws_Cons [OF last(2)] enc_skip_ws by blast+
    then show ?thesis using v [OF last(3)] enc_skip_ws_Cons [OF last(4)] last(5) by simp
  next
    case (more k r1 r2 x r3 r4 ps')
    have k: "clean k" and "enc (skip_ws r2)"
      using parse_str_clean [OF more(1) that(2)] enc_skip_ws_Cons [OF more(2)] enc_skip_ws by blast+
    then have x: "tidy x" and "enc (skip_ws r4)"
      using v [OF more(3)] enc_skip_ws_Cons [OF more(4)] enc_skip_ws by blast+
    then show ?thesis using m [OF more(5)] more(6) k by simp
  qed
  have V: "tidy v \<and> enc r" if "parse_value (Suc f) s = Inr (v, r)" "enc s" for s v r
    by (rule parse_value_tidy_step [OF e m that])
  from V E M show ?case by blast
qed simp

theorem loads_tidy: "loads s = Inr j \<Longrightarrow> list_all encodable s \<Longrightarrow> tidy j"
  using parse_tidy [of "Suc (2 * length s)"] enc_skip_ws
  by (auto simp: loads_def simp del: parse_value.simps split: if_splits)

section \<open>The size of printed text\<close>

lemma length_join_text: "length (join_text xs) = sum_list (map length xs) + 2 * (length xs - 1)"
  by (induction xs rule: join_text.induct) auto

lemma sum_list_insort_key:
  "sum_list (map f (insort_key k x xs)) = f x + sum_list (map (f :: 'a \<Rightarrow> nat) xs)"
  by (induction xs) auto

lemma sum_list_sort_key: "sum_list (map f (sort_key k xs)) = sum_list (map (f :: 'a \<Rightarrow> nat) xs)"
  by (induction xs) (simp_all add: sum_list_insort_key)

lemma length_json_text_sort: "length (json_text (sort_json j)) = length (json_text j)"
proof (induction j)
  case (JList xs)
  then have "sum_list (map (\<lambda>x. length (json_text (sort_json x))) xs)
      = sum_list (map (\<lambda>x. length (json_text x)) xs)"
    by (intro arg_cong [where f = sum_list]) simp
  then show ?case by (simp add: length_join_text comp_def)
next
  case (JObj ps)
  have "sum_list (map (length \<circ> member_text) (sort_key fst (map (\<lambda>(k, v). (k, sort_json v)) ps)))
      = sum_list (map (length \<circ> member_text) (map (\<lambda>(k, v). (k, sort_json v)) ps))"
    by (rule sum_list_sort_key)
  also have "\<dots> = sum_list (map (length \<circ> member_text) ps)"
    using JObj by (intro arg_cong [where f = sum_list]) (fastforce simp: snds.simps)
  finally show ?case by (simp add: length_join_text)
qed simp_all

lemma ascii_int: "ascii (int_text i)"
  using nat_text_digits [of i] nat_text_digits [of "- i"]
  by (fastforce simp: int_text_def list_all_iff is_digit_def)

lemma hex_char_less: "n < 16 \<Longrightarrow> hex_char n < 128"
  by (simp add: hex_char_def)

lemma ascii_u_escape: "c < 0x10000 \<Longrightarrow> ascii (u_escape c)"
  by (simp add: u_escape_def hex_char_less)

lemma ascii_escape: "c < 0x110000 \<Longrightarrow> ascii (escape_char c)"
  by (auto simp: escape_char_def intro!: ascii_u_escape)

lemma ascii_str: "list_all (\<lambda>c. c < 0x110000) s \<Longrightarrow> ascii (str_text s)"
  using ascii_escape by (auto simp: str_text_def list_all_iff)

lemma ascii_join: "list_all ascii xs \<Longrightarrow> ascii (join_text xs)"
  by (induction xs rule: join_text.induct) auto

lemma ascii_json: "plain j \<Longrightarrow> ascii (json_text j)"
proof (induction j)
  case (JObj ps)
  have "ascii (member_text p)" if "p \<in> set ps" for p
  proof -
    obtain k v where p: "p = (k, v)" by fastforce
    have kv: "clean k" "plain v" using that JObj.prems p by (auto simp: list_all_iff)
    have "ascii (json_text v)" using JObj.IH [OF that _ kv(2)] p by simp
    then show ?thesis using kv(1) by (simp add: p ascii_str clean_def)
  qed
  then have "list_all ascii (map member_text ps)" by (simp only: list_all_iff) auto
  then have "ascii (join_text (map member_text ps))" by (rule ascii_join)
  then show ?case by simp
next
  case (JList xs)
  then show ?case by (auto simp: list_all_iff intro!: ascii_join [unfolded list_all_iff])
qed (auto simp: ascii_int ascii_str clean_def lit_def)

lemma ascii_utf8: "ascii s \<Longrightarrow> list_all encodable s \<and> utf8_size s = length s"
  by (induction s) (auto simp: utf8_char_def utf8_size_def)

lemma int_text_length: "\<bar>i\<bar> < 10 ^ 18 \<Longrightarrow> length (int_text i) \<le> 19"
  using nat_text_length [of i 18] nat_text_length [of "- i" 18] by (auto simp: int_text_def)

lemma printable_text: "printable s \<Longrightarrow> clean s \<and> length (str_text s) = length s + 2"
proof (induction s)
  case (Cons c s)
  then show ?case by (auto simp: printable_def str_text_def escape_char_def clean_Cons is_high_def)
qed (simp add: str_text_def)

lemma printable_lit: "list_all (\<lambda>c. printable (lit [c])) s \<Longrightarrow> printable (lit s)"
  by (simp add: printable_def lit_def list_all_iff)

lemma fits_scalar:
  "small i \<Longrightarrow> fits 19 (JInt i)"
  "printable t \<Longrightarrow> length t \<le> n \<Longrightarrow> fits (n + 2) (JStr t)"
  "fits 5 (JBool b)"
  using digits_ok_small [of i] int_text_length [of i] printable_text [of t]
  by (auto simp: fits_def small_def lit_def)

lemma members_fit:
  "list_all2 (\<lambda>(k, v) n. printable k \<and> fits n v) ps ns \<Longrightarrow>
   sum_list (map (length \<circ> member_text) ps) \<le> sum_list (map (length \<circ> fst) ps) + sum_list ns + 4 * length ps
   \<and> list_all (\<lambda>(k, v). clean k \<and> plain v) ps"
  by (induction rule: list_all2_induct) (fastforce simp: fits_def dest: printable_text)+

lemma fits_obj:
  assumes "list_all2 (\<lambda>(k, v) n. printable k \<and> fits n v) ps ns" "distinct (map fst ps)"
    and "sum_list (map (length \<circ> fst) ps) + sum_list ns + 6 * length ps + 2 \<le> m"
  shows "fits m (JObj ps)"
proof -
  let ?s = "sum_list (map (length \<circ> member_text) ps)"
  have "?s \<le> sum_list (map (length \<circ> fst) ps) + sum_list ns + 4 * length ps"
    "list_all (\<lambda>(k, v). clean k \<and> plain v) ps"
    using members_fit [OF assms(1)] by auto
  moreover have "length (json_text (JObj ps)) = ?s + 2 * (length ps - 1) + 2"
    by (simp add: length_join_text)
  ultimately show ?thesis using assms(2,3) unfolding fits_def plain.simps by linarith
qed

end
