(* ===== verification/Effects.thy ===== *)
theory Effects
  imports Prelude
begin

text \<open>
  Stateful Python code: a computation takes the state of the world and ends with a result or an
  exception and the state it leaves, so that the effects before a raise are kept. Sequencing,
  \<open>try\<close>/\<open>except\<close> and triples over such computations, shared by the file-system and the supervisor
  theories.
\<close>

type_synonym ('s, 'a) eff = "'s \<Rightarrow> 'a res \<times> 's"

section \<open>Computations that may raise\<close>

definition io_bind :: "('s, 'a) eff \<Rightarrow> ('a \<Rightarrow> ('s, 'b) eff) \<Rightarrow> ('s, 'b) eff" where
  "io_bind m k s = (case m s of (Inl e, s') \<Rightarrow> (Inl e, s') | (Inr x, s') \<Rightarrow> k x s')"

definition io_catch :: "('s, 'a) eff \<Rightarrow> (pyerr \<Rightarrow> ('s, 'a) eff) \<Rightarrow> ('s, 'a) eff" where
  "io_catch m h s = (case m s of (Inl e, s') \<Rightarrow> h e s' | (Inr x, s') \<Rightarrow> (Inr x, s'))"

definition io_return :: "'a \<Rightarrow> ('s, 'a) eff" where
  "io_return x s = (Inr x, s)"

definition io_raise :: "pyerr \<Rightarrow> ('s, 'a) eff" where
  "io_raise e s = (Inl e, s)"

definition io_get :: "('s \<Rightarrow> 'a) \<Rightarrow> ('s, 'a) eff" where
  "io_get f s = (Inr (f s), s)"

definition io_do :: "('s \<Rightarrow> 's) \<Rightarrow> ('s, unit) eff" where
  "io_do f s = (Inr (), f s)"

definition io_read :: "('s \<Rightarrow> 'a res) \<Rightarrow> ('s, 'a) eff" where
  "io_read f s = (f s, s)"

definition io_lift :: "'a res \<Rightarrow> ('s, 'a) eff" where
  "io_lift m s = (m, s)"

text \<open>\<open>triple P m Q\<close>: started in a state of \<open>P\<close>, \<open>m\<close> ends with a result and state of \<open>Q\<close>.\<close>

definition triple :: "('s \<Rightarrow> bool) \<Rightarrow> ('s, 'a) eff \<Rightarrow> ('a res \<Rightarrow> 's \<Rightarrow> bool) \<Rightarrow> bool" where
  "triple P m Q \<longleftrightarrow> (\<forall>s r s'. P s \<longrightarrow> m s = (r, s') \<longrightarrow> Q r s')"

text \<open>Computations that keep an invariant, whatever they return.\<close>

definition maintains :: "('s \<Rightarrow> bool) \<Rightarrow> ('s, 'a) eff \<Rightarrow> bool" where
  "maintains I m \<longleftrightarrow> triple I m (\<lambda>_. I)"

text \<open>Computations that change the state along a relation only, whatever they return.\<close>

definition evolves :: "('s \<Rightarrow> 's \<Rightarrow> bool) \<Rightarrow> ('s, 'a) eff \<Rightarrow> bool" where
  "evolves R m \<longleftrightarrow> (\<forall>s. R s (snd (m s)))"

section \<open>Reasoning about computations\<close>

lemma tripleI: "(\<And>s r s'. P s \<Longrightarrow> m s = (r, s') \<Longrightarrow> Q r s') \<Longrightarrow> triple P m Q"
  by (auto simp: triple_def)

lemma tripleD: "triple P m Q \<Longrightarrow> P s \<Longrightarrow> m s = (r, s') \<Longrightarrow> Q r s'"
  by (auto simp: triple_def)

lemma triple_bind:
  assumes "triple P m (\<lambda>r s. case r of Inl e \<Rightarrow> Q (Inl e) s | Inr x \<Rightarrow> R x s)"
    and "\<And>x. triple (R x) (k x) Q"
  shows "triple P (io_bind m k) Q"
proof (rule tripleI)
  fix s r s' assume p: "P s" and r: "io_bind m k s = (r, s')"
  obtain r1 s1 where m: "m s = (r1, s1)" by fastforce
  show "Q r s'"
    using tripleD [OF assms(1) p m] r m assms(2)
    by (cases r1) (auto simp: io_bind_def dest: tripleD)
qed

lemma triple_catch:
  assumes "triple P m (\<lambda>r s. case r of Inl e \<Rightarrow> R e s | Inr x \<Rightarrow> Q (Inr x) s)"
    and "\<And>e. triple (R e) (h e) Q"
  shows "triple P (io_catch m h) Q"
proof (rule tripleI)
  fix s r s' assume p: "P s" and r: "io_catch m h s = (r, s')"
  obtain r1 s1 where m: "m s = (r1, s1)" by fastforce
  show "Q r s'"
    using tripleD [OF assms(1) p m] r m assms(2)
    by (cases r1) (auto simp: io_catch_def dest: tripleD)
qed

lemma triple_weaken: "triple P m Q \<Longrightarrow> (\<And>s. P' s \<Longrightarrow> P s) \<Longrightarrow> (\<And>r s. Q r s \<Longrightarrow> Q' r s) \<Longrightarrow> triple P' m Q'"
  unfolding triple_def by blast

lemma triple_return: "(\<And>s. P s \<Longrightarrow> Q (Inr x) s) \<Longrightarrow> triple P (io_return x) Q"
  by (auto simp: triple_def io_return_def)

lemma triple_raise: "(\<And>s. P s \<Longrightarrow> Q (Inl e) s) \<Longrightarrow> triple P (io_raise e) Q"
  by (auto simp: triple_def io_raise_def)

named_theorems maintain \<open>computations that keep an invariant\<close>

lemma maintains_bind [maintain]:
  "maintains I m \<Longrightarrow> (\<And>x. maintains I (k x)) \<Longrightarrow> maintains I (io_bind m k)"
  unfolding maintains_def by (rule triple_bind [where R = "\<lambda>_. I"]) (auto elim!: triple_weaken split: sum.splits)

lemma maintains_catch [maintain]:
  "maintains I m \<Longrightarrow> (\<And>e. maintains I (h e)) \<Longrightarrow> maintains I (io_catch m h)"
  unfolding maintains_def by (rule triple_catch [where R = "\<lambda>_. I"]) (auto elim!: triple_weaken split: sum.splits)

lemma maintains_basic [maintain]:
  "maintains I (io_return x)" "maintains I (io_raise e)" "maintains I (io_get f)"
  by (auto simp: maintains_def triple_def io_return_def io_raise_def io_get_def)

lemma maintains_if [maintain]:
  "(b \<Longrightarrow> maintains I m) \<Longrightarrow> (\<not> b \<Longrightarrow> maintains I m') \<Longrightarrow> maintains I (if b then m else m')"
  by simp

lemmas effect_defs = io_bind_def io_catch_def io_return_def io_raise_def io_read_def io_get_def io_lift_def

section \<open>Evolution along a preorder\<close>

locale evolution =
  fixes R :: "'s \<Rightarrow> 's \<Rightarrow> bool"
  assumes refl: "R s s" and trans: "R s t \<Longrightarrow> R t u \<Longrightarrow> R s u"
begin

lemma bind: "evolves R m \<Longrightarrow> (\<And>x. evolves R (k x)) \<Longrightarrow> evolves R (io_bind m k)"
  unfolding evolves_def io_bind_def
  by (auto split: prod.splits sum.splits) (metis trans snd_conv)+

lemma catch: "evolves R m \<Longrightarrow> (\<And>e. evolves R (h e)) \<Longrightarrow> evolves R (io_catch m h)"
  unfolding evolves_def io_catch_def
  by (auto split: prod.splits sum.splits) (metis trans snd_conv)+

lemma basic:
  "evolves R (io_return x)" "evolves R (io_raise e)" "evolves R (io_read f)" "evolves R (io_get g)" "evolves R (io_lift r)"
  by (simp_all add: evolves_def effect_defs refl)

lemma branches:
  "(b \<Longrightarrow> evolves R m) \<Longrightarrow> (\<not> b \<Longrightarrow> evolves R m') \<Longrightarrow> evolves R (if b then m else m')"
  "evolves R m \<Longrightarrow> (\<And>x. evolves R (f x)) \<Longrightarrow> evolves R (case v of None \<Rightarrow> m | Some x \<Rightarrow> f x)"
  "(\<And>x. evolves R (g x)) \<Longrightarrow> (\<And>x. evolves R (h x)) \<Longrightarrow> evolves R (case w of Inl x \<Rightarrow> g x | Inr x \<Rightarrow> h x)"
  by (simp_all split: option.splits sum.splits)

lemmas rules = bind catch basic branches

end

end
