(* ===== verification/Durable.thy ===== *)
theory Durable
  imports PyJsonText Effects
begin

text \<open>
  \<open>src/lubko/durable.py\<close>: crash-durable writes, symlink switches and removals. The file system is
  what readers see together with, for every path, the entries a crash may leave there: a rename or an
  unlink adds a possibility, a directory \<open>fsync\<close> leaves only what is visible, and a file whose bytes
  were not yet flushed is marked torn. Every system call can fail: the state carries a schedule of
  faults, of short writes and of random names, and the fault injector of the source. The stat calls of
  \<open>pathlib\<close> do not fail.
\<close>

section \<open>The file system\<close>

type_synonym path = "string list"

datatype node = File pybytes bool | Link string | Dir | Other

datatype stage = FSYNC_STAGE_FILE | FSYNC_STAGE_REPLACE | FSYNC_STAGE_DIR

record fs =
  fs_view :: "path \<Rightarrow> node option"
  fs_disk :: "path \<Rightarrow> node option list"
  fs_follow :: "path \<Rightarrow> string \<Rightarrow> path"
  fs_faults :: "bool list"
  fs_writes :: "nat list"
  fs_names :: "string list"
  fs_short_write :: "(nat \<Rightarrow> nat) option"
  fs_injector :: "(bool \<times> (path \<Rightarrow> stage \<Rightarrow> bool)) option"
  fs_depth :: "path \<Rightarrow> nat"
  fs_flock :: "path \<Rightarrow> bool"

type_synonym 'a io = "(fs, 'a) eff"

definition parent :: "path \<Rightarrow> path" where
  "parent p = butlast p"

text \<open>An entry changes: readers see the new one, a crash may leave any of them.\<close>

definition set_entry :: "path \<Rightarrow> node option \<Rightarrow> fs \<Rightarrow> fs" where
  "set_entry p n s = s\<lparr>fs_view := (fs_view s)(p := n), fs_disk := (fs_disk s)(p := n # fs_disk s p)\<rparr>"

definition record_directory :: "path \<Rightarrow> fs \<Rightarrow> fs" where
  "record_directory d s =
    s\<lparr>fs_disk := (\<lambda>p. if p \<noteq> [] \<and> parent p = d then [fs_view s p] else fs_disk s p)\<rparr>"

fun flush_node :: "node option \<Rightarrow> node option" where
  "flush_node (Some (File d b)) = Some (File d True)"
| "flush_node n = n"

definition flush_file :: "path \<Rightarrow> fs \<Rightarrow> fs" where
  "flush_file p s = s\<lparr>fs_view := (fs_view s)(p := flush_node (fs_view s p)),
     fs_disk := (fs_disk s)(p := flush_node (fs_view s p) # fs_disk s p)\<rparr>"

section \<open>System calls\<close>

text \<open>A system call: the next scheduled fault makes it raise, otherwise it has its effect.\<close>

definition syscall :: "(fs \<Rightarrow> fs) \<Rightarrow> unit io" where
  "syscall f s = (case fs_faults s of
      True # fts \<Rightarrow> (Raise OSError, s\<lparr>fs_faults := fts\<rparr>)
    | False # fts \<Rightarrow> (Ok (), f (s\<lparr>fs_faults := fts\<rparr>))
    | [] \<Rightarrow> (Ok (), f s))"

definition is_durability_error :: "pyerr \<Rightarrow> bool" where
  "is_durability_error e = (case e of DurabilityError _ \<Rightarrow> True | _ \<Rightarrow> False)"

definition suppress_durability :: "unit io \<Rightarrow> unit io" where
  "suppress_durability m = io_catch m (\<lambda>e. if is_durability_error e then io_return () else io_raise e)"

definition os_to_durability :: "string \<Rightarrow> 'a io \<Rightarrow> 'a io" where
  "os_to_durability msg m = io_catch m (\<lambda>e. if e = OSError then io_raise (DurabilityError msg) else io_raise e)"

section \<open>Fault injection and directories\<close>

definition set_one_shot_fsync_failure_injector :: "stage \<Rightarrow> path option \<Rightarrow> fs \<Rightarrow> fs" where
  "set_one_shot_fsync_failure_injector st p s =
    s\<lparr>fs_injector := Some (True, \<lambda>current_path current_stage.
       current_stage = st \<and> (p = None \<or> p = Some current_path))\<rparr>"

definition maybe_inject :: "path \<Rightarrow> stage \<Rightarrow> unit io" where
  "maybe_inject p st s = (case fs_injector s of
      None \<Rightarrow> (Ok (), s)
    | Some (once, fires) \<Rightarrow>
        if fires p st
        then (Raise (DurabilityError ''injected failure''), if once then s\<lparr>fs_injector := None\<rparr> else s)
        else (Ok (), s))"

definition fsync_directory :: "path \<Rightarrow> unit io" where
  "fsync_directory d = os_to_durability ''cannot fsync directory''
    (io_bind (syscall id) (\<lambda>_.
     io_bind (maybe_inject d FSYNC_STAGE_DIR) (\<lambda>_.
     syscall (record_directory d))))"

definition fsync_directory_plain :: "path \<Rightarrow> unit io" where
  "fsync_directory_plain d = os_to_durability ''cannot fsync directory''
    (io_bind (syscall id) (\<lambda>_. syscall (record_directory d)))"

definition followed :: "fs \<Rightarrow> path \<Rightarrow> node option" where
  "followed s p = (case fs_view s p of
      Some (Link t) \<Rightarrow> fs_view s (fs_follow s p t) | n \<Rightarrow> n)"

definition is_dir :: "fs \<Rightarrow> path \<Rightarrow> bool" where
  "is_dir s p \<longleftrightarrow> followed s p = Some Dir"

text \<open>The walk up to the first existing directory; the root is its own parent.\<close>

function missing_levels :: "fs \<Rightarrow> path \<Rightarrow> path list \<times> path" where
  "missing_levels s p =
    (if is_dir s p then ([], p)
     else if p = [] then ([p], p)
     else (case missing_levels s (parent p) of (ms, first_existing) \<Rightarrow> (p # ms, first_existing)))"
  by pat_completeness auto
termination
  by (relation "measure (\<lambda>(s, p). length p)") (auto simp: parent_def)

definition mkdir_exist_ok :: "path \<Rightarrow> unit io" where
  "mkdir_exist_ok p = io_bind (syscall id) (\<lambda>_. io_bind (io_get (\<lambda>s. (fs_view s p, is_dir s p))) (\<lambda>(n, d).
     if n = None then io_do (set_entry p (Some Dir))
     else if d then io_return () else io_raise OSError))"

fun make_levels :: "path list \<Rightarrow> unit io" where
  "make_levels [] = io_return ()"
| "make_levels (child # rest) =
     io_bind (os_to_durability ''cannot create directory durably'' (mkdir_exist_ok child)) (\<lambda>_.
     io_bind (fsync_directory_plain (parent child)) (\<lambda>_. make_levels rest))"

definition make_directory_durable :: "path \<Rightarrow> unit io" where
  "make_directory_durable directory =
    io_bind (io_get (\<lambda>s. missing_levels s directory)) (\<lambda>(missing, first_existing).
    io_bind (make_levels (rev missing)) (\<lambda>_.
      if first_existing \<noteq> directory then fsync_directory_plain (parent first_existing)
      else fsync_directory_plain (parent directory)))"

section \<open>Temporary files and locks\<close>

definition DURABLE_TEMP_PREFIX :: string where "DURABLE_TEMP_PREFIX = ''.lubko-durable-''"
definition DURABLE_LOCK_PREFIX :: string where "DURABLE_LOCK_PREFIX = ''.lubko-durable-lock-''"

text \<open>The process id and the random suffix are the next name of the schedule.\<close>

definition temporary_path :: "path \<Rightarrow> path io" where
  "temporary_path destination s =
    (let unique = (case fs_names s of [] \<Rightarrow> [] | n # _ \<Rightarrow> n) in
     (Ok (parent destination @ [DURABLE_TEMP_PREFIX @ unique @ ''-'' @ last destination]),
      s\<lparr>fs_names := tl (fs_names s)\<rparr>))"

definition lock_path :: "path \<Rightarrow> path" where
  "lock_path destination = parent destination @ [DURABLE_LOCK_PREFIX @ last destination]"

definition open_lock_file :: "path \<Rightarrow> fs \<Rightarrow> fs" where
  "open_lock_file key s = (if fs_view s key = None then set_entry key (Some (File [] True)) s else s)"

definition acquire_lock :: "path \<Rightarrow> bool io" where
  "acquire_lock key s =
    (Ok (fs_depth s key = 0), s\<lparr>fs_depth := (fs_depth s)(key := fs_depth s key + 1)\<rparr>)"

definition release_lock :: "path \<Rightarrow> fs \<Rightarrow> fs" where
  "release_lock key s = s\<lparr>fs_depth := (fs_depth s)(key := fs_depth s key - 1)\<rparr>"

definition set_flock :: "path \<Rightarrow> bool \<Rightarrow> fs \<Rightarrow> fs" where
  "set_flock key b s = s\<lparr>fs_flock := (fs_flock s)(key := b)\<rparr>"

definition abandon_on_error :: "path \<Rightarrow> string \<Rightarrow> unit io \<Rightarrow> unit io" where
  "abandon_on_error key msg m =
    io_catch m (\<lambda>_. io_bind (io_do (release_lock key)) (\<lambda>_. io_raise (DurabilityError msg)))"

text \<open>The body runs with the lock held; the lock is given back whatever the body did.\<close>

definition serialized :: "path \<Rightarrow> unit io \<Rightarrow> unit io" where
  "serialized destination body =
    (let key = lock_path destination in
     io_bind (acquire_lock key) (\<lambda>outermost.
     io_bind (if outermost then
          io_bind (abandon_on_error key ''cannot open durable lock'' (syscall (open_lock_file key))) (\<lambda>_.
            abandon_on_error key ''cannot acquire durable lock'' (syscall (set_flock key True)))
        else io_return ()) (\<lambda>_ s.
     (case body s of (r, s') \<Rightarrow>
        (r, release_lock key (if outermost then set_flock key False s' else s'))))))"

definition append_bytes :: "path \<Rightarrow> pybytes \<Rightarrow> fs \<Rightarrow> fs" where
  "append_bytes p bs s = set_entry p (case fs_view s p of
      Some (File d _) \<Rightarrow> Some (File (d @ bs) False) | n \<Rightarrow> n) s"

text \<open>One \<open>os.write\<close>: it may raise, and it may transfer fewer bytes than asked for.\<close>

definition os_write :: "path \<Rightarrow> pybytes \<Rightarrow> nat io" where
  "os_write p chunk = io_bind (syscall id) (\<lambda>_ s.
     (let n = (case fs_writes s of [] \<Rightarrow> length chunk | m # _ \<Rightarrow> min m (length chunk)) in
      (Ok n, append_bytes p (take n chunk) (s\<lparr>fs_writes := tl (fs_writes s)\<rparr>))))"

text \<open>The first chunk is cut by the short-write simulator when one is installed.\<close>

definition first_chunk :: "fs \<Rightarrow> bool \<Rightarrow> pybytes \<Rightarrow> pybytes" where
  "first_chunk s first chunk = (case fs_short_write s of
      Some f \<Rightarrow> if first then take (max 1 (f (length chunk))) chunk else chunk
    | None \<Rightarrow> chunk)"

function write_all :: "path \<Rightarrow> pybytes \<Rightarrow> bool \<Rightarrow> unit io" where
  "write_all p rest first s =
    (if rest = [] then (Ok (), s)
     else (case os_write p (first_chunk s first rest) s of
        (Inl e, s') \<Rightarrow> (Inl e, s')
      | (Inr n, s') \<Rightarrow> if n = 0 then (Raise OSError, s') else write_all p (drop n rest) False s'))"
  by pat_completeness auto
termination
  by (relation "measure (\<lambda>(p, rest, first, s). length rest)") auto

definition write_temporary_file :: "path \<Rightarrow> pybytes \<Rightarrow> unit io" where
  "write_temporary_file temporary data = os_to_durability ''cannot fsync temporary file''
    (io_bind (syscall (set_entry temporary (Some (File [] False)))) (\<lambda>_.
     io_bind (write_all temporary data True) (\<lambda>_.
     io_bind (maybe_inject temporary FSYNC_STAGE_FILE) (\<lambda>_.
     syscall (flush_file temporary)))))"

definition replace_entry :: "path \<Rightarrow> path \<Rightarrow> fs \<Rightarrow> fs" where
  "replace_entry temporary destination s =
    set_entry temporary None (set_entry destination (fs_view s temporary) s)"

definition unlink_missing_ok :: "path \<Rightarrow> unit io" where
  "unlink_missing_ok p = syscall (\<lambda>s. if fs_view s p = None then s else set_entry p None s)"

text \<open>\<open>except BaseException\<close> around the steps before the rename.\<close>

definition cleanup_temporary :: "path \<Rightarrow> string \<Rightarrow> unit io \<Rightarrow> unit io" where
  "cleanup_temporary temporary msg m = io_catch m (\<lambda>e.
     io_bind (unlink_missing_ok temporary) (\<lambda>_.
       if is_durability_error e then io_raise e else io_raise (DurabilityError msg)))"

definition read_bytes :: "path \<Rightarrow> pybytes io" where
  "read_bytes p = io_bind (syscall id) (\<lambda>_. io_bind (io_get (\<lambda>s. followed s p)) (\<lambda>n. case n of
      Some (File d _) \<Rightarrow> io_return d | _ \<Rightarrow> io_raise OSError))"

definition snapshot_following :: "path \<Rightarrow> pybytes option io" where
  "snapshot_following p = io_bind (io_get (\<lambda>s. followed s p \<noteq> None)) (\<lambda>exists.
     if exists then io_bind (read_bytes p) (\<lambda>d. io_return (Some d)) else io_return None)"

text \<open>Bytes of a regular file that is not a symlink; nothing is read otherwise.\<close>

definition snapshot_regular :: "path \<Rightarrow> pybytes option io" where
  "snapshot_regular p = io_bind (io_get (\<lambda>s. fs_view s p)) (\<lambda>n. case n of
      Some (File d _) \<Rightarrow> io_bind (read_bytes p) (\<lambda>d. io_return (Some d))
    | _ \<Rightarrow> io_return None)"

section \<open>The durable primitives\<close>

text \<open>\<open>on_unconfirmed\<close> is the cleanup after a rename whose directory entry was not confirmed.\<close>

definition write_bytes_with :: "(pybytes option \<Rightarrow> unit io) \<Rightarrow> path \<Rightarrow> pybytes \<Rightarrow> unit io" where
  "write_bytes_with on_unconfirmed destination data =
    io_bind (make_directory_durable (parent destination)) (\<lambda>_.
    serialized destination (
      io_bind (temporary_path destination) (\<lambda>temporary.
      io_bind (snapshot_following destination) (\<lambda>previous.
      io_bind (cleanup_temporary temporary ''cannot durably write''
        (io_bind (write_temporary_file temporary data) (\<lambda>_.
         io_bind (maybe_inject temporary FSYNC_STAGE_REPLACE) (\<lambda>_.
         syscall (replace_entry temporary destination))))) (\<lambda>_.
      io_catch (fsync_directory (parent destination)) (\<lambda>e.
        if is_durability_error e
        then io_bind (on_unconfirmed previous) (\<lambda>_. io_raise e) else io_raise e))))))"

text \<open>\<open>write_bytes_durable(..., _restore=False)\<close>.\<close>

definition write_bytes_nested :: "path \<Rightarrow> pybytes \<Rightarrow> unit io" where
  "write_bytes_nested = write_bytes_with (\<lambda>_. io_return ())"

definition remove_durable :: "path \<Rightarrow> unit io" where
  "remove_durable destination = serialized destination (
    io_bind (snapshot_regular destination) (\<lambda>previous.
    io_bind (os_to_durability ''cannot remove durable state'' (unlink_missing_ok destination)) (\<lambda>_.
    io_catch (fsync_directory (parent destination)) (\<lambda>e.
      if is_durability_error e
      then io_bind (case previous of
          Some d \<Rightarrow> suppress_durability (write_bytes_nested destination d)
        | None \<Rightarrow> io_return ()) (\<lambda>_. io_raise e)
      else io_raise e))))"

definition write_bytes_durable :: "path \<Rightarrow> pybytes \<Rightarrow> unit io" where
  "write_bytes_durable destination = write_bytes_with (\<lambda>previous. case previous of
      Some d \<Rightarrow> suppress_durability (write_bytes_nested destination d)
    | None \<Rightarrow> suppress_durability (remove_durable destination)) destination"

datatype snapshot = PrevLink string | PrevBytes pybytes | PrevNone

definition snapshot_entry :: "path \<Rightarrow> snapshot io" where
  "snapshot_entry p = io_bind (io_get (\<lambda>s. fs_view s p)) (\<lambda>n. case n of
      Some (Link t) \<Rightarrow> io_bind (syscall id) (\<lambda>_. io_return (PrevLink t))
    | Some (File d _) \<Rightarrow> io_bind (read_bytes p) (\<lambda>d. io_return (PrevBytes d))
    | _ \<Rightarrow> io_return PrevNone)"

definition write_symlink_with :: "(snapshot \<Rightarrow> unit io) \<Rightarrow> path \<Rightarrow> string \<Rightarrow> unit io" where
  "write_symlink_with on_unconfirmed destination target =
    io_bind (make_directory_durable (parent destination)) (\<lambda>_.
    serialized destination (
      io_bind (temporary_path destination) (\<lambda>temporary.
      io_bind (snapshot_entry destination) (\<lambda>previous.
      io_bind (cleanup_temporary temporary ''cannot durably write symlink''
        (io_bind (unlink_missing_ok temporary) (\<lambda>_.
         io_bind (syscall (set_entry temporary (Some (Link target)))) (\<lambda>_.
         io_bind (maybe_inject temporary FSYNC_STAGE_FILE) (\<lambda>_.
         io_bind (maybe_inject temporary FSYNC_STAGE_REPLACE) (\<lambda>_.
         syscall (replace_entry temporary destination))))))) (\<lambda>_.
      io_catch (fsync_directory (parent destination)) (\<lambda>e.
        if is_durability_error e
        then io_bind (on_unconfirmed previous) (\<lambda>_. io_raise e) else io_raise e))))))"

definition write_symlink_nested :: "path \<Rightarrow> string \<Rightarrow> unit io" where
  "write_symlink_nested = write_symlink_with (\<lambda>_. io_return ())"

definition write_symlink_durable :: "path \<Rightarrow> string \<Rightarrow> unit io" where
  "write_symlink_durable destination = write_symlink_with (\<lambda>previous. case previous of
      PrevLink t \<Rightarrow> suppress_durability (write_symlink_nested destination t)
    | PrevBytes d \<Rightarrow> suppress_durability (write_bytes_nested destination d)
    | PrevNone \<Rightarrow> suppress_durability (remove_durable destination)) destination"

definition write_text_durable :: "path \<Rightarrow> pystr \<Rightarrow> unit io" where
  "write_text_durable p text = (case utf8_encode text of
      Inl e \<Rightarrow> io_raise e | Inr bs \<Rightarrow> write_bytes_durable p bs)"

definition write_json_durable :: "path \<Rightarrow> dict \<Rightarrow> unit io" where
  "write_json_durable p mapping = (case dumps (JObj mapping) of
      Inl e \<Rightarrow> io_raise e | Inr t \<Rightarrow> write_text_durable p (t @ [10]))"


section \<open>Specification vocabulary\<close>

text \<open>What readers see at a path, and all that a crash may leave there, is in a set.\<close>

definition within :: "path \<Rightarrow> node option set \<Rightarrow> fs \<Rightarrow> bool" where
  "within p N s \<longleftrightarrow> fs_view s p \<in> N \<and> set (fs_disk s p) \<subseteq> N"

definition flush_closed :: "node option set \<Rightarrow> bool" where
  "flush_closed N \<longleftrightarrow> (\<forall>n \<in> N. flush_node n \<in> N) \<and> None \<in> N"

text \<open>The steps up to the rename: on success the destination holds the prepared entry.\<close>

definition swap_in :: "path \<Rightarrow> path \<Rightarrow> unit io \<Rightarrow> string \<Rightarrow> unit io" where
  "swap_in t d prepare msg = cleanup_temporary t msg
     (io_bind prepare (\<lambda>_. io_bind (maybe_inject t FSYNC_STAGE_REPLACE) (\<lambda>_. syscall (replace_entry t d))))"

definition confirm_or :: "path \<Rightarrow> unit io \<Rightarrow> unit io" where
  "confirm_or d cleanup = io_catch (fsync_directory (parent d)) (\<lambda>e.
     if is_durability_error e then io_bind cleanup (\<lambda>_. io_raise e) else io_raise e)"

text \<open>Both switches have this shape: snapshot, prepare beside the destination, rename, confirm.\<close>

definition switch_entry ::
    "'p io \<Rightarrow> (path \<Rightarrow> unit io) \<Rightarrow> string \<Rightarrow> ('p \<Rightarrow> unit io) \<Rightarrow> path \<Rightarrow> unit io" where
  "switch_entry snap prepare msg cleanup d =
    io_bind (make_directory_durable (parent d)) (\<lambda>_.
    serialized d (io_bind (temporary_path d) (\<lambda>t. io_bind snap (\<lambda>prev.
      io_bind (swap_in t d (prepare t) msg) (\<lambda>_. confirm_or d (cleanup prev))))))"

text \<open>The result of a switch: confined, and on success visible and recorded.\<close>

definition switched :: "path \<Rightarrow> node option set \<Rightarrow> node option \<Rightarrow> unit res \<Rightarrow> fs \<Rightarrow> bool" where
  "switched d N n r s \<longleftrightarrow> within d N s \<and> (r = Inr () \<longrightarrow> fs_view s d = n \<and> fs_disk s d = [n])"

definition prepare_link :: "string \<Rightarrow> path \<Rightarrow> unit io" where
  "prepare_link target t = io_bind (unlink_missing_ok t) (\<lambda>_.
     io_bind (syscall (set_entry t (Some (Link target)))) (\<lambda>_. maybe_inject t FSYNC_STAGE_FILE))"

definition prior_in :: "node option set \<Rightarrow> pybytes option \<Rightarrow> bool" where
  "prior_in N prev \<longleftrightarrow> (\<forall>t. Some (Link t) \<notin> N) \<longrightarrow> (\<forall>p. prev = Some p \<longrightarrow> (\<exists>b. Some (File p b) \<in> N))"

definition prior_entry_in :: "node option set \<Rightarrow> snapshot \<Rightarrow> bool" where
  "prior_entry_in N p \<longleftrightarrow> (\<forall>t. p = PrevLink t \<longrightarrow> Some (Link t) \<in> N)
     \<and> (\<forall>b. p = PrevBytes b \<longrightarrow> (\<exists>c. Some (File b c) \<in> N))"

definition locks :: "(path \<Rightarrow> nat) \<Rightarrow> (path \<Rightarrow> bool) \<Rightarrow> fs \<Rightarrow> bool" where
  "locks D F s \<longleftrightarrow> fs_depth s = D \<and> fs_flock s = F"

definition locks_agree :: "(path \<Rightarrow> nat) \<Rightarrow> (path \<Rightarrow> bool) \<Rightarrow> bool" where
  "locks_agree D F \<longleftrightarrow> (\<forall>k. F k \<longleftrightarrow> 0 < D k)"

text \<open>No scheduled fault, a directory to write in, and a given entry at the destination.\<close>

definition calm :: "path \<Rightarrow> node option \<Rightarrow> (bool \<times> (path \<Rightarrow> stage \<Rightarrow> bool)) option \<Rightarrow> fs \<Rightarrow> bool" where
  "calm d v ij s \<longleftrightarrow> fs_faults s = [] \<and> fs_writes s = [] \<and> fs_short_write s = None
     \<and> fs_injector s = ij \<and> fs_view s (parent d) = Some Dir \<and> fs_view s d = v"

definition one_shot_dir :: "(bool \<times> (path \<Rightarrow> stage \<Rightarrow> bool)) option" where
  "one_shot_dir = Some (True, \<lambda>p st. st = FSYNC_STAGE_DIR)"

fun plain_entry :: "node option \<Rightarrow> pybytes option \<Rightarrow> bool" where
  "plain_entry None prev = (prev = None)"
| "plain_entry (Some (File b _)) prev = (prev = Some b)"
| "plain_entry _ prev = False"

definition settled :: "path \<Rightarrow> node option \<Rightarrow> fs \<Rightarrow> bool" where
  "settled d n s \<longleftrightarrow> fs_view s d = n \<and> fs_disk s d = [n]"

definition sample_fs :: "node option \<Rightarrow> (bool \<times> (path \<Rightarrow> stage \<Rightarrow> bool)) option \<Rightarrow> fs" where
  "sample_fs old ij = \<lparr>fs_view = (\<lambda>p. if p = [] \<or> p = [''d''] then Some Dir else if p = [''d'', ''f''] then old else None),
    fs_disk = (\<lambda>p. [if p = [] \<or> p = [''d''] then Some Dir else if p = [''d'', ''f''] then old else None]),
    fs_follow = (\<lambda>p t. [t]), fs_faults = [], fs_writes = [], fs_names = [], fs_short_write = None,
    fs_injector = ij, fs_depth = (\<lambda>k. 0), fs_flock = (\<lambda>k. False)\<rparr>"

section \<open>Reasoning about computations\<close>

lemma maintains_suppress [maintain]: "maintains I m \<Longrightarrow> maintains I (suppress_durability m)"
  unfolding suppress_durability_def by (intro maintain)

lemma maintains_os [maintain]: "maintains I m \<Longrightarrow> maintains I (os_to_durability msg m)"
  unfolding os_to_durability_def by (intro maintain)

text \<open>The entries of one path are independent of the bookkeeping fields.\<close>

lemma within_fields [simp]:
  "within p N (s\<lparr>fs_faults := a\<rparr>) = within p N s" "within p N (s\<lparr>fs_writes := b\<rparr>) = within p N s"
  "within p N (s\<lparr>fs_names := c\<rparr>) = within p N s" "within p N (s\<lparr>fs_injector := d\<rparr>) = within p N s"
  "within p N (s\<lparr>fs_depth := e\<rparr>) = within p N s" "within p N (s\<lparr>fs_flock := f\<rparr>) = within p N s"
  by (simp_all add: within_def)

lemma within_set_entry: "within p N s \<Longrightarrow> q \<noteq> p \<or> n \<in> N \<Longrightarrow> within p N (set_entry q n s)"
  by (auto simp: within_def set_entry_def)

lemma within_record: "within p N s \<Longrightarrow> within p N (record_directory d s)"
  by (simp add: within_def record_directory_def)

lemma maintains_syscall [maintain]:
  "(\<And>s. within p N s \<Longrightarrow> within p N (f s)) \<Longrightarrow> maintains (within p N) (syscall f)"
  by (auto simp: maintains_def triple_def syscall_def split: list.splits bool.splits)

lemma maintains_inject [maintain]: "maintains (within p N) (maybe_inject q st)"
  by (auto simp: maintains_def triple_def maybe_inject_def split: option.splits if_splits)

lemma maintains_fsync [maintain]:
  "maintains (within p N) (fsync_directory d)" "maintains (within p N) (fsync_directory_plain d)"
  unfolding fsync_directory_def fsync_directory_plain_def
  by (intro maintain; simp add: within_record)+

lemma maintains_read [maintain]: "maintains (within p N) (read_bytes q)"
  unfolding read_bytes_def
  by (intro maintain) (auto intro!: maintain split: option.splits node.splits)

lemma maintains_unlink [maintain]:
  "q \<noteq> p \<or> None \<in> N \<Longrightarrow> maintains (within p N) (unlink_missing_ok q)"
  unfolding unlink_missing_ok_def by (intro maintain) (auto intro: within_set_entry)

section \<open>Paths\<close>

declare missing_levels.simps [simp del] write_all.simps [simp del]

lemma missing_levels_length: "q \<in> set (fst (missing_levels s p)) \<Longrightarrow> length q \<le> length p"
proof (induction s p rule: missing_levels.induct)
  case (1 s p)
  show ?case
  proof (cases "is_dir s p \<or> p = []")
    case True
    then show ?thesis using 1(2) missing_levels.simps [of s p] by (auto split: if_splits)
  next
    case False
    then have "q = p \<or> q \<in> set (fst (missing_levels s (parent p)))"
      using 1(2) missing_levels.simps [of s p] by (auto split: prod.splits)
    then show ?thesis using 1(1) False by (fastforce simp: parent_def)
  qed
qed

lemma parent_length: "d \<noteq> [] \<Longrightarrow> length (parent d) < length d"
  by (simp add: parent_def)

lemma longer_name: "d \<noteq> [] \<Longrightarrow> x \<noteq> [] \<Longrightarrow> parent d @ [x @ last d] \<noteq> d"
proof
  assume "d \<noteq> []" "x \<noteq> []" "parent d @ [x @ last d] = d"
  then have "last d = x @ last d" by (metis last_snoc)
  with \<open>x \<noteq> []\<close> show False by simp
qed

lemma lock_path_ne: "d \<noteq> [] \<Longrightarrow> lock_path d \<noteq> d"
  unfolding lock_path_def by (rule longer_name) (simp_all add: DURABLE_LOCK_PREFIX_def)

lemma temporary_ne: "d \<noteq> [] \<Longrightarrow> temporary_path d s = (r, s') \<Longrightarrow> \<exists>t. r = Inr t \<and> t \<noteq> d"
  using longer_name [of d "DURABLE_TEMP_PREFIX @ u @ ''-''" for u]
  by (auto simp: temporary_path_def Let_def DURABLE_TEMP_PREFIX_def)

section \<open>What can appear at a destination\<close>

lemma maintains_mkdir [maintain]: "q \<noteq> p \<Longrightarrow> maintains (within p N) (mkdir_exist_ok q)"
  unfolding mkdir_exist_ok_def
  by (intro maintain) (auto simp: maintains_def triple_def io_do_def within_set_entry
      io_return_def io_raise_def split: prod.splits if_splits)

lemma maintains_levels: "\<forall>q \<in> set ps. q \<noteq> p \<Longrightarrow> maintains (within p N) (make_levels ps)"
  by (induction ps) (auto intro!: maintain)

lemma maintains_get_bind:
  "(\<And>s. maintains I (k (f s))) \<Longrightarrow> maintains I (io_bind (io_get f) k)"
  by (auto simp: maintains_def triple_def io_bind_def io_get_def)

lemma maintains_make_directory [maintain]:
  assumes "length d < length p"
  shows "maintains (within p N) (make_directory_durable d)"
proof -
  have "maintains (within p N) (make_levels (rev ms))" if "missing_levels s d = (ms, e)" for s ms e
    by (rule maintains_levels) (use assms that missing_levels_length [of _ s d] in fastforce)
  then show ?thesis
    unfolding make_directory_durable_def
    by (intro maintains_get_bind) (auto intro!: maintain split: prod.splits)
qed

text \<open>Taking and giving back the lock touches neither the destination nor what a crash leaves there.\<close>

lemma serialized_triple:
  assumes d: "d \<noteq> []" and body: "triple (within d N) body Q"
    and Q: "\<And>r s k b f. Q r s \<Longrightarrow> Q r (s\<lparr>fs_depth := b\<rparr>) \<and> Q r (s\<lparr>fs_flock := f\<rparr>)"
    and err: "\<And>s m. within d N s \<Longrightarrow> Q (Inl (DurabilityError m)) s"
  shows "triple (within d N) (serialized d body) Q"
proof -
  let ?k = "lock_path d" and ?I = "within d N"
  have ne: "?k \<noteq> d" using lock_path_ne [OF d] .
  have ab: "triple ?I (abandon_on_error ?k msg (syscall f)) (\<lambda>r s. case r of Inl e \<Rightarrow> Q (Inl e) s | Inr x \<Rightarrow> ?I s)"
    if "\<And>s. ?I s \<Longrightarrow> ?I (f s)" for msg f
  proof (rule tripleI)
    fix s r s' assume s: "?I s" and r: "abandon_on_error ?k msg (syscall f) s = (r, s')"
    obtain r1 s1 where m: "syscall f s = (r1, s1)" by fastforce
    have "?I s1" using maintains_syscall [of d N f, OF that] s m by (auto simp: maintains_def dest: tripleD)
    then show "case r of Inl e \<Rightarrow> Q (Inl e) s' | Inr x \<Rightarrow> ?I s'"
      using r m err by (cases r1) (auto simp: abandon_on_error_def io_catch_def io_bind_def io_do_def
          io_raise_def release_lock_def)
  qed
  have 2: "triple ?I (if outermost then
          io_bind (abandon_on_error ?k ''cannot open durable lock'' (syscall (open_lock_file ?k))) (\<lambda>_.
            abandon_on_error ?k ''cannot acquire durable lock'' (syscall (set_flock ?k True)))
        else io_return ()) (\<lambda>r s. case r of Inl e \<Rightarrow> Q (Inl e) s | Inr x \<Rightarrow> ?I s)" for outermost
  proof (cases outermost)
    case True
    have "triple ?I (io_bind (abandon_on_error ?k ''cannot open durable lock'' (syscall (open_lock_file ?k))) (\<lambda>_.
            abandon_on_error ?k ''cannot acquire durable lock'' (syscall (set_flock ?k True))))
       (\<lambda>r s. case r of Inl e \<Rightarrow> Q (Inl e) s | Inr x \<Rightarrow> ?I s)"
    proof (rule triple_bind [where R = "\<lambda>_. ?I"])
      show "triple ?I (abandon_on_error ?k ''cannot open durable lock'' (syscall (open_lock_file ?k)))
          (\<lambda>r s. case r of Inl e \<Rightarrow> case Inl e of Inl e \<Rightarrow> Q (Inl e) s | Inr x \<Rightarrow> ?I s | Inr x \<Rightarrow> ?I s)"
        by (rule triple_weaken [OF ab]) (auto simp: open_lock_file_def ne intro: within_set_entry split: sum.splits)
    qed (rule ab, simp add: set_flock_def)
    then show ?thesis using True by simp
  qed (auto intro!: triple_return)
  have 3: "triple ?I (\<lambda>s. case body s of (r, s') \<Rightarrow>
        (r, release_lock ?k (if outermost then set_flock ?k False s' else s'))) Q" for outermost
    using body Q by (fastforce simp: triple_def release_lock_def set_flock_def split: prod.splits)
  show ?thesis
    unfolding serialized_def Let_def
    by (rule triple_bind [where R = "\<lambda>_. ?I"], simp add: triple_def acquire_lock_def,
        rule triple_bind [where R = "\<lambda>_. ?I", OF 2 3])
qed

lemma os_write_view:
  "os_write p chunk s = (Inr n, s') \<Longrightarrow> fs_view s p = Some (File d b) \<Longrightarrow>
   n \<le> length chunk \<and> (\<exists>b'. fs_view s' p = Some (File (d @ take n chunk) b'))"
  by (auto simp: os_write_def io_bind_def syscall_def append_bytes_def set_entry_def Let_def
      split: list.splits bool.splits)

lemma maintains_os_write [maintain]: "q \<noteq> p \<Longrightarrow> maintains (within p N) (os_write q chunk)"
  unfolding os_write_def
  by (intro maintain) (auto simp: maintains_def triple_def append_bytes_def Let_def intro!: within_set_entry)

lemma first_chunk_prefix: "\<exists>m. first_chunk s first rest = take m rest"
  by (auto simp: first_chunk_def split: option.splits intro: exI [of _ "length rest"])

lemma write_all_view:
  assumes "write_all p rest first s = (Inr u, s')" "fs_view s p = Some (File d b)"
  shows "\<exists>b'. fs_view s' p = Some (File (d @ rest) b')"
  using assms
proof (induction p rest first s arbitrary: d b rule: write_all.induct)
  case (1 p rest first s)
  show ?case
  proof (cases "rest = []")
    case True
    then show ?thesis using 1(2,3) by (simp add: write_all.simps)
  next
    case False
    then obtain n s1 where w: "os_write p (first_chunk s first rest) s = (Inr n, s1)" "n \<noteq> 0"
      "write_all p (drop n rest) False s1 = (Inr u, s')"
      using 1(2) by (subst (asm) write_all.simps) (auto split: prod.splits sum.splits if_splits)
    obtain m where m: "first_chunk s first rest = take m rest" using first_chunk_prefix by blast
    obtain b1 where "fs_view s1 p = Some (File (d @ take n (take m rest)) b1)" "n \<le> length (take m rest)"
      using os_write_view [OF w(1) 1(3)] m by auto
    then have "fs_view s1 p = Some (File (d @ take n rest) b1)" by (simp add: min_absorb1)
    from 1(1) [OF False w(1) [symmetric] refl w(2,3) this] show ?thesis by simp
  qed
qed

lemma maintains_write_all [maintain]:
  assumes "q \<noteq> p"
  shows "maintains (within p N) (write_all q rest first)"
proof -
  have "within p N s'" if "write_all q rest first s = (r, s')" "within p N s" for s r s'
    using that assms
  proof (induction q rest first s rule: write_all.induct)
    case (1 q rest first s)
    obtain r1 s1 where w: "os_write q (first_chunk s first rest) s = (r1, s1)" by fastforce
    have s1: "within p N s1"
      using maintains_os_write [OF 1(4), of N "first_chunk s first rest"] w 1(3)
      by (auto simp: maintains_def dest: tripleD)
    show ?case
      using 1(1) [OF _ w [symmetric] _ _ _ s1 1(4)] 1(2,3) w s1
      by (subst (asm) write_all.simps) (auto split: sum.splits if_splits)
  qed
  then show ?thesis by (auto simp: maintains_def triple_def)
qed

lemma syscall_Inr: "syscall f s = (Inr u, s') \<Longrightarrow> \<exists>fts. s' = f (s\<lparr>fs_faults := fts\<rparr>)"
proof (cases "fs_faults s")
  case Nil
  then have eq: "s\<lparr>fs_faults := []\<rparr> = s" by (cases s) simp
  assume "syscall f s = (Inr u, s')"
  then have "s' = f s" by (simp add: syscall_def Nil)
  then show ?thesis using eq by (intro exI [of _ "[]"]) (simp only:)
next
  case (Cons b fts)
  moreover assume "syscall f s = (Inr u, s')"
  ultimately show ?thesis by (cases b) (auto simp: syscall_def)
qed

lemma syscall_Inl: "syscall f s = (Inl e, s') \<Longrightarrow> e = OSError \<and> (\<exists>fts. s' = s\<lparr>fs_faults := fts\<rparr>)"
  by (auto simp: syscall_def split: list.splits bool.splits)

lemma inject_view: "maybe_inject q st s = (r, s') \<Longrightarrow> fs_view s' = fs_view s"
  by (auto simp: maybe_inject_def split: option.splits if_splits prod.splits)

lemma write_temporary_view:
  assumes "write_temporary_file t data s = (Inr u, s')"
  shows "fs_view s' t = Some (File data True)"
proof -
  obtain s1 s2 s3 where 1: "syscall (set_entry t (Some (File [] False))) s = (Inr (), s1)"
    "write_all t data True s1 = (Inr (), s2)" "maybe_inject t FSYNC_STAGE_FILE s2 = (Inr (), s3)"
    "syscall (flush_file t) s3 = (Inr (), s')"
    using assms
    by (auto simp: write_temporary_file_def os_to_durability_def io_catch_def io_bind_def io_raise_def
        split: sum.splits prod.splits if_splits)
  have "fs_view s1 t = Some (File [] False)"
    using syscall_Inr [OF 1(1)] by (auto simp: set_entry_def)
  from write_all_view [OF 1(2) this] obtain b where "fs_view s2 t = Some (File data b)" by auto
  then have "fs_view s3 t = Some (File data b)" using inject_view [OF 1(3)] by simp
  then show ?thesis using syscall_Inr [OF 1(4)] by (auto simp: flush_file_def)
qed

lemma maintains_write_temporary [maintain]:
  "t \<noteq> p \<Longrightarrow> maintains (within p N) (write_temporary_file t data)"
  unfolding write_temporary_file_def
  by (intro maintain) (auto simp: within_def set_entry_def flush_file_def)

section \<open>The rename\<close>

lemma within_replace: "t \<noteq> d \<Longrightarrow> fs_view s t \<in> N \<Longrightarrow> within d N s \<Longrightarrow> within d N (replace_entry t d s)"
  by (auto simp: replace_entry_def within_def set_entry_def)

lemma replace_triple:
  assumes "t \<noteq> d" "n \<in> N"
  shows "triple (\<lambda>s. within d N s \<and> fs_view s t = n) (syscall (replace_entry t d))
    (\<lambda>r s. within d N s \<and> (r = Inr () \<longrightarrow> fs_view s d = n))"
proof (rule tripleI)
  fix s r s' assume s: "within d N s \<and> fs_view s t = n" and r: "syscall (replace_entry t d) s = (r, s')"
  then show "within d N s' \<and> (r = Inr () \<longrightarrow> fs_view s' d = n)"
    using assms within_replace [of t d _ N] syscall_Inr [of "replace_entry t d" s _ s']
      syscall_Inl [of "replace_entry t d" s _ s']
    by (cases r) (auto simp: replace_entry_def set_entry_def within_def)
qed

lemma swap_in_triple:
  assumes "t \<noteq> d" "n \<in> N"
    and "triple (within d N) prepare (\<lambda>r s. within d N s \<and> (r = Inr () \<longrightarrow> fs_view s t = n))"
  shows "triple (within d N) (swap_in t d prepare msg)
    (\<lambda>r s. within d N s \<and> (r = Inr () \<longrightarrow> fs_view s d = n))"
proof -
  let ?Q = "\<lambda>r s. within d N s \<and> (r = Inr () \<longrightarrow> fs_view s d = n)"
  have inj: "triple (\<lambda>s. within d N s \<and> fs_view s t = n) (maybe_inject t FSYNC_STAGE_REPLACE)
      (\<lambda>r s. within d N s \<and> fs_view s t = n)"
    using maintains_inject [of d N t FSYNC_STAGE_REPLACE] inject_view [of t FSYNC_STAGE_REPLACE]
    by (fastforce simp: triple_def maintains_def)
  have body: "triple (within d N) (io_bind prepare (\<lambda>_. io_bind (maybe_inject t FSYNC_STAGE_REPLACE)
      (\<lambda>_. syscall (replace_entry t d)))) ?Q"
    by (rule triple_bind [where R = "\<lambda>_ s. within d N s \<and> fs_view s t = n"],
        rule triple_weaken [OF assms(3)], simp, simp split: sum.splits,
        rule triple_bind [where R = "\<lambda>_ s. within d N s \<and> fs_view s t = n"],
        rule triple_weaken [OF inj], simp, simp split: sum.splits, rule replace_triple [OF assms(1,2)])
  have h: "triple (within d N) (io_bind (unlink_missing_ok t) (\<lambda>_.
       if is_durability_error e then io_raise e else io_raise (DurabilityError msg))) ?Q" for e
    by (rule triple_bind [where R = "\<lambda>_. within d N"])
      (use maintains_unlink [of t d N] assms(1) in
        \<open>auto simp: maintains_def io_raise_def triple_def split: sum.splits if_splits\<close>)
  show ?thesis
    unfolding swap_in_def cleanup_temporary_def
    by (rule triple_catch [where R = "\<lambda>_. within d N"], rule triple_weaken [OF body], simp,
        simp split: sum.splits, rule h)
qed

lemma fsync_directory_records:
  assumes "fsync_directory (parent d) s = (Inr u, s')" "d \<noteq> []"
  shows "fs_view s' d = fs_view s d \<and> fs_disk s' d = [fs_view s d]"
proof -
  obtain s1 s2 where 1: "syscall id s = (Inr (), s1)" "maybe_inject (parent d) FSYNC_STAGE_DIR s1 = (Inr (), s2)"
    "syscall (record_directory (parent d)) s2 = (Inr (), s')"
    using assms(1)
    by (auto simp: fsync_directory_def os_to_durability_def io_catch_def io_bind_def io_raise_def
        split: sum.splits prod.splits if_splits)
  then show ?thesis
    using syscall_Inr [OF 1(1)] inject_view [OF 1(2)] syscall_Inr [OF 1(3)] assms(2)
    by (auto simp: record_directory_def)
qed

text \<open>The confirmation: either the entry is recorded, or the cleanup keeps the invariant and raises.\<close>

lemma confirm_triple:
  assumes "d \<noteq> []" "maintains (within d N) (cleanup :: unit io)"
  shows "triple (\<lambda>s. within d N s \<and> fs_view s d = n)
    (io_catch (fsync_directory (parent d)) (\<lambda>e. if is_durability_error e
       then io_bind cleanup (\<lambda>_. io_raise e) else io_raise e))
    (\<lambda>r s. within d N s \<and> (r = Inr () \<longrightarrow> fs_view s d = n \<and> fs_disk s d = [n]))"
proof (rule triple_catch [where R = "\<lambda>_. within d N"])
  show "triple (\<lambda>s. within d N s \<and> fs_view s d = n) (fsync_directory (parent d))
     (\<lambda>r s. case r of Inl e \<Rightarrow> within d N s
       | Inr x \<Rightarrow> within d N s \<and> (Inr x = (Inr () :: unit res) \<longrightarrow> fs_view s d = n \<and> fs_disk s d = [n]))"
    using maintains_fsync(1) [of d N "parent d"] fsync_directory_records [OF _ assms(1)]
    by (fastforce simp: triple_def maintains_def split: sum.splits)
  show "triple (within d N) (if is_durability_error e then io_bind cleanup (\<lambda>_. io_raise e) else io_raise e)
     (\<lambda>r s. within d N s \<and> (r = Inr () \<longrightarrow> fs_view s d = n \<and> fs_disk s d = [n]))" for e
  proof -
    have "triple (within d N) (io_bind cleanup (\<lambda>_. io_raise e))
       (\<lambda>r s. within d N s \<and> (r = Inr () \<longrightarrow> fs_view s d = n \<and> fs_disk s d = [n]))"
      by (rule triple_bind [where R = "\<lambda>_. within d N"])
        (use assms(2) in \<open>auto simp: maintains_def io_raise_def triple_def split: sum.splits\<close>)
    then show ?thesis by (simp add: triple_raise)
  qed
qed

section \<open>The durable primitives keep a destination within bounds\<close>

lemma switched_Inl [simp]: "switched d N n (Inl e) s \<longleftrightarrow> within d N s"
  by (simp add: switched_def)

lemma switched_fields: "switched d N n r s \<Longrightarrow>
   switched d N n r (s\<lparr>fs_depth := b\<rparr>) \<and> switched d N n r (s\<lparr>fs_flock := f\<rparr>)"
  by (simp add: switched_def)

lemma maintains_switched: "triple (within d N) m (switched d N n) \<Longrightarrow> maintains (within d N) m"
  unfolding maintains_def by (erule triple_weaken) (auto simp: switched_def)

lemma switch_triple:
  assumes d: "d \<noteq> []" and n: "n \<in> N"
    and snap: "triple (within d N) snap (\<lambda>r s. within d N s \<and> (\<forall>p. r = Inr p \<longrightarrow> good p))"
    and prepare: "\<And>t. t \<noteq> d \<Longrightarrow>
      triple (within d N) (prepare t) (\<lambda>r s. within d N s \<and> (r = Inr () \<longrightarrow> fs_view s t = n))"
    and cleanup: "\<And>p. good p \<Longrightarrow> maintains (within d N) (cleanup p)"
  shows "triple (within d N) (switch_entry snap prepare msg cleanup d) (switched d N n)"
proof -
  let ?I = "within d N"
  have tail: "triple (\<lambda>s. ?I s \<and> good p)
      (io_bind (swap_in t d (prepare t) msg) (\<lambda>_. confirm_or d (cleanup p))) (switched d N n)"
    if "t \<noteq> d" for t p
  proof (cases "good p")
    case True
    have c: "triple (\<lambda>s. ?I s \<and> fs_view s d = n) (confirm_or d (cleanup p)) (switched d N n)"
      using confirm_triple [OF d cleanup [OF True]] by (simp add: confirm_or_def switched_def [abs_def])
    show ?thesis
      by (rule triple_bind [OF triple_weaken [OF swap_in_triple [OF that n prepare [OF that]]] c])
        (auto split: sum.splits)
  qed (simp add: triple_def)
  have snap': "triple ?I (io_bind snap (\<lambda>p. io_bind (swap_in t d (prepare t) msg) (\<lambda>_. confirm_or d (cleanup p))))
      (switched d N n)" if "t \<noteq> d" for t
    by (rule triple_bind [OF triple_weaken [OF snap] tail [OF that]]) (auto split: sum.splits)
  have body: "triple ?I (io_bind (temporary_path d) (\<lambda>t. io_bind snap (\<lambda>p.
      io_bind (swap_in t d (prepare t) msg) (\<lambda>_. confirm_or d (cleanup p))))) (switched d N n)"
  proof (rule triple_bind [where R = "\<lambda>t s. ?I s \<and> t \<noteq> d"])
    show "triple ?I (temporary_path d) (\<lambda>r s. case r of Inl e \<Rightarrow> switched d N n (Inl e) s | Inr t \<Rightarrow> ?I s \<and> t \<noteq> d)"
      using temporary_ne [OF d] by (fastforce simp: triple_def temporary_path_def Let_def)
    show "triple (\<lambda>s. ?I s \<and> t \<noteq> d) (io_bind snap (\<lambda>p. io_bind (swap_in t d (prepare t) msg)
        (\<lambda>_. confirm_or d (cleanup p)))) (switched d N n)" for t
      using snap' by (cases "t = d") (auto simp: triple_def)
  qed
  have mk: "maintains ?I (make_directory_durable (parent d))"
    by (rule maintains_make_directory [OF parent_length [OF d]])
  show ?thesis
    unfolding switch_entry_def
    by (rule triple_bind [OF _ serialized_triple [OF d body switched_fields]])
      (use mk in \<open>auto simp: maintains_def triple_def split: sum.splits\<close>)
qed

lemma write_bytes_switch:
  "write_bytes_with cleanup d data =
   switch_entry (snapshot_following d) (\<lambda>t. write_temporary_file t data) ''cannot durably write'' cleanup d"
  by (simp add: write_bytes_with_def switch_entry_def swap_in_def confirm_or_def)

lemma io_bind_assoc: "io_bind (io_bind m k) h = io_bind m (\<lambda>x. io_bind (k x) h)"
  by (rule ext) (simp add: io_bind_def split: prod.splits sum.splits)

lemma write_symlink_switch:
  "write_symlink_with cleanup d target =
   switch_entry (snapshot_entry d) (prepare_link target) ''cannot durably write symlink'' cleanup d"
  by (simp add: write_symlink_with_def switch_entry_def swap_in_def confirm_or_def prepare_link_def io_bind_assoc)

lemma snapshot_triple:
  "triple (within d N) (snapshot_following d) (\<lambda>r s. within d N s \<and> (\<forall>p. r = Inr p \<longrightarrow> prior_in N p))"
proof (rule tripleI)
  fix s r s' assume s: "within d N s" and r: "snapshot_following d s = (r, s')"
  have "(\<forall>t. Some (Link t) \<notin> N) \<Longrightarrow> followed s d = Some (File p b) \<Longrightarrow> Some (File p b) \<in> N" for p b
    using s by (auto simp: followed_def within_def split: option.splits node.splits)
  moreover have "followed (s\<lparr>fs_faults := f\<rparr>) d = followed s d" for f
    by (simp add: followed_def split: option.splits node.splits)
  ultimately show "within d N s' \<and> (\<forall>p. r = Inr p \<longrightarrow> prior_in N p)"
    using s r
    by (auto simp: snapshot_following_def read_bytes_def io_bind_def io_get_def io_return_def io_raise_def
        syscall_def within_def prior_in_def split: if_splits list.splits bool.splits option.splits node.splits)
qed

lemma write_temporary_triple: "t \<noteq> d \<Longrightarrow>
   triple (within d N) (write_temporary_file t data) (\<lambda>r s. within d N s \<and> (r = Inr () \<longrightarrow> fs_view s t = Some (File data True)))"
  using maintains_write_temporary [of t d N data] write_temporary_view [of t data]
  by (auto simp: triple_def maintains_def)

lemma nested_triple:
  "d \<noteq> [] \<Longrightarrow> Some (File data True) \<in> N \<Longrightarrow>
   triple (within d N) (write_bytes_nested d data) (switched d N (Some (File data True)))"
  unfolding write_bytes_nested_def write_bytes_switch
  by (rule switch_triple [where good = "prior_in N"])
    (auto intro: snapshot_triple write_temporary_triple maintain)

lemma snapshot_regular_triple:
  "triple (within d N) (snapshot_regular d) (\<lambda>r s. within d N s \<and> (\<forall>p. r = Inr (Some p) \<longrightarrow> (\<exists>b. Some (File p b) \<in> N)))"
  by (auto simp: triple_def snapshot_regular_def read_bytes_def io_bind_def io_get_def io_return_def
      io_raise_def syscall_def within_def followed_def
      split: list.splits bool.splits option.splits node.splits)

lemma remove_triple:
  assumes d: "d \<noteq> []" and N: "flush_closed N"
  shows "triple (within d N) (remove_durable d) (switched d N None)"
proof -
  let ?I = "within d N"
  have none: "None \<in> N" and fl: "Some (File p b) \<in> N \<Longrightarrow> Some (File p True) \<in> N" for p b
    using N by (auto simp: flush_closed_def dest: bspec [where x = "Some (File p b)"])
  have cl: "maintains ?I (case prev of Some b \<Rightarrow> suppress_durability (write_bytes_nested d b) | None \<Rightarrow> io_return ())"
    if "\<forall>p. prev = Some p \<longrightarrow> (\<exists>b. Some (File p b) \<in> N)" for prev
    using that by (cases prev) (auto intro!: maintain maintains_switched [OF nested_triple [OF d]] fl)
  have un: "triple ?I (os_to_durability ''cannot remove durable state'' (unlink_missing_ok d))
      (\<lambda>r s. ?I s \<and> (r = Inr () \<longrightarrow> fs_view s d = None))"
    using none by (auto simp: triple_def os_to_durability_def io_catch_def unlink_missing_ok_def syscall_def
        io_raise_def set_entry_def within_def split: list.splits bool.splits if_splits)
  have tail: "triple (\<lambda>s. ?I s \<and> (\<forall>p. prev = Some p \<longrightarrow> (\<exists>b. Some (File p b) \<in> N)))
      (io_bind (os_to_durability ''cannot remove durable state'' (unlink_missing_ok d)) (\<lambda>_. confirm_or d
        (case prev of Some b \<Rightarrow> suppress_durability (write_bytes_nested d b) | None \<Rightarrow> io_return ())))
      (switched d N None)" for prev
  proof (cases "\<forall>p. prev = Some p \<longrightarrow> (\<exists>b. Some (File p b) \<in> N)")
    case True
    have c: "triple (\<lambda>s. ?I s \<and> fs_view s d = None) (confirm_or d (case prev of
        Some b \<Rightarrow> suppress_durability (write_bytes_nested d b) | None \<Rightarrow> io_return ())) (switched d N None)"
      using confirm_triple [OF d cl [OF True]] by (simp add: confirm_or_def switched_def [abs_def])
    show ?thesis by (rule triple_bind [OF triple_weaken [OF un] c]) (auto split: sum.splits)
  qed (auto simp: triple_def)
  have "triple ?I (io_bind (snapshot_regular d) (\<lambda>prev.
      io_bind (os_to_durability ''cannot remove durable state'' (unlink_missing_ok d)) (\<lambda>_. confirm_or d
        (case prev of Some b \<Rightarrow> suppress_durability (write_bytes_nested d b) | None \<Rightarrow> io_return ()))))
      (switched d N None)"
    by (rule triple_bind [OF triple_weaken [OF snapshot_regular_triple] tail]) (auto split: sum.splits)
  from serialized_triple [OF d this switched_fields] show ?thesis
    by (simp add: remove_durable_def confirm_or_def)
qed

lemma write_bytes_triple:
  assumes d: "d \<noteq> []" and N: "flush_closed N" "\<forall>t. Some (Link t) \<notin> N" "Some (File data True) \<in> N"
  shows "triple (within d N) (write_bytes_durable d data) (switched d N (Some (File data True)))"
  unfolding write_bytes_durable_def write_bytes_switch
proof (rule switch_triple [where good = "prior_in N"])
  fix p assume p: "prior_in N p"
  show "maintains (within d N) (case p of Some b \<Rightarrow> suppress_durability (write_bytes_nested d b)
      | None \<Rightarrow> suppress_durability (remove_durable d))"
  proof (cases p)
    case None
    then show ?thesis using maintains_switched [OF remove_triple [OF d N(1)]] by (simp add: maintain)
  next
    case (Some b)
    then obtain c where "Some (File b c) \<in> N" using p N(2) by (auto simp: prior_in_def)
    then have "Some (File b True) \<in> N" using N(1) by (fastforce simp: flush_closed_def)
    then show ?thesis using Some maintains_switched [OF nested_triple [OF d]] by (simp add: maintain)
  qed
qed (use d N snapshot_triple write_temporary_triple in auto)

lemma snapshot_entry_triple:
  "triple (within d N) (snapshot_entry d) (\<lambda>r s. within d N s \<and> (\<forall>p. r = Inr p \<longrightarrow> prior_entry_in N p))"
  by (auto simp: triple_def snapshot_entry_def read_bytes_def io_bind_def io_get_def io_return_def
      io_raise_def syscall_def within_def followed_def prior_entry_in_def
      split: list.splits bool.splits option.splits node.splits)

lemma prepare_link_triple:
  assumes "t \<noteq> d"
  shows "triple (within d N) (prepare_link u t) (\<lambda>r s. within d N s \<and> (r = Inr () \<longrightarrow> fs_view s t = Some (Link u)))"
proof -
  have "maintains (within d N) (prepare_link u t)"
    unfolding prepare_link_def using assms by (intro maintain) (auto intro: within_set_entry)
  moreover have "fs_view s' t = Some (Link u)" if p: "prepare_link u t s = (Inr x, s')" for s x s'
  proof -
    obtain s1 s2 where "syscall (set_entry t (Some (Link u))) s1 = (Inr (), s2)"
      "maybe_inject t FSYNC_STAGE_FILE s2 = (Inr x, s')"
      using p by (auto simp: prepare_link_def io_bind_def split: prod.splits sum.splits)
    then show ?thesis using syscall_Inr inject_view by (fastforce simp: set_entry_def)
  qed
  ultimately show ?thesis by (auto simp: maintains_def triple_def)
qed

lemma symlink_nested_triple:
  "d \<noteq> [] \<Longrightarrow> Some (Link u) \<in> N \<Longrightarrow>
   triple (within d N) (write_symlink_nested d u) (switched d N (Some (Link u)))"
  unfolding write_symlink_nested_def write_symlink_switch
  by (rule switch_triple [where good = "prior_entry_in N"])
    (auto intro: snapshot_entry_triple prepare_link_triple maintain)

lemma write_symlink_triple:
  assumes d: "d \<noteq> []" and N: "flush_closed N" "Some (Link target) \<in> N"
  shows "triple (within d N) (write_symlink_durable d target) (switched d N (Some (Link target)))"
  unfolding write_symlink_durable_def write_symlink_switch
proof (rule switch_triple [where good = "prior_entry_in N"])
  fix p assume p: "prior_entry_in N p"
  have fl: "Some (File b c) \<in> N \<Longrightarrow> Some (File b True) \<in> N" for b c
    using N(1) by (fastforce simp: flush_closed_def)
  show "maintains (within d N) (case p of PrevLink t \<Rightarrow> suppress_durability (write_symlink_nested d t)
    | PrevBytes b \<Rightarrow> suppress_durability (write_bytes_nested d b) | PrevNone \<Rightarrow> suppress_durability (remove_durable d))"
    using p fl
    by (cases p) (auto simp: prior_entry_in_def intro!: maintain
        intro: maintains_switched [OF symlink_nested_triple [OF d]] maintains_switched [OF nested_triple [OF d]]
          maintains_switched [OF remove_triple [OF d N(1)]])
qed (use d N snapshot_entry_triple prepare_link_triple in auto)

section \<open>Locks are given back\<close>

lemma locks_set_entry [simp]: "locks D F (set_entry q n s) = locks D F s"
  by (simp add: locks_def set_entry_def)

lemma locks_syscall [maintain]:
  "(\<And>s. locks D F s \<Longrightarrow> locks D F (f s)) \<Longrightarrow> maintains (locks D F) (syscall f)"
  by (auto simp: maintains_def triple_def syscall_def locks_def split: list.splits bool.splits)

lemma locks_inject [maintain]: "maintains (locks D F) (maybe_inject q st)"
  by (auto simp: maintains_def triple_def maybe_inject_def locks_def split: option.splits if_splits prod.splits)

lemma locks_temporary [maintain]: "maintains (locks D F) (temporary_path d)"
  by (auto simp: maintains_def triple_def temporary_path_def locks_def Let_def)

lemma locks_fsync [maintain]:
  "maintains (locks D F) (fsync_directory d)" "maintains (locks D F) (fsync_directory_plain d)"
  unfolding fsync_directory_def fsync_directory_plain_def
  by (intro maintain; simp add: record_directory_def locks_def)+

lemma locks_read [maintain]: "maintains (locks D F) (read_bytes q)"
  unfolding read_bytes_def
  by (intro maintain) (auto intro!: maintain split: option.splits node.splits)

lemma locks_unlink [maintain]: "maintains (locks D F) (unlink_missing_ok q)"
  unfolding unlink_missing_ok_def by (intro maintain) simp

lemma locks_mkdir [maintain]: "maintains (locks D F) (mkdir_exist_ok q)"
  unfolding mkdir_exist_ok_def
  by (intro maintain) (auto simp: maintains_def triple_def io_do_def io_return_def io_raise_def
      split: prod.splits if_splits)

lemma locks_levels [maintain]: "maintains (locks D F) (make_levels ps)"
  by (induction ps) (auto intro!: maintain)

lemma locks_make_directory [maintain]: "maintains (locks D F) (make_directory_durable d)"
  unfolding make_directory_durable_def by (intro maintains_get_bind) (auto intro!: maintain split: prod.splits)

lemma locks_os_write: "os_write q chunk s = (r, s') \<Longrightarrow> locks D F s \<Longrightarrow> locks D F s'"
  by (auto simp: os_write_def io_bind_def syscall_def append_bytes_def Let_def locks_def set_entry_def
      split: list.splits bool.splits)

lemma locks_write_all [maintain]: "maintains (locks D F) (write_all q rest first)"
proof -
  have "locks D F s'" if "write_all q rest first s = (r, s')" "locks D F s" for s r s'
    using that
  proof (induction q rest first s rule: write_all.induct)
    case (1 q rest first s)
    obtain r1 s1 where w: "os_write q (first_chunk s first rest) s = (r1, s1)" by fastforce
    show ?case
      using 1(1) [OF _ w [symmetric]] 1(2,3) w locks_os_write [OF w 1(3)]
      by (subst (asm) write_all.simps) (auto split: sum.splits if_splits)
  qed
  then show ?thesis by (auto simp: maintains_def triple_def)
qed

lemma locks_write_temporary [maintain]: "maintains (locks D F) (write_temporary_file t data)"
  unfolding write_temporary_file_def by (intro maintain) (auto simp: locks_def flush_file_def set_entry_def)

lemma locks_prepare_link [maintain]: "maintains (locks D F) (prepare_link u t)"
  unfolding prepare_link_def by (intro maintain) simp

lemma locks_swap_in [maintain]: "maintains (locks D F) p \<Longrightarrow> maintains (locks D F) (swap_in t d p msg)"
  unfolding swap_in_def cleanup_temporary_def by (intro maintain) (simp_all add: replace_entry_def)

lemma locks_snapshots [maintain]:
  "maintains (locks D F) (snapshot_following d)" "maintains (locks D F) (snapshot_regular d)"
  "maintains (locks D F) (snapshot_entry d)"
  unfolding snapshot_following_def snapshot_regular_def snapshot_entry_def
  by (intro maintain; auto intro!: maintain split: option.splits node.splits)+

lemma locks_confirm [maintain]: "maintains (locks D F) c \<Longrightarrow> maintains (locks D F) (confirm_or d c)"
  unfolding confirm_or_def by (intro maintain)

text \<open>The lock is held exactly while the body runs.\<close>

lemma locks_serialized:
  assumes body: "\<And>D F. locks_agree D F \<Longrightarrow> maintains (locks D F) body" and ok: "locks_agree D F"
  shows "maintains (locks D F) (serialized d body)"
proof -
  let ?k = "lock_path d"
  let ?D = "D(?k := D ?k + 1)" and ?F = "F(?k := True)"
  have held: "maintains (locks ?D ?F) body"
    by (rule body) (use ok in \<open>auto simp: locks_agree_def\<close>)
  have same: "0 < D ?k \<Longrightarrow> ?F = F" and free: "D ?k = 0 \<Longrightarrow> F(?k := False) = F"
    using ok by (auto simp: locks_agree_def fun_eq_iff)
  have ab: "triple (locks ?D F) (abandon_on_error ?k msg (syscall f))
      (\<lambda>r s. case r of Inl e \<Rightarrow> locks D F s | Inr x \<Rightarrow> locks ?D F' s)"
    if "\<And>s. locks ?D F s \<Longrightarrow> locks ?D F' (f s)" for msg f F'
  proof (rule tripleI)
    fix s r s' assume s: "locks ?D F s" and r: "abandon_on_error ?k msg (syscall f) s = (r, s')"
    have fl: "locks ?D F (s\<lparr>fs_faults := fts\<rparr>)" for fts using s by (simp add: locks_def)
    show "case r of Inl e \<Rightarrow> locks D F s' | Inr x \<Rightarrow> locks ?D F' s'"
      using r that [OF s] that [OF fl] s
      by (auto simp: abandon_on_error_def io_catch_def io_bind_def io_do_def io_raise_def syscall_def
          locks_def release_lock_def split: list.splits bool.splits)
  qed
  have take: "triple (\<lambda>s. locks ?D F s \<and> outermost = (D ?k = 0)) (if outermost then
          io_bind (abandon_on_error ?k ''cannot open durable lock'' (syscall (open_lock_file ?k))) (\<lambda>_.
            abandon_on_error ?k ''cannot acquire durable lock'' (syscall (set_flock ?k True)))
        else io_return ())
      (\<lambda>r s. case r of Inl e \<Rightarrow> locks D F s | Inr x \<Rightarrow> locks ?D ?F s \<and> outermost = (D ?k = 0))" for outermost
  proof (cases outermost)
    case True
    have "triple (locks ?D F) (io_bind (abandon_on_error ?k ''cannot open durable lock'' (syscall (open_lock_file ?k))) (\<lambda>_.
            abandon_on_error ?k ''cannot acquire durable lock'' (syscall (set_flock ?k True))))
        (\<lambda>r s. case r of Inl e \<Rightarrow> locks D F s | Inr x \<Rightarrow> locks ?D ?F s)"
    proof (rule triple_bind [where R = "\<lambda>_. locks ?D F"])
      show "triple (locks ?D F) (abandon_on_error ?k ''cannot open durable lock'' (syscall (open_lock_file ?k)))
        (\<lambda>r s. case r of Inl e \<Rightarrow> case Inl e of Inl e \<Rightarrow> locks D F s | Inr x \<Rightarrow> locks ?D ?F s | Inr x \<Rightarrow> locks ?D F s)"
        by (rule triple_weaken [OF ab [where F' = F]]) (auto simp: open_lock_file_def split: sum.splits)
    qed (rule ab, simp add: set_flock_def locks_def)
    then show ?thesis using True by (auto simp: triple_def split: sum.splits)
  next
    case False
    then show ?thesis using same by (auto simp: triple_def io_return_def)
  qed
  have run: "triple (\<lambda>s. locks ?D ?F s \<and> outermost = (D ?k = 0)) (\<lambda>s. case body s of (r, s') \<Rightarrow>
        (r, release_lock ?k (if outermost then set_flock ?k False s' else s'))) (\<lambda>_. locks D F)" for outermost
  proof (rule tripleI)
    fix s r s'
    assume s: "locks ?D ?F s \<and> outermost = (D ?k = 0)" and r: "(case body s of (r, s') \<Rightarrow>
        (r, release_lock ?k (if outermost then set_flock ?k False s' else s'))) = (r, s')"
    obtain r1 s1 where b: "body s = (r1, s1)" by fastforce
    have "locks ?D ?F s1" using held s b by (auto simp: maintains_def dest: tripleD)
    then show "locks D F s'"
      using r s b same free by (auto simp: locks_def release_lock_def set_flock_def split: if_splits)
  qed
  show ?thesis
    unfolding maintains_def serialized_def Let_def
    by (rule triple_bind [where R = "\<lambda>outermost s. locks ?D F s \<and> outermost = (D ?k = 0)"],
        simp add: triple_def acquire_lock_def locks_def, rule triple_bind [OF take run])
qed

lemma locks_switch:
  assumes "locks_agree D F" "\<And>D F. maintains (locks D F) snap" "\<And>D F t. maintains (locks D F) (prepare t)"
    and "\<And>D F p. locks_agree D F \<Longrightarrow> maintains (locks D F) (cleanup p)"
  shows "maintains (locks D F) (switch_entry snap prepare msg cleanup d)"
  unfolding switch_entry_def
  by (intro maintain locks_serialized assms)

lemma locks_nested: "locks_agree D F \<Longrightarrow> maintains (locks D F) (write_bytes_nested d data)"
  unfolding write_bytes_nested_def write_bytes_switch by (rule locks_switch) (auto intro!: maintain)

lemma locks_remove: "locks_agree D F \<Longrightarrow> maintains (locks D F) (remove_durable d)"
  unfolding remove_durable_def confirm_or_def [symmetric]
  by (rule locks_serialized) (auto intro!: maintain locks_nested split: option.splits)

lemma locks_write_bytes: "locks_agree D F \<Longrightarrow> maintains (locks D F) (write_bytes_durable d data)"
  unfolding write_bytes_durable_def write_bytes_switch
  by (rule locks_switch) (auto intro!: maintain locks_nested locks_remove split: option.splits)

lemma locks_symlink_nested: "locks_agree D F \<Longrightarrow> maintains (locks D F) (write_symlink_nested d t)"
  unfolding write_symlink_nested_def write_symlink_switch by (rule locks_switch) (auto intro!: maintain)

lemma locks_write_symlink: "locks_agree D F \<Longrightarrow> maintains (locks D F) (write_symlink_durable d t)"
  unfolding write_symlink_durable_def write_symlink_switch
  by (rule locks_switch) (auto intro!: maintain locks_nested locks_remove locks_symlink_nested split: snapshot.splits)

section \<open>Properties of the durable primitives\<close>

lemma within_UNIV [simp]: "within d UNIV s" "maintains (within d UNIV) m"
  by (auto simp: within_def maintains_def triple_def)

text \<open>A write, symlink switch or removal that returns has survived: readers see exactly the new
  entry, and it is the only thing a crash at any later moment can leave there, with all its bytes.\<close>

theorem durable_success_survives_crash:
  assumes "d \<noteq> []"
  shows "(write_bytes_durable d data s = (Inr (), s') \<longrightarrow>
      fs_view s' d = Some (File data True) \<and> fs_disk s' d = [Some (File data True)])
    \<and> (write_symlink_durable d target s = (Inr (), s') \<longrightarrow>
      fs_view s' d = Some (Link target) \<and> fs_disk s' d = [Some (Link target)])
    \<and> (remove_durable d s = (Inr (), s') \<longrightarrow> fs_view s' d = None \<and> fs_disk s' d = [None])"
proof -
  have 1: "triple (within d UNIV) (write_bytes_durable d data) (switched d UNIV (Some (File data True)))"
    unfolding write_bytes_durable_def write_bytes_switch
    by (rule switch_triple [where good = "\<lambda>_. True"])
      (use assms write_temporary_view in \<open>auto simp: triple_def\<close>)
  have 2: "triple (within d UNIV) (write_symlink_durable d target) (switched d UNIV (Some (Link target)))"
    by (rule write_symlink_triple) (use assms in \<open>auto simp: flush_closed_def\<close>)
  have 3: "triple (within d UNIV) (remove_durable d) (switched d UNIV None)"
    by (rule remove_triple) (use assms in \<open>auto simp: flush_closed_def\<close>)
  show ?thesis using 1 2 3 by (auto simp: triple_def switched_def)
qed

text \<open>C5. A write that fails, at whatever system call, short write or injected fault, never exposes
  anything else: at the destination, to a reader and after any crash, there is the complete new
  value, nothing, or something that was there before (with its bytes flushed).\<close>

theorem durable_write_never_torn:
  assumes "d \<noteq> []" "write_bytes_durable d data s = (r, s')"
    and "\<forall>t. Some (Link t) \<notin> insert (fs_view s d) (set (fs_disk s d))"
    and "n \<in> insert (fs_view s' d) (set (fs_disk s' d))"
  shows "n = Some (File data True) \<or> n = None
    \<or> (\<exists>m \<in> insert (fs_view s d) (set (fs_disk s d)). n = m \<or> n = flush_node m)"
proof -
  let ?M = "insert (fs_view s d) (set (fs_disk s d))"
  let ?N = "{Some (File data True), None} \<union> ?M \<union> flush_node ` ?M"
  have idem: "flush_node (flush_node m) = flush_node m" for m by (cases m rule: flush_node.cases) auto
  have link: "Some (Link t) = flush_node m \<Longrightarrow> m = Some (Link t)" for m t by (cases m rule: flush_node.cases) auto
  have t: "triple (within d ?N) (write_bytes_durable d data) (switched d ?N (Some (File data True)))"
    by (rule write_bytes_triple [OF assms(1)])
      (use assms(3) idem in \<open>auto simp: flush_closed_def dest!: link\<close>)
  have "within d ?N s" by (auto simp: within_def)
  from tripleD [OF t this assms(2)] have "n \<in> ?N"
    using assms(4) unfolding switched_def within_def by blast
  then show ?thesis by blast
qed

text \<open>Every durable operation gives its lock back: started with the process and thread locks in
  agreement, each primitive ends with the same nesting depths and the same file locks, on every path,
  faults in nested cleanup included.\<close>

theorem durable_locks_balanced:
  assumes "locks_agree (fs_depth s) (fs_flock s)"
    and "s' \<in> {snd (write_bytes_durable d data s), snd (write_symlink_durable d target s), snd (remove_durable d s)}"
  shows "fs_depth s' = fs_depth s \<and> fs_flock s' = fs_flock s"
proof -
  have keep: "fs_depth (snd (m s)) = fs_depth s \<and> fs_flock (snd (m s)) = fs_flock s"
    if "maintains (locks (fs_depth s) (fs_flock s)) (m :: unit io)" for m
    using tripleD [OF that [unfolded maintains_def], of s "fst (m s)" "snd (m s)"] by (simp add: locks_def)
  show ?thesis
    using assms(2) keep [OF locks_write_bytes [OF assms(1)]] keep [OF locks_write_symlink [OF assms(1)]]
      keep [OF locks_remove [OF assms(1)]] by auto
qed

section \<open>Operations without system faults\<close>

lemma calm_syscall: "fs_faults s = [] \<Longrightarrow> syscall f s = (Inr (), f s)"
  by (simp add: syscall_def)

lemma calm_fields [simp]:
  "calm d v ij (s\<lparr>fs_depth := a\<rparr>) = calm d v ij s" "calm d v ij (s\<lparr>fs_flock := b\<rparr>) = calm d v ij s"
  "calm d v ij (s\<lparr>fs_names := c\<rparr>) = calm d v ij s" "calm d v ij (s\<lparr>fs_disk := e\<rparr>) = calm d v ij s"
  by (simp_all add: calm_def)

lemma calm_set_entry: "calm d v ij s \<Longrightarrow> q \<noteq> d \<Longrightarrow> q \<noteq> parent d \<Longrightarrow> calm d v ij (set_entry q n s)"
  by (simp add: calm_def set_entry_def)

lemma calm_write_all:
  "fs_faults s = [] \<Longrightarrow> fs_writes s = [] \<Longrightarrow> fs_short_write s = None \<Longrightarrow>
   write_all t data first s = (Inr (), if data = [] then s else append_bytes t data (s\<lparr>fs_writes := []\<rparr>))"
  by (subst write_all.simps)
    (simp add: os_write_def io_bind_def syscall_def first_chunk_def write_all.simps [of t "[]"])

lemma siblings_ne: "parent d @ [x] \<noteq> parent d" "lock_path d \<noteq> parent d" "d \<noteq> [] \<Longrightarrow> d \<noteq> parent d"
  using parent_length [of d] by (auto simp: lock_path_def)

lemma calm_make_directory: "calm d v ij s \<Longrightarrow>
   \<exists>s'. make_directory_durable (parent d) s = (Inr (), s') \<and> calm d v ij s'"
  by (simp add: make_directory_durable_def io_bind_def io_get_def missing_levels.simps is_dir_def followed_def
      calm_def io_return_def fsync_directory_plain_def os_to_durability_def io_catch_def calm_syscall
      record_directory_def)

lemma calm_serialized:
  assumes "d \<noteq> []" "triple (calm d v ij) body Q"
    and "\<And>r s b f. Q r s \<Longrightarrow> Q r (s\<lparr>fs_depth := b\<rparr>) \<and> Q r (s\<lparr>fs_flock := f\<rparr>)"
  shows "triple (calm d v ij) (serialized d body) Q"
proof (rule tripleI)
  fix s r s' assume s: "calm d v ij s" and r: "serialized d body s = (r, s')"
  let ?k = "lock_path d"
  have lock: "calm d v ij (open_lock_file ?k s1)" if "calm d v ij s1" for s1
    using that calm_set_entry [OF that lock_path_ne [OF assms(1)] siblings_ne(2)] by (simp add: open_lock_file_def)
  define s1 where "s1 = s\<lparr>fs_depth := (fs_depth s)(?k := fs_depth s ?k + 1)\<rparr>"
  have s1: "calm d v ij s1" using s by (simp add: s1_def)
  define s2 where "s2 = (if fs_depth s ?k = 0 then set_flock ?k True (open_lock_file ?k s1) else s1)"
  have s2: "calm d v ij s2" using lock [OF s1] s1 by (simp add: s2_def set_flock_def)
  have f: "fs_faults s1 = []" "fs_faults (open_lock_file ?k s1) = []"
    using s1 lock [OF s1] by (auto simp: calm_def)
  obtain r3 s3 where b: "body s2 = (r3, s3)" by fastforce
  have acq: "acquire_lock ?k s = (Inr (fs_depth s ?k = 0), s1)" by (simp add: acquire_lock_def s1_def)
  have "Q r3 s3" by (rule tripleD [OF assms(2) s2 b])
  moreover have "r = r3" "s' = release_lock ?k (if fs_depth s ?k = 0 then set_flock ?k False s3 else s3)"
    using r b f acq by (auto simp: serialized_def Let_def io_bind_def abandon_on_error_def
        io_catch_def calm_syscall io_return_def s2_def split: if_splits)
  ultimately show "Q r s'" using assms(3) by (simp add: release_lock_def set_flock_def)
qed

lemma calm_temporary: "d \<noteq> [] \<Longrightarrow> triple (calm d v ij) (temporary_path d)
   (\<lambda>r s. \<exists>t. r = Inr t \<and> t \<noteq> d \<and> t \<noteq> parent d \<and> calm d v ij s)"
  using temporary_ne [of d] siblings_ne(1) [of d]
  by (fastforce simp: triple_def temporary_path_def Let_def)

lemma calm_snapshot: "plain_entry v prev \<Longrightarrow> triple (calm d v ij) (snapshot_following d)
   (\<lambda>r s. r = Inr prev \<and> calm d v ij s)"
  by (cases "(v, prev)" rule: plain_entry.cases)
    (auto simp: triple_def snapshot_following_def read_bytes_def io_bind_def io_get_def io_return_def
      followed_def calm_syscall calm_def)

lemma calm_snapshot_regular: "plain_entry v prev \<Longrightarrow> triple (calm d v ij) (snapshot_regular d)
   (\<lambda>r s. r = Inr prev \<and> calm d v ij s)"
  by (cases "(v, prev)" rule: plain_entry.cases)
    (auto simp: triple_def snapshot_regular_def read_bytes_def io_bind_def io_get_def io_return_def
      followed_def calm_syscall calm_def)

lemma calm_inject:
  "ij = None \<or> ij = one_shot_dir \<Longrightarrow> st \<noteq> FSYNC_STAGE_DIR \<Longrightarrow> fs_injector s = ij \<Longrightarrow>
   maybe_inject p st s = (Inr (), s)"
  by (auto simp: maybe_inject_def one_shot_dir_def)

lemma calm_swap_in:
  assumes "d \<noteq> []" "t \<noteq> d" "t \<noteq> parent d" "ij = None \<or> ij = one_shot_dir" "calm d v ij s"
  shows "\<exists>s'. swap_in t d (write_temporary_file t data) msg s = (Inr (), s') \<and> calm d (Some (File data True)) ij s'"
  using assms(5) assms(2,3) siblings_ne(3) [OF assms(1)]
  by (simp add: swap_in_def cleanup_temporary_def write_temporary_file_def os_to_durability_def io_catch_def
      io_bind_def calm_syscall calm_def calm_write_all set_entry_def append_bytes_def flush_file_def
      replace_entry_def calm_inject [OF assms(4)])

lemma calm_confirm: "calm d v None s \<Longrightarrow> \<exists>s'. confirm_or d cleanup s = (Inr (), s')"
  by (simp add: confirm_or_def fsync_directory_def os_to_durability_def io_catch_def io_bind_def calm_syscall
      calm_def maybe_inject_def record_directory_def)

lemma one_shot_confirm:
  "calm d v one_shot_dir s \<Longrightarrow> \<exists>s'. calm d v None s'
     \<and> confirm_or d cleanup s = io_bind cleanup (\<lambda>_. io_raise (DurabilityError ''injected failure'')) s'"
  by (intro exI [of _ "s\<lparr>fs_injector := None\<rparr>"])
    (simp add: confirm_or_def fsync_directory_def os_to_durability_def io_catch_def io_bind_def calm_syscall
      calm_def maybe_inject_def one_shot_dir_def io_raise_def is_durability_error_def)

lemma triple_exI: "(\<And>s. P s \<Longrightarrow> \<exists>r s'. m s = (r, s') \<and> Q r s') \<Longrightarrow> triple P m Q"
  unfolding triple_def by fastforce

lemma calm_write_with:
  assumes "d \<noteq> []" "plain_entry v prev" "ij = None \<or> ij = one_shot_dir"
    and conf: "triple (calm d (Some (File data True)) ij) (confirm_or d (cleanup prev)) Q"
    and Q: "\<And>r s b f. Q r s \<Longrightarrow> Q r (s\<lparr>fs_depth := b\<rparr>) \<and> Q r (s\<lparr>fs_flock := f\<rparr>)"
  shows "triple (calm d v ij) (write_bytes_with cleanup d data) Q"
proof -
  let ?I = "calm d v ij"
  have tail: "triple ?I (io_bind (swap_in t d (write_temporary_file t data) msg) (\<lambda>_. confirm_or d (cleanup prev))) Q"
    if "t \<noteq> d" "t \<noteq> parent d" for t msg
  proof (rule triple_bind [OF triple_exI conf])
    fix s assume "calm d v ij s"
    from calm_swap_in [OF assms(1) that assms(3) this, of data msg]
    obtain s' where "swap_in t d (write_temporary_file t data) msg s = (Inr (), s')"
      "calm d (Some (File data True)) ij s'" by blast
    then show "\<exists>r s'. swap_in t d (write_temporary_file t data) msg s = (r, s')
        \<and> (case r of Inl e \<Rightarrow> Q (Inl e) s' | Inr x \<Rightarrow> calm d (Some (File data True)) ij s')"
      by (intro exI [of _ "Inr ()"] exI [of _ s']) simp
  qed
  have snap: "triple ?I (io_bind (snapshot_following d) (\<lambda>p.
      io_bind (swap_in t d (write_temporary_file t data) msg) (\<lambda>_. confirm_or d (cleanup p)))) Q"
    if "t \<noteq> d" "t \<noteq> parent d" for t msg
    by (rule triple_bind [where R = "\<lambda>p s. ?I s \<and> p = prev"], rule triple_weaken [OF calm_snapshot [OF assms(2)]])
      (use tail [OF that] in \<open>auto simp: triple_def\<close>)
  have body: "triple ?I (io_bind (temporary_path d) (\<lambda>t. io_bind (snapshot_following d) (\<lambda>p.
      io_bind (swap_in t d (write_temporary_file t data) msg) (\<lambda>_. confirm_or d (cleanup p))))) Q" for msg
    by (rule triple_bind [where R = "\<lambda>t s. ?I s \<and> t \<noteq> d \<and> t \<noteq> parent d"],
        rule triple_weaken [OF calm_temporary [OF assms(1)]])
      (use snap in \<open>auto simp: triple_def\<close>)
  show ?thesis
    unfolding write_bytes_switch switch_entry_def
    by (rule triple_bind [OF _ calm_serialized [OF assms(1) body Q]])
      (use calm_make_directory in \<open>fastforce simp: triple_def\<close>)
qed

lemma calm_confirm_triple: "triple (calm d v None) (confirm_or d cleanup) (\<lambda>r s. r = Inr ())"
  using calm_confirm by (intro triple_exI) fast

lemma calm_write_with_ok:
  "d \<noteq> [] \<Longrightarrow> plain_entry v prev \<Longrightarrow> triple (calm d v None) (write_bytes_with cleanup d data) (\<lambda>r s. r = Inr ())"
  by (rule calm_write_with [OF _ _ _ calm_confirm_triple]) auto

lemma calm_remove_ok:
  assumes "d \<noteq> []" "plain_entry v prev"
  shows "triple (calm d v None) (remove_durable d) (\<lambda>r s. r = Inr ())"
proof -
  have un: "triple (calm d v None) (os_to_durability msg (unlink_missing_ok d))
     (\<lambda>r s. r = Inr () \<and> calm d None None s)" for msg
    using siblings_ne(3) [OF assms(1)]
    by (auto simp: triple_def os_to_durability_def io_catch_def unlink_missing_ok_def calm_syscall calm_def set_entry_def)
  have "triple (calm d v None) (io_bind (snapshot_regular d) (\<lambda>prev.
      io_bind (os_to_durability ''cannot remove durable state'' (unlink_missing_ok d)) (\<lambda>_. confirm_or d
        (case prev of Some b \<Rightarrow> suppress_durability (write_bytes_nested d b) | None \<Rightarrow> io_return ()))))
      (\<lambda>r s. r = Inr ())"
    by (rule triple_bind [where R = "\<lambda>_. calm d v None"],
        rule triple_weaken [OF calm_snapshot_regular [OF assms(2)]], simp, simp,
        rule triple_bind [where R = "\<lambda>_. calm d None None"], rule triple_weaken [OF un], simp, simp,
        rule calm_confirm_triple)
  from calm_serialized [OF assms(1) this] show ?thesis
    by (simp add: remove_durable_def confirm_or_def)
qed

lemma suppress_ok:
  assumes "triple P m (\<lambda>r s. r = Inr () \<and> R s)"
  shows "triple P (suppress_durability m) (\<lambda>r s. r = Inr () \<and> R s)"
proof (rule tripleI)
  fix s r s' assume s: "P s" and r: "suppress_durability m s = (r, s')"
  obtain r1 s1 where m: "m s = (r1, s1)" by fastforce
  with tripleD [OF assms s m] r show "r = Inr () \<and> R s'"
    by (simp add: suppress_durability_def io_catch_def)
qed

lemma calm_switched:
  "triple (calm d v None) m (\<lambda>r s. r = Inr ()) \<Longrightarrow> triple (within d UNIV) m (switched d UNIV n) \<Longrightarrow>
   triple (calm d v None) m (\<lambda>r s. r = Inr () \<and> settled d n s)"
  by (auto simp: triple_def switched_def settled_def within_def)

lemma remove_settles:
  "d \<noteq> [] \<Longrightarrow> plain_entry v prev \<Longrightarrow> triple (calm d v None) (remove_durable d) (\<lambda>r s. r = Inr () \<and> settled d None s)"
  by (rule calm_switched [OF calm_remove_ok remove_triple]) (auto simp: flush_closed_def)

lemma nested_settles:
  "d \<noteq> [] \<Longrightarrow> plain_entry v prev \<Longrightarrow>
   triple (calm d v None) (write_bytes_nested d b) (\<lambda>r s. r = Inr () \<and> settled d (Some (File b True)) s)"
  by (rule calm_switched [OF _ nested_triple]) (auto simp: write_bytes_nested_def intro: calm_write_with_ok)

lemma restore_settles:
  assumes "d \<noteq> []" "plain_entry v prev"
  shows "triple (calm d (Some (File data True)) None) (case prev of
      Some b \<Rightarrow> suppress_durability (write_bytes_nested d b)
    | None \<Rightarrow> suppress_durability (remove_durable d)) (\<lambda>r s. r = Inr () \<and> settled d (flush_node v) s)"
proof -
  have p: "plain_entry (Some (File data True)) (Some data)" by simp
  show ?thesis
  proof (cases prev)
    case None
    then have "v = None" using assms(2) by (cases "(v, prev)" rule: plain_entry.cases) auto
    then show ?thesis using None suppress_ok [OF remove_settles [OF assms(1) p]] by simp
  next
    case (Some b)
    then obtain c where "v = Some (File b c)" using assms(2) by (cases "(v, prev)" rule: plain_entry.cases) auto
    then show ?thesis using Some suppress_ok [OF nested_settles [OF assms(1) p]] by simp
  qed
qed

text \<open>C6. Without system faults, with the parent directory there and a regular file or nothing at the
  destination, a durable write succeeds and settles the new value. When only the confirmation of the
  directory entry fails, the write reports the failure and has put back what was there before, durably.\<close>

theorem write_settles_or_restores:
  assumes "d \<noteq> []" "plain_entry v prev"
  shows "(calm d v None s \<longrightarrow> (\<exists>s'. write_bytes_durable d data s = (Inr (), s') \<and> settled d (Some (File data True)) s'))
    \<and> (calm d v one_shot_dir s \<longrightarrow> (\<exists>s'. write_bytes_durable d data s = (Inl (DurabilityError ''injected failure''), s')
          \<and> settled d (flush_node v) s'))"
proof -
  have 1: "triple (within d UNIV) (write_bytes_durable d data) (switched d UNIV (Some (File data True)))"
    unfolding write_bytes_durable_def write_bytes_switch
    by (rule switch_triple [where good = "\<lambda>_. True"])
      (use assms write_temporary_view in \<open>auto simp: triple_def\<close>)
  have ok: "triple (calm d v None) (write_bytes_durable d data) (\<lambda>r s. r = Inr () \<and> settled d (Some (File data True)) s)"
    by (rule calm_switched [OF _ 1]) (simp add: write_bytes_durable_def calm_write_with_ok [OF assms])
  have conf: "triple (calm d (Some (File data True)) one_shot_dir) (confirm_or d (case prev of
      Some b \<Rightarrow> suppress_durability (write_bytes_nested d b) | None \<Rightarrow> suppress_durability (remove_durable d)))
      (\<lambda>r s. r = Inl (DurabilityError ''injected failure'') \<and> settled d (flush_node v) s)"
  proof (rule tripleI)
    fix s r s' let ?c = "case prev of
      Some b \<Rightarrow> suppress_durability (write_bytes_nested d b) | None \<Rightarrow> suppress_durability (remove_durable d)"
    assume a: "calm d (Some (File data True)) one_shot_dir s" "confirm_or d ?c s = (r, s')"
    obtain s1 where s1: "calm d (Some (File data True)) None s1"
      "io_bind ?c (\<lambda>_. io_raise (DurabilityError ''injected failure'')) s1 = (r, s')"
      using one_shot_confirm [OF a(1), of ?c] a(2) by metis
    obtain r2 s2 where c: "?c s1 = (r2, s2)" by fastforce
    from tripleD [OF restore_settles [OF assms] s1(1) c]
    show "r = Inl (DurabilityError ''injected failure'') \<and> settled d (flush_node v) s'"
      using s1(2) c by (auto simp: io_bind_def io_raise_def)
  qed
  have bad: "triple (calm d v one_shot_dir) (write_bytes_durable d data)
      (\<lambda>r s. r = Inl (DurabilityError ''injected failure'') \<and> settled d (flush_node v) s)"
    unfolding write_bytes_durable_def
    by (rule calm_write_with [where prev = prev, OF assms]) (use conf in \<open>auto simp: settled_def\<close>)
  show ?thesis using ok bad by (cases "write_bytes_durable d data s") (auto simp: triple_def)
qed

lemma sample_calm: "calm [''d'', ''f''] old ij (sample_fs old ij)"
  by (simp add: calm_def sample_fs_def parent_def)

text \<open>Over an existing file the confirmation fails once, and the file is back.\<close>

theorem write_settles_or_restores_witness:
  "\<exists>s'. write_bytes_durable [''d'', ''f''] [2] (sample_fs (Some (File [1] True)) one_shot_dir)
     = (Inl (DurabilityError ''injected failure''), s') \<and> settled [''d'', ''f''] (Some (File [1] True)) s'"
  using write_settles_or_restores [of "[''d'', ''f'']" "Some (File [1] True)" "Some [1]" "sample_fs (Some (File [1] True)) one_shot_dir" "[2]"]
    sample_calm by simp

theorem durable_success_survives_crash_witness:
  "write_bytes_durable [''d'', ''f''] [1, 2] (sample_fs None None)
     = (Inr (), snd (write_bytes_durable [''d'', ''f''] [1, 2] (sample_fs None None)))
   \<and> fs_disk (snd (write_bytes_durable [''d'', ''f''] [1, 2] (sample_fs None None))) [''d'', ''f'']
     = [Some (File [1, 2] True)]"
proof -
  have "fst (write_bytes_durable [''d'', ''f''] [1, 2] (sample_fs None None)) = Inr ()" by code_simp
  then have "write_bytes_durable [''d'', ''f''] [1, 2] (sample_fs None None)
     = (Inr (), snd (write_bytes_durable [''d'', ''f''] [1, 2] (sample_fs None None)))" by (simp add: prod_eq_iff)
  then show ?thesis using durable_success_survives_crash [of "[''d'', ''f'']"] by blast
qed

theorem durable_write_never_torn_witness:
  "let s' = snd (write_bytes_durable [''d'', ''f''] [1, 2] (sample_fs (Some (File [7] True)) one_shot_dir)) in
   fs_view s' [''d'', ''f''] \<in> {Some (File [1, 2] True), None, Some (File [7] True)}"
  using durable_write_never_torn [of "[''d'', ''f'']" "[1, 2]" "sample_fs (Some (File [7] True)) one_shot_dir"
      "fst (write_bytes_durable [''d'', ''f''] [1, 2] (sample_fs (Some (File [7] True)) one_shot_dir))"
      "snd (write_bytes_durable [''d'', ''f''] [1, 2] (sample_fs (Some (File [7] True)) one_shot_dir))"
      "fs_view (snd (write_bytes_durable [''d'', ''f''] [1, 2] (sample_fs (Some (File [7] True)) one_shot_dir))) [''d'', ''f'']"]
  by (auto simp: Let_def sample_fs_def)

theorem durable_locks_balanced_witness:
  "fs_flock (snd (write_bytes_durable [''d'', ''f''] [1, 2] (sample_fs None one_shot_dir))) = (\<lambda>k. False)"
  using durable_locks_balanced [of "sample_fs None one_shot_dir"
      "snd (write_bytes_durable [''d'', ''f''] [1, 2] (sample_fs None one_shot_dir))" "[''d'', ''f'']" "[1, 2]" "''t''"]
  by (simp add: locks_agree_def sample_fs_def)

end
