(* ===== verification/PyUuid.thy ===== *)
theory PyUuid
  imports PyJsonText
begin

text \<open>
  The standard-library pieces behind the program's identifiers: \<open>int(text, base)\<close>, the
  constructor and the text form of \<open>uuid.UUID\<close>, and \<open>uuid.uuid5\<close> (SHA-1 over a namespace
  and a name). Unicode tables are those of CPython 3.12.
\<close>

unbundle bit_operations_syntax

section \<open>Integers from text\<close>

definition uni_digit_zeros :: "nat list" where
  "uni_digit_zeros = [0x30, 0x660, 0x6f0, 0x7c0, 0x966, 0x9e6, 0xa66, 0xae6, 0xb66, 0xbe6, 0xc66,
     0xce6, 0xd66, 0xde6, 0xe50, 0xed0, 0xf20, 0x1040, 0x1090, 0x17e0, 0x1810, 0x1946, 0x19d0,
     0x1a80, 0x1a90, 0x1b50, 0x1bb0, 0x1c40, 0x1c50, 0xa620, 0xa8d0, 0xa900, 0xa9d0, 0xa9f0,
     0xaa50, 0xabf0, 0xff10, 0x104a0, 0x10d30, 0x11066, 0x110f0, 0x11136, 0x111d0, 0x112f0,
     0x11450, 0x114d0, 0x11650, 0x116c0, 0x11730, 0x118e0, 0x11950, 0x11c50, 0x11d50, 0x11da0,
     0x11f50, 0x16a60, 0x16ac0, 0x16b50, 0x1d7ce, 0x1d7d8, 0x1d7e2, 0x1d7ec, 0x1d7f6, 0x1e140,
     0x1e2f0, 0x1e4f0, 0x1e950, 0x1fbf0]"

text \<open>\<open>str.isspace\<close> of one character.\<close>

definition uni_space :: "nat \<Rightarrow> bool" where
  "uni_space c \<longleftrightarrow> (9 \<le> c \<and> c \<le> 13) \<or> (0x1c \<le> c \<and> c \<le> 0x20) \<or> c = 0x85 \<or> c = 0xa0
     \<or> c = 0x1680 \<or> (0x2000 \<le> c \<and> c \<le> 0x200a) \<or> c = 0x2028 \<or> c = 0x2029 \<or> c = 0x202f
     \<or> c = 0x205f \<or> c = 0x3000"

definition ascii_space :: "nat \<Rightarrow> bool" where
  "ascii_space c \<longleftrightarrow> (9 \<le> c \<and> c \<le> 13) \<or> c = 32"

text \<open>Non-ASCII digits and spaces are mapped to ASCII before an integer is read.\<close>

definition ascii_digit_form :: "nat \<Rightarrow> nat" where
  "ascii_digit_form c =
    (if c < 127 then c
     else if uni_space c then 32
     else case find (\<lambda>z. z \<le> c \<and> c \<le> z + 9) uni_digit_zeros of
            Some z \<Rightarrow> 48 + (c - z) | None \<Rightarrow> 63)"

text \<open>
  Digits with single underscores between them. The flag is set at the start and after an
  underscore: another underscore, or the end of the digits, is then an error.
\<close>

fun scan_under :: "(nat \<Rightarrow> nat option) \<Rightarrow> int \<Rightarrow> bool \<Rightarrow> int \<Rightarrow> pystr \<Rightarrow> (int \<times> pystr) option" where
  "scan_under dv base us acc [] = (if us then None else Some (acc, []))"
| "scan_under dv base us acc (c # r) =
    (if c = 95 then (if us then None else scan_under dv base True acc r)
     else case dv c of
            Some d \<Rightarrow> scan_under dv base False (acc * base + int d) r
          | None \<Rightarrow> if us then None else Some (acc, c # r))"

definition skip_hex_prefix :: "pystr \<Rightarrow> pystr" where
  "skip_hex_prefix s = (case s of
      a # b # r \<Rightarrow> if a = 48 \<and> (b = 120 \<or> b = 88)
        then (if r \<noteq> [] \<and> hd r = 95 then tl r else r) else s
    | _ \<Rightarrow> s)"

definition decimal_digit :: "nat \<Rightarrow> nat option" where
  "decimal_digit c = (if is_digit c then Some (c - 48) else None)"

definition py_int :: "bool \<Rightarrow> pystr \<Rightarrow> int res" where
  "py_int hex s =
    (let t = dropWhile ascii_space (map ascii_digit_form s);
         neg = (t \<noteq> [] \<and> hd t = 45);
         u = (if t \<noteq> [] \<and> (hd t = 45 \<or> hd t = 43) then tl t else t);
         w = (if hex then skip_hex_prefix u else u)
     in case scan_under (if hex then hex_digit else decimal_digit) (if hex then 16 else 10) True 0 w of
          Some (n, r) \<Rightarrow>
            if list_all ascii_space r \<and> (hex \<or> length (filter is_digit w) \<le> max_str_digits)
            then Ok (if neg then - n else n) else Raise (ValueError ''invalid literal for int()'')
        | None \<Rightarrow> Raise (ValueError ''invalid literal for int()''))"

section \<open>UUIDs\<close>

type_synonym uuid = "128 word"

function remove_sub :: "pystr \<Rightarrow> pystr \<Rightarrow> pystr" where
  "remove_sub p s =
    (if s = [] \<or> p = [] then s
     else case strip_prefix p s of
            Some r \<Rightarrow> remove_sub p r
          | None \<Rightarrow> hd s # remove_sub p (tl s))"
  by pat_completeness auto
termination
  by (relation "measure (\<lambda>(p, s). length s)") (auto dest: strip_prefix_length)

definition strip_chars :: "(nat \<Rightarrow> bool) \<Rightarrow> pystr \<Rightarrow> pystr" where
  "strip_chars P s = rev (dropWhile P (rev (dropWhile P s)))"

definition uuid_of_str :: "pystr \<Rightarrow> uuid res" where
  "uuid_of_str s =
    (let h = remove_sub (lit ''uuid:'') (remove_sub (lit ''urn:'') s);
         h2 = filter (\<lambda>c. c \<noteq> 45) (strip_chars (\<lambda>c. c = 123 \<or> c = 125) h)
     in if length h2 \<noteq> 32 then Raise (ValueError ''badly formed hexadecimal UUID string'')
        else ebind (py_int True h2) (\<lambda>n.
          if 0 \<le> n \<and> n < 2 ^ 128 then Ok (word_of_int n)
          else Raise (ValueError ''int is out of range'')))"

text \<open>\<open>'%032x' % uuid.int\<close> and the hyphenated form.\<close>

definition uuid_hex :: "uuid \<Rightarrow> pystr" where
  "uuid_hex u = map (\<lambda>i. hex_char (nat (uint u div 16 ^ (31 - i) mod 16))) [0..<32]"

definition uuid_str :: "uuid \<Rightarrow> pystr" where
  "uuid_str u = (let h = uuid_hex u in
     take 8 h @ [45] @ take 4 (drop 8 h) @ [45] @ take 4 (drop 12 h) @ [45]
       @ take 4 (drop 16 h) @ [45] @ drop 20 h)"

section \<open>SHA-1 and version 5 UUIDs\<close>

definition be_bytes :: "nat \<Rightarrow> int \<Rightarrow> pybytes" where
  "be_bytes n x = map (\<lambda>i. word_of_int (x div 256 ^ (n - 1 - i))) [0..<n]"

definition int_of_bytes :: "pybytes \<Rightarrow> int" where
  "int_of_bytes bs = foldl (\<lambda>n b. n * 256 + uint b) 0 bs"

definition sha1_pad :: "pybytes \<Rightarrow> pybytes" where
  "sha1_pad bs = bs @ [0x80] @ replicate ((119 - length bs mod 64) mod 64) 0
     @ be_bytes 8 (8 * int (length bs))"

fun be_words :: "pybytes \<Rightarrow> 32 word list" where
  "be_words (a # b # c # d # r) = word_of_int (int_of_bytes [a, b, c, d]) # be_words r"
| "be_words _ = []"

definition rotl :: "nat \<Rightarrow> 32 word \<Rightarrow> 32 word" where
  "rotl n w = push_bit n w OR drop_bit (32 - n) w"

text \<open>The message schedule, newest word first.\<close>

fun sha1_extend :: "nat \<Rightarrow> 32 word list \<Rightarrow> 32 word list" where
  "sha1_extend 0 ws = ws"
| "sha1_extend (Suc n) ws =
     sha1_extend n (rotl 1 (ws ! 2 XOR ws ! 7 XOR ws ! 13 XOR ws ! 15) # ws)"

definition sha1_f :: "nat \<Rightarrow> 32 word \<Rightarrow> 32 word \<Rightarrow> 32 word \<Rightarrow> 32 word \<times> 32 word" where
  "sha1_f t b c d =
    (if t < 20 then ((b AND c) OR (NOT b AND d), 0x5A827999)
     else if t < 40 then (b XOR c XOR d, 0x6ED9EBA1)
     else if t < 60 then ((b AND c) OR (b AND d) OR (c AND d), 0x8F1BBCDC)
     else (b XOR c XOR d, 0xCA62C1D6))"

type_synonym sha1_state = "32 word \<times> 32 word \<times> 32 word \<times> 32 word \<times> 32 word"

fun sha1_rounds :: "nat \<Rightarrow> 32 word list \<Rightarrow> sha1_state \<Rightarrow> sha1_state" where
  "sha1_rounds t [] s = s"
| "sha1_rounds t (w # ws) (a, b, c, d, e) =
     (let (f, k) = sha1_f t b c d
      in sha1_rounds (Suc t) ws (rotl 5 a + f + e + k + w, a, rotl 30 b, c, d))"

fun sha1_block :: "32 word list \<Rightarrow> sha1_state \<Rightarrow> sha1_state" where
  "sha1_block ws (a, b, c, d, e) =
     (case sha1_rounds 0 (rev (sha1_extend 64 (rev ws))) (a, b, c, d, e) of
        (a', b', c', d', e') \<Rightarrow> (a + a', b + b', c + c', d + d', e + e'))"

function sha1_blocks :: "32 word list \<Rightarrow> sha1_state \<Rightarrow> sha1_state" where
  "sha1_blocks ws s = (if ws = [] then s else sha1_blocks (drop 16 ws) (sha1_block (take 16 ws) s))"
  by pat_completeness auto
termination
  by (relation "measure (\<lambda>(ws, s). length ws)") auto

definition sha1 :: "pybytes \<Rightarrow> pybytes" where
  "sha1 bs =
    (case sha1_blocks (be_words (sha1_pad bs))
            (0x67452301, 0xEFCDAB89, 0x98BADCFE, 0x10325476, 0xC3D2E1F0) of
       (a, b, c, d, e) \<Rightarrow> concat (map (\<lambda>w. be_bytes 4 (uint w)) [a, b, c, d, e]))"

definition uuid5 :: "uuid \<Rightarrow> pystr \<Rightarrow> uuid res" where
  "uuid5 ns name =
    ebind (utf8_encode name) (\<lambda>nb.
      let h = word_of_int (int_of_bytes (take 16 (sha1 (be_bytes 16 (uint ns) @ nb)))) :: uuid;
          h1 = (h AND NOT (push_bit 48 0xc000)) OR push_bit 48 0x8000
      in Ok ((h1 AND NOT (push_bit 64 0xf000)) OR push_bit 76 5))"

text \<open>The digits of a number in a base, most significant first.\<close>

definition base_digits :: "int \<Rightarrow> nat \<Rightarrow> int \<Rightarrow> int list" where
  "base_digits b n x = map (\<lambda>i. x div b ^ (n - 1 - i) mod b) [0..<n]"

declare remove_sub.simps [simp del] sha1_blocks.simps [simp del]

section \<open>The text form of a UUID\<close>

lemma base_digits_Suc: "0 < b \<Longrightarrow> base_digits b (Suc n) x = base_digits b n (x div b) @ [x mod b]"
proof -
  assume b: "0 < b"
  have "x div b ^ (n - i) = x div b div b ^ (n - 1 - i)" if "i < n" for i
  proof -
    have "n - i = Suc (n - 1 - i)" using that by simp
    then show ?thesis using b by (simp add: zdiv_zmult2_eq)
  qed
  then show ?thesis by (simp add: base_digits_def)
qed

lemma foldl_base_digits:
  "0 < b \<Longrightarrow> foldl (\<lambda>a d. a * b + d) 0 (base_digits b n x) = x mod b ^ n"
proof (induction n arbitrary: x)
  case 0
  then show ?case by (simp add: base_digits_def)
next
  case (Suc n)
  have "x mod b ^ Suc n = b * (x div b mod b ^ n) + x mod b"
    using Suc.prems by (simp add: zmod_zmult2_eq)
  then show ?case using Suc by (simp add: base_digits_Suc mult.commute)
qed

lemma base_digits_range: "0 < b \<Longrightarrow> d \<in> set (base_digits b n x) \<Longrightarrow> 0 \<le> d \<and> d < b"
  by (auto simp: base_digits_def)

lemma uuid_hex_digits: "uuid_hex u = map (\<lambda>d. hex_char (nat d)) (base_digits 16 32 (uint u))"
  by (simp add: uuid_hex_def base_digits_def)

lemma hex_char_range: "n < 16 \<Longrightarrow> 48 \<le> hex_char n \<and> hex_char n \<le> 57 \<or> 97 \<le> hex_char n \<and> hex_char n \<le> 102"
  by (auto simp: hex_char_def)

lemma uuid_hex_range: "c \<in> set (uuid_hex u) \<Longrightarrow> 48 \<le> c \<and> c \<le> 57 \<or> 97 \<le> c \<and> c \<le> 102"
proof -
  assume "c \<in> set (uuid_hex u)"
  then obtain d where d: "d \<in> set (base_digits 16 32 (uint u))" "c = hex_char (nat d)"
    by (auto simp: uuid_hex_digits)
  have "0 \<le> d \<and> d < 16" using d(1) by (rule base_digits_range [rotated]) simp
  then have "nat d < 16" by linarith
  then show ?thesis using d(2) hex_char_range by blast
qed

lemma length_uuid_hex [simp]: "length (uuid_hex u) = 32"
  by (simp add: uuid_hex_def)

lemma uuid_str_range: "c \<in> set (uuid_str u) \<Longrightarrow> c = 45 \<or> 48 \<le> c \<and> c \<le> 57 \<or> 97 \<le> c \<and> c \<le> 102"
  by (auto simp: uuid_str_def Let_def dest!: in_set_takeD in_set_dropD uuid_hex_range)

lemma remove_sub_absent: "p \<noteq> [] \<Longrightarrow> hd p \<notin> set s \<Longrightarrow> remove_sub p s = s"
proof (induction s)
  case (Cons c s)
  have "strip_prefix p (c # s) = None"
    using Cons.prems by (cases p) (auto simp: strip_prefix_def)
  then show ?case using Cons by (subst remove_sub.simps) simp
qed (subst remove_sub.simps, simp)

lemma strip_chars_absent: "\<forall>c \<in> set s. \<not> P c \<Longrightarrow> strip_chars P s = s"
proof -
  assume P: "\<forall>c \<in> set s. \<not> P c"
  have "dropWhile P t = t" if "\<forall>c \<in> set t. \<not> P c" for t
    using that by (cases t) auto
  from this [of s] this [of "rev s"] P show ?thesis by (simp add: strip_chars_def)
qed

lemma filter_uuid_str: "filter (\<lambda>c. c \<noteq> 45) (uuid_str u) = uuid_hex u"
proof -
  have h: "filter (\<lambda>c. c \<noteq> 45) xs = xs" if "set xs \<subseteq> set (uuid_hex u)" for xs
    using that uuid_hex_range [of _ u] by (fastforce simp: filter_id_conv)
  let ?h = "uuid_hex u"
  have "filter (\<lambda>c. c \<noteq> 45) (uuid_str u) =
      take 8 ?h @ take 4 (drop 8 ?h) @ take 4 (drop 12 ?h) @ take 4 (drop 16 ?h) @ drop 20 ?h"
    unfolding uuid_str_def Let_def filter_append
    by (simp add: h set_take_subset set_drop_subset subset_trans [OF set_take_subset set_drop_subset])
  also have "\<dots> = take 20 ?h @ drop 20 ?h"
    using take_add [of 8 4 ?h] take_add [of 12 4 ?h] take_add [of 16 4 ?h] by simp
  also have "\<dots> = ?h" by simp
  finally show ?thesis .
qed

lemma scan_under_hex:
  assumes "\<forall>d \<in> set ds. 0 \<le> d \<and> d < 16" "us \<longrightarrow> ds \<noteq> []"
  shows "scan_under hex_digit 16 us acc (map (\<lambda>d. hex_char (nat d)) ds)
    = Some (foldl (\<lambda>a d. a * 16 + d) acc ds, [])"
  using assms
proof (induction ds arbitrary: us acc)
  case (Cons d ds)
  have "nat d < 16" using Cons.prems by auto
  then have "hex_char (nat d) \<noteq> 95" using hex_char_range [of "nat d"] by auto
  then show ?case using Cons \<open>nat d < 16\<close> by simp
qed simp

lemma py_int_uuid_hex: "py_int True (uuid_hex u) = Inr (uint u)"
proof -
  let ?h = "uuid_hex u"
  have r: "\<forall>c \<in> set ?h. 48 \<le> c \<and> c \<le> 102" using uuid_hex_range by fastforce
  have ne: "?h \<noteq> []" by (metis length_uuid_hex list.size(3) zero_neq_numeral)
  have 1: "map ascii_digit_form ?h = ?h"
    using r by (auto simp: ascii_digit_form_def intro!: map_idI)
  have hd: "48 \<le> hd ?h" "hd ?h \<le> 102" using r ne by auto
  then have 2: "dropWhile ascii_space ?h = ?h"
    using ne by (cases ?h) (auto simp: ascii_space_def)
  have "120 \<notin> set ?h" "88 \<notin> set ?h" using uuid_hex_range [of 120 u] uuid_hex_range [of 88 u] by auto
  then have 3: "skip_hex_prefix ?h = ?h"
    by (auto simp: skip_hex_prefix_def split: list.splits)
  have "base_digits 16 32 (uint u) \<noteq> []" by (simp add: base_digits_def)
  then have 4: "scan_under hex_digit 16 True 0 ?h = Some (uint u mod 16 ^ 32, [])"
    using scan_under_hex [of "base_digits 16 32 (uint u)" True 0] base_digits_range [of 16]
    by (simp add: uuid_hex_digits foldl_base_digits)
  have 5: "uint u mod 16 ^ 32 = uint u"
    using uint_lt2p [of u] by simp
  show ?thesis using ne hd 1 2 3 4 5 by (simp add: py_int_def Let_def)
qed

theorem uuid_of_str_str [simp]: "uuid_of_str (uuid_str u) = Inr u"
proof -
  have u: "117 \<notin> set (uuid_str u)" using uuid_str_range [of 117 u] by auto
  have 1: "remove_sub (lit ''urn:'') (uuid_str u) = uuid_str u"
    by (rule remove_sub_absent) (use u in \<open>simp_all add: lit_def\<close>)
  have 2: "remove_sub (lit ''uuid:'') (uuid_str u) = uuid_str u"
    by (rule remove_sub_absent) (use u in \<open>simp_all add: lit_def\<close>)
  have 3: "strip_chars (\<lambda>c. c = 123 \<or> c = 125) (uuid_str u) = uuid_str u"
    by (rule strip_chars_absent) (use uuid_str_range [of 123 u] uuid_str_range [of 125 u] in auto)
  show ?thesis
    using uint_lt2p [of u] by (simp add: uuid_of_str_def 1 2 3 filter_uuid_str py_int_uuid_hex)
qed

lemma uuid_str_encodable [simp]: "list_all encodable (uuid_str u)"
  using uuid_str_range [of _ u] by (fastforce simp: list_all_iff encodable_def)

lemma uuid_str_clean [simp]: "clean (uuid_str u)"
  by (rule encodable_clean) simp

lemma uuid_str_inject [simp]: "uuid_str u = uuid_str v \<longleftrightarrow> u = v"
  by (metis uuid_of_str_str sum.inject(2))

end
