(* ===== verification/ProtocolVersioning.thy ===== *)
theory ProtocolVersioning
  imports PyJsonText
begin

text \<open>
  \<open>src/lubko/protocol_versioning.py\<close>: the application-side protocol version policy. The claim
  predicate of \<open>claim_version_predicate\<close> is the SQL condition on the \<open>v\<close> field of the stored
  payload, evaluated here on the parsed value; it never raises.
\<close>

definition CURRENT_PROTOCOL_VERSION :: int where
  "CURRENT_PROTOCOL_VERSION = 4"

datatype JobVersionDisposition = CLAIMABLE | FAIL_CLOSED

definition version_supported :: "int \<Rightarrow> bool" where
  "version_supported version \<longleftrightarrow> version = CURRENT_PROTOCOL_VERSION"

definition unsupported_version_diagnostic :: "int \<Rightarrow> string option" where
  "unsupported_version_diagnostic version =
    (if version_supported version then None
     else if version < CURRENT_PROTOCOL_VERSION
       then Some ''protocol version is below the current supported version''
     else Some ''protocol version is above the current supported version'')"

definition classify_job_version :: "int \<Rightarrow> JobVersionDisposition" where
  "classify_job_version version = (if version_supported version then CLAIMABLE else FAIL_CLOSED)"

definition reaper_disposition :: "int \<Rightarrow> JobVersionDisposition" where
  "reaper_disposition version =
    (if version < CURRENT_PROTOCOL_VERSION then FAIL_CLOSED else CLAIMABLE)"

lemma unsupported_version_diagnostic_None [simp]:
  "unsupported_version_diagnostic v = None \<longleftrightarrow> v = CURRENT_PROTOCOL_VERSION"
  by (simp add: unsupported_version_diagnostic_def version_supported_def)

lemma classify_claimable: "classify_job_version v = CLAIMABLE \<longleftrightarrow> unsupported_version_diagnostic v = None"
  by (simp add: classify_job_version_def version_supported_def)

text \<open>A job this build may claim is never terminalized by the reaper, and only retired
  versions are; the two policies leave newer versions pending.\<close>

lemma reaper_spares_claimable:
  "classify_job_version v = CLAIMABLE \<Longrightarrow> reaper_disposition v = CLAIMABLE"
  by (simp add: classify_job_version_def version_supported_def reaper_disposition_def split: if_splits)

lemma reaper_fail_closed_iff: "reaper_disposition v = FAIL_CLOSED \<longleftrightarrow> v < CURRENT_PROTOCOL_VERSION"
  by (simp add: reaper_disposition_def)

end
