(* ===== verification/Protocol.thy ===== *)
theory Protocol
  imports PyUuid ProtocolVersioning
begin

text \<open>
  \<open>src/lubko/protocol.py\<close>: the versioned JSON binding of the transport table. Python objects that
  reach a validator are values of \<open>json\<close>; a raw payload string is \<open>JStr\<close>. Each \<open>_parse_*\<close> and
  \<open>build_*\<close> function keeps the source's order of checks and its exceptions, those the source
  does not intend included: \<open>str.encode\<close> on a lone surrogate and hashing a list.
\<close>

section \<open>Constants and records\<close>

definition PROTOCOL_VERSION :: int where "PROTOCOL_VERSION = 4"
definition JOB_TYPE_COMMAND :: pystr where "JOB_TYPE_COMMAND = lit ''command''"
definition JOB_TYPE_OUTPUT_CHUNK :: pystr where "JOB_TYPE_OUTPUT_CHUNK = lit ''output_chunk''"
definition KNOWN_JOB_TYPES :: "pystr list" where
  "KNOWN_JOB_TYPES = [JOB_TYPE_COMMAND, JOB_TYPE_OUTPUT_CHUNK]"
definition STATUS_PENDING :: pystr where "STATUS_PENDING = lit ''pending''"
definition STATUS_RUNNING :: pystr where "STATUS_RUNNING = lit ''running''"
definition STATUS_SUCCEEDED :: pystr where "STATUS_SUCCEEDED = lit ''succeeded''"
definition STATUS_FAILED :: pystr where "STATUS_FAILED = lit ''failed''"
definition STATUS_CANCELLED :: pystr where "STATUS_CANCELLED = lit ''cancelled''"
definition KNOWN_STATUSES :: "pystr list" where
  "KNOWN_STATUSES = [STATUS_PENDING, STATUS_RUNNING, STATUS_SUCCEEDED, STATUS_FAILED,
                     STATUS_CANCELLED]"
definition CHUNK_STREAMS :: "pystr list" where "CHUNK_STREAMS = [lit ''stdout'', lit ''stderr'']"
definition OUTPUT_TAIL_MAX_BYTES :: int where "OUTPUT_TAIL_MAX_BYTES = 4000"
definition OUTPUT_CHUNK_MAX_BYTES :: int where "OUTPUT_CHUNK_MAX_BYTES = 2000"

record JobRequest =
  jr_cwd :: pystr
  jr_process :: "pystr list"

record OutputWindow =
  ow_tail :: pystr
  ow_start :: int
  ow_end :: int
  ow_previous :: "uuid option"

record OutputSection =
  os_stdout :: "OutputWindow option"
  os_stderr :: "OutputWindow option"

record ResultView =
  rv_stdout :: pystr
  rv_stderr :: pystr
  rv_exit_code :: "int option"
  rv_cancellation_note :: "pystr option"
  rv_recovery_note :: "pystr option"

record JobPayload =
  jp_version :: int
  jp_type :: pystr
  jp_server :: pystr
  jp_request :: JobRequest
  jp_status :: pystr
  jp_output :: "OutputSection option"
  jp_result :: "ResultView option"

record OutputChunk =
  oc_server :: pystr
  oc_thread :: uuid
  oc_stream :: pystr
  oc_sequence :: int
  oc_start :: int
  oc_end :: int
  oc_value :: pystr
  oc_previous :: "uuid option"

section \<open>Field validators\<close>

definition utf8_byte_length :: "pystr \<Rightarrow> int res" where
  "utf8_byte_length text = ebind (utf8_encode text) (\<lambda>bs. Ok (int (length bs)))"

definition parse_uuid :: "json \<Rightarrow> uuid option res" where
  "parse_uuid value = (case value of
      JNull \<Rightarrow> Ok None
    | JStr s \<Rightarrow> (case uuid_of_str s of
        Inr u \<Rightarrow> Ok (Some u)
      | Inl (ValueError m) \<Rightarrow> Raise (ProtocolError ''payload UUID field is not a valid UUID: '')
      | Inl e \<Rightarrow> Raise e)
    | _ \<Rightarrow> Raise (ProtocolError ''payload UUID field must be a string''))"

definition parse_server :: "json \<Rightarrow> pystr res" where
  "parse_server value = (case value of
      JStr s \<Rightarrow> if s = [] then Raise (ProtocolError ''payload server must be a non-empty string'')
        else Ok s
    | _ \<Rightarrow> Raise (ProtocolError ''payload server must be a non-empty string''))"

definition validate_cwd :: "json \<Rightarrow> pystr res" where
  "validate_cwd cwd = (case cwd of
      JStr s \<Rightarrow>
        if s = [] then Raise (ProtocolError ''request.cwd must be a non-empty string'')
        else if hd s \<noteq> 47
          then Raise (ProtocolError ''request.cwd must be an absolute POSIX path beginning with /'')
        else Ok s
    | _ \<Rightarrow> Raise (ProtocolError ''request.cwd must be a non-empty string''))"

text \<open>\<open>isinstance(part, str) and part\<close> for every element, then the tuple of the strings.\<close>

fun argv_strings :: "json list \<Rightarrow> pystr list option" where
  "argv_strings [] = Some []"
| "argv_strings (JStr s # xs) =
     (if s = [] then None else map_option (Cons s) (argv_strings xs))"
| "argv_strings (_ # xs) = None"

definition parse_process :: "json \<Rightarrow> pystr list res" where
  "parse_process raw = (case raw of
      JList xs \<Rightarrow>
        if xs = [] then
          Raise (ProtocolError ''request.process must be a non-empty array of non-empty strings'')
        else (case argv_strings xs of
            Some argv \<Rightarrow> Ok argv
          | None \<Rightarrow>
              Raise (ProtocolError ''request.process must be a non-empty array of non-empty strings''))
    | _ \<Rightarrow> Raise (ProtocolError ''request.process must be a non-empty array of non-empty strings''))"

definition validate_offsets :: "int \<Rightarrow> int \<Rightarrow> unit res" where
  "validate_offsets start stop =
    (if start < 0 \<or> stop < 0 then Raise (ProtocolError ''output offsets must be non-negative integers'')
     else if stop < start then Raise (ProtocolError ''output window end precedes start'')
     else Ok ())"

definition validate_stream :: "json \<Rightarrow> pystr res" where
  "validate_stream stream = (case stream of
      JStr s \<Rightarrow> if s \<in> set CHUNK_STREAMS then Ok s
        else Raise (ProtocolError ''unknown output stream: '')
    | _ \<Rightarrow> Raise (ProtocolError ''unknown output stream: ''))"

text \<open>\<open>isinstance(value, int) and not isinstance(value, bool)\<close>.\<close>

definition require_int :: "string \<Rightarrow> json \<Rightarrow> int res" where
  "require_int msg value =
    (case value of JInt i \<Rightarrow> Ok i | _ \<Rightarrow> Raise (ProtocolError msg))"

text \<open>A string whose encoding is within a byte bound.\<close>

definition bounded_text :: "int \<Rightarrow> string \<Rightarrow> json \<Rightarrow> pystr res" where
  "bounded_text bound msg value = (case value of
      JStr s \<Rightarrow> ebind (utf8_byte_length s) (\<lambda>n.
        if n > bound then Raise (ProtocolError msg) else Ok s)
    | _ \<Rightarrow> Raise (ProtocolError msg))"

section \<open>Builders\<close>

definition check_build_version :: "json \<Rightarrow> int res" where
  "check_build_version version =
    ebind (require_int ''payload version must be a positive integer'' version) (\<lambda>v.
      if v < 1 then Raise (ProtocolError ''payload version must be a positive integer'') else Ok v)"

definition build_payload :: "json \<Rightarrow> json \<Rightarrow> json \<Rightarrow> json \<Rightarrow> dict res" where
  "build_payload server cwd process version =
    ebind (check_build_version version) (\<lambda>v.
    ebind (parse_server server) (\<lambda>validated_server.
    ebind (validate_cwd cwd) (\<lambda>validated_cwd.
    ebind (parse_process process) (\<lambda>argv.
      Ok [(lit ''v'', JInt v),
          (lit ''type'', JStr JOB_TYPE_COMMAND),
          (lit ''server'', JStr validated_server),
          (lit ''request'', JObj [(lit ''cwd'', JStr validated_cwd),
                                (lit ''process'', JList (map JStr argv))]),
          (lit ''state'', JObj [(lit ''status'', JStr STATUS_PENDING)])]))))"

definition uuid_json :: "uuid option \<Rightarrow> json" where
  "uuid_json previous = (case previous of None \<Rightarrow> JNull | Some u \<Rightarrow> JStr (uuid_str u))"

definition build_output_window_payload ::
    "pystr \<Rightarrow> int \<Rightarrow> int \<Rightarrow> uuid option \<Rightarrow> dict res" where
  "build_output_window_payload tail start stop previous =
    ebind (utf8_byte_length tail) (\<lambda>n.
    if n > OUTPUT_TAIL_MAX_BYTES then Raise (ProtocolError ''output tail must be at most 4000 bytes'')
    else ebind (validate_offsets start stop) (\<lambda>_.
    if stop - start > OUTPUT_TAIL_MAX_BYTES
      then Raise (ProtocolError ''output window span must be at most 4000 raw bytes'')
    else Ok [(lit ''tail'', JStr tail), (lit ''start'', JInt start), (lit ''end'', JInt stop),
             (lit ''previous'', uuid_json previous)]))"

definition build_output_chunk_payload ::
    "json \<Rightarrow> uuid \<Rightarrow> json \<Rightarrow> int \<Rightarrow> int \<Rightarrow> int \<Rightarrow> pystr \<Rightarrow> uuid option \<Rightarrow> json \<Rightarrow> dict res" where
  "build_output_chunk_payload server thread stream sequence start stop value previous version =
    ebind (validate_stream stream) (\<lambda>s.
    ebind (parse_server server) (\<lambda>validated_server.
    ebind (check_build_version version) (\<lambda>v.
    if sequence < 0
      then Raise (ProtocolError ''output_chunk.sequence must be a non-negative integer'')
    else ebind (utf8_byte_length value) (\<lambda>n.
    if n > OUTPUT_CHUNK_MAX_BYTES
      then Raise (ProtocolError ''output_chunk.value must be at most 2000 bytes'')
    else ebind (validate_offsets start stop) (\<lambda>_.
    if stop - start > OUTPUT_CHUNK_MAX_BYTES
      then Raise (ProtocolError ''output_chunk span must be at most 2000 raw bytes'')
    else Ok [(lit ''v'', JInt v),
             (lit ''type'', JStr JOB_TYPE_OUTPUT_CHUNK),
             (lit ''server'', JStr validated_server),
             (lit ''thread'', JStr (uuid_str thread)),
             (lit ''stream'', JStr s),
             (lit ''sequence'', JInt sequence),
             (lit ''start'', JInt start),
             (lit ''end'', JInt stop),
             (lit ''value'', JStr value),
             (lit ''previous'', uuid_json previous)])))))"

section \<open>Parsers\<close>

definition parse_request :: "json \<Rightarrow> JobRequest res" where
  "parse_request raw_request = (case raw_request of
      JObj d \<Rightarrow>
        if dict_has d ''command'' \<or> dict_has d ''args'' then
          Raise (ProtocolError ''request.command and request.args are legacy protocol v2 fields'')
        else
          ebind (validate_cwd (dict_get d ''cwd'')) (\<lambda>cwd.
          ebind (parse_process (dict_get d ''process'')) (\<lambda>process.
            Ok \<lparr>jr_cwd = cwd, jr_process = process\<rparr>))
    | _ \<Rightarrow> Raise (ProtocolError ''payload must contain a request object''))"

definition parse_status :: "json \<Rightarrow> pystr res" where
  "parse_status raw_state = (case raw_state of
      JObj d \<Rightarrow> (case dict_get d ''status'' of
          JStr s \<Rightarrow> if s \<in> set KNOWN_STATUSES then Ok s
            else Raise (ProtocolError ''unknown job status: '')
        | _ \<Rightarrow> Raise (ProtocolError ''unknown job status: ''))
    | _ \<Rightarrow> Raise (ProtocolError ''payload must contain a state object''))"

definition parse_window :: "json \<Rightarrow> OutputWindow res" where
  "parse_window raw = (case raw of
      JObj d \<Rightarrow>
        ebind (bounded_text OUTPUT_TAIL_MAX_BYTES
                 ''output window tail must be a string of at most 4000 bytes'' (dict_get d ''tail''))
          (\<lambda>tail.
        ebind (require_int ''output window start must be an integer'' (dict_get d ''start'')) (\<lambda>start.
        ebind (require_int ''output window end must be an integer'' (dict_get d ''end'')) (\<lambda>stop.
        ebind (validate_offsets start stop) (\<lambda>_.
        if stop - start > OUTPUT_TAIL_MAX_BYTES
          then Raise (ProtocolError ''output window span must be at most 4000 raw bytes'')
        else ebind (parse_uuid (dict_get d ''previous'')) (\<lambda>previous.
          Ok \<lparr>ow_tail = tail, ow_start = start, ow_end = stop, ow_previous = previous\<rparr>)))))
    | _ \<Rightarrow> Raise (ProtocolError ''output window must be an object''))"

definition parse_optional_window :: "dict \<Rightarrow> string \<Rightarrow> OutputWindow option res" where
  "parse_optional_window d name =
    (if dict_get d name \<noteq> JNull
     then ebind (parse_window (dict_get d name)) (\<lambda>w. Ok (Some w)) else Ok None)"

definition parse_output_section :: "json \<Rightarrow> OutputSection option res" where
  "parse_output_section raw = (case raw of
      JNull \<Rightarrow> Ok None
    | JObj d \<Rightarrow>
        ebind (parse_optional_window d ''stdout'') (\<lambda>stdout.
        ebind (parse_optional_window d ''stderr'') (\<lambda>stderr.
          Ok (Some \<lparr>os_stdout = stdout, os_stderr = stderr\<rparr>)))
    | _ \<Rightarrow> Raise (ProtocolError ''payload output must be an object''))"

definition optional_str :: "string \<Rightarrow> json \<Rightarrow> pystr option res" where
  "optional_str msg value = (case value of
      JNull \<Rightarrow> Ok None | JStr s \<Rightarrow> Ok (Some s) | _ \<Rightarrow> Raise (ProtocolError msg))"

definition optional_int :: "string \<Rightarrow> json \<Rightarrow> int option res" where
  "optional_int msg value = (case value of
      JNull \<Rightarrow> Ok None | JInt i \<Rightarrow> Ok (Some i) | _ \<Rightarrow> Raise (ProtocolError msg))"

definition parse_result :: "json \<Rightarrow> ResultView option res" where
  "parse_result raw = (case raw of
      JNull \<Rightarrow> Ok None
    | JObj d \<Rightarrow>
        ebind (bounded_text OUTPUT_TAIL_MAX_BYTES
          ''result.stdout must be a string of at most 4000 bytes'' (dict_get d ''stdout'')) (\<lambda>stdout.
        ebind (bounded_text OUTPUT_TAIL_MAX_BYTES
          ''result.stderr must be a string of at most 4000 bytes'' (dict_get d ''stderr'')) (\<lambda>stderr.
        ebind (optional_int ''result.exit_code must be an integer or null''
                 (dict_get d ''exit_code'')) (\<lambda>exit_code.
        ebind (optional_str ''result.cancellation_note must be a string or null''
                 (dict_get d ''cancellation_note'')) (\<lambda>cancellation_note.
        ebind (optional_str ''result.recovery_note must be a string or null''
                 (dict_get d ''recovery_note'')) (\<lambda>recovery_note.
          Ok (Some \<lparr>rv_stdout = stdout, rv_stderr = stderr, rv_exit_code = exit_code,
                    rv_cancellation_note = cancellation_note, rv_recovery_note = recovery_note\<rparr>))))))
    | _ \<Rightarrow> Raise (ProtocolError ''payload result must be an object''))"

text \<open>A raw string is decoded first; only a \<open>JSONDecodeError\<close> becomes a \<open>ProtocolError\<close>.\<close>

definition decode_payload :: "json \<Rightarrow> dict res" where
  "decode_payload data =
    ebind (case data of
        JStr s \<Rightarrow> (case loads s of
            Inl JSONDecodeError \<Rightarrow> Raise (ProtocolError ''payload is not valid JSON: '')
          | r \<Rightarrow> r)
      | _ \<Rightarrow> Ok data)
    (\<lambda>v. case v of
        JObj d \<Rightarrow> Ok d
      | _ \<Rightarrow> Raise (ProtocolError ''payload must be a JSON object''))"

text \<open>Membership in a frozenset hashes the value: a list or a dict raises TypeError.\<close>

definition parse_version_and_type :: "dict \<Rightarrow> (int \<times> pystr) res" where
  "parse_version_and_type data =
    ebind (require_int ''payload v must be an integer protocol version'' (dict_get data ''v''))
      (\<lambda>version.
    case unsupported_version_diagnostic version of
      Some diagnostic \<Rightarrow> Raise (ProtocolError diagnostic)
    | None \<Rightarrow> (case dict_get data ''type'' of
          JStr s \<Rightarrow> if s \<in> set KNOWN_JOB_TYPES then Ok (version, s)
            else Raise (ProtocolError ''unknown job type: '')
        | JList _ \<Rightarrow> Raise (TypeError ''unhashable type'')
        | JObj _ \<Rightarrow> Raise (TypeError ''unhashable type'')
        | _ \<Rightarrow> Raise (ProtocolError ''unknown job type: '')))"

definition parse_payload :: "json \<Rightarrow> JobPayload res" where
  "parse_payload data =
    ebind (decode_payload data) (\<lambda>decoded.
    ebind (parse_version_and_type decoded) (\<lambda>(version, job_type).
    if job_type \<noteq> JOB_TYPE_COMMAND then Raise (ProtocolError ''payload is not a command job: '')
    else
      ebind (parse_server (dict_get decoded ''server'')) (\<lambda>server.
      ebind (parse_request (dict_get decoded ''request'')) (\<lambda>request.
      ebind (parse_status (dict_get decoded ''state'')) (\<lambda>status.
      ebind (parse_output_section (dict_get decoded ''output'')) (\<lambda>output.
      ebind (parse_result (dict_get decoded ''result'')) (\<lambda>result.
        Ok \<lparr>jp_version = version, jp_type = job_type, jp_server = server, jp_request = request,
            jp_status = status, jp_output = output, jp_result = result\<rparr>)))))))"

definition parse_chunk_payload :: "json \<Rightarrow> OutputChunk res" where
  "parse_chunk_payload data =
    ebind (decode_payload data) (\<lambda>decoded.
    ebind (parse_version_and_type decoded) (\<lambda>(version, job_type).
    if job_type \<noteq> JOB_TYPE_OUTPUT_CHUNK then Raise (ProtocolError ''payload is not an output_chunk: '')
    else
      ebind (parse_uuid (dict_get decoded ''thread'')) (\<lambda>thread_opt.
      case thread_opt of
        None \<Rightarrow> Raise (ProtocolError ''output_chunk must carry an owning thread UUID'')
      | Some thread \<Rightarrow>
      ebind (validate_stream (dict_get decoded ''stream'')) (\<lambda>stream.
      ebind (require_int ''output_chunk.sequence must be a non-negative integer''
               (dict_get decoded ''sequence'')) (\<lambda>sequence.
      if sequence < 0
        then Raise (ProtocolError ''output_chunk.sequence must be a non-negative integer'')
      else
      ebind (require_int ''output_chunk.start must be an integer'' (dict_get decoded ''start'')) (\<lambda>start.
      ebind (require_int ''output_chunk.end must be an integer'' (dict_get decoded ''end'')) (\<lambda>stop.
      ebind (validate_offsets start stop) (\<lambda>_.
      if stop - start > OUTPUT_CHUNK_MAX_BYTES
        then Raise (ProtocolError ''output_chunk span must be at most 2000 raw bytes'')
      else
      ebind (bounded_text OUTPUT_CHUNK_MAX_BYTES
               ''output_chunk.value must be a string of at most 2000 bytes''
               (dict_get decoded ''value'')) (\<lambda>value.
      ebind (parse_uuid (dict_get decoded ''previous'')) (\<lambda>previous.
      ebind (parse_server (dict_get decoded ''server'')) (\<lambda>server.
        Ok \<lparr>oc_server = server, oc_thread = thread, oc_stream = stream, oc_sequence = sequence,
            oc_start = start, oc_end = stop, oc_value = value, oc_previous = previous\<rparr>)))))))))))"

section \<open>Well-formedness\<close>

definition text_within :: "int \<Rightarrow> pystr \<Rightarrow> bool" where
  "text_within bound s \<longleftrightarrow> list_all encodable s \<and> int (utf8_size s) \<le> bound"

definition wf_request :: "JobRequest \<Rightarrow> bool" where
  "wf_request r \<longleftrightarrow> jr_cwd r \<noteq> [] \<and> hd (jr_cwd r) = 47 \<and> jr_process r \<noteq> []
     \<and> list_all (\<lambda>a. a \<noteq> []) (jr_process r)"

definition wf_window :: "OutputWindow \<Rightarrow> bool" where
  "wf_window w \<longleftrightarrow> text_within OUTPUT_TAIL_MAX_BYTES (ow_tail w) \<and> 0 \<le> ow_start w
     \<and> ow_start w \<le> ow_end w \<and> ow_end w - ow_start w \<le> OUTPUT_TAIL_MAX_BYTES"

definition wf_result :: "ResultView \<Rightarrow> bool" where
  "wf_result r \<longleftrightarrow> text_within OUTPUT_TAIL_MAX_BYTES (rv_stdout r)
     \<and> text_within OUTPUT_TAIL_MAX_BYTES (rv_stderr r)"

definition wf_payload :: "JobPayload \<Rightarrow> bool" where
  "wf_payload p \<longleftrightarrow> jp_version p = CURRENT_PROTOCOL_VERSION \<and> jp_type p = JOB_TYPE_COMMAND
     \<and> jp_server p \<noteq> [] \<and> wf_request (jp_request p) \<and> jp_status p \<in> set KNOWN_STATUSES
     \<and> (\<forall>s. jp_output p = Some s \<longrightarrow>
          (\<forall>w. os_stdout s = Some w \<or> os_stderr s = Some w \<longrightarrow> wf_window w))
     \<and> (\<forall>r. jp_result p = Some r \<longrightarrow> wf_result r)"

definition wf_chunk :: "OutputChunk \<Rightarrow> bool" where
  "wf_chunk c \<longleftrightarrow> oc_server c \<noteq> [] \<and> oc_stream c \<in> set CHUNK_STREAMS \<and> 0 \<le> oc_sequence c
     \<and> 0 \<le> oc_start c \<and> oc_start c \<le> oc_end c
     \<and> oc_end c - oc_start c \<le> OUTPUT_CHUNK_MAX_BYTES
     \<and> text_within OUTPUT_CHUNK_MAX_BYTES (oc_value c)"

text \<open>The exceptions a validator can raise: the intended one, and three unintended ones.\<close>

definition unintended :: "pyerr \<Rightarrow> bool" where
  "unintended e \<longleftrightarrow> e = UnicodeEncodeError \<or> (\<exists>m. e = TypeError m) \<or> (\<exists>m. e = ValueError m)"

definition protocol_error :: "pyerr \<Rightarrow> bool" where
  "protocol_error e \<longleftrightarrow> (\<exists>m. e = ProtocolError m)"

text \<open>Every string of a value can be encoded in UTF-8: no lone surrogates.\<close>

fun encs :: "json \<Rightarrow> bool" where
  "encs (JStr s) = list_all encodable s"
| "encs (JList xs) = list_all encs xs"
| "encs (JObj ps) = list_all (\<lambda>(k, v). encs v) ps"
| "encs j = True"

definition hashable :: "json \<Rightarrow> bool" where
  "hashable v = (case v of JList _ \<Rightarrow> False | JObj _ \<Rightarrow> False | _ \<Rightarrow> True)"

text \<open>The smallest command payload, as a concrete input of the parsers.\<close>

definition sample_command :: dict where
  "sample_command = [(lit ''v'', JInt 4), (lit ''type'', JStr (lit ''command'')),
    (lit ''server'', JStr (lit ''a'')), (lit ''request'', JObj [(lit ''cwd'', JStr (lit ''/'')),
      (lit ''process'', JList [JStr (lit ''ls'')])]),
    (lit ''state'', JObj [(lit ''status'', JStr (lit ''running''))])]"

section \<open>Characterizations of the field validators\<close>

lemma utf8_byte_length_Inr [simp]:
  "utf8_byte_length s = Inr n \<longleftrightarrow> list_all encodable s \<and> n = int (utf8_size s)"
  by (auto simp: utf8_byte_length_def utf8_encode_def utf8_size_def)

lemma bounded_text_Inr [simp]: "bounded_text b m v = Inr s \<longleftrightarrow> v = JStr s \<and> text_within b s"
  by (cases v) (auto simp: bounded_text_def text_within_def)

lemma require_int_Inr [simp]: "require_int m v = Inr i \<longleftrightarrow> v = JInt i"
  by (cases v) (auto simp: require_int_def)

lemma validate_offsets_Inr [simp]: "validate_offsets a b = Inr u \<longleftrightarrow> 0 \<le> a \<and> a \<le> b"
  by (auto simp: validate_offsets_def)

lemma parse_server_Inr [simp]: "parse_server v = Inr s \<longleftrightarrow> v = JStr s \<and> s \<noteq> []"
  by (cases v) (auto simp: parse_server_def)

lemma validate_cwd_Inr [simp]: "validate_cwd v = Inr s \<longleftrightarrow> v = JStr s \<and> s \<noteq> [] \<and> hd s = 47"
  by (cases v) (auto simp: validate_cwd_def)

lemma validate_stream_Inr [simp]: "validate_stream v = Inr s \<longleftrightarrow> v = JStr s \<and> s \<in> set CHUNK_STREAMS"
  by (cases v) (auto simp: validate_stream_def)

lemma argv_strings_Some:
  "argv_strings xs = Some ys \<longleftrightarrow> xs = map JStr ys \<and> list_all (\<lambda>a. a \<noteq> []) ys"
proof (induction xs arbitrary: ys rule: argv_strings.induct)
  case (2 s xs)
  then show ?case by (cases ys) auto
qed auto

lemma map_JStr_eq [simp]: "map JStr xs = map JStr ys \<longleftrightarrow> xs = ys"
  by (simp add: inj_map_eq_map inj_def)

lemma parse_process_Inr [simp]:
  "parse_process v = Inr ys \<longleftrightarrow> v = JList (map JStr ys) \<and> ys \<noteq> [] \<and> list_all (\<lambda>a. a \<noteq> []) ys"
proof (cases v)
  case (JList xs)
  then show ?thesis
    using argv_strings_Some [of xs] by (auto simp: parse_process_def split: option.splits)
qed (auto simp: parse_process_def)

lemma parse_uuid_json [simp]: "parse_uuid (uuid_json p) = Inr p"
  by (cases p) (simp_all add: parse_uuid_def uuid_json_def)

lemma parse_uuid_str [simp]: "parse_uuid (JStr (uuid_str u)) = Inr (Some u)"
  by (simp add: parse_uuid_def)

lemma optional_Inr [simp]:
  "optional_str m v = Inr (Some s) \<longleftrightarrow> v = JStr s"
  "optional_str m v = Inr None \<longleftrightarrow> v = JNull"
  "optional_int m v = Inr (Some i) \<longleftrightarrow> v = JInt i"
  "optional_int m v = Inr None \<longleftrightarrow> v = JNull"
  by (cases v; auto simp: optional_str_def optional_int_def)+

section \<open>Whatever parses is well formed\<close>

lemma parse_request_wf [wf_dests]: "parse_request v = Inr r \<Longrightarrow> wf_request r"
  by (cases v) (auto simp: parse_request_def wf_request_def split: if_splits)

lemma parse_status_wf [wf_dests]: "parse_status v = Inr s \<Longrightarrow> s \<in> set KNOWN_STATUSES"
  by (cases v) (auto simp: parse_status_def split: json.splits if_splits)

lemma parse_window_wf [wf_dests]: "parse_window v = Inr w \<Longrightarrow> wf_window w"
  by (cases v) (auto simp: parse_window_def wf_window_def split: if_splits)

lemma parse_optional_window_wf:
  "parse_optional_window d n = Inr (Some w) \<Longrightarrow> wf_window w"
  by (auto simp: parse_optional_window_def split: if_splits dest: parse_window_wf)

lemma parse_output_section_wf [wf_dests]:
  "parse_output_section v = Inr (Some s) \<Longrightarrow> os_stdout s = Some w \<or> os_stderr s = Some w \<Longrightarrow> wf_window w"
  by (cases v) (auto simp: parse_output_section_def dest: parse_optional_window_wf)

lemma parse_result_wf [wf_dests]: "parse_result v = Inr (Some r) \<Longrightarrow> wf_result r"
  by (cases v) (auto simp: parse_result_def wf_result_def)

lemma parse_version_and_type_Inr [simp]:
  "parse_version_and_type d = Inr (v, t) \<longleftrightarrow>
     dict_get d ''v'' = JInt v \<and> v = CURRENT_PROTOCOL_VERSION \<and> dict_get d ''type'' = JStr t
     \<and> t \<in> set KNOWN_JOB_TYPES"
  by (auto simp: parse_version_and_type_def split: option.splits json.splits if_splits)

lemma parse_payload_wf: "parse_payload data = Inr p \<Longrightarrow> wf_payload p"
  by (auto simp: parse_payload_def wf_payload_def split: if_splits dest: wf_dests)

lemma parse_chunk_wf: "parse_chunk_payload data = Inr c \<Longrightarrow> wf_chunk c"
  by (auto simp: parse_chunk_payload_def wf_chunk_def split: if_splits option.splits)

section \<open>Parsing does not depend on the order of keys\<close>

lemma tidy_dict_get: "tidy (JObj d) \<Longrightarrow> tidy (dict_get d k)"
  by (auto simp: dict_get_def list_all_iff split: option.splits dest!: map_of_SomeD)

lemma scalar_sorted [simp]:
  "parse_uuid (sort_json v) = parse_uuid v"
  "parse_server (sort_json v) = parse_server v"
  "validate_cwd (sort_json v) = validate_cwd v"
  "validate_stream (sort_json v) = validate_stream v"
  "require_int m (sort_json v) = require_int m v"
  "bounded_text b m (sort_json v) = bounded_text b m v"
  "optional_str m (sort_json v) = optional_str m v"
  "optional_int m (sort_json v) = optional_int m v"
  "sort_json v = JNull \<longleftrightarrow> v = JNull"
  by (cases v; simp add: parse_uuid_def parse_server_def validate_cwd_def validate_stream_def
      require_int_def bounded_text_def optional_str_def optional_int_def)+

lemma argv_strings_sorted [simp]: "argv_strings (map sort_json xs) = argv_strings xs"
  by (induction xs rule: argv_strings.induct) simp_all

lemma parse_process_sorted [simp]: "parse_process (sort_json v) = parse_process v"
  by (cases v) (simp_all add: parse_process_def)

lemma parse_request_sorted: "tidy v \<Longrightarrow> parse_request (sort_json v) = parse_request v"
  by (cases v) (simp_all add: parse_request_def dict_get_sorted dict_has_sorted)

lemma parse_status_sorted: "tidy v \<Longrightarrow> parse_status (sort_json v) = parse_status v"
proof (cases v)
  case (JObj d)
  assume "tidy v"
  then show ?thesis
    by (cases "dict_get d ''status''") (simp_all add: JObj parse_status_def dict_get_sorted)
qed (simp_all add: parse_status_def)

lemma parse_window_sorted: "tidy v \<Longrightarrow> parse_window (sort_json v) = parse_window v"
proof (cases v)
  case (JObj d)
  assume "tidy v"
  then have "distinct (map fst d)" by (simp add: JObj)
  note get = dict_get_sorted [OF this]
  show ?thesis by (simp add: JObj parse_window_def get cong: if_cong)
qed (simp_all add: parse_window_def)

lemma parse_output_section_sorted:
  "tidy v \<Longrightarrow> parse_output_section (sort_json v) = parse_output_section v"
proof (cases v)
  case (JObj d)
  assume t: "tidy v"
  have "parse_window (sort_json (dict_get d n)) = parse_window (dict_get d n)" for n
    using t JObj by (intro parse_window_sorted tidy_dict_get) simp
  then show ?thesis
    using t by (simp add: JObj parse_output_section_def parse_optional_window_def dict_get_sorted)
qed (simp_all add: parse_output_section_def)

lemma parse_result_sorted: "tidy v \<Longrightarrow> parse_result (sort_json v) = parse_result v"
  by (cases v) (simp_all add: parse_result_def dict_get_sorted)

lemma parse_version_and_type_sorted:
  "distinct (map fst d) \<Longrightarrow>
   parse_version_and_type (sort_key fst (map (\<lambda>(k, v). (k, sort_json v)) d)) = parse_version_and_type d"
  by (cases "dict_get d ''type''") (simp_all add: parse_version_and_type_def dict_get_sorted cong: option.case_cong)

lemma decode_payload_obj [simp]: "decode_payload (JObj d) = Inr d"
  by (simp add: decode_payload_def)

lemma parse_payload_sorted: "tidy (JObj d) \<Longrightarrow> parse_payload (sort_json (JObj d)) = parse_payload (JObj d)"
proof -
  assume t: "tidy (JObj d)"
  have g: "tidy (dict_get d k)" for k using t by (rule tidy_dict_get)
  have "distinct (map fst d)" using t by simp
  note get = dict_get_sorted [OF this] parse_version_and_type_sorted [OF this]
  show ?thesis
    by (simp add: parse_payload_def get
        parse_request_sorted [OF g] parse_status_sorted [OF g] parse_output_section_sorted [OF g]
        parse_result_sorted [OF g] cong: if_cong)
qed

lemma parse_chunk_payload_sorted:
  assumes "tidy (JObj d)"
  shows "parse_chunk_payload (sort_json (JObj d)) = parse_chunk_payload (JObj d)"
proof -
  have "distinct (map fst d)" using assms by simp
  note get = dict_get_sorted [OF this] parse_version_and_type_sorted [OF this]
  show ?thesis by (simp add: parse_chunk_payload_def get cong: if_cong option.case_cong)
qed

text \<open>A printed mapping is read back by the same parser: the text is what the table stores.\<close>

lemma plain_tidy: "plain j \<Longrightarrow> tidy j"
  by (induction j) (fastforce simp: list_all_iff)+

lemma decode_payload_text:
  assumes "plain (JObj d)" "dumps (JObj d) = Inr t"
  shows "decode_payload (JStr t) = decode_payload (sort_json (JObj d))"
  using assms loads_json_text [OF plain_sort_json [OF assms(1)]]
  by (auto simp: decode_payload_def plain_dumps split: pyerr.splits)

lemma decode_payload_unsorted:
  assumes "plain (JObj d)" "dumps_unsorted (JObj d) = Inr t"
  shows "decode_payload (JStr t) = decode_payload (JObj d)"
  using assms loads_json_text [OF assms(1)]
  by (auto simp: decode_payload_def plain_dumps_unsorted split: pyerr.splits)

lemma unsorted_text:
  assumes "plain (JObj d)" "dumps_unsorted (JObj d) = Inr t"
  shows "parse_payload (JStr t) = parse_payload (JObj d)" "parse_chunk_payload (JStr t) = parse_chunk_payload (JObj d)"
  using decode_payload_unsorted [OF assms] by (simp_all add: parse_payload_def parse_chunk_payload_def)

lemma parse_payload_text:
  "plain (JObj d) \<Longrightarrow> dumps (JObj d) = Inr t \<Longrightarrow> parse_payload (JStr t) = parse_payload (JObj d)"
  using decode_payload_text [of d t] parse_payload_sorted [of d] plain_tidy [of "JObj d"]
  by (simp add: parse_payload_def)

lemma parse_chunk_payload_text:
  "plain (JObj d) \<Longrightarrow> dumps (JObj d) = Inr t \<Longrightarrow>
   parse_chunk_payload (JStr t) = parse_chunk_payload (JObj d)"
  using decode_payload_text [of d t] parse_chunk_payload_sorted [of d] plain_tidy [of "JObj d"]
  by (simp add: parse_chunk_payload_def)

section \<open>Round trips\<close>

lemmas type_consts = JOB_TYPE_COMMAND_def JOB_TYPE_OUTPUT_CHUNK_def KNOWN_JOB_TYPES_def

lemma check_build_version_Inr [simp]: "check_build_version v = Inr i \<longleftrightarrow> v = JInt i \<and> 1 \<le> i"
  by (cases v) (auto simp: check_build_version_def require_int_def)

lemma window_round_trip:
  assumes "build_output_window_payload tail start stop previous = Inr d"
  shows "parse_window (JObj d) =
    Inr \<lparr>ow_tail = tail, ow_start = start, ow_end = stop, ow_previous = previous\<rparr>"
  using assms
  by (auto simp: build_output_window_payload_def parse_window_def json_simps bounded_text_def
      text_within_def validate_offsets_def require_int_def split: if_splits)

lemma build_payload_parse:
  assumes "build_payload server cwd process (JInt PROTOCOL_VERSION) = Inr d"
  shows "\<exists>s c argv. server = JStr s \<and> cwd = JStr c \<and> process = JList (map JStr argv) \<and>
    parse_payload (JObj d) = Inr \<lparr>jp_version = PROTOCOL_VERSION, jp_type = JOB_TYPE_COMMAND,
      jp_server = s, jp_request = \<lparr>jr_cwd = c, jr_process = argv\<rparr>, jp_status = STATUS_PENDING,
      jp_output = None, jp_result = None\<rparr>"
proof -
  obtain s c argv where a: "server = JStr s" "s \<noteq> []" "cwd = JStr c" "c \<noteq> []" "hd c = 47"
    "process = JList (map JStr argv)" "argv \<noteq> []" "list_all (\<lambda>x. x \<noteq> []) argv"
    and d: "d = [(lit ''v'', JInt PROTOCOL_VERSION), (lit ''type'', JStr JOB_TYPE_COMMAND),
      (lit ''server'', JStr s), (lit ''request'', JObj [(lit ''cwd'', JStr c),
        (lit ''process'', JList (map JStr argv))]),
      (lit ''state'', JObj [(lit ''status'', JStr STATUS_PENDING)])]"
    using assms by (auto simp: build_payload_def)
  have 1: "parse_version_and_type d = Inr (PROTOCOL_VERSION, JOB_TYPE_COMMAND)"
    by (simp add: d json_simps CURRENT_PROTOCOL_VERSION_def PROTOCOL_VERSION_def type_consts)
  have 2: "parse_server (JStr s) = Inr s" using a by simp
  have 3: "parse_request (dict_get d ''request'') = Inr \<lparr>jr_cwd = c, jr_process = argv\<rparr>"
    using a by (simp add: d json_simps parse_request_def)
  have 4: "parse_status (dict_get d ''state'') = Inr STATUS_PENDING"
    by (simp add: d json_simps parse_status_def KNOWN_STATUSES_def)
  have 5: "parse_payload (JObj d) = Inr \<lparr>jp_version = PROTOCOL_VERSION, jp_type = JOB_TYPE_COMMAND,
      jp_server = s, jp_request = \<lparr>jr_cwd = c, jr_process = argv\<rparr>, jp_status = STATUS_PENDING,
      jp_output = None, jp_result = None\<rparr>"
    using 1 2 3 4
    by (simp add: parse_payload_def parse_output_section_def parse_result_def d json_simps)
  with a show ?thesis by blast
qed

lemma version_digits: "digits_ok (JInt PROTOCOL_VERSION)"
  by (rule digits_ok_small) (simp add: PROTOCOL_VERSION_def)

lemma build_payload_plain:
  assumes "build_payload (JStr s) (JStr c) (JList (map JStr argv)) (JInt PROTOCOL_VERSION) = Inr d"
    and "clean s" "clean c" "list_all clean argv"
  shows "plain (JObj d)"
  using assms
  by (auto simp: build_payload_def list_all_iff JOB_TYPE_COMMAND_def STATUS_PENDING_def
      version_digits simp del: digits_ok.simps(1))

lemma uuid_json_plain [simp]: "plain (uuid_json p)"
  by (cases p) (simp_all add: uuid_json_def)

lemma chunk_parse:
  assumes "build_output_chunk_payload (JStr s) thread (JStr stream) sequence start stop value previous
             (JInt PROTOCOL_VERSION) = Inr d"
  shows "parse_chunk_payload (JObj d) = Inr \<lparr>oc_server = s, oc_thread = thread, oc_stream = stream,
      oc_sequence = sequence, oc_start = start, oc_end = stop, oc_value = value,
      oc_previous = previous\<rparr>"
proof -
  have h: "s \<noteq> []" "stream \<in> set CHUNK_STREAMS" "0 \<le> sequence" "0 \<le> start" "start \<le> stop"
    "stop - start \<le> OUTPUT_CHUNK_MAX_BYTES" "text_within OUTPUT_CHUNK_MAX_BYTES value"
    and d: "d = [(lit ''v'', JInt PROTOCOL_VERSION), (lit ''type'', JStr JOB_TYPE_OUTPUT_CHUNK),
       (lit ''server'', JStr s), (lit ''thread'', JStr (uuid_str thread)), (lit ''stream'', JStr stream),
       (lit ''sequence'', JInt sequence), (lit ''start'', JInt start), (lit ''end'', JInt stop),
       (lit ''value'', JStr value), (lit ''previous'', uuid_json previous)]"
    using assms by (auto simp: build_output_chunk_payload_def text_within_def split: if_splits)
  have 1: "parse_version_and_type d = Inr (PROTOCOL_VERSION, JOB_TYPE_OUTPUT_CHUNK)"
    by (simp add: d json_simps CURRENT_PROTOCOL_VERSION_def PROTOCOL_VERSION_def type_consts)
  show ?thesis
    using h 1 by (simp add: parse_chunk_payload_def) (simp add: d json_simps)
qed

lemma chunk_plain:
  assumes "build_output_chunk_payload (JStr s) thread (JStr stream) sequence start stop value previous
             (JInt PROTOCOL_VERSION) = Inr d"
    and "clean s" "digits_ok (JInt sequence)" "digits_ok (JInt start)" "digits_ok (JInt stop)"
  shows "plain (JObj d)"
  using assms
  by (auto simp: build_output_chunk_payload_def JOB_TYPE_OUTPUT_CHUNK_def CHUNK_STREAMS_def
      encodable_clean version_digits simp del: digits_ok.simps(1) split: if_splits)

section \<open>Which exceptions the parsers raise\<close>

lemma protocol_error_ProtocolError [simp]: "protocol_error (ProtocolError m)"
  by (simp add: protocol_error_def)

lemma uuid_of_str_error: "uuid_of_str s = Inl e \<Longrightarrow> \<exists>m. e = ValueError m"
  by (auto simp: uuid_of_str_def py_int_def Let_def ebind_Inl_iff split: if_splits option.splits prod.splits)

lemma parse_uuid_error: "parse_uuid v = Inl e \<Longrightarrow> protocol_error e"
  by (cases v) (auto simp: parse_uuid_def split: sum.splits pyerr.splits dest: uuid_of_str_error)

lemma utf8_byte_length_Inl: "utf8_byte_length s = Inl e \<longleftrightarrow> \<not> list_all encodable s \<and> e = UnicodeEncodeError"
  by (auto simp: utf8_byte_length_def utf8_encode_def)

lemma bounded_text_error: "bounded_text b m v = Inl e \<Longrightarrow> encs v \<Longrightarrow> protocol_error e"
  by (cases v) (auto simp: bounded_text_def utf8_byte_length_Inl ebind_Inl_iff split: if_splits)

lemma scalar_error:
  "parse_server v = Inl e \<Longrightarrow> protocol_error e"
  "validate_cwd v = Inl e \<Longrightarrow> protocol_error e"
  "validate_stream v = Inl e \<Longrightarrow> protocol_error e"
  "validate_offsets a b = Inl e \<Longrightarrow> protocol_error e"
  "require_int m v = Inl e \<Longrightarrow> protocol_error e"
  "optional_str m v = Inl e \<Longrightarrow> protocol_error e"
  "optional_int m v = Inl e \<Longrightarrow> protocol_error e"
  "parse_process v = Inl e \<Longrightarrow> protocol_error e"
  "parse_status v = Inl e \<Longrightarrow> protocol_error e"
  by (auto simp: parse_server_def validate_cwd_def validate_stream_def validate_offsets_def
      require_int_def optional_str_def optional_int_def parse_process_def parse_status_def
      split: json.splits if_splits option.splits)

lemmas field_error = scalar_error parse_uuid_error bounded_text_error

lemma encs_dict_get: "encs (JObj d) \<Longrightarrow> encs (dict_get d k)"
  by (auto simp: dict_get_def list_all_iff split: option.splits dest!: map_of_SomeD)

lemma parse_request_error: "parse_request v = Inl e \<Longrightarrow> protocol_error e"
  by (cases v) (auto simp: parse_request_def ebind_Inl_iff split: if_splits dest: field_error)

lemma parse_window_error: "parse_window v = Inl e \<Longrightarrow> encs v \<Longrightarrow> protocol_error e"
  by (cases v) (auto simp del: encs.simps simp: parse_window_def ebind_Inl_iff split: if_splits
      dest: field_error encs_dict_get)

lemma parse_output_section_error:
  "parse_output_section v = Inl e \<Longrightarrow> encs v \<Longrightarrow> protocol_error e"
  by (cases v) (auto simp del: encs.simps simp: parse_output_section_def parse_optional_window_def
      ebind_Inl_iff split: if_splits dest: parse_window_error encs_dict_get)

lemma parse_result_error: "parse_result v = Inl e \<Longrightarrow> encs v \<Longrightarrow> protocol_error e"
  by (cases v) (auto simp del: encs.simps simp: parse_result_def ebind_Inl_iff split: if_splits
      dest: field_error encs_dict_get)

lemma parse_version_and_type_error:
  "parse_version_and_type d = Inl e \<Longrightarrow> hashable (dict_get d ''type'') \<Longrightarrow> protocol_error e"
  by (auto simp: parse_version_and_type_def hashable_def ebind_Inl_iff split: json.splits
      option.splits if_splits dest: field_error)

lemma parse_payload_error:
  assumes "parse_payload (JObj d) = Inl e" "encs (JObj d)" "hashable (dict_get d ''type'')"
  shows "protocol_error e"
  using assms(1) encs_dict_get [OF assms(2)] parse_version_and_type_error [OF _ assms(3)]
  by (auto simp: parse_payload_def ebind_Inl_iff split: if_splits
      dest: scalar_error parse_request_error parse_output_section_error parse_result_error)

lemma parse_chunk_payload_error:
  assumes "parse_chunk_payload (JObj d) = Inl e" "encs (JObj d)" "hashable (dict_get d ''type'')"
  shows "protocol_error e"
  using assms(1) encs_dict_get [OF assms(2)] parse_version_and_type_error [OF _ assms(3)]
  by (auto simp: parse_chunk_payload_def ebind_Inl_iff split: if_splits option.splits
      dest!: scalar_error parse_uuid_error bounded_text_error [OF _ encs_dict_get [OF assms(2)]])


section \<open>Properties of the binding\<close>

text \<open>C31. What a submitter writes is what a worker reads: the payload that \<open>build_payload\<close> builds from
  a server, a working directory and an argument vector, serialized into the transport table, parses
  to exactly that server, directory and argument vector, pending and with neither output nor result.
  The strings may hold any code points, adjacent halves of a surrogate pair excepted.\<close>

theorem command_payload_round_trip:
  assumes "build_payload (JStr s) (JStr c) (JList (map JStr argv)) (JInt PROTOCOL_VERSION) = Inr d"
    and "clean s" "clean c" "list_all clean argv"
  shows "\<exists>t. dumps_unsorted (JObj d) = Inr t \<and> parse_payload (JStr t) = Inr \<lparr>jp_version = PROTOCOL_VERSION,
      jp_type = JOB_TYPE_COMMAND, jp_server = s, jp_request = \<lparr>jr_cwd = c, jr_process = argv\<rparr>,
      jp_status = STATUS_PENDING, jp_output = None, jp_result = None\<rparr>"
  using build_payload_parse [OF assms(1)] plain_dumps_unsorted [OF build_payload_plain [OF assms]]
    unsorted_text [OF build_payload_plain [OF assms]]
  by auto

theorem command_payload_round_trip_witness:
  "\<exists>d t. build_payload (JStr (lit ''alpha'')) (JStr (lit ''/srv'')) (JList (map JStr [lit ''ls'', [233, 128512]]))
       (JInt PROTOCOL_VERSION) = Inr d \<and> dumps_unsorted (JObj d) = Inr t \<and>
     parse_payload (JStr t) = Inr \<lparr>jp_version = PROTOCOL_VERSION, jp_type = JOB_TYPE_COMMAND,
       jp_server = lit ''alpha'', jp_request = \<lparr>jr_cwd = lit ''/srv'', jr_process = [lit ''ls'', [233, 128512]]\<rparr>,
       jp_status = STATUS_PENDING, jp_output = None, jp_result = None\<rparr>"
proof -
  have c: "clean (lit ''alpha'')" "clean (lit ''/srv'')" "list_all clean [lit ''ls'', [233, 128512]]"
    by (simp_all add: clean_def [of "[233, 128512]"] is_high_def)
  have "is_ok (build_payload (JStr (lit ''alpha'')) (JStr (lit ''/srv''))
      (JList (map JStr [lit ''ls'', [233, 128512]])) (JInt PROTOCOL_VERSION))"
    by (simp add: build_payload_def is_ok_def ebind_def check_build_version_def require_int_def
        PROTOCOL_VERSION_def parse_server_def validate_cwd_def parse_process_def lit_def)
  then obtain d where d: "build_payload (JStr (lit ''alpha'')) (JStr (lit ''/srv''))
      (JList (map JStr [lit ''ls'', [233, 128512]])) (JInt PROTOCOL_VERSION) = Inr d"
    by (auto simp only: is_ok_iff)
  show ?thesis using command_payload_round_trip [OF d c] d by blast
qed

text \<open>An archived output chunk survives the table: the mapping \<open>build_output_chunk_payload\<close> builds,
  serialized and parsed back by \<open>parse_chunk_payload\<close>, gives the same thread, stream, sequence, raw
  byte range, text and predecessor.\<close>

theorem chunk_payload_round_trip:
  assumes "build_output_chunk_payload (JStr s) thread (JStr stream) sequence start stop value previous
             (JInt PROTOCOL_VERSION) = Inr d"
    and "clean s" "digits_ok (JInt sequence)" "digits_ok (JInt start)" "digits_ok (JInt stop)"
  shows "\<exists>t. dumps_unsorted (JObj d) = Inr t \<and> parse_chunk_payload (JStr t) = Inr \<lparr>oc_server = s,
      oc_thread = thread, oc_stream = stream, oc_sequence = sequence, oc_start = start, oc_end = stop,
      oc_value = value, oc_previous = previous\<rparr>"
  using chunk_parse [OF assms(1)] plain_dumps_unsorted [OF chunk_plain [OF assms]]
    unsorted_text [OF chunk_plain [OF assms]]
  by auto

theorem chunk_payload_round_trip_witness:
  "\<exists>d t. build_output_chunk_payload (JStr (lit ''alpha'')) 7 (JStr (lit ''stdout'')) 3 100 102 (lit ''ok'')
       (Some 5) (JInt PROTOCOL_VERSION) = Inr d \<and> dumps_unsorted (JObj d) = Inr t \<and>
     parse_chunk_payload (JStr t) = Inr \<lparr>oc_server = lit ''alpha'', oc_thread = 7, oc_stream = lit ''stdout'',
       oc_sequence = 3, oc_start = 100, oc_end = 102, oc_value = lit ''ok'', oc_previous = Some 5\<rparr>"
proof -
  have "is_ok (build_output_chunk_payload (JStr (lit ''alpha'')) 7 (JStr (lit ''stdout'')) 3 100 102
      (lit ''ok'') (Some 5) (JInt PROTOCOL_VERSION))"
    by (simp add: build_output_chunk_payload_def is_ok_def ebind_def validate_stream_def CHUNK_STREAMS_def
        parse_server_def check_build_version_def require_int_def PROTOCOL_VERSION_def
        utf8_byte_length_def utf8_encode_def validate_offsets_def OUTPUT_CHUNK_MAX_BYTES_def
        lit_def utf8_char_def)
  then obtain d where d: "build_output_chunk_payload (JStr (lit ''alpha'')) 7 (JStr (lit ''stdout'')) 3 100 102
      (lit ''ok'') (Some 5) (JInt PROTOCOL_VERSION) = Inr d"
    by (auto simp only: is_ok_iff)
  have "\<bar>3::int\<bar> < 10 ^ 18" "\<bar>100::int\<bar> < 10 ^ 18" "\<bar>102::int\<bar> < 10 ^ 18" by simp_all
  note digits = this [THEN digits_ok_small]
  show ?thesis using chunk_payload_round_trip [OF d lit_clean digits] d by blast
qed

text \<open>Whatever text or value \<open>parse_payload\<close> accepts, its result is well formed: the current
  protocol version, a command job, an absolute working directory, a non-empty vector of non-empty
  arguments, a known status, and every output window and result within its byte and span bounds.\<close>

theorem parse_payload_well_formed: "parse_payload data = Inr p \<Longrightarrow> wf_payload p"
  by (rule parse_payload_wf)

theorem parse_payload_well_formed_witness:
  "\<exists>p. parse_payload (JObj sample_command) = Inr p \<and> wf_payload p"
proof -
  have "is_ok (parse_payload (JObj sample_command))" by code_simp
  then show ?thesis using parse_payload_well_formed by (auto simp only: is_ok_iff)
qed

text \<open>A payload of any other protocol version is refused by both parsers with a \<open>ProtocolError\<close>
  whatever the rest of it holds, before its type or any other field is looked at.\<close>

theorem unsupported_version_fails_closed:
  assumes "dict_get d ''v'' = JInt n" "n \<noteq> CURRENT_PROTOCOL_VERSION"
  shows "\<exists>m. parse_payload (JObj d) = Inl (ProtocolError m)
     \<and> parse_chunk_payload (JObj d) = Inl (ProtocolError m)"
  using assms by (auto simp: parse_payload_def parse_chunk_payload_def parse_version_and_type_def
      require_int_def split: option.splits)

theorem unsupported_version_fails_closed_witness:
  "\<exists>m. parse_payload (JObj [(lit ''v'', JInt 5), (lit ''type'', JList [])]) = Inl (ProtocolError m)
     \<and> parse_chunk_payload (JObj [(lit ''v'', JInt 5), (lit ''type'', JList [])]) = Inl (ProtocolError m)"
  by (rule unsupported_version_fails_closed [of _ 5])
    (simp_all add: json_simps CURRENT_PROTOCOL_VERSION_def)

text \<open>A refused mapping is refused with \<open>ProtocolError\<close>, the one exception the callers of the
  parsers handle, provided its strings can be encoded in UTF-8 and its \<open>type\<close> can be hashed.\<close>

theorem parse_errors_are_protocol_errors:
  assumes "encs (JObj d)" "hashable (dict_get d ''type'')"
    and "parse_payload (JObj d) = Inl e \<or> parse_chunk_payload (JObj d) = Inl e"
  shows "protocol_error e"
  using assms parse_payload_error parse_chunk_payload_error by blast

theorem parse_errors_are_protocol_errors_witness:
  "\<exists>e. parse_chunk_payload (JObj sample_command) = Inl e \<and> protocol_error e"
proof -
  have h: "encs (JObj sample_command)" "hashable (dict_get sample_command ''type'')"
    by (simp_all add: sample_command_def hashable_def json_simps)
  have "\<not> is_ok (parse_chunk_payload (JObj sample_command))" by code_simp
  then obtain e where "parse_chunk_payload (JObj sample_command) = Inl e"
    by (cases "parse_chunk_payload (JObj sample_command)") auto
  with parse_errors_are_protocol_errors [OF h] show ?thesis by blast
qed

text \<open>Both provisos are needed. A \<open>type\<close> that is a list escapes as \<open>TypeError\<close>, because
  membership in a frozenset hashes it, and a result text with a lone surrogate, which a JSON escape
  can produce, escapes as \<open>UnicodeEncodeError\<close> from the byte count.\<close>

theorem parse_payload_other_exceptions:
  "parse_payload (JObj [(lit ''v'', JInt 4), (lit ''type'', JList [])]) = Inl (TypeError ''unhashable type'')
   \<and> parse_payload (JObj (sample_command @ [(lit ''result'', JObj [(lit ''stdout'', JStr [55296])])]))
       = Inl UnicodeEncodeError"
  by (simp add: parse_payload_def parse_version_and_type_def require_int_def sample_command_def
      json_simps unsupported_version_diagnostic_def version_supported_def CURRENT_PROTOCOL_VERSION_def
      type_consts parse_server_def parse_request_def validate_cwd_def parse_process_def parse_status_def
      parse_output_section_def parse_result_def bounded_text_def utf8_byte_length_def utf8_encode_def
      encodable_def lit_def KNOWN_STATUSES_def STATUS_PENDING_def STATUS_RUNNING_def)

end
