(* ===== verification/OutputCodec.thy ===== *)
theory OutputCodec
  imports Protocol "HOL-Library.Sublist"
begin

text \<open>
  The output codec of \<open>src/lubko/worker.py\<close>: decoding captured bytes to text PostgreSQL accepts,
  code-point boundaries in a byte buffer, and the longest windows and chunks whose text good a
  byte limit. Offsets are Python integers, slices have Python's semantics for negative and too large
  indices.

  The texts measured here come from the decoder, which never produces a lone surrogate, so
  \<open>_utf8_byte_length\<close> cannot raise on them (\<open>decoded_byte_length\<close>); \<open>text_size\<close> is its value.
\<close>

unbundle bit_operations_syntax

section \<open>Python slices\<close>

definition slice_index :: "nat \<Rightarrow> int \<Rightarrow> nat" where
  "slice_index n i = (if i < 0 then nat (i + int n) else min (nat i) n)"

definition py_slice :: "'a list \<Rightarrow> int \<Rightarrow> int \<Rightarrow> 'a list" where
  "py_slice xs i j = drop (slice_index (length xs) i) (take (slice_index (length xs) j) xs)"

section \<open>Decoding\<close>

definition pg_safe_decode :: "pybytes \<Rightarrow> pystr" where
  "pg_safe_decode data = map (\<lambda>c. if c = 0 then replacement else c) (utf8_decode data)"

definition text_size :: "pystr \<Rightarrow> int" where
  "text_size t = int (utf8_size t)"

definition TRUNCATION_MARKER :: pybytes where
  "TRUNCATION_MARKER = 10 # map of_char ''... [output truncated] ...'' @ [10]"

text \<open>The loop that drops the oldest characters: \<open>result[index]\<close> past the end raises.\<close>

fun drop_oldest :: "int \<Rightarrow> int \<Rightarrow> pystr \<Rightarrow> pystr res" where
  "drop_oldest limit encoded_len body =
    (if encoded_len > limit then
       (case body of [] \<Rightarrow> Raise (Unmodelled ''IndexError'')
        | c # rest \<Rightarrow> drop_oldest limit (encoded_len - int (length (utf8_char c))) rest)
     else Ok body)"

definition truncate_output :: "pybytes \<Rightarrow> int \<Rightarrow> pystr res" where
  "truncate_output data limit =
    (let marker = int (length TRUNCATION_MARKER) in
     if limit < marker then Raise (ValueError ''output limit must be at least as large as the truncation marker'')
     else
       let truncated = int (length data) > limit;
           budget = limit - marker;
           tail = (if budget > 0 then py_slice data (- budget) (int (length data)) else []);
           payload = (if truncated then TRUNCATION_MARKER @ tail else data);
           result = pg_safe_decode payload;
           body_offset = (if truncated then length (utf8_decode TRUNCATION_MARKER) else 0);
           encoded_len = text_size result
       in if encoded_len > limit
          then ebind (drop_oldest limit encoded_len (drop body_offset result)) (\<lambda>rest.
                 Ok (take body_offset result @ rest))
          else Ok result)"

section \<open>Code points in a buffer\<close>

definition is_utf8_continuation_byte :: "nat \<Rightarrow> bool" where
  "is_utf8_continuation_byte byte \<longleftrightarrow> 0x80 \<le> byte \<and> byte \<le> 0xBF"

definition code_point_length :: "nat \<Rightarrow> nat" where
  "code_point_length lead =
    (if 0xC2 \<le> lead \<and> lead \<le> 0xDF then 2
     else if 0xE0 \<le> lead \<and> lead \<le> 0xEF then 3
     else if 0xF0 \<le> lead \<and> lead \<le> 0xF4 then 4 else 0)"

definition code_point_min_value :: "nat \<Rightarrow> nat" where
  "code_point_min_value n = (if n = 2 then 0x80 else if n = 3 then 0x800 else 0x10000)"

definition code_point_scalar :: "nat \<Rightarrow> nat list \<Rightarrow> nat \<Rightarrow> nat option" where
  "code_point_scalar lead cont len =
    (let lead_mask = push_bit (7 - len) 1 - 1;
         cp = fold (\<lambda>byte cp. push_bit 6 cp OR (byte AND 0x3F)) cont (lead AND lead_mask)
     in if cp < code_point_min_value len then None else Some cp)"

text \<open>Byte values; \<open>start\<close> is checked to be in range before it is read.\<close>

definition byte_at :: "pybytes \<Rightarrow> int \<Rightarrow> nat" where
  "byte_at data i = unat (data ! nat i)"

definition valid_code_point_at :: "pybytes \<Rightarrow> int \<Rightarrow> nat \<Rightarrow> bool" where
  "valid_code_point_at data start len \<longleftrightarrow>
    (if len < 2 \<or> 4 < len then False
     else if start < 0 \<or> start + int len > int (length data) then False
     else if code_point_length (byte_at data start) \<noteq> len then False
     else let cont = map unat (py_slice data (start + 1) (start + int len)) in
       if \<not> list_all is_utf8_continuation_byte cont then False
       else (case code_point_scalar (byte_at data start) cont len of
           None \<Rightarrow> False
         | Some cp \<Rightarrow> cp \<le> 0x10FFFF \<and> \<not> (0xD800 \<le> cp \<and> cp \<le> 0xDFFF)))"

text \<open>The loop both alignment functions share: the lead and the length of a code point around an offset.\<close>

fun crossing_code_point :: "pybytes \<Rightarrow> int \<Rightarrow> int list \<Rightarrow> (int \<times> nat) option" where
  "crossing_code_point data candidate [] = None"
| "crossing_code_point data candidate (lead_back # rest) =
    (let lead = candidate - lead_back in
     if lead < 0 then None
     else let len = code_point_length (byte_at data lead) in
       if len = 0 \<or> lead_back \<ge> int len then crossing_code_point data candidate rest
       else if valid_code_point_at data lead len then Some (lead, len)
       else crossing_code_point data candidate rest)"

definition align_code_point_start :: "pybytes \<Rightarrow> int \<Rightarrow> int" where
  "align_code_point_start data candidate =
    (let n = int (length data) in
     if candidate \<le> 0 then 0
     else if candidate \<ge> n then n
     else (case crossing_code_point data candidate [1, 2, 3] of
         Some (lead, len) \<Rightarrow> lead + int len | None \<Rightarrow> candidate))"

definition align_code_point_end :: "pybytes \<Rightarrow> int \<Rightarrow> int" where
  "align_code_point_end data candidate =
    (let n = int (length data) in
     if candidate \<le> 0 then 0
     else if candidate \<ge> n then n
     else (case crossing_code_point data candidate [1, 2, 3] of
         Some (lead, len) \<Rightarrow> lead | None \<Rightarrow> candidate))"

section \<open>Bounded windows\<close>

definition boundaries :: "int \<Rightarrow> pybytes \<Rightarrow> int list" where
  "boundaries first raw = filter (\<lambda>k. align_code_point_end raw k = k) [first..int (length raw)]"

function search_suffix :: "(int \<Rightarrow> bool) \<Rightarrow> int list \<Rightarrow> int \<Rightarrow> int \<Rightarrow> int \<Rightarrow> int" where
  "search_suffix good bs lo hi keep =
    (if lo \<le> hi then
       let mid = (lo + hi) div 2; k = bs ! nat mid in
       if good k then search_suffix good bs lo (mid - 1) k
       else search_suffix good bs (mid + 1) hi keep
     else keep)"
  by pat_completeness auto
termination
  by (relation "measure (\<lambda>(good, bs, lo, hi, keep). nat (hi + 1 - lo))") auto

function search_prefix :: "(int \<Rightarrow> bool) \<Rightarrow> int list \<Rightarrow> int \<Rightarrow> int \<Rightarrow> int \<Rightarrow> int" where
  "search_prefix good bs lo hi end =
    (if lo \<le> hi then
       let mid = (lo + hi) div 2; k = bs ! nat mid in
       if good k then search_prefix good bs (mid + 1) hi k
       else search_prefix good bs lo (mid - 1) end
     else end)"
  by pat_completeness auto
termination
  by (relation "measure (\<lambda>(good, bs, lo, hi, keep). nat (hi + 1 - lo))") auto

definition bounded_suffix :: "pybytes \<Rightarrow> int \<Rightarrow> int \<times> pystr" where
  "bounded_suffix raw limit =
    (let full = pg_safe_decode raw; n = int (length raw) in
     if text_size full \<le> limit then (0, full)
     else
       let bs = boundaries 0 raw;
           keep = search_suffix (\<lambda>k. text_size (pg_safe_decode (py_slice raw k n)) \<le> limit)
                    bs 0 (int (length bs) - 1) n
       in (keep, pg_safe_decode (py_slice raw keep n)))"

definition bounded_prefix :: "pybytes \<Rightarrow> int \<Rightarrow> int \<times> pystr" where
  "bounded_prefix raw limit =
    (if raw = [] then (0, [])
     else
       let bs = boundaries 1 raw;
           end = search_prefix (\<lambda>k. text_size (pg_safe_decode (py_slice raw 0 k)) \<le> limit)
                   bs 0 (int (length bs) - 1) 1
       in (end, pg_safe_decode (py_slice raw 0 end)))"


section \<open>Specification vocabulary\<close>

text \<open>The bytes of one multi-byte code point.\<close>

definition code_point :: "nat list \<Rightarrow> bool" where
  "code_point bs \<longleftrightarrow> length bs \<in> {2, 3, 4} \<and> code_point_length (hd bs) = length bs
     \<and> list_all is_utf8_continuation_byte (tl bs)
     \<and> (\<exists>cp. code_point_scalar (hd bs) (tl bs) (length bs) = Some cp
          \<and> cp \<le> 0x10FFFF \<and> \<not> (0xD800 \<le> cp \<and> cp \<le> 0xDFFF))"

definition code_point_at :: "pybytes \<Rightarrow> int \<Rightarrow> int \<Rightarrow> bool" where
  "code_point_at data lead stop \<longleftrightarrow> 0 \<le> lead \<and> lead < stop \<and> stop \<le> int (length data)
     \<and> code_point (map unat (py_slice data lead stop))"

text \<open>Offsets strictly inside a code point.\<close>

definition inside :: "pybytes \<Rightarrow> int \<Rightarrow> bool" where
  "inside data k \<longleftrightarrow> (\<exists>lead stop. code_point_at data lead stop \<and> lead < k \<and> k < stop)"

definition boundary :: "pybytes \<Rightarrow> int \<Rightarrow> bool" where
  "boundary data k \<longleftrightarrow> 0 \<le> k \<and> k \<le> int (length data) \<and> \<not> inside data k"

definition weight :: "nat \<Rightarrow> nat" where
  "weight c = length (utf8_char (if c = 0 then replacement else c))"

text \<open>Code points of a list of byte values, and offsets strictly inside one.\<close>

definition nat_inside :: "nat list \<Rightarrow> nat \<Rightarrow> bool" where
  "nat_inside bs k \<longleftrightarrow> (\<exists>a n. code_point (take n (drop a bs)) \<and> a + n \<le> length bs \<and> a < k \<and> k < a + n)"

section \<open>Slices\<close>

lemma py_slice_int [simp]: "py_slice xs (int a) (int b) = take (b - a) (drop a xs)"
  by (auto simp: py_slice_def slice_index_def min_def drop_take)

lemma py_slice_nat: "0 \<le> i \<Longrightarrow> 0 \<le> j \<Longrightarrow> py_slice xs i j = take (nat j - nat i) (drop (nat i) xs)"
  using py_slice_int [of xs "nat i" "nat j"] by simp

lemma py_slice_all [simp]: "py_slice xs 0 (int (length xs)) = xs"
  by (simp add: py_slice_nat)

lemma length_py_slice: "0 \<le> i \<Longrightarrow> i \<le> j \<Longrightarrow> j \<le> int (length xs) \<Longrightarrow> length (py_slice xs i j) = nat (j - i)"
  by (simp add: py_slice_nat)

lemma length_py_slice_le: "0 \<le> i \<Longrightarrow> 0 \<le> j \<Longrightarrow> length (py_slice xs i j) \<le> nat (j - i)"
  by (simp add: py_slice_nat)

lemma py_slice_split:
  assumes "0 \<le> i" "i \<le> j" "j \<le> k"
  shows "py_slice xs i j @ py_slice xs j k = py_slice xs i k"
proof -
  obtain a b c where i: "i = int a" "j = int b" "k = int c"
    using assms by (metis nonneg_int_cases order_trans)
  then have le: "a \<le> b" "b \<le> c" using assms by auto
  then have "c - a = (b - a) + (c - b)" "drop b xs = drop (b - a) (drop a xs)" by auto
  then show ?thesis unfolding i py_slice_int by (simp only: take_add)
qed

lemma py_slice_slice:
  assumes "0 \<le> i" "i \<le> j" "0 \<le> a" "a \<le> b" "b \<le> j - i"
  shows "py_slice (py_slice xs i j) a b = py_slice xs (i + a) (i + b)"
proof -
  obtain i' j' a' b' where n: "i = int i'" "j = int j'" "a = int a'" "b = int b'"
    using assms by (metis nonneg_int_cases order_trans)
  then have le: "i' \<le> j'" "a' \<le> b'" "b' \<le> j' - i'" using assms by auto
  have "i + a = int (i' + a')" "i + b = int (i' + b')" using n by auto
  then show ?thesis unfolding n(1-4) using le
    by (simp only: py_slice_int) (simp add: drop_take min_absorb1 add.commute)
qed

lemma py_slice_drop: "0 \<le> i \<Longrightarrow> 0 \<le> j \<Longrightarrow> py_slice (drop n xs) i j = py_slice xs (i + int n) (j + int n)"
  by (simp add: py_slice_nat nat_add_distrib)

section \<open>Sizes\<close>

lemma utf8_size_Cons: "utf8_size (c # s) = length (utf8_char c) + utf8_size s"
  by (simp add: utf8_size_def)

lemma replace_nul_size: "utf8_size s \<le> utf8_size (map (\<lambda>c. if c = 0 then replacement else c) s)"
  by (induction s) (auto simp: utf8_size_Cons utf8_char_def replacement_def)

lemma pg_safe_decode_encodable: "list_all encodable (pg_safe_decode data)"
  using utf8_decode_encodable [of data] by (auto simp: pg_safe_decode_def list_all_iff)

lemma decoded_byte_length: "utf8_byte_length (pg_safe_decode data) = Inr (text_size (pg_safe_decode data))"
  using pg_safe_decode_encodable [of data]
  by (simp add: utf8_byte_length_def utf8_encode_def text_size_def utf8_size_def)

lemma pg_safe_decode_no_nul: "0 \<notin> set (pg_safe_decode data)"
  by (auto simp: pg_safe_decode_def replacement_def)

lemma decode_nats_bounds:
  "length bs \<le> utf8_size (utf8_decode_nats bs)
   \<and> utf8_size (map (\<lambda>c. if c = 0 then replacement else c) (utf8_decode_nats bs)) \<le> 3 * length bs"
proof (induction bs rule: utf8_decode_nats.induct)
  case (2 b r)
  obtain c n where st: "utf8_step b r = (c, n)" by fastforce
  have n: "1 \<le> n" "n - 1 \<le> length r" using utf8_step_consumes [OF st] by auto
  have g: "length (utf8_char c) \<le> 3 * n" by (rule utf8_step_growth [OF st])
  have lo: "n \<le> length (utf8_char c)"
    using st by (auto simp: utf8_step_def utf8_char_def replacement_def is_cont_def second_ok_def
        split: if_splits list.splits)
  have z: "length (utf8_char replacement) \<le> 3 * n" using n by (simp add: utf8_char_def replacement_def)
  show ?case using 2 [OF st [symmetric]] st g lo z n by (auto simp: utf8_size_Cons)
qed simp

lemma text_size_bounds:
  "int (length data) \<le> text_size (pg_safe_decode data)" "text_size (pg_safe_decode data) \<le> 3 * int (length data)"
  using decode_nats_bounds [of "map unat data"] replace_nul_size [of "utf8_decode data"]
  by (auto simp: text_size_def pg_safe_decode_def utf8_decode_def)

lemma text_size_simps [simp]: "text_size [] = 0" "text_size (s @ t) = text_size s + text_size t"
  "text_size (c # s) = int (length (utf8_char c)) + text_size s" "0 \<le> text_size s"
  by (simp_all add: text_size_def utf8_size_def)

lemma pg_safe_decode_Nil [simp]: "pg_safe_decode [] = []"
  by (simp add: pg_safe_decode_def utf8_decode_def)

section \<open>Code points\<close>

declare crossing_code_point.simps [simp del]

lemma slice_head:
  assumes "0 \<le> i" "i < j" "j \<le> int (length xs)"
  shows "py_slice xs i j = xs ! nat i # py_slice xs (i + 1) j"
proof -
  have "nat j - nat i = Suc (nat j - nat (i + 1))" "nat (i + 1) = Suc (nat i)" "nat i < length xs"
    using assms by auto
  then show ?thesis using assms by (simp add: py_slice_nat Cons_nth_drop_Suc [symmetric])
qed

lemma code_point_at_length: "code_point_at data lead stop \<Longrightarrow> lead + 2 \<le> stop \<and> stop \<le> lead + 4"
  by (auto simp: code_point_at_def code_point_def length_py_slice)

lemma valid_code_point_at_iff:
  "valid_code_point_at data start len \<longleftrightarrow> code_point_at data start (start + int len)"
proof (cases "2 \<le> len \<and> len \<le> 4 \<and> 0 \<le> start \<and> start + int len \<le> int (length data)")
  case True
  let ?s = "map unat (py_slice data start (start + int len))" and ?c = "map unat (py_slice data (start + 1) (start + int len))"
  have "py_slice data start (start + int len) = data ! nat start # py_slice data (start + 1) (start + int len)"
    using True by (intro slice_head) auto
  then have s: "hd ?s = byte_at data start" "tl ?s = ?c" by (simp_all add: byte_at_def)
  have l: "length ?s = len" using True by (simp add: length_py_slice)
  have len: "len = 2 \<or> len = 3 \<or> len = 4" using True by linarith
  have "code_point_at data start (start + int len) \<longleftrightarrow> code_point_length (byte_at data start) = len
      \<and> list_all is_utf8_continuation_byte ?c
      \<and> (\<exists>cp. code_point_scalar (byte_at data start) ?c len = Some cp \<and> cp \<le> 0x10FFFF \<and> \<not> (0xD800 \<le> cp \<and> cp \<le> 0xDFFF))"
    unfolding code_point_at_def code_point_def s l using True len by auto
  moreover have "valid_code_point_at data start len \<longleftrightarrow> code_point_length (byte_at data start) = len
      \<and> list_all is_utf8_continuation_byte ?c
      \<and> (case code_point_scalar (byte_at data start) ?c len of None \<Rightarrow> False
         | Some cp \<Rightarrow> cp \<le> 0x10FFFF \<and> \<not> (0xD800 \<le> cp \<and> cp \<le> 0xDFFF))"
    using True by (simp add: valid_code_point_at_def Let_def)
  ultimately show ?thesis by (simp split: option.split)
next
  case False
  then have "\<not> valid_code_point_at data start len" by (auto simp: valid_code_point_at_def split: if_splits)
  moreover have "\<not> code_point_at data start (start + int len)"
    using False code_point_at_length [of data start "start + int len"] by (auto simp: code_point_at_def)
  ultimately show ?thesis by simp
qed

lemma code_point_at_bytes:
  assumes "code_point_at data lead stop"
  shows "code_point (byte_at data lead # map unat (py_slice data (lead + 1) stop))"
  using assms slice_head [of lead stop data] by (auto simp: code_point_at_def byte_at_def)

lemma code_point_at_lead:
  "code_point_at data lead stop \<Longrightarrow> stop = lead + int (code_point_length (byte_at data lead))"
  using code_point_at_bytes [of data lead stop] by (auto simp: code_point_at_def code_point_def length_py_slice)

lemma code_point_at_cont:
  assumes "code_point_at data lead stop" "lead < i" "i < stop"
  shows "is_utf8_continuation_byte (byte_at data i)"
proof -
  have "list_all is_utf8_continuation_byte (map unat (py_slice data (lead + 1) stop))"
    using code_point_at_bytes [OF assms(1)] by (simp add: code_point_def)
  moreover have "data ! nat i \<in> set (py_slice data (lead + 1) stop)"
    using assms by (auto simp: in_set_conv_nth length_py_slice code_point_at_def py_slice_nat
        intro!: exI [of _ "nat i - nat (lead + 1)"])
  ultimately show ?thesis by (auto simp: list_all_iff byte_at_def)
qed

lemma lead_not_cont: "code_point_at data lead stop \<Longrightarrow> \<not> is_utf8_continuation_byte (byte_at data lead)"
  using code_point_at_bytes [of data lead stop]
  by (auto simp: code_point_def code_point_length_def is_utf8_continuation_byte_def split: if_splits)

lemma code_points_disjoint:
  assumes "code_point_at data a b" "code_point_at data c d" "a < d" "c < b"
  shows "a = c \<and> b = d"
proof -
  have "a = c"
    using assms code_point_at_cont [OF assms(1), of c] code_point_at_cont [OF assms(2), of a]
      lead_not_cont [OF assms(1)] lead_not_cont [OF assms(2)] by (cases a c rule: linorder_cases) auto
  then show ?thesis using code_point_at_lead [OF assms(1)] code_point_at_lead [OF assms(2)] by simp
qed

lemma crossing_Some:
  assumes "crossing_code_point data k ls = Some (lead, len)" "\<forall>l \<in> set ls. 0 < l"
  shows "code_point_at data lead (lead + int len) \<and> lead < k \<and> k < lead + int len"
  using assms
  by (induction data k ls rule: crossing_code_point.induct)
    (auto simp: crossing_code_point.simps Let_def valid_code_point_at_iff split: if_splits)

lemma crossing_None:
  "crossing_code_point data k ls = None \<Longrightarrow> sorted ls \<Longrightarrow> l \<in> set ls \<Longrightarrow> code_point_at data (k - l) stop \<Longrightarrow> k < stop \<Longrightarrow> False"
proof (induction data k ls rule: crossing_code_point.induct)
  case (2 data k l0 rest)
  have s: "stop = k - l + int (code_point_length (byte_at data (k - l)))" by (rule code_point_at_lead [OF 2(6)])
  show ?case
  proof (cases "l = l0")
    case True
    then show ?thesis using 2(3,6,7) s
      by (auto simp: crossing_code_point.simps Let_def valid_code_point_at_iff code_point_at_def split: if_splits)
  next
    case False
    then have "l \<in> set rest" "l0 \<le> l" using 2(4,5) by auto
    moreover have "0 \<le> k - l" using 2(6) by (simp add: code_point_at_def)
    ultimately show ?thesis using 2 by (auto simp: crossing_code_point.simps Let_def split: if_splits)
  qed
qed simp

lemma crossing_iff:
  "crossing_code_point data k [1, 2, 3] = Some (lead, len)
     \<longleftrightarrow> code_point_at data lead (lead + int len) \<and> lead < k \<and> k < lead + int len"
  "crossing_code_point data k [1, 2, 3] = None \<longleftrightarrow> \<not> inside data k"
proof -
  have some: "code_point_at data lead (lead + int len) \<and> lead < k \<and> k < lead + int len"
    if "crossing_code_point data k [1, 2, 3] = Some (lead, len)" for lead len
    using crossing_Some [OF that] by simp
  have none: False if "crossing_code_point data k [1, 2, 3] = None" "code_point_at data a b" "a < k" "k < b" for a b
  proof -
    have "k - a \<in> set [1, 2, 3]" using code_point_at_length [OF that(2)] that by auto
    from crossing_None [OF that(1) _ this, of b] that show False by simp
  qed
  show "crossing_code_point data k [1, 2, 3] = None \<longleftrightarrow> \<not> inside data k"
    using none some unfolding inside_def by (metis not_None_eq surj_pair)
  show "crossing_code_point data k [1, 2, 3] = Some (lead, len)
     \<longleftrightarrow> code_point_at data lead (lead + int len) \<and> lead < k \<and> k < lead + int len" (is "?l = ?r")
  proof
    assume r: ?r
    then obtain x where x: "crossing_code_point data k [1, 2, 3] = Some x" using none by (metis not_None_eq)
    obtain a n where "x = (a, n)" by fastforce
    with some x r code_points_disjoint [of data lead "lead + int len" a "a + int n"]
    have "lead = a" "lead + int len = a + int n" by fastforce+
    with x \<open>x = (a, n)\<close> show ?l by simp
  qed (rule some)
qed

section \<open>Alignment\<close>

lemma inside_range: "inside data k \<Longrightarrow> 0 < k \<and> k < int (length data)"
  by (auto simp: inside_def code_point_at_def)

lemma boundary_ends [simp]: "boundary data 0" "boundary data (int (length data))"
  using inside_range by (auto simp: boundary_def)

lemma boundary_code_point:
  assumes "code_point_at data lead stop"
  shows "boundary data lead" "boundary data stop"
proof -
  have "\<not> inside data k" if k: "k = lead \<or> k = stop" for k
  proof
    assume "inside data k"
    then obtain a b where ab: "code_point_at data a b" "a < k" "k < b" unfolding inside_def by blast
    then show False
      using k code_points_disjoint [OF assms ab(1)] code_point_at_length [OF assms] by fastforce
  qed
  then show "boundary data lead" "boundary data stop"
    using assms by (auto simp: boundary_def code_point_at_def)
qed

lemma align_end_spec:
  assumes "0 \<le> k" "k \<le> int (length data)"
  shows "boundary data (align_code_point_end data k) \<and> k - 3 \<le> align_code_point_end data k
    \<and> align_code_point_end data k \<le> k \<and> (align_code_point_end data k = k \<longleftrightarrow> boundary data k)"
proof (cases "0 < k \<and> k < int (length data)")
  case True
  show ?thesis
  proof (cases "crossing_code_point data k [1, 2, 3]")
    case None
    then show ?thesis using True crossing_iff(2) [of data k]
      by (auto simp: align_code_point_end_def boundary_def)
  next
    case (Some x)
    then obtain lead len where x: "x = (lead, len)" by fastforce
    then have c: "code_point_at data lead (lead + int len)" "lead < k" "k < lead + int len"
      using Some crossing_iff(1) by auto
    then have "inside data k" by (auto simp: inside_def)
    then show ?thesis using True c x Some boundary_code_point(1) [OF c(1)] code_point_at_length [OF c(1)]
      by (auto simp: align_code_point_end_def boundary_def)
  qed
next
  case False
  then have "k = 0 \<or> k = int (length data)" using assms by auto
  then show ?thesis by (auto simp: align_code_point_end_def Let_def)
qed

lemma align_start_spec:
  assumes "0 \<le> k" "k \<le> int (length data)"
  shows "boundary data (align_code_point_start data k) \<and> k \<le> align_code_point_start data k
    \<and> align_code_point_start data k \<le> k + 3
    \<and> (\<forall>b. boundary data b \<and> k \<le> b \<longrightarrow> align_code_point_start data k \<le> b)"
proof (cases "0 < k \<and> k < int (length data)")
  case True
  show ?thesis
  proof (cases "crossing_code_point data k [1, 2, 3]")
    case None
    then show ?thesis using True crossing_iff(2) [of data k]
      by (auto simp: align_code_point_start_def boundary_def)
  next
    case (Some x)
    then obtain lead len where x: "x = (lead, len)" by fastforce
    then have c: "code_point_at data lead (lead + int len)" "lead < k" "k < lead + int len"
      using Some crossing_iff(1) by auto
    have "lead + int len \<le> b" if "boundary data b" "k \<le> b" for b
      using that c unfolding boundary_def inside_def by (meson le_less_trans less_le_trans not_le)
    then show ?thesis using True c x Some boundary_code_point(2) [OF c(1)] code_point_at_length [OF c(1)]
      by (auto simp: align_code_point_start_def)
  qed
next
  case False
  then have "k = 0 \<or> k = int (length data)" using assms by auto
  then show ?thesis using boundary_ends [of data] by (auto simp: align_code_point_start_def boundary_def Let_def)
qed

text \<open>Alignment is local: it only looks at the code points around the offset.\<close>

lemma code_point_at_slice:
  assumes "0 \<le> i" "i \<le> j" "j \<le> int (length data)" "i \<le> a" "b \<le> j"
  shows "code_point_at (py_slice data i j) (a - i) (b - i) \<longleftrightarrow> code_point_at data a b"
  using assms py_slice_slice [of i j "a - i" "b - i" data]
  by (auto simp: code_point_at_def length_py_slice)

lemma inside_slice:
  assumes "0 \<le> i" "i \<le> j" "j \<le> int (length data)" "i < k" "k < j"
    and "boundary data i \<or> i + 3 \<le> k" "boundary data j \<or> k + 3 \<le> j"
  shows "inside (py_slice data i j) (k - i) \<longleftrightarrow> inside data k"
proof
  assume "inside (py_slice data i j) (k - i)"
  then obtain a b where ab: "code_point_at (py_slice data i j) a b" "a < k - i" "k - i < b"
    unfolding inside_def by blast
  then have "b \<le> j - i" "0 \<le> a" using assms by (auto simp: code_point_at_def length_py_slice)
  with ab code_point_at_slice [of i j data "a + i" "b + i"] assms
  have "code_point_at data (a + i) (b + i)" by auto
  with ab show "inside data k" unfolding inside_def by (intro exI [of _ "a + i"] exI [of _ "b + i"]) auto
next
  assume "inside data k"
  then obtain a b where ab: "code_point_at data a b" "a < k" "k < b" unfolding inside_def by blast
  have l: "b \<le> a + 4" using code_point_at_length [OF ab(1)] by simp
  have "\<not> (a < i \<and> i < b)" if "boundary data i" for i using that ab(1) unfolding boundary_def inside_def by blast
  then have "i \<le> a" "b \<le> j" using assms(4-7) ab l by (fastforce simp: not_less)+
  then have "code_point_at (py_slice data i j) (a - i) (b - i)"
    using code_point_at_slice [OF assms(1-3)] ab by blast
  with ab show "inside (py_slice data i j) (k - i)"
    unfolding inside_def by (intro exI [of _ "a - i"] exI [of _ "b - i"]) auto
qed

lemma boundary_slice:
  assumes "0 \<le> i" "i \<le> j" "j \<le> int (length data)" "boundary data i" "boundary data j" "i \<le> k" "k \<le> j"
  shows "boundary (py_slice data i j) (k - i) \<longleftrightarrow> boundary data k"
proof (cases "i < k \<and> k < j")
  case True
  then show ?thesis using inside_slice [OF assms(1-3), of k] assms by (auto simp: boundary_def length_py_slice)
next
  case False
  then have "k = i \<or> k = j" using assms by auto
  then show ?thesis using assms boundary_ends [of "py_slice data i j"] by (auto simp: length_py_slice)
qed

section \<open>Code points are the decoder's multi-byte steps\<close>

lemma or_digit: "push_bit 6 x OR (b AND 0x3F) = x * 64 + b mod (64::nat)"
proof -
  have "b AND 0x3F = take_bit 6 b" by (simp add: take_bit_eq_mask mask_eq_exp_minus_1)
  moreover have "push_bit 6 x + take_bit 6 b = push_bit 6 x OR take_bit 6 b"
    by (rule disjunctive_add) (auto simp: bit_push_bit_iff bit_take_bit_iff)
  ultimately show ?thesis by (simp add: push_bit_eq_mult take_bit_eq_mod)
qed

lemma and_lead: "lead AND (push_bit n 1 - 1) = lead mod (2 ^ n :: nat)"
proof -
  have "push_bit n 1 - 1 = (mask n :: nat)" by (simp add: mask_eq_exp_minus_1 push_bit_eq_mult)
  then show ?thesis by (simp add: take_bit_eq_mask [symmetric] take_bit_eq_mod)
qed

lemma scalar_simps:
  "code_point_scalar b [c] 2 = (let cp = b mod 32 * 64 + c mod 64 in if cp < 0x80 then None else Some cp)"
  "code_point_scalar b [c, d] 3 =
     (let cp = (b mod 16 * 64 + c mod 64) * 64 + d mod 64 in if cp < 0x800 then None else Some cp)"
  "code_point_scalar b [c, d, e] 4 =
     (let cp = ((b mod 8 * 64 + c mod 64) * 64 + d mod 64) * 64 + e mod 64 in if cp < 0x10000 then None else Some cp)"
  unfolding code_point_scalar_def code_point_min_value_def
  by (simp_all add: or_digit and_lead [of _ 5, simplified] and_lead [of _ 4, simplified] and_lead [of _ 3, simplified]
      del: push_bit_of_1)

lemma scalar_Suc [simp]:
  "code_point_scalar b cs (Suc (Suc 0)) = code_point_scalar b cs 2"
  "code_point_scalar b cs (Suc (Suc (Suc 0))) = code_point_scalar b cs 3"
  "code_point_scalar b cs (Suc (Suc (Suc (Suc 0)))) = code_point_scalar b cs 4"
  by (simp_all add: numeral_eq_Suc)

lemma cont_digit: "is_utf8_continuation_byte c \<longleftrightarrow> is_cont c" "is_cont c \<Longrightarrow> \<exists>y < 64. c = 0x80 + y"
  by (auto simp: is_utf8_continuation_byte_def is_cont_def intro: exI [of _ "c - 0x80"])

lemma digits_mod [simp]:
  "y < 64 \<Longrightarrow> (128 + y) mod 64 = (y::nat)" "x < 32 \<Longrightarrow> (192 + x) mod 32 = (x::nat)"
  "x < 16 \<Longrightarrow> (224 + x) mod 16 = (x::nat)" "x < 8 \<Longrightarrow> (240 + x) mod 8 = (x::nat)"
  using mod_mult_self3 [of 2 64 y] mod_mult_self3 [of 6 32 x] mod_mult_self3 [of 14 16 x] mod_mult_self3 [of 30 8 x]
  by simp_all

lemma code_point_2: "code_point [b, c] \<longleftrightarrow> 0xC2 \<le> b \<and> b \<le> 0xDF \<and> is_cont c"
proof (cases "0xC2 \<le> b \<and> b \<le> 0xDF \<and> is_cont c")
  case True
  then obtain y where "c = 0x80 + y" "y < 64" using cont_digit(2) [of c] by blast
  moreover obtain x where "b = 0xC0 + x" "2 \<le> x" "x < 32"
    using that [of "b - 0xC0"] True by auto
  ultimately show ?thesis using True
    by (auto simp: code_point_def scalar_simps code_point_length_def cont_digit(1) Let_def)
next
  case False
  then show ?thesis by (auto simp: code_point_def code_point_length_def cont_digit(1) split: if_splits)
qed

lemma code_point_3: "code_point [b, c, d] \<longleftrightarrow> 0xE0 \<le> b \<and> b \<le> 0xEF \<and> second_ok b c \<and> is_cont d"
proof (cases "0xE0 \<le> b \<and> b \<le> 0xEF \<and> is_cont c \<and> is_cont d")
  case True
  then obtain y z where c: "c = 0x80 + y" "y < 64" "d = 0x80 + z" "z < 64" using cont_digit(2) by blast
  obtain x where x: "b = 0xE0 + x" "x < 16"
    using that [of "b - 0xE0"] True by auto
  have "code_point [b, c, d] \<longleftrightarrow> (let cp = (x * 64 + y) * 64 + z in
      0x800 \<le> cp \<and> \<not> (0xD800 \<le> cp \<and> cp \<le> 0xDFFF))"
    using True c x by (simp add: code_point_def scalar_simps code_point_length_def cont_digit(1) Let_def)
  also have "\<dots> \<longleftrightarrow> 32 \<le> x * 64 + y \<and> \<not> (864 \<le> x * 64 + y \<and> x * 64 + y < 896)"
  proof -
    have "0x800 \<le> t * 64 + z \<longleftrightarrow> 32 \<le> t" "0xD800 \<le> t * 64 + z \<longleftrightarrow> 864 \<le> t"
      "t * 64 + z \<le> 0xDFFF \<longleftrightarrow> t < 896" for t using c(4) by linarith+
    then show ?thesis by (simp only: Let_def)
  qed
  also have "\<dots> \<longleftrightarrow> (x = 0 \<longrightarrow> 32 \<le> y) \<and> (x = 13 \<longrightarrow> y < 32)"
    using c(2) x(2) by (cases "x = 0"; cases "x = 13"; cases "x < 13") auto
  also have "\<dots> \<longleftrightarrow> second_ok b c" using True c x by (auto simp: second_ok_def)
  finally show ?thesis using True by simp
next
  case False
  then show ?thesis
    by (auto simp: code_point_def code_point_length_def cont_digit(1) second_ok_def split: if_splits)
qed

lemma code_point_4:
  "code_point [b, c, d, e] \<longleftrightarrow> 0xF0 \<le> b \<and> b \<le> 0xF4 \<and> second_ok b c \<and> is_cont d \<and> is_cont e"
proof (cases "0xF0 \<le> b \<and> b \<le> 0xF4 \<and> is_cont c \<and> is_cont d \<and> is_cont e")
  case True
  obtain y where y: "c = 0x80 + y" "y < 64" using cont_digit(2) [of c] True by auto
  obtain z where z: "d = 0x80 + z" "z < 64" using cont_digit(2) [of d] True by auto
  obtain w where w: "e = 0x80 + w" "w < 64" using cont_digit(2) [of e] True by auto
  note c = y z w
  obtain x where x: "b = 0xF0 + x" "x < 5"
    using that [of "b - 0xF0"] True by auto
  have "code_point [b, c, d, e] \<longleftrightarrow> (let cp = ((x * 64 + y) * 64 + z) * 64 + w in
      0x10000 \<le> cp \<and> cp \<le> 0x10FFFF)"
    using True c x by (auto simp: code_point_def scalar_simps code_point_length_def cont_digit(1) Let_def)
  also have "\<dots> \<longleftrightarrow> 16 \<le> x * 64 + y \<and> x * 64 + y < 272"
  proof -
    have q: "z * 64 + w < 4096" using c by linarith
    have 1: "0x10000 \<le> (t * 64 + z) * 64 + w \<longleftrightarrow> 16 \<le> t" for t
      using q by (cases "16 \<le> t") auto
    have 2: "(t * 64 + z) * 64 + w \<le> 0x10FFFF \<longleftrightarrow> t < 272" for t
      using q by (cases "t < 272") auto
    show ?thesis by (simp only: Let_def 1 2)
  qed
  also have "\<dots> \<longleftrightarrow> (x = 0 \<longrightarrow> 16 \<le> y) \<and> (x = 4 \<longrightarrow> y < 16)"
    using c(2) x(2) by linarith
  also have "\<dots> \<longleftrightarrow> second_ok b c" using True c x by (auto simp: second_ok_def)
  finally show ?thesis using True by simp
next
  case False
  then show ?thesis
    by (auto simp: code_point_def code_point_length_def cont_digit(1) second_ok_def split: if_splits)
qed

lemma code_point_shapes:
  assumes "code_point bs"
  shows "(\<exists>b c. bs = [b, c]) \<or> (\<exists>b c d. bs = [b, c, d]) \<or> (\<exists>b c d e. bs = [b, c, d, e])"
proof -
  have "length bs = Suc (Suc 0) \<or> length bs = Suc (Suc (Suc 0)) \<or> length bs = Suc (Suc (Suc (Suc 0)))"
    using assms by (auto simp: code_point_def)
  then show ?thesis by (auto simp: length_Suc_conv)
qed

text \<open>A step that stops short of a code point is one replacement, and so is every cut of it.\<close>

lemma list_shapes:
  obtains "r = []" | x where "r = [x]" | x y where "r = [x, y]" | x y z r' where "r = x # y # z # r'"
  by (cases r; cases "tl r"; cases "tl (tl r)") auto

lemma nat_shapes:
  obtains "i = 0" | "i = Suc 0" | "i = Suc (Suc 0)" | m where "i = Suc (Suc (Suc m))"
  by (cases i; cases "i - 1"; cases "i - 2") auto

lemma step_prefix:
  assumes "utf8_step b r = (c, n)" "n \<le> Suc i"
  shows "utf8_step b (take i r) = (c, n)"
  using assms
  by (cases r rule: list_shapes; cases i rule: nat_shapes) (auto simp: utf8_step_def split: if_splits)

lemma step_cut:
  assumes "utf8_step b r = (c, n)" "Suc i < n" "\<not> code_point (take n (b # r))"
  shows "utf8_step b (take i r) = (replacement, Suc i)"
  using assms
  by (cases r rule: list_shapes; cases i rule: nat_shapes)
    (auto simp: utf8_step_def code_point_2 code_point_3 code_point_4 split: if_splits)

section \<open>Cutting at a boundary\<close>

lemma text_size_weights: "text_size (pg_safe_decode data) = int (sum_list (map weight (utf8_decode data)))"
  by (simp add: pg_safe_decode_def text_size_def utf8_size_def length_concat weight_def [abs_def] comp_def)

lemma inside_nat: "inside data (int k) \<longleftrightarrow> nat_inside (map unat data) k"
proof
  assume "inside data (int k)"
  then obtain a b where ab: "code_point_at data a b" "a < int k" "int k < b" unfolding inside_def by blast
  then have "code_point (map unat (take (nat b - nat a) (drop (nat a) data)))" "nat a < k" "k < nat b" "nat b \<le> length data"
    by (auto simp: code_point_at_def py_slice_nat)
  then show "nat_inside (map unat data) k"
    unfolding nat_inside_def by (intro exI [of _ "nat a"] exI [of _ "nat b - nat a"]) (auto simp: take_map drop_map)
next
  assume "nat_inside (map unat data) k"
  then obtain a n where "code_point (take n (drop a (map unat data)))" "a + n \<le> length data" "a < k" "k < a + n"
    unfolding nat_inside_def by auto
  then show "inside data (int k)" unfolding inside_def code_point_at_def
    by (intro exI [of _ "int a"] exI [of _ "int (a + n)"]) (simp add: take_map drop_map del: of_nat_add)
qed

lemma nat_inside_drop: "nat_inside (drop n bs) k \<Longrightarrow> nat_inside bs (n + k)"
proof -
  assume "nat_inside (drop n bs) k"
  then obtain a m where "code_point (take m (drop (a + n) bs))" "a + m \<le> length bs - n" "a < k" "k < a + m"
    unfolding nat_inside_def by auto
  then show ?thesis unfolding nat_inside_def by (intro exI [of _ "a + n"] exI [of _ m]) auto
qed

lemma cut_smaller:
  assumes "\<not> nat_inside bs k" "k \<le> length bs"
  shows "sum_list (map weight (utf8_decode_nats (take k bs))) \<le> sum_list (map weight (utf8_decode_nats bs))"
  using assms
proof (induction bs arbitrary: k rule: utf8_decode_nats.induct)
  case (2 b r)
  obtain c n where st: "utf8_step b r = (c, n)" by fastforce
  have n: "1 \<le> n" "n - 1 \<le> length r" using utf8_step_consumes [OF st] by auto
  consider "k = 0" | "0 < k" "k < n" | "0 < k" "n \<le> k" by linarith
  then show ?case
  proof cases
    case 2
    have "\<not> code_point (take n (b # r))"
      using "2.prems" 2 n unfolding nat_inside_def by (auto dest: spec [where x = 0])
    from step_cut [OF st _ this, of "k - 1"] 2
    have "utf8_step b (take (k - 1) r) = (replacement, k)" by auto
    moreover have "c = replacement" using st 2 \<open>\<not> code_point (take n (b # r))\<close>
      by (cases r rule: list_shapes)
        (auto simp: utf8_step_def code_point_2 code_point_3 code_point_4 split: if_splits)
    ultimately show ?thesis using 2 st by (simp add: take_Cons')
  next
    case 3
    then have "utf8_step b (take (k - 1) r) = (c, n)" using step_prefix [OF st, of "k - 1"] by simp
    moreover have "\<not> nat_inside (drop (n - 1) r) (k - n)"
      using nat_inside_drop [of n "b # r" "k - n"] "2.prems" 3 n by (auto simp: drop_Cons' split: if_splits)
    moreover have "drop (n - 1) (take (k - 1) r) = take (k - n) (drop (n - 1) r)"
      using 3 n by (simp add: drop_take)
    ultimately show ?thesis
      using "2.IH" [OF st [symmetric], of "k - n"] "2.prems" 3 st n by (simp add: take_Cons')
  qed simp
qed simp

lemma prefix_size_mono:
  assumes "boundary data j" "j \<le> k" "k \<le> int (length data)"
  shows "text_size (pg_safe_decode (py_slice data 0 j)) \<le> text_size (pg_safe_decode (py_slice data 0 k))"
proof -
  obtain a b where n: "j = int a" "k = int b" using assms by (metis boundary_def nonneg_int_cases order_trans)
  have "\<not> nat_inside (map unat (take b data)) a"
  proof
    assume "nat_inside (map unat (take b data)) a"
    then have "inside (py_slice data 0 k) j" using inside_nat [of "take b data" a] n by (simp add: py_slice_nat)
    then obtain l s where ls: "code_point_at (py_slice data 0 k) l s" "l < j" "j < s" unfolding inside_def by blast
    then have "code_point_at data l s"
      using code_point_at_slice [of 0 k data l s] assms n
      by (auto simp: code_point_at_def length_py_slice)
    then show False using ls assms(1) unfolding boundary_def inside_def by blast
  qed
  from cut_smaller [OF this] assms n show ?thesis
    by (simp add: text_size_weights utf8_decode_def py_slice_nat take_map)
qed

section \<open>The bounded windows\<close>

declare search_prefix.simps [simp del] search_suffix.simps [simp del]

lemma boundaries_set: "0 \<le> first \<Longrightarrow> set (boundaries first raw) = {k. first \<le> k \<and> boundary raw k}"
  using align_end_spec [of _ raw] by (fastforce simp: boundaries_def boundary_def)

lemma boundaries_sorted: "sorted (boundaries first raw)"
  by (simp add: boundaries_def sorted_filter [of id, simplified])

lemma search_suffix_spec:
  "search_suffix good bs lo hi keep = keep
   \<or> (\<exists>i. lo \<le> i \<and> i \<le> hi \<and> search_suffix good bs lo hi keep = bs ! nat i \<and> good (bs ! nat i))"
proof (induction good bs lo hi keep rule: search_suffix.induct)
  case (1 good bs lo hi keep)
  show ?case
  proof (cases "lo \<le> hi")
    case True
    define mid where "mid = (lo + hi) div 2"
    have mid: "lo \<le> mid" "mid \<le> hi" using True by (auto simp: mid_def)
    have eq: "search_suffix good bs lo hi keep = (if good (bs ! nat mid)
        then search_suffix good bs lo (mid - 1) (bs ! nat mid) else search_suffix good bs (mid + 1) hi keep)"
      using True by (subst search_suffix.simps) (simp add: Let_def mid_def [symmetric])
    show ?thesis
    proof (cases "good (bs ! nat mid)")
      case good: True
      with 1(1) [OF True mid_def refl good] mid show ?thesis unfolding eq by force
    next
      case bad: False
      with 1(2) [OF True mid_def refl bad] mid show ?thesis unfolding eq by force
    qed
  qed (simp add: search_suffix.simps)
qed

text \<open>Over a predicate that holds up to some point, the search finds the last place it holds.\<close>

lemma search_prefix_spec:
  assumes "0 \<le> lo" "\<And>i j. lo \<le> i \<Longrightarrow> i \<le> j \<Longrightarrow> j \<le> hi \<Longrightarrow> good (bs ! nat j) \<Longrightarrow> good (bs ! nat i)"
  shows "(\<exists>i. lo \<le> i \<and> i \<le> hi \<and> good (bs ! nat i) \<and> search_prefix good bs lo hi e = bs ! nat i
            \<and> (\<forall>j. i < j \<and> j \<le> hi \<longrightarrow> \<not> good (bs ! nat j)))
    \<or> search_prefix good bs lo hi e = e \<and> (\<forall>j. lo \<le> j \<and> j \<le> hi \<longrightarrow> \<not> good (bs ! nat j))"
  using assms
proof (induction good bs lo hi e rule: search_prefix.induct)
  case (1 good bs lo hi e)
  show ?case
  proof (cases "lo \<le> hi")
    case True
    define mid where "mid = (lo + hi) div 2"
    have mid: "lo \<le> mid" "mid \<le> hi" using True by (auto simp: mid_def)
    show ?thesis
    proof (cases "good (bs ! nat mid)")
      case good: True
      have eq: "search_prefix good bs lo hi e = search_prefix good bs (mid + 1) hi (bs ! nat mid)"
        using True good by (subst search_prefix.simps) (simp add: Let_def mid_def [symmetric])
      from 1(1) [OF True mid_def refl good] 1(3,4) mid
      have "(\<exists>i\<ge>mid + 1. i \<le> hi \<and> good (bs ! nat i) \<and> search_prefix good bs (mid + 1) hi (bs ! nat mid) = bs ! nat i
            \<and> (\<forall>j. i < j \<and> j \<le> hi \<longrightarrow> \<not> good (bs ! nat j)))
        \<or> search_prefix good bs (mid + 1) hi (bs ! nat mid) = bs ! nat mid
            \<and> (\<forall>j. mid + 1 \<le> j \<and> j \<le> hi \<longrightarrow> \<not> good (bs ! nat j))" by auto
      then show ?thesis unfolding eq using mid good by (fastforce intro: exI [of _ mid])
    next
      case bad: False
      have eq: "search_prefix good bs lo hi e = search_prefix good bs lo (mid - 1) e"
        using True bad by (subst search_prefix.simps) (simp add: Let_def mid_def [symmetric])
      have rest: "\<not> good (bs ! nat j)" if "mid \<le> j" "j \<le> hi" for j
        using 1(4) [of mid j] bad that mid by auto
      from 1(2) [OF True mid_def refl bad] 1(3,4) mid
      have "(\<exists>i\<ge>lo. i \<le> mid - 1 \<and> good (bs ! nat i) \<and> search_prefix good bs lo (mid - 1) e = bs ! nat i
            \<and> (\<forall>j. i < j \<and> j \<le> mid - 1 \<longrightarrow> \<not> good (bs ! nat j)))
        \<or> search_prefix good bs lo (mid - 1) e = e \<and> (\<forall>j. lo \<le> j \<and> j \<le> mid - 1 \<longrightarrow> \<not> good (bs ! nat j))" by auto
      then show ?thesis
      proof (elim disjE exE conjE)
        fix i assume i: "lo \<le> i" "i \<le> mid - 1" "good (bs ! nat i)" "search_prefix good bs lo (mid - 1) e = bs ! nat i"
          "\<forall>j. i < j \<and> j \<le> mid - 1 \<longrightarrow> \<not> good (bs ! nat j)"
        have "\<not> good (bs ! nat j)" if "i < j" "j \<le> hi" for j
          using i(5) rest [of j] that by (cases "j \<le> mid - 1") auto
        then show ?thesis unfolding eq using i mid by (intro disjI1 exI [of _ i]) auto
      next
        assume e: "search_prefix good bs lo (mid - 1) e = e" "\<forall>j. lo \<le> j \<and> j \<le> mid - 1 \<longrightarrow> \<not> good (bs ! nat j)"
        have "\<not> good (bs ! nat j)" if "lo \<le> j" "j \<le> hi" for j
          using e(2) rest [of j] that by (cases "j \<le> mid - 1") auto
        then show ?thesis unfolding eq using e(1) by auto
      qed
    qed
  qed (auto simp: search_prefix.simps)
qed

lemma bounded_suffix_spec:
  assumes "bounded_suffix raw limit = (keep, text)" "0 \<le> limit"
  shows "boundary raw keep \<and> text = pg_safe_decode (py_slice raw keep (int (length raw))) \<and> text_size text \<le> limit"
proof (cases "text_size (pg_safe_decode raw) \<le> limit")
  case True
  then show ?thesis using assms by (auto simp: bounded_suffix_def)
next
  case False
  let ?n = "int (length raw)" and ?bs = "boundaries 0 raw"
  let ?good = "\<lambda>k. text_size (pg_safe_decode (py_slice raw k ?n)) \<le> limit"
  have k: "keep = search_suffix ?good ?bs 0 (int (length ?bs) - 1) ?n" "text = pg_safe_decode (py_slice raw keep ?n)"
    using assms False by (auto simp: bounded_suffix_def Let_def)
  have nn: "py_slice raw ?n ?n = []" by (simp add: py_slice_nat)
  from search_suffix_spec [of ?good ?bs 0 "int (length ?bs) - 1" ?n] k(1) have "boundary raw keep \<and> ?good keep"
  proof (elim disjE exE conjE)
    fix i assume i: "0 \<le> i" "i \<le> int (length ?bs) - 1" "?good (?bs ! nat i)"
      "search_suffix ?good ?bs 0 (int (length ?bs) - 1) ?n = ?bs ! nat i"
    then have "?bs ! nat i \<in> set ?bs" by (intro nth_mem) auto
    then show ?thesis using i k(1) boundaries_set [of 0 raw] by auto
  next
    assume "search_suffix ?good ?bs 0 (int (length ?bs) - 1) ?n = ?n"
    then show ?thesis using k(1) nn assms(2) by (simp only: boundary_ends text_size_simps pg_safe_decode_Nil)
  qed
  then show ?thesis using k(2) by simp
qed

lemma first_boundary:
  assumes "raw \<noteq> []"
  shows "\<exists>k. 1 \<le> k \<and> k \<le> 4 \<and> boundary raw k"
proof (cases "boundary raw 1")
  case False
  then obtain a b where ab: "code_point_at raw a b" "a < 1" "1 < b"
    using assms by (auto simp: boundary_def inside_def Suc_le_eq)
  then have "a = 0" by (auto simp: code_point_at_def)
  then show ?thesis using boundary_code_point(2) [OF ab(1)] code_point_at_length [OF ab(1)] by (intro exI [of _ b]) auto
qed (auto intro: exI [of _ 1])

lemma bounded_prefix_spec:
  assumes "bounded_prefix raw limit = (stop, text)" "12 \<le> limit" "raw \<noteq> []"
  shows "boundary raw stop \<and> 1 \<le> stop \<and> text = pg_safe_decode (py_slice raw 0 stop) \<and> text_size text \<le> limit
    \<and> (\<forall>k. boundary raw k \<and> stop < k \<longrightarrow> limit < text_size (pg_safe_decode (py_slice raw 0 k)))"
proof -
  let ?bs = "boundaries 1 raw" and ?good = "\<lambda>k. text_size (pg_safe_decode (py_slice raw 0 k)) \<le> limit"
  let ?h = "int (length ?bs) - 1"
  have k: "stop = search_prefix ?good ?bs 0 ?h 1" "text = pg_safe_decode (py_slice raw 0 stop)"
    using assms by (auto simp: bounded_prefix_def Let_def)
  have in_bs: "?bs ! nat i \<in> set ?bs" if "0 \<le> i" "i \<le> ?h" for i using that by (intro nth_mem) auto
  have le: "?bs ! nat i \<le> ?bs ! nat j" if "0 \<le> i" "i \<le> j" "j \<le> ?h" for i j
    using that boundaries_sorted [of 1 raw] by (intro sorted_nth_mono) auto
  have mono: "?good (?bs ! nat i)" if "0 \<le> i" "i \<le> j" "j \<le> ?h" "?good (?bs ! nat j)" for i j
    using that prefix_size_mono [of raw "?bs ! nat i" "?bs ! nat j"] le [OF that(1-3)] in_bs [of i] in_bs [of j]
      boundaries_set [of 1 raw] by (auto simp: boundary_def)
  obtain k0 where k0: "1 \<le> k0" "k0 \<le> 4" "boundary raw k0" using first_boundary [OF assms(3)] by blast
  have "k0 \<in> set ?bs" using boundaries_set [of 1 raw] k0 by auto
  then obtain i0 where i0: "i0 < length ?bs" "?bs ! i0 = k0" by (auto simp: in_set_conv_nth)
  have "?good k0"
    using text_size_bounds(2) [of "py_slice raw 0 k0"] k0 assms(2) length_py_slice_le [of 0 k0 raw] by linarith
  then obtain i where i: "0 \<le> i" "i \<le> ?h" "?good (?bs ! nat i)" "stop = ?bs ! nat i"
    "\<forall>j. i < j \<and> j \<le> ?h \<longrightarrow> \<not> ?good (?bs ! nat j)"
  proof -
    have "(\<exists>i. 0 \<le> i \<and> i \<le> ?h \<and> ?good (?bs ! nat i) \<and> search_prefix ?good ?bs 0 ?h 1 = ?bs ! nat i
            \<and> (\<forall>j. i < j \<and> j \<le> ?h \<longrightarrow> \<not> ?good (?bs ! nat j)))
       \<or> search_prefix ?good ?bs 0 ?h 1 = 1 \<and> (\<forall>j. 0 \<le> j \<and> j \<le> ?h \<longrightarrow> \<not> ?good (?bs ! nat j))"
      by (rule search_prefix_spec [of 0 ?h ?good ?bs 1]) (simp, rule mono)
    moreover have "0 \<le> int i0 \<and> int i0 \<le> ?h \<and> ?good (?bs ! nat (int i0))" using i0 \<open>?good k0\<close> by simp
    ultimately show ?thesis using that k(1) by metis
  qed
  have last: "limit < text_size (pg_safe_decode (py_slice raw 0 k))" if "boundary raw k" "stop < k" for k
  proof -
    have "k \<in> set ?bs" using boundaries_set [of 1 raw] that i in_bs [OF i(1,2)] by auto
    then obtain j where j: "j < length ?bs" "?bs ! j = k" by (auto simp: in_set_conv_nth)
    then have "i < int j" using le [of "int j" i] i that by (cases "i < int j") auto
    then show ?thesis using i(5) j by (auto dest!: spec [where x = "int j"])
  qed
  show ?thesis using i k(2) last in_bs [OF i(1,2)] boundaries_set [of 1 raw] by auto
qed

section \<open>Truncation\<close>

declare drop_oldest.simps [simp del]

lemma drop_oldest_ok:
  "encoded_len \<le> limit + text_size body \<Longrightarrow>
   \<exists>rest. drop_oldest limit encoded_len body = Inr rest \<and> suffix rest body
     \<and> encoded_len - text_size body + text_size rest \<le> limit"
proof (induction body arbitrary: encoded_len)
  case Nil
  then show ?case by (simp add: drop_oldest.simps)
next
  case (Cons c body)
  show ?case
  proof (cases "encoded_len > limit")
    case True
    from Cons.IH [of "encoded_len - int (length (utf8_char c))"] Cons.prems
    obtain rest where "drop_oldest limit (encoded_len - int (length (utf8_char c))) body = Inr rest"
      "suffix rest body" "encoded_len - int (length (utf8_char c)) - text_size body + text_size rest \<le> limit" by auto
    then show ?thesis using True by (auto simp: drop_oldest.simps [of limit encoded_len] intro: suffix_ConsI)
  next
    case False
    then show ?thesis by (auto simp: drop_oldest.simps [of limit encoded_len])
  qed
qed

lemma decode_ascii_append:
  "list_all (\<lambda>b. unat b < 0x80) xs \<Longrightarrow> utf8_decode (xs @ ys) = map unat xs @ utf8_decode ys"
  by (induction xs) (simp_all add: utf8_decode_def utf8_step_ascii)

lemma marker_ascii: "list_all (\<lambda>b. unat b < 0x80) TRUNCATION_MARKER" "0 \<notin> set (map unat TRUNCATION_MARKER)"
  by (simp_all add: TRUNCATION_MARKER_def of_char_def)

lemma ascii_text_size: "list_all (\<lambda>b. unat b < 0x80) xs \<Longrightarrow> text_size (map unat xs) = int (length xs)"
  by (induction xs) (auto simp: utf8_char_def)

lemma marker_decode:
  "pg_safe_decode (TRUNCATION_MARKER @ tail) = map unat TRUNCATION_MARKER @ pg_safe_decode tail"
  "length (utf8_decode TRUNCATION_MARKER) = length TRUNCATION_MARKER"
proof -
  have "map (\<lambda>c. if c = 0 then replacement else c) (map unat TRUNCATION_MARKER) = map unat TRUNCATION_MARKER"
    using marker_ascii(2) by (intro map_idI) auto
  then show "pg_safe_decode (TRUNCATION_MARKER @ tail) = map unat TRUNCATION_MARKER @ pg_safe_decode tail"
    by (simp only: pg_safe_decode_def decode_ascii_append [OF marker_ascii(1)] map_append)
  show "length (utf8_decode TRUNCATION_MARKER) = length TRUNCATION_MARKER"
    using decode_ascii_append [OF marker_ascii(1), of "[]"] by (simp add: utf8_decode_def)
qed

text \<open>Truncated output keeps its hard bound and its newest end: for every limit that has room for
  the marker, \<open>truncate_output\<close> returns (the loop never runs past the end of the text) a text of at
  most \<open>limit\<close> UTF-8 bytes without NUL. It is a suffix of the decoded data when that data fits, and
  the marker followed by a suffix of the decoded newest bytes when it does not. A smaller limit raises.\<close>

theorem truncate_output_bounded:
  "(\<exists>text. truncate_output data limit = Inr text \<and> text_size text \<le> limit \<and> 0 \<notin> set text
      \<and> (int (length data) \<le> limit \<and> suffix text (pg_safe_decode data)
         \<or> limit < int (length data) \<and> (\<exists>rest. text = map unat TRUNCATION_MARKER @ rest
             \<and> (\<exists>tail. suffix tail data \<and> int (length tail) = limit - int (length TRUNCATION_MARKER)
                    \<and> suffix rest (pg_safe_decode tail)))))
   \<or> limit < int (length TRUNCATION_MARKER)
     \<and> truncate_output data limit = Raise (ValueError ''output limit must be at least as large as the truncation marker'')"
proof (cases "limit < int (length TRUNCATION_MARKER)")
  case True
  then show ?thesis by (simp add: truncate_output_def)
next
  case limit: False
  define budget where "budget = limit - int (length TRUNCATION_MARKER)"
  define tail where "tail = (if budget > 0 then py_slice data (- budget) (int (length data)) else [])"
  show ?thesis
  proof (cases "int (length data) > limit")
    case True
    have tail: "suffix tail data" "int (length tail) = budget"
      using True limit by (auto simp: tail_def budget_def py_slice_def slice_index_def suffix_drop)
    let ?m = "map unat TRUNCATION_MARKER" and ?b = "pg_safe_decode tail"
    have m: "text_size ?m = int (length TRUNCATION_MARKER)" by (rule ascii_text_size [OF marker_ascii(1)])
    from drop_oldest_ok [of "text_size (?m @ ?b)" limit ?b] limit m
    obtain rest where r: "drop_oldest limit (text_size (?m @ ?b)) ?b = Inr rest" "suffix rest ?b"
      "text_size ?m + text_size rest \<le> limit" by auto
    have fits: "text_size (?m @ ?b) \<le> limit \<Longrightarrow> rest = ?b"
      using r(1) by (simp add: drop_oldest.simps split: if_splits)
    have "truncate_output data limit = Inr (?m @ rest)"
      using limit True r(1) fits
      by (auto simp: truncate_output_def Let_def budget_def [symmetric] tail_def [symmetric] marker_decode
          simp del: text_size_simps)
    moreover have "0 \<notin> set (?m @ rest)"
      using marker_ascii(2) pg_safe_decode_no_nul [of tail] set_mono_suffix [OF r(2)] by auto
    ultimately show ?thesis using True limit r tail m by (fastforce simp: budget_def)
  next
    case False
    let ?b = "pg_safe_decode data"
    from drop_oldest_ok [of "text_size ?b" limit ?b] limit
    obtain rest where r: "drop_oldest limit (text_size ?b) ?b = Inr rest" "suffix rest ?b" "text_size rest \<le> limit" by auto
    have fits: "text_size ?b \<le> limit \<Longrightarrow> rest = ?b"
      using r(1) by (simp add: drop_oldest.simps split: if_splits)
    have "truncate_output data limit = Inr rest"
      using limit False r(1) fits by (auto simp: truncate_output_def Let_def)
    then show ?thesis using False r pg_safe_decode_no_nul [of data] set_mono_suffix [OF r(2)] by auto
  qed
qed

text \<open>The archive's chunk search is exact: \<open>_bounded_prefix\<close> returns the largest code-point boundary
  whose decoded prefix fits the limit, and at least one byte, with exactly the decoded text of that
  prefix. It rests on the decoded size growing with the boundary, whatever the bytes are.\<close>

theorem bounded_prefix_is_largest:
  assumes "raw \<noteq> []" "12 \<le> limit"
  shows "\<exists>stop. bounded_prefix raw limit = (stop, pg_safe_decode (py_slice raw 0 stop)) \<and> 1 \<le> stop
    \<and> align_code_point_end raw stop = stop \<and> text_size (pg_safe_decode (py_slice raw 0 stop)) \<le> limit
    \<and> (\<forall>k. stop < k \<and> k \<le> int (length raw) \<and> align_code_point_end raw k = k
        \<longrightarrow> limit < text_size (pg_safe_decode (py_slice raw 0 k)))"
proof -
  obtain stop t where b: "bounded_prefix raw limit = (stop, t)" by fastforce
  from bounded_prefix_spec [OF b assms(2,1)] show ?thesis using b align_end_spec [of _ raw] by (fastforce simp: boundary_def)
qed

theorem bounded_prefix_is_largest_witness:
  "\<exists>stop. bounded_prefix [0x41, 0xC3, 0xA9] 12 = (stop, pg_safe_decode (py_slice [0x41, 0xC3, 0xA9] 0 stop)) \<and> 1 \<le> stop"
  using bounded_prefix_is_largest [of "[0x41, 0xC3, 0xA9]" 12] by auto

text \<open>The live tail's search is not exact: \<open>_bounded_suffix\<close> documents the smallest boundary whose
  decoded suffix fits, but the decoded size of a suffix can grow when a byte is dropped from its front.
  On the bytes 41 F0 90 80 with limit 3 it keeps one byte, although dropping only the first one fits.\<close>

theorem bounded_suffix_not_smallest:
  "bounded_suffix [0x41, 0xF0, 0x90, 0x80] 3 = (3, [0xFFFD])
   \<and> align_code_point_end [0x41, 0xF0, 0x90, 0x80] 1 = 1
   \<and> text_size (pg_safe_decode (py_slice [0x41, 0xF0, 0x90, 0x80] 1 4)) \<le> 3"
proof -
  let ?r = "[0x41, 0xF0, 0x90, 0x80] :: pybytes"
  have dec: "pg_safe_decode ?r = [0x41, 0xFFFD]" "pg_safe_decode [0xF0, 0x90, 0x80] = [0xFFFD]"
    "pg_safe_decode [0x90, 0x80] = [0xFFFD, 0xFFFD]" "pg_safe_decode [0x80] = [0xFFFD]"
    by (simp_all add: pg_safe_decode_def utf8_decode_def utf8_step_def second_ok_def is_cont_def replacement_def)
  have sl: "py_slice ?r 1 4 = [0xF0, 0x90, 0x80]" "py_slice ?r 2 4 = [0x90, 0x80]" "py_slice ?r 3 4 = [0x80]" "py_slice ?r 4 4 = []"
    by (simp_all add: py_slice_nat)
  have bt: "byte_at ?r 0 = 0x41" "byte_at ?r 1 = 0xF0" "byte_at ?r 2 = 0x90" "byte_at ?r 3 = 0x80"
    by (simp_all add: byte_at_def)
  have v: "\<not> valid_code_point_at ?r 1 4" by (simp add: valid_code_point_at_def)
  have al: "align_code_point_end ?r 0 = 0" "align_code_point_end ?r 1 = 1" "align_code_point_end ?r 2 = 2"
    "align_code_point_end ?r 3 = 3" "align_code_point_end ?r 4 = 4"
    by (simp_all add: align_code_point_end_def crossing_code_point.simps bt v code_point_length_def)
  have "[0..4] = [0, 1, 2, 3, 4 :: int]" by (simp add: upto_rec1)
  then have bs: "boundaries 0 ?r = [0, 1, 2, 3, 4]"
    unfolding boundaries_def using al by simp
  have sz: "text_size [0x41, 0xFFFD] = 4" "text_size [0xFFFD] = 3" "text_size [0xFFFD, 0xFFFD] = 6"
    by (simp_all add: utf8_char_def)
  have "bounded_suffix ?r 3 = (3, [0xFFFD])"
    by (simp add: bounded_suffix_def dec sz bs Let_def sl search_suffix.simps [of _ _ 0 4]
        search_suffix.simps [of _ _ 3 4] search_suffix.simps [of _ _ 3 2] search_suffix.simps [of _ _ 3 3]
        del: text_size_simps)
  then show ?thesis using al dec sz sl by simp
qed

end
