(* ===== verification/OutputCapture.thy ===== *)
theory OutputCapture
  imports OutputCodec
begin

text \<open>
  The capture side of a job's output in \<open>src/lubko/worker.py\<close>: draining a pipe into the bounded
  in-memory spool. A capture is a stream together with its pipe (the bytes written and not yet read,
  and whether a writer still has it open) and the schedules of what the environment does: how many
  bytes a read returns or whether it fails, and whether an append to the buffer fails.

  Monotonic times are integers. The diagnostic \<open>path\<close> of a stream, which nothing reads, is left out.
\<close>

section \<open>Streams\<close>

record OutputStream =
  st_data :: pybytes
  st_fd :: "int option"
  st_eof :: bool
  st_pending :: pybytes
  st_spool_start :: int
  st_published_size :: int
  st_published_at :: int
  st_archived_upto :: int
  st_last_chunk :: "uuid option"
  st_sequence :: int
  st_tail_text :: pystr
  st_tail_start :: int
  st_tail_end :: int

definition new_stream :: "int \<Rightarrow> OutputStream" where
  "new_stream fd = \<lparr>st_data = [], st_fd = Some fd, st_eof = False, st_pending = [], st_spool_start = 0,
     st_published_size = 0, st_published_at = 0, st_archived_upto = 0, st_last_chunk = None, st_sequence = 0,
     st_tail_text = [], st_tail_start = 0, st_tail_end = 0\<rparr>"

definition stream_size :: "OutputStream \<Rightarrow> int" where
  "stream_size stream = int (length (st_data stream))"

definition read_range :: "OutputStream \<Rightarrow> int \<Rightarrow> int \<Rightarrow> pybytes" where
  "read_range stream start stop = py_slice (st_data stream) start stop"

section \<open>The pipe\<close>

datatype read_outcome = ReadFails | ReadUpTo nat

record capture =
  cp_stream :: OutputStream
  cp_pipe :: pybytes
  cp_writers :: bool
  cp_reads :: "read_outcome list"
  cp_append_faults :: "bool list"

definition DRAIN_CHUNK :: int where "DRAIN_CHUNK = 65536"

datatype read_result = Blocked | ReadError | Got pybytes

text \<open>\<open>os.read(fd, n)\<close> on a nonblocking pipe: nothing left is end-of-file once no writer is left.\<close>

definition os_read :: "int \<Rightarrow> capture \<Rightarrow> read_result \<times> capture" where
  "os_read n c =
    (let c' = c\<lparr>cp_reads := tl (cp_reads c)\<rparr>;
         outcome = (case cp_reads c of [] \<Rightarrow> ReadUpTo (nat n) | r # _ \<Rightarrow> r)
     in case outcome of
          ReadFails \<Rightarrow> (ReadError, c')
        | ReadUpTo m \<Rightarrow>
            if cp_pipe c = [] then (if cp_writers c then Blocked else Got [], c')
            else let k = min (nat n) (max 1 m) in
              (Got (take k (cp_pipe c)), c'\<lparr>cp_pipe := drop k (cp_pipe c)\<rparr>))"

section \<open>Draining\<close>

definition upd_stream :: "(OutputStream \<Rightarrow> OutputStream) \<Rightarrow> capture \<Rightarrow> capture" where
  "upd_stream f c = c\<lparr>cp_stream := f (cp_stream c)\<rparr>"

text \<open>The bytes land all or not at all; the number of landed bytes is returned.\<close>

definition spool_append :: "capture \<Rightarrow> pybytes \<Rightarrow> nat \<times> capture" where
  "spool_append c data =
    (let c' = c\<lparr>cp_append_faults := tl (cp_append_faults c)\<rparr> in
     if cp_append_faults c \<noteq> [] \<and> hd (cp_append_faults c) then (0, c')
     else (length data, upd_stream (\<lambda>s. s\<lparr>st_data := st_data s @ data\<rparr>) c'))"

definition flush_pending :: "int option \<Rightarrow> capture \<Rightarrow> bool \<times> capture" where
  "flush_pending limit c =
    (let pending = st_pending (cp_stream c) in
     if pending = [] then (True, c)
     else
       let data = (case limit of None \<Rightarrow> pending | Some n \<Rightarrow> py_slice pending 0 n);
           before = length pending
       in case spool_append c data of (landed, c') \<Rightarrow>
         let c'' = upd_stream (\<lambda>s. s\<lparr>st_pending := drop landed (st_pending s)\<rparr>) c' in
         (\<not> (landed = 0 \<and> length (st_pending (cp_stream c'')) = before), c''))"

definition retry_pending_flush :: "int \<Rightarrow> capture \<Rightarrow> (string \<times> int) \<times> capture" where
  "retry_pending_flush buffer_room c =
    (if buffer_room \<le> 0 then ((''full'', 0), c)
     else
       let pending_before = int (length (st_pending (cp_stream c))) in
       case flush_pending (Some buffer_room) c of (progress, c') \<Rightarrow>
         if \<not> progress then ((''error'', 0), c')
         else if st_pending (cp_stream c') \<noteq> [] then ((''full'', 0), c')
         else ((''ok'', pending_before), c'))"

definition finish_capture_stream :: "capture \<Rightarrow> string \<times> capture" where
  "finish_capture_stream c =
    (let c1 = upd_stream (\<lambda>s. s\<lparr>st_fd := None\<rparr>) c in
     if st_pending (cp_stream c1) = [] then (''eof'', upd_stream (\<lambda>s. s\<lparr>st_eof := True\<rparr>) c1)
     else case flush_pending None c1 of (progress, c2) \<Rightarrow>
       if \<not> progress \<or> st_pending (cp_stream c2) \<noteq> [] then (''error'', c2)
       else (''eof'', upd_stream (\<lambda>s. s\<lparr>st_eof := True\<rparr>) c2))"

definition read_capture_chunk :: "int \<Rightarrow> capture \<Rightarrow> string \<times> capture" where
  "read_capture_chunk room c =
    (if st_fd (cp_stream c) = None then (''eof'', c)
     else case os_read (min room DRAIN_CHUNK) c of
         (Blocked, c1) \<Rightarrow> (''ok'', c1)
       | (ReadError, c1) \<Rightarrow> (''error'', c1)
       | (Got data, c1) \<Rightarrow>
           if data = [] then finish_capture_stream c1
           else case flush_pending None (upd_stream (\<lambda>s. s\<lparr>st_pending := st_pending s @ data\<rparr>) c1) of
             (progress, c2) \<Rightarrow> (if progress then ''ok'' else ''error'', c2))"

definition drain_capture_stream :: "int \<Rightarrow> int option \<Rightarrow> capture \<Rightarrow> string \<times> capture" where
  "drain_capture_stream bound aggregate_used c =
    (if st_eof (cp_stream c) then (''eof'', c)
     else
       let used = (case aggregate_used of Some u \<Rightarrow> u | None \<Rightarrow> stream_size (cp_stream c));
           read = (\<lambda>used c1.
             let buffer_room = max 0 (bound - used) in
             if st_fd (cp_stream c1) = None then (''eof'', upd_stream (\<lambda>s. s\<lparr>st_eof := True\<rparr>) c1)
             else if buffer_room \<le> 0 then (''full'', c1) else read_capture_chunk buffer_room c1)
       in if st_pending (cp_stream c) = [] then read used c
          else case retry_pending_flush (max 0 (bound - used)) c of ((status, landed), c1) \<Rightarrow>
            if status \<noteq> ''ok'' then (status, c1) else read (used + landed) c1)"

section \<open>Specification vocabulary\<close>

text \<open>Everything the job wrote and the worker has not yet archived away.\<close>

definition captured :: "capture \<Rightarrow> pybytes" where
  "captured c = st_data (cp_stream c) @ st_pending (cp_stream c) @ cp_pipe c"

text \<open>A closed read end has nothing left behind it, and end-of-file is only claimed with no pending byte.\<close>

definition capture_ok :: "capture \<Rightarrow> bool" where
  "capture_ok c \<longleftrightarrow> (st_fd (cp_stream c) = None \<longrightarrow> cp_pipe c = [] \<and> \<not> cp_writers c)
     \<and> (st_eof (cp_stream c) \<longrightarrow> st_fd (cp_stream c) = None \<and> st_pending (cp_stream c) = [])"

text \<open>The part of a stream that draining does not touch.\<close>

definition publication :: "OutputStream \<Rightarrow> OutputStream" where
  "publication s = s\<lparr>st_data := [], st_pending := [], st_fd := None, st_eof := False\<rparr>"

text \<open>What a step of the drain may do: it moves bytes along and leaves the publication state alone.\<close>

definition moves_bytes :: "int \<Rightarrow> capture \<Rightarrow> capture \<Rightarrow> bool" where
  "moves_bytes room c c' \<longleftrightarrow> captured c' = captured c
     \<and> stream_size (cp_stream c) \<le> stream_size (cp_stream c')
     \<and> stream_size (cp_stream c') \<le> stream_size (cp_stream c) + max 0 room
     \<and> cp_writers c' = cp_writers c
     \<and> publication (cp_stream c') = publication (cp_stream c)"

definition sample_capture :: "pybytes \<Rightarrow> capture" where
  "sample_capture bs = \<lparr>cp_stream = new_stream 3, cp_pipe = bs, cp_writers = True, cp_reads = [], cp_append_faults = []\<rparr>"

section \<open>Steps of the drain\<close>

lemmas drain_defs = Let_def moves_bytes_def captured_def upd_stream_def stream_size_def publication_def

lemma moves_bytes_refl: "moves_bytes room c c"
  by (simp add: moves_bytes_def)

lemma moves_bytes_trans:
  "moves_bytes r1 c c' \<Longrightarrow> moves_bytes r2 c' c'' \<Longrightarrow> 0 \<le> r1 \<Longrightarrow> 0 \<le> r2 \<Longrightarrow> moves_bytes (r1 + r2) c c''"
  by (auto simp: moves_bytes_def)

lemma moves_bytes_mono: "moves_bytes r c c' \<Longrightarrow> r \<le> r' \<Longrightarrow> moves_bytes r' c c'"
  by (auto simp: moves_bytes_def)

lemma moves_bytes_flags:
  "moves_bytes r c (upd_stream (\<lambda>s. s\<lparr>st_eof := True\<rparr>) c') = moves_bytes r c c'"
  "moves_bytes r (upd_stream (\<lambda>s. s\<lparr>st_fd := None\<rparr>) c) c' = moves_bytes r c c'"
  by (simp_all add: drain_defs)

lemma take_drop_min [simp]: "take n xs @ drop (min (length xs) n) xs = xs"
  by (cases "n \<le> length xs") (simp_all add: min_def)

lemma flush_pending_spec:
  assumes "flush_pending limit c = (progress, c')" "\<forall>n. limit = Some n \<longrightarrow> 0 < n"
  shows "moves_bytes (case limit of None \<Rightarrow> int (length (st_pending (cp_stream c)))
      | Some n \<Rightarrow> min n (int (length (st_pending (cp_stream c))))) c c'
    \<and> (limit = None \<and> progress \<longrightarrow> st_pending (cp_stream c') = [])
    \<and> st_fd (cp_stream c') = st_fd (cp_stream c) \<and> st_eof (cp_stream c') = st_eof (cp_stream c)
    \<and> cp_pipe c' = cp_pipe c"
  using assms
  by (cases limit)
    (auto simp: flush_pending_def spool_append_def drain_defs py_slice_nat split: if_splits prod.splits)

lemma flush_all_landed:
  assumes "flush_pending (Some n) c = (progress, c')" "0 < n" "st_pending (cp_stream c') = []"
  shows "stream_size (cp_stream c') = stream_size (cp_stream c) + int (length (st_pending (cp_stream c)))"
  using assms
  by (auto simp: flush_pending_def spool_append_def drain_defs py_slice_nat split: if_splits prod.splits)

lemma retry_spec:
  assumes "retry_pending_flush room c = ((status, landed), c')"
  shows "moves_bytes room c c' \<and> st_fd (cp_stream c') = st_fd (cp_stream c)
    \<and> st_eof (cp_stream c') = st_eof (cp_stream c) \<and> cp_pipe c' = cp_pipe c
    \<and> (status = ''ok'' \<longrightarrow> 0 < room \<and> st_pending (cp_stream c') = []
        \<and> stream_size (cp_stream c') = stream_size (cp_stream c) + landed \<and> 0 \<le> landed \<and> landed \<le> room)"
proof (cases "room \<le> 0")
  case True
  then show ?thesis using assms by (auto simp: retry_pending_flush_def moves_bytes_refl)
next
  case False
  obtain progress c1 where f: "flush_pending (Some room) c = (progress, c1)" by fastforce
  note spec = flush_pending_spec [OF f] and all = flush_all_landed [OF f]
  have "c' = c1" using assms f False by (auto simp: retry_pending_flush_def Let_def split: if_splits)
  moreover have "moves_bytes room c c1" using spec False moves_bytes_mono by auto
  ultimately show ?thesis using assms f False spec all
    by (auto simp: retry_pending_flush_def Let_def moves_bytes_def split: if_splits)
qed

lemma os_read_spec:
  assumes "os_read n c = (r, c')" "0 < n"
  shows "cp_stream c' = cp_stream c \<and> cp_writers c' = cp_writers c
    \<and> (\<forall>data. r = Got data \<longrightarrow> data @ cp_pipe c' = cp_pipe c \<and> int (length data) \<le> n
         \<and> (data = [] \<longrightarrow> cp_pipe c = [] \<and> \<not> cp_writers c))
    \<and> ((\<forall>data. r \<noteq> Got data) \<longrightarrow> cp_pipe c' = cp_pipe c)"
  using assms by (auto simp: os_read_def Let_def split: list.splits read_outcome.splits if_splits)

lemma finish_spec:
  assumes "finish_capture_stream c = (status, c')" "cp_pipe c = []" "\<not> cp_writers c" "\<not> st_eof (cp_stream c)"
  shows "moves_bytes (int (length (st_pending (cp_stream c)))) c c' \<and> capture_ok c'"
proof (cases "st_pending (cp_stream c) = []")
  case True
  then show ?thesis using assms by (auto simp: finish_capture_stream_def drain_defs capture_ok_def)
next
  case False
  let ?c = "upd_stream (\<lambda>s. s\<lparr>st_fd := None\<rparr>) c"
  obtain progress c1 where f: "flush_pending None ?c = (progress, c1)" by fastforce
  from flush_pending_spec [OF f] have s: "moves_bytes (int (length (st_pending (cp_stream c)))) c c1"
    "st_fd (cp_stream c1) = None" "st_eof (cp_stream c1) = st_eof (cp_stream c)" "cp_pipe c1 = cp_pipe c"
    by (auto simp: moves_bytes_flags, auto simp: upd_stream_def)
  show ?thesis using assms(1-4) f False s
    by (auto simp: finish_capture_stream_def Let_def moves_bytes_flags upd_stream_def capture_ok_def moves_bytes_def
        captured_def stream_size_def publication_def split: if_splits)
qed

lemma read_chunk_spec:
  assumes "read_capture_chunk room c = (status, c')" "0 < room" "capture_ok c"
    and p: "st_pending (cp_stream c) = []" and e: "\<not> st_eof (cp_stream c)"
  shows "moves_bytes room c c' \<and> capture_ok c'"
proof (cases "st_fd (cp_stream c) = None")
  case True
  then show ?thesis using assms by (auto simp: read_capture_chunk_def moves_bytes_refl)
next
  case False
  obtain r c1 where rd: "os_read (min room DRAIN_CHUNK) c = (r, c1)" by fastforce
  have pos: "0 < min room DRAIN_CHUNK" using assms(2) by (simp add: DRAIN_CHUNK_def)
  note o = os_read_spec [OF rd pos]
  show ?thesis
  proof (cases r)
    case (Got data)
    then have d: "data @ cp_pipe c1 = cp_pipe c" "int (length data) \<le> room"
      "data = [] \<Longrightarrow> cp_pipe c = [] \<and> \<not> cp_writers c" "cp_stream c1 = cp_stream c" "cp_writers c1 = cp_writers c"
      using o by auto
    show ?thesis
    proof (cases "data = []")
      case True
      then have fin: "finish_capture_stream c1 = (status, c')"
        using assms(1) False rd Got by (simp add: read_capture_chunk_def)
      have "moves_bytes 0 c1 c' \<and> capture_ok c'" using finish_spec [OF fin] d True p e by auto
      then show ?thesis using d True assms(2) by (auto simp: moves_bytes_def captured_def)
    next
      case ne: False
      let ?c = "upd_stream (\<lambda>s. s\<lparr>st_pending := st_pending s @ data\<rparr>) c1"
      obtain progress c2 where f: "flush_pending None ?c = (progress, c2)" by fastforce
      have "c' = c2" using assms(1) False rd Got ne f by (simp add: read_capture_chunk_def)
      moreover have "captured ?c = captured c" "stream_size (cp_stream ?c) = stream_size (cp_stream c)"
        "publication (cp_stream ?c) = publication (cp_stream c)" "length (st_pending (cp_stream ?c)) = length data"
        "st_fd (cp_stream ?c) = st_fd (cp_stream c)" "st_eof (cp_stream ?c) = st_eof (cp_stream c)"
        "cp_writers ?c = cp_writers c"
        using d p by (simp_all add: drain_defs)
      ultimately show ?thesis using flush_pending_spec [OF f] d False e
        by (auto simp: moves_bytes_def capture_ok_def)
    qed
  qed (use assms(1,2,3) False rd o in \<open>auto simp: read_capture_chunk_def moves_bytes_def captured_def capture_ok_def\<close>)
qed

lemma drain_spec:
  assumes "drain_capture_stream bound (Some used) c = (status, c')" "capture_ok c"
  shows "moves_bytes (bound - used) c c' \<and> capture_ok c'"
proof -
  let ?read = "\<lambda>used c1. let buffer_room = max 0 (bound - used) in
       if st_fd (cp_stream c1) = None then (''eof'', upd_stream (\<lambda>s. s\<lparr>st_eof := True\<rparr>) c1)
       else if buffer_room \<le> 0 then (''full'', c1) else read_capture_chunk buffer_room c1"
  have read: "moves_bytes (bound - u) c1 c2 \<and> capture_ok c2"
    if r: "?read u c1 = (st, c2)" and ok: "capture_ok c1" "st_pending (cp_stream c1) = []" "\<not> st_eof (cp_stream c1)"
    for u c1 st c2
  proof (cases "st_fd (cp_stream c1) = None")
    case True
    then have "c2 = upd_stream (\<lambda>s. s\<lparr>st_eof := True\<rparr>) c1" using r by simp
    then show ?thesis using True ok moves_bytes_refl [of "bound - u" c1] by (auto simp: drain_defs capture_ok_def)
  next
    case fd: False
    show ?thesis
    proof (cases "bound - u \<le> 0")
      case True
      then show ?thesis using r fd ok moves_bytes_refl by auto
    next
      case False
      then have "read_capture_chunk (bound - u) c1 = (st, c2)" using r fd by (simp add: Let_def)
      then show ?thesis using read_chunk_spec [of "bound - u" c1 st c2] False ok by auto
    qed
  qed
  consider "st_eof (cp_stream c)" | "\<not> st_eof (cp_stream c)" "st_pending (cp_stream c) = []"
    | "\<not> st_eof (cp_stream c)" "st_pending (cp_stream c) \<noteq> []" by blast
  then show ?thesis
  proof cases
    case 3
    obtain st landed c1 where r: "retry_pending_flush (max 0 (bound - used)) c = ((st, landed), c1)"
      by (metis surj_pair)
    note sp = retry_spec [OF r]
    have ok1: "capture_ok c1" using sp assms(2) 3 by (auto simp: capture_ok_def moves_bytes_def)
    show ?thesis
    proof (cases "st = ''ok''")
      case True
      then have "?read (used + landed) c1 = (status, c')"
        using assms(1) 3 r by (simp add: drain_capture_stream_def Let_def)
      from read [OF this ok1] sp True 3
      have "moves_bytes (bound - (used + landed)) c1 c' \<and> capture_ok c'" by auto
      then show ?thesis using sp True by (auto simp: moves_bytes_def)
    next
      case False
      then show ?thesis using assms(1) 3 r sp ok1 by (auto simp: drain_capture_stream_def Let_def moves_bytes_def)
    qed
  qed (use assms read [of used c] moves_bytes_refl in \<open>auto simp: drain_capture_stream_def Let_def\<close>)
qed

section \<open>Properties\<close>

text \<open>C39. Draining loses, reorders and duplicates nothing: whatever the pipe, the buffer and their
  failures do, the bytes in the spool, the retained bytes and the bytes still in the pipe are in this
  order the same before and after; end-of-file is only ever claimed when no writer is left and every
  byte is in the spool; and nothing that publication relies on changes.\<close>

theorem drain_loses_nothing:
  assumes "drain_capture_stream bound (Some used) c = (status, c')" "capture_ok c"
  shows "captured c' = captured c \<and> capture_ok c' \<and> publication (cp_stream c') = publication (cp_stream c)
    \<and> (st_eof (cp_stream c') \<longrightarrow> st_data (cp_stream c') = captured c \<and> \<not> cp_writers c')"
  using drain_spec [OF assms] by (auto simp: moves_bytes_def captured_def capture_ok_def)

theorem drain_loses_nothing_witness:
  "\<exists>status c'. drain_capture_stream 8 (Some 0) (sample_capture [1, 2, 3]) = (status, c') \<and> captured c' = [1, 2, 3]"
proof -
  have "capture_ok (sample_capture [1, 2, 3])" "captured (sample_capture [1, 2, 3]) = [1, 2, 3]"
    by (simp_all add: capture_ok_def sample_capture_def new_stream_def captured_def)
  then show ?thesis
    using drain_loses_nothing [of 8 0 "sample_capture [1, 2, 3]"]
    by (cases "drain_capture_stream 8 (Some 0) (sample_capture [1, 2, 3])") auto
qed

text \<open>C40. The spool bound holds on every path: a drain given the bytes both streams hold grows the
  buffer by at most the room left under the bound, and not at all when there is none.\<close>

theorem drain_respects_bound:
  assumes "drain_capture_stream bound (Some (other + stream_size (cp_stream c))) c = (status, c')" "capture_ok c"
  shows "other + stream_size (cp_stream c') \<le> max bound (other + stream_size (cp_stream c))"
  using drain_spec [OF assms] by (auto simp: moves_bytes_def)

theorem drain_respects_bound_witness:
  "5 + stream_size (cp_stream (snd (drain_capture_stream 7 (Some (5 + stream_size (cp_stream (sample_capture [1, 2, 3]))))
      (sample_capture [1, 2, 3])))) \<le> 7"
proof -
  have ok: "capture_ok (sample_capture [1, 2, 3])" "stream_size (cp_stream (sample_capture [1, 2, 3])) = 0"
    by (simp_all add: capture_ok_def sample_capture_def new_stream_def stream_size_def)
  show ?thesis
    using drain_respects_bound [of 7 5 "sample_capture [1, 2, 3]", OF prod.collapse [symmetric] ok(1)] ok(2) by simp
qed

end
