(* ===== verification/OutputPublish.thy ===== *)
theory OutputPublish
  imports OutputCapture "HOL-Library.AList"
begin

text \<open>
  Publication of a job's output in \<open>src/lubko/worker.py\<close>: the live-tail window, the immutable chunks
  that archive what lies before it, and the update of a stream after the transaction committed.

  Random chunk ids are the values of a supply \<open>ids\<close> at a counter. The loops of \<open>_plan_chunks\<close> are
  partial functions: \<open>None\<close> is a loop that does not end. Of the database the code relies on the
  answer to the row lock and on whether the transaction committed; both are arguments.
\<close>

section \<open>The live tail\<close>

definition ARCHIVE_MARGIN_CHARS :: int where "ARCHIVE_MARGIN_CHARS = 2000"

definition output_window_text :: "OutputStream \<Rightarrow> int \<Rightarrow> int \<Rightarrow> pystr \<times> int \<times> int" where
  "output_window_text stream max_chars base =
    (let size = int (length (st_data stream)) + base;
         window = min size max_chars;
         start = size - window;
         physical_head = start - base;
         read_from = max 0 (physical_head - 3);
         tail = read_range stream read_from (size - base);
         local_candidate = physical_head - read_from;
         aligned_local = align_code_point_start tail local_candidate;
         aligned_physical = read_from + aligned_local;
         raw_window = py_slice tail aligned_local (int (length tail))
     in case bounded_suffix raw_window max_chars of (keep, txt) \<Rightarrow>
          (txt, aligned_physical + keep + base, size))"

definition archive_target :: "int \<Rightarrow> int" where
  "archive_target sz =
    (if sz \<le> OUTPUT_TAIL_MAX_BYTES then 0 else sz - OUTPUT_TAIL_MAX_BYTES + ARCHIVE_MARGIN_CHARS)"

section \<open>Chunks\<close>

text \<open>The values every chunk of one stream carries.\<close>

record chunk_source =
  cs_job :: uuid
  cs_name :: pystr
  cs_server :: pystr
  cs_version :: int
  cs_ids :: "nat \<Rightarrow> uuid"

text \<open>The local variables of the loops.\<close>

record archive =
  av_chunks :: "(uuid \<times> pystr) list"
  av_upto :: int
  av_last :: "uuid option"
  av_sequence :: int
  av_next :: nat

definition archive_step :: "chunk_source \<Rightarrow> OutputStream \<Rightarrow> int \<Rightarrow> archive \<Rightarrow> archive res" where
  "archive_step src stream candidate av =
    (let chunk_start = av_upto av;
         n_from = max 0 (candidate - 3);
         neighborhood = read_range stream n_from (candidate + 4);
         aligned_end = n_from + align_code_point_end neighborhood (candidate - n_from) + st_spool_start stream;
         chunk_bytes = read_range stream (chunk_start - st_spool_start stream) (aligned_end - st_spool_start stream);
         decoded = pg_safe_decode chunk_bytes;
         (chunk_end, val) =
           (if text_size decoded > OUTPUT_CHUNK_MAX_BYTES
            then (case bounded_prefix chunk_bytes OUTPUT_CHUNK_MAX_BYTES of (stop, v) \<Rightarrow> (chunk_start + stop, v))
            else (aligned_end, decoded));
         chunk_id = cs_ids src (av_next av)
     in ebind (build_output_chunk_payload (JStr (cs_server src)) (cs_job src) (JStr (cs_name src)) (av_sequence av)
                 chunk_start chunk_end val (av_last av) (JInt (cs_version src))) (\<lambda>payload.
        ebind (dumps_unsorted (JObj payload)) (\<lambda>chunk_payload.
        Ok \<lparr>av_chunks = av_chunks av @ [(chunk_id, chunk_payload)], av_upto = chunk_end,
            av_last = Some chunk_id, av_sequence = av_sequence av + 1, av_next = av_next av + 1\<rparr>)))"

partial_function (option) archive_full ::
    "chunk_source \<Rightarrow> OutputStream \<Rightarrow> int \<Rightarrow> archive \<Rightarrow> archive res option" where
  "archive_full src stream target av =
    (if target - av_upto av \<ge> OUTPUT_CHUNK_MAX_BYTES
     then (case archive_step src stream (av_upto av + OUTPUT_CHUNK_MAX_BYTES - st_spool_start stream) av of
         Inl e \<Rightarrow> Some (Inl e)
       | Inr av' \<Rightarrow> archive_full src stream target av')
     else Some (Inr av))"

partial_function (option) archive_rest ::
    "chunk_source \<Rightarrow> OutputStream \<Rightarrow> int \<Rightarrow> archive \<Rightarrow> archive res option" where
  "archive_rest src stream tail_start av =
    (if av_upto av < tail_start
     then (case archive_step src stream (tail_start - st_spool_start stream) av of
         Inl e \<Rightarrow> Some (Inl e)
       | Inr av' \<Rightarrow> archive_rest src stream tail_start av')
     else Some (Inr av))"

definition plan_chunks ::
    "chunk_source \<Rightarrow> OutputStream \<Rightarrow> int \<Rightarrow> int \<Rightarrow> nat \<Rightarrow> archive res option" where
  "plan_chunks src stream tail_end tail_start next =
    (let target = archive_target tail_end;
         av = \<lparr>av_chunks = [], av_upto = st_archived_upto stream, av_last = st_last_chunk stream,
               av_sequence = st_sequence stream, av_next = next\<rparr>
     in case archive_full src stream target av of
          Some (Inr av') \<Rightarrow> if tail_start > target then archive_rest src stream tail_start av' else Some (Inr av')
        | r \<Rightarrow> r)"

section \<open>Plans\<close>

record StreamPlan =
  pl_size :: int
  pl_tail_text :: pystr
  pl_tail_start :: int
  pl_tail_end :: int
  pl_archived_upto :: int
  pl_last_chunk :: "uuid option"
  pl_sequence :: int
  pl_chunks :: "(uuid \<times> pystr) list"
  pl_window :: dict

text \<open>The fields of \<open>ActiveJob\<close> that publication reads and writes.\<close>

record PublishedJob =
  pj_id :: uuid
  pj_version :: int
  pj_stdout :: OutputStream
  pj_stderr :: OutputStream

definition OUTPUT_STREAMS :: "pystr list" where
  "OUTPUT_STREAMS = [lit ''stdout'', lit ''stderr'']"

definition get_stream :: "PublishedJob \<Rightarrow> pystr \<Rightarrow> OutputStream res" where
  "get_stream job name =
    (if name = lit ''stdout'' then Ok (pj_stdout job)
     else if name = lit ''stderr'' then Ok (pj_stderr job)
     else Raise (Unmodelled ''AttributeError''))"

definition set_stream :: "pystr \<Rightarrow> OutputStream \<Rightarrow> PublishedJob \<Rightarrow> PublishedJob" where
  "set_stream name s job =
    (if name = lit ''stdout'' then job\<lparr>pj_stdout := s\<rparr> else job\<lparr>pj_stderr := s\<rparr>)"

text \<open>One stream; the plan is computed before the throttle is looked at.\<close>

definition plan_stream ::
    "PublishedJob \<Rightarrow> pystr \<Rightarrow> (nat \<Rightarrow> uuid) \<Rightarrow> bool \<Rightarrow> pystr \<Rightarrow> nat \<Rightarrow> (StreamPlan option \<times> nat) res option" where
  "plan_stream job server ids force name next =
    (case get_stream job name of Inl e \<Rightarrow> Some (Inl e) | Inr stream \<Rightarrow>
     let size = st_spool_start stream + int (length (st_data stream)) in
     case output_window_text stream OUTPUT_TAIL_MAX_BYTES (st_spool_start stream) of (tail_text, tail_start, tail_end) \<Rightarrow>
     (case plan_chunks \<lparr>cs_job = pj_id job, cs_name = name, cs_server = server, cs_version = pj_version job, cs_ids = ids\<rparr>
         stream tail_end tail_start next of
       None \<Rightarrow> None
     | Some (Inl e) \<Rightarrow> Some (Inl e)
     | Some (Inr av) \<Rightarrow>
         if \<not> force \<and> size = st_published_size stream then Some (Ok (None, av_next av))
         else Some (ebind (build_output_window_payload tail_text tail_start tail_end (av_last av)) (\<lambda>window.
           Ok (Some \<lparr>pl_size = size, pl_tail_text = tail_text, pl_tail_start = tail_start, pl_tail_end = tail_end,
                 pl_archived_upto = av_upto av, pl_last_chunk = av_last av, pl_sequence = av_sequence av,
                 pl_chunks = av_chunks av, pl_window = window\<rparr>, av_next av)))))"

fun plan_streams ::
    "PublishedJob \<Rightarrow> pystr \<Rightarrow> (nat \<Rightarrow> uuid) \<Rightarrow> bool \<Rightarrow> pystr list \<Rightarrow> nat \<Rightarrow> (pystr \<times> StreamPlan) list
      \<Rightarrow> (pystr \<times> StreamPlan) list res option" where
  "plan_streams job server ids force [] next plans = Some (Ok plans)"
| "plan_streams job server ids force (name # names) next plans =
    (case plan_stream job server ids force name next of
       None \<Rightarrow> None
     | Some (Inl e) \<Rightarrow> Some (Inl e)
     | Some (Inr (plan, next')) \<Rightarrow>
         plan_streams job server ids force names next'
           (case plan of None \<Rightarrow> plans | Some p \<Rightarrow> AList.update name p plans))"

definition full_window :: "PublishedJob \<Rightarrow> (pystr \<times> StreamPlan) list \<Rightarrow> pystr \<Rightarrow> dict res" where
  "full_window job plans name =
    (case map_of plans name of
       Some p \<Rightarrow> Ok (pl_window p)
     | None \<Rightarrow> ebind (get_stream job name) (\<lambda>s.
         build_output_window_payload (st_tail_text s) (st_tail_start s) (st_tail_end s) (st_last_chunk s)))"

definition full_windows :: "PublishedJob \<Rightarrow> (pystr \<times> StreamPlan) list \<Rightarrow> dict res" where
  "full_windows job plans =
    ebind (full_window job plans (lit ''stdout'')) (\<lambda>out.
    ebind (full_window job plans (lit ''stderr'')) (\<lambda>err.
    Ok [(lit ''stdout'', JObj out), (lit ''stderr'', JObj err)]))"

section \<open>After the commit\<close>

definition apply_plan :: "StreamPlan \<Rightarrow> int \<Rightarrow> OutputStream \<Rightarrow> OutputStream" where
  "apply_plan plan now s = s\<lparr>st_published_size := pl_size plan, st_published_at := now,
     st_tail_text := pl_tail_text plan, st_tail_start := pl_tail_start plan, st_tail_end := pl_tail_end plan,
     st_archived_upto := pl_archived_upto plan, st_last_chunk := pl_last_chunk plan,
     st_sequence := pl_sequence plan\<rparr>"

definition drop_head :: "int \<Rightarrow> OutputStream \<Rightarrow> OutputStream" where
  "drop_head n s = (if n \<le> 0 then s else s\<lparr>st_data := drop (nat n) (st_data s)\<rparr>)"

definition trim_published :: "StreamPlan \<Rightarrow> OutputStream \<Rightarrow> OutputStream" where
  "trim_published plan s =
    (let n = pl_tail_start plan - st_spool_start s in
     if n \<le> 0 then s else (drop_head n s)\<lparr>st_spool_start := pl_tail_start plan\<rparr>)"

definition upd_job :: "(StreamPlan \<Rightarrow> OutputStream \<Rightarrow> OutputStream) \<Rightarrow> (pystr \<times> StreamPlan) list \<Rightarrow> PublishedJob \<Rightarrow> PublishedJob" where
  "upd_job f plans job = fold (\<lambda>(name, plan) job.
     case get_stream job name of Inl _ \<Rightarrow> job | Inr s \<Rightarrow> set_stream name (f plan s) job) plans job"

text \<open>What a committed publication wrote: the inserted chunk rows and the root row's output section.\<close>

record publication_effect =
  pe_rows :: "(uuid \<times> pystr) list"
  pe_output :: dict

text \<open>\<open>root\<close> is the answer to the row lock, \<open>commit\<close> the outcome of the rest of the transaction.\<close>

definition publish_output ::
    "bool res \<Rightarrow> unit res \<Rightarrow> PublishedJob \<Rightarrow> pystr list \<Rightarrow> int \<Rightarrow> pystr \<Rightarrow> (nat \<Rightarrow> uuid) \<Rightarrow> bool
      \<Rightarrow> (bool res \<times> PublishedJob \<times> publication_effect option) option" where
  "publish_output root commit job stream_names now server ids force =
    (case plan_streams job server ids force stream_names 0 [] of
       None \<Rightarrow> None
     | Some (Inl e) \<Rightarrow> Some (Inl e, job, None)
     | Some (Inr plans) \<Rightarrow>
         if plans = [] then Some (Ok True, job, None)
         else (case full_windows job plans of
             Inl e \<Rightarrow> Some (Inl e, job, None)
           | Inr output \<Rightarrow>
               (case root of
                  Inl e \<Rightarrow> Some (Inl e, job, None)
                | Inr False \<Rightarrow> Some (Ok False, job, None)
                | Inr True \<Rightarrow>
                    (case commit of
                       Inl e \<Rightarrow> Some (Inl e, job, None)
                     | Inr _ \<Rightarrow>
                         Some (Ok True,
                           upd_job trim_published plans (upd_job (\<lambda>plan. apply_plan plan now) plans job),
                           Some \<lparr>pe_rows = concat (map (\<lambda>(name, plan). pl_chunks plan) plans), pe_output = output\<rparr>)))))"


section \<open>Specification vocabulary\<close>

text \<open>A stream holds the suffix of everything the job wrote from its spool offset on.\<close>

definition holds :: "pybytes \<Rightarrow> OutputStream \<Rightarrow> bool" where
  "holds full s \<longleftrightarrow> 0 \<le> st_spool_start s \<and> st_spool_start s \<le> int (length full)
     \<and> st_data s = drop (nat (st_spool_start s)) full"

text \<open>A boundary that stays one when more output arrives.\<close>

definition settled_boundary :: "pybytes \<Rightarrow> int \<Rightarrow> bool" where
  "settled_boundary full k \<longleftrightarrow> boundary full k \<and> (k = 0 \<or> k + 3 \<le> int (length full))"

definition source_ok :: "chunk_source \<Rightarrow> bool" where
  "source_ok src \<longleftrightarrow> cs_version src = PROTOCOL_VERSION \<and> cs_name src \<in> set CHUNK_STREAMS
     \<and> parse_server (JStr (cs_server src)) = Inr (cs_server src) \<and> clean (cs_server src)"

text \<open>A list of stored chunks that a reader parses to consecutive ranges of the stream, each with the
  decoded text of its range, numbered and linked to its predecessor.\<close>

fun chain :: "pybytes \<Rightarrow> chunk_source \<Rightarrow> int \<Rightarrow> int \<Rightarrow> uuid option \<Rightarrow> (uuid \<times> pystr) list \<Rightarrow> int \<Rightarrow> bool" where
  "chain full src sequence start previous [] stop \<longleftrightarrow> start = stop"
| "chain full src sequence start previous ((chunk_id, payload) # rest) stop \<longleftrightarrow>
    (\<exists>mid. start < mid \<and> mid - start \<le> OUTPUT_CHUNK_MAX_BYTES \<and> boundary full mid
      \<and> parse_chunk_payload (JStr payload) = Inr \<lparr>oc_server = cs_server src, oc_thread = cs_job src,
          oc_stream = cs_name src, oc_sequence = sequence, oc_start = start, oc_end = mid,
          oc_value = pg_safe_decode (py_slice full start mid), oc_previous = previous\<rparr>
      \<and> chain full src (sequence + 1) mid (Some chunk_id) rest stop)"

text \<open>One archive extends another by such a chain.\<close>

definition extends :: "pybytes \<Rightarrow> chunk_source \<Rightarrow> archive \<Rightarrow> archive \<Rightarrow> bool" where
  "extends full src av av' \<longleftrightarrow> (\<exists>cs. av_chunks av' = av_chunks av @ cs
     \<and> chain full src (av_sequence av) (av_upto av) (av_last av) cs (av_upto av')
     \<and> av_sequence av' = av_sequence av + int (length cs)
     \<and> av_last av' = (if cs = [] then av_last av else Some (fst (last cs))))"

definition archive_ok :: "pybytes \<Rightarrow> archive \<Rightarrow> bool" where
  "archive_ok full av \<longleftrightarrow> boundary full (av_upto av) \<and> 0 \<le> av_sequence av \<and> av_sequence av \<le> av_upto av"

text \<open>Where the tail would start if no byte of it were replaced by a longer text.\<close>

definition tail_head :: "pybytes \<Rightarrow> OutputStream \<Rightarrow> int" where
  "tail_head full s = align_code_point_start full (max (st_spool_start s) (int (length full) - OUTPUT_TAIL_MAX_BYTES))"

definition unexpanded :: "pybytes \<Rightarrow> OutputStream \<Rightarrow> bool" where
  "unexpanded full s \<longleftrightarrow>
    text_size (pg_safe_decode (py_slice full (tail_head full s) (int (length full)))) \<le> OUTPUT_TAIL_MAX_BYTES"

definition tail_ok :: "OutputStream \<Rightarrow> bool" where
  "tail_ok s \<longleftrightarrow> is_ok (build_output_window_payload (st_tail_text s) (st_tail_start s) (st_tail_end s) None)"

text \<open>The state of a stream between publications: what is not in the buffer has been archived.\<close>

definition stream_ok :: "pybytes \<Rightarrow> OutputStream \<Rightarrow> bool" where
  "stream_ok full s \<longleftrightarrow> holds full s \<and> settled_boundary full (st_spool_start s)
     \<and> settled_boundary full (st_archived_upto s) \<and> st_spool_start s \<le> st_archived_upto s
     \<and> 0 \<le> st_sequence s \<and> st_sequence s \<le> st_archived_upto s \<and> int (length full) < 10 ^ 18 \<and> tail_ok s"

definition job_ok :: "pybytes \<Rightarrow> pybytes \<Rightarrow> pystr \<Rightarrow> PublishedJob \<Rightarrow> bool" where
  "job_ok out err server job \<longleftrightarrow> stream_ok out (pj_stdout job) \<and> stream_ok err (pj_stderr job)
     \<and> pj_version job = PROTOCOL_VERSION \<and> parse_server (JStr server) = Inr server \<and> clean server"

definition mixed :: "nat \<Rightarrow> nat \<Rightarrow> nat \<Rightarrow> pybytes" where
  "mixed x y z = replicate x 0x61 @ replicate y 0xFF @ replicate z 0x61"

definition gap_stream :: OutputStream where
  "gap_stream = (new_stream 3)\<lparr>st_data := mixed 2999 500 2500\<rparr>"

definition sample_source :: chunk_source where
  "sample_source = \<lparr>cs_job = 7, cs_name = lit ''stdout'', cs_server = lit ''alpha'', cs_version = PROTOCOL_VERSION, cs_ids = of_nat\<rparr>"

section \<open>The logical stream\<close>

lemma holds_slice:
  "holds full s \<Longrightarrow> st_spool_start s \<le> i \<Longrightarrow> st_spool_start s \<le> j \<Longrightarrow>
   read_range s (i - st_spool_start s) (j - st_spool_start s) = py_slice full i j"
  by (simp add: holds_def read_range_def py_slice_drop)

lemma holds_length: "holds full s \<Longrightarrow> int (length (st_data s)) = int (length full) - st_spool_start s"
  by (auto simp: holds_def)

lemma settled_boundary_grows:
  assumes "settled_boundary full k"
  shows "settled_boundary (full @ extra) k"
proof -
  have "\<not> inside (full @ extra) k" if k: "k \<noteq> 0"
  proof
    assume "inside (full @ extra) k"
    then obtain a b where ab: "code_point_at (full @ extra) a b" "a < k" "k < b" unfolding inside_def by blast
    have "b \<le> int (length full)"
      using code_point_at_length [OF ab(1)] ab k assms by (auto simp: settled_boundary_def)
    then have "py_slice (full @ extra) a b = py_slice full a b" using ab(1)
      by (auto simp: code_point_at_def py_slice_nat nat_le_iff)
    then have "code_point_at full a b" using ab(1) \<open>b \<le> int (length full)\<close> by (simp add: code_point_at_def)
    then show False using ab assms by (auto simp: settled_boundary_def boundary_def inside_def)
  qed
  then show ?thesis using assms boundary_ends(1) [of "full @ extra"]
    by (cases "k = 0") (auto simp: settled_boundary_def boundary_def)
qed

section \<open>Alignment in a neighborhood\<close>

lemma align_inside:
  assumes "code_point_at data a b" "a < k" "k < b"
  shows "align_code_point_end data k = a" "align_code_point_start data k = b"
proof -
  have b: "b = a + int (nat (b - a))" using assms by simp
  have "crossing_code_point data k [1, 2, 3] = Some (a, nat (b - a))"
    using assms b by (simp add: crossing_iff)
  moreover have "0 < k" "k < int (length data)" using assms by (auto simp: code_point_at_def)
  ultimately show "align_code_point_end data k = a" "align_code_point_start data k = b"
    using b by (simp_all add: align_code_point_end_def align_code_point_start_def)
qed

lemma align_outside:
  "0 \<le> k \<Longrightarrow> k \<le> int (length data) \<Longrightarrow> \<not> inside data k \<Longrightarrow>
   align_code_point_end data k = k \<and> align_code_point_start data k = k"
  using crossing_iff(2) [of data k] by (auto simp: align_code_point_end_def align_code_point_start_def Let_def)

lemma align_slice:
  assumes "0 \<le> i" "j \<le> int (length data)" "i < k" "k < j"
    and "boundary data i \<or> i + 3 \<le> k" "boundary data j \<or> k + 3 \<le> j"
  shows "i + align_code_point_end (py_slice data i j) (k - i) = align_code_point_end data k"
    "i + align_code_point_start (py_slice data i j) (k - i) = align_code_point_start data k"
proof -
  have ij: "i \<le> j" using assms by simp
  note ins = inside_slice [OF assms(1) ij assms(2-6)]
  have "i + align_code_point_end (py_slice data i j) (k - i) = align_code_point_end data k
      \<and> i + align_code_point_start (py_slice data i j) (k - i) = align_code_point_start data k"
  proof (cases "inside data k")
    case True
    with ins obtain a b where ab: "code_point_at (py_slice data i j) a b" "a < k - i" "k - i < b"
      unfolding inside_def by blast
    then have "0 \<le> a" "b \<le> j - i" using assms ij by (auto simp: code_point_at_def length_py_slice)
    then have "code_point_at data (a + i) (b + i)"
      using ab code_point_at_slice [of i j data "a + i" "b + i"] assms ij by auto
    then show ?thesis using align_inside [OF ab] align_inside [of data "a + i" "b + i" k] ab by auto
  next
    case False
    then show ?thesis using ins align_outside [of k data] align_outside [of "k - i" "py_slice data i j"] assms ij
      by (auto simp: length_py_slice)
  qed
  then show "i + align_code_point_end (py_slice data i j) (k - i) = align_code_point_end data k"
    "i + align_code_point_start (py_slice data i j) (k - i) = align_code_point_start data k" by auto
qed

lemma py_slice_clamp: "0 \<le> i \<Longrightarrow> int (length xs) \<le> j \<Longrightarrow> py_slice xs i j = py_slice xs i (int (length xs))"
  by (auto simp: py_slice_def slice_index_def)

text \<open>The neighborhood read of the chunk planner finds the boundary the whole stream has.\<close>

lemma neighborhood_align:
  assumes h: "holds full s" "boundary full (st_spool_start s)" and p: "st_spool_start s < p" "p \<le> int (length full)"
  defines "candidate \<equiv> p - st_spool_start s"
  defines "n_from \<equiv> max 0 (candidate - 3)"
  shows "n_from + align_code_point_end (read_range s n_from (candidate + 4)) (candidate - n_from) + st_spool_start s
    = align_code_point_end full p"
proof -
  let ?b = "st_spool_start s" and ?n = "int (length full)"
  define i where "i = ?b + n_from"
  define j where "j = min ?n (p + 4)"
  have b: "0 \<le> ?b" using h by (simp add: holds_def)
  have i: "?b \<le> i" "i < p" "boundary full i \<or> i + 3 \<le> p" using p h(2) by (auto simp: i_def n_from_def candidate_def max_def)
  have rr: "read_range s n_from (candidate + 4) = py_slice full i j"
  proof -
    have "read_range s n_from (candidate + 4) = py_slice full i (p + 4)"
      using holds_slice [OF h(1), of i "p + 4"] i p by (simp add: i_def candidate_def algebra_simps)
    then show ?thesis using py_slice_clamp [of i full "p + 4"] i b by (auto simp: j_def min_def)
  qed
  have ci: "candidate - n_from = p - i" by (simp add: i_def candidate_def)
  show ?thesis
  proof (cases "p = ?n")
    case True
    then have "length (py_slice full i j) = nat (p - i)" using i b p by (simp add: length_py_slice j_def)
    then have "align_code_point_end (py_slice full i j) (p - i) = p - i" using i by (simp add: align_code_point_end_def)
    moreover have "align_code_point_end full p = p" using True by (simp add: align_code_point_end_def Let_def)
    ultimately show ?thesis unfolding rr ci by (simp add: i_def)
  next
    case False
    have "i + align_code_point_end (py_slice full i j) (p - i) = align_code_point_end full p"
      by (rule align_slice(1)) (use i b p False in \<open>auto simp: j_def\<close>)
    then show ?thesis unfolding rr ci by (simp add: i_def)
  qed
qed

section \<open>What a reader of the chunks finds\<close>

lemma chain_append:
  "chain full src q a p cs m \<Longrightarrow>
   chain full src (q + int (length cs)) m (if cs = [] then p else Some (fst (last cs))) ds z \<Longrightarrow>
   chain full src q a p (cs @ ds) z"
proof (induction cs arbitrary: q a p)
  case (Cons c cs)
  obtain i t where c: "c = (i, t)" by fastforce
  have tail: "chain full src (q + 1) mid (Some i) (cs @ ds) z" if mid: "chain full src (q + 1) mid (Some i) cs m" for mid
  proof (rule Cons.IH [OF mid])
    show "chain full src (q + 1 + int (length cs)) m (if cs = [] then Some i else Some (fst (last cs))) ds z"
      using Cons.prems(2) c by (simp add: algebra_simps split: if_splits)
  qed
  then show ?case using Cons.prems(1) c by auto
qed simp

lemma extends_refl [simp]: "extends full src av av"
  unfolding extends_def by (intro exI [of _ "[]"]) simp

lemma extends_trans:
  assumes "extends full src a b" "extends full src b c"
  shows "extends full src a c"
proof -
  obtain cs ds where cs: "av_chunks b = av_chunks a @ cs" "chain full src (av_sequence a) (av_upto a) (av_last a) cs (av_upto b)"
    "av_sequence b = av_sequence a + int (length cs)" "av_last b = (if cs = [] then av_last a else Some (fst (last cs)))"
    and ds: "av_chunks c = av_chunks b @ ds" "chain full src (av_sequence b) (av_upto b) (av_last b) ds (av_upto c)"
    "av_sequence c = av_sequence b + int (length ds)" "av_last c = (if ds = [] then av_last b else Some (fst (last ds)))"
    using assms unfolding extends_def by blast
  have "chain full src (av_sequence a) (av_upto a) (av_last a) (cs @ ds) (av_upto c)"
    by (rule chain_append [OF cs(2)]) (use cs ds in simp)
  then show ?thesis unfolding extends_def using cs ds by (intro exI [of _ "cs @ ds"]) auto
qed

section \<open>One chunk\<close>

lemma build_chunk_ok:
  assumes "source_ok src" "0 \<le> q" "0 \<le> start" "start \<le> stop" "stop - start \<le> OUTPUT_CHUNK_MAX_BYTES"
    and "text_size (pg_safe_decode bs) \<le> OUTPUT_CHUNK_MAX_BYTES" "q < 10 ^ 18" "stop < 10 ^ 18"
  shows "\<exists>d t. build_output_chunk_payload (JStr (cs_server src)) (cs_job src) (JStr (cs_name src)) q start stop
      (pg_safe_decode bs) prev (JInt (cs_version src)) = Inr d \<and> dumps_unsorted (JObj d) = Inr t
    \<and> parse_chunk_payload (JStr t) = Inr \<lparr>oc_server = cs_server src, oc_thread = cs_job src,
          oc_stream = cs_name src, oc_sequence = q, oc_start = start, oc_end = stop,
          oc_value = pg_safe_decode bs, oc_previous = prev\<rparr>"
proof -
  have v: "cs_version src = PROTOCOL_VERSION" and cl: "clean (cs_server src)"
    and s: "parse_server (JStr (cs_server src)) = Inr (cs_server src)" "cs_name src \<in> set CHUNK_STREAMS"
    using assms(1) by (auto simp: source_ok_def)
  obtain d where d: "build_output_chunk_payload (JStr (cs_server src)) (cs_job src) (JStr (cs_name src)) q start stop
      (pg_safe_decode bs) prev (JInt PROTOCOL_VERSION) = Inr d"
    using assms s by (simp add: build_output_chunk_payload_def validate_stream_def check_build_version_def
        require_int_def PROTOCOL_VERSION_def decoded_byte_length validate_offsets_def)
  have "\<bar>q\<bar> < 10 ^ 18" "\<bar>start\<bar> < 10 ^ 18" "\<bar>stop\<bar> < 10 ^ 18" using assms by auto
  note p = chunk_plain [OF d cl this [THEN digits_ok_small]]
  show ?thesis unfolding v using d plain_dumps_unsorted [OF p] unsorted_text(2) [OF p] chunk_parse [OF d] by auto
qed

lemma archive_step_spec:
  assumes src: "source_ok src" and h: "holds full s" "boundary full (st_spool_start s)" "int (length full) < 10 ^ 18"
    and av: "archive_ok full av" "st_spool_start s \<le> av_upto av"
    and p: "av_upto av < align_code_point_end full p" "p \<le> int (length full)"
  shows "\<exists>av'. archive_step src s (p - st_spool_start s) av = Inr av' \<and> extends full src av av' \<and> archive_ok full av'
    \<and> av_upto av < av_upto av' \<and> av_upto av' \<le> align_code_point_end full p
    \<and> (text_size (pg_safe_decode (py_slice full (av_upto av) (align_code_point_end full p))) \<le> OUTPUT_CHUNK_MAX_BYTES
         \<longrightarrow> av_upto av' = align_code_point_end full p)"
proof -
  let ?b = "st_spool_start s" and ?a = "av_upto av" and ?e = "align_code_point_end full p"
  have a: "boundary full ?a" "0 \<le> av_sequence av" "av_sequence av \<le> ?a" using av by (auto simp: archive_ok_def)
  have b0: "0 \<le> ?b" using h by (simp add: holds_def)
  have p0: "?b < p"
  proof (rule ccontr)
    assume "\<not> ?b < p"
    moreover have "?e \<le> p" if "0 \<le> p" using align_end_spec [OF that p(2)] by simp
    moreover have "?e = 0" if "p < 0" using that by (simp add: align_code_point_end_def)
    ultimately show False using p av(2) b0 by (cases "0 \<le> p") auto
  qed
  have e: "boundary full ?e" "?e \<le> p" using align_end_spec [of p full] p p0 b0 by auto
  define bs where "bs = py_slice full ?a ?e"
  have len: "length bs = nat (?e - ?a)" unfolding bs_def using a e p av(2) b0 by (intro length_py_slice) (auto simp: boundary_def)
  have bytes: "read_range s (?a - ?b) (?e - ?b) = bs" unfolding bs_def using holds_slice [OF h(1)] av(2) p(1) by simp
  define r where "r = (if text_size (pg_safe_decode bs) > OUTPUT_CHUNK_MAX_BYTES
     then (case bounded_prefix bs OUTPUT_CHUNK_MAX_BYTES of (stop, v) \<Rightarrow> (?a + stop, v)) else (?e, pg_safe_decode bs))"
  obtain mid val where mv: "r = (mid, val)" by fastforce
  have key: "?a < mid \<and> mid \<le> ?e \<and> boundary full mid \<and> val = pg_safe_decode (py_slice full ?a mid)
      \<and> text_size val \<le> OUTPUT_CHUNK_MAX_BYTES
      \<and> (text_size (pg_safe_decode bs) \<le> OUTPUT_CHUNK_MAX_BYTES \<longrightarrow> mid = ?e)"
  proof (cases "text_size (pg_safe_decode bs) > OUTPUT_CHUNK_MAX_BYTES")
    case False
    then show ?thesis using mv p(1) e by (auto simp: r_def bs_def)
  next
    case True
    obtain stop v where st: "bounded_prefix bs OUTPUT_CHUNK_MAX_BYTES = (stop, v)" by fastforce
    have ne: "bs \<noteq> []" using len p(1) by auto
    note sp = bounded_prefix_spec [OF st _ ne]
    have s1: "boundary bs stop" "1 \<le> stop" "v = pg_safe_decode (py_slice bs 0 stop)" "text_size v \<le> OUTPUT_CHUNK_MAX_BYTES"
      using sp by (auto simp: OUTPUT_CHUNK_MAX_BYTES_def)
    have stop: "stop \<le> ?e - ?a" using s1(1) len p(1) by (auto simp: boundary_def)
    have "py_slice bs 0 stop = py_slice full ?a (?a + stop)"
      unfolding bs_def using py_slice_slice [of ?a ?e 0 stop full] a s1(2) stop p(1) by (simp add: boundary_def)
    moreover have "boundary full (?a + stop)"
      using boundary_slice [of ?a ?e full "?a + stop"] a e s1 stop p by (auto simp: boundary_def bs_def)
    ultimately show ?thesis using mv True st s1 stop by (auto simp: r_def)
  qed
  have span: "mid - ?a \<le> OUTPUT_CHUNK_MAX_BYTES"
    using key text_size_bounds(1) [of "py_slice full ?a mid"] length_py_slice [of ?a mid full] a
    by (auto simp: boundary_def)
  have "mid < 10 ^ 18" "av_sequence av < 10 ^ 18" using key h(3) a by (auto simp: boundary_def)
  with build_chunk_ok [of src "av_sequence av" ?a mid "py_slice full ?a mid" "av_last av"] src a key span
  obtain d t where dt: "build_output_chunk_payload (JStr (cs_server src)) (cs_job src) (JStr (cs_name src)) (av_sequence av)
      ?a mid val (av_last av) (JInt (cs_version src)) = Inr d" "dumps_unsorted (JObj d) = Inr t"
      "parse_chunk_payload (JStr t) = Inr \<lparr>oc_server = cs_server src, oc_thread = cs_job src,
          oc_stream = cs_name src, oc_sequence = av_sequence av, oc_start = ?a, oc_end = mid,
          oc_value = pg_safe_decode (py_slice full ?a mid), oc_previous = av_last av\<rparr>"
    by (auto simp: boundary_def)
  let ?av = "\<lparr>av_chunks = av_chunks av @ [(cs_ids src (av_next av), t)], av_upto = mid,
            av_last = Some (cs_ids src (av_next av)), av_sequence = av_sequence av + 1, av_next = av_next av + 1\<rparr>"
  have "archive_step src s (p - ?b) av = Inr ?av"
    unfolding archive_step_def Let_def neighborhood_align [OF h(1,2) p0 p(2)] bytes r_def [symmetric] mv
    using dt by simp
  moreover have "extends full src av ?av"
    unfolding extends_def using key span dt(3) by (intro exI [of _ "[(cs_ids src (av_next av), t)]"]) auto
  ultimately show ?thesis using key a by (intro exI [of _ ?av]) (auto simp: archive_ok_def bs_def)
qed

section \<open>The loops end\<close>

lemma archive_full_spec:
  assumes src: "source_ok src" and h: "holds full s" "boundary full (st_spool_start s)" "int (length full) < 10 ^ 18"
    and av: "archive_ok full av" "st_spool_start s \<le> av_upto av" and t: "target \<le> int (length full)"
  shows "\<exists>av'. archive_full src s target av = Some (Inr av') \<and> extends full src av av' \<and> archive_ok full av'
    \<and> av_upto av \<le> av_upto av' \<and> av_upto av' \<le> max target (av_upto av) \<and> target - av_upto av' < OUTPUT_CHUNK_MAX_BYTES"
  using av
proof (induction "nat (target - av_upto av)" arbitrary: av rule: less_induct)
  case less
  show ?case
  proof (cases "target - av_upto av \<ge> OUTPUT_CHUNK_MAX_BYTES")
    case True
    let ?p = "av_upto av + OUTPUT_CHUNK_MAX_BYTES"
    have "0 \<le> ?p" using less.prems by (auto simp: archive_ok_def boundary_def OUTPUT_CHUNK_MAX_BYTES_def)
    then have p: "?p \<le> int (length full)" "av_upto av < align_code_point_end full ?p" "align_code_point_end full ?p \<le> ?p"
      using align_end_spec [of ?p full] True t by (auto simp: OUTPUT_CHUNK_MAX_BYTES_def)
    from archive_step_spec [OF src h less.prems p(2,1)]
    obtain av1 where s1: "archive_step src s (?p - st_spool_start s) av = Inr av1" "extends full src av av1"
      "archive_ok full av1" "av_upto av < av_upto av1" "av_upto av1 \<le> ?p" using p(3) by fastforce
    have "nat (target - av_upto av1) < nat (target - av_upto av)" using s1(4,5) True by (auto simp: OUTPUT_CHUNK_MAX_BYTES_def)
    from less.hyps [OF this s1(3)] less.prems s1(4)
    obtain av' where "archive_full src s target av1 = Some (Inr av')" "extends full src av1 av'" "archive_ok full av'"
      "av_upto av1 \<le> av_upto av'" "av_upto av' \<le> max target (av_upto av1)" "target - av_upto av' < OUTPUT_CHUNK_MAX_BYTES" by auto
    then show ?thesis using True s1 extends_trans [OF s1(2)] by (subst archive_full.simps) auto
  next
    case False
    then show ?thesis using less.prems by (subst archive_full.simps) auto
  qed
qed

lemma archive_rest_spec:
  assumes src: "source_ok src" and h: "holds full s" "boundary full (st_spool_start s)" "int (length full) < 10 ^ 18"
    and av: "archive_ok full av" "st_spool_start s \<le> av_upto av" "av_upto av \<le> tail_start" and t: "boundary full tail_start"
  shows "\<exists>av'. archive_rest src s tail_start av = Some (Inr av') \<and> extends full src av av' \<and> archive_ok full av'
    \<and> av_upto av' = tail_start"
  using av
proof (induction "nat (tail_start - av_upto av)" arbitrary: av rule: less_induct)
  case less
  have e: "align_code_point_end full tail_start = tail_start" "tail_start \<le> int (length full)"
    using align_end_spec [of tail_start full] t by (auto simp: boundary_def)
  show ?case
  proof (cases "av_upto av < tail_start")
    case True
    from archive_step_spec [OF src h less.prems(1,2), of tail_start] True e
    obtain av1 where s1: "archive_step src s (tail_start - st_spool_start s) av = Inr av1" "extends full src av av1"
      "archive_ok full av1" "av_upto av < av_upto av1" "av_upto av1 \<le> tail_start" by auto
    have "nat (tail_start - av_upto av1) < nat (tail_start - av_upto av)" using s1(4,5) by auto
    from less.hyps [OF this s1(3)] less.prems s1(4,5)
    obtain av' where "archive_rest src s tail_start av1 = Some (Inr av')" "extends full src av1 av'" "archive_ok full av'"
      "av_upto av' = tail_start" by auto
    then show ?thesis using True s1 extends_trans [OF s1(2)] by (subst archive_rest.simps) auto
  next
    case False
    then show ?thesis using less.prems by (subst archive_rest.simps) auto
  qed
qed

section \<open>The live tail\<close>

text \<open>The search for the tail stops at a boundary whose predecessor does not fit.\<close>

lemma search_suffix_adjacent:
  assumes "0 \<le> lo" "lo = 0 \<or> \<not> good (bs ! nat (lo - 1))"
  shows "search_suffix good bs lo hi keep = keep \<and> (hi < lo \<or> \<not> good (bs ! nat hi))
   \<or> (\<exists>i. lo \<le> i \<and> i \<le> hi \<and> search_suffix good bs lo hi keep = bs ! nat i
        \<and> (i = 0 \<or> \<not> good (bs ! nat (i - 1))))"
  using assms
proof (induction good bs lo hi keep rule: search_suffix.induct)
  case (1 good bs lo hi keep)
  show ?case
  proof (cases "lo \<le> hi")
    case True
    define mid where "mid = (lo + hi) div 2"
    have mid: "lo \<le> mid" "mid \<le> hi" using True by (auto simp: mid_def)
    have eq: "search_suffix good bs lo hi keep = (if good (bs ! nat mid)
        then search_suffix good bs lo (mid - 1) (bs ! nat mid) else search_suffix good bs (mid + 1) hi keep)"
      using True by (subst search_suffix.simps) (simp add: Let_def mid_def [symmetric])
    show ?thesis
    proof (cases "good (bs ! nat mid)")
      case good: True
      from 1(1) [OF True mid_def refl good 1(3,4)] show ?thesis
      proof
        assume a: "search_suffix good bs lo (mid - 1) (bs ! nat mid) = bs ! nat mid \<and> (mid - 1 < lo \<or> \<not> good (bs ! nat (mid - 1)))"
        have "mid = 0 \<or> \<not> good (bs ! nat (mid - 1))" using a mid 1(4) by (cases "mid = lo") auto
        then show ?thesis using a eq good mid by (intro disjI2 exI [of _ mid]) auto
      next
        assume "\<exists>i. lo \<le> i \<and> i \<le> mid - 1 \<and> search_suffix good bs lo (mid - 1) (bs ! nat mid) = bs ! nat i
          \<and> (i = 0 \<or> \<not> good (bs ! nat (i - 1)))"
        then obtain i where "lo \<le> i" "i \<le> mid - 1" "search_suffix good bs lo (mid - 1) (bs ! nat mid) = bs ! nat i"
          "i = 0 \<or> \<not> good (bs ! nat (i - 1))" by blast
        then show ?thesis using eq good mid by (intro disjI2 exI [of _ i]) auto
      qed
    next
      case bad: False
      have "0 \<le> mid + 1" "mid + 1 = 0 \<or> \<not> good (bs ! nat (mid + 1 - 1))" using bad mid 1(3) by auto
      from 1(2) [OF True mid_def refl bad this] show ?thesis
      proof
        assume "search_suffix good bs (mid + 1) hi keep = keep \<and> (hi < mid + 1 \<or> \<not> good (bs ! nat hi))"
        moreover have "hi < mid + 1 \<longrightarrow> hi = mid" using mid by auto
        ultimately show ?thesis using eq bad by auto
      next
        assume "\<exists>i. mid + 1 \<le> i \<and> i \<le> hi \<and> search_suffix good bs (mid + 1) hi keep = bs ! nat i
          \<and> (i = 0 \<or> \<not> good (bs ! nat (i - 1)))"
        then obtain i where "mid + 1 \<le> i" "i \<le> hi" "search_suffix good bs (mid + 1) hi keep = bs ! nat i"
          "i = 0 \<or> \<not> good (bs ! nat (i - 1))" by blast
        then show ?thesis using eq bad mid by (intro disjI2 exI [of _ i]) auto
      qed
    qed
  qed (simp add: search_suffix.simps)
qed

lemma next_boundary:
  assumes "boundary raw p" "p < int (length raw)"
  shows "\<exists>q. boundary raw q \<and> p < q \<and> q \<le> p + 4"
proof (cases "boundary raw (p + 1)")
  case False
  then obtain a b where ab: "code_point_at raw a b" "a < p + 1" "p + 1 < b"
    using assms by (auto simp: boundary_def inside_def)
  moreover have "\<not> (a < p \<and> p < b)" using ab(1) assms(1) unfolding boundary_def inside_def by blast
  ultimately have "a = p" by auto
  then show ?thesis using boundary_code_point(2) [OF ab(1)] code_point_at_length [OF ab(1)] ab by (intro exI [of _ b]) auto
qed (auto intro: exI [of _ "p + 1"])

lemma bounded_suffix_keeps:
  assumes "bounded_suffix raw limit = (keep, txt)" "0 \<le> limit"
  shows "keep = 0 \<or> limit < 3 * (int (length raw) - keep + 4)"
proof (cases "text_size (pg_safe_decode raw) \<le> limit")
  case True
  then show ?thesis using assms by (auto simp: bounded_suffix_def)
next
  case False
  let ?n = "int (length raw)" and ?bs = "boundaries 0 raw"
  let ?good = "\<lambda>k. text_size (pg_safe_decode (py_slice raw k ?n)) \<le> limit" and ?h = "int (length ?bs) - 1"
  have k: "keep = search_suffix ?good ?bs 0 ?h ?n" using assms False by (auto simp: bounded_suffix_def Let_def)
  have "?n \<in> set ?bs" using boundaries_set [of 0 raw] by auto
  then have ne: "?bs \<noteq> []" by auto
  have last: "?bs ! nat ?h = ?n"
  proof -
    obtain i where i: "i < length ?bs" "?bs ! i = ?n" using \<open>?n \<in> set ?bs\<close> by (auto simp: in_set_conv_nth)
    have "?bs ! i \<le> ?bs ! nat ?h" using boundaries_sorted [of 0 raw] i by (intro sorted_nth_mono) auto
    moreover have "?bs ! nat ?h \<in> set ?bs" using ne by (intro nth_mem) (auto simp: nat_less_iff)
    ultimately show ?thesis using i boundaries_set [of 0 raw] by (auto simp: boundary_def)
  qed
  have "?good ?n" using assms(2) by (simp add: py_slice_nat)
  with search_suffix_adjacent [of 0 ?good ?bs ?h ?n] last ne
  obtain i where i: "0 \<le> i" "i \<le> ?h" "keep = ?bs ! nat i" "i = 0 \<or> \<not> ?good (?bs ! nat (i - 1))"
    using k by fastforce
  show ?thesis
  proof (cases "i = 0")
    case True
    have "0 \<in> set ?bs" using boundaries_set [of 0 raw] by auto
    then obtain j where "j < length ?bs" "?bs ! j = 0" by (auto simp: in_set_conv_nth)
    then have "keep \<le> 0" using sorted_nth_mono [OF boundaries_sorted [of 0 raw], of 0 j] True i by auto
    moreover have "keep \<in> set ?bs" using i by (simp add: nth_mem nat_less_iff)
    ultimately show ?thesis using boundaries_set [of 0 raw] by auto
  next
    case False
    let ?p = "?bs ! nat (i - 1)"
    have p: "?p \<in> set ?bs" using i False by (intro nth_mem) auto
    then have bp: "boundary raw ?p" using boundaries_set [of 0 raw] by auto
    have bad: "limit < text_size (pg_safe_decode (py_slice raw ?p ?n))" using i(4) False by auto
    then have lim: "limit < 3 * (?n - ?p)"
      using text_size_bounds(2) [of "py_slice raw ?p ?n"] bp length_py_slice [of ?p ?n raw] by (auto simp: boundary_def)
    have "?p < ?n" using lim assms(2) by simp
    from next_boundary [OF bp this] obtain q where q: "boundary raw q" "?p < q" "q \<le> ?p + 4" by blast
    have "q \<in> set ?bs" using q boundaries_set [of 0 raw] by (auto simp: boundary_def)
    then obtain j where j: "j < length ?bs" "?bs ! j = q" by (auto simp: in_set_conv_nth)
    have "nat i \<le> j"
    proof (rule ccontr)
      assume "\<not> nat i \<le> j"
      then have "j \<le> nat (i - 1)" by auto
      then have "?bs ! j \<le> ?p" using sorted_nth_mono [OF boundaries_sorted [of 0 raw], of j "nat (i - 1)"] i(1,2) by auto
      then show False using j q by simp
    qed
    then have "keep \<le> q" using sorted_nth_mono [OF boundaries_sorted [of 0 raw], of "nat i" j] i j by auto
    then show ?thesis using lim q by auto
  qed
qed

lemma window_spec:
  assumes h: "holds full s" "settled_boundary full (st_spool_start s)"
    and w: "output_window_text s OUTPUT_TAIL_MAX_BYTES (st_spool_start s) = (txt, ts, te)"
  shows "te = int (length full) \<and> settled_boundary full ts \<and> st_spool_start s \<le> ts
    \<and> int (length full) - ts \<le> OUTPUT_TAIL_MAX_BYTES
    \<and> txt = pg_safe_decode (py_slice full ts (int (length full))) \<and> text_size txt \<le> OUTPUT_TAIL_MAX_BYTES
    \<and> (unexpanded full s \<longrightarrow> ts = tail_head full s)"
proof -
  let ?b = "st_spool_start s" and ?n = "int (length full)" and ?M = OUTPUT_TAIL_MAX_BYTES
  have b: "0 \<le> ?b" "?b \<le> ?n" "boundary full ?b" using h by (auto simp: holds_def settled_boundary_def)
  have sz: "int (length (st_data s)) + ?b = ?n" using holds_length [OF h(1)] by simp
  define ph where "ph = ?n - min ?n ?M - ?b"
  define rf where "rf = max 0 (ph - 3)"
  define tail where "tail = read_range s rf (?n - ?b)"
  define al where "al = align_code_point_start tail (ph - rf)"
  define A where "A = ?b + rf + al"
  have rf: "0 \<le> rf" "?b + rf \<le> ?n" using b by (auto simp: rf_def ph_def OUTPUT_TAIL_MAX_BYTES_def)
  have tail: "tail = py_slice full (?b + rf) ?n"
    unfolding tail_def using holds_slice [OF h(1), of "?b + rf" ?n] rf b by (simp add: algebra_simps)
  have lt: "int (length tail) = ?n - ?b - rf" using rf b by (simp add: tail length_py_slice)
  have A: "boundary full A" "?b \<le> A" "A \<le> ?n" "?n - A \<le> ?M" "A = ?b \<or> A + 3 \<le> ?n"
    "A = tail_head full s"
  proof -
    have "boundary full A \<and> ?b \<le> A \<and> A \<le> ?n \<and> ?n - A \<le> ?M \<and> (A = ?b \<or> A + 3 \<le> ?n) \<and> A = tail_head full s"
    proof (cases "0 < ph")
      case False
      then have "rf = 0" "al = 0" by (auto simp: rf_def al_def align_code_point_start_def)
      moreover have "?n - ?M \<le> ?b" using False b by (auto simp: ph_def min_def split: if_splits)
      then have "tail_head full s = ?b"
        using b align_outside [of ?b full] by (simp add: tail_head_def max_absorb1 boundary_def)
      ultimately show ?thesis using b False by (auto simp: A_def ph_def min_def split: if_splits)
    next
      case True
      let ?k = "?b + ph"
      have k: "?k = ?n - ?M" "?M < ?n" using True b by (auto simp: ph_def min_def split: if_splits)
      have "A = align_code_point_start full ?k"
        using align_slice(2) [of "?b + rf" ?n full ?k] True b rf k
        by (auto simp: A_def al_def tail rf_def OUTPUT_TAIL_MAX_BYTES_def algebra_simps max_def split: if_splits)
      then show ?thesis using align_start_spec [of ?k full] True b k
        by (auto simp: boundary_def OUTPUT_TAIL_MAX_BYTES_def tail_head_def max_def)
    qed
    then show "boundary full A" "?b \<le> A" "A \<le> ?n" "?n - A \<le> ?M" "A = ?b \<or> A + 3 \<le> ?n" "A = tail_head full s" by auto
  qed
  have al: "0 \<le> al" using align_start_spec [of "ph - rf" tail] unfolding al_def
    by (cases "0 \<le> ph - rf \<and> ph - rf \<le> int (length tail)") (auto simp: align_code_point_start_def)
  define raw where "raw = py_slice full A ?n"
  have raw: "py_slice tail al (int (length tail)) = raw"
    unfolding raw_def tail using py_slice_slice [of "?b + rf" ?n al "?n - ?b - rf" full] rf b lt A al
    by (auto simp: A_def tail [symmetric])
  have lr: "int (length raw) = ?n - A" using A b by (simp add: raw_def length_py_slice)
  obtain keep t where bs: "bounded_suffix raw ?M = (keep, t)" by fastforce
  have res: "txt = t" "ts = A + keep" "te = ?n"
    using w raw bs unfolding output_window_text_def Let_def sz
    by (auto simp: ph_def [symmetric] rf_def [symmetric] tail_def [symmetric] al_def [symmetric] A_def)
  have sp: "boundary raw keep" "t = pg_safe_decode (py_slice raw keep (int (length raw)))" "text_size t \<le> ?M"
    using bounded_suffix_spec [OF bs] by (auto simp: OUTPUT_TAIL_MAX_BYTES_def)
  have kp: "0 \<le> keep" "keep \<le> ?n - A" using sp(1) lr by (auto simp: boundary_def)
  have "boundary full ts"
    using boundary_slice [of A ?n full "A + keep"] A b kp sp(1) unfolding res raw_def by simp
  moreover have "py_slice raw keep (int (length raw)) = py_slice full ts ?n"
    unfolding raw_def res using py_slice_slice [of A ?n keep "?n - A" full] A b kp lr by (simp add: raw_def)
  moreover have "ts = 0 \<or> ts + 3 \<le> ?n"
  proof (cases "keep = 0")
    case True
    then show ?thesis using A(5) h(2) res by (auto simp: settled_boundary_def)
  next
    case False
    then have "?M < 3 * (?n - ts + 4)" using bounded_suffix_keeps [OF bs] lr res by (auto simp: OUTPUT_TAIL_MAX_BYTES_def)
    then show ?thesis by (simp add: OUTPUT_TAIL_MAX_BYTES_def)
  qed
  moreover have "ts = A" if "unexpanded full s"
    using that bs res A(6) by (auto simp: bounded_suffix_def unexpanded_def raw_def)
  ultimately show ?thesis using res sp A kp by (auto simp: settled_boundary_def)
qed

section \<open>Publishing a stream\<close>

lemma plan_chunks_spec:
  assumes src: "source_ok src" and s: "stream_ok full s"
    and w: "output_window_text s OUTPUT_TAIL_MAX_BYTES (st_spool_start s) = (txt, ts, te)"
  shows "\<exists>av. plan_chunks src s te ts next = Some (Inr av) \<and> st_archived_upto s \<le> av_upto av
    \<and> chain full src (st_sequence s) (st_archived_upto s) (st_last_chunk s) (av_chunks av) (av_upto av)
    \<and> settled_boundary full (av_upto av) \<and> 0 \<le> av_sequence av \<and> av_sequence av \<le> av_upto av
    \<and> (archive_target te < ts \<or> unexpanded full s \<longrightarrow> ts \<le> av_upto av)"
proof -
  have h: "holds full s" "settled_boundary full (st_spool_start s)" "boundary full (st_spool_start s)"
    "int (length full) < 10 ^ 18" using s by (auto simp: stream_ok_def settled_boundary_def)
  have ws: "te = int (length full)" "settled_boundary full ts" "st_spool_start s \<le> ts"
    "int (length full) - ts \<le> OUTPUT_TAIL_MAX_BYTES" "unexpanded full s \<Longrightarrow> ts = tail_head full s"
    using window_spec [OF h(1,2) w] by auto
  let ?t = "archive_target te"
  let ?av = "\<lparr>av_chunks = [], av_upto = st_archived_upto s, av_last = st_last_chunk s,
               av_sequence = st_sequence s, av_next = next\<rparr>"
  have t: "?t \<le> int (length full)"
    using ws(1) by (simp add: archive_target_def OUTPUT_TAIL_MAX_BYTES_def ARCHIVE_MARGIN_CHARS_def)
  have av0: "archive_ok full ?av" "st_spool_start s \<le> av_upto ?av"
    using s by (auto simp: stream_ok_def archive_ok_def settled_boundary_def)
  from archive_full_spec [OF src h(1,3,4) av0 t] obtain av1 where a1: "archive_full src s ?t ?av = Some (Inr av1)"
    "extends full src ?av av1" "archive_ok full av1" "st_archived_upto s \<le> av_upto av1"
    "av_upto av1 \<le> max ?t (st_archived_upto s)" "?t - av_upto av1 < OUTPUT_CHUNK_MAX_BYTES" by auto
  have set1: "settled_boundary full (av_upto av1)"
    using a1(3,5) s ws(1) by (auto simp: settled_boundary_def archive_ok_def stream_ok_def archive_target_def
        OUTPUT_TAIL_MAX_BYTES_def ARCHIVE_MARGIN_CHARS_def max_def split: if_splits)
  have fin: ?thesis if av: "plan_chunks src s te ts next = Some (Inr av)" "extends full src ?av av" "archive_ok full av"
      "settled_boundary full (av_upto av)" "st_archived_upto s \<le> av_upto av" "?t < ts \<or> unexpanded full s \<longrightarrow> ts \<le> av_upto av" for av
    using av by (auto simp: extends_def archive_ok_def intro!: exI [of _ av])
  show ?thesis
  proof (cases "?t < ts")
    case True
    show ?thesis
    proof (cases "av_upto av1 \<le> ts")
      case le: True
      from archive_rest_spec [OF src h(1,3,4) a1(3) _ le] a1(4) av0(2) ws(2)
      obtain av2 where a2: "archive_rest src s ts av1 = Some (Inr av2)" "extends full src av1 av2" "archive_ok full av2"
        "av_upto av2 = ts" by (auto simp: settled_boundary_def)
      show ?thesis
        by (rule fin [of av2]) (use a1 a2 True le ws(2) extends_trans [OF a1(2) a2(2)] in \<open>auto simp: plan_chunks_def Let_def\<close>)
    next
      case False
      then have "archive_rest src s ts av1 = Some (Inr av1)" by (subst archive_rest.simps) auto
      then show ?thesis
        by (intro fin [of av1]) (use a1 True False set1 in \<open>auto simp: plan_chunks_def Let_def\<close>)
    qed
  next
    case False
    have "ts \<le> av_upto av1" if u: "unexpanded full s"
    proof (cases "te \<le> OUTPUT_TAIL_MAX_BYTES")
      case True
      then show ?thesis using False a1(3) by (simp add: archive_target_def archive_ok_def boundary_def)
    next
      case big: False
      let ?k = "max (st_spool_start s) (int (length full) - OUTPUT_TAIL_MAX_BYTES)"
      have "?k \<le> av_upto av1" using a1(4,6) av0(2) big ws(1)
        by (simp add: archive_target_def OUTPUT_CHUNK_MAX_BYTES_def ARCHIVE_MARGIN_CHARS_def)
      moreover have "0 \<le> ?k" "?k \<le> int (length full)" using h(1) big by (auto simp: holds_def OUTPUT_TAIL_MAX_BYTES_def)
      ultimately show ?thesis using align_start_spec [of ?k full] ws(5) [OF u] a1(3)
        by (auto simp: tail_head_def archive_ok_def)
    qed
    then show ?thesis
      by (intro fin [of av1]) (use a1 False set1 in \<open>auto simp: plan_chunks_def Let_def\<close>)
  qed
qed

lemma window_payload_ok:
  assumes "text_size (pg_safe_decode bs) \<le> OUTPUT_TAIL_MAX_BYTES" "0 \<le> a" "a \<le> b" "b - a \<le> OUTPUT_TAIL_MAX_BYTES"
  shows "is_ok (build_output_window_payload (pg_safe_decode bs) a b prev)"
  using assms by (simp add: build_output_window_payload_def decoded_byte_length validate_offsets_def is_ok_def)

lemma window_payload_previous:
  "is_ok (build_output_window_payload t a b prev) = is_ok (build_output_window_payload t a b None)"
proof -
  have "is_ok (ebind m (\<lambda>n. if c n then Raise e else ebind v (\<lambda>_. if w then Raise e' else Ok x)))
      = is_ok (ebind m (\<lambda>n. if c n then Raise e else ebind v (\<lambda>_. if w then Raise e' else Ok y)))"
    for m :: "int res" and v :: "unit res" and c w e e' and x y :: dict
    by (cases m; cases v) (auto simp: is_ok_def)
  then show ?thesis unfolding build_output_window_payload_def .
qed

section \<open>Properties\<close>

text \<open>C36. Archiving is exact and always finishes: for every stream between publications and whatever
  bytes the job wrote, planning ends without an exception, and the planned chunks are, for a reader
  that parses the stored rows, consecutive ranges of the job's output starting where the archive
  stopped, each of at most 2000 bytes, holding exactly the decoded text of its range, numbered in
  order and linked to its predecessor. The live tail is exactly the decoded text of the rest of the
  output from its start, within 4000 bytes.\<close>

theorem plan_archives_exactly:
  assumes "source_ok src" "stream_ok full s"
    and "output_window_text s OUTPUT_TAIL_MAX_BYTES (st_spool_start s) = (txt, ts, te)"
  shows "(\<exists>av. plan_chunks src s te ts next = Some (Inr av)
      \<and> chain full src (st_sequence s) (st_archived_upto s) (st_last_chunk s) (av_chunks av) (av_upto av))
    \<and> te = int (length full) \<and> txt = pg_safe_decode (py_slice full ts te) \<and> text_size txt \<le> OUTPUT_TAIL_MAX_BYTES
    \<and> te - ts \<le> OUTPUT_TAIL_MAX_BYTES \<and> boundary full ts"
proof -
  have h: "holds full s" "settled_boundary full (st_spool_start s)"
    using assms(2) by (auto simp: stream_ok_def)
  show ?thesis using plan_chunks_spec [OF assms] window_spec [OF h assms(3)] by (auto simp: settled_boundary_def)
qed

text \<open>C37. Nothing is lost between archive and tail as long as decoding does not lengthen the tail (all
  of it is valid UTF-8 without NUL, say), or the tail starts past the archive margin: the chunks then
  reach at least to the start of the tail, so that trimming the buffer to the tail, as the worker does
  after the commit, discards only archived bytes and leaves the stream consistent.\<close>

theorem no_gap_before_tail:
  assumes "source_ok src" "stream_ok full s"
    and "output_window_text s OUTPUT_TAIL_MAX_BYTES (st_spool_start s) = (txt, ts, te)"
    and "plan_chunks src s te ts next = Some (Inr av)"
    and "unexpanded full s \<or> archive_target te < ts"
    and "p = \<lparr>pl_size = te, pl_tail_text = txt, pl_tail_start = ts, pl_tail_end = te, pl_archived_upto = av_upto av,
           pl_last_chunk = av_last av, pl_sequence = av_sequence av, pl_chunks = av_chunks av, pl_window = window\<rparr>"
  shows "ts \<le> av_upto av \<and> stream_ok full (trim_published p (apply_plan p now s))"
proof -
  have h: "holds full s" "settled_boundary full (st_spool_start s)"
    using assms(2) by (auto simp: stream_ok_def)
  note ws = window_spec [OF h assms(3)]
  from plan_chunks_spec [OF assms(1-3), of "next"] assms(4,5)
  have pl: "st_archived_upto s \<le> av_upto av" "settled_boundary full (av_upto av)" "0 \<le> av_sequence av"
    "av_sequence av \<le> av_upto av" "ts \<le> av_upto av" by auto
  have "is_ok (build_output_window_payload txt ts te None)"
    using ws window_payload_ok [of "py_slice full ts (int (length full))" ts te None]
    by (auto simp: settled_boundary_def boundary_def)
  moreover have "holds full (trim_published p (apply_plan p now s))"
    using ws h(1) assms(6)
    by (auto simp: trim_published_def apply_plan_def drop_head_def holds_def settled_boundary_def boundary_def Let_def nat_diff_distrib)
  ultimately show ?thesis
    using pl ws h(2) assms(2,6)
    by (auto simp: stream_ok_def tail_ok_def trim_published_def apply_plan_def drop_head_def Let_def)
qed

text \<open>More captured output keeps a stream consistent.\<close>

lemma stream_ok_grows:
  assumes "stream_ok full s" "int (length (full @ extra)) < 10 ^ 18"
  shows "stream_ok (full @ extra) (s\<lparr>st_data := st_data s @ extra\<rparr>)"
  using assms settled_boundary_grows [of full _ extra]
  by (auto simp: stream_ok_def holds_def tail_ok_def)

lemma plan_stream_ok:
  assumes "job_ok out err server job" "name \<in> set OUTPUT_STREAMS"
  shows "\<exists>plan next'. plan_stream job server ids force name next = Some (Inr (plan, next'))"
proof -
  obtain s full where s: "get_stream job name = Inr s" "stream_ok full s"
    using assms by (auto simp: job_ok_def OUTPUT_STREAMS_def get_stream_def)
  let ?src = "\<lparr>cs_job = pj_id job, cs_name = name, cs_server = server, cs_version = pj_version job, cs_ids = ids\<rparr>"
  have src: "source_ok ?src"
    using assms by (auto simp: source_ok_def job_ok_def OUTPUT_STREAMS_def CHUNK_STREAMS_def)
  obtain t0 ts te where w: "output_window_text s OUTPUT_TAIL_MAX_BYTES (st_spool_start s) = (t0, ts, te)"
    by (metis surj_pair)
  from plan_chunks_spec [OF src s(2) w, of "next"] obtain av where av: "plan_chunks ?src s te ts next = Some (Inr av)" by auto
  have h: "holds full s" "settled_boundary full (st_spool_start s)" using s(2) by (auto simp: stream_ok_def)
  have "is_ok (build_output_window_payload t0 ts te (av_last av))"
    using window_spec [OF h w] window_payload_ok [of "py_slice full ts (int (length full))" ts te "av_last av"]
    by (auto simp: settled_boundary_def boundary_def)
  then obtain d where "build_output_window_payload t0 ts te (av_last av) = Inr d" by (auto simp: is_ok_iff)
  then show ?thesis using s(1) w av by (simp add: plan_stream_def Let_def)
qed

lemma plan_streams_ok:
  "job_ok out err server job \<Longrightarrow> set names \<subseteq> set OUTPUT_STREAMS \<Longrightarrow>
   \<exists>plans'. plan_streams job server ids force names next plans = Some (Inr plans')"
proof (induction names arbitrary: "next" plans)
  case (Cons name names)
  from plan_stream_ok [OF Cons.prems(1), of name ids force "next"] Cons.prems(2)
  obtain plan next' where "plan_stream job server ids force name next = Some (Inr (plan, next'))" by auto
  then show ?case using Cons by simp
qed simp

lemma full_windows_ok:
  assumes "job_ok out err server job"
  shows "\<exists>d. full_windows job plans = Inr d"
proof -
  have "is_ok (full_window job plans name)" if n: "name \<in> set OUTPUT_STREAMS" for name
  proof (cases "map_of plans name")
    case None
    obtain s full where s: "get_stream job name = Inr s" "stream_ok full s"
      using assms n by (auto simp: job_ok_def OUTPUT_STREAMS_def get_stream_def)
    then show ?thesis
      using None window_payload_previous [of "st_tail_text s" "st_tail_start s" "st_tail_end s" "st_last_chunk s"]
      by (simp add: full_window_def stream_ok_def tail_ok_def)
  qed (simp add: full_window_def is_ok_def)
  then have "is_ok (full_window job plans (lit ''stdout''))" "is_ok (full_window job plans (lit ''stderr''))"
    by (simp_all add: OUTPUT_STREAMS_def)
  then show ?thesis by (auto simp: full_windows_def is_ok_iff)
qed


section \<open>Lost output\<close>

text \<open>Single-byte output: every offset is a boundary.\<close>

lemma no_leads_boundary:
  assumes "\<forall>b \<in> set data. code_point_length (unat b) = 0" "0 \<le> k" "k \<le> int (length data)"
  shows "boundary data k"
proof -
  have "\<not> code_point_at data a b" for a b
  proof
    assume c: "code_point_at data a b"
    then have "nat a < length data" "b = a + int (code_point_length (byte_at data a))" "a < b"
      using code_point_at_lead [OF c] by (auto simp: code_point_at_def)
    then show False using assms(1) by (simp add: byte_at_def)
  qed
  then show ?thesis using assms by (auto simp: boundary_def inside_def)
qed

lemma decode_mixed: "utf8_decode (mixed x y z) = replicate x 0x61 @ replicate y replacement @ replicate z 0x61"
proof -
  have a: "utf8_decode_nats (replicate z 0x61) = replicate z 0x61" for z
    by (induction z) (simp_all add: utf8_step_def)
  have b: "utf8_decode_nats (replicate y 0xFF @ r) = replicate y replacement @ utf8_decode_nats r" for y r
    by (induction y) (simp_all add: utf8_step_def)
  have c: "utf8_decode_nats (replicate x 0x61 @ r) = replicate x 0x61 @ utf8_decode_nats r" for x r
    by (induction x) (simp_all add: utf8_step_def)
  show ?thesis by (simp add: utf8_decode_def mixed_def a b c)
qed

lemma size_replicate: "text_size (replicate n c) = int n * int (length (utf8_char c))"
  by (induction n) (simp_all add: algebra_simps)

lemma mixed_size: "text_size (pg_safe_decode (mixed x y z)) = int x + 3 * int y + int z"
  by (simp add: pg_safe_decode_def decode_mixed size_replicate utf8_char_def replacement_def map_replicate)

lemma mixed_drop:
  "k \<le> x \<Longrightarrow> drop k (mixed x y z) = mixed (x - k) y z"
  "x \<le> k \<Longrightarrow> k \<le> x + y \<Longrightarrow> drop k (mixed x y z) = mixed 0 (x + y - k) z"
  "x + y \<le> k \<Longrightarrow> drop k (mixed x y z) = mixed 0 0 (z - (k - x - y))"
  by (auto simp: mixed_def drop_append)

lemma mixed_length [simp]: "length (mixed x y z) = x + y + z"
  by (simp add: mixed_def)

lemma mixed_boundary: "0 \<le> k \<Longrightarrow> k \<le> int (x + y + z) \<Longrightarrow> boundary (mixed x y z) k"
  by (rule no_leads_boundary) (auto simp: mixed_def code_point_length_def)

lemma mixed_boundaries: "boundaries 0 (mixed x y z) = [0..int (x + y + z)]"
proof -
  have "align_code_point_end (mixed x y z) k = k" if "0 \<le> k" "k \<le> int (x + y + z)" for k
    using align_end_spec [of k "mixed x y z"] mixed_boundary [OF that] that by simp
  then show ?thesis unfolding boundaries_def by (simp add: filter_id_conv)
qed

lemma upto_nth: "0 \<le> i \<Longrightarrow> i \<le> n \<Longrightarrow> [0..n] ! nat i = i"
  by simp

lemma mixed_suffix: "bounded_suffix (mixed 1000 500 2500) 4000 = (1000, pg_safe_decode (mixed 0 500 2500))"
proof -
  let ?r = "mixed 1000 500 2500"
  let ?good = "\<lambda>k. text_size (pg_safe_decode (py_slice ?r k 4000)) \<le> 4000"
  have sl: "py_slice ?r (int k) 4000 = drop k ?r" for k
    using py_slice_int [of ?r k 4000] by simp
  have bad: "\<not> ?good (int k)" if "k < 1000" for k
    unfolding sl using that by (simp add: mixed_drop mixed_size)
  have good: "?good (int k)" if "1000 \<le> k" "k \<le> 4000" for k
    unfolding sl using that by (cases "k \<le> 1500") (simp_all add: mixed_drop mixed_size)
  have b: "boundaries 0 ?r = [0..4000]" using mixed_boundaries [of 1000 500 2500] by simp
  define keep where "keep = search_suffix ?good [0..4000] 0 4000 4000"
  have "keep = 4000 \<and> ((4000 :: int) < 0 \<or> \<not> ?good ([0..4000] ! nat 4000))
     \<or> (\<exists>i. 0 \<le> i \<and> i \<le> 4000 \<and> keep = [0..4000] ! nat i \<and> (i = 0 \<or> \<not> ?good ([0..4000] ! nat (i - 1))))"
    unfolding keep_def by (rule search_suffix_adjacent) auto
  moreover have "?good 4000" using good [of 4000] by simp
  ultimately obtain i where i: "0 \<le> i" "i \<le> 4000" "keep = i" "i = 0 \<or> \<not> ?good (i - 1)"
    using upto_nth [of 4000 4000] upto_nth by fastforce
  have le: "i \<le> 1000"
  proof (rule ccontr)
    assume "\<not> i \<le> 1000"
    then have n: "1000 \<le> nat (i - 1)" "nat (i - 1) \<le> 4000" "int (nat (i - 1)) = i - 1" "i \<noteq> 0" using i by linarith+
    show False using good [OF n(1,2)] i(4) n(3,4) by simp
  qed
  have "?good keep"
  proof -
    have "keep = 4000 \<or> (\<exists>i. 0 \<le> i \<and> i \<le> 4000 \<and> keep = [0..4000] ! nat i \<and> ?good ([0..4000] ! nat i))"
      unfolding keep_def by (rule search_suffix_spec)
    then show ?thesis using \<open>?good 4000\<close> by auto
  qed
  then have "1000 \<le> i" using bad [of "nat i"] i by (cases "1000 \<le> i") (auto simp: nat_less_iff)
  then have k: "keep = 1000" using le i by simp
  have "\<not> text_size (pg_safe_decode ?r) \<le> 4000" by (simp add: mixed_size)
  moreover have "py_slice ?r 1000 4000 = mixed 0 500 2500" using sl [of 1000] by (simp add: mixed_drop)
  ultimately show ?thesis using k unfolding keep_def
    by (simp add: bounded_suffix_def Let_def b)
qed

text \<open>The archive can lose output. A job that printed 2999 ASCII bytes, 500 bytes that are not
  UTF-8 and 2500 ASCII bytes has a consistent stream; its tail starts at 2999, because the replaced
  bytes do not fit earlier, but below the archive target 3999, and the chunks end at 2000. The 999
  bytes between are in no chunk and not in the tail, and the trim after the commit discards them.\<close>

theorem publication_gap:
  assumes "source_ok src"
  shows "stream_ok (mixed 2999 500 2500) gap_stream
    \<and> (\<exists>txt av. output_window_text gap_stream OUTPUT_TAIL_MAX_BYTES (st_spool_start gap_stream) = (txt, 2999, 5999)
        \<and> plan_chunks src gap_stream 5999 2999 0 = Some (Inr av) \<and> av_upto av = 2000
        \<and> (\<forall>p now. pl_tail_start p = 2999 \<longrightarrow>
             st_data (trim_published p (apply_plan p now gap_stream)) = drop 2999 (mixed 2999 500 2500)))"
proof -
  let ?f = "mixed 2999 500 2500"
  have ok: "stream_ok ?f gap_stream"
    by (simp add: stream_ok_def gap_stream_def new_stream_def holds_def settled_boundary_def tail_ok_def is_ok_def
        build_output_window_payload_def utf8_byte_length_def utf8_encode_def validate_offsets_def OUTPUT_TAIL_MAX_BYTES_def)
  have al: "align_code_point_start ?f k = k" "align_code_point_end ?f k = k" if "0 \<le> k" "k \<le> 5999" for k
    using align_outside [of k ?f] mixed_boundary [of k 2999 500 2500] that by (auto simp: boundary_def)
  have h: "holds ?f gap_stream" "settled_boundary ?f (st_spool_start gap_stream)" "boundary ?f (st_spool_start gap_stream)"
    "int (length ?f) < 10 ^ 18" using ok by (auto simp: stream_ok_def settled_boundary_def)
  obtain t0 ts te where w: "output_window_text gap_stream OUTPUT_TAIL_MAX_BYTES (st_spool_start gap_stream) = (t0, ts, te)"
    by (metis surj_pair)
  have raw: "py_slice (drop 1996 ?f) 3 4003 = mixed 1000 500 2500"
    using py_slice_int [of "drop 1996 ?f" 3 4003] by (simp add: mixed_drop)
  have tail: "read_range gap_stream 1996 5999 = drop 1996 ?f"
    using py_slice_int [of ?f 1996 5999] by (simp add: read_range_def gap_stream_def)
  have "align_code_point_start (drop 1996 ?f) 3 = 3"
    using align_outside [of 3 "mixed 1003 500 2500"] mixed_boundary [of 3 1003 500 2500] by (simp add: mixed_drop boundary_def)
  then have ts: "ts = 2999" "te = 5999"
    using w tail raw mixed_suffix
    by (auto simp: output_window_text_def Let_def gap_stream_def new_stream_def OUTPUT_TAIL_MAX_BYTES_def)
  define av0 where "av0 = \<lparr>av_chunks = [], av_upto = 0, av_last = None, av_sequence = 0, av_next = 0\<rparr>"
  have t: "archive_target 5999 = 3999" by (simp add: archive_target_def OUTPUT_TAIL_MAX_BYTES_def ARCHIVE_MARGIN_CHARS_def)
  have sp: "st_spool_start gap_stream = 0" by (simp add: gap_stream_def new_stream_def)
  have "archive_ok ?f av0" by (simp add: archive_ok_def av0_def)
  from archive_step_spec [OF assms h(1,3,4) this, of 2000] al [of 2000]
  obtain av where av: "archive_step src gap_stream 2000 av0 = Inr av" "av_upto av = 2000"
  proof -
    have "py_slice ?f 0 2000 = mixed 2000 0 0"
      using py_slice_int [of ?f 0 2000] by (simp add: mixed_def)
    then have "text_size (pg_safe_decode (py_slice ?f (av_upto av0) (align_code_point_end ?f 2000))) \<le> OUTPUT_CHUNK_MAX_BYTES"
      using al [of 2000] by (simp add: mixed_size av0_def OUTPUT_CHUNK_MAX_BYTES_def)
    then show ?thesis
      using that archive_step_spec [OF assms h(1,3,4) \<open>archive_ok ?f av0\<close>, of 2000] al [of 2000] sp
      by (auto simp: av0_def)
  qed
  have "archive_full src gap_stream 3999 av0 = archive_full src gap_stream 3999 av"
    using av sp by (subst archive_full.simps) (simp add: OUTPUT_CHUNK_MAX_BYTES_def, simp add: av0_def)
  also have "\<dots> = Some (Inr av)" using av(2) by (subst archive_full.simps) (simp add: OUTPUT_CHUNK_MAX_BYTES_def)
  finally have "plan_chunks src gap_stream 5999 2999 0 = Some (Inr av)"
    by (simp add: plan_chunks_def t av0_def gap_stream_def new_stream_def)
  then show ?thesis using ok w ts av(2)
    by (auto simp: trim_published_def apply_plan_def drop_head_def gap_stream_def new_stream_def Let_def)
qed

section \<open>Witnesses\<close>

lemma sample_source_ok: "source_ok sample_source"
  by (simp add: source_ok_def sample_source_def CHUNK_STREAMS_def parse_server_def)

lemma new_stream_ok: "stream_ok [] (new_stream 3)"
  by (simp add: stream_ok_def new_stream_def holds_def settled_boundary_def tail_ok_def is_ok_def
      build_output_window_payload_def utf8_byte_length_def utf8_encode_def validate_offsets_def OUTPUT_TAIL_MAX_BYTES_def
      boundary_ends(1) [of "[]", simplified])

theorem publication_gap_witness:
  "source_ok sample_source \<and> (\<exists>av. plan_chunks sample_source gap_stream 5999 2999 0 = Some (Inr av) \<and> av_upto av = 2000)"
  using publication_gap [OF sample_source_ok] sample_source_ok by auto

theorem plan_archives_exactly_witness:
  "\<exists>t ts te av. output_window_text gap_stream OUTPUT_TAIL_MAX_BYTES (st_spool_start gap_stream) = (t, ts, te)
     \<and> plan_chunks sample_source gap_stream te ts 0 = Some (Inr av)
     \<and> chain (mixed 2999 500 2500) sample_source 0 0 None (av_chunks av) (av_upto av)"
proof -
  have "stream_ok (mixed 2999 500 2500) gap_stream"
    using stream_ok_grows [OF new_stream_ok, of "mixed 2999 500 2500"] by (simp add: gap_stream_def new_stream_def)
  moreover obtain t ts te where "output_window_text gap_stream OUTPUT_TAIL_MAX_BYTES (st_spool_start gap_stream) = (t, ts, te)"
    by (metis surj_pair)
  ultimately show ?thesis
    using plan_archives_exactly [OF sample_source_ok] by (fastforce simp: gap_stream_def new_stream_def)
qed

theorem no_gap_before_tail_witness:
  "\<exists>t ts te av. output_window_text (new_stream 3) OUTPUT_TAIL_MAX_BYTES 0 = (t, ts, te)
     \<and> plan_chunks sample_source (new_stream 3) te ts 0 = Some (Inr av) \<and> ts \<le> av_upto av"
proof -
  obtain t ts te where w: "output_window_text (new_stream 3) OUTPUT_TAIL_MAX_BYTES (st_spool_start (new_stream 3)) = (t, ts, te)"
    by (metis surj_pair)
  obtain av where av: "plan_chunks sample_source (new_stream 3) te ts 0 = Some (Inr av)"
    using plan_chunks_spec [OF sample_source_ok new_stream_ok w, of 0] by auto
  have u: "unexpanded [] (new_stream 3)"
    by (simp add: unexpanded_def tail_head_def py_slice_def slice_index_def OUTPUT_TAIL_MAX_BYTES_def)
  show ?thesis
    using no_gap_before_tail [OF sample_source_ok new_stream_ok w av _ refl] u w av by (fastforce simp: new_stream_def)
qed


end
