(* ===== verification/JobTimes.thy ===== *)
theory JobTimes
  imports PyJson
begin

text \<open>
  The timestamps of the job documents: the pattern \<open>GC_FINISHED_AT_PATTERN\<close> of
  \<open>worker.py\<close>, which guards lease expiry, cancellation markers and retention, and what it
  means as a calendar.
\<close>

section \<open>The pattern\<close>

definition in_class :: "string \<Rightarrow> nat \<Rightarrow> bool" where
  "in_class cs c \<longleftrightarrow> c \<in> set (lit cs)"

definition two_of :: "(string \<times> string) list \<Rightarrow> nat \<Rightarrow> nat \<Rightarrow> bool" where
  "two_of alternatives a b \<longleftrightarrow> (\<exists>(x, y) \<in> set alternatives. in_class x a \<and> in_class y b)"

definition month_31 :: "nat \<Rightarrow> nat \<Rightarrow> bool" where
  "month_31 = two_of [(''0'', ''13578''), (''1'', ''02'')]"

definition month_30 :: "nat \<Rightarrow> nat \<Rightarrow> bool" where
  "month_30 = two_of [(''0'', ''469''), (''1'', ''1'')]"

definition month_02 :: "nat \<Rightarrow> nat \<Rightarrow> bool" where
  "month_02 = two_of [(''0'', ''2'')]"

definition day_31 :: "nat \<Rightarrow> nat \<Rightarrow> bool" where
  "day_31 = two_of [(''0'', ''123456789''), (''12'', ''0123456789''), (''3'', ''01'')]"

definition day_30 :: "nat \<Rightarrow> nat \<Rightarrow> bool" where
  "day_30 = two_of [(''0'', ''123456789''), (''12'', ''0123456789''), (''3'', ''0'')]"

definition day_28 :: "nat \<Rightarrow> nat \<Rightarrow> bool" where
  "day_28 = two_of [(''0'', ''123456789''), (''1'', ''0123456789''), (''2'', ''012345678'')]"

definition day_29 :: "nat \<Rightarrow> nat \<Rightarrow> bool" where
  "day_29 = two_of [(''2'', ''9'')]"

text \<open>The last two digits of a leap year that is not a century, and the first two of a leap century.\<close>

definition leap_tail :: "nat \<Rightarrow> nat \<Rightarrow> bool" where
  "leap_tail = two_of [(''0'', ''48''), (''2468'', ''048''), (''13579'', ''26'')]"

definition leap_head :: "nat \<Rightarrow> nat \<Rightarrow> bool" where
  "leap_head = two_of [(''02468'', ''048''), (''13579'', ''26'')]"

definition hour_ok :: "nat \<Rightarrow> nat \<Rightarrow> bool" where
  "hour_ok = two_of [(''01'', ''0123456789''), (''2'', ''0123'')]"

definition sixty_ok :: "nat \<Rightarrow> nat \<Rightarrow> bool" where
  "sixty_ok = two_of [(''012345'', ''0123456789'')]"

fun matches_timestamp :: "pystr \<Rightarrow> bool" where
  "matches_timestamp [y1, y2, y3, y4, h1, m1, m2, h2, d1, d2, tt, hh1, hh2, c1, mi1, mi2, c2, s1, s2, dot,
      f1, f2, f3, f4, f5, f6, z] \<longleftrightarrow>
    is_digit y1 \<and> is_digit y2 \<and> is_digit y3 \<and> is_digit y4 \<and> h1 = 45 \<and> h2 = 45 \<and>
    (month_31 m1 m2 \<and> day_31 d1 d2 \<or> month_30 m1 m2 \<and> day_30 d1 d2 \<or> month_02 m1 m2 \<and> day_28 d1 d2 \<or>
     (leap_tail y3 y4 \<or> leap_head y1 y2 \<and> y3 = 48 \<and> y4 = 48) \<and> month_02 m1 m2 \<and> day_29 d1 d2) \<and>
    tt = 84 \<and> hour_ok hh1 hh2 \<and> c1 = 58 \<and> sixty_ok mi1 mi2 \<and> c2 = 58 \<and> sixty_ok s1 s2 \<and> dot = 46 \<and>
    is_digit f1 \<and> is_digit f2 \<and> is_digit f3 \<and> is_digit f4 \<and> is_digit f5 \<and> is_digit f6 \<and> z = 90"
| "matches_timestamp _ \<longleftrightarrow> False"

text \<open>The guard of the queries: a string that matches and whose year is not 0000.\<close>

definition canonical_timestamp :: "json option \<Rightarrow> bool" where
  "canonical_timestamp v = (case v of
      Some (JStr s) \<Rightarrow> matches_timestamp s \<and> take 4 s \<noteq> lit ''0000''
    | _ \<Rightarrow> False)"


section \<open>Specification vocabulary\<close>

definition leap_year :: "nat \<Rightarrow> bool" where
  "leap_year y \<longleftrightarrow> y mod 4 = 0 \<and> (y mod 100 \<noteq> 0 \<or> y mod 400 = 0)"

definition days_in_month :: "nat \<Rightarrow> nat \<Rightarrow> nat" where
  "days_in_month y m = (if m = 2 then (if leap_year y then 29 else 28) else if m \<in> {4, 6, 9, 11} then 30 else 31)"

definition two_digits :: "nat \<Rightarrow> nat \<Rightarrow> nat" where
  "two_digits a b = (a - 48) * 10 + (b - 48)"

definition iso_shape :: "pystr \<Rightarrow> bool" where
  "iso_shape s \<longleftrightarrow> length s = 27 \<and> s ! 4 = 45 \<and> s ! 7 = 45 \<and> s ! 10 = 84 \<and> s ! 13 = 58 \<and> s ! 16 = 58 \<and>
     s ! 19 = 46 \<and> s ! 26 = 90 \<and>
     list_all is_digit [s ! 0, s ! 1, s ! 2, s ! 3, s ! 5, s ! 6, s ! 8, s ! 9, s ! 11, s ! 12, s ! 14, s ! 15,
       s ! 17, s ! 18, s ! 20, s ! 21, s ! 22, s ! 23, s ! 24, s ! 25]"

definition iso_instant :: "pystr \<Rightarrow> bool" where
  "iso_instant s \<longleftrightarrow> iso_shape s \<and>
    (let year = 100 * two_digits (s ! 0) (s ! 1) + two_digits (s ! 2) (s ! 3);
         month = two_digits (s ! 5) (s ! 6); day = two_digits (s ! 8) (s ! 9)
     in 1 \<le> month \<and> month \<le> 12 \<and> 1 \<le> day \<and> day \<le> days_in_month year month \<and>
        two_digits (s ! 11) (s ! 12) < 24 \<and> two_digits (s ! 14) (s ! 15) < 60 \<and> two_digits (s ! 17) (s ! 18) < 60)"

text \<open>A pair of character classes is decided on the hundred pairs of digits.\<close>

definition decides :: "(string \<times> string) list \<Rightarrow> (nat \<Rightarrow> bool) \<Rightarrow> bool" where
  "decides alts P \<longleftrightarrow>
    list_all (\<lambda>(x, y). list_all is_digit (lit x) \<and> list_all is_digit (lit y)) alts \<and>
    list_all (\<lambda>a. list_all (\<lambda>b. two_of alts a b = P (two_digits a b)) [48..<58]) [48..<58]"

section \<open>The calendar\<close>

lemma digit_range: "is_digit c \<longleftrightarrow> c \<in> set [48..<58]"
  by (simp only: set_upt atLeastLessThan_iff is_digit_def) arith

lemma two_of_iff:
  assumes "decides alts P"
  shows "two_of alts a b \<longleftrightarrow> is_digit a \<and> is_digit b \<and> P (two_digits a b)"
proof (cases "is_digit a \<and> is_digit b")
  case True
  then have d: "a \<in> set [48..<58]" "b \<in> set [48..<58]" using digit_range by metis+
  have "\<forall>a \<in> set [48..<58]. \<forall>b \<in> set [48..<58]. two_of alts a b = P (two_digits a b)"
    using assms unfolding decides_def list_all_iff by (rule conjunct2)
  with d have "two_of alts a b = P (two_digits a b)" by (meson bspec)
  with True show ?thesis by simp
next
  case False
  have "list_all (\<lambda>(x, y). list_all is_digit (lit x) \<and> list_all is_digit (lit y)) alts"
    using assms unfolding decides_def by (rule conjunct1)
  with False show ?thesis
    by (auto simp: two_of_def in_class_def list_all_iff)
qed

lemma class_facts:
  "month_31 a b \<longleftrightarrow> is_digit a \<and> is_digit b \<and> two_digits a b \<in> {1, 3, 5, 7, 8, 10, 12}"
  "month_30 a b \<longleftrightarrow> is_digit a \<and> is_digit b \<and> two_digits a b \<in> {4, 6, 9, 11}"
  "month_02 a b \<longleftrightarrow> is_digit a \<and> is_digit b \<and> two_digits a b = 2"
  "day_31 a b \<longleftrightarrow> is_digit a \<and> is_digit b \<and> 1 \<le> two_digits a b \<and> two_digits a b \<le> 31"
  "day_30 a b \<longleftrightarrow> is_digit a \<and> is_digit b \<and> 1 \<le> two_digits a b \<and> two_digits a b \<le> 30"
  "day_28 a b \<longleftrightarrow> is_digit a \<and> is_digit b \<and> 1 \<le> two_digits a b \<and> two_digits a b \<le> 28"
  "day_29 a b \<longleftrightarrow> is_digit a \<and> is_digit b \<and> two_digits a b = 29"
  "leap_tail a b \<longleftrightarrow> is_digit a \<and> is_digit b \<and> two_digits a b mod 4 = 0 \<and> two_digits a b \<noteq> 0"
  "leap_head a b \<longleftrightarrow> is_digit a \<and> is_digit b \<and> two_digits a b mod 4 = 0"
  "hour_ok a b \<longleftrightarrow> is_digit a \<and> is_digit b \<and> two_digits a b < 24"
  "sixty_ok a b \<longleftrightarrow> is_digit a \<and> is_digit b \<and> two_digits a b < 60"
  unfolding month_31_def month_30_def month_02_def day_31_def day_30_def day_28_def day_29_def
    leap_tail_def leap_head_def hour_ok_def sixty_ok_def
  by (rule two_of_iff; code_simp)+

lemma leap_year_digits:
  assumes "q < 100"
  shows "leap_year (100 * p + q) \<longleftrightarrow> (q mod 4 = 0 \<and> q \<noteq> 0 \<or> p mod 4 = 0 \<and> q = 0)"
proof -
  have "(100 * p + q) mod 4 = q mod 4" by presburger
  moreover have "(100 * p + q) mod 100 = q" using assms by simp
  moreover have "(100 * p) mod 400 = 0 \<longleftrightarrow> p mod 4 = 0" by presburger
  ultimately show ?thesis by (cases "q = 0") (auto simp: leap_year_def)
qed

lemma two_digits_less: "is_digit a \<Longrightarrow> is_digit b \<Longrightarrow> two_digits a b < 100"
  by (auto simp: two_digits_def is_digit_def)

lemma two_digits_zero: "is_digit a \<Longrightarrow> is_digit b \<Longrightarrow> two_digits a b = 0 \<longleftrightarrow> a = 48 \<and> b = 48"
  by (auto simp: two_digits_def is_digit_def)

text \<open>The date alternatives of the pattern are the dates of the calendar.\<close>

lemma date_alternatives:
  fixes m d p q :: nat
  assumes "q < 100"
  shows "(m \<in> {1, 3, 5, 7, 8, 10, 12} \<and> 1 \<le> d \<and> d \<le> 31 \<or> m \<in> {4, 6, 9, 11} \<and> 1 \<le> d \<and> d \<le> 30 \<or>
      m = 2 \<and> 1 \<le> d \<and> d \<le> 28 \<or> (q mod 4 = 0 \<and> q \<noteq> 0 \<or> p mod 4 = 0 \<and> q = 0) \<and> m = 2 \<and> d = 29) \<longleftrightarrow>
    1 \<le> m \<and> m \<le> 12 \<and> 1 \<le> d \<and> d \<le> days_in_month (100 * p + q) m"
proof (cases "m \<in> set [1..<13]")
  case True
  then have "m = 1 \<or> m = 2 \<or> m = 3 \<or> m = 4 \<or> m = 5 \<or> m = 6 \<or> m = 7 \<or> m = 8 \<or> m = 9 \<or> m = 10 \<or> m = 11 \<or> m = 12"
    by (simp only: set_upt atLeastLessThan_iff) arith
  then show ?thesis
    by (elim disjE) (auto simp: days_in_month_def leap_year_digits [OF assms])
next
  case False
  then have "m = 0 \<or> m > 12" by (simp only: set_upt atLeastLessThan_iff) arith
  then show ?thesis by auto
qed

lemma matches_timestamp_length: "matches_timestamp s \<Longrightarrow> length s = 27"
  by (cases s rule: matches_timestamp.cases) simp_all

text \<open>The timestamp pattern accepts exactly the instants of the calendar in the stored format:
  four-digit year, month and day that exist in that year of the Gregorian calendar, 24 hour clock,
  six fractional digits and the letter Z.\<close>

theorem timestamp_pattern_is_calendar: "matches_timestamp s \<longleftrightarrow> iso_instant s"
proof (cases "length s = 27")
  case True
  then obtain y1 y2 y3 y4 h1 m1 m2 h2 d1 d2 tt hh1 hh2 c1 mi1 mi2 c2 s1 s2 dot f1 f2 f3 f4 f5 f6 z
    where s: "s = [y1, y2, y3, y4, h1, m1, m2, h2, d1, d2, tt, hh1, hh2, c1, mi1, mi2, c2, s1, s2, dot,
      f1, f2, f3, f4, f5, f6, z]"
    by (auto simp: numeral_eq_Suc length_Suc_conv)
  show ?thesis
  proof (cases "list_all is_digit [y1, y2, y3, y4, m1, m2, d1, d2]")
    case True
    then have "two_digits y3 y4 < 100" "y3 = 48 \<and> y4 = 48 \<longleftrightarrow> two_digits y3 y4 = 0"
      by (simp_all add: two_digits_less two_digits_zero)
    with True date_alternatives [of "two_digits y3 y4" "two_digits m1 m2" "two_digits d1 d2" "two_digits y1 y2"]
    show ?thesis
      unfolding s matches_timestamp.simps class_facts iso_instant_def iso_shape_def Let_def
      by simp blast
  next
    case False
    then show ?thesis
      unfolding s matches_timestamp.simps class_facts iso_instant_def iso_shape_def
      by auto
  qed
next
  case False
  then show ?thesis
    using matches_timestamp_length by (auto simp: iso_instant_def iso_shape_def)
qed

end
