(* ===== verification/ProcTable.thy ===== *)
theory ProcTable
  imports PyJson "HOL-Library.State_Monad"
begin

text \<open>
  The process table as the lifecycle code sees it: the parsing of \<open>/proc/<pid>/stat\<close> from
  \<open>_exact_signal.py\<close>, group membership from \<open>_process_group.py\<close>, and signalling
  through a pinned process.

  The kernel is a parameter. It is a history: for every instant, which process occupies a process
  id, what its \<open>stat\<close> and \<open>environ\<close> files contain, what a listing of \<open>/proc\<close>
  returns. Each observation the code makes reads the history at the current instant and moves to
  the next one, so anything may happen between two observations: exits, forks, and the reuse of a
  process id by an unrelated process. The effect of a signal on its target is part of the history.
\<close>

section \<open>The kernel\<close>

text \<open>A process: its identity over the whole boot, and its two readable files.\<close>

record Proc =
  pr_id :: nat
  pr_stat :: "pybytes option"
  pr_environ :: "pybytes option"

text \<open>
  \<open>k_listing\<close> is \<open>None\<close> where \<open>/proc\<close> is not a directory. \<open>k_pin_error\<close>
  and \<open>k_send_error\<close> are failures of the two system calls for other reasons than the
  absence of the process; the clock counts in the unit of the grace periods.
\<close>

record Kernel =
  k_procs :: "nat \<Rightarrow> int \<Rightarrow> Proc option"
  k_listing :: "nat \<Rightarrow> pystr list option"
  k_pin_error :: "nat \<Rightarrow> bool"
  k_send_error :: "nat \<Rightarrow> bool"
  k_monotonic :: "nat \<Rightarrow> int"

text \<open>The state of a run: the instant, and the signals delivered (process, process id, signal).\<close>

record World =
  w_now :: nat
  w_sent :: "(nat \<times> int \<times> int) list"

type_synonym 'a act = "(World, 'a) state"

definition observe :: "(nat \<Rightarrow> 'a) \<Rightarrow> 'a act" where
  "observe f = State (\<lambda>w. (f (w_now w), w\<lparr>w_now := Suc (w_now w)\<rparr>))"

definition monotonic :: "Kernel \<Rightarrow> int act" where
  "monotonic K = observe (k_monotonic K)"

section \<open>Parsing the stat file\<close>

definition STAT_MIN_FIELDS :: nat where "STAT_MIN_FIELDS = 20"
definition STAT_STATE_FIELD_INDEX :: nat where "STAT_STATE_FIELD_INDEX = 0"
definition STAT_PPID_FIELD_INDEX :: nat where "STAT_PPID_FIELD_INDEX = 1"
definition STAT_PGRP_FIELD_INDEX :: nat where "STAT_PGRP_FIELD_INDEX = 2"
definition STAT_STARTTIME_FIELD_INDEX :: nat where "STAT_STARTTIME_FIELD_INDEX = 19"

text \<open>The white space of \<open>bytes.split()\<close>, and the split itself.\<close>

definition byte_space :: "8 word \<Rightarrow> bool" where
  "byte_space b \<longleftrightarrow> unat b \<in> {9, 10, 11, 12, 13, 32}"

function split_ws :: "pybytes \<Rightarrow> pybytes list" where
  "split_ws bs = (case dropWhile byte_space bs of
      [] \<Rightarrow> []
    | b # r \<Rightarrow> (b # takeWhile (\<lambda>x. \<not> byte_space x) r) # split_ws (dropWhile (\<lambda>x. \<not> byte_space x) r))"
  by pat_completeness auto
termination
proof (relation "measure length", simp)
  fix bs r :: pybytes and b
  assume "dropWhile byte_space bs = b # r"
  then have "length (b # r) \<le> length bs"
    by (metis dropWhile_length_le)
  with dropWhile_length_le [of "\<lambda>x. \<not> byte_space x" r]
  show "(dropWhile (\<lambda>x. \<not> byte_space x) r, bs) \<in> measure length" by simp
qed

declare split_ws.simps [simp del]

text \<open>\<open>stat.rfind(b")")\<close>.\<close>

fun rfind_byte :: "8 word \<Rightarrow> pybytes \<Rightarrow> nat option" where
  "rfind_byte c [] = None"
| "rfind_byte c (b # bs) = (case rfind_byte c bs of
      Some i \<Rightarrow> Some (Suc i)
    | None \<Rightarrow> if b = c then Some 0 else None)"

definition split_stat_fields :: "pybytes \<Rightarrow> pybytes list option" where
  "split_stat_fields stat = (case rfind_byte 41 stat of
      None \<Rightarrow> None
    | Some close_paren \<Rightarrow>
        let flds = split_ws (drop (close_paren + 2) stat) in
        if length flds < STAT_MIN_FIELDS then None else Some flds)"

text \<open>
  \<open>int\<close> of a byte string without white space: an optional sign, decimal digits with single
  underscores between them, at most \<open>max_str_digits\<close> digits; \<open>None\<close> is the
  \<open>ValueError\<close> every caller catches.
\<close>

fun int_digits :: "bool \<Rightarrow> nat list \<Rightarrow> nat list option" where
  "int_digits after [] = (if after then Some [] else None)"
| "int_digits after (c # cs) =
    (if is_digit c then map_option (Cons c) (int_digits True cs)
     else if c = 95 \<and> after then int_digits False cs
     else None)"

definition int_of_digits :: "nat list \<Rightarrow> int option" where
  "int_of_digits cs = (case int_digits False cs of
      None \<Rightarrow> None
    | Some ds \<Rightarrow> if length ds > max_str_digits then None else Some (digits_val ds))"

definition py_int :: "pybytes \<Rightarrow> int option" where
  "py_int bs = (case map unat bs of
      [] \<Rightarrow> None
    | c # cs \<Rightarrow>
        if c = 45 then map_option uminus (int_of_digits cs)
        else if c = 43 then int_of_digits cs
        else int_of_digits (c # cs))"

definition ascii_decode :: "pybytes \<Rightarrow> pystr" where
  "ascii_decode bs = map (\<lambda>b. if unat b < 128 then unat b else replacement) bs"

definition stat_start_ticks :: "pybytes \<Rightarrow> int option" where
  "stat_start_ticks stat =
    Option.bind (split_stat_fields stat) (\<lambda>flds. py_int (flds ! STAT_STARTTIME_FIELD_INDEX))"

definition stat_state :: "pybytes \<Rightarrow> pystr option" where
  "stat_state stat =
    map_option (\<lambda>flds. ascii_decode (flds ! STAT_STATE_FIELD_INDEX)) (split_stat_fields stat)"

definition dead_states :: "pystr list" where
  "dead_states = [lit ''Z'', lit ''X'']"

definition stat_pgrp :: "pybytes \<Rightarrow> int option" where
  "stat_pgrp stat = (case split_stat_fields stat of
      None \<Rightarrow> None
    | Some flds \<Rightarrow>
        if ascii_decode (flds ! STAT_STATE_FIELD_INDEX) \<in> set dead_states then None
        else py_int (flds ! STAT_PGRP_FIELD_INDEX))"

section \<open>Observations\<close>

definition read_proc_stat :: "Kernel \<Rightarrow> int \<Rightarrow> pybytes option act" where
  "read_proc_stat K pid = observe (\<lambda>t. Option.bind (k_procs K t pid) pr_stat)"

definition proc_start_ticks :: "Kernel \<Rightarrow> int \<Rightarrow> int option act" where
  "proc_start_ticks K pid = do {
     stat \<leftarrow> read_proc_stat K pid;
     State_Monad.return (Option.bind stat stat_start_ticks) }"

definition process_state_char :: "Kernel \<Rightarrow> int \<Rightarrow> pystr option act" where
  "process_state_char K pid = do {
     stat \<leftarrow> read_proc_stat K pid;
     State_Monad.return (Option.bind stat stat_state) }"

definition process_is_zombie :: "Kernel \<Rightarrow> int \<Rightarrow> bool act" where
  "process_is_zombie K pid = do {
     state \<leftarrow> process_state_char K pid;
     State_Monad.return (case state of None \<Rightarrow> True | Some c \<Rightarrow> c \<in> set dead_states) }"

definition process_ppid :: "Kernel \<Rightarrow> int \<Rightarrow> int option act" where
  "process_ppid K pid = do {
     stat \<leftarrow> read_proc_stat K pid;
     State_Monad.return (Option.bind (Option.bind stat split_stat_fields)
       (\<lambda>flds. py_int (flds ! STAT_PPID_FIELD_INDEX))) }"

definition process_pgrp :: "Kernel \<Rightarrow> int \<Rightarrow> int option act" where
  "process_pgrp K pid = do {
     stat \<leftarrow> read_proc_stat K pid;
     State_Monad.return (Option.bind stat stat_pgrp) }"

text \<open>
  A name in \<open>/proc\<close> that is a process id. The names there are ASCII, where
  \<open>str.isdigit\<close> accepts exactly the decimal digits.
\<close>

definition pid_of_name :: "pystr \<Rightarrow> int option" where
  "pid_of_name name = (if name \<noteq> [] \<and> (\<forall>c \<in> set name. is_digit c) then Some (digits_val name) else None)"

fun any_in_group :: "Kernel \<Rightarrow> int \<Rightarrow> pystr list \<Rightarrow> bool act" where
  "any_in_group K pgid [] = State_Monad.return False"
| "any_in_group K pgid (name # names) = (case pid_of_name name of
      None \<Rightarrow> any_in_group K pgid names
    | Some pid \<Rightarrow> do {
        pgrp \<leftarrow> process_pgrp K pid;
        if pgrp = Some pgid then State_Monad.return True else any_in_group K pgid names })"

definition pid_exists :: "Kernel \<Rightarrow> int \<Rightarrow> bool act" where
  "pid_exists K pid = observe (\<lambda>t. k_procs K t pid \<noteq> None)"

definition group_has_members :: "Kernel \<Rightarrow> int \<Rightarrow> bool act" where
  "group_has_members K pgid = do {
     listing \<leftarrow> observe (k_listing K);
     case listing of Some names \<Rightarrow> any_in_group K pgid names | None \<Rightarrow> pid_exists K pgid }"

fun all_in_group :: "Kernel \<Rightarrow> int \<Rightarrow> pystr list \<Rightarrow> int list act" where
  "all_in_group K pgid [] = State_Monad.return []"
| "all_in_group K pgid (name # names) = (case pid_of_name name of
      None \<Rightarrow> all_in_group K pgid names
    | Some pid \<Rightarrow> do {
        pgrp \<leftarrow> process_pgrp K pid;
        pids \<leftarrow> all_in_group K pgid names;
        State_Monad.return (if pgrp = Some pgid then pid # pids else pids) })"

definition group_member_pids :: "Kernel \<Rightarrow> int \<Rightarrow> int list act" where
  "group_member_pids K pgid = do {
     listing \<leftarrow> observe (k_listing K);
     case listing of
       Some names \<Rightarrow> all_in_group K pgid names
     | None \<Rightarrow> do {
         alive \<leftarrow> pid_exists K pgid;
         State_Monad.return (if alive then [pgid] else []) } }"

text \<open>
  The pinned process: \<open>pidfd_open\<close> holds on to the process that occupies the process id at
  that instant, and \<open>pidfd_send_signal\<close> reaches that process or nothing.
\<close>

definition open_pidfd :: "Kernel \<Rightarrow> int \<Rightarrow> nat option act" where
  "open_pidfd K pid =
    observe (\<lambda>t. if k_pin_error K t then None else map_option pr_id (k_procs K t pid))"

definition pidfd_send_signal :: "Kernel \<Rightarrow> int \<Rightarrow> nat \<Rightarrow> int \<Rightarrow> bool act" where
  "pidfd_send_signal K pid pidfd sig = State (\<lambda>w.
    if \<not> k_send_error K (w_now w) \<and> map_option pr_id (k_procs K (w_now w) pid) = Some pidfd
    then (True, w\<lparr>w_now := Suc (w_now w), w_sent := w_sent w @ [(pidfd, pid, sig)]\<rparr>)
    else (False, w\<lparr>w_now := Suc (w_now w)\<rparr>))"

definition JOB_ID_ENV :: pybytes where
  "JOB_ID_ENV = map of_nat (lit ''LUBKO_JOB_ID'')"

fun split_nul :: "pybytes \<Rightarrow> pybytes list" where
  "split_nul [] = [[]]"
| "split_nul (b # bs) = (case split_nul bs of
      [] \<Rightarrow> [[b]]
    | e # es \<Rightarrow> if b = 0 then [] # e # es else (b # e) # es)"

definition environ_job_id :: "pybytes \<Rightarrow> pystr option" where
  "environ_job_id data = (let prefix = JOB_ID_ENV @ [61] in
    map_option (\<lambda>entry. utf8_decode (drop (length prefix) entry))
      (find (\<lambda>entry. take (length prefix) entry = prefix) (split_nul data)))"

definition process_job_id :: "Kernel \<Rightarrow> int \<Rightarrow> pystr option act" where
  "process_job_id K pid = do {
     data \<leftarrow> observe (\<lambda>t. Option.bind (k_procs K t pid) pr_environ);
     State_Monad.return (Option.bind data environ_job_id) }"


section \<open>Specification vocabulary\<close>

text \<open>The line the kernel prints: process id, command name in parentheses, the other fields.\<close>

fun join_spaces :: "pybytes list \<Rightarrow> pybytes" where
  "join_spaces [] = []"
| "join_spaces [f] = f"
| "join_spaces (f # g # fs) = f @ [32] @ join_spaces (g # fs)"

definition stat_line :: "pybytes \<Rightarrow> pybytes \<Rightarrow> pybytes list \<Rightarrow> pybytes" where
  "stat_line pid comm flds = pid @ [32, 40] @ comm @ [41, 32] @ join_spaces flds @ [10]"

definition stat_field :: "pybytes \<Rightarrow> bool" where
  "stat_field f \<longleftrightarrow> f \<noteq> [] \<and> (\<forall>b \<in> set f. \<not> byte_space b \<and> b \<noteq> 41)"

section \<open>The stat line\<close>

lemma rfind_byte_None: "c \<notin> set bs \<Longrightarrow> rfind_byte c bs = None"
  by (induction bs) auto

lemma rfind_byte_last: "c \<notin> set ys \<Longrightarrow> rfind_byte c (xs @ c # ys) = Some (length xs)"
  by (induction xs) (auto simp: rfind_byte_None)

lemma byte_space_simps [simp]: "byte_space 32" "byte_space 10"
  by (simp_all add: byte_space_def)

lemma split_ws_field:
  assumes f: "f \<noteq> []" "\<forall>b \<in> set f. \<not> byte_space b" and s: "byte_space s"
  shows "split_ws (f @ s # r) = f # split_ws (s # r)"
proof -
  obtain b bs where b: "f = b # bs" using f by (cases f) auto
  have tw: "takeWhile (\<lambda>x. \<not> byte_space x) (bs @ s # r) = bs"
    and dw: "dropWhile (\<lambda>x. \<not> byte_space x) (bs @ s # r) = s # r"
    using f s b by (simp_all add: takeWhile_append2 dropWhile_append2)
  show ?thesis
    using f b by (subst split_ws.simps) (simp add: tw dw)
qed

lemma split_ws_space: "byte_space s \<Longrightarrow> split_ws (s # r) = split_ws r"
  by (subst (1 2) split_ws.simps) simp

lemma split_ws_join:
  "\<forall>f \<in> set fs. stat_field f \<Longrightarrow> split_ws (join_spaces fs @ [10]) = fs"
proof (induction fs rule: join_spaces.induct)
  case 1
  then show ?case by (simp add: split_ws.simps)
next
  case (2 f)
  then show ?case
    by (simp add: split_ws_field stat_field_def split_ws_space) (simp add: split_ws.simps)
next
  case (3 f g fs)
  then show ?case
    by (simp add: split_ws_field stat_field_def split_ws_space)
qed

lemma join_spaces_set: "set (join_spaces fs) \<subseteq> insert 32 (\<Union> (set ` set fs))"
  by (induction fs rule: join_spaces.induct) auto

text \<open>The fields of a stat line survive any command name: whatever bytes the name of the
  program holds, parentheses, spaces and newlines included, splitting the line gives exactly the
  fields the kernel printed after it.\<close>

theorem stat_fields_round_trip:
  assumes "\<forall>f \<in> set fs. stat_field f" and "STAT_MIN_FIELDS \<le> length fs"
  shows "split_stat_fields (stat_line pid comm fs) = Some fs"
proof -
  have "41 \<notin> set (32 # join_spaces fs @ [10])"
    using join_spaces_set [of fs] assms(1) by (auto simp: stat_field_def dest!: subsetD)
  from rfind_byte_last [OF this, of "pid @ [32, 40] @ comm"]
  have "rfind_byte 41 (stat_line pid comm fs) = Some (length (pid @ [32, 40] @ comm))"
    by (simp add: stat_line_def)
  moreover have "drop (length (pid @ [32, 40] @ comm) + 2) (stat_line pid comm fs) = join_spaces fs @ [10]"
  proof -
    have "stat_line pid comm fs = (pid @ [32, 40] @ comm @ [41, 32]) @ join_spaces fs @ [10]"
      and "length (pid @ [32, 40] @ comm) + 2 = length (pid @ [32, 40] @ comm @ [41, 32])"
      by (simp_all add: stat_line_def)
    then show ?thesis by (metis append_eq_conv_conj)
  qed
  ultimately show ?thesis
    using assms(2) split_ws_join [OF assms(1)] by (simp add: split_stat_fields_def del: length_append)
qed

theorem stat_fields_round_trip_witness:
  "split_stat_fields (stat_line [49] [41, 32, 40] (replicate 20 [48])) = Some (replicate 20 [48])"
  by (rule stat_fields_round_trip) (simp_all add: stat_field_def byte_space_def STAT_MIN_FIELDS_def)

end
