(* ===== verification/GroupReclaim.thy ===== *)
theory GroupReclaim
  imports ProcTable PyUuid "HOL-Library.Multiset"
begin

text \<open>
  Ownership proofs and termination of command process groups (\<open>worker.py\<close>). A job records the
  process group of its command and the start time of the group leader; after that the code never
  trusts a bare process id again: a member is signalled only under a proof of identity that is
  renewed at the moment of delivery.
\<close>

section \<open>Ownership proofs\<close>

type_synonym ledger = "int \<rightharpoonup> int"

record OwnedGroupView =
  leader_ours :: bool
  owned_pids :: "int list"

definition pin_and_signal :: "Kernel \<Rightarrow> int \<Rightarrow> int \<Rightarrow> int \<Rightarrow> bool act" where
  "pin_and_signal K pid sig expected_ticks = do {
     pidfd \<leftarrow> open_pidfd K pid;
     case pidfd of
       None \<Rightarrow> State_Monad.return False
     | Some process \<Rightarrow> do {
         ticks \<leftarrow> proc_start_ticks K pid;
         if ticks \<noteq> Some expected_ticks then State_Monad.return False
         else pidfd_send_signal K pid process sig } }"

definition proven_member_ticks :: "Kernel \<Rightarrow> int \<Rightarrow> ledger \<Rightarrow> pystr option \<Rightarrow> int option act" where
  "proven_member_ticks K pid ledger marker = do {
     member_ticks \<leftarrow> proc_start_ticks K pid;
     if member_ticks = None then State_Monad.return None
     else if ledger pid = member_ticks then State_Monad.return member_ticks
     else if marker = None then State_Monad.return None
     else do {
       job_id \<leftarrow> process_job_id K pid;
       State_Monad.return (if job_id = marker then member_ticks else None) } }"

fun signal_owned_pids :: "Kernel \<Rightarrow> int list \<Rightarrow> int \<Rightarrow> ledger \<Rightarrow> pystr option \<Rightarrow> bool act" where
  "signal_owned_pids K [] sig ledger marker = State_Monad.return False"
| "signal_owned_pids K (pid # pids) sig ledger marker = do {
     ticks \<leftarrow> proven_member_ticks K pid ledger marker;
     case ticks of
       None \<Rightarrow> signal_owned_pids K pids sig ledger marker
     | Some expected \<Rightarrow> do {
         _ \<leftarrow> pin_and_signal K pid sig expected;
         _ \<leftarrow> signal_owned_pids K pids sig ledger marker;
         State_Monad.return True } }"

fun proven_members :: "Kernel \<Rightarrow> int \<Rightarrow> ledger \<Rightarrow> pystr option \<Rightarrow> int list \<Rightarrow> int list act" where
  "proven_members K pgid ledger marker [] = State_Monad.return []"
| "proven_members K pgid ledger marker (pid # pids) =
    (if pid = pgid then proven_members K pgid ledger marker pids
     else do {
       ticks \<leftarrow> proven_member_ticks K pid ledger marker;
       rest \<leftarrow> proven_members K pgid ledger marker pids;
       State_Monad.return (if ticks \<noteq> None then pid # rest else rest) })"

definition ledger_owned_members :: "Kernel \<Rightarrow> int \<Rightarrow> ledger \<Rightarrow> pystr option \<Rightarrow> int list act" where
  "ledger_owned_members K pgid ledger marker = do {
     members \<leftarrow> group_member_pids K pgid;
     proven_members K pgid ledger marker members }"

fun record_members :: "Kernel \<Rightarrow> int list \<Rightarrow> ledger \<Rightarrow> ledger act" where
  "record_members K [] ledger = State_Monad.return ledger"
| "record_members K (pid # pids) ledger = do {
     member_ticks \<leftarrow> proc_start_ticks K pid;
     record_members K pids (case member_ticks of None \<Rightarrow> ledger | Some ticks \<Rightarrow> ledger(pid \<mapsto> ticks)) }"

text \<open>The ledger is the dictionary the caller passes in; it is returned as updated.\<close>

definition classify_group ::
    "Kernel \<Rightarrow> int \<Rightarrow> int option \<Rightarrow> ledger \<Rightarrow> pystr option \<Rightarrow> (OwnedGroupView \<times> ledger) act" where
  "classify_group K pgid start_ticks ledger marker = do {
     occupied \<leftarrow> group_has_members K pgid;
     if \<not> occupied
     then State_Monad.return (\<lparr>leader_ours = False, owned_pids = []\<rparr>, ledger)
     else do {
       leader_ticks \<leftarrow> proc_start_ticks K pgid;
       if (\<exists>t. start_ticks = Some t \<and> t > 0) \<and> leader_ticks = start_ticks
       then do {
         members \<leftarrow> group_member_pids K pgid;
         recorded \<leftarrow> record_members K members ledger;
         State_Monad.return (\<lparr>leader_ours = True, owned_pids = []\<rparr>, recorded) }
       else do {
         pids \<leftarrow> ledger_owned_members K pgid ledger marker;
         State_Monad.return (\<lparr>leader_ours = False, owned_pids = pids\<rparr>, ledger) } } }"

section \<open>The group of an active job\<close>

text \<open>The fields of \<open>ActiveJob\<close> that identify its command group.\<close>

record GroupJob =
  gj_id :: uuid
  gj_pgid :: int
  gj_start_ticks :: "int option"
  gj_owned_members :: ledger

definition owned_group_view :: "Kernel \<Rightarrow> GroupJob \<Rightarrow> (OwnedGroupView \<times> GroupJob) act" where
  "owned_group_view K job = do {
     (view, ledger) \<leftarrow> classify_group K (gj_pgid job) (gj_start_ticks job) (gj_owned_members job)
                        (Some (uuid_str (gj_id job)));
     State_Monad.return (view, job\<lparr>gj_owned_members := ledger\<rparr>) }"

fun signal_candidates :: "Kernel \<Rightarrow> int list \<Rightarrow> int \<Rightarrow> ledger \<Rightarrow> pystr \<Rightarrow> unit act" where
  "signal_candidates K [] sig ledger marker = State_Monad.return ()"
| "signal_candidates K (pid # pids) sig ledger marker = do {
     ticks \<leftarrow> proven_member_ticks K pid ledger (Some marker);
     case ticks of
       None \<Rightarrow> signal_candidates K pids sig ledger marker
     | Some expected \<Rightarrow> do {
         _ \<leftarrow> pin_and_signal K pid sig expected;
         signal_candidates K pids sig ledger marker } }"

definition signal_owned_group :: "Kernel \<Rightarrow> GroupJob \<Rightarrow> int \<Rightarrow> GroupJob act" where
  "signal_owned_group K job sig = do {
     (view, job') \<leftarrow> owned_group_view K job;
     candidates \<leftarrow> (if leader_ours view then group_member_pids K (gj_pgid job)
                    else State_Monad.return (owned_pids view));
     _ \<leftarrow> signal_candidates K candidates sig (gj_owned_members job') (uuid_str (gj_id job));
     State_Monad.return job' }"

definition view_alive :: "OwnedGroupView \<Rightarrow> bool" where
  "view_alive view \<longleftrightarrow> leader_ours view \<or> owned_pids view \<noteq> []"

definition owned_group_alive :: "Kernel \<Rightarrow> GroupJob \<Rightarrow> (bool \<times> GroupJob) act" where
  "owned_group_alive K job = do {
     (view, job') \<leftarrow> owned_group_view K job;
     State_Monad.return (view_alive view, job') }"

section \<open>Emergency recovery\<close>

datatype GroupReclaimDecision = GONE | RECLAIM | UNRESOLVED

definition group_reclaim_decision :: "Kernel \<Rightarrow> int \<Rightarrow> int option \<Rightarrow> GroupReclaimDecision act" where
  "group_reclaim_decision K pgid start_ticks = do {
     occupied \<leftarrow> group_has_members K pgid;
     if \<not> occupied then State_Monad.return GONE
     else (case start_ticks of
         None \<Rightarrow> State_Monad.return UNRESOLVED
       | Some ticks \<Rightarrow>
           if ticks \<le> 0 then State_Monad.return UNRESOLVED
           else do {
             live_ticks \<leftarrow> proc_start_ticks K pgid;
             if live_ticks = None then State_Monad.return UNRESOLVED
             else if live_ticks \<noteq> Some ticks then State_Monad.return UNRESOLVED
             else State_Monad.return RECLAIM }) }"

definition SIGTERM :: int where "SIGTERM = 15"
definition SIGKILL :: int where "SIGKILL = 9"

text \<open>
  The two polling loops; \<open>time.sleep\<close> is time that passes between observations. Not
  returning is \<open>None\<close>.
\<close>

partial_function (option) wait_for_exit :: "Kernel \<Rightarrow> int \<Rightarrow> int \<Rightarrow> World \<Rightarrow> World option" where
  "wait_for_exit K pgid deadline w =
    (case run_state (monotonic K) w of (now, w1) \<Rightarrow>
      if now < deadline
      then (case run_state (group_has_members K pgid) w1 of (occupied, w2) \<Rightarrow>
             if occupied then wait_for_exit K pgid deadline w2 else Some w2)
      else Some w1)"

partial_function (option) wait_for_reap ::
    "Kernel \<Rightarrow> int \<Rightarrow> int option \<Rightarrow> pystr option \<Rightarrow> int \<Rightarrow> ledger \<Rightarrow> World \<Rightarrow> (bool \<times> World) option" where
  "wait_for_reap K pgid start_ticks marker deadline ledger w =
    (case run_state (monotonic K) w of (now, w1) \<Rightarrow>
      case run_state (classify_group K pgid start_ticks ledger marker) w1 of ((view, ledger'), w2) \<Rightarrow>
      if now < deadline
      then (if \<not> view_alive view then Some (True, w2)
            else wait_for_reap K pgid start_ticks marker deadline ledger' w2)
      else Some (\<not> view_alive view, w2))"

definition emit ::
    "Kernel \<Rightarrow> int \<Rightarrow> OwnedGroupView \<Rightarrow> int \<Rightarrow> ledger \<Rightarrow> pystr option \<Rightarrow> bool act" where
  "emit K pgid view_now sig ledger marker = do {
     candidates \<leftarrow> (if leader_ours view_now then group_member_pids K pgid
                    else State_Monad.return (owned_pids view_now));
     signal_owned_pids K candidates sig ledger marker }"

definition terminate_one_group ::
    "Kernel \<Rightarrow> int \<Rightarrow> int \<Rightarrow> int \<Rightarrow> pystr option \<Rightarrow> World \<Rightarrow> (bool \<times> World) option" where
  "terminate_one_group K pgid start_ticks grace marker w =
    (case run_state (do {
         (first, ledger) \<leftarrow> classify_group K pgid (Some start_ticks) Map.empty marker;
         attempted \<leftarrow> emit K pgid first SIGTERM ledger marker;
         State_Monad.return (attempted, ledger) }) w of
      ((False, _), w1) \<Rightarrow> Some (True, w1)
    | ((True, ledger), w1) \<Rightarrow>
        (case run_state (monotonic K) w1 of (now, w2) \<Rightarrow>
         case wait_for_exit K pgid (now + grace) w2 of
           None \<Rightarrow> None
         | Some w3 \<Rightarrow>
             (case run_state (do {
                  (view, ledger') \<leftarrow> classify_group K pgid (Some start_ticks) ledger marker;
                  _ \<leftarrow> emit K pgid view SIGKILL ledger' marker;
                  now' \<leftarrow> monotonic K;
                  State_Monad.return (ledger', now') }) w3 of
                ((ledger', now'), w4) \<Rightarrow>
                  wait_for_reap K pgid (Some start_ticks) marker (now' + grace) ledger' w4)))"

record ReclaimedGroups =
  rg_reaped :: "int list"
  rg_surviving :: "int list"
  rg_unresolved :: "int list"
  rg_malformed :: "pystr list"

text \<open>A selected row: its id and the two JSON values of the state section.\<close>

definition parse_owned_running_group_row ::
    "uuid \<Rightarrow> json \<Rightarrow> json option \<Rightarrow> int option \<times> int option \<times> pystr" where
  "parse_owned_running_group_row row_id pgid start_ticks =
    ((case pgid of JInt n \<Rightarrow> if n > 0 then Some n else None | _ \<Rightarrow> None),
     (case start_ticks of Some (JInt n) \<Rightarrow> if n > 0 then Some n else None | _ \<Rightarrow> None),
     uuid_str row_id)"

fun recover_groups ::
    "Kernel \<Rightarrow> int \<Rightarrow> (int option \<times> int option \<times> pystr) list \<Rightarrow> ReclaimedGroups \<Rightarrow> World
      \<Rightarrow> (ReclaimedGroups \<times> World) option" where
  "recover_groups K grace [] acc w = Some (acc, w)"
| "recover_groups K grace ((None, _, marker) # groups) acc w =
    recover_groups K grace groups (acc\<lparr>rg_malformed := rg_malformed acc @ [marker]\<rparr>) w"
| "recover_groups K grace ((Some pgid, start_ticks, marker) # groups) acc w =
    (case run_state (group_reclaim_decision K pgid start_ticks) w of
      (GONE, w') \<Rightarrow> recover_groups K grace groups acc w'
    | (UNRESOLVED, w') \<Rightarrow>
        recover_groups K grace groups (acc\<lparr>rg_unresolved := rg_unresolved acc @ [pgid]\<rparr>) w'
    | (RECLAIM, w') \<Rightarrow>
        (case terminate_one_group K pgid (case start_ticks of None \<Rightarrow> 0 | Some t \<Rightarrow> t) grace (Some marker) w' of
          None \<Rightarrow> None
        | Some (True, w'') \<Rightarrow>
            recover_groups K grace groups (acc\<lparr>rg_reaped := rg_reaped acc @ [pgid]\<rparr>) w''
        | Some (False, w'') \<Rightarrow>
            recover_groups K grace groups (acc\<lparr>rg_surviving := rg_surviving acc @ [pgid]\<rparr>) w''))"

definition recover_owned_job_groups ::
    "Kernel \<Rightarrow> (int option \<times> int option \<times> pystr) list \<Rightarrow> int \<Rightarrow> World
      \<Rightarrow> (ReclaimedGroups \<times> World) option" where
  "recover_owned_job_groups K groups grace w =
    recover_groups K grace groups
      \<lparr>rg_reaped = [], rg_surviving = [], rg_unresolved = [], rg_malformed = []\<rparr> w"


section \<open>Specification vocabulary\<close>

definition occupant :: "Kernel \<Rightarrow> nat \<Rightarrow> int \<Rightarrow> nat option" where
  "occupant K t pid = map_option pr_id (k_procs K t pid)"

definition ticks_at :: "Kernel \<Rightarrow> nat \<Rightarrow> int \<Rightarrow> int option" where
  "ticks_at K t pid = Option.bind (Option.bind (k_procs K t pid) pr_stat) stat_start_ticks"

definition pgrp_at :: "Kernel \<Rightarrow> nat \<Rightarrow> int \<Rightarrow> int option" where
  "pgrp_at K t pid = Option.bind (Option.bind (k_procs K t pid) pr_stat) stat_pgrp"

definition job_at :: "Kernel \<Rightarrow> nat \<Rightarrow> int \<Rightarrow> pystr option" where
  "job_at K t pid = Option.bind (Option.bind (k_procs K t pid) pr_environ) environ_job_id"

text \<open>
  What the code relies on of the kernel: a process that has left its process id never returns to
  it, and two processes that occupy the same process id during one boot differ in start time.
\<close>

definition kernel_ok :: "Kernel \<Rightarrow> bool" where
  "kernel_ok K \<longleftrightarrow>
    (\<forall>pid i r s t. r \<le> s \<and> s \<le> t \<and> occupant K r pid = Some i \<and> occupant K t pid = Some i
        \<longrightarrow> occupant K s pid = Some i) \<and>
    (\<forall>pid s t ticks. ticks_at K s pid = Some ticks \<and> ticks_at K t pid = Some ticks
        \<longrightarrow> occupant K s pid = occupant K t pid)"

text \<open>Observations move time on and send nothing.\<close>

definition quiet :: "World \<Rightarrow> World \<Rightarrow> bool" where
  "quiet w w' \<longleftrightarrow> w_now w \<le> w_now w' \<and> w_sent w' = w_sent w"

text \<open>
  Where the entries of a ledger come from: a ledger \<open>L0\<close> the run began with, or a sweep that
  saw the recorded leader in its slot, then the process id in the group, then its start time.
\<close>

definition swept :: "Kernel \<Rightarrow> int \<Rightarrow> int option \<Rightarrow> nat \<Rightarrow> nat \<Rightarrow> int \<Rightarrow> nat \<Rightarrow> bool" where
  "swept K pgid start lo hi pid c \<longleftrightarrow> (\<exists>a b. lo \<le> a \<and> a < b \<and> b < c \<and> c < hi \<and>
     start \<noteq> None \<and> ticks_at K a pgid = start \<and> (pid = pgid \<or> pgrp_at K b pid = Some pgid))"

definition ledger_ok ::
    "Kernel \<Rightarrow> int \<Rightarrow> int option \<Rightarrow> ledger \<Rightarrow> nat \<Rightarrow> nat \<Rightarrow> ledger \<Rightarrow> bool" where
  "ledger_ok K pgid start L0 lo hi L \<longleftrightarrow> (\<forall>pid k. L pid = Some k \<longrightarrow>
     L0 pid = Some k \<or> (\<exists>c. swept K pgid start lo hi pid c \<and> ticks_at K c pid = Some k))"

text \<open>
  The evidence for a signal to process \<open>i\<close> at process id \<open>pid\<close>: during the run the
  process itself carried the marker of the job, or showed the start time that \<open>L0\<close> records,
  or was the process a sweep met.
\<close>

definition evidence ::
    "Kernel \<Rightarrow> int \<Rightarrow> int option \<Rightarrow> ledger \<Rightarrow> pystr option \<Rightarrow> nat \<Rightarrow> nat \<Rightarrow> nat \<Rightarrow> int \<Rightarrow> bool" where
  "evidence K pgid start L0 marker lo hi i pid \<longleftrightarrow>
     (\<exists>t. lo \<le> t \<and> t < hi \<and> occupant K t pid = Some i \<and>
       ((marker \<noteq> None \<and> job_at K t pid = marker) \<or>
        (ticks_at K t pid \<noteq> None \<and> ticks_at K t pid = L0 pid) \<or>
        swept K pgid start lo hi pid t))"

definition justified ::
    "Kernel \<Rightarrow> int \<Rightarrow> int option \<Rightarrow> ledger \<Rightarrow> pystr option \<Rightarrow> nat \<Rightarrow> int set \<Rightarrow> World \<Rightarrow> World \<Rightarrow> bool" where
  "justified K pgid start L0 marker lo sigs w w' \<longleftrightarrow>
     w_now w \<le> w_now w' \<and> (\<exists>new. w_sent w' = w_sent w @ new \<and>
       (\<forall>(i, pid, sig) \<in> set new. sig \<in> sigs \<and> evidence K pgid start L0 marker lo (w_now w') i pid))"

definition clock_advances :: "Kernel \<Rightarrow> bool" where
  "clock_advances K \<longleftrightarrow> (\<forall>d. \<exists>n. \<forall>m \<ge> n. k_monotonic K m \<ge> d)"

text \<open>What the last look of the reaping loop saw.\<close>

definition last_view ::
    "Kernel \<Rightarrow> int \<Rightarrow> int option \<Rightarrow> pystr option \<Rightarrow> World \<Rightarrow> bool \<Rightarrow> World \<Rightarrow> bool" where
  "last_view K pgid start marker w gone w' \<longleftrightarrow> (\<exists>L L' view w1. quiet w w1 \<and>
     run_state (classify_group K pgid start L marker) w1 = ((view, L'), w') \<and> gone = (\<not> view_alive view))"

text \<open>The delivered signals of a recovery, and the groups it found empty.\<close>

definition row_evidence ::
    "Kernel \<Rightarrow> (int option \<times> int option \<times> pystr) list \<Rightarrow> int list \<Rightarrow> nat \<Rightarrow> nat \<Rightarrow> (nat \<times> int \<times> int) \<Rightarrow> bool" where
  "row_evidence K groups acted lo hi = (\<lambda>(i, pid, sig). sig \<in> {SIGTERM, SIGKILL} \<and>
    (\<exists>pgid start marker. (Some pgid, Some start, marker) \<in> set groups \<and> start > 0 \<and> pgid \<in> set acted \<and>
       evidence K pgid (Some start) Map.empty (Some marker) lo hi i pid))"

definition seen_empty :: "Kernel \<Rightarrow> nat \<Rightarrow> nat \<Rightarrow> int \<Rightarrow> bool" where
  "seen_empty K lo hi pgid \<longleftrightarrow> (\<exists>w w'. lo \<le> w_now w \<and> w_now w' \<le> hi \<and>
     run_state (group_has_members K pgid) w = (False, w'))"

definition recovered ::
    "Kernel \<Rightarrow> (int option \<times> int option \<times> pystr) list \<Rightarrow> ReclaimedGroups \<Rightarrow> World \<Rightarrow> ReclaimedGroups \<Rightarrow> World \<Rightarrow> bool" where
  "recovered K groups acc w r w' \<longleftrightarrow> w_now w \<le> w_now w' \<and>
    (\<exists>re su un gone new.
      rg_malformed r = rg_malformed acc @ map (snd \<circ> snd) (filter (\<lambda>g. fst g = None) groups) \<and>
      rg_reaped r = rg_reaped acc @ re \<and> rg_surviving r = rg_surviving acc @ su \<and>
      rg_unresolved r = rg_unresolved acc @ un \<and>
      mset (re @ su @ un @ gone) = mset (List.map_filter fst groups) \<and>
      (\<forall>pgid \<in> set gone. seen_empty K (w_now w) (w_now w') pgid) \<and>
      w_sent w' = w_sent w @ new \<and>
      (\<forall>x \<in> set new. row_evidence K groups (re @ su) (w_now w) (w_now w') x))"

definition sample_stat :: "string \<Rightarrow> pybytes" where
  "sample_stat ticks = map of_nat (lit (''10 (a) b) S 1 10 0 0 0 0 0 0 0 0 0 0 0 0 0 0 0 0 '' @ ticks))"

text \<open>
  One process at id 10 that leaves at instant \<open>stop\<close>; and a history in which the leader is
  replaced at instant 3 by an unrelated process that leads a group of the same number; and one in
  which the files of a living process cannot be read from instant 4 on.
\<close>

definition mortal_kernel :: "nat \<Rightarrow> Kernel" where
  "mortal_kernel stop = \<lparr>
    k_procs = (\<lambda>t pid. if pid = 10 \<and> t < stop
      then Some \<lparr>pr_id = 1, pr_stat = Some (sample_stat ''100''), pr_environ = None\<rparr> else None),
    k_listing = (\<lambda>_. Some [lit ''10'', lit ''self'']),
    k_pin_error = (\<lambda>_. False), k_send_error = (\<lambda>_. False), k_monotonic = int\<rparr>"

definition race_kernel :: Kernel where
  "race_kernel = \<lparr>
    k_procs = (\<lambda>t pid. if pid = 10 then Some (if t < 3
        then \<lparr>pr_id = 1, pr_stat = Some (sample_stat ''100''), pr_environ = None\<rparr>
        else \<lparr>pr_id = 2, pr_stat = Some (sample_stat ''200''), pr_environ = None\<rparr>) else None),
    k_listing = (\<lambda>_. Some [lit ''10'', lit ''self'']),
    k_pin_error = (\<lambda>_. False), k_send_error = (\<lambda>_. False), k_monotonic = int\<rparr>"

definition unreadable_kernel :: Kernel where
  "unreadable_kernel = \<lparr>
    k_procs = (\<lambda>t pid. if pid = 10 then Some \<lparr>pr_id = 1,
        pr_stat = (if t < 4 then Some (sample_stat ''100'') else None), pr_environ = None\<rparr> else None),
    k_listing = (\<lambda>_. Some [lit ''10'', lit ''self'']),
    k_pin_error = (\<lambda>_. False), k_send_error = (\<lambda>_. False), k_monotonic = int\<rparr>"

definition sample_job :: GroupJob where
  "sample_job = \<lparr>gj_id = 1, gj_pgid = 10, gj_start_ticks = Some 100, gj_owned_members = Map.empty\<rparr>"

definition sample_groups :: "(int option \<times> int option \<times> pystr) list" where
  "sample_groups = [(None, Some 7, lit ''m''), (Some 10, Some 100, lit ''a''), (Some 10, None, lit ''b''),
     (Some 11, Some 5, lit ''c'')]"

section \<open>Specification vocabulary\<close>

section \<open>Observations\<close>

named_theorems observe_simps \<open>what one observation returns\<close>

lemma run_observe [observe_simps]:
  "run_state (observe f) w = (f (w_now w), w\<lparr>w_now := Suc (w_now w)\<rparr>)"
  by (simp add: observe_def)

lemma run_proc_start_ticks [observe_simps]:
  "run_state (proc_start_ticks K pid) w = (ticks_at K (w_now w) pid, w\<lparr>w_now := Suc (w_now w)\<rparr>)"
  by (simp add: proc_start_ticks_def read_proc_stat_def run_observe ticks_at_def)

lemma run_process_pgrp [observe_simps]:
  "run_state (process_pgrp K pid) w = (pgrp_at K (w_now w) pid, w\<lparr>w_now := Suc (w_now w)\<rparr>)"
  by (simp add: process_pgrp_def read_proc_stat_def run_observe pgrp_at_def)

lemma run_process_job_id [observe_simps]:
  "run_state (process_job_id K pid) w = (job_at K (w_now w) pid, w\<lparr>w_now := Suc (w_now w)\<rparr>)"
  by (simp add: process_job_id_def run_observe job_at_def)

lemma run_pid_exists [observe_simps]:
  "run_state (pid_exists K pid) w = (k_procs K (w_now w) pid \<noteq> None, w\<lparr>w_now := Suc (w_now w)\<rparr>)"
  by (simp add: pid_exists_def run_observe)

lemma run_monotonic [observe_simps]:
  "run_state (monotonic K) w = (k_monotonic K (w_now w), w\<lparr>w_now := Suc (w_now w)\<rparr>)"
  by (simp add: monotonic_def run_observe)

lemma run_open_pidfd [observe_simps]:
  "run_state (open_pidfd K pid) w =
    (if k_pin_error K (w_now w) then None else occupant K (w_now w) pid, w\<lparr>w_now := Suc (w_now w)\<rparr>)"
  by (simp add: open_pidfd_def run_observe occupant_def)

lemma quiet_refl [simp]: "quiet w w"
  by (simp add: quiet_def)

lemma quiet_trans: "quiet w1 w2 \<Longrightarrow> quiet w2 w3 \<Longrightarrow> quiet w1 w3"
  by (simp add: quiet_def)

lemma quiet_tick [simp]: "quiet w (w\<lparr>w_now := Suc (w_now w)\<rparr>)"
  by (simp add: quiet_def)

lemma quiet_from_tick: "quiet (w\<lparr>w_now := Suc (w_now w)\<rparr>) w' \<Longrightarrow> quiet w w' \<and> Suc (w_now w) \<le> w_now w'"
  by (simp add: quiet_def)

lemma any_in_group_quiet: "run_state (any_in_group K pgid names) w = (b, w') \<Longrightarrow> quiet w w'"
proof (induction names arbitrary: w)
  case (Cons name names)
  show ?case
  proof (cases "pid_of_name name")
    case (Some pid)
    with Cons show ?thesis
      by (auto simp: observe_simps split: if_splits dest!: quiet_from_tick)
  qed (use Cons in simp)
qed simp

lemma group_has_members_quiet:
  "run_state (group_has_members K pgid) w = (b, w') \<Longrightarrow> quiet w w' \<and> Suc (w_now w) \<le> w_now w'"
  by (auto simp: group_has_members_def observe_simps split: option.splits
      dest!: any_in_group_quiet quiet_from_tick) (simp_all add: quiet_def)

lemma all_in_group_spec:
  "run_state (all_in_group K pgid names) w = (pids, w') \<Longrightarrow>
    quiet w w' \<and> (\<forall>pid \<in> set pids. \<exists>t. w_now w \<le> t \<and> t < w_now w' \<and> pgrp_at K t pid = Some pgid)"
proof (induction names arbitrary: w pids)
  case (Cons name names)
  show ?case
  proof (cases "pid_of_name name")
    case None
    with Cons show ?thesis by simp
  next
    case (Some pid)
    obtain rest where rest: "run_state (all_in_group K pgid names) (w\<lparr>w_now := Suc (w_now w)\<rparr>) = (rest, w')"
      and pids: "pids = (if pgrp_at K (w_now w) pid = Some pgid then pid # rest else rest)"
      using Cons.prems Some by (auto simp: observe_simps split: prod.splits)
    note IH = Cons.IH [OF rest]
    then have q: "quiet w w'" "Suc (w_now w) \<le> w_now w'"
      by (auto dest: quiet_from_tick)
    have "\<exists>t. w_now w \<le> t \<and> t < w_now w' \<and> pgrp_at K t x = Some pgid" if "x \<in> set pids" for x
    proof (cases "x \<in> set rest")
      case True
      with IH show ?thesis by (auto intro: Suc_leD)
    next
      case False
      with that pids q show ?thesis by (auto split: if_splits)
    qed
    with q show ?thesis by blast
  qed
qed simp

lemma group_member_pids_spec:
  assumes "run_state (group_member_pids K pgid) w = (pids, w')"
  shows "quiet w w' \<and> Suc (w_now w) \<le> w_now w' \<and> (\<forall>pid \<in> set pids. pid = pgid \<or>
    (\<exists>t. w_now w \<le> t \<and> t < w_now w' \<and> pgrp_at K t pid = Some pgid))"
proof (cases "k_listing K (w_now w)")
  case None
  with assms show ?thesis
    by (auto simp: group_member_pids_def observe_simps quiet_def)
next
  case (Some names)
  with assms have "run_state (all_in_group K pgid names) (w\<lparr>w_now := Suc (w_now w)\<rparr>) = (pids, w')"
    by (simp add: group_member_pids_def observe_simps)
  from all_in_group_spec [OF this] show ?thesis
    by (auto dest: quiet_from_tick intro: Suc_leD)
qed

lemma proven_member_ticks_spec:
  assumes "run_state (proven_member_ticks K pid ledger marker) w = (r, w')"
  shows "quiet w w' \<and> (\<forall>e. r = Some e \<longrightarrow> ticks_at K (w_now w) pid = Some e \<and> w_now w < w_now w' \<and>
     (ledger pid = Some e \<or>
      marker \<noteq> None \<and> job_at K (Suc (w_now w)) pid = marker \<and> Suc (w_now w) < w_now w'))"
  using assms by (auto simp: proven_member_ticks_def observe_simps quiet_def split: if_splits)

lemma swept_mono: "swept K pgid start lo hi pid c \<Longrightarrow> hi \<le> hi' \<Longrightarrow> swept K pgid start lo hi' pid c"
  unfolding swept_def using order.strict_trans2 by blast

lemma swept_bounds: "swept K pgid start lo hi pid c \<Longrightarrow> lo \<le> c \<and> c < hi"
  by (auto simp: swept_def)

section \<open>Delivery to a pinned process\<close>

lemma kernel_stays:
  "kernel_ok K \<Longrightarrow> occupant K r pid = Some i \<Longrightarrow> occupant K t pid = Some i \<Longrightarrow> r \<le> s \<Longrightarrow> s \<le> t \<Longrightarrow>
    occupant K s pid = Some i"
  unfolding kernel_ok_def by blast

lemma kernel_unique:
  "kernel_ok K \<Longrightarrow> ticks_at K s pid = Some k \<Longrightarrow> ticks_at K t pid = Some k \<Longrightarrow>
    occupant K s pid = occupant K t pid"
  unfolding kernel_ok_def by blast

text \<open>
  The contract of a signaller: at most one delivery, and only to a process that shows the
  expected start time at an instant of the call.
\<close>

locale exact_signaller =
  fixes send :: "Kernel \<Rightarrow> int \<Rightarrow> int \<Rightarrow> int \<Rightarrow> bool act"
  assumes send_exact: "kernel_ok K \<Longrightarrow> run_state (send K pid sig expected) w = (b, w') \<Longrightarrow>
    w_now w \<le> w_now w' \<and> (w_sent w' = w_sent w \<or>
      (\<exists>i t. w_sent w' = w_sent w @ [(i, pid, sig)] \<and> w_now w \<le> t \<and> t < w_now w' \<and>
        occupant K t pid = Some i \<and> ticks_at K t pid = Some expected))"
begin

text \<open>A proof of membership followed by the delivery.\<close>

lemma proven_send_justified:
  assumes ok: "kernel_ok K"
    and led: "ledger_ok K pgid start L0 lo (w_now w) ledger"
    and lo: "lo \<le> w_now w"
    and proof_run: "run_state (proven_member_ticks K pid ledger marker) w = (Some expected, w1)"
    and send_run: "run_state (send K pid sig expected) w1 = (b, w2)"
  shows "justified K pgid start L0 marker lo {sig} w w2"
proof -
  from proven_member_ticks_spec [OF proof_run]
  have q: "quiet w w1" and ticks: "ticks_at K (w_now w) pid = Some expected"
    and how: "ledger pid = Some expected \<or>
      marker \<noteq> None \<and> job_at K (Suc (w_now w)) pid = marker \<and> Suc (w_now w) < w_now w1"
    by auto
  from send_exact [OF ok send_run]
  have t12: "w_now w1 \<le> w_now w2" by simp
  from send_exact [OF ok send_run] consider "w_sent w2 = w_sent w1"
    | i t where "w_sent w2 = w_sent w1 @ [(i, pid, sig)]" "w_now w1 \<le> t" "t < w_now w2"
        "occupant K t pid = Some i" "ticks_at K t pid = Some expected"
    by blast
  then show ?thesis
  proof cases
    case 1
    with q t12 show ?thesis by (auto simp: justified_def quiet_def)
  next
    case (2 i t)
    have same: "occupant K (w_now w) pid = Some i"
      using kernel_unique [OF ok ticks 2(5)] 2(4) by simp
    have le: "w_now w \<le> t" using q 2(2) by (simp add: quiet_def)
    from how have "evidence K pgid start L0 marker lo (w_now w2) i pid"
    proof (elim disjE conjE)
      assume "ledger pid = Some expected"
      with led consider "L0 pid = Some expected"
        | c where "swept K pgid start lo (w_now w) pid c" "ticks_at K c pid = Some expected"
        unfolding ledger_ok_def by blast
      then show ?thesis
      proof cases
        case 1
        with 2 le lo show ?thesis
          unfolding evidence_def by (intro exI [of _ t]) auto
      next
        case (2 c)
        have occ: "occupant K c pid = Some i"
          using kernel_unique [OF ok 2(2) ticks] same by simp
        from le \<open>t < w_now w2\<close> have "w_now w \<le> w_now w2" by simp
        then have "swept K pgid start lo (w_now w2) pid c" "lo \<le> c" "c < w_now w2"
          using swept_mono [OF 2(1)] swept_bounds [OF 2(1)] by simp_all
        with occ show ?thesis unfolding evidence_def by blast
      qed
    next
      assume m: "marker \<noteq> None" "job_at K (Suc (w_now w)) pid = marker" "Suc (w_now w) < w_now w1"
      then have "occupant K (Suc (w_now w)) pid = Some i"
        using kernel_stays [OF ok same 2(4)] 2(2) by simp
      with m lo t12 show ?thesis
        unfolding evidence_def by (intro exI [of _ "Suc (w_now w)"]) auto
    qed
    with 2 q t12 show ?thesis
      by (auto simp: justified_def quiet_def)
  qed
qed

end

lemma pin_and_signal_exact:
  assumes ok: "kernel_ok K" and run: "run_state (pin_and_signal K pid sig expected) w = (b, w')"
  shows "w_now w \<le> w_now w' \<and> (w_sent w' = w_sent w \<or>
      (\<exists>i t. w_sent w' = w_sent w @ [(i, pid, sig)] \<and> w_now w \<le> t \<and> t < w_now w' \<and>
        occupant K t pid = Some i \<and> ticks_at K t pid = Some expected))"
proof (cases "w_sent w' = w_sent w")
  case True
  with run show ?thesis
    by (auto simp: pin_and_signal_def observe_simps pidfd_send_signal_def split: option.splits if_splits)
next
  case False
  then obtain i where i: "occupant K (w_now w) pid = Some i" "ticks_at K (Suc (w_now w)) pid = Some expected"
      "occupant K (Suc (Suc (w_now w))) pid = Some i"
      "w_now w' = Suc (Suc (Suc (w_now w)))" "w_sent w' = w_sent w @ [(i, pid, sig)]"
    using run
    by (auto simp: pin_and_signal_def observe_simps pidfd_send_signal_def occupant_def
        split: option.splits if_splits)
  then have "occupant K (Suc (w_now w)) pid = Some i"
    using kernel_stays [OF ok i(1,3)] by simp
  with i show ?thesis by (intro conjI disjI2 exI [of _ i] exI [of _ "Suc (w_now w)"]) auto
qed

interpretation pinned: exact_signaller pin_and_signal
  by unfold_locales (rule pin_and_signal_exact)

section \<open>Sweeps over a group\<close>

lemma evidence_mono:
  assumes "evidence K pgid start L0 marker lo hi i pid" and "hi \<le> hi'"
  shows "evidence K pgid start L0 marker lo hi' i pid"
proof -
  from assms(1) obtain t where t: "lo \<le> t" "t < hi" "occupant K t pid = Some i"
    "marker \<noteq> None \<and> job_at K t pid = marker \<or> ticks_at K t pid \<noteq> None \<and> ticks_at K t pid = L0 pid
      \<or> swept K pgid start lo hi pid t"
    unfolding evidence_def by blast
  moreover have "t < hi'" using t(2) assms(2) by simp
  ultimately show ?thesis
    unfolding evidence_def using swept_mono [OF _ assms(2)] by blast
qed

lemma justified_refl [simp]: "justified K pgid start L0 marker lo sigs w w"
  by (simp add: justified_def)

lemma justified_trans:
  assumes "justified K pgid start L0 marker lo sigs w1 w2" "justified K pgid start L0 marker lo sigs w2 w3"
  shows "justified K pgid start L0 marker lo sigs w1 w3"
proof -
  from assms obtain new1 new2 where "w_now w1 \<le> w_now w2" "w_now w2 \<le> w_now w3"
      "w_sent w2 = w_sent w1 @ new1" "w_sent w3 = w_sent w2 @ new2"
      "\<forall>(i, pid, sig) \<in> set new1. sig \<in> sigs \<and> evidence K pgid start L0 marker lo (w_now w2) i pid"
      "\<forall>(i, pid, sig) \<in> set new2. sig \<in> sigs \<and> evidence K pgid start L0 marker lo (w_now w3) i pid"
    unfolding justified_def by blast
  moreover from this have
      "\<forall>(i, pid, sig) \<in> set new1. sig \<in> sigs \<and> evidence K pgid start L0 marker lo (w_now w3) i pid"
    using evidence_mono by fast
  ultimately show ?thesis
    unfolding justified_def by (auto intro!: exI [of _ "new1 @ new2"])
qed

lemma justified_quiet: "quiet w w' \<Longrightarrow> justified K pgid start L0 marker lo sigs w w'"
  by (auto simp: justified_def quiet_def)

lemma justified_sigs:
  "justified K pgid start L0 marker lo sigs w w' \<Longrightarrow> sigs \<subseteq> sigs' \<Longrightarrow> justified K pgid start L0 marker lo sigs' w w'"
  unfolding justified_def by fast

lemma ledger_ok_mono:
  "ledger_ok K pgid start L0 lo hi L \<Longrightarrow> hi \<le> hi' \<Longrightarrow> ledger_ok K pgid start L0 lo hi' L"
  unfolding ledger_ok_def using swept_mono by blast

lemma ledger_ok_init [simp]: "ledger_ok K pgid start L0 lo hi L0"
  by (simp add: ledger_ok_def)

lemma record_members_spec:
  assumes "run_state (record_members K pids L) w = (L', w')"
    and "ledger_ok K pgid start L0 lo (w_now w) L" "lo \<le> a" "a < w_now w"
    and "start \<noteq> None" "ticks_at K a pgid = start"
    and "\<forall>pid \<in> set pids. pid = pgid \<or> (\<exists>b. a < b \<and> b < w_now w \<and> pgrp_at K b pid = Some pgid)"
    and "Suc a < w_now w"
  shows "quiet w w' \<and> ledger_ok K pgid start L0 lo (w_now w') L'"
  using assms
proof (induction pids arbitrary: w L)
  case Nil
  then show ?case by simp
next
  case (Cons pid pids)
  let ?w = "w\<lparr>w_now := Suc (w_now w)\<rparr>"
  let ?L = "case ticks_at K (w_now w) pid of None \<Rightarrow> L | Some ticks \<Rightarrow> L(pid \<mapsto> ticks)"
  have run: "run_state (record_members K pids ?L) ?w = (L', w')"
    using Cons.prems(1) by (simp add: observe_simps)
  obtain b where b: "a < b" "b < w_now w" "pid = pgid \<or> pgrp_at K b pid = Some pgid"
    using Cons.prems(7,8) by auto
  then have sw: "swept K pgid start lo (Suc (w_now w)) pid (w_now w)"
    using Cons.prems(3,5,6) unfolding swept_def by blast
  have "ledger_ok K pgid start L0 lo (Suc (w_now w)) L"
    using ledger_ok_mono [OF Cons.prems(2)] by simp
  then have led: "ledger_ok K pgid start L0 lo (w_now ?w) ?L"
    using sw by (auto simp: ledger_ok_def split: option.splits)
  have "quiet ?w w' \<and> ledger_ok K pgid start L0 lo (w_now w') L'"
    using Cons.IH [OF run led Cons.prems(3)] Cons.prems by (auto intro: less_SucI)
  then show ?case by (auto dest: quiet_from_tick)
qed

lemma proven_members_quiet:
  "run_state (proven_members K pgid L marker pids) w = (r, w') \<Longrightarrow> quiet w w'"
proof (induction pids arbitrary: w r)
  case (Cons pid pids)
  show ?case
  proof (cases "pid = pgid")
    case False
    obtain t w1 where p: "run_state (proven_member_ticks K pid L marker) w = (t, w1)"
      by (cases "run_state (proven_member_ticks K pid L marker) w")
    with Cons.prems False obtain rest where "run_state (proven_members K pgid L marker pids) w1 = (rest, w')"
      by (auto split: prod.splits)
    from Cons.IH [OF this] proven_member_ticks_spec [OF p] show ?thesis
      by (auto intro: quiet_trans)
  qed (use Cons in simp)
qed simp

lemma ledger_owned_members_quiet:
  assumes "run_state (ledger_owned_members K pgid L marker) w = (r, w')"
  shows "quiet w w'"
proof -
  obtain ms w1 where m: "run_state (group_member_pids K pgid) w = (ms, w1)"
    by (cases "run_state (group_member_pids K pgid) w")
  with assms have "run_state (proven_members K pgid L marker ms) w1 = (r, w')"
    by (simp add: ledger_owned_members_def)
  from proven_members_quiet [OF this] group_member_pids_spec [OF m] show ?thesis
    by (auto intro: quiet_trans)
qed

lemma classify_group_spec:
  assumes run: "run_state (classify_group K pgid start L marker) w = ((view, L'), w')"
    and led: "ledger_ok K pgid start L0 lo (w_now w) L" and lo: "lo \<le> w_now w"
  shows "quiet w w' \<and> ledger_ok K pgid start L0 lo (w_now w') L'"
proof -
  obtain occ w1 where g: "run_state (group_has_members K pgid) w = (occ, w1)"
    by (cases "run_state (group_has_members K pgid) w")
  from group_has_members_quiet [OF g] have q1: "quiet w w1" "w_now w \<le> w_now w1" by simp_all
  have led1: "ledger_ok K pgid start L0 lo (w_now w1) L"
    using ledger_ok_mono [OF led q1(2)] .
  let ?w2 = "w1\<lparr>w_now := Suc (w_now w1)\<rparr>"
  consider "\<not> occ"
    | "occ" "(\<exists>t. start = Some t \<and> t > 0) \<and> ticks_at K (w_now w1) pgid = start"
    | "occ" "\<not> ((\<exists>t. start = Some t \<and> t > 0) \<and> ticks_at K (w_now w1) pgid = start)"
    by blast
  then show ?thesis
  proof cases
    case 1
    with run g led1 q1 show ?thesis by (simp add: classify_group_def)
  next
    case 2
    obtain ms w3 where m: "run_state (group_member_pids K pgid) ?w2 = (ms, w3)"
      by (cases "run_state (group_member_pids K pgid) ?w2")
    with run g 2 have rec: "run_state (record_members K ms L) w3 = (L', w')"
      by (auto simp: classify_group_def observe_simps split: prod.splits)
    from group_member_pids_spec [OF m]
    have q3: "quiet ?w2 w3" "Suc (Suc (w_now w1)) \<le> w_now w3"
      and ms: "\<forall>pid \<in> set ms. pid = pgid \<or>
        (\<exists>b. w_now w1 < b \<and> b < w_now w3 \<and> pgrp_at K b pid = Some pgid)"
      by (simp_all add: Suc_le_eq)
    have "ledger_ok K pgid start L0 lo (w_now w3) L"
      using ledger_ok_mono [OF led1] q3(2) by simp
    from record_members_spec [OF rec this _ _ _ _ ms] 2 lo q1 q3
    have "quiet w3 w' \<and> ledger_ok K pgid start L0 lo (w_now w') L'" by auto
    with q1 q3 show ?thesis
      by (auto dest: quiet_from_tick intro: quiet_trans)
  next
    case 3
    then obtain pids where "run_state (ledger_owned_members K pgid L marker) ?w2 = (pids, w')" "L' = L"
      using run g by (auto simp: classify_group_def observe_simps split: prod.splits if_splits)
    from ledger_owned_members_quiet [OF this(1)] this(2) q1 led1 show ?thesis
      using ledger_ok_mono [OF led1, of "w_now w'"]
      by (auto dest!: quiet_from_tick intro: quiet_trans)
  qed
qed

lemma signal_candidates_justified:
  assumes "kernel_ok K" "run_state (signal_candidates K pids sig L marker) w = (u, w')"
    and "ledger_ok K pgid start L0 lo (w_now w) L" "lo \<le> w_now w"
  shows "justified K pgid start L0 (Some marker) lo {sig} w w'"
  using assms
proof (induction pids arbitrary: w)
  case (Cons pid pids)
  obtain t w1 where p: "run_state (proven_member_ticks K pid L (Some marker)) w = (t, w1)"
    by (cases "run_state (proven_member_ticks K pid L (Some marker)) w")
  have q: "quiet w w1" using proven_member_ticks_spec [OF p] by simp
  show ?case
  proof (cases t)
    case None
    with Cons.prems p q have "justified K pgid start L0 (Some marker) lo {sig} w1 w'"
      by (intro Cons.IH) (auto simp: quiet_def intro: ledger_ok_mono)
    with q show ?thesis by (blast intro: justified_quiet justified_trans)
  next
    case (Some e)
    obtain b w2 where s: "run_state (pin_and_signal K pid sig e) w1 = (b, w2)"
      by (cases "run_state (pin_and_signal K pid sig e) w1")
    have j: "justified K pgid start L0 (Some marker) lo {sig} w w2"
      using pinned.proven_send_justified [OF Cons.prems(1,3,4) p [unfolded Some] s] .
    then have "w_now w \<le> w_now w2" by (simp add: justified_def)
    with Cons.prems p s Some have "justified K pgid start L0 (Some marker) lo {sig} w2 w'"
      by (intro Cons.IH) (auto intro: ledger_ok_mono)
    with j show ?thesis by (rule justified_trans)
  qed
qed simp

lemma signal_owned_pids_justified:
  assumes "kernel_ok K" "run_state (signal_owned_pids K pids sig L marker) w = (u, w')"
    and "ledger_ok K pgid start L0 lo (w_now w) L" "lo \<le> w_now w"
  shows "justified K pgid start L0 marker lo {sig} w w'"
  using assms
proof (induction pids arbitrary: w u)
  case (Cons pid pids)
  obtain t w1 where p: "run_state (proven_member_ticks K pid L marker) w = (t, w1)"
    by (cases "run_state (proven_member_ticks K pid L marker) w")
  have q: "quiet w w1" using proven_member_ticks_spec [OF p] by simp
  show ?case
  proof (cases t)
    case None
    with Cons.prems p q have "justified K pgid start L0 marker lo {sig} w1 w'"
      by (intro Cons.IH) (auto simp: quiet_def intro: ledger_ok_mono)
    with q show ?thesis by (blast intro: justified_quiet justified_trans)
  next
    case (Some e)
    obtain b w2 where s: "run_state (pin_and_signal K pid sig e) w1 = (b, w2)"
      by (cases "run_state (pin_and_signal K pid sig e) w1")
    obtain u' where rest: "run_state (signal_owned_pids K pids sig L marker) w2 = (u', w')"
      using Cons.prems(2) p s Some by (auto split: prod.splits)
    have j: "justified K pgid start L0 marker lo {sig} w w2"
      using pinned.proven_send_justified [OF Cons.prems(1,3,4) p [unfolded Some] s] .
    then have "w_now w \<le> w_now w2" by (simp add: justified_def)
    with Cons.prems rest have "justified K pgid start L0 marker lo {sig} w2 w'"
      by (intro Cons.IH [OF _ rest]) (auto intro: ledger_ok_mono)
    with j show ?thesis by (rule justified_trans)
  qed
qed simp

text \<open>The candidates of a sweep are read without sending anything.\<close>

lemma candidates_quiet:
  "run_state (if c then group_member_pids K pgid else State_Monad.return pids) w = (r, w') \<Longrightarrow> quiet w w'"
  using group_member_pids_spec by (auto split: if_splits)

lemma emit_justified:
  assumes ok: "kernel_ok K" and run: "run_state (emit K pgid view sig L marker) w = (u, w')"
    and led: "ledger_ok K pgid start L0 lo (w_now w) L" and lo: "lo \<le> w_now w"
  shows "justified K pgid start L0 marker lo {sig} w w'"
proof -
  obtain cs w1 where c: "run_state (if leader_ours view then group_member_pids K pgid
      else State_Monad.return (owned_pids view)) w = (cs, w1)"
    by (cases "run_state (if leader_ours view then group_member_pids K pgid
      else State_Monad.return (owned_pids view)) w")
  have q: "quiet w w1" using candidates_quiet [OF c] .
  have "run_state (signal_owned_pids K cs sig L marker) w1 = (u, w')"
    using run c by (auto simp: emit_def)
  from signal_owned_pids_justified [OF ok this, of pgid start L0 lo] q led lo
  have "justified K pgid start L0 marker lo {sig} w1 w'"
    by (auto simp: quiet_def intro: ledger_ok_mono)
  with q show ?thesis by (blast intro: justified_quiet justified_trans)
qed

lemma signal_owned_group_justified:
  assumes ok: "kernel_ok K" and run: "run_state (signal_owned_group K job sig) w = (job', w')"
  shows "justified K (gj_pgid job) (gj_start_ticks job) (gj_owned_members job)
    (Some (uuid_str (gj_id job))) (w_now w) {sig} w w'"
proof -
  let ?m = "uuid_str (gj_id job)" and ?pgid = "gj_pgid job"
  obtain view L w1 where k: "run_state (classify_group K ?pgid (gj_start_ticks job)
      (gj_owned_members job) (Some ?m)) w = ((view, L), w1)"
    by (metis surj_pair)
  obtain cs w2 where c: "run_state (if leader_ours view then group_member_pids K ?pgid
      else State_Monad.return (owned_pids view)) w1 = (cs, w2)"
    by (metis surj_pair)
  from classify_group_spec [OF k ledger_ok_init] have q1: "quiet w w1"
    and led: "ledger_ok K ?pgid (gj_start_ticks job) (gj_owned_members job) (w_now w) (w_now w1) L" by auto
  have q2: "quiet w1 w2" using candidates_quiet [OF c] .
  obtain u where "run_state (signal_candidates K cs sig L ?m) w2 = (u, w')"
    using run k c
    by (auto simp: signal_owned_group_def owned_group_view_def split: prod.splits)
  from signal_candidates_justified [OF ok this, of ?pgid "gj_start_ticks job" "gj_owned_members job" "w_now w"] q1 q2 led
  have "justified K ?pgid (gj_start_ticks job) (gj_owned_members job) (Some ?m) (w_now w) {sig} w2 w'"
    by (auto simp: quiet_def intro: ledger_ok_mono)
  with q1 q2 show ?thesis by (blast intro: justified_quiet justified_trans)
qed

section \<open>Termination of a group\<close>

lemma classify_group_quiet:
  "run_state (classify_group K pgid start L marker) w = ((view, L'), w') \<Longrightarrow> quiet w w'"
  using classify_group_spec [OF _ ledger_ok_init] by blast

lemma wait_for_exit_quiet:
  assumes "wait_for_exit K pgid deadline w = Some w'"
  shows "quiet w w'"
proof (rule wait_for_exit.raw_induct [OF _ assms, where P = "\<lambda>K pgid deadline w w'. quiet w w'"])
  fix f K pgid deadline w w'
  assume IH: "\<And>K pgid deadline w w'. f K pgid deadline w = Some w' \<Longrightarrow> quiet w w'"
    and body: "(case run_state (monotonic K) w of (now, w1) \<Rightarrow>
      if now < deadline
      then (case run_state (group_has_members K pgid) w1 of (occupied, w2) \<Rightarrow>
             if occupied then f K pgid deadline w2 else Some w2)
      else Some w1) = Some w'"
  let ?w1 = "w\<lparr>w_now := Suc (w_now w)\<rparr>"
  obtain occ w2 where g: "run_state (group_has_members K pgid) ?w1 = (occ, w2)"
    by (metis surj_pair)
  from group_has_members_quiet [OF g] have q: "quiet w w2" by (auto dest: quiet_from_tick)
  show "quiet w w'"
  proof (cases "k_monotonic K (w_now w) < deadline")
    case True
    with body g have "w' = w2 \<or> f K pgid deadline w2 = Some w'"
      by (auto simp: observe_simps split: if_splits)
    with q IH show ?thesis by (auto intro: quiet_trans)
  next
    case False
    with body show ?thesis by (auto simp: observe_simps)
  qed
qed

lemma last_viewI:
  "quiet w w1 \<Longrightarrow> run_state (classify_group K pgid start L marker) w1 = ((view, L'), w') \<Longrightarrow>
    last_view K pgid start marker w (\<not> view_alive view) w'"
  unfolding last_view_def by (intro exI conjI) (assumption | rule refl)+

lemma last_view_earlier:
  assumes "quiet w w1" "last_view K pgid start marker w1 gone w'"
  shows "last_view K pgid start marker w gone w'"
proof -
  from assms(2) obtain L L' view w2 where "quiet w1 w2"
      "run_state (classify_group K pgid start L marker) w2 = ((view, L'), w')" "gone = (\<not> view_alive view)"
    unfolding last_view_def by blast
  with assms(1) show ?thesis using last_viewI [OF quiet_trans] by simp
qed

lemma wait_for_reap_spec:
  assumes "wait_for_reap K pgid start marker deadline L w = Some r"
  shows "quiet w (snd r) \<and> last_view K pgid start marker w (fst r) (snd r)"
proof (rule wait_for_reap.raw_induct [OF _ assms, where
      P = "\<lambda>K pgid start marker deadline L w r. quiet w (snd r) \<and> last_view K pgid start marker w (fst r) (snd r)"])
  fix f K pgid start marker deadline L w r
  assume IH: "\<And>K pgid start marker deadline L w r. f K pgid start marker deadline L w = Some r \<Longrightarrow>
      quiet w (snd r) \<and> last_view K pgid start marker w (fst r) (snd r)"
    and body: "(case run_state (monotonic K) w of (now, w1) \<Rightarrow>
      case run_state (classify_group K pgid start L marker) w1 of ((view, ledger'), w2) \<Rightarrow>
      if now < deadline
      then (if \<not> view_alive view then Some (True, w2)
            else f K pgid start marker deadline ledger' w2)
      else Some (\<not> view_alive view, w2)) = Some r"
  let ?w1 = "w\<lparr>w_now := Suc (w_now w)\<rparr>"
  obtain view L' w2 where g: "run_state (classify_group K pgid start L marker) ?w1 = ((view, L'), w2)"
    by (metis surj_pair)
  from classify_group_quiet [OF g] have q: "quiet ?w1 w2" "quiet w w2" by (auto dest: quiet_from_tick)
  have here: "last_view K pgid start marker w (\<not> view_alive view) w2"
    using last_viewI [OF quiet_tick g] .
  have "(if k_monotonic K (w_now w) < deadline then (if \<not> view_alive view then Some (True, w2)
      else f K pgid start marker deadline L' w2) else Some (\<not> view_alive view, w2)) = Some r"
    using body by (simp add: run_monotonic g)
  then consider "r = (\<not> view_alive view, w2)" | "f K pgid start marker deadline L' w2 = Some r"
    by (cases "view_alive view"; simp split: if_splits; blast)
  then show "quiet w (snd r) \<and> last_view K pgid start marker w (fst r) (snd r)"
  proof cases
    case 1
    with q here show ?thesis by simp
  next
    case 2
    from IH [OF 2] have "quiet w2 (snd r)" "last_view K pgid start marker w2 (fst r) (snd r)" by auto
    with q(2) show ?thesis by (blast intro: quiet_trans last_view_earlier)
  qed
qed

lemma wait_for_exit_returns:
  assumes "clock_advances K"
  shows "\<exists>w'. wait_for_exit K pgid deadline w = Some w'"
proof -
  from assms obtain n where n: "\<And>m. m \<ge> n \<Longrightarrow> k_monotonic K m \<ge> deadline"
    unfolding clock_advances_def by blast
  show ?thesis
  proof (induction "n - w_now w" arbitrary: w rule: less_induct)
    case less
    let ?w1 = "w\<lparr>w_now := Suc (w_now w)\<rparr>"
    obtain occ w2 where g: "run_state (group_has_members K pgid) ?w1 = (occ, w2)"
      by (metis surj_pair)
    show ?case
    proof (cases "k_monotonic K (w_now w) < deadline")
      case True
      then have "w_now w < n" using n by (meson leD not_le)
      moreover have "w_now w < w_now w2" using group_has_members_quiet [OF g] by simp
      ultimately have "n - w_now w2 < n - w_now w" by simp
      from less [OF this] True g show ?thesis
        by (subst wait_for_exit.simps) (auto simp: observe_simps)
    next
      case False
      then show ?thesis
        by (subst wait_for_exit.simps) (auto simp: observe_simps)
    qed
  qed
qed

lemma wait_for_reap_returns:
  assumes "clock_advances K"
  shows "\<exists>r. wait_for_reap K pgid start marker deadline L w = Some r"
proof -
  from assms obtain n where n: "\<And>m. m \<ge> n \<Longrightarrow> k_monotonic K m \<ge> deadline"
    unfolding clock_advances_def by blast
  show ?thesis
  proof (induction "n - w_now w" arbitrary: w L rule: less_induct)
    case less
    let ?w1 = "w\<lparr>w_now := Suc (w_now w)\<rparr>"
    obtain view L' w2 where g: "run_state (classify_group K pgid start L marker) ?w1 = ((view, L'), w2)"
      by (metis surj_pair)
    show ?case
    proof (cases "k_monotonic K (w_now w) < deadline")
      case True
      then have "w_now w < n" using n by (meson leD not_le)
      moreover have "w_now w < w_now w2" using classify_group_quiet [OF g] by (simp add: quiet_def)
      ultimately have "n - w_now w2 < n - w_now w" by simp
      from less [OF this] True g show ?thesis
        by (subst wait_for_reap.simps) (auto simp: observe_simps)
    next
      case False
      with g show ?thesis
        by (subst wait_for_reap.simps) (auto simp: observe_simps)
    qed
  qed
qed

lemma terminate_one_group_returns:
  assumes "clock_advances K"
  shows "\<exists>gone w'. terminate_one_group K pgid start grace marker w = Some (gone, w')"
proof -
  have ex: "\<exists>a b. wait_for_reap K pgid s marker d L v = Some (a, b)" for s d L v
    using wait_for_reap_returns [OF assms, of pgid s marker d L v] by (metis surj_pair)
  have ne: "(wait_for_exit K pgid d v = None) = False" for d v
    using wait_for_exit_returns [OF assms, of pgid d v] by auto
  show ?thesis
    unfolding terminate_one_group_def
    by (auto split: prod.split bool.split option.split simp: ex ne)
qed

text \<open>
  A run of the termination of a group, cut at its observations: either nobody could be proven at
  the first sweep, or both sweeps ran and the last look decided.
\<close>

lemma terminate_one_group_cases:
  assumes "terminate_one_group K pgid start grace marker w = Some (gone, w')"
  obtains (unproven) first L w1 where
      "run_state (classify_group K pgid (Some start) Map.empty marker) w = ((first, L), w1)"
      "run_state (emit K pgid first SIGTERM L marker) w1 = (False, w')" "gone"
  | (swept) first L w1 w2 w3 view L' w4 u w5 where
      "run_state (classify_group K pgid (Some start) Map.empty marker) w = ((first, L), w1)"
      "run_state (emit K pgid first SIGTERM L marker) w1 = (True, w2)" "quiet w2 w3"
      "run_state (classify_group K pgid (Some start) L marker) w3 = ((view, L'), w4)"
      "run_state (emit K pgid view SIGKILL L' marker) w4 = (u, w5)" "quiet w5 w'"
      "last_view K pgid (Some start) marker w5 gone w'"
proof -
  obtain first L w1 where k1: "run_state (classify_group K pgid (Some start) Map.empty marker) w = ((first, L), w1)"
    by (metis surj_pair)
  obtain att w2 where e1: "run_state (emit K pgid first SIGTERM L marker) w1 = (att, w2)"
    by (metis surj_pair)
  show thesis
  proof (cases att)
    case False
    with assms k1 e1 show thesis
      by (intro unproven [OF k1]) (auto simp: terminate_one_group_def)
  next
    case True
    let ?w = "w2\<lparr>w_now := Suc (w_now w2)\<rparr>"
    obtain w3 where x: "wait_for_exit K pgid (k_monotonic K (w_now w2) + grace) ?w = Some w3"
      using assms k1 e1 True
      by (auto simp: terminate_one_group_def observe_simps split: option.splits)
    obtain view L' w4 where k2: "run_state (classify_group K pgid (Some start) L marker) w3 = ((view, L'), w4)"
      by (metis surj_pair)
    obtain u w5 where e2: "run_state (emit K pgid view SIGKILL L' marker) w4 = (u, w5)"
      by (metis surj_pair)
    let ?w5 = "w5\<lparr>w_now := Suc (w_now w5)\<rparr>"
    have r: "wait_for_reap K pgid (Some start) marker (k_monotonic K (w_now w5) + grace) L' ?w5 = Some (gone, w')"
      using assms k1 e1 True x k2 e2
      by (auto simp: terminate_one_group_def observe_simps)
    from wait_for_reap_spec [OF r] have q: "quiet ?w5 w'" and lv: "last_view K pgid (Some start) marker ?w5 gone w'"
      by auto
    show thesis
    proof (rule swept [OF k1 _ _ k2 e2])
      show "run_state (emit K pgid first SIGTERM L marker) w1 = (True, w2)" using e1 True by simp
      show "quiet w2 w3" using wait_for_exit_quiet [OF x] by (auto dest: quiet_from_tick)
      show "quiet w5 w'" using q by (auto dest: quiet_from_tick)
      show "last_view K pgid (Some start) marker w5 gone w'"
        using last_view_earlier [OF quiet_tick lv] .
    qed
  qed
qed

lemma terminate_one_group_justified:
  assumes ok: "kernel_ok K" and run: "terminate_one_group K pgid start grace marker w = Some (gone, w')"
  shows "justified K pgid (Some start) Map.empty marker (w_now w) {SIGTERM, SIGKILL} w w'"
  using run
proof (cases rule: terminate_one_group_cases)
  case (unproven first L w1)
  from classify_group_spec [OF unproven(1) ledger_ok_init]
  have q: "quiet w w1" and led: "ledger_ok K pgid (Some start) Map.empty (w_now w) (w_now w1) L" by auto
  from emit_justified [OF ok unproven(2) led] q
  have "justified K pgid (Some start) Map.empty marker (w_now w) {SIGTERM, SIGKILL} w1 w'"
    by (auto simp: quiet_def intro: justified_sigs)
  with q show ?thesis by (blast intro: justified_quiet justified_trans)
next
  case (swept first L w1 w2 w3 view L' w4 u w5)
  let ?J = "justified K pgid (Some start) Map.empty marker (w_now w) {SIGTERM, SIGKILL}"
  from classify_group_spec [OF swept(1) ledger_ok_init]
  have q: "quiet w w1" and led: "ledger_ok K pgid (Some start) Map.empty (w_now w) (w_now w1) L" by auto
  from emit_justified [OF ok swept(2) led] q
  have j1: "?J w1 w2" by (auto simp: quiet_def intro: justified_sigs)
  then have le: "w_now w \<le> w_now w3" "w_now w1 \<le> w_now w3"
    using q swept(3) by (auto simp: quiet_def justified_def)
  from classify_group_spec [OF swept(4) ledger_ok_mono [OF led le(2)] le(1)]
  have q2: "quiet w3 w4" and led2: "ledger_ok K pgid (Some start) Map.empty (w_now w) (w_now w4) L'" by auto
  from emit_justified [OF ok swept(5) led2] q2 le
  have j2: "?J w4 w5" by (auto simp: quiet_def intro: justified_sigs)
  from q j1 swept(3) q2 j2 swept(6) show ?thesis
    by (meson justified_quiet justified_trans)
qed

section \<open>Recovery of all groups of an incarnation\<close>

lemma swept_lo: "swept K pgid start lo hi pid c \<Longrightarrow> lo' \<le> lo \<Longrightarrow> swept K pgid start lo' hi pid c"
  unfolding swept_def using order.trans by blast

lemma evidence_lo:
  assumes "evidence K pgid start L0 marker lo hi i pid" and "lo' \<le> lo"
  shows "evidence K pgid start L0 marker lo' hi i pid"
proof -
  from assms(1) obtain t where t: "lo \<le> t" "t < hi" "occupant K t pid = Some i"
    "marker \<noteq> None \<and> job_at K t pid = marker \<or> ticks_at K t pid \<noteq> None \<and> ticks_at K t pid = L0 pid
      \<or> swept K pgid start lo hi pid t"
    unfolding evidence_def by blast
  moreover have "lo' \<le> t" using t(1) assms(2) by simp
  ultimately show ?thesis
    unfolding evidence_def using swept_lo [OF _ assms(2)] by blast
qed

lemma group_reclaim_decision_spec:
  assumes "run_state (group_reclaim_decision K pgid start) w = (d, w')"
  shows "quiet w w' \<and> (d = RECLAIM \<longrightarrow> (\<exists>t. start = Some t \<and> t > 0)) \<and>
    (d = GONE \<longrightarrow> run_state (group_has_members K pgid) w = (False, w'))"
proof -
  obtain occ w1 where g: "run_state (group_has_members K pgid) w = (occ, w1)"
    by (metis surj_pair)
  then have "quiet w w1" using group_has_members_quiet by blast
  then have "quiet w (w1\<lparr>w_now := Suc (w_now w1)\<rparr>)" by (simp add: quiet_def)
  with \<open>quiet w w1\<close> g assms show ?thesis
    by (auto simp: group_reclaim_decision_def observe_simps split: if_splits option.splits)
qed

lemma row_evidence_mono:
  assumes "row_evidence K groups acted lo hi x" "set groups \<subseteq> set groups'" "set acted \<subseteq> set acted'"
    "lo' \<le> lo" "hi \<le> hi'"
  shows "row_evidence K groups' acted' lo' hi' x"
proof -
  obtain i pid sig where x: "x = (i, pid, sig)" by (metis surj_pair)
  with assms(1) obtain pgid start marker where "sig \<in> {SIGTERM, SIGKILL}"
      "(Some pgid, Some start, marker) \<in> set groups" "start > 0" "pgid \<in> set acted"
      "evidence K pgid (Some start) Map.empty (Some marker) lo hi i pid"
    unfolding row_evidence_def by blast
  then show ?thesis
    unfolding x row_evidence_def
    using evidence_lo [OF evidence_mono [OF _ assms(5)] assms(4)] assms(2,3) by blast
qed

lemma seen_empty_mono: "seen_empty K lo hi pgid \<Longrightarrow> lo' \<le> lo \<Longrightarrow> hi \<le> hi' \<Longrightarrow> seen_empty K lo' hi' pgid"
  unfolding seen_empty_def by (meson order.trans)

lemma recoveredI:
  assumes "w_now w \<le> w_now w'"
    and "rg_malformed r = rg_malformed acc @ map (snd \<circ> snd) (filter (\<lambda>g. fst g = None) groups)"
    and "rg_reaped r = rg_reaped acc @ re" "rg_surviving r = rg_surviving acc @ su"
    and "rg_unresolved r = rg_unresolved acc @ un"
    and "mset (re @ su @ un @ gone) = mset (List.map_filter fst groups)"
    and "\<And>pgid. pgid \<in> set gone \<Longrightarrow> seen_empty K (w_now w) (w_now w') pgid"
    and "w_sent w' = w_sent w @ new"
    and "\<And>x. x \<in> set new \<Longrightarrow> row_evidence K groups (re @ su) (w_now w) (w_now w') x"
  shows "recovered K groups acc w r w'"
  unfolding recovered_def using assms by (intro conjI exI [of _ re] exI [of _ su] exI [of _ un] exI [of _ gone] exI [of _ new]) auto

lemma recovered_Cons:
  assumes "recovered K [g] acc w acc1 w1" "recovered K groups acc1 w1 r w'"
  shows "recovered K (g # groups) acc w r w'"
proof -
  from assms(1) obtain re su un gone new where le: "w_now w \<le> w_now w1"
    and 1: "rg_malformed acc1 = rg_malformed acc @ map (snd \<circ> snd) (filter (\<lambda>g. fst g = None) [g])"
      "rg_reaped acc1 = rg_reaped acc @ re" "rg_surviving acc1 = rg_surviving acc @ su"
      "rg_unresolved acc1 = rg_unresolved acc @ un"
    and m1: "mset (re @ su @ un @ gone) = mset (List.map_filter fst [g])"
    and g1: "\<forall>pgid \<in> set gone. seen_empty K (w_now w) (w_now w1) pgid"
    and s1: "w_sent w1 = w_sent w @ new"
    and e1: "\<forall>x \<in> set new. row_evidence K [g] (re @ su) (w_now w) (w_now w1) x"
    unfolding recovered_def by blast
  from assms(2) obtain re' su' un' gone' new' where le': "w_now w1 \<le> w_now w'"
    and 2: "rg_malformed r = rg_malformed acc1 @ map (snd \<circ> snd) (filter (\<lambda>g. fst g = None) groups)"
      "rg_reaped r = rg_reaped acc1 @ re'" "rg_surviving r = rg_surviving acc1 @ su'"
      "rg_unresolved r = rg_unresolved acc1 @ un'"
    and m2: "mset (re' @ su' @ un' @ gone') = mset (List.map_filter fst groups)"
    and g2: "\<forall>pgid \<in> set gone'. seen_empty K (w_now w1) (w_now w') pgid"
    and s2: "w_sent w' = w_sent w1 @ new'"
    and e2: "\<forall>x \<in> set new'. row_evidence K groups (re' @ su') (w_now w1) (w_now w') x"
    unfolding recovered_def by blast
  show ?thesis
  proof (rule recoveredI [where re = "re @ re'" and su = "su @ su'" and un = "un @ un'"
        and gone = "gone @ gone'" and new = "new @ new'"])
    show "mset ((re @ re') @ (su @ su') @ (un @ un') @ gone @ gone') = mset (List.map_filter fst (g # groups))"
    proof -
      have "mset (List.map_filter fst (g # groups)) =
          mset (List.map_filter fst [g]) + mset (List.map_filter fst groups)"
        by (simp add: List.map_filter_simps split: option.splits)
      then show ?thesis unfolding m1 [symmetric] m2 [symmetric] by (simp add: ac_simps)
    qed
    show "seen_empty K (w_now w) (w_now w') pgid" if "pgid \<in> set (gone @ gone')" for pgid
      using that g1 g2 le le' by (auto intro: seen_empty_mono)
    show "row_evidence K (g # groups) ((re @ re') @ su @ su') (w_now w) (w_now w') x"
      if "x \<in> set (new @ new')" for x
      using that
    proof (cases "x \<in> set new")
      case True
      with e1 have "row_evidence K [g] (re @ su) (w_now w) (w_now w1) x" by simp
      then show ?thesis by (rule row_evidence_mono) (use le' in auto)
    next
      case False
      with that e2 le have "row_evidence K groups (re' @ su') (w_now w1) (w_now w') x" by simp
      then show ?thesis by (rule row_evidence_mono) (use le in auto)
    qed
  qed (use le le' 1 2 s1 s2 in auto)
qed

lemma recovered_step:
  assumes ok: "kernel_ok K" and d: "run_state (group_reclaim_decision K pgid start) w = (d, w1)"
  shows "d = GONE \<Longrightarrow> recovered K [(Some pgid, start, marker)] acc w acc w1"
    and "d = UNRESOLVED \<Longrightarrow> recovered K [(Some pgid, start, marker)] acc w
      (acc\<lparr>rg_unresolved := rg_unresolved acc @ [pgid]\<rparr>) w1"
    and "d = RECLAIM \<Longrightarrow>
      terminate_one_group K pgid (case start of None \<Rightarrow> 0 | Some t \<Rightarrow> t) grace (Some marker) w1 = Some (gone, w2) \<Longrightarrow>
      recovered K [(Some pgid, start, marker)] acc w
        (if gone then acc\<lparr>rg_reaped := rg_reaped acc @ [pgid]\<rparr>
         else acc\<lparr>rg_surviving := rg_surviving acc @ [pgid]\<rparr>) w2"
proof -
  note spec = group_reclaim_decision_spec [OF d]
  then have q: "w_now w \<le> w_now w1" "w_sent w1 = w_sent w" by (auto simp: quiet_def)
  show "recovered K [(Some pgid, start, marker)] acc w acc w1" if "d = GONE"
  proof (rule recoveredI [where gone = "[pgid]" and new = "[]"])
    show "seen_empty K (w_now w) (w_now w1) p" if "p \<in> set [pgid]" for p
      using that spec \<open>d = GONE\<close> unfolding seen_empty_def by auto
  qed (use q in \<open>auto simp: List.map_filter_simps\<close>)
  show "recovered K [(Some pgid, start, marker)] acc w
      (acc\<lparr>rg_unresolved := rg_unresolved acc @ [pgid]\<rparr>) w1"
    by (rule recoveredI [where gone = "[]" and new = "[]" and un = "[pgid]"])
      (use q in \<open>auto simp: List.map_filter_simps\<close>)
  assume "d = RECLAIM"
  with spec obtain t where t: "start = Some t" "t > 0" by auto
  assume "terminate_one_group K pgid (case start of None \<Rightarrow> 0 | Some t \<Rightarrow> t) grace (Some marker) w1 = Some (gone, w2)"
  with t have "terminate_one_group K pgid t grace (Some marker) w1 = Some (gone, w2)" by simp
  from terminate_one_group_justified [OF ok this]
  obtain new where le: "w_now w1 \<le> w_now w2" and new: "w_sent w2 = w_sent w1 @ new"
    and ev: "\<forall>(i, pid, sig) \<in> set new. sig \<in> {SIGTERM, SIGKILL} \<and>
      evidence K pgid (Some t) Map.empty (Some marker) (w_now w1) (w_now w2) i pid"
    unfolding justified_def by blast
  have "row_evidence K [(Some pgid, start, marker)] [pgid] (w_now w1) (w_now w2) x" if "x \<in> set new" for x
    using ev that t unfolding row_evidence_def by fastforce
  then have row: "row_evidence K [(Some pgid, start, marker)] [pgid] (w_now w) (w_now w2) x" if "x \<in> set new" for x
    using that row_evidence_mono [OF _ order.refl order.refl q(1) order.refl] by blast
  show "recovered K [(Some pgid, start, marker)] acc w
        (if gone then acc\<lparr>rg_reaped := rg_reaped acc @ [pgid]\<rparr>
         else acc\<lparr>rg_surviving := rg_surviving acc @ [pgid]\<rparr>) w2"
    by (rule recoveredI [where gone = "[]" and un = "[]" and new = new
          and re = "if gone then [pgid] else []" and su = "if gone then [] else [pgid]"])
      (use q le new row in \<open>auto simp: List.map_filter_simps\<close>)
qed

lemma recover_groups_spec:
  assumes ok: "kernel_ok K"
  shows "recover_groups K grace groups acc w = Some (r, w') \<Longrightarrow> recovered K groups acc w r w'"
proof (induction groups arbitrary: acc w)
  case Nil
  then show ?case by (auto simp: recovered_def List.map_filter_simps)
next
  case (Cons g groups)
  obtain po start marker where g: "g = (po, start, marker)" by (metis surj_pair)
  show ?case
  proof (cases po)
    case None
    have "recovered K [g] acc w (acc\<lparr>rg_malformed := rg_malformed acc @ [marker]\<rparr>) w"
      unfolding g None
      by (rule recoveredI [where gone = "[]" and new = "[]"]) (auto simp: List.map_filter_simps)
    moreover have "recovered K groups (acc\<lparr>rg_malformed := rg_malformed acc @ [marker]\<rparr>) w r w'"
      using Cons unfolding g None by simp
    ultimately show ?thesis by (rule recovered_Cons)
  next
    case (Some pgid)
    obtain d w1 where d: "run_state (group_reclaim_decision K pgid start) w = (d, w1)"
      by (metis surj_pair)
    note step = recovered_step [OF ok d]
    show ?thesis
    proof (cases d)
      case GONE
      with Cons d show ?thesis
        unfolding g Some by (intro recovered_Cons [OF step(1)]) auto
    next
      case UNRESOLVED
      with Cons d show ?thesis
        unfolding g Some by (intro recovered_Cons [OF step(2)]) auto
    next
      case RECLAIM
      obtain gone w2 where t:
        "terminate_one_group K pgid (case start of None \<Rightarrow> 0 | Some t \<Rightarrow> t) grace (Some marker) w1 = Some (gone, w2)"
        using Cons.prems d RECLAIM unfolding g Some by (auto split: option.splits)
      show ?thesis
        unfolding g Some
        by (rule recovered_Cons [OF step(3) [OF RECLAIM t]], rule Cons.IH)
          (use Cons.prems d RECLAIM t in \<open>auto simp: g Some split: if_splits bool.splits\<close>)
    qed
  qed
qed

lemma recover_groups_returns:
  assumes "clock_advances K"
  shows "\<exists>r w'. recover_groups K grace groups acc w = Some (r, w')"
proof (induction groups arbitrary: acc w)
  case (Cons g groups)
  obtain po start marker where g: "g = (po, start, marker)" by (metis surj_pair)
  show ?case
  proof (cases po)
    case (Some pgid)
    obtain d w1 where d: "run_state (group_reclaim_decision K pgid start) w = (d, w1)"
      by (metis surj_pair)
    obtain gone w2 where
        "terminate_one_group K pgid (case start of None \<Rightarrow> 0 | Some t \<Rightarrow> t) grace (Some marker) w1 = Some (gone, w2)"
      using terminate_one_group_returns [OF assms] by blast
    with Cons d Some g show ?thesis by (cases d; cases gone) auto
  qed (use Cons g in simp)
qed simp

section \<open>What recovery and job signals guarantee\<close>

text \<open>C14. Emergency recovery signals only proven processes: every signal it delivers is a
  \<open>SIGTERM\<close> or \<open>SIGKILL\<close> to a process for which evidence exists against a row with
  a positive recorded start time, and that row's group is reported as reaped or surviving. Rows
  with a malformed group id, and groups reported unresolved only, cause no signal.\<close>

theorem recovery_signals_only_proven:
  assumes "kernel_ok K" and "recover_owned_job_groups K groups grace w = Some (r, w')"
  shows "\<exists>new. w_sent w' = w_sent w @ new \<and>
    (\<forall>x \<in> set new. row_evidence K groups (rg_reaped r @ rg_surviving r) (w_now w) (w_now w') x)"
  using recover_groups_spec [OF assms(1) assms(2) [unfolded recover_owned_job_groups_def]]
  unfolding recovered_def by auto

text \<open>Emergency recovery accounts for every selected row: the rows with a malformed group
  id are reported by job id, in order, and every other group is reported exactly once as reaped,
  surviving or unresolved, or was seen without members during the run.\<close>

theorem recovery_accounts_for_every_group:
  assumes "kernel_ok K" and "recover_owned_job_groups K groups grace w = Some (r, w')"
  shows "rg_malformed r = map (snd \<circ> snd) (filter (\<lambda>g. fst g = None) groups) \<and>
    (\<exists>gone. mset (rg_reaped r @ rg_surviving r @ rg_unresolved r @ gone) = mset (List.map_filter fst groups) \<and>
      (\<forall>pgid \<in> set gone. seen_empty K (w_now w) (w_now w') pgid))"
  using recover_groups_spec [OF assms(1) assms(2) [unfolded recover_owned_job_groups_def]]
  unfolding recovered_def by auto

text \<open>C35. Emergency recovery returns: both polling loops end once the monotonic clock passes
  their deadlines, whatever the processes do.\<close>

theorem recovery_returns:
  assumes "clock_advances K"
  shows "\<exists>r w'. recover_owned_job_groups K groups grace w = Some (r, w')"
  unfolding recover_owned_job_groups_def by (rule recover_groups_returns [OF assms])

text \<open>A signal to the group of an active job reaches only processes for which evidence
  exists: the process carried the marker of this job, or showed the start time the job had
  recorded for its process id, or was met by the sweep of this call after the recorded leader had
  been seen in its slot.\<close>

theorem job_signal_only_proven:
  assumes "kernel_ok K" and "run_state (signal_owned_group K job sig) w = (job', w')"
  shows "\<exists>new. w_sent w' = w_sent w @ new \<and> (\<forall>(i, pid, s) \<in> set new. s = sig \<and>
    evidence K (gj_pgid job) (gj_start_ticks job) (gj_owned_members job) (Some (uuid_str (gj_id job)))
      (w_now w) (w_now w') i pid)"
  using signal_owned_group_justified [OF assms] unfolding justified_def by auto

section \<open>Concrete kernels\<close>

lemma sample_stat_facts:
  "stat_start_ticks (sample_stat ''100'') = Some 100"
  "stat_start_ticks (sample_stat ''200'') = Some 200"
  "stat_pgrp (sample_stat ''100'') = Some 10"
  "stat_pgrp (sample_stat ''200'') = Some 10"
  by code_simp+

lemma sample_names: "pid_of_name (lit ''10'') = Some 10" "pid_of_name (lit ''self'') = None"
  by code_simp+

lemma mortal_facts:
  "occupant (mortal_kernel stop) t pid = (if pid = 10 \<and> t < stop then Some 1 else None)"
  "ticks_at (mortal_kernel stop) t pid = (if pid = 10 \<and> t < stop then Some 100 else None)"
  "pgrp_at (mortal_kernel stop) t pid = (if pid = 10 \<and> t < stop then Some 10 else None)"
  "job_at (mortal_kernel stop) t pid = None"
  "k_listing (mortal_kernel stop) t = Some [lit ''10'', lit ''self'']"
  "\<not> k_pin_error (mortal_kernel stop) t" "\<not> k_send_error (mortal_kernel stop) t"
  "k_monotonic (mortal_kernel stop) t = int t"
  by (simp_all add: mortal_kernel_def occupant_def ticks_at_def pgrp_at_def job_at_def sample_stat_facts)

lemma race_facts:
  "occupant race_kernel t pid = (if pid = 10 then Some (if t < 3 then 1 else 2) else None)"
  "ticks_at race_kernel t pid = (if pid = 10 then Some (if t < 3 then 100 else 200) else None)"
  "pgrp_at race_kernel t pid = (if pid = 10 then Some 10 else None)"
  "job_at race_kernel t pid = None"
  "k_listing race_kernel t = Some [lit ''10'', lit ''self'']"
  "\<not> k_pin_error race_kernel t" "\<not> k_send_error race_kernel t"
  by (simp_all add: race_kernel_def occupant_def ticks_at_def pgrp_at_def job_at_def sample_stat_facts)

lemma unreadable_facts:
  "occupant unreadable_kernel t pid = (if pid = 10 then Some 1 else None)"
  "ticks_at unreadable_kernel t pid = (if pid = 10 \<and> t < 4 then Some 100 else None)"
  "pgrp_at unreadable_kernel t pid = (if pid = 10 \<and> t < 4 then Some 10 else None)"
  "k_listing unreadable_kernel t = Some [lit ''10'', lit ''self'']"
  by (simp_all add: unreadable_kernel_def occupant_def ticks_at_def pgrp_at_def job_at_def sample_stat_facts)

lemma sample_kernels_ok:
  "kernel_ok (mortal_kernel stop)" "kernel_ok race_kernel" "kernel_ok unreadable_kernel"
  by (auto simp: kernel_ok_def mortal_facts race_facts unreadable_facts split: if_splits)

lemma mortal_clock: "clock_advances (mortal_kernel stop)"
  unfolding clock_advances_def mortal_facts
proof
  fix d :: int
  show "\<exists>n. \<forall>m \<ge> n. d \<le> int m" by (intro exI [of _ "nat d"]) auto
qed

lemmas run_simps = classify_group_def group_has_members_def group_member_pids_def emit_def
  ledger_owned_members_def proven_member_ticks_def pin_and_signal_def view_alive_def
  observe_simps sample_names

lemma send_run:
  "run_state (pidfd_send_signal K pid i sig) w =
    (if \<not> k_send_error K (w_now w) \<and> occupant K (w_now w) pid = Some i
     then (True, w\<lparr>w_now := Suc (w_now w), w_sent := w_sent w @ [(i, pid, sig)]\<rparr>)
     else (False, w\<lparr>w_now := Suc (w_now w)\<rparr>))"
  by (simp add: pidfd_send_signal_def occupant_def)

lemma mortal_job_run:
  "run_state (signal_owned_group (mortal_kernel 30) sample_job SIGKILL) \<lparr>w_now = 0, w_sent = []\<rparr> =
    (sample_job\<lparr>gj_owned_members := [10 \<mapsto> 100]\<rparr>, \<lparr>w_now = 12, w_sent = [(1, 10, 9)]\<rparr>)"
  by (simp add: signal_owned_group_def owned_group_view_def sample_job_def SIGKILL_def
      run_simps send_run mortal_facts)

lemma mortal_recovery_run:
  "recover_owned_job_groups (mortal_kernel 40) sample_groups 0 \<lparr>w_now = 0, w_sent = []\<rparr> =
    Some (\<lparr>rg_reaped = [], rg_surviving = [10], rg_unresolved = [10], rg_malformed = [lit ''m'']\<rparr>,
      \<lparr>w_now = 41, w_sent = [(1, 10, 15), (1, 10, 9)]\<rparr>)"
  by (simp add: recover_owned_job_groups_def sample_groups_def group_reclaim_decision_def
      terminate_one_group_def wait_for_exit.simps wait_for_reap.simps run_simps send_run mortal_facts
      SIGTERM_def SIGKILL_def)

theorem recovery_signals_only_proven_witness:
  "\<exists>new. w_sent \<lparr>w_now = 41, w_sent = [(1, 10, 15), (1, 10, 9)]\<rparr> = w_sent \<lparr>w_now = 0, w_sent = []\<rparr> @ new \<and>
    (\<forall>x \<in> set new. row_evidence (mortal_kernel 40) sample_groups [10] 0 41 x)"
  using recovery_signals_only_proven [OF sample_kernels_ok(1) mortal_recovery_run] by simp

theorem recovery_accounts_for_every_group_witness:
  "\<exists>gone. mset ([10] @ [10] @ gone) = mset (List.map_filter fst sample_groups) \<and>
    (\<forall>pgid \<in> set gone. seen_empty (mortal_kernel 40) 0 41 pgid)"
  using recovery_accounts_for_every_group [OF sample_kernels_ok(1) mortal_recovery_run] by simp

theorem recovery_returns_witness:
  "\<exists>r w'. recover_owned_job_groups (mortal_kernel 40) sample_groups 5 \<lparr>w_now = 0, w_sent = []\<rparr> = Some (r, w')"
  by (rule recovery_returns [OF mortal_clock])

theorem job_signal_only_proven_witness:
  "\<exists>new. [(1, 10, 9)] = new \<and> (\<forall>(i, pid, s) \<in> set new. s = SIGKILL \<and>
    evidence (mortal_kernel 30) 10 (Some 100) Map.empty (Some (uuid_str 1)) 0 12 i pid)"
  using job_signal_only_proven [OF sample_kernels_ok(1) mortal_job_run] by (simp add: sample_job_def)

section \<open>Two gaps in the proof of ownership\<close>

text \<open>The sweep of a group is not atomic with the proof of its leader. In this history the
  recorded leader (process 1, start time 100) is seen in its slot; then it exits and an unrelated
  process 2 with another start time and without the marker of the job leads a new group of the
  same number. The sweep that follows records process 2 in the ledger of the job, and the signal is
  delivered to it.\<close>

theorem sweep_race:
  "kernel_ok race_kernel \<and>
   occupant race_kernel t 10 = Some (if t < 3 then 1 else 2) \<and>
   ticks_at race_kernel t 10 = Some (if t < 3 then 100 else 200) \<and>
   job_at race_kernel t 10 = None \<and>
   run_state (signal_owned_group race_kernel sample_job SIGKILL) \<lparr>w_now = 0, w_sent = []\<rparr> =
    (sample_job\<lparr>gj_owned_members := [10 \<mapsto> 200]\<rparr>, \<lparr>w_now = 12, w_sent = [(2, 10, 9)]\<rparr>)"
  by (simp add: sample_kernels_ok signal_owned_group_def owned_group_view_def sample_job_def SIGKILL_def
      run_simps send_run race_facts)

text \<open>A group whose files cannot be read at the first sweep is reported gone, although its leader
  lives throughout and nothing was signalled.\<close>

theorem unread_group_reported_gone:
  "kernel_ok unreadable_kernel \<and> occupant unreadable_kernel t 10 = Some 1 \<and>
   terminate_one_group unreadable_kernel 10 100 grace marker \<lparr>w_now = 0, w_sent = []\<rparr> =
     Some (True, \<lparr>w_now = 7, w_sent = []\<rparr>)"
  by (simp add: sample_kernels_ok terminate_one_group_def run_simps unreadable_facts)

end
