(* ===== verification/JobDb.thy ===== *)
theory JobDb
  imports JobTimes PyUuid Protocol GroupReclaim
begin

text \<open>
  The job rows and the SQL statements of \<open>worker.py\<close> that act on them. The table has two
  columns, an id and an opaque text; the statements read the text as a JSON document.

  A row is kept as what PostgreSQL makes of its text: a document, text that is not JSON (for which
  the guarded cast is NULL), or text that is JSON but that the cast to \<open>jsonb\<close> refuses. What
  depends on the server is a parameter of every statement: the clock, the collation, the order in
  which rows are scanned, the rows other transactions hold locked, the text form of numbers and
  containers, and a failure of the statement.
\<close>

section \<open>Documents\<close>

datatype stored = Doc json | NotJson | Uncastable

type_synonym jobs = "(uuid \<times> stored) list"
type_synonym hits = "(uuid \<times> json) list"

record Sql =
  sq_fault :: "pyerr option"
  sq_now :: pystr
  sq_lease :: pystr
  sq_cutoff :: pystr
  sq_less :: "pystr \<Rightarrow> pystr \<Rightarrow> bool"
  sq_text :: "json \<Rightarrow> pystr"
  sq_lower :: "pystr \<Rightarrow> pystr"
  sq_order :: "hits \<Rightarrow> hits"
  sq_locked :: "uuid \<Rightarrow> bool"

definition safe_payload :: "stored \<Rightarrow> json option res" where
  "safe_payload p = (case p of
      Doc d \<Rightarrow> Ok (Some d) | NotJson \<Rightarrow> Ok None | Uncastable \<Rightarrow> Raise DatabaseError)"

text \<open>The two field operators, as a value and as text; SQL NULL is \<open>None\<close>.\<close>

definition arrow :: "json option \<Rightarrow> string \<Rightarrow> json option" where
  "arrow v k = (case v of Some (JObj d) \<Rightarrow> map_of d (lit k) | _ \<Rightarrow> None)"

definition as_text :: "Sql \<Rightarrow> json option \<Rightarrow> pystr option" where
  "as_text Q v = (case v of
      None \<Rightarrow> None
    | Some JNull \<Rightarrow> None
    | Some (JStr s) \<Rightarrow> Some s
    | Some (JBool b) \<Rightarrow> Some (lit (if b then ''true'' else ''false''))
    | Some (JInt n) \<Rightarrow> Some (int_text n)
    | Some w \<Rightarrow> Some (sq_text Q w))"

definition state_field :: "json \<Rightarrow> string \<Rightarrow> json option" where
  "state_field d k = arrow (arrow (Some d) ''state'') k"

definition state_text :: "Sql \<Rightarrow> json \<Rightarrow> string \<Rightarrow> pystr option" where
  "state_text Q d k = as_text Q (state_field d k)"

text \<open>A comparison with NULL does not hold.\<close>

definition holds :: "pystr option \<Rightarrow> (pystr \<Rightarrow> bool) \<Rightarrow> bool" where
  "holds v P = (case v of None \<Rightarrow> False | Some s \<Rightarrow> P s)"

definition status_is :: "Sql \<Rightarrow> string \<Rightarrow> json \<Rightarrow> bool" where
  "status_is Q s d \<longleftrightarrow> state_text Q d ''status'' = Some (lit s)"

definition type_is :: "Sql \<Rightarrow> string \<Rightarrow> json \<Rightarrow> bool" where
  "type_is Q s d \<longleftrightarrow> as_text Q (arrow (Some d) ''type'') = Some (lit s)"

definition server_match :: "pystr \<Rightarrow> json \<Rightarrow> bool" where
  "server_match server d \<longleftrightarrow> arrow (Some d) ''server'' = Some (JStr server)"

definition cancel_requested :: "json \<Rightarrow> bool" where
  "cancel_requested d \<longleftrightarrow> canonical_timestamp (state_field d ''cancel_requested_at'')"

text \<open>
  \<open>jsonb_set\<close> with the default of creating the last key: intermediate keys are not created,
  a path through a scalar changes nothing, a scalar document and a text key into an array are errors.
\<close>

fun set_inner :: "string list \<Rightarrow> json \<Rightarrow> json \<Rightarrow> json res" where
  "set_inner [] v d = Ok d"
| "set_inner [k] v (JObj d) = Ok (JObj (dict_set (lit k) v d))"
| "set_inner (k # k' # ks) v (JObj d) = (case map_of d (lit k) of
      None \<Rightarrow> Ok (JObj d)
    | Some w \<Rightarrow> ebind (set_inner (k' # ks) v w) (\<lambda>w'. Ok (JObj (dict_set (lit k) w' d))))"
| "set_inner (k # ks) v (JList xs) = Raise DatabaseError"
| "set_inner (k # ks) v w = Ok w"

definition jsonb_set :: "json \<Rightarrow> string list \<Rightarrow> json \<Rightarrow> json res" where
  "jsonb_set d path v = (case d of
      JObj _ \<Rightarrow> set_inner path v d
    | JList _ \<Rightarrow> set_inner path v d
    | _ \<Rightarrow> Raise DatabaseError)"

fun jsonb_set_chain :: "json \<Rightarrow> (string list \<times> json) list \<Rightarrow> json res" where
  "jsonb_set_chain d [] = Ok d"
| "jsonb_set_chain d ((path, v) # updates) = ebind (jsonb_set d path v) (\<lambda>d'. jsonb_set_chain d' updates)"

section \<open>Statements\<close>

text \<open>
  A statement evaluates its condition on the rows it scans: all of them, or the ones an id selects.
  A text that cannot be cast makes the whole statement fail. An error leaves the table unchanged.
\<close>

fun select_rows :: "(uuid \<Rightarrow> bool) \<Rightarrow> (json \<Rightarrow> bool) \<Rightarrow> jobs \<Rightarrow> hits res" where
  "select_rows scan cond [] = Ok []"
| "select_rows scan cond ((i, p) # rows) =
    (if \<not> scan i then select_rows scan cond rows
     else ebind (safe_payload p) (\<lambda>d. ebind (select_rows scan cond rows) (\<lambda>hits.
       Ok (case d of Some d \<Rightarrow> if cond d then (i, d) # hits else hits | None \<Rightarrow> hits))))"

fun update_rows :: "(uuid \<Rightarrow> bool) \<Rightarrow> (json \<Rightarrow> bool) \<Rightarrow> (json \<Rightarrow> json res) \<Rightarrow> jobs \<Rightarrow> (hits \<times> jobs) res" where
  "update_rows scan cond upd [] = Ok ([], [])"
| "update_rows scan cond upd ((i, p) # rows) =
    ebind (if scan i then safe_payload p else Ok None) (\<lambda>d.
    ebind (update_rows scan cond upd rows) (\<lambda>(hits, rows').
      case d of
        Some d \<Rightarrow> if cond d then ebind (upd d) (\<lambda>d'. Ok ((i, d') # hits, (i, Doc d') # rows'))
                  else Ok (hits, (i, p) # rows')
      | None \<Rightarrow> Ok (hits, (i, p) # rows')))"

definition delete_rows :: "(uuid \<Rightarrow> bool) \<Rightarrow> jobs \<Rightarrow> jobs" where
  "delete_rows doomed rows = filter (\<lambda>(i, _). \<not> doomed i) rows"

text \<open>\<open>ORDER BY ... FOR UPDATE SKIP LOCKED LIMIT\<close>.\<close>

definition pick :: "Sql \<Rightarrow> nat \<Rightarrow> hits \<Rightarrow> uuid list" where
  "pick Q limit hits = take limit (filter (\<lambda>i. \<not> sq_locked Q i) (map fst (sq_order Q hits)))"

definition statement :: "Sql \<Rightarrow> 'a res \<Rightarrow> 'a res" where
  "statement Q body = (case sq_fault Q of Some e \<Rightarrow> Raise e | None \<Rightarrow> body)"

text \<open>A text parameter: the driver refuses NUL characters and cannot encode lone surrogates.\<close>

definition text_param :: "pystr \<Rightarrow> pystr res" where
  "text_param s = (if 0 \<in> set s then Raise DatabaseError else ebind (utf8_encode s) (\<lambda>_. Ok s))"

definition optional_param :: "pystr option \<Rightarrow> json res" where
  "optional_param s = (case s of None \<Rightarrow> Ok JNull | Some s \<Rightarrow> ebind (text_param s) (\<lambda>s. Ok (JStr s)))"

section \<open>Claiming\<close>

record Settings =
  st_server :: pystr
  st_worker_id :: pystr
  st_worker_incarnation :: pystr

definition is_number :: "json option \<Rightarrow> bool" where
  "is_number v = (case v of Some (JInt _) \<Rightarrow> True | Some (JFloat _) \<Rightarrow> True | _ \<Rightarrow> False)"

definition claim_version_predicate :: "Sql \<Rightarrow> json \<Rightarrow> bool" where
  "claim_version_predicate Q d \<longleftrightarrow> is_number (arrow (Some d) ''v'') \<and>
     as_text Q (arrow (Some d) ''v'') = Some (int_text CURRENT_PROTOCOL_VERSION)"

definition claimable :: "Sql \<Rightarrow> Settings \<Rightarrow> json \<Rightarrow> bool" where
  "claimable Q settings d \<longleftrightarrow> type_is Q ''command'' d \<and> claim_version_predicate Q d \<and>
     server_match (st_server settings) d \<and> status_is Q ''pending'' d"

definition claim_chain :: "Sql \<Rightarrow> Settings \<Rightarrow> json \<Rightarrow> json res" where
  "claim_chain Q settings d = jsonb_set_chain d
    [([''state'', ''status''], JStr (lit ''running'')),
     ([''state'', ''created_at''], JStr (case state_text Q d ''created_at'' of Some s \<Rightarrow> s | None \<Rightarrow> sq_now Q)),
     ([''state'', ''started_at''], JStr (sq_now Q)),
     ([''state'', ''worker_id''], JStr (st_worker_id settings)),
     ([''state'', ''worker_incarnation''], JStr (st_worker_incarnation settings)),
     ([''state'', ''lease_expires_at''], JStr (sq_lease Q)),
     ([''state'', ''updated_at''], JStr (sq_now Q))]"

definition claim_jobs :: "Sql \<Rightarrow> Settings \<Rightarrow> nat \<Rightarrow> jobs \<Rightarrow> (hits \<times> jobs) res" where
  "claim_jobs Q settings limit rows = statement Q (
    ebind (select_rows (\<lambda>_. True) (claimable Q settings) rows) (\<lambda>candidates.
      let chosen = pick Q limit candidates in
      update_rows (\<lambda>i. i \<in> set chosen) (\<lambda>_. True) (claim_chain Q settings) rows))"

definition claim_job :: "Sql \<Rightarrow> Settings \<Rightarrow> jobs \<Rightarrow> ((uuid \<times> json) option \<times> jobs) res" where
  "claim_job Q settings rows = ebind (claim_jobs Q settings 1 rows) (\<lambda>(claimed, rows').
    Ok (case claimed of [] \<Rightarrow> None | c # _ \<Rightarrow> Some c, rows'))"

section \<open>Owned rows\<close>

definition owned_running :: "Sql \<Rightarrow> Settings \<Rightarrow> json \<Rightarrow> bool" where
  "owned_running Q settings d \<longleftrightarrow> server_match (st_server settings) d \<and>
     state_text Q d ''worker_id'' = Some (st_worker_id settings) \<and>
     state_text Q d ''worker_incarnation'' = Some (st_worker_incarnation settings) \<and>
     status_is Q ''running'' d"

definition persist_chain :: "Sql \<Rightarrow> int \<Rightarrow> int \<Rightarrow> int \<Rightarrow> json \<Rightarrow> json res" where
  "persist_chain Q pid pgid start_ticks d = jsonb_set_chain d
    [([''state'', ''process_pid''], JInt pid),
     ([''state'', ''process_pgid''], JInt pgid),
     ([''state'', ''process_start_time_ticks''], JInt start_ticks),
     ([''state'', ''updated_at''], JStr (sq_now Q))]"

definition persist_process ::
    "Sql \<Rightarrow> uuid \<Rightarrow> int \<Rightarrow> int \<Rightarrow> int \<Rightarrow> Settings \<Rightarrow> jobs \<Rightarrow> (bool \<times> jobs) res" where
  "persist_process Q job_id pid pgid start_ticks settings rows = statement Q (
    ebind (update_rows (\<lambda>i. i = job_id) (owned_running Q settings) (persist_chain Q pid pgid start_ticks) rows)
      (\<lambda>(hits, rows'). Ok (length hits = 1, rows')))"

definition lease_chain :: "Sql \<Rightarrow> json \<Rightarrow> json res" where
  "lease_chain Q d = jsonb_set_chain d
    [([''state'', ''lease_expires_at''], JStr (sq_lease Q)),
     ([''state'', ''updated_at''], JStr (sq_now Q))]"

definition bulk_refresh_leases :: "Sql \<Rightarrow> Settings \<Rightarrow> uuid list \<Rightarrow> jobs \<Rightarrow> (uuid list \<times> jobs) res" where
  "bulk_refresh_leases Q settings root_ids rows = statement Q (
    ebind (update_rows (\<lambda>i. i \<in> set root_ids) (\<lambda>d. type_is Q ''command'' d \<and> owned_running Q settings d)
      (lease_chain Q) rows) (\<lambda>(hits, rows'). Ok (map fst hits, rows')))"

definition CANCEL_DISCOVERY_LIMIT :: nat where "CANCEL_DISCOVERY_LIMIT = 100"

definition discover_cancellations :: "Sql \<Rightarrow> Settings \<Rightarrow> jobs \<Rightarrow> uuid list res" where
  "discover_cancellations Q settings rows = statement Q (
    ebind (select_rows (\<lambda>_. True)
      (\<lambda>d. type_is Q ''command'' d \<and> owned_running Q settings d \<and> cancel_requested d) rows)
      (\<lambda>hits. Ok (take CANCEL_DISCOVERY_LIMIT (map fst (sq_order Q hits)))))"

section \<open>Cancellation\<close>

definition cancelled_result :: json where
  "cancelled_result = JObj [(lit ''stdout'', JStr []), (lit ''stderr'', JStr []), (lit ''exit_code'', JNull),
     (lit ''cancellation_note'', JStr (lit ''cancelled before the worker claimed the job''))]"

definition pending_chain :: "Sql \<Rightarrow> json \<Rightarrow> json res" where
  "pending_chain Q d = jsonb_set_chain d
    [([''state'', ''status''], JStr (lit ''cancelled'')),
     ([''state'', ''cancel_requested_at''], JStr (sq_now Q)),
     ([''state'', ''finished_at''], JStr (sq_now Q)),
     ([''state'', ''updated_at''], JStr (sq_now Q)),
     ([''result''], cancelled_result)]"

definition running_chain :: "Sql \<Rightarrow> json \<Rightarrow> json res" where
  "running_chain Q d = jsonb_set_chain d
    [([''state'', ''cancel_requested_at''], JStr (sq_now Q)),
     ([''state'', ''updated_at''], JStr (sq_now Q))]"

text \<open>\<open>str\<close> of a text value that may be NULL.\<close>

definition str_of :: "pystr option \<Rightarrow> pystr" where
  "str_of s = (case s of None \<Rightarrow> lit ''None'' | Some s \<Rightarrow> s)"

definition cancel_pending :: "Sql \<Rightarrow> uuid \<Rightarrow> pystr \<Rightarrow> jobs \<Rightarrow> (hits \<times> jobs) res" where
  "cancel_pending Q job_id server rows = statement Q (update_rows (\<lambda>i. i = job_id)
     (\<lambda>d. server_match server d \<and> status_is Q ''pending'' d) (pending_chain Q) rows)"

definition cancel_running :: "Sql \<Rightarrow> uuid \<Rightarrow> pystr \<Rightarrow> jobs \<Rightarrow> (hits \<times> jobs) res" where
  "cancel_running Q job_id server rows = statement Q (update_rows (\<lambda>i. i = job_id)
     (\<lambda>d. server_match server d \<and> status_is Q ''running'' d) (running_chain Q) rows)"

text \<open>The row by its id; the outer \<open>None\<close> is a missing row, the inner one the NULL document.\<close>

definition read_row :: "uuid \<Rightarrow> jobs \<Rightarrow> json option option res" where
  "read_row job_id rows = (case map_of rows job_id of
      None \<Rightarrow> Ok None
    | Some p \<Rightarrow> ebind (safe_payload p) (\<lambda>d. Ok (Some d)))"

text \<open>
  The three transactions of a cancellation; \<open>others\<close> is what other sessions commit between
  them.
\<close>

definition request_cancel ::
    "Sql \<Rightarrow> (jobs \<Rightarrow> jobs) \<Rightarrow> uuid \<Rightarrow> pystr \<Rightarrow> jobs \<Rightarrow> pystr res \<times> jobs" where
  "request_cancel Q others job_id server rows = (case cancel_pending Q job_id server rows of
      Inl e \<Rightarrow> (Raise e, rows)
    | Inr ((_, d) # _, rows1) \<Rightarrow> (Ok (str_of (state_text Q d ''status'')), rows1)
    | Inr ([], rows1) \<Rightarrow>
        (let rows2 = others rows1 in case cancel_running Q job_id server rows2 of
          Inl e \<Rightarrow> (Raise e, rows2)
        | Inr ((_, d) # _, rows3) \<Rightarrow> (Ok (str_of (state_text Q d ''status'')), rows3)
        | Inr ([], rows3) \<Rightarrow>
            (let rows4 = others rows3 in (statement Q (ebind (read_row job_id rows4) (\<lambda>row. case row of
              None \<Rightarrow> Raise (ValueError ''job not found'')
            | Some d \<Rightarrow>
                if str_of (as_text Q (arrow d ''server'')) \<noteq> server
                then Raise (ValueError ''job belongs to server '')
                else Ok (str_of (as_text Q (arrow (arrow d ''state'') ''status''))))), rows4))))"

section \<open>Stale leases\<close>

definition LEASE_RECOVERY_LIMIT :: nat where "LEASE_RECOVERY_LIMIT = 100"

definition recovery_result_expression :: "Sql \<Rightarrow> json \<Rightarrow> json" where
  "recovery_result_expression Q d =
    (let coalesce = (\<lambda>v dflt. case v of Some s \<Rightarrow> s | None \<Rightarrow> lit dflt) in
     JObj [(lit ''stdout'', JStr []), (lit ''stderr'', JStr []), (lit ''exit_code'', JNull),
       (lit ''recovery_note'', JStr (lit ''lease expired at '' @ coalesce (state_text Q d ''lease_expires_at'') ''<none>''
          @ lit ''; owning server '' @ coalesce (as_text Q (arrow (Some d) ''server'')) ''<unknown>''
          @ lit ''; owning worker '' @ coalesce (state_text Q d ''worker_id'') ''<unknown>''
          @ lit '' (incarnation '' @ coalesce (state_text Q d ''worker_incarnation'') ''<unknown>''
          @ lit '') stopped heartbeating; job marked failed rather than re-executed''))])"

definition stale_chain :: "Sql \<Rightarrow> json \<Rightarrow> json res" where
  "stale_chain Q d = jsonb_set_chain d
    [([''state'', ''status''], JStr (lit ''failed'')),
     ([''state'', ''finished_at''], JStr (sq_now Q)),
     ([''state'', ''recovered_at''], JStr (sq_now Q)),
     ([''state'', ''updated_at''], JStr (sq_now Q)),
     ([''result''], recovery_result_expression Q d)]"

definition stale :: "Sql \<Rightarrow> pystr \<Rightarrow> json \<Rightarrow> bool" where
  "stale Q server d \<longleftrightarrow> type_is Q ''command'' d \<and> server_match server d \<and> status_is Q ''running'' d \<and>
     canonical_timestamp (state_field d ''lease_expires_at'') \<and>
     holds (state_text Q d ''lease_expires_at'') (\<lambda>s. sq_less Q s (sq_now Q))"

definition recover_stale_jobs :: "Sql \<Rightarrow> pystr \<Rightarrow> jobs \<Rightarrow> (hits \<times> jobs) res" where
  "recover_stale_jobs Q server rows = statement Q (
    ebind (select_rows (\<lambda>_. True) (stale Q server) rows) (\<lambda>candidates.
      let chosen = pick Q LEASE_RECOVERY_LIMIT candidates in
      update_rows (\<lambda>i. i \<in> set chosen) (\<lambda>_. True) (stale_chain Q) rows))"

section \<open>Finishing\<close>

record JobResult =
  jr_status :: pystr
  jr_exit_code :: int
  jr_stdout :: pystr
  jr_stderr :: pystr
  jr_cancellation_note :: "pystr option"

definition read_job_status :: "Sql \<Rightarrow> uuid \<Rightarrow> jobs \<Rightarrow> pystr option res" where
  "read_job_status Q job_id rows = statement Q (ebind (read_row job_id rows) (\<lambda>row.
    Ok (map_option (\<lambda>d. str_of (as_text Q (arrow (arrow d ''state'') ''status''))) row)))"

definition finish_chain :: "Sql \<Rightarrow> JobResult \<Rightarrow> json \<Rightarrow> json \<Rightarrow> json res" where
  "finish_chain Q result note d = jsonb_set_chain d
    [([''state'', ''status''], JStr (if cancel_requested d then lit ''cancelled'' else jr_status result)),
     ([''state'', ''finished_at''], JStr (sq_now Q)),
     ([''state'', ''updated_at''], JStr (sq_now Q)),
     ([''result''], JObj [(lit ''stdout'', JStr (jr_stdout result)), (lit ''stderr'', JStr (jr_stderr result)),
        (lit ''exit_code'', JInt (jr_exit_code result)),
        (lit ''cancellation_note'',
          if cancel_requested d \<and> note = JNull then JStr (lit ''cancelled by request'') else note)])]"

definition finish_update :: "Sql \<Rightarrow> uuid \<Rightarrow> JobResult \<Rightarrow> pystr \<Rightarrow> jobs \<Rightarrow> (hits \<times> jobs) res" where
  "finish_update Q job_id result server rows =
    ebind (text_param (jr_status result)) (\<lambda>_. ebind (text_param (jr_stdout result)) (\<lambda>_.
    ebind (text_param (jr_stderr result)) (\<lambda>_. ebind (optional_param (jr_cancellation_note result)) (\<lambda>note.
    statement Q (
      if jr_exit_code result < - (2 ^ 31) \<or> 2 ^ 31 \<le> jr_exit_code result then Raise DatabaseError
      else update_rows (\<lambda>i. i = job_id)
        (\<lambda>d. type_is Q ''command'' d \<and> server_match server d \<and> status_is Q ''running'' d)
        (finish_chain Q result note) rows)))))"

definition finish_job ::
    "Sql \<Rightarrow> (jobs \<Rightarrow> jobs) \<Rightarrow> uuid \<Rightarrow> JobResult \<Rightarrow> pystr \<Rightarrow> jobs \<Rightarrow> pystr option res \<times> jobs" where
  "finish_job Q others job_id result server rows = (case finish_update Q job_id result server rows of
      Inl e \<Rightarrow> (Raise e, rows)
    | Inr ((_, d) # _, rows1) \<Rightarrow> (Ok (Some (str_of (state_text Q d ''status''))), rows1)
    | Inr ([], rows1) \<Rightarrow> (let rows2 = others rows1 in (read_job_status Q job_id rows2, rows2)))"

definition terminal_statuses :: "pystr list" where
  "terminal_statuses = [lit ''succeeded'', lit ''failed'', lit ''cancelled'']"

definition open_command :: "Sql \<Rightarrow> pystr \<Rightarrow> json \<Rightarrow> bool" where
  "open_command Q server d \<longleftrightarrow> type_is Q ''command'' d \<and> server_match server d \<and>
     holds (state_text Q d ''status'') (\<lambda>s. s \<notin> set terminal_statuses)"

definition fail_chain :: "Sql \<Rightarrow> string \<Rightarrow> pystr \<Rightarrow> json \<Rightarrow> json res" where
  "fail_chain Q key reason d = jsonb_set_chain d
    [([''state'', ''status''], JStr (lit ''failed'')),
     ([''state'', ''finished_at''], JStr (sq_now Q)),
     ([''state'', ''updated_at''], JStr (sq_now Q)),
     ([''state'', key], JStr reason)]"

text \<open>
  Both terminalizing writes: a database error that is not a lost connection is logged and answered
  with \<open>False\<close>; any other exception leaves.
\<close>

definition terminalize :: "Sql \<Rightarrow> string \<Rightarrow> uuid \<Rightarrow> pystr \<Rightarrow> pystr \<Rightarrow> jobs \<Rightarrow> (bool \<times> jobs) res" where
  "terminalize Q key job_id reason server rows =
    (let safe_reason = map (\<lambda>c. if c = 0 then replacement else c) reason in
     case ebind (text_param safe_reason) (\<lambda>r. statement Q (update_rows (\<lambda>i. i = job_id) (open_command Q server)
            (fail_chain Q key r) rows)) of
       Inr (_, rows') \<Rightarrow> Ok (True, rows')
     | Inl DatabaseError \<Rightarrow> Ok (False, rows)
     | Inl e \<Rightarrow> Raise e)"

definition quarantine_job :: "Sql \<Rightarrow> uuid \<Rightarrow> pystr \<Rightarrow> pystr \<Rightarrow> jobs \<Rightarrow> (bool \<times> jobs) res" where
  "quarantine_job Q = terminalize Q ''quarantine_reason''"

definition fail_unsupported_job :: "Sql \<Rightarrow> uuid \<Rightarrow> pystr \<Rightarrow> pystr \<Rightarrow> jobs \<Rightarrow> (bool \<times> jobs) res" where
  "fail_unsupported_job Q = terminalize Q ''unsupported_protocol_version_reason''"

section \<open>Retired protocol versions\<close>

definition integer_text :: "pystr \<Rightarrow> bool" where
  "integer_text s \<longleftrightarrow> (let ds = (case s of [] \<Rightarrow> [] | c # cs \<Rightarrow> if c = 45 then cs else s) in
     ds \<noteq> [] \<and> list_all is_digit ds)"

definition retired_version :: "Sql \<Rightarrow> json \<Rightarrow> bool" where
  "retired_version Q d = (let current = int_text CURRENT_PROTOCOL_VERSION in
     case as_text Q (arrow (Some d) ''v'') of
       Some s \<Rightarrow> if is_number (arrow (Some d) ''v'') \<and> integer_text s
         then take 1 s = [45] \<or> length s < length current \<or> length s = length current \<and> sq_less Q s current
         else True
     | None \<Rightarrow> True)"

definition retired_pending :: "Sql \<Rightarrow> pystr \<Rightarrow> json \<Rightarrow> bool" where
  "retired_pending Q server d \<longleftrightarrow> type_is Q ''command'' d \<and> server_match server d \<and> status_is Q ''pending'' d \<and>
     retired_version Q d"

text \<open>\<open>int(str(version))\<close> of the text of a JSON number.\<close>

definition parsed_version :: "Sql \<Rightarrow> json \<Rightarrow> int option" where
  "parsed_version Q d = (case as_text Q (arrow (Some d) ''v'') of
      Some s \<Rightarrow> if is_number (arrow (Some d) ''v'') \<and> integer_text s \<and> length s \<le> max_str_digits
        then Some (case s of [] \<Rightarrow> 0 | c # cs \<Rightarrow> if c = 45 then - digits_val cs else digits_val s)
        else None
    | None \<Rightarrow> None)"

definition unsupported_diagnostic :: "Sql \<Rightarrow> json \<Rightarrow> pystr" where
  "unsupported_diagnostic Q d = (case parsed_version Q d of
      Some _ \<Rightarrow> lit ''protocol version '' @ str_of (as_text Q (arrow (Some d) ''v''))
        @ lit '' is below the retired current version '' @ int_text CURRENT_PROTOCOL_VERSION
        @ lit ''; the job is failed closed''
    | None \<Rightarrow> lit (''payload '' @ [CHR 0x27] @ ''v'' @ [CHR 0x27] @ '' must be an integer protocol version; '')
        @ lit ''the malformed pending job is failed closed'')"

fun reap_batch :: "Sql \<Rightarrow> pystr \<Rightarrow> hits \<Rightarrow> jobs \<Rightarrow> (uuid list \<times> jobs) res" where
  "reap_batch Q server [] rows = Ok ([], rows)"
| "reap_batch Q server ((i, d) # batch) rows =
    (if (case parsed_version Q d of Some v \<Rightarrow> reaper_disposition v \<noteq> FAIL_CLOSED | None \<Rightarrow> False)
     then reap_batch Q server batch rows
     else ebind (fail_unsupported_job Q i (unsupported_diagnostic Q d) server rows) (\<lambda>(failed, rows1).
       ebind (reap_batch Q server batch rows1) (\<lambda>(reaped, rows2).
         Ok (if failed then i # reaped else reaped, rows2))))"

definition reap_unsupported_jobs :: "Sql \<Rightarrow> Settings \<Rightarrow> nat \<Rightarrow> jobs \<Rightarrow> (uuid list \<times> jobs) res" where
  "reap_unsupported_jobs Q settings limit rows = statement Q (
    ebind (select_rows (\<lambda>_. True) (retired_pending Q (st_server settings)) rows) (\<lambda>candidates.
      let chosen = pick Q limit candidates in
      reap_batch Q (st_server settings) (filter (\<lambda>(i, _). i \<in> set chosen) candidates) rows))"

section \<open>Deletion and collection\<close>

definition owned_chunk :: "Sql \<Rightarrow> pystr \<Rightarrow> uuid \<Rightarrow> json \<Rightarrow> bool" where
  "owned_chunk Q server root d \<longleftrightarrow> type_is Q ''output_chunk'' d \<and> server_match server d \<and>
     holds (as_text Q (arrow (Some d) ''thread'')) (\<lambda>s. sq_lower Q s = sq_lower Q (uuid_str root))"

definition delete_job_and_chunks :: "Sql \<Rightarrow> uuid \<Rightarrow> pystr \<Rightarrow> jobs \<Rightarrow> jobs res" where
  "delete_job_and_chunks Q job_id server rows = statement Q (
    ebind (read_row job_id rows) (\<lambda>row.
    if (case row of None \<Rightarrow> False | Some d \<Rightarrow> str_of (as_text Q (arrow d ''server'')) \<noteq> server)
    then Raise (ValueError ''job belongs to server '')
    else ebind (select_rows (\<lambda>i. i = job_id) (\<lambda>d. type_is Q ''command'' d \<and> server_match server d) rows) (\<lambda>roots.
      let rows1 = delete_rows (\<lambda>i. i \<in> set (map fst roots)) rows in
      ebind (select_rows (\<lambda>_. True) (owned_chunk Q server job_id) rows1) (\<lambda>chunks.
        Ok (delete_rows (\<lambda>i. i \<in> set (map fst chunks)) rows1)))))"

definition gc_phase_bound_hit :: "nat \<Rightarrow> nat \<Rightarrow> nat list \<Rightarrow> nat \<Rightarrow> nat \<Rightarrow> bool" where
  "gc_phase_bound_hit marked gc_roots chunk_counts orphans limit =
    (if limit = 0 then False
     else if marked \<ge> limit \<or> gc_roots \<ge> 1 \<or> orphans \<ge> limit then True
     else (\<exists>count \<in> set chunk_counts. count \<ge> limit))"

text \<open>A terminal root whose retention has passed.\<close>

definition expired_root :: "Sql \<Rightarrow> pystr \<Rightarrow> json \<Rightarrow> bool" where
  "expired_root Q server d \<longleftrightarrow> type_is Q ''command'' d \<and> server_match server d \<and>
     holds (state_text Q d ''status'') (\<lambda>s. s \<in> set terminal_statuses) \<and>
     canonical_timestamp (state_field d ''finished_at'') \<and>
     holds (state_text Q d ''finished_at'') (\<lambda>s. sq_less Q s (sq_cutoff Q))"

definition unmarked :: "json \<Rightarrow> bool" where
  "unmarked d \<longleftrightarrow> state_field d ''gc'' \<in> {None, Some JNull, Some (JBool False)}"

definition marked :: "json \<Rightarrow> bool" where
  "marked d \<longleftrightarrow> state_field d ''gc'' = Some (JBool True)"

definition mark_roots :: "Sql \<Rightarrow> pystr \<Rightarrow> nat \<Rightarrow> jobs \<Rightarrow> (uuid list \<times> jobs) res" where
  "mark_roots Q server limit rows = statement Q (
    ebind (select_rows (\<lambda>_. True) (\<lambda>d. expired_root Q server d \<and> unmarked d) rows) (\<lambda>candidates.
      let chosen = pick Q limit candidates in
      ebind (update_rows (\<lambda>i. i \<in> set chosen) (\<lambda>_. True)
        (\<lambda>d. jsonb_set d [''state'', ''gc''] (JBool True)) rows) (\<lambda>(hits, rows'). Ok (map fst hits, rows'))))"

definition drain_root :: "Sql \<Rightarrow> pystr \<Rightarrow> nat \<Rightarrow> jobs \<Rightarrow> (uuid list \<times> nat list \<times> jobs) res" where
  "drain_root Q server limit rows = statement Q (
    ebind (select_rows (\<lambda>_. True) (\<lambda>d. expired_root Q server d \<and> marked d) rows) (\<lambda>candidates.
      case pick Q 1 candidates of
        [] \<Rightarrow> Ok ([], [], rows)
      | root # _ \<Rightarrow>
          ebind (select_rows (\<lambda>_. True) (owned_chunk Q server root) rows) (\<lambda>chunks.
          let doomed = pick Q limit chunks;
              rows1 = delete_rows (\<lambda>i. i \<in> set doomed) rows in
          ebind (select_rows (\<lambda>_. True) (owned_chunk Q server root) rows1) (\<lambda>left.
            Ok ([root], [length doomed],
              if left = [] then delete_rows (\<lambda>i. i = root) rows1 else rows1)))))"

text \<open>
  The root a thread names: the text has the shape of a UUID in either case and is its id, and the
  row there is a command.
\<close>

definition ascii_lower :: "pystr \<Rightarrow> pystr" where
  "ascii_lower s = map (\<lambda>c. if 65 \<le> c \<and> c \<le> 90 then c + 32 else c) s"

definition has_root :: "Sql \<Rightarrow> hits \<Rightarrow> json \<Rightarrow> bool" where
  "has_root Q docs d \<longleftrightarrow> (\<exists>(i, r) \<in> set docs. type_is Q ''command'' r \<and>
     holds (as_text Q (arrow (Some d) ''thread'')) (\<lambda>s. ascii_lower s = uuid_str i))"

definition drop_orphans :: "Sql \<Rightarrow> pystr \<Rightarrow> nat \<Rightarrow> jobs \<Rightarrow> (uuid list \<times> jobs) res" where
  "drop_orphans Q server limit rows = statement Q (
    ebind (select_rows (\<lambda>_. True) (\<lambda>_. True) rows) (\<lambda>docs.
      let orphans = filter (\<lambda>(i, d). type_is Q ''output_chunk'' d \<and> server_match server d \<and> \<not> has_root Q docs d) docs;
          doomed = pick Q limit orphans in
      Ok (doomed, delete_rows (\<lambda>i. i \<in> set doomed) rows)))"

text \<open>The three transactions of a collection pass, with the commits of other sessions in between.\<close>

definition collect_transport ::
    "Sql \<Rightarrow> (jobs \<Rightarrow> jobs) \<Rightarrow> Settings \<Rightarrow> nat \<Rightarrow> jobs \<Rightarrow> (uuid list \<times> nat \<times> nat \<times> bool) res \<times> jobs" where
  "collect_transport Q others settings limit rows = (case mark_roots Q (st_server settings) limit rows of
      Inl e \<Rightarrow> (Raise e, rows)
    | Inr (roots_marked, rows1) \<Rightarrow>
        (let rows2 = others rows1 in case drain_root Q (st_server settings) limit rows2 of
          Inl e \<Rightarrow> (Raise e, rows2)
        | Inr (gc_roots, chunk_counts, rows3) \<Rightarrow>
            (let rows4 = others rows3 in case drop_orphans Q (st_server settings) limit rows4 of
              Inl e \<Rightarrow> (Raise e, rows4)
            | Inr (orphans, rows5) \<Rightarrow>
                (Ok (roots_marked, sum_list chunk_counts, length orphans,
                   gc_phase_bound_hit (length roots_marked) (length gc_roots) chunk_counts (length orphans) limit),
                 rows5))))"

section \<open>Publication and recovery queries\<close>

definition output_chain :: "Sql \<Rightarrow> json \<Rightarrow> json \<Rightarrow> json res" where
  "output_chain Q output d = jsonb_set_chain d
    [([''output''], output), ([''state'', ''updated_at''], JStr (sq_now Q))]"

text \<open>
  The publication transaction of \<open>publish_output\<close>: the root is retained, the chunk rows are
  inserted, the windows are written. \<open>None\<close> is a root that is gone or marked for collection.
\<close>

definition retained_root :: "Sql \<Rightarrow> pystr \<Rightarrow> json \<Rightarrow> bool" where
  "retained_root Q server d \<longleftrightarrow> type_is Q ''command'' d \<and> server_match server d \<and>
     state_text Q d ''gc'' \<noteq> Some (lit ''true'')"

definition publish_rows :: "Sql \<Rightarrow> uuid \<Rightarrow> pystr \<Rightarrow> hits \<Rightarrow> json \<Rightarrow> jobs \<Rightarrow> (bool \<times> jobs) res" where
  "publish_rows Q job_id server chunks output rows = statement Q (
    ebind (select_rows (\<lambda>i. i = job_id) (retained_root Q server) rows) (\<lambda>roots.
    if roots = [] then Ok (False, rows)
    else if \<not> distinct (map fst chunks) \<or> (\<exists>c \<in> set chunks. fst c \<in> set (map fst rows)) then Raise DatabaseError
    else let rows1 = rows @ map (\<lambda>(i, d). (i, Doc d)) chunks in
      ebind (update_rows (\<lambda>i. i = job_id) (\<lambda>d. type_is Q ''command'' d \<and> server_match server d)
        (output_chain Q output) rows1) (\<lambda>(_, rows2). Ok (True, rows2))))"

definition owned_running_groups :: "Sql \<Rightarrow> pystr \<Rightarrow> jobs \<Rightarrow> (int option \<times> int option \<times> pystr) list res" where
  "owned_running_groups Q incarnation rows = statement Q (
    ebind (select_rows (\<lambda>_. True) (\<lambda>d. type_is Q ''command'' d \<and> status_is Q ''running'' d \<and>
        state_text Q d ''worker_incarnation'' = Some incarnation \<and> state_text Q d ''process_pgid'' \<noteq> None) rows)
      (\<lambda>hits. Ok (map (\<lambda>(i, d). parse_owned_running_group_row i
         (case state_field d ''process_pgid'' of Some v \<Rightarrow> v | None \<Rightarrow> JNull)
         (state_field d ''process_start_time_ticks'')) hits)))"

end
