(* ===== verification/JobQueue.thy ===== *)
theory JobQueue
  imports JobDb "HOL-Library.Multiset"
begin

text \<open>
  Correctness of the job rows. Every write of \<open>worker.py\<close> to a row is shown to keep one promise
  (the locale of row writes, interpreted for each statement): what was submitted never changes, a
  status only moves forward, a finished job is final. The promise is lifted to whole transactions,
  and from there to runs that interleave the transactions of any number of sessions.
\<close>


section \<open>Specification vocabulary\<close>

definition has_state :: "json \<Rightarrow> bool" where
  "has_state d \<longleftrightarrow> (\<exists>ob st. d = JObj ob \<and> map_of ob (lit ''state'') = Some (JObj st))"

definition upd_at :: "string list \<Rightarrow> string list \<times> json \<Rightarrow> json option \<Rightarrow> json option" where
  "upd_at p u acc = (if fst u = p then Some (snd u) else acc)"

definition path_ok :: "string list \<times> json \<Rightarrow> bool" where
  "path_ok u = (case fst u of [k] \<Rightarrow> k \<noteq> ''state'' | [k, _] \<Rightarrow> k = ''state'' | _ \<Rightarrow> False)"

definition job_status :: "json \<Rightarrow> pystr option" where
  "job_status d = (case state_field d ''status'' of Some (JStr s) \<Rightarrow> Some s | _ \<Rightarrow> None)"

definition terminal :: "json \<Rightarrow> bool" where
  "terminal d \<longleftrightarrow> (\<exists>s \<in> set terminal_statuses. job_status d = Some s)"

text \<open>
  The promise of every write: the submitted part of a job never changes; its status stays, or a
  pending job starts running, or a job that is not terminal becomes terminal; and a terminal job
  keeps its status, its result and the time it finished.
\<close>

definition job_step :: "json \<Rightarrow> json \<Rightarrow> bool" where
  "job_step d d' \<longleftrightarrow>
    (\<forall>k \<in> set [''v'', ''type'', ''server'', ''request'']. arrow (Some d') k = arrow (Some d) k) \<and>
    (state_field d' ''status'' = state_field d ''status'' \<or>
     job_status d = Some (lit ''pending'') \<and> job_status d' = Some (lit ''running'') \<or>
     \<not> terminal d \<and> terminal d') \<and>
    (terminal d \<longrightarrow> arrow (Some d') ''result'' = arrow (Some d) ''result'' \<and>
      state_field d' ''finished_at'' = state_field d ''finished_at'')"

definition lower_letter :: "nat \<Rightarrow> bool" where
  "lower_letter c \<longleftrightarrow> 97 \<le> c \<and> c \<le> 122"

text \<open>What the statements rely on of PostgreSQL: the text of a number or a container never begins
  with a letter, and ordering and scanning only permute.\<close>

definition sql_ok :: "Sql \<Rightarrow> bool" where
  "sql_ok Q \<longleftrightarrow> (\<forall>v c cs. sq_text Q v = c # cs \<longrightarrow> \<not> lower_letter c) \<and> (\<forall>v. sq_text Q v \<noteq> []) \<and>
     (\<forall>hits. mset (sq_order Q hits) = mset hits)"

text \<open>One row after an update.\<close>

definition updated :: "(uuid \<Rightarrow> bool) \<Rightarrow> (json \<Rightarrow> bool) \<Rightarrow> (json \<Rightarrow> json res) \<Rightarrow> uuid \<Rightarrow> stored \<Rightarrow> stored" where
  "updated scan cond upd i p = (case p of
      Doc d \<Rightarrow> if scan i \<and> cond d then (case upd d of Inr d' \<Rightarrow> Doc d' | Inl _ \<Rightarrow> p) else p
    | _ \<Rightarrow> p)"

definition keyed :: "jobs \<Rightarrow> bool" where
  "keyed rows \<longleftrightarrow> distinct (map fst rows)"

text \<open>
  What a transaction of a server may do to the rows that were there: rows keep the promise or
  disappear, and only documents addressed to that server are touched.
\<close>

definition row_step :: "stored \<Rightarrow> stored \<Rightarrow> bool" where
  "row_step p p' \<longleftrightarrow> p = p' \<or> (\<exists>d d'. p = Doc d \<and> p' = Doc d' \<and> job_step d d')"

definition evolves :: "pystr \<Rightarrow> jobs \<Rightarrow> jobs \<Rightarrow> bool" where
  "evolves server rows rows' \<longleftrightarrow> keyed rows' \<and>
     (\<forall>i p'. map_of rows' i = Some p' \<longrightarrow> (\<exists>p. map_of rows i = Some p \<and> row_step p p')) \<and>
     (\<forall>i p. map_of rows i = Some p \<longrightarrow>
        map_of rows' i = Some p \<or> (\<exists>d. p = Doc d \<and> server_match server d))"

text \<open>The result of a job carries a terminal status.\<close>

definition finishes :: "Sql \<Rightarrow> JobResult \<Rightarrow> pystr \<Rightarrow> json \<Rightarrow> bool" where
  "finishes Q result server d \<longleftrightarrow> jr_status result \<in> set terminal_statuses \<and>
     type_is Q ''command'' d \<and> server_match server d \<and> status_is Q ''running'' d"

text \<open>
  A run interleaves committed transactions of any number of sessions of any servers. The second
  component of the state is the set of row ids ever used: ids are random UUIDs and are never used
  for a second row.
\<close>

datatype event = Submitted uuid | Claimed "uuid list" | Written

inductive db_step :: "pystr \<Rightarrow> jobs \<times> uuid set \<Rightarrow> event \<Rightarrow> jobs \<times> uuid set \<Rightarrow> bool" where
  submit: "i \<notin> used \<Longrightarrow> db_step server (rows, used) (Submitted i) (rows @ [(i, p)], insert i used)"
| claim: "sql_ok Q \<Longrightarrow> claim_jobs Q settings n rows = Inr (hits, rows') \<Longrightarrow>
    db_step (st_server settings) (rows, used) (Claimed (map fst hits)) (rows', used)"
| persist: "sql_ok Q \<Longrightarrow> persist_process Q i pid pgid ticks settings rows = Inr (b, rows') \<Longrightarrow>
    db_step (st_server settings) (rows, used) Written (rows', used)"
| refresh: "sql_ok Q \<Longrightarrow> bulk_refresh_leases Q settings ids rows = Inr (b2, rows') \<Longrightarrow>
    db_step (st_server settings) (rows, used) Written (rows', used)"
| cancel_p: "sql_ok Q \<Longrightarrow> cancel_pending Q i server rows = Inr (hits, rows') \<Longrightarrow>
    db_step server (rows, used) Written (rows', used)"
| cancel_r: "sql_ok Q \<Longrightarrow> cancel_running Q i server rows = Inr (hits, rows') \<Longrightarrow>
    db_step server (rows, used) Written (rows', used)"
| recover: "sql_ok Q \<Longrightarrow> recover_stale_jobs Q server rows = Inr (hits, rows') \<Longrightarrow>
    db_step server (rows, used) Written (rows', used)"
| finish: "sql_ok Q \<Longrightarrow> jr_status result \<in> set terminal_statuses \<Longrightarrow>
    finish_update Q i result server rows = Inr (hits, rows') \<Longrightarrow> db_step server (rows, used) Written (rows', used)"
| quarantine: "sql_ok Q \<Longrightarrow> quarantine_job Q i reason server rows = Inr (b, rows') \<Longrightarrow>
    db_step server (rows, used) Written (rows', used)"
| reap: "sql_ok Q \<Longrightarrow> reap_unsupported_jobs Q settings n rows = Inr (b2, rows') \<Longrightarrow>
    db_step (st_server settings) (rows, used) Written (rows', used)"
| delete: "delete_job_and_chunks Q i server rows = Inr rows' \<Longrightarrow> db_step server (rows, used) Written (rows', used)"
| mark: "sql_ok Q \<Longrightarrow> mark_roots Q server n rows = Inr (b2, rows') \<Longrightarrow> db_step server (rows, used) Written (rows', used)"
| drain: "sql_ok Q \<Longrightarrow> drain_root Q server n rows = Inr (b2, b3, rows') \<Longrightarrow>
    db_step server (rows, used) Written (rows', used)"
| orphans: "sql_ok Q \<Longrightarrow> drop_orphans Q server n rows = Inr (b2, rows') \<Longrightarrow>
    db_step server (rows, used) Written (rows', used)"
| publish: "sql_ok Q \<Longrightarrow> fst ` set chunks \<inter> used = {} \<Longrightarrow>
    publish_rows Q i server chunks windows rows = Inr (b, rows') \<Longrightarrow>
    db_step server (rows, used) Written (rows', used \<union> fst ` set chunks)"

inductive db_run :: "jobs \<times> uuid set \<Rightarrow> (pystr \<times> event) list \<Rightarrow> jobs \<times> uuid set \<Rightarrow> bool" where
  nil: "db_run s [] s"
| snoc: "db_run s es s' \<Longrightarrow> db_step server s' e s'' \<Longrightarrow> db_run s (es @ [(server, e)]) s''"

definition table_ok :: "jobs \<times> uuid set \<Rightarrow> bool" where
  "table_ok s \<longleftrightarrow> keyed (fst s) \<and> fst ` set (fst s) \<subseteq> snd s"

text \<open>What one committed transaction does, to rows that were there and to rows that were not.\<close>

definition step_effect :: "pystr \<Rightarrow> jobs \<times> uuid set \<Rightarrow> jobs \<times> uuid set \<Rightarrow> bool" where
  "step_effect server s s' \<longleftrightarrow> table_ok s' \<and> snd s \<subseteq> snd s' \<and>
    (\<forall>i p'. i \<in> snd s \<longrightarrow> map_of (fst s') i = Some p' \<longrightarrow> (\<exists>p. map_of (fst s) i = Some p \<and> row_step p p')) \<and>
    (\<forall>i p. map_of (fst s) i = Some p \<longrightarrow>
        map_of (fst s') i = Some p \<or> (\<exists>d. p = Doc d \<and> server_match server d))"

text \<open>Being past the pending state is stable.\<close>

definition not_pending :: "jobs \<Rightarrow> uuid \<Rightarrow> bool" where
  "not_pending rows i \<longleftrightarrow> (\<forall>d. map_of rows i = Some (Doc d) \<longrightarrow> job_status d \<noteq> Some (lit ''pending''))"

definition claims :: "(pystr \<times> event) list \<Rightarrow> uuid list" where
  "claims es = concat (map (\<lambda>(_, e). case e of Claimed ids \<Rightarrow> ids | _ \<Rightarrow> []) es)"

definition sample_sql :: Sql where
  "sample_sql = \<lparr>sq_fault = None, sq_now = lit ''2026-03-01T10:00:00.000000Z'',
     sq_lease = lit ''2026-03-01T10:01:00.000000Z'', sq_cutoff = lit ''2026-02-01T00:00:00.000000Z'',
     sq_less = (\<lambda>s t. s < t), sq_text = (\<lambda>_. [91]), sq_lower = ascii_lower, sq_order = (\<lambda>hits. hits),
     sq_locked = (\<lambda>_. False)\<rparr>"

definition sample_worker :: Settings where
  "sample_worker = \<lparr>st_server = lit ''alpha'', st_worker_id = lit ''w'', st_worker_incarnation = lit ''i''\<rparr>"

definition sample_doc :: "string \<Rightarrow> (string \<times> json) list \<Rightarrow> json" where
  "sample_doc server st = JObj [(lit ''v'', JInt 4), (lit ''type'', JStr (lit ''command'')),
     (lit ''server'', JStr (lit server)), (lit ''state'', JObj (map (\<lambda>(k, v). (lit k, v)) st))]"

definition sample_chunk :: json where
  "sample_chunk = JObj [(lit ''type'', JStr (lit ''output_chunk'')), (lit ''server'', JStr (lit ''alpha'')),
     (lit ''thread'', JStr (uuid_str 2))]"

definition pending_doc :: json where "pending_doc = sample_doc ''alpha'' [(''status'', JStr (lit ''pending''))]"

definition done_doc :: json where
  "done_doc = sample_doc ''alpha'' [(''status'', JStr (lit ''succeeded'')), (''gc'', JBool True),
     (''finished_at'', JStr (lit ''2026-01-01T00:00:00.000000Z''))]"

definition foreign_doc :: json where "foreign_doc = sample_doc ''beta'' [(''status'', JStr (lit ''pending''))]"

definition running_doc :: json where
  "running_doc = sample_doc ''alpha'' [(''status'', JStr (lit ''running'')),
     (''cancel_requested_at'', JStr (lit ''2026-01-01T00:00:00.000000Z''))]"

definition sample_rows :: jobs where
  "sample_rows = [(1, Doc pending_doc), (2, Doc done_doc), (3, Doc foreign_doc), (4, NotJson), (5, Doc running_doc),
     (6, Doc sample_chunk)]"

definition claimed_doc :: json where
  "claimed_doc = sample_doc ''alpha'' [(''status'', JStr (lit ''running'')), (''created_at'', JStr (sq_now sample_sql)),
     (''started_at'', JStr (sq_now sample_sql)), (''worker_id'', JStr (lit ''w'')), (''worker_incarnation'', JStr (lit ''i'')),
     (''lease_expires_at'', JStr (sq_lease sample_sql)), (''updated_at'', JStr (sq_now sample_sql))]"

definition sample_result :: JobResult where
  "sample_result = \<lparr>jr_status = lit ''succeeded'', jr_exit_code = 0, jr_stdout = [], jr_stderr = [],
     jr_cancellation_note = None\<rparr>"

section \<open>Documents with a state section\<close>

lemma state_field_has_state: "state_field d k = Some v \<Longrightarrow> has_state d"
  by (auto simp: state_field_def arrow_def has_state_def split: option.splits json.splits)

lemma set_state:
  assumes "has_state d"
  shows "\<exists>d'. jsonb_set d [''state'', k] v = Ok d' \<and> has_state d' \<and>
    (\<forall>k'. state_field d' k' = upd_at [''state'', k'] ([''state'', k], v) (state_field d k')) \<and>
    (\<forall>k'. k' \<noteq> ''state'' \<longrightarrow> arrow (Some d') k' = arrow (Some d) k')"
  using assms
  by (auto simp: has_state_def jsonb_set_def map_of_dict_set state_field_def arrow_def upd_at_def)

lemma set_top:
  assumes "has_state d" "k \<noteq> ''state''"
  shows "\<exists>d'. jsonb_set d [k] v = Ok d' \<and> has_state d' \<and> (\<forall>k'. state_field d' k' = state_field d k') \<and>
    (\<forall>k'. k' \<noteq> ''state'' \<longrightarrow> arrow (Some d') k' = upd_at [k'] ([k], v) (arrow (Some d) k'))"
  using assms
  by (auto simp: has_state_def jsonb_set_def map_of_dict_set state_field_def arrow_def upd_at_def)

lemma set_one:
  assumes "has_state d" "path_ok u"
  shows "\<exists>d'. jsonb_set d (fst u) (snd u) = Ok d' \<and> has_state d' \<and>
    (\<forall>k. state_field d' k = upd_at [''state'', k] u (state_field d k)) \<and>
    (\<forall>k. k \<noteq> ''state'' \<longrightarrow> arrow (Some d') k = upd_at [k] u (arrow (Some d) k))"
proof -
  obtain p v where u: "u = (p, v)" by (cases u)
  from assms(2) consider k where "p = [k]" "k \<noteq> ''state''" | k where "p = [''state'', k]"
    by (auto simp: u path_ok_def split: list.splits)
  then show ?thesis
  proof cases
    case (1 k)
    with set_top [OF assms(1) 1(2), of v] show ?thesis by (auto simp: u upd_at_def)
  next
    case (2 k)
    with set_state [OF assms(1), of k v] show ?thesis by (auto simp: u upd_at_def)
  qed
qed

lemma jsonb_set_chain_spec:
  assumes "has_state d" "list_all path_ok ups"
  shows "\<exists>d'. jsonb_set_chain d ups = Ok d' \<and> has_state d' \<and>
    (\<forall>k. state_field d' k = fold (upd_at [''state'', k]) ups (state_field d k)) \<and>
    (\<forall>k. k \<noteq> ''state'' \<longrightarrow> arrow (Some d') k = fold (upd_at [k]) ups (arrow (Some d) k))"
  using assms
proof (induction ups arbitrary: d)
  case (Cons u ups)
  from set_one [OF Cons.prems(1), of u] Cons.prems(2) obtain d1 where d1:
    "jsonb_set d (fst u) (snd u) = Ok d1" "has_state d1"
    "\<forall>k. state_field d1 k = upd_at [''state'', k] u (state_field d k)"
    "\<forall>k. k \<noteq> ''state'' \<longrightarrow> arrow (Some d1) k = upd_at [k] u (arrow (Some d) k)" by auto
  from Cons.IH [OF d1(2)] Cons.prems(2) obtain d2 where "jsonb_set_chain d1 ups = Ok d2" "has_state d2"
    "\<forall>k. state_field d2 k = fold (upd_at [''state'', k]) ups (state_field d1 k)"
    "\<forall>k. k \<noteq> ''state'' \<longrightarrow> arrow (Some d2) k = fold (upd_at [k]) ups (arrow (Some d1) k)" by auto
  with d1 show ?case by (cases u) auto
qed simp

section \<open>The life of a job\<close>

lemma int_text_no_letter: "int_text n = c # cs \<Longrightarrow> \<not> lower_letter c"
  using int_text_head [of n] by (auto simp: lower_letter_def is_digit_def)

lemma as_text_word:
  assumes ok: "sql_ok Q" and w: "w = c # cs" "lower_letter (of_char c)" "w \<noteq> ''true''" "w \<noteq> ''false''"
  shows "as_text Q v = Some (lit w) \<longleftrightarrow> v = Some (JStr (lit w))"
proof (cases v)
  case (Some j)
  have hd: "lit w = of_char c # lit cs" using w by (simp add: lit_Cons)
  show ?thesis
  proof (cases j)
    case (JBool b)
    with Some w show ?thesis by (auto simp: as_text_def)
  next
    case (JInt n)
    have "int_text n \<noteq> lit w" using int_text_no_letter [of n "of_char c" "lit cs"] hd w(2) by metis
    with Some JInt show ?thesis by (simp add: as_text_def)
  next
    case (JStr s)
    with Some show ?thesis by (auto simp: as_text_def)
  qed (use Some ok hd w(2) in \<open>auto simp: as_text_def sql_ok_def\<close>)
qed (simp add: as_text_def)

lemma status_word:
  assumes "sql_ok Q"
  shows "status_is Q ''pending'' d \<longleftrightarrow> state_field d ''status'' = Some (JStr (lit ''pending''))"
    and "status_is Q ''running'' d \<longleftrightarrow> state_field d ''status'' = Some (JStr (lit ''running''))"
    and "type_is Q ''command'' d \<longleftrightarrow> arrow (Some d) ''type'' = Some (JStr (lit ''command''))"
    and "type_is Q ''output_chunk'' d \<longleftrightarrow> arrow (Some d) ''type'' = Some (JStr (lit ''output_chunk''))"
  unfolding status_is_def type_is_def state_text_def
  by (rule as_text_word [OF assms refl]; simp add: lower_letter_def)+

section \<open>Effects of statements\<close>

lemma safe_payload_simps [simp]:
  "safe_payload (Doc d) = Inr (Some d)" "safe_payload NotJson = Inr None" "safe_payload Uncastable = Inl DatabaseError"
  by (simp_all add: safe_payload_def)

lemma update_rows_spec:
  assumes "update_rows scan cond upd rows = Inr (hits, rows')"
  shows "rows' = map (\<lambda>(i, p). (i, updated scan cond upd i p)) rows"
    and "set hits = {(i, d'). \<exists>d. (i, Doc d) \<in> set rows \<and> scan i \<and> cond d \<and> upd d = Inr d'}"
    and "\<And>i d. (i, Doc d) \<in> set rows \<Longrightarrow> scan i \<Longrightarrow> cond d \<Longrightarrow> \<exists>d'. upd d = Inr d'"
  using assms
proof (induction rows arbitrary: hits rows')
  case (Cons r rows)
  obtain i p where r: "r = (i, p)" by (cases r)
  {
    case 1
    with Cons.IH(1) show ?case
      by (cases p) (auto simp: r updated_def split: if_splits)
  next
    case 2
    with Cons.IH(2) show ?case
      by (cases p) (auto simp: r split: if_splits)
  next
    case (3 j d)
    then show ?case
      using Cons.IH(3) by (cases p) (auto simp: r split: if_splits)
  }
qed auto

lemma select_rows_spec:
  assumes "select_rows scan cond rows = Inr hits"
  shows "set hits = {(i, d). (i, Doc d) \<in> set rows \<and> scan i \<and> cond d}"
  using assms
proof (induction rows arbitrary: hits)
  case (Cons r rows)
  obtain i p where r: "r = (i, p)" by (cases r)
  from Cons show ?case
    by (cases p) (auto simp: r split: if_splits)
qed auto

lemma keyed_lookup: "keyed rows \<Longrightarrow> (i, p) \<in> set rows \<longleftrightarrow> map_of rows i = Some p"
  by (simp add: keyed_def map_of_eq_Some_iff)

lemma lookup_updated:
  "map_of (map (\<lambda>(i, p). (i, f i p)) rows) i = map_option (f i) (map_of rows i)"
  by (induction rows) auto

lemma lookup_delete: "map_of (delete_rows doomed rows) i = (if doomed i then None else map_of rows i)"
  by (induction rows) (auto simp: delete_rows_def)

lemma keyed_update: "keyed rows \<Longrightarrow> keyed (map (\<lambda>(i, p). (i, f i p)) rows)"
  unfolding keyed_def by (induction rows) force+

lemma keyed_delete: "keyed rows \<Longrightarrow> keyed (delete_rows doomed rows)"
  unfolding keyed_def delete_rows_def by (rule distinct_map_filter)

lemma pick_subset: "sql_ok Q \<Longrightarrow> set (pick Q n hits) \<subseteq> fst ` set hits"
proof -
  assume "sql_ok Q"
  then have "set (sq_order Q hits) = set hits" by (metis sql_ok_def set_mset_mset)
  then show ?thesis
    unfolding pick_def by (auto dest!: in_set_takeD)
qed

lemma pick_length: "length (pick Q n hits) \<le> n"
  by (simp add: pick_def)

text \<open>A row that was picked satisfies the condition it was selected by.\<close>

lemma picked_cond:
  assumes "sql_ok Q" "keyed rows" "select_rows scan cond rows = Inr hits" "i \<in> set (pick Q n hits)"
    "map_of rows i = Some p"
  shows "\<exists>d. p = Doc d \<and> cond d \<and> scan i"
proof -
  from pick_subset [OF assms(1)] assms(4) obtain d where "(i, d) \<in> set hits" by force
  with select_rows_spec [OF assms(3)] have "(i, Doc d) \<in> set rows" "scan i" "cond d" by auto
  with assms(2,5) show ?thesis by (auto simp: keyed_lookup)
qed

lemma row_step_refl [simp]: "row_step p p"
  by (simp add: row_step_def)

lemma evolves_refl [simp]: "keyed rows \<Longrightarrow> evolves server rows rows"
  by (simp add: evolves_def)

lemma evolves_delete:
  assumes "keyed rows" "\<And>i p. doomed i \<Longrightarrow> map_of rows i = Some p \<Longrightarrow> \<exists>d. p = Doc d \<and> server_match server d"
  shows "evolves server rows (delete_rows doomed rows)"
  using assms by (simp add: evolves_def keyed_delete lookup_delete)

lemma job_step_terminal:
  assumes "job_step d d'" "terminal d"
  shows "terminal d' \<and> state_field d' ''status'' = state_field d ''status'' \<and>
    arrow (Some d') ''result'' = arrow (Some d) ''result'' \<and>
    state_field d' ''finished_at'' = state_field d ''finished_at''"
proof -
  have "job_status d \<noteq> Some (lit ''pending'')" using assms(2) by (auto simp: terminal_def terminal_statuses_def)
  with assms have "state_field d' ''status'' = state_field d ''status''" by (auto simp: job_step_def)
  with assms show ?thesis by (auto simp: job_step_def terminal_def job_status_def)
qed

lemma job_step_trans:
  assumes 1: "job_step d1 d2" and 2: "job_step d2 d3"
  shows "job_step d1 d3"
proof (cases "terminal d1")
  case True
  from job_step_terminal [OF 1 True] job_step_terminal [OF 2] 1 2 show ?thesis
    by (auto simp: job_step_def)
next
  case False
  have pr: "job_status d = Some (lit ''running'') \<Longrightarrow> job_status d \<noteq> Some (lit ''pending'')" for d by auto
  have same: "state_field d = state_field d' \<Longrightarrow> terminal d = terminal d'" for d d'
    by (simp add: terminal_def job_status_def)
  have st: "state_field d ''status'' = state_field d' ''status'' \<Longrightarrow> job_status d = job_status d' \<and> terminal d = terminal d'"
    for d d' by (simp add: terminal_def job_status_def)
  have nt: "job_status d = Some (lit ''pending'') \<or> job_status d = Some (lit ''running'') \<Longrightarrow> \<not> terminal d" for d
    by (auto simp: terminal_def terminal_statuses_def)
  show ?thesis
  proof (cases "terminal d2")
    case True
    from job_step_terminal [OF 2 True] 1 2 False show ?thesis by (auto simp: job_step_def)
  next
    case nt2: False
    show ?thesis
      using 1 2 False nt2 st [of d2 d1] st [of d3 d2] pr [of d2] nt
      unfolding job_step_def by auto
  qed
qed

lemma row_step_trans: "row_step p1 p2 \<Longrightarrow> row_step p2 p3 \<Longrightarrow> row_step p1 p3"
  by (auto simp: row_step_def intro: job_step_trans)

lemma evolves_trans:
  assumes "evolves server rows1 rows2" "evolves server rows2 rows3"
  shows "evolves server rows1 rows3"
  unfolding evolves_def
proof (intro conjI allI impI)
  show "keyed rows3" using assms(2) by (simp add: evolves_def)
next
  fix i p3
  assume "map_of rows3 i = Some p3"
  with assms(2) obtain p2 where "map_of rows2 i = Some p2" "row_step p2 p3" unfolding evolves_def by blast
  with assms(1) show "\<exists>p. map_of rows1 i = Some p \<and> row_step p p3"
    unfolding evolves_def using row_step_trans by blast
next
  fix i p
  assume p: "map_of rows1 i = Some p"
  with assms(1) consider "map_of rows2 i = Some p" | "\<exists>d. p = Doc d \<and> server_match server d"
    unfolding evolves_def by blast
  then show "map_of rows3 i = Some p \<or> (\<exists>d. p = Doc d \<and> server_match server d)"
    using assms(2) unfolding evolves_def by cases blast+
qed

text \<open>The contract of a write: what it makes of a row its condition selects keeps the promise.\<close>

locale row_write =
  fixes Q :: Sql and server :: pystr and cond :: "json \<Rightarrow> bool" and upd :: "json \<Rightarrow> json res"
  assumes writes: "sql_ok Q \<Longrightarrow> cond d \<Longrightarrow> upd d = Inr d' \<Longrightarrow> job_step d d'"
    and scoped: "cond d \<Longrightarrow> server_match server d"
begin

lemma update_evolves_if:
  assumes "sql_ok Q" "keyed rows" "update_rows scan c upd rows = Inr (hits, rows')"
    and sel: "\<And>i d. map_of rows i = Some (Doc d) \<Longrightarrow> scan i \<Longrightarrow> c d \<Longrightarrow> cond d"
  shows "evolves server rows rows'"
proof -
  let ?f = "updated scan c upd"
  have "row_step p (?f i p)" "?f i p = p \<or> (\<exists>d. p = Doc d \<and> server_match server d)"
    if "map_of rows i = Some p" for i p
    using that sel [of i] writes [OF assms(1)] scoped
    by (auto simp: updated_def row_step_def split: stored.splits sum.splits)
  then show ?thesis
    unfolding evolves_def update_rows_spec(1) [OF assms(3)] lookup_updated
    using keyed_update [OF assms(2)] by auto
qed

lemma update_evolves:
  assumes "sql_ok Q" "keyed rows" "update_rows scan cond upd rows = Inr (hits, rows')"
  shows "evolves server rows rows'"
  using update_evolves_if [OF assms] by simp

lemma picked_update_evolves:
  assumes "sql_ok Q" "keyed rows" "select_rows (\<lambda>_. True) cond rows = Inr candidates"
    "update_rows (\<lambda>i. i \<in> set (pick Q n candidates)) (\<lambda>_. True) upd rows = Inr (hits, rows')"
  shows "evolves server rows rows'"
  using update_evolves_if [OF assms(1,2,4)] picked_cond [OF assms(1,2,3)] by blast

end

section \<open>Every write keeps the promise\<close>

lemma chain_step:
  assumes "has_state d" "list_all path_ok ups"
    and ids: "list_all (\<lambda>u. fst u \<notin> set [[''v''], [''type''], [''server''], [''request'']]) ups"
    and status: "\<not> terminal d \<and> (\<exists>s \<in> set terminal_statuses.
          fold (upd_at [''state'', ''status'']) ups (state_field d ''status'') = Some (JStr s))
        \<or> state_field d ''status'' = Some (JStr (lit ''pending'')) \<and>
          fold (upd_at [''state'', ''status'']) ups (state_field d ''status'') = Some (JStr (lit ''running''))
        \<or> list_all (\<lambda>u. fst u \<notin> set [[''state'', ''status''], [''state'', ''finished_at''], [''result'']]) ups"
  shows "\<exists>d'. jsonb_set_chain d ups = Inr d' \<and> job_step d d'"
proof -
  from jsonb_set_chain_spec [OF assms(1,2)] obtain d' where d': "jsonb_set_chain d ups = Inr d'"
    and sf: "\<And>k. state_field d' k = fold (upd_at [''state'', k]) ups (state_field d k)"
    and tf: "\<And>k. k \<noteq> ''state'' \<Longrightarrow> arrow (Some d') k = fold (upd_at [k]) ups (arrow (Some d) k)" by auto
  have keep: "fold (upd_at p) us v = v" if "list_all (\<lambda>u. fst u \<noteq> p) us" for p us v
    using that by (induction us arbitrary: v) (auto simp: upd_at_def)
  have "\<forall>k \<in> set [''v'', ''type'', ''server'', ''request'']. arrow (Some d') k = arrow (Some d) k"
    using ids by (auto simp: tf list_all_iff intro!: keep)
  moreover have "\<not> terminal d \<and> terminal d' \<or>
      job_status d = Some (lit ''pending'') \<and> job_status d' = Some (lit ''running'') \<or>
      state_field d' ''status'' = state_field d ''status'' \<and> arrow (Some d') ''result'' = arrow (Some d) ''result'' \<and>
      state_field d' ''finished_at'' = state_field d ''finished_at''"
    using status
  proof (elim disjE)
    assume "list_all (\<lambda>u. fst u \<notin> set [[''state'', ''status''], [''state'', ''finished_at''], [''result'']]) ups"
    then have "state_field d' ''status'' = state_field d ''status''" "arrow (Some d') ''result'' = arrow (Some d) ''result''"
      "state_field d' ''finished_at'' = state_field d ''finished_at''"
      by (auto simp: sf tf list_all_iff intro!: keep)
    then show ?thesis by simp
  qed (auto simp: sf [symmetric] job_status_def terminal_def)
  moreover have "job_status d = Some (lit ''pending'') \<Longrightarrow> \<not> terminal d"
    by (auto simp: terminal_def terminal_statuses_def)
  ultimately have "job_step d d'" unfolding job_step_def by auto
  with d' show ?thesis by simp
qed

lemmas row_conds = claimable_def owned_running_def stale_def open_command_def expired_root_def retained_root_def finishes_def

lemmas row_chains = claim_chain_def persist_chain_def lease_chain_def pending_chain_def running_chain_def
  stale_chain_def finish_chain_def fail_chain_def

lemma not_terminal:
  "state_field d ''status'' = Some (JStr (lit ''pending'')) \<Longrightarrow> \<not> terminal d"
  "state_field d ''status'' = Some (JStr (lit ''running'')) \<Longrightarrow> \<not> terminal d"
  by (auto simp: terminal_def terminal_statuses_def job_status_def)

lemma open_command_open:
  assumes "open_command Q server d"
  shows "has_state d \<and> \<not> terminal d"
proof -
  from assms obtain s where s: "state_text Q d ''status'' = Some s" "s \<notin> set terminal_statuses"
    by (auto simp: open_command_def holds_def split: option.splits)
  then have "has_state d"
    by (auto simp: state_text_def as_text_def split: option.splits intro: state_field_has_state)
  moreover from s have "\<not> terminal d"
    by (auto simp: terminal_def job_status_def state_text_def as_text_def split: option.splits json.splits)
  ultimately show ?thesis by simp
qed

lemma chain_step_result:
  assumes "jsonb_set_chain d ups = Inr d'" "has_state d" "list_all path_ok ups"
    "list_all (\<lambda>u. fst u \<notin> set [[''v''], [''type''], [''server''], [''request'']]) ups"
    "\<not> terminal d \<and> (\<exists>s \<in> set terminal_statuses.
          fold (upd_at [''state'', ''status'']) ups (state_field d ''status'') = Some (JStr s))
        \<or> state_field d ''status'' = Some (JStr (lit ''pending'')) \<and>
          fold (upd_at [''state'', ''status'']) ups (state_field d ''status'') = Some (JStr (lit ''running''))
        \<or> list_all (\<lambda>u. fst u \<notin> set [[''state'', ''status''], [''state'', ''finished_at''], [''result'']]) ups"
  shows "job_step d d'"
  using chain_step [OF assms(2-5)] assms(1) by auto

lemmas chain_evals = path_ok_def upd_at_def terminal_statuses_def

interpretation claim_write: row_write Q "st_server settings" "claimable Q settings" "claim_chain Q settings" for Q settings
proof
  fix d d'
  assume ok: "sql_ok Q" and c: "claimable Q settings d" and u: "claim_chain Q settings d = Inr d'"
  from ok c have p: "state_field d ''status'' = Some (JStr (lit ''pending''))"
    by (simp add: claimable_def status_word)
  show "job_step d d'"
    by (rule chain_step_result [OF u [unfolded claim_chain_def] state_field_has_state [OF p]])
      (simp_all add: chain_evals p)
qed (auto simp: row_conds)

interpretation persist_write: row_write Q "st_server settings" "owned_running Q settings" "persist_chain Q pid pgid ticks"
  for Q settings pid pgid ticks
proof
  fix d d'
  assume ok: "sql_ok Q" and c: "owned_running Q settings d" and u: "persist_chain Q pid pgid ticks d = Inr d'"
  from ok c have p: "state_field d ''status'' = Some (JStr (lit ''running''))"
    by (simp add: owned_running_def status_word)
  show "job_step d d'"
    by (rule chain_step_result [OF u [unfolded persist_chain_def] state_field_has_state [OF p]])
      (simp_all add: chain_evals)
qed (auto simp: row_conds)

interpretation lease_write: row_write Q "st_server settings" "\<lambda>d. type_is Q ''command'' d \<and> owned_running Q settings d" "lease_chain Q"
  for Q settings
proof
  fix d d'
  assume ok: "sql_ok Q" and c: "type_is Q ''command'' d \<and> owned_running Q settings d" and u: "lease_chain Q d = Inr d'"
  from ok c have p: "state_field d ''status'' = Some (JStr (lit ''running''))"
    by (simp add: owned_running_def status_word)
  show "job_step d d'"
    by (rule chain_step_result [OF u [unfolded lease_chain_def] state_field_has_state [OF p]])
      (simp_all add: chain_evals)
qed (auto simp: row_conds)

interpretation pending_write: row_write Q server "\<lambda>d. server_match server d \<and> status_is Q ''pending'' d" "pending_chain Q"
  for Q server
proof
  fix d d'
  assume ok: "sql_ok Q" and c: "server_match server d \<and> status_is Q ''pending'' d" and u: "pending_chain Q d = Inr d'"
  from ok c have p: "state_field d ''status'' = Some (JStr (lit ''pending''))" by (simp add: status_word)
  show "job_step d d'"
    by (rule chain_step_result [OF u [unfolded pending_chain_def] state_field_has_state [OF p]])
      (simp_all add: chain_evals not_terminal(1) [OF p])
qed (auto simp: row_conds)

interpretation running_write: row_write Q server "\<lambda>d. server_match server d \<and> status_is Q ''running'' d" "running_chain Q"
  for Q server
proof
  fix d d'
  assume ok: "sql_ok Q" and c: "server_match server d \<and> status_is Q ''running'' d" and u: "running_chain Q d = Inr d'"
  from ok c have p: "state_field d ''status'' = Some (JStr (lit ''running''))" by (simp add: status_word)
  show "job_step d d'"
    by (rule chain_step_result [OF u [unfolded running_chain_def] state_field_has_state [OF p]])
      (simp_all add: chain_evals)
qed (auto simp: row_conds)

interpretation stale_write: row_write Q server "stale Q server" "stale_chain Q" for Q server
proof
  fix d d'
  assume ok: "sql_ok Q" and c: "stale Q server d" and u: "stale_chain Q d = Inr d'"
  from ok c have p: "state_field d ''status'' = Some (JStr (lit ''running''))" by (simp add: stale_def status_word)
  show "job_step d d'"
    by (rule chain_step_result [OF u [unfolded stale_chain_def] state_field_has_state [OF p]])
      (simp_all add: chain_evals not_terminal(2) [OF p])
qed (auto simp: row_conds)

interpretation finish_write: row_write Q server "finishes Q result server" "finish_chain Q result nt"
  for Q result server nt
proof
  fix d d'
  assume ok: "sql_ok Q" and c: "finishes Q result server d" and u: "finish_chain Q result nt d = Inr d'"
  from ok c have p: "state_field d ''status'' = Some (JStr (lit ''running''))" by (simp add: finishes_def status_word)
  show "job_step d d'"
    using c
    by (intro chain_step_result [OF u [unfolded finish_chain_def] state_field_has_state [OF p]])
      (auto simp: chain_evals not_terminal(2) [OF p] finishes_def)
qed (auto simp: row_conds)

interpretation quarantine_write: row_write Q server "open_command Q server" "fail_chain Q ''quarantine_reason'' reason"
  for Q server reason
proof
  fix d d'
  assume c: "open_command Q server d" and u: "fail_chain Q ''quarantine_reason'' reason d = Inr d'"
  show "job_step d d'"
    using open_command_open [OF c]
    by (intro chain_step_result [OF u [unfolded fail_chain_def]]) (simp_all add: chain_evals)
qed (auto simp: row_conds)

interpretation unsupported_write: row_write Q server "open_command Q server"
    "fail_chain Q ''unsupported_protocol_version_reason'' reason" for Q server reason
proof
  fix d d'
  assume c: "open_command Q server d" and u: "fail_chain Q ''unsupported_protocol_version_reason'' reason d = Inr d'"
  show "job_step d d'"
    using open_command_open [OF c]
    by (intro chain_step_result [OF u [unfolded fail_chain_def]]) (simp_all add: chain_evals)
qed (auto simp: row_conds)

interpretation mark_write: row_write Q server "\<lambda>d. expired_root Q server d \<and> unmarked d"
    "\<lambda>d. jsonb_set d [''state'', ''gc''] (JBool True)" for Q server
proof
  fix d d'
  assume c: "expired_root Q server d \<and> unmarked d" and u: "jsonb_set d [''state'', ''gc''] (JBool True) = Inr d'"
  have u': "jsonb_set_chain d [([''state'', ''gc''], JBool True)] = Inr d'" using u by simp
  from c obtain v where "state_field d ''finished_at'' = Some v"
    by (auto simp: expired_root_def canonical_timestamp_def split: option.splits)
  from chain_step_result [OF u' state_field_has_state [OF this]] show "job_step d d'"
    by (simp add: chain_evals)
qed (auto simp: row_conds)

lemma job_step_refl [simp]: "job_step d d"
  by (simp add: job_step_def)

interpretation output_write: row_write Q server "\<lambda>d. type_is Q ''command'' d \<and> server_match server d" "output_chain Q windows"
  for Q server windows
proof
  fix d d'
  assume c: "type_is Q ''command'' d \<and> server_match server d" and u: "output_chain Q windows d = Inr d'"
  show "job_step d d'"
  proof (cases "has_state d")
    case True
    then show ?thesis
      by (rule chain_step_result [OF u [unfolded output_chain_def]]) (simp_all add: chain_evals)
  next
    case False
    from c obtain ob where d: "d = JObj ob"
      by (auto simp: server_match_def arrow_def split: json.splits)
    let ?ob = "dict_set (lit ''output'') windows ob"
    from False d have ns: "\<nexists>st. map_of ?ob (lit ''state'') = Some (JObj st)"
      by (auto simp: has_state_def map_of_dict_set)
    have "d' = JObj ?ob \<or> (\<exists>w. d' = JObj (dict_set (lit ''state'') w ?ob) \<and> map_of ?ob (lit ''state'') = Some w)"
      using u ns by (cases "map_of ?ob (lit ''state'')")
        (auto simp: d output_chain_def jsonb_set_def split: json.splits elim!: set_inner.elims)
    then show ?thesis
      by (auto simp: d job_step_def state_field_def arrow_def map_of_dict_set)
  qed
qed (auto simp: row_conds)

section \<open>Effects of the operations\<close>

lemma statement_Inr [simp]: "statement Q body = Inr x \<longleftrightarrow> sq_fault Q = None \<and> body = Inr x"
  by (auto simp: statement_def split: option.splits)

lemma claim_jobs_evolves:
  assumes "sql_ok Q" "keyed rows" "claim_jobs Q settings n rows = Inr (hits, rows')"
  shows "evolves (st_server settings) rows rows'"
  using assms claim_write.picked_update_evolves [OF assms(1,2)] by (auto simp: claim_jobs_def Let_def)

lemma persist_process_evolves:
  assumes "sql_ok Q" "keyed rows" "persist_process Q i pid pgid ticks settings rows = Inr (b, rows')"
  shows "evolves (st_server settings) rows rows'"
  using assms persist_write.update_evolves [OF assms(1,2)] by (auto simp: persist_process_def)

lemma bulk_refresh_leases_evolves:
  assumes "sql_ok Q" "keyed rows" "bulk_refresh_leases Q settings ids rows = Inr (b, rows')"
  shows "evolves (st_server settings) rows rows'"
  using assms lease_write.update_evolves [OF assms(1,2)] by (auto simp: bulk_refresh_leases_def)

lemma cancel_evolves:
  assumes "sql_ok Q" "keyed rows"
  shows "cancel_pending Q i server rows = Inr (hits, rows') \<Longrightarrow> evolves server rows rows'"
    and "cancel_running Q i server rows = Inr (hits, rows') \<Longrightarrow> evolves server rows rows'"
  using pending_write.update_evolves [OF assms] running_write.update_evolves [OF assms]
  by (auto simp: cancel_pending_def cancel_running_def)

lemma recover_stale_jobs_evolves:
  assumes "sql_ok Q" "keyed rows" "recover_stale_jobs Q server rows = Inr (hits, rows')"
  shows "evolves server rows rows'"
  using assms stale_write.picked_update_evolves [OF assms(1,2)] by (auto simp: recover_stale_jobs_def Let_def)

lemma finish_update_evolves:
  assumes "sql_ok Q" "keyed rows" "jr_status result \<in> set terminal_statuses"
    and "finish_update Q i result server rows = Inr (hits, rows')"
  shows "evolves server rows rows'"
proof -
  from assms(4) obtain nt where "update_rows (\<lambda>j. j = i)
      (\<lambda>d. type_is Q ''command'' d \<and> server_match server d \<and> status_is Q ''running'' d)
      (finish_chain Q result nt) rows = Inr (hits, rows')"
    by (auto simp: finish_update_def split: if_splits)
  from finish_write.update_evolves_if [OF assms(1,2) this] assms(3) show ?thesis
    by (simp add: finishes_def)
qed

lemma terminalize_cases:
  assumes "terminalize Q key i reason server rows = Inr (b, rows')"
  shows "\<not> b \<and> rows' = rows \<or> (\<exists>r hits. b \<and>
    update_rows (\<lambda>j. j = i) (open_command Q server) (fail_chain Q key r) rows = Inr (hits, rows'))"
  using assms by (auto simp: terminalize_def Let_def split: sum.splits pyerr.splits)

lemma quarantine_job_evolves:
  assumes "sql_ok Q" "keyed rows" "quarantine_job Q i reason server rows = Inr (b, rows')"
  shows "evolves server rows rows'"
  using terminalize_cases [OF assms(3) [unfolded quarantine_job_def]] quarantine_write.update_evolves [OF assms(1,2)]
    assms(2) by auto

lemma fail_unsupported_job_evolves:
  assumes "sql_ok Q" "keyed rows" "fail_unsupported_job Q i reason server rows = Inr (b, rows')"
  shows "evolves server rows rows'"
  using terminalize_cases [OF assms(3) [unfolded fail_unsupported_job_def]] unsupported_write.update_evolves [OF assms(1,2)]
    assms(2) by auto

lemma evolves_keyed: "evolves server rows rows' \<Longrightarrow> keyed rows'"
  by (simp add: evolves_def)

lemma reap_batch_evolves:
  "sql_ok Q \<Longrightarrow> keyed rows \<Longrightarrow> reap_batch Q server batch rows = Inr (ids, rows') \<Longrightarrow> evolves server rows rows'"
proof (induction batch arbitrary: rows ids)
  case (Cons x batch)
  obtain i d where x: "x = (i, d)" by (cases x)
  show ?case
  proof (cases "case parsed_version Q d of Some v \<Rightarrow> reaper_disposition v \<noteq> FAIL_CLOSED | None \<Rightarrow> False")
    case True
    with Cons show ?thesis by (simp add: x)
  next
    case False
    with Cons.prems(3) obtain b rows1 ids' where
        1: "fail_unsupported_job Q i (unsupported_diagnostic Q d) server rows = Inr (b, rows1)"
      and 2: "reap_batch Q server batch rows1 = Inr (ids', rows')"
      by (auto simp: x split: if_splits)
    from fail_unsupported_job_evolves [OF Cons.prems(1,2) 1] have e: "evolves server rows rows1" .
    from Cons.IH [OF Cons.prems(1) evolves_keyed [OF e] 2] e show ?thesis by (blast intro: evolves_trans)
  qed
qed simp

lemma reap_unsupported_jobs_evolves:
  assumes "sql_ok Q" "keyed rows" "reap_unsupported_jobs Q settings n rows = Inr (ids, rows')"
  shows "evolves (st_server settings) rows rows'"
  using assms reap_batch_evolves [OF assms(1,2)] by (auto simp: reap_unsupported_jobs_def Let_def)

lemma doomed_selected:
  assumes "keyed rows" "select_rows scan cond rows = Inr hits" "i \<in> fst ` set hits" "map_of rows i = Some p"
  shows "\<exists>d. p = Doc d \<and> cond d \<and> scan i"
  using assms select_rows_spec [OF assms(2)] by (auto simp: keyed_lookup)

lemma owned_chunk_server: "owned_chunk Q server root d \<Longrightarrow> server_match server d"
  by (simp add: owned_chunk_def)

lemma delete_job_cases:
  assumes "delete_job_and_chunks Q i server rows = Inr rows'"
  obtains roots chunks where
      "select_rows (\<lambda>j. j = i) (\<lambda>d. type_is Q ''command'' d \<and> server_match server d) rows = Inr roots"
      "select_rows (\<lambda>_. True) (owned_chunk Q server i) (delete_rows (\<lambda>j. j \<in> set (map fst roots)) rows) = Inr chunks"
      "rows' = delete_rows (\<lambda>j. j \<in> set (map fst chunks)) (delete_rows (\<lambda>j. j \<in> set (map fst roots)) rows)"
  using assms by (auto simp: delete_job_and_chunks_def Let_def split: if_splits)

lemma delete_job_and_chunks_evolves:
  assumes "keyed rows" "delete_job_and_chunks Q i server rows = Inr rows'"
  shows "evolves server rows rows'"
  using assms(2)
proof (cases rule: delete_job_cases)
  case (1 roots chunks)
  let ?rows1 = "delete_rows (\<lambda>j. j \<in> set (map fst roots)) rows"
  have "evolves server rows ?rows1"
    using doomed_selected [OF assms(1) 1(1)] by (intro evolves_delete [OF assms(1)]) fastforce
  moreover have "evolves server ?rows1 rows'"
    unfolding 1(3) using doomed_selected [OF keyed_delete [OF assms(1)] 1(2)] owned_chunk_server
    by (intro evolves_delete [OF keyed_delete [OF assms(1)]]) fastforce
  ultimately show ?thesis by (rule evolves_trans)
qed

lemma mark_roots_evolves:
  assumes "sql_ok Q" "keyed rows" "mark_roots Q server n rows = Inr (ids, rows')"
  shows "evolves server rows rows'"
  using assms mark_write.picked_update_evolves [OF assms(1,2)] by (auto simp: mark_roots_def Let_def)

text \<open>The two ways a drained root ends: it stays with some of its chunks, or it goes with the last one.\<close>

lemma drain_root_cases:
  assumes "sql_ok Q" "drain_root Q server n rows = Inr (roots, counts, rows')"
  obtains (none) "roots = []" "counts = []" "rows' = rows"
  | (drained) root candidates chunks left where "roots = [root]"
      "select_rows (\<lambda>_. True) (\<lambda>d. expired_root Q server d \<and> marked d) rows = Inr candidates"
      "root \<in> set (pick Q 1 candidates)"
      "select_rows (\<lambda>_. True) (owned_chunk Q server root) rows = Inr chunks"
      "counts = [length (pick Q n chunks)]"
      "select_rows (\<lambda>_. True) (owned_chunk Q server root) (delete_rows (\<lambda>i. i \<in> set (pick Q n chunks)) rows) = Inr left"
      "rows' = (if left = [] then delete_rows (\<lambda>i. i = root) (delete_rows (\<lambda>i. i \<in> set (pick Q n chunks)) rows)
                else delete_rows (\<lambda>i. i \<in> set (pick Q n chunks)) rows)"
proof -
  from assms(2) obtain candidates where
      c: "select_rows (\<lambda>_. True) (\<lambda>d. expired_root Q server d \<and> marked d) rows = Inr candidates"
    by (auto simp: drain_root_def)
  show thesis
  proof (cases "pick Q 1 candidates")
    case Nil
    with assms(2) c show thesis by (intro none) (auto simp: drain_root_def)
  next
    case (Cons root more)
    with assms(2) c show thesis
      by (auto simp: drain_root_def Let_def intro!: drained [OF _ c])
  qed
qed

lemma drain_root_evolves:
  assumes ok: "sql_ok Q" "keyed rows" and run: "drain_root Q server n rows = Inr (roots, counts, rows')"
  shows "evolves server rows rows'"
  using ok(1) run
proof (cases rule: drain_root_cases)
  case none
  with ok show ?thesis by simp
next
  case (drained root candidates chunks left)
  let ?rows1 = "delete_rows (\<lambda>i. i \<in> set (pick Q n chunks)) rows"
  have e1: "evolves server rows ?rows1"
    using picked_cond [OF ok drained(4)] owned_chunk_server
    by (intro evolves_delete [OF ok(2)]) blast
  have "evolves server ?rows1 (delete_rows (\<lambda>i. i = root) ?rows1)"
    using picked_cond [OF ok drained(2,3)]
    by (intro evolves_delete [OF keyed_delete [OF ok(2)]])
      (auto simp: lookup_delete expired_root_def split: if_splits)
  with e1 drained(7) show ?thesis by (auto intro: evolves_trans)
qed

lemma drop_orphans_cases:
  assumes "drop_orphans Q server n rows = Inr (ids, rows')"
  shows "\<exists>docs. select_rows (\<lambda>_. True) (\<lambda>_. True) rows = Inr docs \<and>
    ids = pick Q n (filter (\<lambda>(i, d). type_is Q ''output_chunk'' d \<and> server_match server d \<and> \<not> has_root Q docs d) docs) \<and>
    rows' = delete_rows (\<lambda>i. i \<in> set ids) rows"
  using assms by (auto simp: drop_orphans_def Let_def)

lemma orphan_doc:
  assumes "sql_ok Q" "keyed rows" "select_rows (\<lambda>_. True) (\<lambda>_. True) rows = Inr docs"
    "i \<in> set (pick Q n (filter (\<lambda>(i, d). P d) docs))" "map_of rows i = Some p"
  shows "\<exists>d. p = Doc d \<and> P d"
proof -
  from pick_subset [OF assms(1)] assms(4) obtain d where "(i, d) \<in> set docs" "P d" by force
  with select_rows_spec [OF assms(3)] assms(2,5) show ?thesis by (auto simp: keyed_lookup)
qed

lemma drop_orphans_evolves:
  assumes "sql_ok Q" "keyed rows" "drop_orphans Q server n rows = Inr (ids, rows')"
  shows "evolves server rows rows'"
proof -
  from drop_orphans_cases [OF assms(3)] obtain docs where
      docs: "select_rows (\<lambda>_. True) (\<lambda>_. True) rows = Inr docs"
    and ids: "ids = pick Q n (filter (\<lambda>(i, d). type_is Q ''output_chunk'' d \<and> server_match server d \<and> \<not> has_root Q docs d) docs)"
    and rows': "rows' = delete_rows (\<lambda>i. i \<in> set ids) rows" by blast
  show ?thesis
    unfolding rows' using orphan_doc [OF assms(1,2) docs] ids
    by (intro evolves_delete [OF assms(2)]) blast
qed

text \<open>Publication also inserts the chunk rows.\<close>

lemma publish_rows_cases:
  assumes "publish_rows Q i server chunks windows rows = Inr (b, rows')"
  shows "\<not> b \<and> rows' = rows \<or> b \<and> distinct (map fst chunks) \<and> fst ` set chunks \<inter> fst ` set rows = {} \<and>
    (\<exists>hits. update_rows (\<lambda>j. j = i) (\<lambda>d. type_is Q ''command'' d \<and> server_match server d) (output_chain Q windows)
        (rows @ map (\<lambda>(i, d). (i, Doc d)) chunks) = Inr (hits, rows'))"
  using assms by (auto simp: publish_rows_def Let_def split: if_splits)

section \<open>Runs of many sessions\<close>

lemma evolves_effect:
  assumes "table_ok (rows, used)" "evolves server rows rows'"
  shows "step_effect server (rows, used) (rows', used)"
proof -
  have "fst ` set rows' \<subseteq> fst ` set rows"
  proof
    fix i assume "i \<in> fst ` set rows'"
    then obtain p' where "map_of rows' i = Some p'" by (metis map_of_eq_None_iff not_Some_eq)
    with assms(2) show "i \<in> fst ` set rows"
      unfolding evolves_def by (metis map_of_eq_None_iff option.simps(3))
  qed
  with assms show ?thesis by (auto simp: step_effect_def table_ok_def evolves_def)
qed

lemma lookup_append_new: "i \<notin> fst ` set new \<Longrightarrow> map_of (rows @ new) i = map_of rows i"
  by (induction rows) (auto simp: map_of_eq_None_iff)

lemma lookup_id: "map_of rows i = Some p \<Longrightarrow> i \<in> fst ` set rows"
  by (metis map_of_eq_None_iff option.simps(3))

lemma insert_effect:
  assumes inv: "table_ok (rows, used)" and new: "distinct (map fst new)" "fst ` set new \<inter> used = {}"
  shows "step_effect server (rows, used) (rows @ new, used \<union> fst ` set new)"
proof -
  have look: "map_of (rows @ new) i = map_of rows i" if "i \<in> used" for i
    using lookup_append_new [of i new rows] that new(2) by blast
  have used: "i \<in> used" if "map_of rows i = Some p" for i p
    using lookup_id [OF that] inv by (auto simp: table_ok_def)
  have "table_ok (rows @ new, used \<union> fst ` set new)"
    using inv new by (auto simp: table_ok_def keyed_def)
  moreover have "\<exists>p. map_of rows i = Some p \<and> row_step p p'"
    if "i \<in> used" "map_of (rows @ new) i = Some p'" for i p'
    using that look by auto
  moreover have "map_of (rows @ new) i = Some p" if "map_of rows i = Some p" for i p
    using that look used by simp
  ultimately show ?thesis by (simp add: step_effect_def del: map_of_append)
qed

lemma step_effect_trans:
  assumes 1: "step_effect server s1 s2" and 2: "step_effect server s2 s3"
  shows "step_effect server s1 s3"
  unfolding step_effect_def
proof (intro conjI allI impI)
  show "table_ok s3" "snd s1 \<subseteq> snd s3" using 1 2 by (auto simp: step_effect_def)
next
  fix i p'
  assume i: "i \<in> snd s1" "map_of (fst s3) i = Some p'"
  then have "i \<in> snd s2" using 1 by (auto simp: step_effect_def)
  with i 2 obtain p where "map_of (fst s2) i = Some p" "row_step p p'" unfolding step_effect_def by blast
  with i 1 show "\<exists>p. map_of (fst s1) i = Some p \<and> row_step p p'"
    unfolding step_effect_def using row_step_trans by blast
next
  fix i p
  assume "map_of (fst s1) i = Some p"
  with 1 consider "map_of (fst s2) i = Some p" | "\<exists>d. p = Doc d \<and> server_match server d"
    unfolding step_effect_def by blast
  then show "map_of (fst s3) i = Some p \<or> (\<exists>d. p = Doc d \<and> server_match server d)"
    using 2 unfolding step_effect_def by cases blast+
qed

lemma publish_effect:
  assumes ok: "sql_ok Q" and inv: "table_ok (rows, used)" and new: "fst ` set chunks \<inter> used = {}"
    and run: "publish_rows Q i server chunks windows rows = Inr (b, rows')"
  shows "step_effect server (rows, used) (rows', used \<union> fst ` set chunks)"
  using publish_rows_cases [OF run]
proof (elim disjE conjE exE)
  assume "rows' = rows"
  with inv show ?thesis by (auto simp: step_effect_def table_ok_def)
next
  fix hits
  let ?ins = "map (\<lambda>(i, d). (i, Doc d)) chunks"
  assume d: "distinct (map fst chunks)"
    and u: "update_rows (\<lambda>j. j = i) (\<lambda>d. type_is Q ''command'' d \<and> server_match server d) (output_chain Q windows)
      (rows @ ?ins) = Inr (hits, rows')"
  have fsts: "map fst ?ins = map fst chunks" by (induction chunks) auto
  have sets: "fst ` set ?ins = fst ` set chunks" by (metis fsts list.set_map)
  have e1: "step_effect server (rows, used) (rows @ ?ins, used \<union> fst ` set chunks)"
    using insert_effect [OF inv, of ?ins] d new by (simp only: fsts sets)
  then have t: "table_ok (rows @ ?ins, used \<union> fst ` set chunks)" by (simp add: step_effect_def)
  then have "keyed (rows @ ?ins)" by (simp add: table_ok_def)
  from evolves_effect [OF t output_write.update_evolves [OF ok this u]] e1 show ?thesis
    by (blast intro: step_effect_trans)
qed

lemma submit_effect:
  "table_ok (rows, used) \<Longrightarrow> i \<notin> used \<Longrightarrow> step_effect server (rows, used) (rows @ [(i, p)], insert i used)"
  using insert_effect [of rows used "[(i, p)]"] by simp

lemma db_step_effect:
  assumes "db_step server s e s'" "table_ok s"
  shows "step_effect server s s'"
  using assms
proof (cases rule: db_step.cases)
  case submit
  with assms(2) show ?thesis by (simp add: submit_effect)
next
  case publish
  with assms(2) show ?thesis by (simp add: publish_effect)
qed (use assms(2) in \<open>force simp: table_ok_def intro!: evolves_effect
      intro: claim_jobs_evolves persist_process_evolves bulk_refresh_leases_evolves cancel_evolves
        recover_stale_jobs_evolves finish_update_evolves quarantine_job_evolves reap_unsupported_jobs_evolves
        delete_job_and_chunks_evolves mark_roots_evolves drain_root_evolves drop_orphans_evolves\<close>)+

lemma db_run_table_ok: "db_run s es s' \<Longrightarrow> table_ok s \<Longrightarrow> table_ok s' \<and> snd s \<subseteq> snd s'"
proof (induction rule: db_run.induct)
  case (snoc s es s' server e s'')
  then have "table_ok s'" "snd s \<subseteq> snd s'" by simp_all
  with db_step_effect [OF snoc.hyps(2)] show ?case by (auto simp: step_effect_def)
qed simp

section \<open>Claims\<close>

lemma claim_chain_ok:
  assumes "state_field d ''status'' = Some (JStr (lit ''pending''))"
  shows "\<exists>d'. claim_chain Q settings d = Inr d' \<and> job_status d' = Some (lit ''running'') \<and>
    state_field d' ''worker_id'' = Some (JStr (st_worker_id settings)) \<and>
    state_field d' ''worker_incarnation'' = Some (JStr (st_worker_incarnation settings)) \<and>
    state_field d' ''lease_expires_at'' = Some (JStr (sq_lease Q)) \<and>
    (\<forall>k. k \<noteq> ''state'' \<longrightarrow> arrow (Some d') k = arrow (Some d) k)"
proof -
  let ?ups = "[([''state'', ''status''], JStr (lit ''running'')),
     ([''state'', ''created_at''], JStr (case state_text Q d ''created_at'' of Some s \<Rightarrow> s | None \<Rightarrow> sq_now Q)),
     ([''state'', ''started_at''], JStr (sq_now Q)),
     ([''state'', ''worker_id''], JStr (st_worker_id settings)),
     ([''state'', ''worker_incarnation''], JStr (st_worker_incarnation settings)),
     ([''state'', ''lease_expires_at''], JStr (sq_lease Q)),
     ([''state'', ''updated_at''], JStr (sq_now Q))]"
  have "list_all path_ok ?ups" by (simp add: path_ok_def)
  from jsonb_set_chain_spec [OF state_field_has_state [OF assms] this] show ?thesis
    unfolding claim_chain_def by (auto simp: upd_at_def job_status_def)
qed

lemma claimed_rows:
  assumes "sql_ok Q" "keyed rows" "claim_jobs Q settings n rows = Inr (hits, rows')" "(i, d') \<in> set hits"
  shows "\<exists>d. map_of rows i = Some (Doc d) \<and> claimable Q settings d \<and> claim_chain Q settings d = Inr d' \<and>
    map_of rows' i = Some (Doc d')"
proof -
  from assms(3) obtain candidates where
      c: "select_rows (\<lambda>_. True) (claimable Q settings) rows = Inr candidates"
    and u: "update_rows (\<lambda>i. i \<in> set (pick Q n candidates)) (\<lambda>_. True) (claim_chain Q settings) rows = Inr (hits, rows')"
    by (auto simp: claim_jobs_def Let_def)
  from update_rows_spec(2) [OF u] assms(4) obtain d where
      d: "(i, Doc d) \<in> set rows" "i \<in> set (pick Q n candidates)" "claim_chain Q settings d = Inr d'" by auto
  from d(1) assms(2) have m: "map_of rows i = Some (Doc d)" by (simp add: keyed_lookup)
  from picked_cond [OF assms(1,2) c d(2) m] have "claimable Q settings d" by simp
  moreover have "map_of rows' i = Some (Doc d')"
    unfolding update_rows_spec(1) [OF u] lookup_updated using m d by (simp add: updated_def)
  ultimately show ?thesis using m d by blast
qed

lemma update_hits_distinct:
  "keyed rows \<Longrightarrow> update_rows scan cond upd rows = Inr (hits, rows') \<Longrightarrow> distinct (map fst hits)"
proof (induction rows arbitrary: hits rows')
  case (Cons r rows)
  obtain i p where r: "r = (i, p)" by (cases r)
  from Cons.prems(2) obtain hits1 rows1 where u: "update_rows scan cond upd rows = Inr (hits1, rows1)"
    and h: "map fst hits = map fst hits1 \<or> map fst hits = i # map fst hits1"
    by (cases p) (auto simp: r split: if_splits)
  have "i \<notin> fst ` set hits1"
    using update_rows_spec(2) [OF u] Cons.prems(1) by (force simp: r keyed_def)
  with Cons.IH [OF _ u] Cons.prems(1) h show ?case by (auto simp: r keyed_def)
qed simp

lemma job_step_not_pending:
  assumes "job_step d d'" "job_status d' = Some (lit ''pending'')"
  shows "job_status d = Some (lit ''pending'')"
proof -
  have "\<not> terminal d'" using assms(2) by (auto simp: terminal_def terminal_statuses_def)
  moreover have "job_status d' \<noteq> Some (lit ''running'')" using assms(2) by simp
  ultimately have "state_field d' ''status'' = state_field d ''status''"
    using assms(1) unfolding job_step_def by blast
  with assms(2) show ?thesis by (simp add: job_status_def)
qed

lemma not_pending_stable:
  assumes "step_effect server s s'" "i \<in> snd s" "not_pending (fst s) i"
  shows "not_pending (fst s') i"
  unfolding not_pending_def
proof (intro allI impI notI)
  fix d'
  assume d': "map_of (fst s') i = Some (Doc d')" "job_status d' = Some (lit ''pending'')"
  with assms(1,2) obtain p where "map_of (fst s) i = Some p" "row_step p (Doc d')"
    unfolding step_effect_def by blast
  with d' assms(3) show False
    by (auto simp: row_step_def not_pending_def dest: job_step_not_pending)
qed

lemma claim_step:
  assumes "db_step server s (Claimed ids) s'" "table_ok s"
  shows "distinct ids \<and> (\<forall>i \<in> set ids. i \<in> snd s \<and> \<not> not_pending (fst s) i \<and> not_pending (fst s') i)"
  using assms(1)
proof (cases rule: db_step.cases)
  case (claim Q settings n rows hits rows' used)
  from assms(2) claim have k: "keyed rows" "fst ` set rows \<subseteq> used" by (auto simp: table_ok_def)
  have "i \<in> used \<and> \<not> not_pending rows i \<and> not_pending rows' i" if i: "i \<in> fst ` set hits" for i
  proof -
    from i obtain d' where "(i, d') \<in> set hits" by force
    from claimed_rows [OF claim(5) k(1) claim(6) this] obtain d where
        d: "map_of rows i = Some (Doc d)" "claimable Q settings d" "claim_chain Q settings d = Inr d'"
          "map_of rows' i = Some (Doc d')" by blast
    from d(2) claim(5) have p: "state_field d ''status'' = Some (JStr (lit ''pending''))"
      by (simp add: claimable_def status_word)
    from claim_chain_ok [OF p, of Q settings] d(3) have "job_status d' = Some (lit ''running'')" by auto
    moreover have "i \<in> used" using d(1) k(2) by (metis map_of_eq_None_iff option.simps(3) subsetD)
    moreover have "job_status d = Some (lit ''pending'')" using p by (simp add: job_status_def)
    ultimately show ?thesis using d(1,4) by (auto simp: not_pending_def)
  qed
  moreover have "distinct (map fst hits)"
    using claim(6) update_hits_distinct [OF k(1)] by (auto simp: claim_jobs_def Let_def)
  ultimately show ?thesis using claim by auto
qed

lemma claims_run:
  assumes "db_run s es s'" "table_ok s"
  shows "distinct (claims es) \<and> (\<forall>i \<in> set (claims es). i \<in> snd s' \<and> not_pending (fst s') i)"
  using assms
proof (induction rule: db_run.induct)
  case (nil s)
  then show ?case by (simp add: claims_def)
next
  case (snoc s es s' server e s'')
  have ok: "table_ok s'" using db_run_table_ok [OF snoc.hyps(1) snoc.prems] by simp
  note eff = db_step_effect [OF snoc.hyps(2) ok]
  then have sub: "snd s' \<subseteq> snd s''" by (simp add: step_effect_def)
  have old: "i \<in> snd s'' \<and> not_pending (fst s'') i" if "i \<in> set (claims es)" for i
    using that snoc.IH [OF snoc.prems] not_pending_stable [OF eff] sub by blast
  show ?case
  proof (cases e)
    case (Claimed ids)
    from claim_step [OF snoc.hyps(2) [unfolded Claimed] ok] snoc.IH [OF snoc.prems] old sub
    show ?thesis by (auto simp: claims_def Claimed)
  qed (use old snoc.IH [OF snoc.prems] in \<open>auto simp: claims_def\<close>)
qed

section \<open>What the queue promises\<close>

text \<open>C15. No job is started twice: in every interleaving of the transactions of all workers,
  submitters and collectors, each row id is handed out by a claim at most once.\<close>

theorem claimed_at_most_once:
  assumes "db_run s es s'" and "table_ok s"
  shows "distinct (claims es)"
  using claims_run [OF assms] by simp

lemma terminal_run:
  assumes "db_run s es s'" "table_ok s" "map_of (fst s) i = Some (Doc d)" "terminal d" "map_of (fst s') i = Some p"
  shows "\<exists>d'. p = Doc d' \<and> terminal d' \<and> job_step d d'"
  using assms
proof (induction arbitrary: p rule: db_run.induct)
  case (nil s)
  then show ?case by simp
next
  case (snoc s es s' server e s'')
  have ok: "table_ok s'" "snd s \<subseteq> snd s'" using db_run_table_ok [OF snoc.hyps(1) snoc.prems(1)] by simp_all
  have "i \<in> snd s'" using lookup_id [OF snoc.prems(2)] snoc.prems(1) ok(2) by (auto simp: table_ok_def)
  with db_step_effect [OF snoc.hyps(2) ok(1)] snoc.prems(4) obtain q where
      q: "map_of (fst s') i = Some q" "row_step q p" unfolding step_effect_def by blast
  from snoc.IH [OF snoc.prems(1-3) q(1)] obtain d1 where d1: "q = Doc d1" "terminal d1" "job_step d d1" by blast
  with q(2) show ?case
    by (auto simp: row_step_def dest: job_step_terminal job_step_trans intro: job_step_trans)
qed

text \<open>C16. A finished job stays finished: once a row is terminal, whatever transactions follow, the
  row is either deleted or still shows the same status, result, finishing time and request.\<close>

theorem finished_jobs_are_final:
  assumes "db_run s es s'" and "table_ok s" and "map_of (fst s) i = Some (Doc d)" and "terminal d"
    and "map_of (fst s') i = Some p"
  shows "\<exists>d'. p = Doc d' \<and> job_status d' = job_status d \<and> arrow (Some d') ''result'' = arrow (Some d) ''result'' \<and>
    state_field d' ''finished_at'' = state_field d ''finished_at'' \<and>
    arrow (Some d') ''request'' = arrow (Some d) ''request''"
proof -
  from terminal_run [OF assms] obtain d' where d': "p = Doc d'" "job_step d d'" by blast
  from job_step_terminal [OF d'(2) assms(4)] d' show ?thesis
    by (auto simp: job_status_def job_step_def)
qed

text \<open>C17. A daemon touches only rows addressed to its own server: a row that is not a document
  with exactly that server string, text that is not JSON included, is the same after every
  transaction of that daemon.\<close>

theorem foreign_rows_untouched:
  assumes "db_step server s e s'" and "table_ok s" and "map_of (fst s) i = Some p"
    and "\<forall>d. p = Doc d \<longrightarrow> \<not> server_match server d"
  shows "map_of (fst s') i = Some p"
  using db_step_effect [OF assms(1,2)] assms(3,4) unfolding step_effect_def by blast

lemma finish_chain_ok:
  assumes "state_field d ''status'' = Some (JStr (lit ''running''))"
  shows "\<exists>d'. finish_chain Q result nt d = Inr d' \<and>
    job_status d' = Some (if cancel_requested d then lit ''cancelled'' else jr_status result)"
proof -
  let ?ups = "[([''state'', ''status''], JStr (if cancel_requested d then lit ''cancelled'' else jr_status result)),
     ([''state'', ''finished_at''], JStr (sq_now Q)), ([''state'', ''updated_at''], JStr (sq_now Q)),
     ([''result''], JObj [(lit ''stdout'', JStr (jr_stdout result)), (lit ''stderr'', JStr (jr_stderr result)),
        (lit ''exit_code'', JInt (jr_exit_code result)),
        (lit ''cancellation_note'',
          if cancel_requested d \<and> nt = JNull then JStr (lit ''cancelled by request'') else nt)])]"
  have "list_all path_ok ?ups" by (simp add: path_ok_def)
  from jsonb_set_chain_spec [OF state_field_has_state [OF assms] this] show ?thesis
    unfolding finish_chain_def by (auto simp: upd_at_def job_status_def)
qed

text \<open>Finishing a running job of the own server stores exactly one status: \<open>cancelled\<close>
  when a valid cancellation request was recorded before, the status of the result otherwise; the
  caller is told that status and no other row changes.\<close>

theorem finish_job_settles:
  assumes "sql_ok Q" and "keyed rows" and "map_of rows i = Some (Doc d)"
    and "type_is Q ''command'' d" and "server_match server d" and "status_is Q ''running'' d"
    and "finish_job Q others i result server rows = (Inr answer, rows')"
  shows "answer = Some (if cancel_requested d then lit ''cancelled'' else jr_status result) \<and>
    (\<exists>d'. map_of rows' i = Some (Doc d') \<and>
      job_status d' = Some (if cancel_requested d then lit ''cancelled'' else jr_status result)) \<and>
    (\<forall>j. j \<noteq> i \<longrightarrow> map_of rows' j = map_of rows j)"
proof -
  let ?cond = "\<lambda>d. type_is Q ''command'' d \<and> server_match server d \<and> status_is Q ''running'' d"
  have r: "state_field d ''status'' = Some (JStr (lit ''running''))"
    using assms(1,6) by (simp add: status_word)
  from assms(7) obtain hits rows1 where f: "finish_update Q i result server rows = Inr (hits, rows1)"
    by (auto simp: finish_job_def split: sum.splits list.splits)
  then obtain nt where u: "update_rows (\<lambda>j. j = i) ?cond (finish_chain Q result nt) rows = Inr (hits, rows1)"
    by (auto simp: finish_update_def split: if_splits)
  from finish_chain_ok [OF r, of Q result nt] obtain d' where d': "finish_chain Q result nt d = Inr d'"
    "job_status d' = Some (if cancel_requested d then lit ''cancelled'' else jr_status result)" by blast
  have mem: "(j, e) \<in> set rows \<longleftrightarrow> map_of rows j = Some e" for j e using assms(2) by (simp add: keyed_lookup)
  have "set hits = {(i, d')}"
    unfolding update_rows_spec(2) [OF u] using assms(3-6) d'(1) by (auto simp: mem)
  then obtain tl where h: "hits = (i, d') # tl"
    by (metis list.set_intros(1) neq_Nil_conv singletonD list.set(1) insert_not_empty prod.collapse)
  with assms(7) f have a: "answer = Some (str_of (state_text Q d' ''status''))" "rows' = rows1"
    by (simp_all add: finish_job_def)
  have "state_text Q d' ''status'' = job_status d'"
    using d'(2) by (auto simp: state_text_def job_status_def as_text_def split: option.splits json.splits)
  moreover have "map_of rows1 j = map_option (updated (\<lambda>j. j = i) ?cond (finish_chain Q result nt) j) (map_of rows j)" for j
    unfolding update_rows_spec(1) [OF u] lookup_updated ..
  moreover have "updated (\<lambda>j. j = i) ?cond (finish_chain Q result nt) j = (\<lambda>p. p)" if "j \<noteq> i" for j
    using that by (auto simp: updated_def fun_eq_iff split: stored.splits)
  moreover have "updated (\<lambda>j. j = i) ?cond (finish_chain Q result nt) i (Doc d) = Doc d'"
    using assms(4-6) d' by (simp add: updated_def)
  ultimately show ?thesis
    using a assms(3) d' by (auto simp: str_of_def option.map_ident)
qed

text \<open>C19. The collector drains before it deletes: when its second phase removes a row, the row is
  a chunk of a root that is terminal, past its retention and marked, or it is such a root itself
  and no chunk of it is left in the table.\<close>

theorem collector_drains_before_deleting:
  assumes "sql_ok Q" and "keyed rows" and "drain_root Q server n rows = Inr (roots, counts, rows')"
    and "map_of rows i = Some p" and "map_of rows' i = None"
  shows "\<exists>root r d. roots = [root] \<and> map_of rows root = Some (Doc r) \<and> expired_root Q server r \<and> marked r \<and> p = Doc d \<and>
    (owned_chunk Q server root d \<or>
     i = root \<and> (\<forall>j e. map_of rows' j = Some (Doc e) \<longrightarrow> \<not> owned_chunk Q server root e))"
  using assms(1,3)
proof (cases rule: drain_root_cases)
  case none
  with assms show ?thesis by simp
next
  case (drained root candidates chunks left)
  from pick_subset [OF assms(1)] drained(3) select_rows_spec [OF drained(2)] obtain r where
      "(root, Doc r) \<in> set rows" "expired_root Q server r" "marked r" by force
  with assms(2) have r: "map_of rows root = Some (Doc r)" "expired_root Q server r" "marked r"
    by (simp_all add: keyed_lookup)
  show ?thesis
  proof (cases "i \<in> set (pick Q n chunks)")
    case True
    from picked_cond [OF assms(1,2) drained(4) True assms(4)] r drained(1) show ?thesis by blast
  next
    case False
    with assms(4,5) drained(7) have i: "left = []" "i = root"
      by (auto simp: lookup_delete split: if_splits)
    let ?rows1 = "delete_rows (\<lambda>i. i \<in> set (pick Q n chunks)) rows"
    have "\<not> owned_chunk Q server root e" if "map_of rows' j = Some (Doc e)" for j e
    proof
      assume "owned_chunk Q server root e"
      moreover have "(j, Doc e) \<in> set ?rows1"
        using that i drained(7) keyed_delete [OF assms(2)] by (auto simp: keyed_lookup lookup_delete split: if_splits)
      ultimately show False using select_rows_spec [OF drained(6)] i(1) by auto
    qed
    with r drained(1) i assms(4) show ?thesis by auto
  qed
qed

text \<open>Deleting a job leaves none of its chunks behind.\<close>

theorem delete_leaves_no_chunks:
  assumes "keyed rows" and "delete_job_and_chunks Q i server rows = Inr rows'" and "map_of rows' j = Some (Doc d)"
  shows "\<not> owned_chunk Q server i d"
  using assms(2)
proof (cases rule: delete_job_cases)
  case (1 roots chunks)
  let ?rows1 = "delete_rows (\<lambda>j. j \<in> set (map fst roots)) rows"
  from assms(3) 1(3) have m: "map_of ?rows1 j = Some (Doc d)" "j \<notin> fst ` set chunks"
    by (auto simp: lookup_delete split: if_splits)
  moreover from m(1) have "(j, Doc d) \<in> set ?rows1" using keyed_delete [OF assms(1)] by (simp add: keyed_lookup)
  ultimately show ?thesis using select_rows_spec [OF 1(2)] by force
qed

lemma select_rows_poison:
  "(i, Uncastable) \<in> set rows \<Longrightarrow> scan i \<Longrightarrow> \<exists>e. select_rows scan cond rows = Inl e \<and> e = DatabaseError"
proof (induction rows)
  case (Cons r rows)
  obtain j p where r: "r = (j, p)" by (cases r)
  from Cons show ?case by (cases p) (auto simp: r)
qed simp

text \<open>The guard of the cast is not total: one row whose text is JSON but that the cast to
  \<open>jsonb\<close> refuses makes the claiming, recovery, reaping and collection scans of every server
  fail, so no pending job of the table can be claimed while it is there.\<close>

theorem uncastable_row_blocks_scans:
  assumes "(i, Uncastable) \<in> set rows" and "sq_fault Q = None"
  shows "claim_jobs Q settings n rows = Inl DatabaseError \<and> recover_stale_jobs Q server rows = Inl DatabaseError \<and>
    reap_unsupported_jobs Q settings n rows = Inl DatabaseError \<and>
    discover_cancellations Q settings rows = Inl DatabaseError \<and>
    mark_roots Q server n rows = Inl DatabaseError \<and> drain_root Q server n rows = Inl DatabaseError \<and>
    drop_orphans Q server n rows = Inl DatabaseError"
proof -
  have "select_rows (\<lambda>_. True) c rows = Inl DatabaseError" for c
    using select_rows_poison [OF assms(1), of "\<lambda>_. True" c] by auto
  then show ?thesis
    using assms(2)
    by (simp add: claim_jobs_def recover_stale_jobs_def reap_unsupported_jobs_def discover_cancellations_def
        mark_roots_def drain_root_def drop_orphans_def statement_def)
qed

section \<open>From submission to execution\<close>

lemma dict_get_arrow: "dict_get ob k = (case arrow (Some (JObj ob)) k of None \<Rightarrow> JNull | Some v \<Rightarrow> v)"
  by (simp add: dict_get_def arrow_def)

text \<open>The parser sees a write to the state section only as a new status.\<close>

lemma parse_after_state_write:
  assumes "parse_payload (JObj ob) = Inr p"
    and "\<forall>k. k \<noteq> ''state'' \<longrightarrow> arrow (Some (JObj ob')) k = arrow (Some (JObj ob)) k"
    and "job_status (JObj ob') = Some s" "s \<in> set KNOWN_STATUSES"
  shows "parse_payload (JObj ob') = Inr (p\<lparr>jp_status := s\<rparr>)"
proof -
  have eq: "dict_get ob' k = dict_get ob k" if "k \<noteq> ''state''" for k
    using assms(2) that by (simp add: dict_get_arrow)
  from assms(3) obtain st where st: "dict_get ob' ''state'' = JObj st" "dict_get st ''status'' = JStr s"
    by (auto simp: job_status_def state_field_def arrow_def dict_get_def split: option.splits json.splits)
  have "parse_status (dict_get ob' ''state'') = Inr s"
    using st assms(4) by (simp add: parse_status_def)
  moreover have "parse_version_and_type ob' = parse_version_and_type ob"
  proof -
    have "dict_get ob' ''v'' = dict_get ob ''v''" "dict_get ob' ''type'' = dict_get ob ''type''" by (simp_all add: eq)
    then show ?thesis by (simp only: parse_version_and_type_def)
  qed
  ultimately show ?thesis
    using assms(1) by (auto simp: parse_payload_def decode_payload_def eq split: if_splits)
qed

lemma arrow_of_dict: "arrow (Some (JObj ob)) k = map_of ob (lit k)"
  by (simp add: arrow_def)


section \<open>A concrete table\<close>

lemma sample_sql_ok: "sql_ok sample_sql"
  by (simp add: sql_ok_def sample_sql_def lower_letter_def)

lemma sample_keyed: "keyed sample_rows"
  by (simp add: keyed_def sample_rows_def)

lemma sample_table_ok: "table_ok (sample_rows, {1, 2, 3, 4, 5, 6})"
  by (simp add: table_ok_def sample_keyed) (auto simp: sample_rows_def)

lemmas sample_defs = sample_rows_def pending_doc_def done_doc_def foreign_doc_def running_doc_def sample_chunk_def
  sample_doc_def sample_worker_def

lemma sample_claim:
  "claim_jobs sample_sql sample_worker 5 sample_rows =
    Inr ([(1, claimed_doc)], (1, Doc claimed_doc) # tl sample_rows)"
  by (simp add: claim_jobs_def statement_def sample_defs claimable_def type_is_def status_is_def server_match_def
      claim_version_predicate_def is_number_def state_text_def state_field_def as_text_def arrow_def pick_def
      claim_chain_def jsonb_set_def claimed_doc_def sample_sql_def CURRENT_PROTOCOL_VERSION_def)

lemma queue_run:
  "db_run (sample_rows, {1, 2, 3, 4, 5, 6}) [(lit ''alpha'', Claimed [1])]
     ((1, Doc claimed_doc) # tl sample_rows, {1, 2, 3, 4, 5, 6})"
  using db_run.snoc [OF db_run.nil db_step.claim [OF sample_sql_ok sample_claim]]
  by (simp add: sample_worker_def)

theorem claimed_at_most_once_witness: "distinct (claims [(lit ''alpha'', Claimed [1])])"
  by (rule claimed_at_most_once [OF queue_run sample_table_ok])

lemma done_terminal: "terminal done_doc"
  by (simp add: terminal_def job_status_def state_field_def arrow_def done_doc_def sample_doc_def terminal_statuses_def)

theorem finished_jobs_are_final_witness:
  "\<exists>d'. Doc done_doc = Doc d' \<and> job_status d' = job_status done_doc \<and>
    arrow (Some d') ''result'' = arrow (Some done_doc) ''result'' \<and>
    state_field d' ''finished_at'' = state_field done_doc ''finished_at'' \<and>
    arrow (Some d') ''request'' = arrow (Some done_doc) ''request''"
proof (rule finished_jobs_are_final [OF queue_run sample_table_ok _ done_terminal])
  show "map_of (fst (sample_rows, {1, 2, 3, 4, 5, 6})) 2 = Some (Doc done_doc)"
    and "map_of (fst ((1, Doc claimed_doc) # tl sample_rows, {1, 2, 3, 4, 5, 6 :: uuid})) 2 = Some (Doc done_doc)"
    by (simp_all add: sample_rows_def)
qed

theorem foreign_rows_untouched_witness:
  "map_of ((1, Doc claimed_doc) # tl sample_rows) 3 = Some (Doc foreign_doc)"
  using foreign_rows_untouched [OF db_step.claim [OF sample_sql_ok sample_claim] sample_table_ok, of 3 "Doc foreign_doc"]
  by (simp add: sample_rows_def server_match_def foreign_doc_def sample_doc_def arrow_def sample_worker_def)

lemma running_facts:
  "type_is sample_sql ''command'' running_doc" "server_match (lit ''alpha'') running_doc"
  "status_is sample_sql ''running'' running_doc" "cancel_requested running_doc"
  by (simp_all add: status_word [OF sample_sql_ok] server_match_def state_field_def arrow_def running_doc_def
      sample_doc_def cancel_requested_def) (simp add: canonical_timestamp_def, code_simp)

lemma sample_finish:
  "\<exists>answer rows'. finish_job sample_sql id 5 sample_result (lit ''alpha'') sample_rows = (Inr answer, rows')"
proof -
  obtain d' where "finish_chain sample_sql sample_result JNull running_doc = Inr d'"
    using finish_chain_ok running_facts(3) sample_sql_ok by (metis status_word(2))
  then have "\<exists>h rows'. finish_update sample_sql 5 sample_result (lit ''alpha'') sample_rows = Inr ([h], rows')"
    using running_facts
    by (simp add: finish_update_def sample_result_def text_param_def optional_param_def utf8_encode_def
        statement_def sample_sql_def sample_rows_def) (simp add: lit_def)
  then show ?thesis by (auto simp: finish_job_def)
qed

theorem finish_job_settles_witness:
  "\<exists>answer rows'. answer = Some (lit ''cancelled'') \<and> (\<exists>d'. map_of rows' 5 = Some (Doc d') \<and>
    job_status d' = Some (lit ''cancelled'')) \<and> map_of rows' 1 = map_of sample_rows 1 \<and>
    finish_job sample_sql id 5 sample_result (lit ''alpha'') sample_rows = (Inr answer, rows')"
proof -
  obtain answer rows' where f: "finish_job sample_sql id 5 sample_result (lit ''alpha'') sample_rows = (Inr answer, rows')"
    using sample_finish by blast
  have "map_of sample_rows 5 = Some (Doc running_doc)" by (simp add: sample_rows_def)
  from finish_job_settles [OF sample_sql_ok sample_keyed this running_facts(1-3) f] running_facts(4) f
  show ?thesis by auto
qed

lemma done_expired: "expired_root sample_sql (lit ''alpha'') done_doc \<and> marked done_doc"
  by (simp add: expired_root_def marked_def status_word [OF sample_sql_ok] server_match_def state_field_def arrow_def
      done_doc_def sample_doc_def state_text_def as_text_def holds_def terminal_statuses_def sample_sql_def)
    (simp add: canonical_timestamp_def, code_simp)

lemma others_not_expired:
  "\<not> expired_root sample_sql server pending_doc" "\<not> expired_root sample_sql server foreign_doc"
  "\<not> expired_root sample_sql server running_doc" "\<not> expired_root sample_sql server sample_chunk"
  by (simp_all add: expired_root_def type_is_def state_field_def arrow_def pending_doc_def foreign_doc_def
      running_doc_def sample_chunk_def sample_doc_def state_text_def as_text_def holds_def terminal_statuses_def)

lemma sample_owned:
  "owned_chunk sample_sql (lit ''alpha'') 2 sample_chunk"
  "\<not> owned_chunk sample_sql server root (sample_doc srv st)"
  by (simp_all add: owned_chunk_def status_word [OF sample_sql_ok] server_match_def arrow_def sample_chunk_def
      sample_doc_def as_text_def holds_def)

lemma sample_drain:
  "drain_root sample_sql (lit ''alpha'') 5 sample_rows =
    Inr ([2], [1], filter (\<lambda>(i, _). i \<noteq> 2 \<and> i \<noteq> 6) sample_rows)"
proof -
  have "\<not> owned_chunk sample_sql (lit ''alpha'') 2 d"
    if "d \<in> {pending_doc, done_doc, foreign_doc, running_doc}" for d
    using that sample_owned(2) by (auto simp: pending_doc_def done_doc_def foreign_doc_def running_doc_def)
  moreover have "sq_fault sample_sql = None" "sq_order sample_sql hits = hits" "\<not> sq_locked sample_sql i" for hits i
    by (simp_all add: sample_sql_def)
  ultimately show ?thesis
    using done_expired others_not_expired sample_owned(1)
    by (simp add: drain_root_def statement_def sample_rows_def pick_def delete_rows_def)
qed

theorem collector_drains_before_deleting_witness:
  "\<exists>root r d. [2] = [root] \<and> map_of sample_rows root = Some (Doc r) \<and> expired_root sample_sql (lit ''alpha'') r \<and>
    marked r \<and> Doc sample_chunk = Doc d \<and> (owned_chunk sample_sql (lit ''alpha'') root d \<or> 6 = root \<and>
     (\<forall>j e. map_of (filter (\<lambda>(i, _). i \<noteq> 2 \<and> i \<noteq> 6) sample_rows) j = Some (Doc e) \<longrightarrow>
        \<not> owned_chunk sample_sql (lit ''alpha'') root e))"
  by (rule collector_drains_before_deleting [OF sample_sql_ok sample_keyed sample_drain])
    (simp_all add: sample_rows_def)


theorem uncastable_row_blocks_scans_witness:
  "claim_jobs sample_sql sample_worker 5 ((7, Uncastable) # sample_rows) = Inl DatabaseError"
  using uncastable_row_blocks_scans [of 7 "(7, Uncastable) # sample_rows" sample_sql]
  by (simp add: sample_sql_def)

end
