(* ===== verification/PyFloat.thy ===== *)
theory PyFloat
  imports PyJson
begin

text \<open>
  What the sources use of Python's floats beyond reading them from JSON: conversion of an int,
  comparison, addition, subtraction and multiplication, and powers of two. A finite float is exact
  (\<open>FFin m e\<close> is \<open>m * 2 ^ e\<close>), so comparison is exact and arithmetic rounds the exact result to
  the nearest double, ties to even, as IEEE 754 and CPython do. The sign of zero is not kept.
\<close>

section \<open>Definitions\<close>

definition is_finite :: "pyfloat \<Rightarrow> bool" where
  "is_finite x = (case x of FFin _ _ \<Rightarrow> True | _ \<Rightarrow> False)"

definition float_zero :: pyfloat where "float_zero = FFin 0 0"

definition round_dyadic :: "int \<Rightarrow> int \<Rightarrow> pyfloat" where
  "round_dyadic m e =
    (if m = 0 then float_zero
     else if 0 \<le> e then round_ratio (m < 0) (\<bar>m\<bar> * 2 ^ nat e) 1
     else round_ratio (m < 0) \<bar>m\<bar> (2 ^ nat (- e)))"

text \<open>\<open>float(n)\<close> for an int: OverflowError when the rounded value is not finite.\<close>

definition float_of_int :: "int \<Rightarrow> pyfloat res" where
  "float_of_int n =
    (let x = round_dyadic n 0 in if is_finite x then Ok x else Raise OverflowError)"

definition mantissa_at :: "int \<Rightarrow> int \<Rightarrow> int \<Rightarrow> int" where
  "mantissa_at k m e = m * 2 ^ nat (e - k)"

definition float_less :: "pyfloat \<Rightarrow> pyfloat \<Rightarrow> bool" where
  "float_less x y = (case (x, y) of
      (FFin m e, FFin n f) \<Rightarrow> mantissa_at (min e f) m e < mantissa_at (min e f) n f
    | (FFin _ _, FInf neg) \<Rightarrow> \<not> neg
    | (FInf neg, FFin _ _) \<Rightarrow> neg
    | (FInf neg, FInf neg') \<Rightarrow> neg \<and> \<not> neg'
    | _ \<Rightarrow> False)"

definition float_le :: "pyfloat \<Rightarrow> pyfloat \<Rightarrow> bool" where
  "float_le x y = (case (x, y) of
      (FFin m e, FFin n f) \<Rightarrow> mantissa_at (min e f) m e \<le> mantissa_at (min e f) n f
    | (FFin _ _, FInf neg) \<Rightarrow> \<not> neg
    | (FInf neg, FFin _ _) \<Rightarrow> neg
    | (FInf neg, FInf neg') \<Rightarrow> neg \<or> \<not> neg'
    | _ \<Rightarrow> False)"

definition float_neg :: "pyfloat \<Rightarrow> pyfloat" where
  "float_neg x = (case x of FFin m e \<Rightarrow> FFin (- m) e | FInf neg \<Rightarrow> FInf (\<not> neg) | FNaN \<Rightarrow> FNaN)"

definition float_add :: "pyfloat \<Rightarrow> pyfloat \<Rightarrow> pyfloat" where
  "float_add x y = (case (x, y) of
      (FFin m e, FFin n f) \<Rightarrow>
        round_dyadic (mantissa_at (min e f) m e + mantissa_at (min e f) n f) (min e f)
    | (FFin _ _, FInf neg) \<Rightarrow> FInf neg
    | (FInf neg, FFin _ _) \<Rightarrow> FInf neg
    | (FInf neg, FInf neg') \<Rightarrow> if neg = neg' then FInf neg else FNaN
    | _ \<Rightarrow> FNaN)"

definition float_sub :: "pyfloat \<Rightarrow> pyfloat \<Rightarrow> pyfloat" where
  "float_sub x y = float_add x (float_neg y)"

definition float_mul :: "pyfloat \<Rightarrow> pyfloat \<Rightarrow> pyfloat" where
  "float_mul x y = (case (x, y) of
      (FFin m e, FFin n f) \<Rightarrow> round_dyadic (m * n) (e + f)
    | (FFin m _, FInf neg) \<Rightarrow> if m = 0 then FNaN else FInf (neg \<noteq> (m < 0))
    | (FInf neg, FFin m _) \<Rightarrow> if m = 0 then FNaN else FInf (neg \<noteq> (m < 0))
    | (FInf neg, FInf neg') \<Rightarrow> FInf (neg \<noteq> neg')
    | _ \<Rightarrow> FNaN)"

text \<open>\<open>2.0 ** n\<close> for a non-negative int: the largest finite power is \<open>2.0 ** 1023\<close>.\<close>

definition float_pow2 :: "int \<Rightarrow> pyfloat res" where
  "float_pow2 n = (if 1024 \<le> n then Raise OverflowError else Ok (FFin 1 n))"

text \<open>\<open>min(x, y)\<close> keeps its first argument unless the second is smaller.\<close>

definition float_min :: "pyfloat \<Rightarrow> pyfloat \<Rightarrow> pyfloat" where
  "float_min x y = (if float_less y x then y else x)"

section \<open>Order\<close>

lemma is_finite_iff: "is_finite x \<longleftrightarrow> (\<exists>m e. x = FFin m e)"
  by (cases x) (auto simp: is_finite_def)

lemma mantissa_at_shift: "k \<le> e \<Longrightarrow> j \<le> k \<Longrightarrow> mantissa_at j m e = mantissa_at k m e * 2 ^ nat (k - j)"
  by (simp add: mantissa_at_def power_add [symmetric] nat_add_distrib [symmetric] mult.assoc)

lemma float_le_common:
  "k \<le> e \<Longrightarrow> k \<le> f \<Longrightarrow> float_le (FFin m e) (FFin n f) \<longleftrightarrow> mantissa_at k m e \<le> mantissa_at k n f"
  by (simp add: float_le_def mantissa_at_shift [of "min e f" e k m] mantissa_at_shift [of "min e f" f k n])

lemma float_less_common:
  "k \<le> e \<Longrightarrow> k \<le> f \<Longrightarrow> float_less (FFin m e) (FFin n f) \<longleftrightarrow> mantissa_at k m e < mantissa_at k n f"
  by (simp add: float_less_def mantissa_at_shift [of "min e f" e k m] mantissa_at_shift [of "min e f" f k n])

lemma float_not_less: "is_finite x \<Longrightarrow> is_finite y \<Longrightarrow> \<not> float_less x y \<longleftrightarrow> float_le y x"
  by (auto simp: is_finite_iff float_less_def float_le_def min.commute)

lemma float_le_refl: "is_finite x \<Longrightarrow> float_le x x"
  by (auto simp: is_finite_iff float_le_def)

lemma float_le_trans:
  assumes "is_finite x" "is_finite y" "is_finite z" "float_le x y" "float_le y z"
  shows "float_le x z"
proof -
  obtain a e b f c g where xyz: "x = FFin a e" "y = FFin b f" "z = FFin c g"
    using assms(1-3) by (auto simp: is_finite_iff)
  define k where "k = min e (min f g)"
  have "k \<le> e" "k \<le> f" "k \<le> g" by (simp_all add: k_def)
  then show ?thesis
    using assms(4,5) unfolding xyz by (simp add: float_le_common [of k])
qed

lemma float_min_le: "is_finite x \<Longrightarrow> is_finite y \<Longrightarrow> float_le (float_min x y) x \<and> float_le (float_min x y) y"
  using float_not_less float_le_refl
  by (auto simp: float_min_def) (auto simp: is_finite_iff float_le_def float_less_def min.commute)

lemma float_less_zero [simp]: "float_less (FFin m e) (FFin 0 0) \<longleftrightarrow> m < 0"
  by (simp add: float_less_def mantissa_at_def mult_less_0_iff)


section \<open>Conversion of large integers\<close>

lemma bit_length_bounds: "0 < n \<Longrightarrow> 0 < bit_length n \<and> 2 ^ nat (bit_length n - 1) \<le> n \<and> n < 2 ^ nat (bit_length n)"
proof (induction n rule: bit_length.induct)
  case (1 n)
  show ?case
  proof (cases "n = 1")
    case True
    have "bit_length 0 = 0" by (subst bit_length.simps) simp
    then have "bit_length 1 = 1" by (subst bit_length.simps) simp
    with True show ?thesis by simp
  next
    case False
    with 1 have IH: "0 < bit_length (n div 2)" "2 ^ nat (bit_length (n div 2) - 1) \<le> n div 2"
      "n div 2 < 2 ^ nat (bit_length (n div 2))" by auto
    define b where "b = nat (bit_length (n div 2) - 1)"
    have bl: "bit_length n = int b + 2" using 1(2) IH(1) by (subst bit_length.simps) (simp add: b_def)
    have "nat (bit_length (n div 2)) = Suc b" using IH(1) by (simp add: b_def)
    then have "2 ^ b \<le> n div 2" "n div 2 < 2 ^ Suc b" using IH by (simp_all add: b_def)
    then have "2 * 2 ^ b \<le> n" "n < 2 * 2 ^ Suc b" by linarith+
    then show ?thesis unfolding bl by (simp add: nat_add_distrib algebra_simps)
  qed
qed

lemma quotient_ge: "a * 2 ^ e \<le> n \<Longrightarrow> a \<le> n div (2 ^ e :: int)"
  using zdiv_mono1 [of "a * 2 ^ e" n "2 ^ e"] by simp

lemma round_ratio_overflow:
  assumes "2 ^ 1024 \<le> n"
  shows "round_ratio False n 1 = FInf False"
proof -
  have pos: "0 < n" by (rule less_le_trans [OF _ assms]) simp
  define k where "k = nat (bit_length n - 1)"
  have bl: "bit_length n = int k + 1" using bit_length_bounds [OF pos] by (simp add: k_def)
  then have "nat (bit_length n) = Suc k" by simp
  then have b: "bit_length n = int k + 1" "2 ^ k \<le> n" "n < 2 ^ Suc k"
    using bit_length_bounds [OF pos] unfolding bl by (simp_all add: nat_add_distrib)
  have k: "1024 \<le> k"
  proof (rule ccontr)
    assume "\<not> 1024 \<le> k"
    then have "(2::int) ^ Suc k \<le> 2 ^ 1024" by (intro power_increasing) auto
    with b(3) assms show False by linarith
  qed
  define e where "e = k - 53"
  have ke: "k = e + 53" using k by (simp add: e_def)
  have e0: "bit_length n - bit_length 1 - 53 = int e"
    using b(1) ke by (subst (2) bit_length.simps) (subst bit_length.simps, simp)
  have q0: "\<not> n div 2 ^ e < 2 ^ 53"
  proof -
    have "(2::int) ^ 53 * 2 ^ e \<le> n" using b(2) by (simp add: ke power_add mult.commute)
    then have "2 ^ 53 \<le> n div 2 ^ e" by (rule quotient_ge)
    then show ?thesis by simp
  qed
  define q where "q = n div 2 ^ Suc e"
  have q: "2 ^ 52 \<le> q"
  proof -
    have "(2::int) ^ 52 * 2 ^ Suc e \<le> n" using b(2) by (simp add: ke power_add mult.commute)
    then show ?thesis unfolding q_def by (rule quotient_ge)
  qed
  have big: "2 ^ 1024 \<le> (q + d) * 2 ^ Suc e" if "0 \<le> d" for d
  proof -
    have "(2::int) ^ 1024 \<le> 2 ^ k" using k by (intro power_increasing) auto
    also have "\<dots> = 2 ^ 52 * 2 ^ Suc e" by (simp add: ke power_add)
    also have "\<dots> \<le> (q + d) * 2 ^ Suc e" using q that by (intro mult_right_mono) auto
    finally show ?thesis .
  qed
  have scaled: "nat (int e + 1) = Suc e" "max (int e + 1) (- 1074) = int e + 1" "max (int e + 1) 0 = int e + 1"
    by auto
  have m: "0 \<le> int e" "0 \<le> int e + 1" "nat (int e) = e" by simp_all
  show ?thesis
    unfolding round_ratio_def e0 Let_def m(3) if_P [OF m(1)] fst_conv snd_conv mult_1_left if_not_P [OF q0]
      scaled if_P [OF m(2)] prod.case q_def [symmetric]
    using big [of 0] big [of 1] by (simp only: add_0_right if_split) (simp add: mult.commute)
qed

lemma float_of_int_overflow:
  assumes "2 ^ 1024 \<le> n"
  shows "float_of_int n = Inl OverflowError"
proof -
  have "0 < n" by (rule less_le_trans [OF _ assms]) simp
  moreover have "round_ratio False n 1 = FInf False"
    by (rule round_ratio_overflow [OF assms])
  ultimately show ?thesis
    by (simp add: float_of_int_def round_dyadic_def is_finite_def)
qed

end
