(* ===== verification/Authority.thy ===== *)
theory Authority
  imports Protocol
begin

text \<open>
  \<open>src/lubko/lifecycle_authority.py\<close>, first half: the row that records who owns a server, and its
  JSON binding. The dataclasses are records; \<open>parse_authority_payload\<close>, \<open>canonical_row_text\<close> and
  their section parsers and builders keep the source's checks in order. Fields that the dataclass
  declares as \<open>str\<close>, \<open>int\<close> or \<open>bool\<close> have that type here, so an \<open>isinstance\<close> test on
  them is true; the tests on decoded JSON are all modelled.
\<close>

section \<open>Constants and records\<close>

definition AUTHORITY_TYPE :: pystr where "AUTHORITY_TYPE = lit ''lifecycle_authority''"
definition AUTHORITY_VERSION :: int where "AUTHORITY_VERSION = 2"
definition LEGACY_AUTHORITY_VERSION :: int where "LEGACY_AUTHORITY_VERSION = 1"
definition AUTHORITY_MAX_BYTES :: int where "AUTHORITY_MAX_BYTES = 4096"
definition AUTHORITY_NAMESPACE :: uuid where
  "AUTHORITY_NAMESPACE = 0x24b16c6372104b879bc609583150835d"

record AuthorityOwner =
  ao_pid :: int
  ao_start_time_ticks :: int
  ao_boot_id :: pystr

record SpawnObligation =
  so_token :: pystr
  so_commit :: pystr
  so_creator_pid :: int
  so_creator_start_time_ticks :: int
  so_boot_id :: "pystr option"
  so_pid :: "int option"
  so_start_time_ticks :: "int option"
  so_parent_death_signal :: bool

record WorkerRecord =
  wr_token :: pystr
  wr_commit :: pystr
  wr_pid :: int
  wr_pgid :: int
  wr_sid :: int
  wr_start_time_ticks :: int
  wr_worker_id :: pystr

record AuthorityRow =
  ar_server :: pystr
  ar_epoch :: int
  ar_generation :: int
  ar_owner :: "AuthorityOwner option"
  ar_spawn :: "SpawnObligation option"
  ar_worker :: "WorkerRecord option"

record AuthorityClaim =
  ac_server :: pystr
  ac_epoch :: int
  ac_pid :: int
  ac_start_time_ticks :: int
  ac_boot_id :: pystr

section \<open>Field checks\<close>

definition require_server_identity :: "pystr \<Rightarrow> pystr res" where
  "require_server_identity value =
    (if value = [] then
       Raise (AuthorityError ''lifecycle authority requires a non-empty server identity'')
     else Ok value)"

definition authority_row_id :: "pystr \<Rightarrow> uuid res" where
  "authority_row_id server =
    ebind (require_server_identity server) (\<lambda>validated_server.
      uuid5 AUTHORITY_NAMESPACE validated_server)"

definition check_non_negative_int :: "string \<Rightarrow> json \<Rightarrow> int res" where
  "check_non_negative_int name value = (case value of
      JInt i \<Rightarrow> if i < 0 then Raise (AuthorityError name) else Ok i
    | _ \<Rightarrow> Raise (AuthorityError name))"

definition check_positive_int :: "string \<Rightarrow> json \<Rightarrow> int res" where
  "check_positive_int name value = (case value of
      JInt i \<Rightarrow> if i \<le> 0 then Raise (AuthorityError name) else Ok i
    | _ \<Rightarrow> Raise (AuthorityError name))"

text \<open>\<open>isinstance(value, str) and value\<close>.\<close>

definition require_text :: "string \<Rightarrow> json \<Rightarrow> pystr res" where
  "require_text msg value = (case value of
      JStr s \<Rightarrow> if s = [] then Raise (AuthorityError msg) else Ok s
    | _ \<Rightarrow> Raise (AuthorityError msg))"

definition require_flag :: "string \<Rightarrow> json \<Rightarrow> bool res" where
  "require_flag msg value = (case value of
      JBool b \<Rightarrow> Ok b | _ \<Rightarrow> Raise (AuthorityError msg))"

text \<open>The pattern \<open>x = None; if raw is not None: x = check(raw)\<close>.\<close>

definition unless_null :: "(json \<Rightarrow> 'a res) \<Rightarrow> json \<Rightarrow> 'a option res" where
  "unless_null check value =
    (if value = JNull then Ok None else ebind (check value) (\<lambda>x. Ok (Some x)))"

definition opt_json :: "('a \<Rightarrow> json) \<Rightarrow> 'a option \<Rightarrow> json" where
  "opt_json f v = (case v of None \<Rightarrow> JNull | Some x \<Rightarrow> f x)"

section \<open>Section parsers and builders\<close>

definition parse_owner :: "json \<Rightarrow> AuthorityOwner option res" where
  "parse_owner raw = (case raw of
      JNull \<Rightarrow> Ok None
    | JObj d \<Rightarrow>
        ebind (check_positive_int ''owner.pid'' (dict_get d ''pid'')) (\<lambda>pid.
        ebind (check_non_negative_int ''owner.start_time_ticks'' (dict_get d ''start_time_ticks'')) (\<lambda>ticks.
        ebind (require_text ''authority payload owner must carry a host boot identity''
                 (dict_get d ''boot_id'')) (\<lambda>boot_id.
          Ok (Some \<lparr>ao_pid = pid, ao_start_time_ticks = ticks, ao_boot_id = boot_id\<rparr>))))
    | _ \<Rightarrow> Raise (AuthorityError ''authority payload owner must be an object or null''))"

definition owner_mapping :: "AuthorityOwner \<Rightarrow> json" where
  "owner_mapping ow = JObj [(lit ''pid'', JInt (ao_pid ow)),
     (lit ''start_time_ticks'', JInt (ao_start_time_ticks ow)),
     (lit ''boot_id'', JStr (ao_boot_id ow))]"

definition build_authority_payload ::
    "pystr \<Rightarrow> int \<Rightarrow> int \<Rightarrow> AuthorityOwner option \<Rightarrow> dict res" where
  "build_authority_payload server epoch generation owner =
    ebind (require_server_identity server) (\<lambda>validated_server.
    ebind (check_non_negative_int ''epoch'' (JInt epoch)) (\<lambda>epoch.
    ebind (check_non_negative_int ''generation'' (JInt generation)) (\<lambda>generation.
    ebind (case owner of
        None \<Rightarrow> Ok JNull
      | Some ow \<Rightarrow> ebind (parse_owner (owner_mapping ow)) (\<lambda>parsed. case parsed of
            None \<Rightarrow> Raise (AuthorityError
              ''authority payload owner must carry an exact process identity'')
          | Some p \<Rightarrow> Ok (owner_mapping p))) (\<lambda>owner_mapping.
      Ok [(lit ''v'', JInt AUTHORITY_VERSION),
          (lit ''type'', JStr AUTHORITY_TYPE),
          (lit ''server'', JStr validated_server),
          (lit ''epoch'', JInt epoch),
          (lit ''generation'', JInt generation),
          (lit ''owner'', owner_mapping),
          (lit ''spawn'', JNull),
          (lit ''worker'', JNull)]))))"

definition build_spawn_mapping :: "SpawnObligation option \<Rightarrow> json res" where
  "build_spawn_mapping spawn = (case spawn of
      None \<Rightarrow> Ok JNull
    | Some s \<Rightarrow>
        ebind (require_text ''authority spawn obligation must carry a lifecycle token''
                 (JStr (so_token s))) (\<lambda>token.
        ebind (require_text ''authority spawn obligation must carry an exact commit''
                 (JStr (so_commit s))) (\<lambda>commit.
        ebind (check_non_negative_int ''spawn.creator_pid'' (JInt (so_creator_pid s))) (\<lambda>creator_pid.
        ebind (check_non_negative_int ''spawn.creator_start_time_ticks''
                 (JInt (so_creator_start_time_ticks s))) (\<lambda>creator_ticks.
        ebind (unless_null
                 (require_text ''authority spawn obligation must carry a host boot identity or null'')
                 (opt_json JStr (so_boot_id s))) (\<lambda>boot_id.
        ebind (unless_null (check_non_negative_int ''spawn.pid'') (opt_json JInt (so_pid s))) (\<lambda>pid.
        ebind (unless_null (check_non_negative_int ''spawn.start_time_ticks'')
                 (opt_json JInt (so_start_time_ticks s))) (\<lambda>ticks.
          Ok (JObj [(lit ''token'', JStr token),
            (lit ''commit'', JStr commit),
            (lit ''creator_pid'', JInt creator_pid),
            (lit ''creator_start_time_ticks'', JInt creator_ticks),
            (lit ''boot_id'', opt_json JStr boot_id),
            (lit ''pid'', opt_json JInt pid),
            (lit ''start_time_ticks'', opt_json JInt ticks),
            (lit ''parent_death_signal'', JBool (so_parent_death_signal s))])))))))))"

definition parse_spawn :: "json \<Rightarrow> SpawnObligation option res" where
  "parse_spawn raw = (case raw of
      JNull \<Rightarrow> Ok None
    | JObj d \<Rightarrow>
        ebind (require_text ''authority spawn obligation must carry a lifecycle token''
                 (dict_get d ''token'')) (\<lambda>token.
        ebind (require_text ''authority spawn obligation must carry an exact commit''
                 (dict_get d ''commit'')) (\<lambda>commit.
        ebind (check_non_negative_int ''spawn.creator_pid'' (dict_get d ''creator_pid'')) (\<lambda>creator_pid.
        ebind (check_non_negative_int ''spawn.creator_start_time_ticks''
                 (dict_get d ''creator_start_time_ticks'')) (\<lambda>creator_ticks.
        ebind (unless_null
                 (require_text ''authority spawn obligation must carry a host boot identity or null'')
                 (dict_get d ''boot_id'')) (\<lambda>boot_id.
        ebind (unless_null (check_non_negative_int ''spawn.pid'') (dict_get d ''pid'')) (\<lambda>pid.
        ebind (unless_null (check_non_negative_int ''spawn.start_time_ticks'')
                 (dict_get d ''start_time_ticks'')) (\<lambda>ticks.
        ebind (require_flag
                 ''authority spawn obligation must carry an explicit boolean parent-death-signal flag''
                 (dict_get d ''parent_death_signal'')) (\<lambda>flag.
          Ok (Some \<lparr>so_token = token, so_commit = commit, so_creator_pid = creator_pid,
            so_creator_start_time_ticks = creator_ticks, so_boot_id = boot_id, so_pid = pid,
            so_start_time_ticks = ticks, so_parent_death_signal = flag\<rparr>)))))))))
    | _ \<Rightarrow> Raise (AuthorityError ''authority payload spawn must be an object or null''))"

definition build_worker_mapping :: "WorkerRecord option \<Rightarrow> json res" where
  "build_worker_mapping worker = (case worker of
      None \<Rightarrow> Ok JNull
    | Some w \<Rightarrow>
        ebind (require_text ''authority worker record must carry a lifecycle token''
                 (JStr (wr_token w))) (\<lambda>token.
        ebind (require_text ''authority worker record must carry an exact commit''
                 (JStr (wr_commit w))) (\<lambda>commit.
        ebind (require_text ''authority worker record must carry a worker identity''
                 (JStr (wr_worker_id w))) (\<lambda>worker_id.
        ebind (check_positive_int ''worker.pid'' (JInt (wr_pid w))) (\<lambda>pid.
        ebind (check_non_negative_int ''worker.pgid'' (JInt (wr_pgid w))) (\<lambda>pgid.
        ebind (check_non_negative_int ''worker.sid'' (JInt (wr_sid w))) (\<lambda>sid.
        ebind (check_non_negative_int ''worker.start_time_ticks''
                 (JInt (wr_start_time_ticks w))) (\<lambda>ticks.
          Ok (JObj [(lit ''token'', JStr token),
            (lit ''commit'', JStr commit),
            (lit ''pid'', JInt pid),
            (lit ''pgid'', JInt pgid),
            (lit ''sid'', JInt sid),
            (lit ''start_time_ticks'', JInt ticks),
            (lit ''worker_id'', JStr worker_id)])))))))))"

definition parse_worker :: "json \<Rightarrow> WorkerRecord option res" where
  "parse_worker raw = (case raw of
      JNull \<Rightarrow> Ok None
    | JObj d \<Rightarrow>
        ebind (require_text ''authority worker record must carry a lifecycle token''
                 (dict_get d ''token'')) (\<lambda>token.
        ebind (require_text ''authority worker record must carry an exact commit''
                 (dict_get d ''commit'')) (\<lambda>commit.
        ebind (require_text ''authority worker record must carry a worker identity''
                 (dict_get d ''worker_id'')) (\<lambda>worker_id.
        ebind (check_positive_int ''worker.pid'' (dict_get d ''pid'')) (\<lambda>pid.
        ebind (check_non_negative_int ''worker.pgid'' (dict_get d ''pgid'')) (\<lambda>pgid.
        ebind (check_non_negative_int ''worker.sid'' (dict_get d ''sid'')) (\<lambda>sid.
        ebind (check_non_negative_int ''worker.start_time_ticks''
                 (dict_get d ''start_time_ticks'')) (\<lambda>ticks.
          Ok (Some \<lparr>wr_token = token, wr_commit = commit, wr_pid = pid, wr_pgid = pgid,
            wr_sid = sid, wr_start_time_ticks = ticks, wr_worker_id = worker_id\<rparr>))))))))
    | _ \<Rightarrow> Raise (AuthorityError ''authority payload worker must be an object or null''))"

section \<open>The whole row\<close>

definition serialize_authority_payload :: "dict \<Rightarrow> pystr res" where
  "serialize_authority_payload payload =
    ebind (dumps (JObj payload)) (\<lambda>text.
    ebind (utf8_byte_length text) (\<lambda>n.
      if n > AUTHORITY_MAX_BYTES
      then Raise (AuthorityError ''authority payload exceeds the 4096-byte bound'')
      else Ok text))"

definition canonical_row_text :: "AuthorityRow \<Rightarrow> pystr res" where
  "canonical_row_text row =
    ebind (build_authority_payload (ar_server row) (ar_epoch row) (ar_generation row) (ar_owner row))
      (\<lambda>payload.
    ebind (build_spawn_mapping (ar_spawn row)) (\<lambda>spawn.
    ebind (build_worker_mapping (ar_worker row)) (\<lambda>worker.
      serialize_authority_payload
        (dict_set (lit ''worker'') worker (dict_set (lit ''spawn'') spawn payload)))))"

text \<open>Python's \<open>==\<close> between a decoded value and an int: a float with that value is equal to it.\<close>

definition py_eq_int :: "json \<Rightarrow> int \<Rightarrow> bool" where
  "py_eq_int value n = (case value of
      JInt i \<Rightarrow> i = n | JFloat f \<Rightarrow> float_eq_int f n
    | JBool b \<Rightarrow> (if b then 1 else 0) = n | _ \<Rightarrow> False)"

definition is_bool :: "json \<Rightarrow> bool" where
  "is_bool value = (case value of JBool _ \<Rightarrow> True | _ \<Rightarrow> False)"

definition decode_authority :: "json \<Rightarrow> dict res" where
  "decode_authority data =
    ebind (case data of
        JStr s \<Rightarrow> ebind (utf8_byte_length s) (\<lambda>n.
          if n > AUTHORITY_MAX_BYTES
          then Raise (AuthorityError ''authority payload exceeds the documented byte bound'')
          else (case loads s of
              Inl JSONDecodeError \<Rightarrow> Raise (AuthorityError ''authority payload is not valid JSON: '')
            | r \<Rightarrow> r))
      | _ \<Rightarrow> Ok data)
    (\<lambda>v. case v of
        JObj d \<Rightarrow> Ok d
      | _ \<Rightarrow> Raise (AuthorityError ''authority payload must be a JSON object''))"

definition parse_sections :: "pystr \<Rightarrow> dict \<Rightarrow> AuthorityRow res" where
  "parse_sections server d =
    ebind (check_non_negative_int ''epoch'' (dict_get d ''epoch'')) (\<lambda>epoch.
    ebind (check_non_negative_int ''generation'' (dict_get d ''generation'')) (\<lambda>generation.
    ebind (parse_owner (dict_get d ''owner'')) (\<lambda>owner.
    ebind (parse_spawn (dict_get d ''spawn'')) (\<lambda>spawn.
    ebind (parse_worker (dict_get d ''worker'')) (\<lambda>worker.
    if spawn \<noteq> None \<and> worker \<noteq> None then Raise (AuthorityError
      ''authority row cannot carry both a spawn obligation and a published worker'')
    else Ok \<lparr>ar_server = server, ar_epoch = epoch, ar_generation = generation, ar_owner = owner,
             ar_spawn = spawn, ar_worker = worker\<rparr>)))))"

definition parse_authority_payload :: "json \<Rightarrow> pystr \<Rightarrow> AuthorityRow res" where
  "parse_authority_payload data server =
    ebind (decode_authority data) (\<lambda>d.
    if \<not> py_eq_int (dict_get d ''v'') AUTHORITY_VERSION \<or> is_bool (dict_get d ''v'')
      then Raise (AuthorityError ''unsupported lifecycle authority version: '')
    else if dict_get d ''type'' \<noteq> JStr AUTHORITY_TYPE
      then Raise (AuthorityError ''payload is not lifecycle authority: '')
    else if dict_get d ''server'' \<noteq> JStr server
      then Raise (AuthorityError ''lifecycle authority row governs a different server; holding'')
    else if \<not> dict_has d ''spawn'' \<or> \<not> dict_has d ''worker''
      then Raise (AuthorityError ''authority payload must carry explicit spawn and worker keys'')
    else parse_sections server d)"

definition parse_v1_payload :: "json \<Rightarrow> pystr \<Rightarrow> AuthorityRow res" where
  "parse_v1_payload data server =
    ebind (decode_authority data) (\<lambda>d.
    if \<not> py_eq_int (dict_get d ''v'') LEGACY_AUTHORITY_VERSION \<or> is_bool (dict_get d ''v'')
      then Raise (AuthorityError ''not a v1 lifecycle authority row: '')
    else if dict_get d ''type'' \<noteq> JStr AUTHORITY_TYPE
      then Raise (AuthorityError ''payload is not lifecycle authority: '')
    else if dict_get d ''server'' \<noteq> JStr server
      then Raise (AuthorityError ''lifecycle authority row governs a different server; holding'')
    else parse_sections server d)"

definition neutral_row :: "pystr \<Rightarrow> AuthorityRow" where
  "neutral_row server = \<lparr>ar_server = server, ar_epoch = 0, ar_generation = 0, ar_owner = None,
     ar_spawn = None, ar_worker = None\<rparr>"

definition neutral_payload :: "pystr \<Rightarrow> pystr res" where
  "neutral_payload server =
    ebind (require_server_identity server) (\<lambda>s. canonical_row_text (neutral_row s))"

section \<open>Well-formed rows\<close>

definition wf_owner :: "AuthorityOwner \<Rightarrow> bool" where
  "wf_owner ow \<longleftrightarrow> 0 < ao_pid ow \<and> 0 \<le> ao_start_time_ticks ow \<and> ao_boot_id ow \<noteq> []"

definition wf_spawn :: "SpawnObligation \<Rightarrow> bool" where
  "wf_spawn s \<longleftrightarrow> so_token s \<noteq> [] \<and> so_commit s \<noteq> [] \<and> 0 \<le> so_creator_pid s
     \<and> 0 \<le> so_creator_start_time_ticks s \<and> so_boot_id s \<noteq> Some []
     \<and> pred_option (\<lambda>p. 0 \<le> p) (so_pid s) \<and> pred_option (\<lambda>t. 0 \<le> t) (so_start_time_ticks s)"

definition wf_worker :: "WorkerRecord \<Rightarrow> bool" where
  "wf_worker w \<longleftrightarrow> wr_token w \<noteq> [] \<and> wr_commit w \<noteq> [] \<and> wr_worker_id w \<noteq> [] \<and> 0 < wr_pid w
     \<and> 0 \<le> wr_pgid w \<and> 0 \<le> wr_sid w \<and> 0 \<le> wr_start_time_ticks w"

definition wf_row :: "AuthorityRow \<Rightarrow> bool" where
  "wf_row r \<longleftrightarrow> 0 \<le> ar_epoch r \<and> 0 \<le> ar_generation r \<and> pred_option wf_owner (ar_owner r)
     \<and> pred_option wf_spawn (ar_spawn r) \<and> pred_option wf_worker (ar_worker r)
     \<and> (ar_spawn r = None \<or> ar_worker r = None)"

text \<open>Strings that JSON text can carry: no adjacent halves of a surrogate pair.\<close>

definition clean_owner :: "AuthorityOwner \<Rightarrow> bool" where
  "clean_owner ow \<longleftrightarrow> clean (ao_boot_id ow)"

definition clean_spawn :: "SpawnObligation \<Rightarrow> bool" where
  "clean_spawn s \<longleftrightarrow> clean (so_token s) \<and> clean (so_commit s) \<and> pred_option clean (so_boot_id s)"

definition clean_worker :: "WorkerRecord \<Rightarrow> bool" where
  "clean_worker w \<longleftrightarrow> clean (wr_token w) \<and> clean (wr_commit w) \<and> clean (wr_worker_id w)"

definition clean_row :: "AuthorityRow \<Rightarrow> bool" where
  "clean_row r \<longleftrightarrow> clean (ar_server r) \<and> pred_option clean_owner (ar_owner r)
     \<and> pred_option clean_spawn (ar_spawn r) \<and> pred_option clean_worker (ar_worker r)"

definition authority_error :: "pyerr \<Rightarrow> bool" where
  "authority_error e \<longleftrightarrow> (\<exists>m. e = AuthorityError m)"

definition row_ok :: "pystr \<Rightarrow> AuthorityRow \<Rightarrow> bool" where
  "row_ok server r \<longleftrightarrow> wf_row r \<and> clean_row r \<and> ar_server r = server"

text \<open>Rows of ordinary content: printable strings of at most 400 characters, numbers of at most 18 digits.\<close>

definition ordinary_owner :: "AuthorityOwner \<Rightarrow> bool" where
  "ordinary_owner ow \<longleftrightarrow> wf_owner ow \<and> small (ao_pid ow) \<and> small (ao_start_time_ticks ow)
     \<and> printable (ao_boot_id ow) \<and> length (ao_boot_id ow) \<le> 400"

definition ordinary_spawn :: "SpawnObligation \<Rightarrow> bool" where
  "ordinary_spawn s \<longleftrightarrow> wf_spawn s \<and> small (so_creator_pid s) \<and> small (so_creator_start_time_ticks s)
     \<and> pred_option small (so_pid s) \<and> pred_option small (so_start_time_ticks s)
     \<and> printable (so_token s) \<and> length (so_token s) \<le> 400
     \<and> printable (so_commit s) \<and> length (so_commit s) \<le> 400
     \<and> pred_option (\<lambda>b. printable b \<and> length b \<le> 400) (so_boot_id s)"

definition ordinary_worker :: "WorkerRecord \<Rightarrow> bool" where
  "ordinary_worker w \<longleftrightarrow> wf_worker w \<and> small (wr_pid w) \<and> small (wr_pgid w) \<and> small (wr_sid w)
     \<and> small (wr_start_time_ticks w) \<and> printable (wr_token w) \<and> length (wr_token w) \<le> 400
     \<and> printable (wr_commit w) \<and> length (wr_commit w) \<le> 400
     \<and> printable (wr_worker_id w) \<and> length (wr_worker_id w) \<le> 400"

definition ordinary_row :: "AuthorityRow \<Rightarrow> bool" where
  "ordinary_row r \<longleftrightarrow> wf_row r \<and> ar_server r \<noteq> [] \<and> printable (ar_server r) \<and> length (ar_server r) \<le> 400
     \<and> small (ar_epoch r) \<and> small (ar_generation r) \<and> pred_option ordinary_owner (ar_owner r)
     \<and> pred_option ordinary_spawn (ar_spawn r) \<and> pred_option ordinary_worker (ar_worker r)"

text \<open>The mapping a section is printed as.\<close>

definition spawn_mapping :: "SpawnObligation \<Rightarrow> json" where
  "spawn_mapping s = JObj [(lit ''token'', JStr (so_token s)), (lit ''commit'', JStr (so_commit s)),
     (lit ''creator_pid'', JInt (so_creator_pid s)),
     (lit ''creator_start_time_ticks'', JInt (so_creator_start_time_ticks s)),
     (lit ''boot_id'', opt_json JStr (so_boot_id s)), (lit ''pid'', opt_json JInt (so_pid s)),
     (lit ''start_time_ticks'', opt_json JInt (so_start_time_ticks s)),
     (lit ''parent_death_signal'', JBool (so_parent_death_signal s))]"

definition worker_mapping :: "WorkerRecord \<Rightarrow> json" where
  "worker_mapping w = JObj [(lit ''token'', JStr (wr_token w)), (lit ''commit'', JStr (wr_commit w)),
     (lit ''pid'', JInt (wr_pid w)), (lit ''pgid'', JInt (wr_pgid w)), (lit ''sid'', JInt (wr_sid w)),
     (lit ''start_time_ticks'', JInt (wr_start_time_ticks w)), (lit ''worker_id'', JStr (wr_worker_id w))]"

definition row_mapping :: "AuthorityRow \<Rightarrow> dict" where
  "row_mapping r = [(lit ''v'', JInt AUTHORITY_VERSION), (lit ''type'', JStr AUTHORITY_TYPE),
     (lit ''server'', JStr (ar_server r)), (lit ''epoch'', JInt (ar_epoch r)),
     (lit ''generation'', JInt (ar_generation r)),
     (lit ''owner'', opt_json owner_mapping (ar_owner r)),
     (lit ''spawn'', opt_json spawn_mapping (ar_spawn r)),
     (lit ''worker'', opt_json worker_mapping (ar_worker r))]"

text \<open>Concrete rows: unowned, owned, with an obligation and with a published worker.\<close>

definition sample_server :: pystr where "sample_server = lit ''a''"

definition sample_owner :: AuthorityOwner where
  "sample_owner = \<lparr>ao_pid = 7, ao_start_time_ticks = 9, ao_boot_id = lit ''b''\<rparr>"

definition sample_spawn :: SpawnObligation where
  "sample_spawn = \<lparr>so_token = lit ''t'', so_commit = lit ''c'', so_creator_pid = 7,
     so_creator_start_time_ticks = 9, so_boot_id = Some (lit ''b''), so_pid = None,
     so_start_time_ticks = None, so_parent_death_signal = True\<rparr>"

definition sample_worker :: WorkerRecord where
  "sample_worker = \<lparr>wr_token = lit ''t'', wr_commit = lit ''c'', wr_pid = 8, wr_pgid = 8, wr_sid = 8,
     wr_start_time_ticks = 10, wr_worker_id = lit ''w''\<rparr>"

definition owned_row :: AuthorityRow where
  "owned_row = (neutral_row sample_server)\<lparr>ar_epoch := 1, ar_owner := Some sample_owner\<rparr>"

definition obliged_row :: AuthorityRow where
  "obliged_row = owned_row\<lparr>ar_spawn := Some sample_spawn\<rparr>"

definition published_row :: AuthorityRow where
  "published_row = owned_row\<lparr>ar_worker := Some sample_worker\<rparr>"

section \<open>Characterizations of the checks\<close>

lemma check_int_Inr [simp]:
  "check_non_negative_int n v = Inr i \<longleftrightarrow> v = JInt i \<and> 0 \<le> i"
  "check_positive_int n v = Inr i \<longleftrightarrow> v = JInt i \<and> 0 < i"
  by (cases v; auto simp: check_non_negative_int_def check_positive_int_def)+

lemma require_text_Inr [simp]: "require_text m v = Inr s \<longleftrightarrow> v = JStr s \<and> s \<noteq> []"
  by (cases v) (auto simp: require_text_def)

lemma require_flag_Inr [simp]: "require_flag m v = Inr b \<longleftrightarrow> v = JBool b"
  by (cases v) (auto simp: require_flag_def)

lemma opt_json_simps [simp]: "opt_json f None = JNull" "opt_json f (Some x) = f x"
  by (simp_all add: opt_json_def)

lemma unless_null_Inr:
  "unless_null c v = Inr y \<longleftrightarrow>
    (y = None \<and> v = JNull \<or> (\<exists>x. y = Some x \<and> v \<noteq> JNull \<and> c v = Inr x))"
  by (auto simp: unless_null_def)

lemma require_server_identity_Inr [simp]: "require_server_identity s = Inr t \<longleftrightarrow> s = t \<and> s \<noteq> []"
  by (auto simp: require_server_identity_def)

section \<open>Parsed rows are well formed\<close>

lemma parse_owner_wf: "parse_owner v = Inr (Some ow) \<Longrightarrow> wf_owner ow"
  by (cases v) (auto simp: parse_owner_def wf_owner_def)

lemma parse_spawn_wf: "parse_spawn v = Inr (Some s) \<Longrightarrow> wf_spawn s"
  by (cases v) (auto simp: parse_spawn_def wf_spawn_def unless_null_Inr)

lemma parse_worker_wf: "parse_worker v = Inr (Some w) \<Longrightarrow> wf_worker w"
  by (cases v) (auto simp: parse_worker_def wf_worker_def)

lemma parse_sections_wf: "parse_sections s d = Inr r \<Longrightarrow> wf_row r \<and> ar_server r = s"
  by (auto simp: parse_sections_def wf_row_def pred_option_def elim!: option.set_cases
      split: if_splits dest: parse_owner_wf parse_spawn_wf parse_worker_wf)

lemma parse_authority_Inr:
  "parse_authority_payload data server = Inr r \<longleftrightarrow>
    (\<exists>d. decode_authority data = Inr d \<and> py_eq_int (dict_get d ''v'') AUTHORITY_VERSION
       \<and> \<not> is_bool (dict_get d ''v'') \<and> dict_get d ''type'' = JStr AUTHORITY_TYPE
       \<and> dict_get d ''server'' = JStr server \<and> dict_has d ''spawn'' \<and> dict_has d ''worker''
       \<and> parse_sections server d = Inr r)"
  by (auto simp: parse_authority_payload_def split: if_splits)

lemma parse_authority_wf:
  "parse_authority_payload data server = Inr r \<Longrightarrow> wf_row r \<and> ar_server r = server"
  by (auto simp: parse_authority_Inr dest: parse_sections_wf)

lemma parse_v1_wf: "parse_v1_payload data server = Inr r \<Longrightarrow> wf_row r \<and> ar_server r = server"
  by (auto simp: parse_v1_payload_def split: if_splits dest: parse_sections_wf)

section \<open>Rows read from text carry clean strings\<close>

lemma parse_owner_clean: "parse_owner v = Inr (Some ow) \<Longrightarrow> tidy v \<Longrightarrow> clean_owner ow"
proof (cases v)
  case (JObj d)
  assume "parse_owner v = Inr (Some ow)" "tidy v"
  then show ?thesis
    using tidy_dict_get [of d "''boot_id''"] by (auto simp: JObj parse_owner_def clean_owner_def)
qed (auto simp: parse_owner_def)

lemma parse_spawn_clean: "parse_spawn v = Inr (Some s) \<Longrightarrow> tidy v \<Longrightarrow> clean_spawn s"
proof (cases v)
  case (JObj d)
  assume "parse_spawn v = Inr (Some s)" "tidy v"
  then show ?thesis
    using tidy_dict_get [of d "''boot_id''"] tidy_dict_get [of d "''token''"] tidy_dict_get [of d "''commit''"]
    by (auto simp: JObj parse_spawn_def clean_spawn_def unless_null_Inr)
qed (auto simp: parse_spawn_def)

lemma parse_worker_clean: "parse_worker v = Inr (Some w) \<Longrightarrow> tidy v \<Longrightarrow> clean_worker w"
proof (cases v)
  case (JObj d)
  assume "parse_worker v = Inr (Some w)" "tidy v"
  then show ?thesis
    using tidy_dict_get [of d "''worker_id''"] tidy_dict_get [of d "''token''"] tidy_dict_get [of d "''commit''"]
    by (auto simp: JObj parse_worker_def clean_worker_def)
qed (auto simp: parse_worker_def)

lemma parse_sections_clean:
  assumes "parse_sections s d = Inr r" "tidy (JObj d)" "clean s"
  shows "clean_row r"
  using assms(1,3)
  by (auto simp: parse_sections_def clean_row_def pred_option_def elim!: option.set_cases
      split: if_splits dest!: parse_owner_clean [OF _ tidy_dict_get [OF assms(2)]]
      parse_spawn_clean [OF _ tidy_dict_get [OF assms(2)]] parse_worker_clean [OF _ tidy_dict_get [OF assms(2)]])

lemma decode_authority_obj: "decode_authority (JObj d) = Inr d"
  by (simp add: decode_authority_def)

lemma decode_authority_text:
  "decode_authority (JStr t) = Inr d \<longleftrightarrow>
    list_all encodable t \<and> int (utf8_size t) \<le> AUTHORITY_MAX_BYTES \<and> loads t = Inr (JObj d)"
  by (auto simp: decode_authority_def split: if_splits sum.splits json.splits pyerr.splits)

lemma decode_authority_tidy: "decode_authority (JStr t) = Inr d \<Longrightarrow> tidy (JObj d)"
  using loads_tidy by (auto simp only: decode_authority_text)

lemma parse_authority_clean:
  assumes "parse_authority_payload (JStr t) server = Inr r"
  shows "clean_row r"
proof -
  obtain d where d: "decode_authority (JStr t) = Inr d" "dict_get d ''server'' = JStr server"
    "parse_sections server d = Inr r"
    using assms by (auto simp: parse_authority_Inr)
  have "clean server" using tidy_dict_get [OF decode_authority_tidy [OF d(1)], of "''server''"] d(2) by simp
  with d show ?thesis by (auto intro: parse_sections_clean decode_authority_tidy)
qed

lemma parse_v1_clean:
  assumes "parse_v1_payload (JStr t) server = Inr r"
  shows "clean_row r"
proof -
  obtain d where d: "decode_authority (JStr t) = Inr d" "dict_get d ''server'' = JStr server"
    "parse_sections server d = Inr r"
    using assms by (auto simp: parse_v1_payload_def split: if_splits)
  have "clean server" using tidy_dict_get [OF decode_authority_tidy [OF d(1)], of "''server''"] d(2) by simp
  with d show ?thesis by (auto intro: parse_sections_clean decode_authority_tidy)
qed

section \<open>The row codec\<close>

lemma parse_owner_mapping: "wf_owner ow \<Longrightarrow> parse_owner (owner_mapping ow) = Inr (Some ow)"
  by (simp add: parse_owner_def owner_mapping_def wf_owner_def json_simps)

lemma parse_owner_mapping_Inr [simp]:
  "parse_owner (owner_mapping ow) = Inr p \<longleftrightarrow> wf_owner ow \<and> p = Some ow"
  by (auto simp: parse_owner_def owner_mapping_def wf_owner_def json_simps)

lemma build_authority_payload_Inr:
  "build_authority_payload server epoch generation owner = Inr d \<longleftrightarrow>
    server \<noteq> [] \<and> 0 \<le> epoch \<and> 0 \<le> generation \<and> pred_option wf_owner owner \<and>
    d = [(lit ''v'', JInt AUTHORITY_VERSION), (lit ''type'', JStr AUTHORITY_TYPE),
         (lit ''server'', JStr server), (lit ''epoch'', JInt epoch), (lit ''generation'', JInt generation),
         (lit ''owner'', opt_json owner_mapping owner), (lit ''spawn'', JNull), (lit ''worker'', JNull)]"
  by (cases owner) (auto simp: build_authority_payload_def)

lemma unless_null_opt [simp]:
  "unless_null (check_non_negative_int n) (opt_json JInt v) = Inr y \<longleftrightarrow> y = v \<and> pred_option (\<lambda>i. 0 \<le> i) v"
  "unless_null (require_text n) (opt_json JStr u) = Inr z \<longleftrightarrow> z = u \<and> u \<noteq> Some []"
  by (cases v; auto simp: unless_null_Inr) (cases u; auto simp: unless_null_Inr)

lemma build_spawn_mapping_Inr:
  "build_spawn_mapping s = Inr j \<longleftrightarrow> pred_option wf_spawn s \<and> j = opt_json spawn_mapping s"
  by (cases s) (auto simp: build_spawn_mapping_def wf_spawn_def spawn_mapping_def)

lemma build_worker_mapping_Inr:
  "build_worker_mapping w = Inr j \<longleftrightarrow> pred_option wf_worker w \<and> j = opt_json worker_mapping w"
  by (cases w) (auto simp: build_worker_mapping_def wf_worker_def worker_mapping_def)

lemma canonical_row_text_Inr:
  "canonical_row_text r = Inr t \<longleftrightarrow> ar_server r \<noteq> [] \<and> 0 \<le> ar_epoch r \<and> 0 \<le> ar_generation r
     \<and> pred_option wf_owner (ar_owner r) \<and> pred_option wf_spawn (ar_spawn r)
     \<and> pred_option wf_worker (ar_worker r) \<and> serialize_authority_payload (row_mapping r) = Inr t"
  by (auto simp: canonical_row_text_def build_authority_payload_Inr build_spawn_mapping_Inr
      build_worker_mapping_Inr row_mapping_def)

lemma parse_section_mapping [simp]:
  "pred_option wf_owner ow \<Longrightarrow> parse_owner (opt_json owner_mapping ow) = Inr ow"
  "pred_option wf_spawn s \<Longrightarrow> parse_spawn (opt_json spawn_mapping s) = Inr s"
  "pred_option wf_worker w \<Longrightarrow> parse_worker (opt_json worker_mapping w) = Inr w"
proof -
  show "pred_option wf_owner ow \<Longrightarrow> parse_owner (opt_json owner_mapping ow) = Inr ow"
    by (cases ow) (simp_all add: parse_owner_def [of JNull])
  show "pred_option wf_spawn s \<Longrightarrow> parse_spawn (opt_json spawn_mapping s) = Inr s"
    by (cases s) (auto simp: parse_spawn_def spawn_mapping_def wf_spawn_def json_simps)
  show "pred_option wf_worker w \<Longrightarrow> parse_worker (opt_json worker_mapping w) = Inr w"
    by (cases w) (auto simp: parse_worker_def worker_mapping_def wf_worker_def json_simps)
qed

lemma parse_row_mapping:
  "wf_row r \<Longrightarrow> parse_authority_payload (JObj (row_mapping r)) (ar_server r) = Inr r"
  by (simp add: parse_authority_Inr decode_authority_def)
    (simp add: row_mapping_def json_simps parse_sections_def wf_row_def py_eq_int_def is_bool_def)

lemma row_mapping_plain:
  assumes "dumps (JObj (row_mapping r)) = Inr t" "clean_row r"
  shows "plain (JObj (row_mapping r))"
proof -
  have dg: "digits_ok (JObj (row_mapping r))" using assms(1) by (auto simp: dumps_def split: if_splits)
  have "plain (opt_json owner_mapping (ar_owner r))"
    using dg assms(2) by (cases "ar_owner r")
      (auto simp: row_mapping_def clean_row_def owner_mapping_def clean_owner_def)
  moreover have "plain (opt_json spawn_mapping (ar_spawn r))"
    using dg assms(2)
    by (cases "ar_spawn r"; cases "so_boot_id (the (ar_spawn r))"; cases "so_pid (the (ar_spawn r))";
        cases "so_start_time_ticks (the (ar_spawn r))")
      (auto simp: row_mapping_def clean_row_def spawn_mapping_def clean_spawn_def)
  moreover have "plain (opt_json worker_mapping (ar_worker r))"
    using dg assms(2) by (cases "ar_worker r")
      (auto simp: row_mapping_def clean_row_def worker_mapping_def clean_worker_def)
  ultimately show ?thesis
    using dg assms(2) by (simp add: row_mapping_def clean_row_def AUTHORITY_TYPE_def)
qed

lemma check_sorted [simp]:
  "check_non_negative_int n (sort_json v) = check_non_negative_int n v"
  "check_positive_int n (sort_json v) = check_positive_int n v"
  "require_text n (sort_json v) = require_text n v"
  "require_flag n (sort_json v) = require_flag n v"
  "py_eq_int (sort_json v) i = py_eq_int v i"
  "is_bool (sort_json v) = is_bool v"
  "sort_json v = JStr s \<longleftrightarrow> v = JStr s"
  by (cases v; simp add: check_non_negative_int_def check_positive_int_def require_text_def
      require_flag_def py_eq_int_def is_bool_def)+

lemma unless_null_sorted [simp]:
  "unless_null (check_non_negative_int n) (sort_json v) = unless_null (check_non_negative_int n) v"
  "unless_null (require_text m) (sort_json v) = unless_null (require_text m) v"
  by (simp_all add: unless_null_def cong: if_cong)

lemma parse_owner_sorted: "tidy v \<Longrightarrow> parse_owner (sort_json v) = parse_owner v"
  by (cases v) (simp_all add: parse_owner_def dict_get_sorted)

lemma parse_spawn_sorted: "tidy v \<Longrightarrow> parse_spawn (sort_json v) = parse_spawn v"
  by (cases v) (simp_all add: parse_spawn_def dict_get_sorted)

lemma parse_worker_sorted: "tidy v \<Longrightarrow> parse_worker (sort_json v) = parse_worker v"
  by (cases v) (simp_all add: parse_worker_def dict_get_sorted)

lemma parse_sections_sorted:
  assumes "tidy (JObj d)"
  shows "parse_sections s (sort_key fst (map (\<lambda>(k, v). (k, sort_json v)) d)) = parse_sections s d"
proof -
  have "distinct (map fst d)" using assms by simp
  note get = dict_get_sorted [OF this]
  show ?thesis
    by (simp add: parse_sections_def get parse_owner_sorted [OF tidy_dict_get [OF assms]]
      parse_spawn_sorted [OF tidy_dict_get [OF assms]] parse_worker_sorted [OF tidy_dict_get [OF assms]])
qed

lemma parse_authority_sorted:
  assumes "tidy (JObj d)"
  shows "parse_authority_payload (sort_json (JObj d)) s = parse_authority_payload (JObj d) s"
proof -
  have "distinct (map fst d)" using assms by simp
  note get = dict_get_sorted [OF this] dict_has_sorted [OF this]
  show ?thesis
    by (simp add: parse_authority_payload_def decode_authority_def get parse_sections_sorted [OF assms]
        cong: if_cong)
qed

lemma serialize_Inr:
  "serialize_authority_payload d = Inr t \<longleftrightarrow>
    dumps (JObj d) = Inr t \<and> list_all encodable t \<and> int (utf8_size t) \<le> AUTHORITY_MAX_BYTES"
  by (cases "dumps (JObj d)") (auto simp: serialize_authority_payload_def)

lemma parse_serialized:
  assumes "serialize_authority_payload d = Inr t" "plain (JObj d)"
  shows "parse_authority_payload (JStr t) s = parse_authority_payload (JObj d) s"
proof -
  obtain d' where d': "sort_json (JObj d) = JObj d'" by simp
  have t: "t = json_text (JObj d')" "list_all encodable t" "int (utf8_size t) \<le> AUTHORITY_MAX_BYTES"
    using assms plain_dumps d' by (auto simp: serialize_Inr)
  have "loads t = Inr (JObj d')" using loads_json_text [OF plain_sort_json [OF assms(2)]] t d' by simp
  then have "decode_authority (JStr t) = Inr d'" using t by (simp add: decode_authority_text)
  then have "parse_authority_payload (JStr t) s = parse_authority_payload (sort_json (JObj d)) s"
    by (simp only: d' parse_authority_payload_def decode_authority_obj)
  then show ?thesis using parse_authority_sorted [OF plain_tidy [OF assms(2)]] by simp
qed

lemma canonical_wf:
  "canonical_row_text r = Inr t \<Longrightarrow> ar_spawn r = None \<or> ar_worker r = None \<Longrightarrow> wf_row r"
  by (simp add: canonical_row_text_Inr wf_row_def)

lemma canonical_parse:
  assumes "canonical_row_text r = Inr t" "clean_row r" "ar_spawn r = None \<or> ar_worker r = None"
  shows "parse_authority_payload (JStr t) (ar_server r) = Inr r"
proof -
  have s: "serialize_authority_payload (row_mapping r) = Inr t"
    using assms(1) by (simp add: canonical_row_text_Inr)
  then have "plain (JObj (row_mapping r))"
    using assms(2) by (intro row_mapping_plain) (simp_all only: serialize_Inr)
  with s show ?thesis
    using parse_serialized parse_row_mapping [OF canonical_wf [OF assms(1,3)]] by simp
qed

interpretation rows: text_codec canonical_row_text "\<lambda>t. parse_authority_payload (JStr t) server"
    "row_ok server" for server
  by unfold_locales
    (auto simp: row_ok_def wf_row_def intro: canonical_parse dest: parse_authority_wf parse_authority_clean)

section \<open>Refusals\<close>

lemma authority_error_AuthorityError [simp]: "authority_error (AuthorityError m)"
  by (simp add: authority_error_def)

lemma check_error:
  "check_non_negative_int n v = Inl e \<Longrightarrow> authority_error e"
  "check_positive_int n v = Inl e \<Longrightarrow> authority_error e"
  "require_text n v = Inl e \<Longrightarrow> authority_error e"
  "require_flag n v = Inl e \<Longrightarrow> authority_error e"
  "unless_null (check_non_negative_int n) v = Inl e \<Longrightarrow> authority_error e"
  "unless_null (require_text n) v = Inl e \<Longrightarrow> authority_error e"
  "require_server_identity t = Inl e \<Longrightarrow> authority_error e"
  by (auto simp: check_non_negative_int_def check_positive_int_def require_text_def require_flag_def
      unless_null_def require_server_identity_def ebind_Inl_iff split: json.splits if_splits)

lemma parse_section_error:
  "parse_owner v = Inl e \<Longrightarrow> authority_error e"
  "parse_spawn v = Inl e \<Longrightarrow> authority_error e"
  "parse_worker v = Inl e \<Longrightarrow> authority_error e"
  by (cases v; auto simp: parse_owner_def parse_spawn_def parse_worker_def ebind_Inl_iff
      dest!: check_error)+

lemma parse_sections_error: "parse_sections s d = Inl e \<Longrightarrow> authority_error e"
  by (auto simp: parse_sections_def ebind_Inl_iff split: if_splits
      dest!: check_error parse_section_error)

lemma decode_authority_error:
  assumes "decode_authority (JStr t) = Inl e" "list_all encodable t"
  shows "authority_error e"
proof -
  have "length t \<le> max_str_digits" if "int (utf8_size t) \<le> AUTHORITY_MAX_BYTES"
    using that length_le_utf8_size [of t] by (simp add: AUTHORITY_MAX_BYTES_def max_str_digits_def)
  then have "loads t = Inl e' \<Longrightarrow> int (utf8_size t) \<le> AUTHORITY_MAX_BYTES \<Longrightarrow> e' = JSONDecodeError" for e'
    using loads_error by blast
  then show ?thesis
    using assms
    by (auto simp: decode_authority_def utf8_byte_length_Inl ebind_Inl_iff
        split: if_splits sum.splits json.splits pyerr.splits)
qed

lemma parse_authority_error:
  assumes "parse_authority_payload (JStr t) s = Inl e" "list_all encodable t"
  shows "authority_error e"
  using assms(1) decode_authority_error [OF _ assms(2)] parse_sections_error
  by (auto simp: parse_authority_payload_def ebind_Inl_iff split: if_splits)

lemma parse_v1_error:
  assumes "parse_v1_payload (JStr t) s = Inl e" "list_all encodable t"
  shows "authority_error e"
  using assms(1) decode_authority_error [OF _ assms(2)] parse_sections_error
  by (auto simp: parse_v1_payload_def ebind_Inl_iff split: if_splits)

lemma parse_authority_encodable: "parse_authority_payload (JStr t) s = Inr r \<Longrightarrow> list_all encodable t"
  by (auto simp: parse_authority_Inr decode_authority_text)

lemma canonical_encodable: "canonical_row_text r = Inr t \<Longrightarrow> list_all encodable t"
  by (auto simp: canonical_row_text_Inr serialize_Inr)

lemma canonical_size: "canonical_row_text r = Inr t \<Longrightarrow> int (utf8_size t) \<le> AUTHORITY_MAX_BYTES"
  by (auto simp: canonical_row_text_Inr serialize_Inr)

text \<open>A row is never both a v2 and a v1 row.\<close>

lemma py_eq_int_unique: "py_eq_int v a \<Longrightarrow> py_eq_int v b \<Longrightarrow> a = b"
  by (cases v; auto simp: py_eq_int_def float_eq_int_def split: pyfloat.splits if_splits)

section \<open>Ordinary rows fit\<close>

lemma fits_opt: "pred_option (\<lambda>x. fits n (f x)) v \<Longrightarrow> 4 \<le> n \<Longrightarrow> fits n (opt_json f v)"
  by (cases v) (simp_all add: fits_def lit_def)

lemma fits_owner: "ordinary_owner ow \<Longrightarrow> fits 490 (owner_mapping ow)"
  unfolding owner_mapping_def
  by (rule fits_obj [where ns = "[19, 19, 402]"])
    (auto simp: ordinary_owner_def printable_lit printable_def lit_def intro!: fits_scalar(1) fits_scalar(2) [of _ 400, simplified])


lemmas fits_parts = fits_scalar(1,3) fits_scalar(2) [of _ 400, simplified] fits_opt

lemma fits_spawn: "ordinary_spawn s \<Longrightarrow> fits 1500 (spawn_mapping s)"
  unfolding spawn_mapping_def
  by (rule fits_obj [where ns = "[402, 402, 19, 19, 402, 19, 19, 5]"])
    (auto simp: ordinary_spawn_def printable_def lit_def option.pred_set intro!: fits_parts)

lemma fits_worker: "ordinary_worker w \<Longrightarrow> fits 1400 (worker_mapping w)"
  unfolding worker_mapping_def
  by (rule fits_obj [where ns = "[402, 402, 19, 19, 19, 19, 402]"])
    (auto simp: ordinary_worker_def printable_def lit_def intro!: fits_parts)

lemma fits_type: "fits 21 (JStr AUTHORITY_TYPE)"
  using fits_scalar(2) [of AUTHORITY_TYPE 19] by (simp add: AUTHORITY_TYPE_def printable_def lit_def)

lemma fits_row: "ordinary_row r \<Longrightarrow> fits 4090 (JObj (row_mapping r))"
  unfolding row_mapping_def
  by (rule fits_obj [where ns = "[19, 21, 402, 19, 19, 490, 1500, 1400]"])
    (auto simp: ordinary_row_def printable_def lit_def fits_type AUTHORITY_VERSION_def small_def
      option.pred_set intro!: fits_parts fits_owner fits_spawn fits_worker)

lemma ordinary_prints: "ordinary_row r \<Longrightarrow> \<exists>t. canonical_row_text r = Inr t"
proof -
  assume o: "ordinary_row r"
  let ?t = "json_text (sort_json (JObj (row_mapping r)))"
  have p: "plain (JObj (row_mapping r))" "length (json_text (JObj (row_mapping r))) \<le> 4090"
    using fits_row [OF o] by (auto simp only: fits_def)
  have "dumps (JObj (row_mapping r)) = Inr ?t" by (rule plain_dumps [OF p(1)])
  moreover have "list_all encodable ?t" "utf8_size ?t = length ?t"
    using ascii_utf8 [OF ascii_json [OF plain_sort_json [OF p(1)]]] by blast+
  moreover have "length ?t \<le> 4090" using p(2) by (simp only: length_json_text_sort)
  ultimately have "serialize_authority_payload (row_mapping r) = Inr ?t"
    by (simp only: serialize_Inr AUTHORITY_MAX_BYTES_def) simp
  then show ?thesis using o by (auto simp: canonical_row_text_Inr ordinary_row_def wf_row_def)
qed

lemmas sample_defs = sample_server_def sample_owner_def sample_spawn_def sample_worker_def neutral_row_def
  owned_row_def obliged_row_def published_row_def

lemma sample_ordinary:
  "ordinary_row (neutral_row sample_server)" "ordinary_row owned_row" "ordinary_row obliged_row"
  "ordinary_row published_row"
  by (simp_all add: sample_defs ordinary_row_def wf_row_def ordinary_owner_def ordinary_spawn_def
      ordinary_worker_def wf_owner_def wf_spawn_def wf_worker_def small_def printable_def lit_def)

lemma sample_clean:
  "clean_owner sample_owner" "clean_spawn sample_spawn" "clean_worker sample_worker"
  "clean_row (neutral_row sample_server)" "clean_row owned_row" "clean_row obliged_row"
  "clean_row published_row"
  by (simp_all add: sample_defs clean_row_def clean_owner_def clean_spawn_def clean_worker_def)

lemma sample_printed:
  assumes "ordinary_row r" "clean_row r"
  shows "\<exists>t. canonical_row_text r = Inr t \<and> parse_authority_payload (JStr t) (ar_server r) = Inr r"
  using ordinary_prints [OF assms(1)] canonical_parse [OF _ assms(2)] assms(1)
  by (auto simp: ordinary_row_def wf_row_def)

section \<open>Properties of the row codec\<close>

text \<open>C30. The stored text determines the row: the canonical text of any row that serializes parses
  back to exactly that row, every field of every section included.\<close>

theorem authority_row_round_trip:
  assumes "canonical_row_text r = Inr t" "clean_row r" "ar_spawn r = None \<or> ar_worker r = None"
  shows "parse_authority_payload (JStr t) (ar_server r) = Inr r"
  by (rule canonical_parse [OF assms])

theorem authority_row_round_trip_witness:
  "\<exists>t. canonical_row_text obliged_row = Inr t \<and> parse_authority_payload (JStr t) sample_server = Inr obliged_row"
proof -
  obtain t where t: "canonical_row_text obliged_row = Inr t" using ordinary_prints [OF sample_ordinary(3)] by blast
  have "clean_row obliged_row" "ar_spawn obliged_row = None \<or> ar_worker obliged_row = None"
    "ar_server obliged_row = sample_server"
    using sample_clean sample_ordinary(3) by (simp_all add: ordinary_row_def wf_row_def sample_defs)
  with authority_row_round_trip [OF t] t show ?thesis by simp
qed

text \<open>Ordinary rows are never refused for their size: a well-formed row whose strings are printable
  and at most 400 characters long and whose numbers have at most 18 digits serializes within the
  4096-byte bound.\<close>

theorem ordinary_rows_fit:
  assumes "ordinary_row r"
  shows "\<exists>t. canonical_row_text r = Inr t \<and> int (utf8_size t) \<le> AUTHORITY_MAX_BYTES"
  using ordinary_prints [OF assms] canonical_size by blast

theorem ordinary_rows_fit_witness:
  "\<exists>t. canonical_row_text published_row = Inr t \<and> int (utf8_size t) \<le> AUTHORITY_MAX_BYTES"
  by (rule ordinary_rows_fit [OF sample_ordinary(4)])



text \<open>Every other stored text is refused with \<open>AuthorityError\<close>, the exception on which callers
  hold: text the database can store, of any size and shape, raises nothing else.\<close>

theorem untrusted_authority_is_refused:
  assumes "list_all encodable t"
  shows "(\<exists>r. parse_authority_payload (JStr t) server = Inr r)
    \<or> (\<exists>m. parse_authority_payload (JStr t) server = Inl (AuthorityError m))"
proof (cases "parse_authority_payload (JStr t) server")
  case (Inl e)
  then show ?thesis using parse_authority_error [OF Inl assms] by (auto simp: authority_error_def)
qed simp

theorem untrusted_authority_is_refused_witness:
  "(\<exists>r. parse_authority_payload (JStr (lit ''{}'')) sample_server = Inr r)
    \<or> (\<exists>m. parse_authority_payload (JStr (lit ''{}'')) sample_server = Inl (AuthorityError m))"
  by (rule untrusted_authority_is_refused) simp

end
