(* ===== verification/Supervise.thy ===== *)
theory Supervise
  imports PyFloat Authority
begin

text \<open>
  \<open>src/lubko/supervise.py\<close>, the records the supervisor daemon and the command-line tools exchange
  through JSON files: the desired intent, the daemon's own durable state with its worker child, its
  unresolved child and its pre-spawn obligation, the status snapshot and the durable diagnostic.
  Every \<open>to_dict\<close> and \<open>from_dict\<close> and every coercion helper is one definition; absent keys, null,
  booleans, out-of-range numbers and non-finite floats are told apart as the source tells them apart.
\<close>

section \<open>Constants and records\<close>

definition SCHEMA_VERSION :: int where "SCHEMA_VERSION = 1"
definition MODE_RUN :: pystr where "MODE_RUN = lit ''run''"
definition MODE_IDLE :: pystr where "MODE_IDLE = lit ''idle''"
definition INTENT_RUN :: pystr where "INTENT_RUN = lit ''run''"
definition INTENT_RETIRING :: pystr where "INTENT_RETIRING = lit ''retiring''"

record WorkerChild =
  wc_pid :: int
  wc_pgid :: int
  wc_sid :: int
  wc_start_time_ticks :: int
  wc_token :: pystr
  wc_worker_id :: pystr
  wc_spawned_at :: pyfloat

record SupervisorDesired =
  sd_schema_version :: int
  sd_generation :: int
  sd_commit :: pystr
  sd_repo :: pystr
  sd_uv_path :: pystr
  sd_worker_id :: "pystr option"
  sd_restart :: bool
  sd_requested_at :: pyfloat
  sd_migration :: bool

record UnresolvedChild =
  uc_pid :: int
  uc_start_time_ticks :: "int option"
  uc_token :: pystr
  uc_spawned_at :: pyfloat

record SpawningObligation =
  sp_token :: pystr
  sp_commit :: pystr
  sp_creator_pid :: int
  sp_creator_start_time_ticks :: int
  sp_pid :: "int option"
  sp_start_time_ticks :: "int option"
  sp_created_at :: pyfloat
  sp_boot_id :: "pystr option"
  sp_parent_death_signal :: bool

record LastExit =
  le_returncode :: "int option"
  le_at :: pyfloat

record SupervisorState =
  ss_schema_version :: int
  ss_applied_generation :: int
  ss_mode :: pystr
  ss_commit :: "pystr option"
  ss_child :: "WorkerChild option"
  ss_unresolved_child :: "UnresolvedChild option"
  ss_ownership_hold_malformed :: bool
  ss_unresolved_hold_malformed :: bool
  ss_spawning :: "SpawningObligation option"
  ss_spawning_hold_malformed :: bool
  ss_intent :: pystr
  ss_restart_count :: int
  ss_next_attempt_at :: "pyfloat option"
  ss_last_exit :: "LastExit option"
  ss_last_spawn_at :: "pyfloat option"
  ss_ready :: bool
  ss_next_readiness_at :: "pyfloat option"
  ss_boot_id :: "pystr option"
  ss_supervisor_runtime_commit :: "pystr option"

section \<open>Coercion of decoded values\<close>

text \<open>\<open>data.get(key, default)\<close>: only an absent key gives the default.\<close>

definition dict_default :: "dict \<Rightarrow> string \<Rightarrow> json \<Rightarrow> json" where
  "dict_default d k v = (if dict_has d k then dict_get d k else v)"

definition optional_string :: "json \<Rightarrow> pystr option" where
  "optional_string value = (case value of JStr s \<Rightarrow> Some s | _ \<Rightarrow> None)"

text \<open>The pattern \<open>^[a-zA-Z0-9_-]+$\<close>: the dollar also matches before one final line feed.\<close>

definition safe_char :: "nat \<Rightarrow> bool" where
  "safe_char c \<longleftrightarrow> 97 \<le> c \<and> c \<le> 122 \<or> 65 \<le> c \<and> c \<le> 90 \<or> 48 \<le> c \<and> c \<le> 57 \<or> c = 95 \<or> c = 45"

definition SAFE_FILENAME_RE :: "pystr \<Rightarrow> bool" where
  "SAFE_FILENAME_RE s \<longleftrightarrow>
    (let body = (if s \<noteq> [] \<and> last s = 10 then butlast s else s) in body \<noteq> [] \<and> list_all safe_char body)"

definition validate_incarnation_token :: "pystr \<Rightarrow> unit res" where
  "validate_incarnation_token token =
    (if token = [] then Raise (ValueError ''incarnation token must not be empty'')
     else if \<not> SAFE_FILENAME_RE token
       then Raise (ValueError ''incarnation token contains unsafe characters: '')
     else Ok ())"

definition optional_incarnation_token :: "json \<Rightarrow> pystr option" where
  "optional_incarnation_token value = (case optional_string value of
      None \<Rightarrow> None
    | Some token \<Rightarrow> if is_ok (validate_incarnation_token token) then Some token else None)"

definition strict_int :: "json \<Rightarrow> int option" where
  "strict_int value = (case value of JInt i \<Rightarrow> Some i | _ \<Rightarrow> None)"

definition strict_non_negative_int :: "json \<Rightarrow> int option" where
  "strict_non_negative_int value = (case strict_int value of
      None \<Rightarrow> None | Some i \<Rightarrow> if i < 0 then None else Some i)"

definition strict_finite_float :: "json \<Rightarrow> pyfloat option" where
  "strict_finite_float value = (case value of
      JInt i \<Rightarrow> (case float_of_int i of Inl _ \<Rightarrow> None | Inr x \<Rightarrow> Some x)
    | JFloat x \<Rightarrow> if is_finite x then Some x else None
    | _ \<Rightarrow> None)"

definition strict_non_negative_finite_float :: "json \<Rightarrow> pyfloat option" where
  "strict_non_negative_finite_float value = (case strict_finite_float value of
      None \<Rightarrow> None | Some x \<Rightarrow> if float_less x float_zero then None else Some x)"

definition optional_bool :: "json \<Rightarrow> bool option" where
  "optional_bool value = (case value of JBool b \<Rightarrow> Some b | _ \<Rightarrow> None)"

text \<open>The source's \<open>None if raw is None else check(raw)\<close> followed by the test that a present value passed.\<close>

definition nullable :: "(json \<Rightarrow> 'a option) \<Rightarrow> json \<Rightarrow> 'a option option" where
  "nullable check raw = (if raw = JNull then Some None else map_option Some (check raw))"

text \<open>\<open>check(data[key]) if key in data else default\<close>.\<close>

definition present_or :: "(json \<Rightarrow> 'a option) \<Rightarrow> 'a \<Rightarrow> dict \<Rightarrow> string \<Rightarrow> 'a option" where
  "present_or check dflt d k = (if dict_has d k then check (dict_get d k) else Some dflt)"

text \<open>Raising when a checked value is missing.\<close>

definition demand :: "pyerr \<Rightarrow> 'a option \<Rightarrow> 'a res" where
  "demand e v = (case v of None \<Rightarrow> Raise e | Some x \<Rightarrow> Ok x)"

section \<open>The desired intent\<close>

definition desired_to_dict :: "SupervisorDesired \<Rightarrow> dict" where
  "desired_to_dict d =
    [(lit ''schema_version'', JInt (sd_schema_version d)),
     (lit ''generation'', JInt (sd_generation d)),
     (lit ''commit'', JStr (sd_commit d)),
     (lit ''repo'', JStr (sd_repo d)),
     (lit ''uv_path'', JStr (sd_uv_path d)),
     (lit ''worker_id'', opt_json JStr (sd_worker_id d)),
     (lit ''restart'', JBool (sd_restart d)),
     (lit ''requested_at'', JFloat (sd_requested_at d)),
     (lit ''migration'', JBool (sd_migration d))]"

definition desired_malformed :: string where
  "desired_malformed = ''supervisor desired state is malformed''"

definition desired_from_dict :: "dict \<Rightarrow> SupervisorDesired res" where
  "desired_from_dict d =
    (case (strict_int (dict_get d ''schema_version''),
           strict_non_negative_int (dict_get d ''generation''),
           optional_string (dict_get d ''commit''),
           present_or optional_string [] d ''repo'',
           present_or optional_string [] d ''uv_path'') of
       (Some schema_version, Some generation, Some commit, Some repo, Some uv_path) \<Rightarrow>
         if schema_version \<noteq> SCHEMA_VERSION then Raise (ValueError desired_malformed)
         else
           ebind (demand (ValueError desired_malformed)
                    (nullable optional_string (dict_get d ''worker_id''))) (\<lambda>worker_id.
           ebind (demand (ValueError desired_malformed)
                    (present_or strict_non_negative_finite_float float_zero d ''requested_at''))
             (\<lambda>requested_at.
           ebind (demand (TypeError desired_malformed)
                    (optional_bool (dict_default d ''migration'' (JBool False)))) (\<lambda>migration.
           ebind (demand (TypeError desired_malformed)
                    (optional_bool (dict_default d ''restart'' (JBool False)))) (\<lambda>restart.
             Ok \<lparr>sd_schema_version = schema_version, sd_generation = generation, sd_commit = commit,
               sd_repo = repo, sd_uv_path = uv_path, sd_worker_id = worker_id, sd_restart = restart,
               sd_requested_at = requested_at, sd_migration = migration\<rparr>))))
     | _ \<Rightarrow> Raise (ValueError desired_malformed))"

section \<open>Children and obligations\<close>

definition child_to_dict :: "WorkerChild \<Rightarrow> dict" where
  "child_to_dict c =
    [(lit ''pid'', JInt (wc_pid c)),
     (lit ''pgid'', JInt (wc_pgid c)),
     (lit ''sid'', JInt (wc_sid c)),
     (lit ''start_time_ticks'', JInt (wc_start_time_ticks c)),
     (lit ''token'', JStr (wc_token c)),
     (lit ''worker_id'', JStr (wc_worker_id c)),
     (lit ''spawned_at'', JFloat (wc_spawned_at c))]"

definition child_malformed :: pyerr where
  "child_malformed = ValueError ''supervisor worker child identity is malformed''"

definition child_from_dict :: "dict \<Rightarrow> WorkerChild res" where
  "child_from_dict d =
    (case (strict_non_negative_int (dict_get d ''pid''),
           strict_non_negative_int (dict_get d ''pgid''),
           strict_non_negative_int (dict_get d ''sid''),
           strict_non_negative_int (dict_get d ''start_time_ticks''),
           optional_incarnation_token (dict_get d ''token''),
           optional_string (dict_get d ''worker_id'')) of
       (Some pid, Some pgid, Some sid, Some ticks, Some token, Some worker_id) \<Rightarrow>
         ebind (demand child_malformed
                  (present_or strict_non_negative_finite_float float_zero d ''spawned_at''))
           (\<lambda>spawned_at.
             Ok \<lparr>wc_pid = pid, wc_pgid = pgid, wc_sid = sid, wc_start_time_ticks = ticks,
               wc_token = token, wc_worker_id = worker_id, wc_spawned_at = spawned_at\<rparr>)
     | _ \<Rightarrow> Raise child_malformed)"

definition unresolved_to_dict :: "UnresolvedChild \<Rightarrow> dict" where
  "unresolved_to_dict u =
    [(lit ''pid'', JInt (uc_pid u)),
     (lit ''start_time_ticks'', opt_json JInt (uc_start_time_ticks u)),
     (lit ''token'', JStr (uc_token u)),
     (lit ''spawned_at'', JFloat (uc_spawned_at u))]"

definition unresolved_malformed :: pyerr where
  "unresolved_malformed = ValueError ''unresolved child hold is malformed''"

definition unresolved_from_dict :: "dict \<Rightarrow> UnresolvedChild res" where
  "unresolved_from_dict d =
    (case (strict_non_negative_int (dict_get d ''pid''),
           optional_incarnation_token (dict_get d ''token''),
           nullable strict_non_negative_int (dict_get d ''start_time_ticks'')) of
       (Some pid, Some token, Some ticks) \<Rightarrow>
         ebind (demand unresolved_malformed
                  (present_or strict_non_negative_finite_float float_zero d ''spawned_at''))
           (\<lambda>spawned_at.
             Ok \<lparr>uc_pid = pid, uc_start_time_ticks = ticks, uc_token = token,
               uc_spawned_at = spawned_at\<rparr>)
     | _ \<Rightarrow> Raise unresolved_malformed)"

definition spawning_to_dict :: "SpawningObligation \<Rightarrow> dict" where
  "spawning_to_dict s =
    [(lit ''token'', JStr (sp_token s)),
     (lit ''commit'', JStr (sp_commit s)),
     (lit ''creator_pid'', JInt (sp_creator_pid s)),
     (lit ''creator_start_time_ticks'', JInt (sp_creator_start_time_ticks s)),
     (lit ''pid'', opt_json JInt (sp_pid s)),
     (lit ''start_time_ticks'', opt_json JInt (sp_start_time_ticks s)),
     (lit ''created_at'', JFloat (sp_created_at s)),
     (lit ''boot_id'', opt_json JStr (sp_boot_id s)),
     (lit ''parent_death_signal'', JBool (sp_parent_death_signal s))]"

definition spawning_malformed :: pyerr where
  "spawning_malformed = ValueError ''spawning obligation is malformed''"

definition spawning_from_dict :: "dict \<Rightarrow> SpawningObligation res" where
  "spawning_from_dict d =
    (case (optional_incarnation_token (dict_get d ''token''),
           strict_non_negative_int (dict_get d ''creator_pid''),
           strict_non_negative_int (dict_get d ''creator_start_time_ticks'')) of
       (Some token, Some creator_pid, Some creator_ticks) \<Rightarrow>
         ebind (demand spawning_malformed (present_or optional_string [] d ''commit'')) (\<lambda>commit.
         ebind (demand spawning_malformed (nullable strict_non_negative_int (dict_get d ''pid'')))
           (\<lambda>pid.
         ebind (demand spawning_malformed
                  (nullable strict_non_negative_int (dict_get d ''start_time_ticks''))) (\<lambda>ticks.
         ebind (demand spawning_malformed
                  (present_or strict_non_negative_finite_float float_zero d ''created_at''))
           (\<lambda>created_at.
         ebind (demand spawning_malformed (nullable optional_string (dict_get d ''boot_id'')))
           (\<lambda>boot_id.
         ebind (demand
                  (ValueError ''spawning obligation parent-death-signal flag is malformed'')
                  (optional_bool (dict_default d ''parent_death_signal'' (JBool True)))) (\<lambda>flag.
           Ok \<lparr>sp_token = token, sp_commit = commit, sp_creator_pid = creator_pid,
             sp_creator_start_time_ticks = creator_ticks, sp_pid = pid, sp_start_time_ticks = ticks,
             sp_created_at = created_at, sp_boot_id = boot_id, sp_parent_death_signal = flag\<rparr>))))))
     | _ \<Rightarrow> Raise spawning_malformed)"

section \<open>The daemon's durable state\<close>

definition last_exit_to_json :: "LastExit option \<Rightarrow> json" where
  "last_exit_to_json e = opt_json (\<lambda>x.
     JObj [(lit ''returncode'', opt_json JInt (le_returncode x)), (lit ''at'', JFloat (le_at x))]) e"

definition opt_entry :: "string \<Rightarrow> pystr option \<Rightarrow> dict" where
  "opt_entry k v = (case v of None \<Rightarrow> [] | Some s \<Rightarrow> [(lit k, JStr s)])"

definition state_to_dict :: "SupervisorState \<Rightarrow> dict" where
  "state_to_dict s =
    [(lit ''schema_version'', JInt (ss_schema_version s)),
     (lit ''applied_generation'', JInt (ss_applied_generation s)),
     (lit ''mode'', JStr (ss_mode s)),
     (lit ''commit'', opt_json JStr (ss_commit s)),
     (lit ''child'', opt_json (\<lambda>c. JObj (child_to_dict c)) (ss_child s)),
     (lit ''unresolved_child'', opt_json (\<lambda>u. JObj (unresolved_to_dict u)) (ss_unresolved_child s)),
     (lit ''ownership_hold_malformed'', JBool (ss_ownership_hold_malformed s)),
     (lit ''unresolved_hold_malformed'', JBool (ss_unresolved_hold_malformed s)),
     (lit ''spawning'', opt_json (\<lambda>p. JObj (spawning_to_dict p)) (ss_spawning s)),
     (lit ''spawning_hold_malformed'', JBool (ss_spawning_hold_malformed s)),
     (lit ''intent'', JStr (ss_intent s)),
     (lit ''restart_count'', JInt (ss_restart_count s)),
     (lit ''next_attempt_at'', opt_json JFloat (ss_next_attempt_at s)),
     (lit ''last_exit'', last_exit_to_json (ss_last_exit s)),
     (lit ''last_spawn_at'', opt_json JFloat (ss_last_spawn_at s)),
     (lit ''ready'', JBool (ss_ready s)),
     (lit ''next_readiness_at'', opt_json JFloat (ss_next_readiness_at s))]
    @ opt_entry ''boot_id'' (ss_boot_id s)
    @ opt_entry ''supervisor_runtime_commit'' (ss_supervisor_runtime_commit s)"

definition validate_state_schema :: "dict \<Rightarrow> unit res" where
  "validate_state_schema d =
    (if \<not> dict_has d ''schema_version'' then Ok ()
     else if strict_int (dict_get d ''schema_version'') \<noteq> Some SCHEMA_VERSION
       then Raise (ValueError ''supervisor state schema_version is malformed'')
     else Ok ())"

definition state_mode :: "dict \<Rightarrow> pystr" where
  "state_mode d = (case dict_default d ''mode'' (JStr MODE_IDLE) of
      JStr s \<Rightarrow> if s = MODE_IDLE \<or> s = MODE_RUN then s else MODE_IDLE
    | _ \<Rightarrow> MODE_IDLE)"

definition state_intent :: "dict \<Rightarrow> pystr" where
  "state_intent d = (case dict_default d ''intent'' (JStr INTENT_RUN) of
      JStr s \<Rightarrow> if s = INTENT_RUN \<or> s = INTENT_RETIRING then s else INTENT_RUN
    | _ \<Rightarrow> INTENT_RUN)"

definition state_commit :: "dict \<Rightarrow> pystr option" where
  "state_commit d = optional_string (dict_get d ''commit'')"

definition state_strings_malformed :: "dict \<Rightarrow> bool" where
  "state_strings_malformed d \<longleftrightarrow>
     dict_default d ''mode'' (JStr MODE_IDLE) \<notin> {JStr MODE_IDLE, JStr MODE_RUN}
   \<or> dict_default d ''intent'' (JStr INTENT_RUN) \<notin> {JStr INTENT_RUN, JStr INTENT_RETIRING}
   \<or> dict_get d ''commit'' \<noteq> JNull \<and> optional_string (dict_get d ''commit'') = None"

definition strict_safety_hold :: "dict \<Rightarrow> string \<Rightarrow> bool" where
  "strict_safety_hold d k =
    (if \<not> dict_has d k then False
     else (case optional_bool (dict_get d k) of None \<Rightarrow> True | Some b \<Rightarrow> b))"

definition parse_present_strict :: "dict \<Rightarrow> string \<Rightarrow> (json \<Rightarrow> int option) \<Rightarrow> int \<times> bool" where
  "parse_present_strict d k parser =
    (if \<not> dict_has d k then (0, False)
     else (case parser (dict_get d k) of None \<Rightarrow> (0, True) | Some v \<Rightarrow> (v, False)))"

definition parse_present_boot_identity :: "dict \<Rightarrow> string \<Rightarrow> pystr option \<times> bool" where
  "parse_present_boot_identity d k =
    (if \<not> dict_has d k then (None, False)
     else (case dict_get d k of
         JStr s \<Rightarrow> if s \<noteq> [] then (Some s, False) else (None, True)
       | _ \<Rightarrow> (None, True)))"

definition parse_present_nullable_float :: "dict \<Rightarrow> string \<Rightarrow> pyfloat option \<times> bool" where
  "parse_present_nullable_float d k =
    (if dict_get d k = JNull then (None, False)
     else (strict_finite_float (dict_get d k), strict_finite_float (dict_get d k) = None))"

definition parse_present_nullable_monotonic_float :: "dict \<Rightarrow> string \<Rightarrow> pyfloat option \<times> bool" where
  "parse_present_nullable_monotonic_float d k =
    (case parse_present_nullable_float d k of
       (None, malformed) \<Rightarrow> (None, malformed)
     | (Some x, malformed) \<Rightarrow>
         if malformed then (Some x, malformed)
         else if float_le float_zero x then (Some x, False) else (None, True))"

definition parse_optional :: "(dict \<Rightarrow> 'a res) \<Rightarrow> json \<Rightarrow> 'a option \<times> bool" where
  "parse_optional parser raw = (case raw of
      JNull \<Rightarrow> (None, False)
    | JObj o_d \<Rightarrow> (case parser o_d of Inl _ \<Rightarrow> (None, True) | Inr x \<Rightarrow> (Some x, False))
    | _ \<Rightarrow> (None, True))"

definition parse_optional_child :: "dict \<Rightarrow> WorkerChild option \<times> bool" where
  "parse_optional_child d = parse_optional child_from_dict (dict_get d ''child'')"

definition parse_optional_unresolved_child :: "dict \<Rightarrow> UnresolvedChild option \<times> bool" where
  "parse_optional_unresolved_child d =
    parse_optional unresolved_from_dict (dict_get d ''unresolved_child'')"

definition parse_optional_spawning :: "dict \<Rightarrow> SpawningObligation option \<times> bool" where
  "parse_optional_spawning d = parse_optional spawning_from_dict (dict_get d ''spawning'')"

definition parse_last_exit :: "dict \<Rightarrow> LastExit option" where
  "parse_last_exit d = (case dict_get d ''last_exit'' of
      JObj e \<Rightarrow> (case nullable strict_int (dict_get e ''returncode'') of
          None \<Rightarrow> None
        | Some returncode \<Rightarrow>
            if \<not> dict_has e ''at'' then None
            else (case strict_finite_float (dict_get e ''at'') of
                None \<Rightarrow> None
              | Some t \<Rightarrow> if float_less t float_zero then None
                  else Some \<lparr>le_returncode = returncode, le_at = t\<rparr>))
    | _ \<Rightarrow> None)"

definition state_from_dict :: "dict \<Rightarrow> SupervisorState res" where
  "state_from_dict d =
    ebind (validate_state_schema d) (\<lambda>_.
    let (child, child_bad) = parse_optional_child d;
        (unresolved, unresolved_bad) = parse_optional_unresolved_child d;
        (spawning, spawning_bad) = parse_optional_spawning d;
        (generation, generation_bad) = parse_present_strict d ''applied_generation'' strict_non_negative_int;
        (restart_count, restart_bad) = parse_present_strict d ''restart_count'' strict_non_negative_int;
        (next_attempt_at, deadline_bad) = parse_present_nullable_float d ''next_attempt_at'';
        (last_spawn_at, spawn_at_bad) = parse_present_nullable_monotonic_float d ''last_spawn_at'';
        (next_readiness_at, readiness_bad) = parse_present_nullable_monotonic_float d ''next_readiness_at'';
        (boot_id, boot_bad) = parse_present_boot_identity d ''boot_id''
    in Ok \<lparr>ss_schema_version = SCHEMA_VERSION,
         ss_applied_generation = generation,
         ss_mode = state_mode d,
         ss_commit = state_commit d,
         ss_child = child,
         ss_unresolved_child = unresolved,
         ss_ownership_hold_malformed =
           child_bad \<or> generation_bad \<or> restart_bad \<or> deadline_bad \<or> spawn_at_bad \<or> readiness_bad
           \<or> boot_bad \<or> state_strings_malformed d \<or> strict_safety_hold d ''ownership_hold_malformed'',
         ss_unresolved_hold_malformed =
           unresolved_bad \<or> strict_safety_hold d ''unresolved_hold_malformed'',
         ss_spawning = spawning,
         ss_spawning_hold_malformed =
           spawning_bad \<or> strict_safety_hold d ''spawning_hold_malformed'',
         ss_intent = state_intent d,
         ss_restart_count = restart_count,
         ss_next_attempt_at = next_attempt_at,
         ss_last_exit = parse_last_exit d,
         ss_last_spawn_at = last_spawn_at,
         ss_ready = (dict_default d ''ready'' (JBool False) = JBool True),
         ss_next_readiness_at = next_readiness_at,
         ss_boot_id = boot_id,
         ss_supervisor_runtime_commit = optional_string (dict_get d ''supervisor_runtime_commit'')\<rparr>)"

definition fresh_state :: SupervisorState where
  "fresh_state = \<lparr>ss_schema_version = SCHEMA_VERSION, ss_applied_generation = 0, ss_mode = MODE_IDLE,
     ss_commit = None, ss_child = None, ss_unresolved_child = None,
     ss_ownership_hold_malformed = False, ss_unresolved_hold_malformed = False, ss_spawning = None,
     ss_spawning_hold_malformed = False, ss_intent = INTENT_RUN, ss_restart_count = 0,
     ss_next_attempt_at = None, ss_last_exit = None, ss_last_spawn_at = None, ss_ready = False,
     ss_next_readiness_at = None, ss_boot_id = None, ss_supervisor_runtime_commit = None\<rparr>"

definition is_holding :: "SupervisorState \<Rightarrow> bool" where
  "is_holding s =
    (if ss_ownership_hold_malformed s \<or> ss_unresolved_hold_malformed s then True
     else if ss_spawning_hold_malformed s then True
     else if ss_unresolved_child s \<noteq> None \<or> ss_spawning s \<noteq> None then True
     else if ss_intent s \<noteq> INTENT_RUN then True
     else ss_mode s \<noteq> MODE_RUN \<or> ss_child s = None)"


section \<open>Specification vocabulary\<close>

definition wf_time :: "pyfloat \<Rightarrow> bool" where
  "wf_time x \<longleftrightarrow> is_finite x \<and> \<not> float_less x float_zero"

definition token_ok :: "pystr \<Rightarrow> bool" where
  "token_ok t \<longleftrightarrow> is_ok (validate_incarnation_token t)"

definition wf_desired :: "SupervisorDesired \<Rightarrow> bool" where
  "wf_desired d \<longleftrightarrow> sd_schema_version d = SCHEMA_VERSION \<and> 0 \<le> sd_generation d \<and> wf_time (sd_requested_at d)"

definition wf_child :: "WorkerChild \<Rightarrow> bool" where
  "wf_child c \<longleftrightarrow> 0 \<le> wc_pid c \<and> 0 \<le> wc_pgid c \<and> 0 \<le> wc_sid c \<and> 0 \<le> wc_start_time_ticks c
     \<and> token_ok (wc_token c) \<and> wf_time (wc_spawned_at c)"

definition wf_unresolved :: "UnresolvedChild \<Rightarrow> bool" where
  "wf_unresolved u \<longleftrightarrow> 0 \<le> uc_pid u \<and> pred_option ((\<le>) 0) (uc_start_time_ticks u)
     \<and> token_ok (uc_token u) \<and> wf_time (uc_spawned_at u)"

definition wf_spawning :: "SpawningObligation \<Rightarrow> bool" where
  "wf_spawning p \<longleftrightarrow> token_ok (sp_token p) \<and> 0 \<le> sp_creator_pid p \<and> 0 \<le> sp_creator_start_time_ticks p
     \<and> pred_option ((\<le>) 0) (sp_pid p) \<and> pred_option ((\<le>) 0) (sp_start_time_ticks p)
     \<and> wf_time (sp_created_at p)"

definition wf_state :: "SupervisorState \<Rightarrow> bool" where
  "wf_state s \<longleftrightarrow> ss_schema_version s = SCHEMA_VERSION \<and> 0 \<le> ss_applied_generation s
     \<and> ss_mode s \<in> {MODE_IDLE, MODE_RUN} \<and> ss_intent s \<in> {INTENT_RUN, INTENT_RETIRING}
     \<and> pred_option wf_child (ss_child s) \<and> pred_option wf_unresolved (ss_unresolved_child s)
     \<and> pred_option wf_spawning (ss_spawning s) \<and> 0 \<le> ss_restart_count s
     \<and> pred_option is_finite (ss_next_attempt_at s)
     \<and> pred_option (\<lambda>e. wf_time (le_at e)) (ss_last_exit s)
     \<and> pred_option wf_time (ss_last_spawn_at s) \<and> pred_option wf_time (ss_next_readiness_at s)
     \<and> ss_boot_id s \<noteq> Some []"

definition state_fields :: "SupervisorState \<Rightarrow> dict \<Rightarrow> bool" where
  "state_fields s d \<longleftrightarrow> dict_get d ''schema_version'' = JInt (ss_schema_version s)
     \<and> dict_has d ''applied_generation'' \<and> dict_get d ''applied_generation'' = JInt (ss_applied_generation s)
     \<and> dict_has d ''mode'' \<and> dict_get d ''mode'' = JStr (ss_mode s)
     \<and> dict_get d ''commit'' = opt_json JStr (ss_commit s)
     \<and> dict_get d ''child'' = opt_json (\<lambda>c. JObj (child_to_dict c)) (ss_child s)
     \<and> dict_get d ''unresolved_child'' = opt_json (\<lambda>u. JObj (unresolved_to_dict u)) (ss_unresolved_child s)
     \<and> dict_get d ''spawning'' = opt_json (\<lambda>p. JObj (spawning_to_dict p)) (ss_spawning s)
     \<and> dict_has d ''ownership_hold_malformed''
     \<and> dict_get d ''ownership_hold_malformed'' = JBool (ss_ownership_hold_malformed s)
     \<and> dict_has d ''unresolved_hold_malformed''
     \<and> dict_get d ''unresolved_hold_malformed'' = JBool (ss_unresolved_hold_malformed s)
     \<and> dict_has d ''spawning_hold_malformed''
     \<and> dict_get d ''spawning_hold_malformed'' = JBool (ss_spawning_hold_malformed s)
     \<and> dict_has d ''intent'' \<and> dict_get d ''intent'' = JStr (ss_intent s)
     \<and> dict_has d ''restart_count'' \<and> dict_get d ''restart_count'' = JInt (ss_restart_count s)
     \<and> dict_get d ''next_attempt_at'' = opt_json JFloat (ss_next_attempt_at s)
     \<and> dict_get d ''last_exit'' = last_exit_to_json (ss_last_exit s)
     \<and> dict_get d ''last_spawn_at'' = opt_json JFloat (ss_last_spawn_at s)
     \<and> dict_has d ''ready'' \<and> dict_get d ''ready'' = JBool (ss_ready s)
     \<and> dict_get d ''next_readiness_at'' = opt_json JFloat (ss_next_readiness_at s)
     \<and> dict_get d ''boot_id'' = opt_json JStr (ss_boot_id s)
     \<and> dict_has d ''boot_id'' = (ss_boot_id s \<noteq> None)
     \<and> dict_get d ''supervisor_runtime_commit'' = opt_json JStr (ss_supervisor_runtime_commit s)"

definition exact_count :: "dict \<Rightarrow> string \<Rightarrow> int \<Rightarrow> bool" where
  "exact_count d k n \<longleftrightarrow> (if dict_has d k then dict_get d k = JInt n \<and> 0 \<le> n else n = 0)"

definition exact_time :: "dict \<Rightarrow> string \<Rightarrow> pyfloat option \<Rightarrow> bool" where
  "exact_time d k t \<longleftrightarrow> (case t of None \<Rightarrow> dict_get d k = JNull
     | Some x \<Rightarrow> strict_finite_float (dict_get d k) = Some x)"

section \<open>What the coercions accept\<close>

lemma optional_string_Some [simp]: "optional_string v = Some s \<longleftrightarrow> v = JStr s"
  by (cases v) (auto simp: optional_string_def)

lemma optional_string_simps [simp]:
  "optional_string (JStr s) = Some s" "optional_string JNull = None"
  by (simp_all add: optional_string_def)

lemma strict_int_Some [simp]: "strict_int v = Some i \<longleftrightarrow> v = JInt i"
  by (cases v) (auto simp: strict_int_def)

lemma strict_int_JInt [simp]: "strict_int (JInt i) = Some i"
  by simp

lemma strict_non_negative_int_Some [simp]:
  "strict_non_negative_int v = Some i \<longleftrightarrow> v = JInt i \<and> 0 \<le> i"
  by (cases v) (auto simp: strict_non_negative_int_def strict_int_def)

lemma optional_bool_Some [simp]: "optional_bool v = Some b \<longleftrightarrow> v = JBool b"
  by (cases v) (auto simp: optional_bool_def)

lemma optional_incarnation_token_Some [simp]:
  "optional_incarnation_token v = Some t \<longleftrightarrow> v = JStr t \<and> token_ok t"
  by (auto simp: optional_incarnation_token_def token_ok_def split: option.splits if_splits)

lemma float_of_int_finite: "float_of_int n = Inr x \<Longrightarrow> is_finite x"
  by (auto simp: float_of_int_def Let_def split: if_splits)

lemma strict_finite_float_finite: "strict_finite_float v = Some x \<Longrightarrow> is_finite x"
  by (cases v) (auto simp: strict_finite_float_def float_of_int_finite split: sum.splits if_splits)

lemma strict_finite_float_JFloat [simp]:
  "strict_finite_float (JFloat x) = (if is_finite x then Some x else None)"
  by (simp add: strict_finite_float_def)

lemma non_negative_float_JFloat [simp]:
  "strict_non_negative_finite_float (JFloat x) = (if wf_time x then Some x else None)"
  by (simp add: strict_non_negative_finite_float_def wf_time_def)

lemma non_negative_float_wf: "strict_non_negative_finite_float v = Some x \<Longrightarrow> wf_time x"
  by (auto simp: strict_non_negative_finite_float_def wf_time_def dest: strict_finite_float_finite
      split: option.splits if_splits)

lemma wf_time_zero [simp]: "wf_time float_zero"
  by (simp add: wf_time_def float_zero_def is_finite_def)

lemma wf_time_finite: "wf_time x \<Longrightarrow> is_finite x"
  by (simp add: wf_time_def)

lemma wf_time_le: "wf_time x \<longleftrightarrow> is_finite x \<and> float_le float_zero x"
  using float_not_less [of x float_zero] by (auto simp: wf_time_def float_zero_def is_finite_def)

lemma demand_Inr [simp]: "demand e v = Inr x \<longleftrightarrow> v = Some x"
  by (cases v) (auto simp: demand_def)

lemma demand_simps [simp]: "demand e (Some x) = Inr x" "demand e None = Inl e"
  by (simp_all add: demand_def)

lemma nullable_Some:
  "nullable c v = Some y \<longleftrightarrow> (v = JNull \<and> y = None \<or> v \<noteq> JNull \<and> (\<exists>x. c v = Some x \<and> y = Some x))"
  by (auto simp: nullable_def)

lemma nullable_opt_json:
  "(\<And>x. y = Some x \<Longrightarrow> c (f x) = Some x) \<Longrightarrow> (\<And>x. f x \<noteq> JNull) \<Longrightarrow> nullable c (opt_json f y) = Some y"
  by (cases y) (auto simp: nullable_def)

lemma present_or_Some:
  "present_or c z d k = Some x \<longleftrightarrow> (if dict_has d k then c (dict_get d k) = Some x else x = z)"
  by (auto simp: present_or_def)

lemma present_time_wf:
  "present_or strict_non_negative_finite_float float_zero d k = Some x \<Longrightarrow> wf_time x"
  by (auto simp: present_or_def non_negative_float_wf split: if_splits)

lemma dict_default_has [simp]: "dict_has d k \<Longrightarrow> dict_default d k v = dict_get d k"
  by (simp add: dict_default_def)

lemmas coerce_defs = nullable_Some present_or_def dict_default_def

section \<open>Parsed records are well formed\<close>

lemma desired_from_dict_wf: "desired_from_dict d = Inr r \<Longrightarrow> wf_desired r"
  by (auto simp: desired_from_dict_def wf_desired_def present_time_wf split: option.splits if_splits)

lemma child_from_dict_wf: "child_from_dict d = Inr c \<Longrightarrow> wf_child c"
  by (auto simp: child_from_dict_def wf_child_def present_time_wf split: option.splits)

lemma unresolved_from_dict_wf: "unresolved_from_dict d = Inr u \<Longrightarrow> wf_unresolved u"
  by (auto simp: unresolved_from_dict_def wf_unresolved_def present_time_wf nullable_Some split: option.splits)

lemma spawning_from_dict_wf: "spawning_from_dict d = Inr p \<Longrightarrow> wf_spawning p"
  by (auto simp: spawning_from_dict_def wf_spawning_def present_time_wf nullable_Some split: option.splits)

section \<open>Round trips\<close>

lemma nullable_ticks [simp]:
  "pred_option ((\<le>) 0) y \<Longrightarrow> nullable strict_non_negative_int (opt_json JInt y) = Some y"
  by (cases y) (auto simp: nullable_def)

lemma nullable_text [simp]: "nullable optional_string (opt_json JStr y) = Some y"
  by (cases y) (auto simp: nullable_def)

lemma nullable_code [simp]: "nullable strict_int (opt_json JInt y) = Some y"
  by (cases y) (auto simp: nullable_def)

lemma non_negative_int_JInt [simp]: "0 \<le> i \<Longrightarrow> strict_non_negative_int (JInt i) = Some i"
  by simp

lemma optional_bool_JBool [simp]: "optional_bool (JBool b) = Some b"
  by simp

lemma token_JStr [simp]: "token_ok t \<Longrightarrow> optional_incarnation_token (JStr t) = Some t"
  by simp

lemmas record_codec = json_simps present_or_def dict_default_def

lemma desired_round_trip: "wf_desired r \<Longrightarrow> desired_from_dict (desired_to_dict r) = Inr r"
  by (cases r) (simp add: desired_from_dict_def desired_to_dict_def wf_desired_def record_codec)

lemma child_round_trip: "wf_child c \<Longrightarrow> child_from_dict (child_to_dict c) = Inr c"
  by (cases c) (simp add: child_from_dict_def child_to_dict_def wf_child_def record_codec)

lemma unresolved_round_trip: "wf_unresolved u \<Longrightarrow> unresolved_from_dict (unresolved_to_dict u) = Inr u"
  by (cases u) (simp add: unresolved_from_dict_def unresolved_to_dict_def wf_unresolved_def record_codec)

lemma spawning_round_trip: "wf_spawning p \<Longrightarrow> spawning_from_dict (spawning_to_dict p) = Inr p"
  by (cases p) (simp add: spawning_from_dict_def spawning_to_dict_def wf_spawning_def record_codec)

lemma parse_optional_opt_json:
  "pred_option ok y \<Longrightarrow> (\<And>x. ok x \<Longrightarrow> parser (f x) = Inr x) \<Longrightarrow>
    parse_optional parser (opt_json (\<lambda>x. JObj (f x)) y) = (y, False)"
  by (cases y) (auto simp: parse_optional_def)

lemma nullable_float_opt_json:
  "pred_option is_finite y \<Longrightarrow> dict_get d k = opt_json JFloat y \<Longrightarrow>
    parse_present_nullable_float d k = (y, False)"
  by (cases y) (auto simp: parse_present_nullable_float_def)

lemma monotonic_float_opt_json:
  assumes "pred_option wf_time y" "dict_get d k = opt_json JFloat y"
  shows "parse_present_nullable_monotonic_float d k = (y, False)"
proof -
  have "pred_option is_finite y" using assms(1) by (cases y) (auto simp: wf_time_finite)
  then show ?thesis
    using assms nullable_float_opt_json [of y d k]
    by (cases y) (auto simp: parse_present_nullable_monotonic_float_def wf_time_le)
qed

lemma last_exit_round_trip:
  assumes "pred_option (\<lambda>e. wf_time (le_at e)) y" "dict_get d ''last_exit'' = last_exit_to_json y"
  shows "parse_last_exit d = y"
  using assms
  by (cases y) (auto simp: parse_last_exit_def last_exit_to_json_def json_simps wf_time_def)

lemma dict_opt_entry [json_simps]:
  "dict_get (opt_entry k v @ d) k' =
     (if k = k' \<and> v \<noteq> None then opt_json JStr v else dict_get d k')"
  "dict_has (opt_entry k v @ d) k' = (k = k' \<and> v \<noteq> None \<or> dict_has d k')"
  "dict_get (opt_entry k v) k' = (if k = k' then opt_json JStr v else JNull)"
  "dict_has (opt_entry k v) k' = (k = k' \<and> v \<noteq> None)"
  by (cases v; auto simp: opt_entry_def json_simps)+

lemma state_to_dict_fields: "state_fields s (state_to_dict s)"
  unfolding state_fields_def state_to_dict_def by (simp add: json_simps)

lemma state_fields_parse:
  assumes d: "state_fields s d" and wf: "wf_state s"
  shows "state_from_dict d = Inr s"
proof -
  note f = d [unfolded state_fields_def] and w = wf [unfolded wf_state_def]
  have 1: "validate_state_schema d = Inr ()" using f w by (simp add: validate_state_schema_def)
  have 2: "parse_optional_child d = (ss_child s, False)"
    using f w by (simp add: parse_optional_child_def parse_optional_opt_json [of wf_child _ child_from_dict child_to_dict] child_round_trip)
  have 3: "parse_optional_unresolved_child d = (ss_unresolved_child s, False)"
    using f w by (simp add: parse_optional_unresolved_child_def parse_optional_opt_json [of wf_unresolved _ unresolved_from_dict unresolved_to_dict] unresolved_round_trip)
  have 4: "parse_optional_spawning d = (ss_spawning s, False)"
    using f w by (simp add: parse_optional_spawning_def parse_optional_opt_json [of wf_spawning _ spawning_from_dict spawning_to_dict] spawning_round_trip)
  have 5: "parse_present_strict d ''applied_generation'' strict_non_negative_int = (ss_applied_generation s, False)"
    "parse_present_strict d ''restart_count'' strict_non_negative_int = (ss_restart_count s, False)"
    using f w by (simp_all add: parse_present_strict_def)
  have 6: "parse_present_nullable_float d ''next_attempt_at'' = (ss_next_attempt_at s, False)"
    using f w by (intro nullable_float_opt_json) auto
  have 7: "parse_present_nullable_monotonic_float d ''last_spawn_at'' = (ss_last_spawn_at s, False)"
    "parse_present_nullable_monotonic_float d ''next_readiness_at'' = (ss_next_readiness_at s, False)"
    using f w by (auto intro!: monotonic_float_opt_json)
  have 8: "parse_present_boot_identity d ''boot_id'' = (ss_boot_id s, False)"
    using f w by (cases "ss_boot_id s") (auto simp: parse_present_boot_identity_def)
  have 9: "\<not> state_strings_malformed d"
    using f w by (cases "ss_commit s") (auto simp: state_strings_malformed_def dict_default_def)
  have 10: "state_mode d = ss_mode s" "state_intent d = ss_intent s" "state_commit d = ss_commit s"
    using f w by (auto simp: state_mode_def state_intent_def state_commit_def dict_default_def
        optional_string_def opt_json_def split: option.splits)
  have 11: "strict_safety_hold d ''ownership_hold_malformed'' = ss_ownership_hold_malformed s"
    "strict_safety_hold d ''unresolved_hold_malformed'' = ss_unresolved_hold_malformed s"
    "strict_safety_hold d ''spawning_hold_malformed'' = ss_spawning_hold_malformed s"
    using f by (simp_all add: strict_safety_hold_def)
  have 12: "parse_last_exit d = ss_last_exit s" using f w by (intro last_exit_round_trip) auto
  have 13: "(dict_default d ''ready'' (JBool False) = JBool True) = ss_ready s"
    "optional_string (dict_get d ''supervisor_runtime_commit'') = ss_supervisor_runtime_commit s"
    using f by (auto simp: dict_default_def optional_string_def opt_json_def split: option.splits)
  have s: "ss_schema_version s = SCHEMA_VERSION" using w by simp
  show ?thesis
    unfolding state_from_dict_def 1 2 3 4 5 6 7 8 10 11 12 13 ebind_simps Let_def prod.case
    using 9 s by (cases s) simp
qed

lemma parse_optional_wf:
  "(\<And>d x. parser d = Inr x \<Longrightarrow> ok x) \<Longrightarrow> pred_option ok (fst (parse_optional parser v))"
  by (auto simp: parse_optional_def split: json.splits sum.splits)

lemma monotonic_wf: "pred_option wf_time (fst (parse_present_nullable_monotonic_float d k))"
  by (auto simp: parse_present_nullable_monotonic_float_def parse_present_nullable_float_def wf_time_le
      dest: strict_finite_float_finite split: prod.splits option.splits if_splits)

lemma nullable_float_finite: "pred_option is_finite (fst (parse_present_nullable_float d k))"
  by (auto simp: parse_present_nullable_float_def pred_option_def dest: strict_finite_float_finite
      elim!: option.set_cases)

lemma parse_last_exit_wf: "pred_option (\<lambda>e. wf_time (le_at e)) (parse_last_exit d)"
  by (auto simp: parse_last_exit_def wf_time_def dest: strict_finite_float_finite
      split: json.splits option.splits)

lemma parse_present_strict_nonneg: "0 \<le> fst (parse_present_strict d k strict_non_negative_int)"
  by (auto simp: parse_present_strict_def split: option.splits)

lemma boot_identity_nonempty: "fst (parse_present_boot_identity d k) \<noteq> Some []"
  by (auto simp: parse_present_boot_identity_def split: json.splits)

lemma state_mode_intent: "state_mode d \<in> {MODE_IDLE, MODE_RUN}" "state_intent d \<in> {INTENT_RUN, INTENT_RETIRING}"
  by (auto simp: state_mode_def state_intent_def split: json.splits)

lemma state_from_dict_wf:
  assumes "state_from_dict d = Inr s"
  shows "wf_state s"
  using assms parse_optional_wf [of child_from_dict wf_child "dict_get d ''child''"]
    parse_optional_wf [of unresolved_from_dict wf_unresolved "dict_get d ''unresolved_child''"]
    parse_optional_wf [of spawning_from_dict wf_spawning "dict_get d ''spawning''"]
    monotonic_wf [of d "''last_spawn_at''"] monotonic_wf [of d "''next_readiness_at''"]
    nullable_float_finite [of d "''next_attempt_at''"] parse_last_exit_wf [of d]
    parse_present_strict_nonneg [of d "''applied_generation''"] parse_present_strict_nonneg [of d "''restart_count''"]
    boot_identity_nonempty [of d "''boot_id''"] state_mode_intent [of d]
  unfolding state_from_dict_def wf_state_def parse_optional_child_def parse_optional_unresolved_child_def
    parse_optional_spawning_def
  by (auto simp: split_beta Let_def child_from_dict_wf unresolved_from_dict_wf spawning_from_dict_wf)

section \<open>Properties\<close>

lemma parse_optional_present:
  "v \<noteq> JNull \<Longrightarrow> fst (parse_optional parser v) \<noteq> None \<or> snd (parse_optional parser v)"
  by (auto simp: parse_optional_def split: json.splits sum.splits)

lemma safety_hold_kept: "dict_has d k \<Longrightarrow> dict_get d k \<noteq> JBool False \<Longrightarrow> strict_safety_hold d k"
  by (auto simp: strict_safety_hold_def optional_bool_def split: json.splits)

lemma present_strict_exact:
  "\<not> snd (parse_present_strict d k strict_non_negative_int) \<Longrightarrow>
    exact_count d k (fst (parse_present_strict d k strict_non_negative_int))"
  by (auto simp: parse_present_strict_def exact_count_def split: if_splits option.splits)

lemma nullable_float_exact:
  "\<not> snd (parse_present_nullable_float d k) \<Longrightarrow> exact_time d k (fst (parse_present_nullable_float d k))"
  by (auto simp: parse_present_nullable_float_def exact_time_def split: if_splits option.splits)

lemma monotonic_float_exact:
  "\<not> snd (parse_present_nullable_monotonic_float d k) \<Longrightarrow>
    exact_time d k (fst (parse_present_nullable_monotonic_float d k))"
  using nullable_float_exact [of d k]
  by (auto simp: parse_present_nullable_monotonic_float_def split: prod.splits option.splits if_splits)

lemma state_from_dict_fields:
  assumes "state_from_dict d = Inr s"
  shows "ss_child s = fst (parse_optional child_from_dict (dict_get d ''child''))"
    "ss_unresolved_child s = fst (parse_optional unresolved_from_dict (dict_get d ''unresolved_child''))"
    "ss_spawning s = fst (parse_optional spawning_from_dict (dict_get d ''spawning''))"
    "ss_applied_generation s = fst (parse_present_strict d ''applied_generation'' strict_non_negative_int)"
    "ss_restart_count s = fst (parse_present_strict d ''restart_count'' strict_non_negative_int)"
    "ss_next_attempt_at s = fst (parse_present_nullable_float d ''next_attempt_at'')"
    "ss_last_spawn_at s = fst (parse_present_nullable_monotonic_float d ''last_spawn_at'')"
    "ss_next_readiness_at s = fst (parse_present_nullable_monotonic_float d ''next_readiness_at'')"
    "ss_ownership_hold_malformed s \<longleftrightarrow>
      snd (parse_optional child_from_dict (dict_get d ''child''))
      \<or> snd (parse_present_strict d ''applied_generation'' strict_non_negative_int)
      \<or> snd (parse_present_strict d ''restart_count'' strict_non_negative_int)
      \<or> snd (parse_present_nullable_float d ''next_attempt_at'')
      \<or> snd (parse_present_nullable_monotonic_float d ''last_spawn_at'')
      \<or> snd (parse_present_nullable_monotonic_float d ''next_readiness_at'')
      \<or> snd (parse_present_boot_identity d ''boot_id'')
      \<or> state_strings_malformed d \<or> strict_safety_hold d ''ownership_hold_malformed''"
    "ss_unresolved_hold_malformed s \<longleftrightarrow>
      snd (parse_optional unresolved_from_dict (dict_get d ''unresolved_child''))
      \<or> strict_safety_hold d ''unresolved_hold_malformed''"
    "ss_spawning_hold_malformed s \<longleftrightarrow>
      snd (parse_optional spawning_from_dict (dict_get d ''spawning''))
      \<or> strict_safety_hold d ''spawning_hold_malformed''"
  using assms
  by (auto simp: state_from_dict_def Let_def split_beta parse_optional_child_def
      parse_optional_unresolved_child_def parse_optional_spawning_def)



text \<open>C29. Reading and rewriting the daemon state is stable: every state that was read from any JSON object
  is written as an object that reads back as the same state, so holds survive each rewrite.
\<close>

theorem state_reread_is_stable:
  assumes "state_from_dict d = Inr s"
  shows "state_from_dict (state_to_dict s) = Inr s"
  by (rule state_fields_parse [OF state_to_dict_fields state_from_dict_wf [OF assms]])

theorem state_reread_is_stable_witness:
  "\<exists>s. state_from_dict [(lit ''spawning'', JBool True)] = Inr s \<and> ss_spawning_hold_malformed s
     \<and> state_from_dict (state_to_dict s) = Inr s"
proof -
  obtain s where s: "state_from_dict [(lit ''spawning'', JBool True)] = Inr s"
    by (simp add: state_from_dict_def validate_state_schema_def json_simps Let_def split_beta)
  have "ss_spawning_hold_malformed s"
    using state_from_dict_fields(11) [OF s] by (simp add: parse_optional_def json_simps)
  then show ?thesis using s state_reread_is_stable [OF s] by blast
qed

text \<open>The incarnation token becomes part of file names; the check lets one final line feed through.\<close>

lemma token_accepts_line_feed:
  "t \<noteq> [] \<Longrightarrow> list_all safe_char t \<Longrightarrow> validate_incarnation_token (t @ [10]) = Inr ()"
  by (simp add: validate_incarnation_token_def SAFE_FILENAME_RE_def)

end
