(* ===== verification/Mission.thy ===== *)
theory Mission
  imports Supervise
begin

text \<open>
  The deployment mission record. \<open>src/lubko/lifecycle.py\<close>: the maintained-worker metadata
  \<open>WorkerMeta\<close> and the candidate descriptors; \<open>src/lubko/deployctl.py\<close>: \<open>RollbackState\<close>, the
  durable mission a deployment leaves until it is confirmed or rolled back, its strict parser and
  the upgrade of older schema versions.
\<close>

section \<open>Maintained-worker metadata\<close>

definition STATE_RUNNING :: pystr where "STATE_RUNNING = lit ''running''"
definition STATE_STOPPED :: pystr where "STATE_STOPPED = lit ''stopped''"

record WorkerMeta =
  wm_schema_version :: int
  wm_state :: pystr
  wm_pid :: "int option"
  wm_pgid :: "int option"
  wm_sid :: "int option"
  wm_start_time_ticks :: "int option"
  wm_token :: "pystr option"
  wm_repo :: pystr
  wm_git_commit :: "pystr option"
  wm_worker_id :: "pystr option"
  wm_log_path :: pystr
  wm_started_at :: "pyfloat option"
  wm_stopped_at :: "pyfloat option"

definition meta_to_dict :: "WorkerMeta \<Rightarrow> dict" where
  "meta_to_dict m =
    [(lit ''schema_version'', JInt (wm_schema_version m)),
     (lit ''state'', JStr (wm_state m)),
     (lit ''pid'', opt_json JInt (wm_pid m)),
     (lit ''pgid'', opt_json JInt (wm_pgid m)),
     (lit ''sid'', opt_json JInt (wm_sid m)),
     (lit ''start_time_ticks'', opt_json JInt (wm_start_time_ticks m)),
     (lit ''token'', opt_json JStr (wm_token m)),
     (lit ''repo'', JStr (wm_repo m)),
     (lit ''git_commit'', opt_json JStr (wm_git_commit m)),
     (lit ''worker_id'', opt_json JStr (wm_worker_id m)),
     (lit ''log_path'', JStr (wm_log_path m)),
     (lit ''started_at'', opt_json JFloat (wm_started_at m)),
     (lit ''stopped_at'', opt_json JFloat (wm_stopped_at m))]"

definition required_meta_int :: "dict \<Rightarrow> string \<Rightarrow> int \<Rightarrow> int res" where
  "required_meta_int d k minimum =
    (if \<not> dict_has d k then Raise (ValueError ''worker metadata field is missing'')
     else case dict_get d k of
         JInt i \<Rightarrow> if i < minimum then Raise (ValueError ''worker metadata field must be >= '') else Ok i
       | _ \<Rightarrow> Raise (TypeError ''worker metadata field must be an integer''))"

definition meta_optional_int :: "dict \<Rightarrow> string \<Rightarrow> int \<Rightarrow> int option res" where
  "meta_optional_int d k minimum =
    (if \<not> dict_has d k \<or> dict_get d k = JNull then Ok None
     else ebind (required_meta_int d k minimum) (\<lambda>i. Ok (Some i)))"

definition meta_string :: "dict \<Rightarrow> string \<Rightarrow> pystr \<Rightarrow> pystr res" where
  "meta_string d k dflt =
    (if \<not> dict_has d k then Ok dflt
     else case dict_get d k of
         JStr s \<Rightarrow> Ok s | _ \<Rightarrow> Raise (TypeError ''worker metadata field must be a string''))"

definition meta_worker_state :: "dict \<Rightarrow> pystr res" where
  "meta_worker_state d =
    ebind (meta_string d ''state'' STATE_STOPPED) (\<lambda>state.
      if state \<notin> {STATE_RUNNING, STATE_STOPPED}
      then Raise (ValueError ''unsupported worker metadata state '') else Ok state)"

definition meta_optional_string :: "dict \<Rightarrow> string \<Rightarrow> pystr option res" where
  "meta_optional_string d k =
    (if \<not> dict_has d k \<or> dict_get d k = JNull then Ok None
     else ebind (meta_string d k []) (\<lambda>s. Ok (Some s)))"

definition meta_optional_finite_float :: "dict \<Rightarrow> string \<Rightarrow> pyfloat option res" where
  "meta_optional_finite_float d k =
    (if \<not> dict_has d k \<or> dict_get d k = JNull then Ok None
     else ebind (case dict_get d k of
            JInt i \<Rightarrow> (case float_of_int i of
                Inl _ \<Rightarrow> Raise (ValueError ''worker metadata field must be a finite number'')
              | Inr x \<Rightarrow> Ok x)
          | JFloat x \<Rightarrow> Ok x
          | _ \<Rightarrow> Raise (TypeError ''worker metadata field must be a finite number'')) (\<lambda>x.
       if \<not> is_finite x then Raise (ValueError ''worker metadata field must be a finite number'')
       else if float_less x float_zero then Raise (ValueError ''worker metadata field must be >= 0'')
       else Ok (Some x)))"

definition meta_from_dict :: "dict \<Rightarrow> WorkerMeta res" where
  "meta_from_dict d =
    ebind (required_meta_int d ''schema_version'' 1) (\<lambda>schema_version.
    if schema_version \<noteq> SCHEMA_VERSION
      then Raise (ValueError ''unsupported worker metadata schema version '')
    else
      ebind (meta_worker_state d) (\<lambda>state.
      ebind (meta_optional_int d ''pid'' 1) (\<lambda>pid.
      ebind (meta_optional_int d ''pgid'' 1) (\<lambda>pgid.
      ebind (meta_optional_int d ''sid'' 0) (\<lambda>sid.
      ebind (meta_optional_int d ''start_time_ticks'' 1) (\<lambda>ticks.
      ebind (meta_optional_string d ''token'') (\<lambda>token.
      ebind (meta_string d ''repo'' []) (\<lambda>repo.
      ebind (meta_optional_string d ''git_commit'') (\<lambda>git_commit.
      ebind (meta_optional_string d ''worker_id'') (\<lambda>worker_id.
      ebind (meta_string d ''log_path'' []) (\<lambda>log_path.
      ebind (meta_optional_finite_float d ''started_at'') (\<lambda>started_at.
      ebind (meta_optional_finite_float d ''stopped_at'') (\<lambda>stopped_at.
        Ok \<lparr>wm_schema_version = schema_version, wm_state = state, wm_pid = pid, wm_pgid = pgid,
          wm_sid = sid, wm_start_time_ticks = ticks, wm_token = token, wm_repo = repo,
          wm_git_commit = git_commit, wm_worker_id = worker_id, wm_log_path = log_path,
          wm_started_at = started_at, wm_stopped_at = stopped_at\<rparr>)))))))))))))"

section \<open>Candidate descriptors\<close>

definition supervisor_candidate_wire_descriptor :: "pystr \<Rightarrow> pystr \<Rightarrow> dict" where
  "supervisor_candidate_wire_descriptor commit repo =
    [(lit ''schema_version'', JInt SCHEMA_VERSION), (lit ''state'', JStr STATE_STOPPED),
     (lit ''pid'', JNull), (lit ''pgid'', JNull), (lit ''sid'', JNull), (lit ''start_time_ticks'', JNull),
     (lit ''token'', JNull), (lit ''repo'', JStr repo), (lit ''git_commit'', JStr commit),
     (lit ''worker_id'', JNull), (lit ''log_path'', JStr []), (lit ''started_at'', JNull),
     (lit ''stopped_at'', JNull)]"

definition legacy_descriptor :: "pystr \<Rightarrow> pystr \<Rightarrow> dict" where
  "legacy_descriptor commit repo =
    [(lit ''schema_version'', JInt SCHEMA_VERSION), (lit ''state'', JStr STATE_RUNNING),
     (lit ''pid'', JInt 0), (lit ''pgid'', JInt 0), (lit ''sid'', JInt 0), (lit ''start_time_ticks'', JInt 0),
     (lit ''token'', JNull), (lit ''repo'', JStr repo), (lit ''git_commit'', JStr commit),
     (lit ''worker_id'', JStr []), (lit ''log_path'', JStr []), (lit ''started_at'', JNull),
     (lit ''stopped_at'', JNull)]"

text \<open>Python's \<open>==\<close> between a decoded dict and a literal one: the same keys, and values that are equal
  as Python compares them, an int being equal to the bool and the float of its value.\<close>

definition value_equals :: "json \<Rightarrow> json \<Rightarrow> bool" where
  "value_equals v expected = (case expected of JInt n \<Rightarrow> py_eq_int v n | _ \<Rightarrow> v = expected)"

definition dict_equals :: "dict \<Rightarrow> dict \<Rightarrow> bool" where
  "dict_equals d expected \<longleftrightarrow> set (map fst d) = set (map fst expected)
     \<and> list_all (\<lambda>(k, v). case map_of d k of None \<Rightarrow> False | Some x \<Rightarrow> value_equals x v) expected"

definition legacy_supervisor_candidate_placeholder :: "dict \<Rightarrow> pystr \<Rightarrow> pystr \<Rightarrow> bool" where
  "legacy_supervisor_candidate_placeholder d commit repo = dict_equals d (legacy_descriptor commit repo)"

definition parse_supervisor_candidate_meta ::
    "json \<Rightarrow> bool option \<Rightarrow> pystr \<Rightarrow> pystr \<Rightarrow> WorkerMeta option res" where
  "parse_supervisor_candidate_meta candidate supervisor_owned commit repo = (case candidate of
      JNull \<Rightarrow> if supervisor_owned \<noteq> Some True then Raise (TypeError []) else Ok None
    | JObj d \<Rightarrow>
        if dict_equals d (supervisor_candidate_wire_descriptor commit repo) then
          (if supervisor_owned \<noteq> Some True then Raise (TypeError []) else Ok None)
        else (case meta_from_dict d of
            Inr m \<Rightarrow> Ok (Some m)
          | Inl e \<Rightarrow>
              if supervisor_owned \<noteq> Some True \<or> \<not> legacy_supervisor_candidate_placeholder d commit repo
              then Raise e else Ok None)
    | _ \<Rightarrow> Raise (TypeError []))"

section \<open>The mission record\<close>

definition ROLLBACK_SCHEMA_VERSION :: int where "ROLLBACK_SCHEMA_VERSION = 4"
definition SUPERVISOR_ROLLBACK_WIRE_SCHEMA_VERSION :: int where
  "SUPERVISOR_ROLLBACK_WIRE_SCHEMA_VERSION = 3"
definition SUPPORTED_ROLLBACK_SCHEMA_VERSIONS :: "int list" where
  "SUPPORTED_ROLLBACK_SCHEMA_VERSIONS = [2, 3]"
definition MISSION_PENDING :: pystr where "MISSION_PENDING = lit ''pending''"
definition MISSION_CONFIRMED :: pystr where "MISSION_CONFIRMED = lit ''confirmed''"
definition MISSION_ROLLED_BACK :: pystr where "MISSION_ROLLED_BACK = lit ''rolled_back''"

record RollbackState =
  rs_schema_version :: int
  rs_generation :: int
  rs_status :: pystr
  rs_commit :: pystr
  rs_previous_commit :: pystr
  rs_deadline :: pyfloat
  rs_repo :: pystr
  rs_uv_path :: pystr
  rs_stop_grace_seconds :: pyfloat
  rs_git_timeout_seconds :: pyfloat
  rs_previous_retiring :: bool
  rs_previous_meta :: WorkerMeta
  rs_new_meta :: "WorkerMeta option"
  rs_supervisor_owned :: "bool option"
  rs_previous_restart_meta :: "WorkerMeta option"
  rs_previous_restart_released :: bool

definition mission_to_dict :: "RollbackState \<Rightarrow> dict" where
  "mission_to_dict r =
    (let supervisor_wire = (rs_supervisor_owned r = Some True) in
    [(lit ''schema_version'', JInt (if supervisor_wire then SUPERVISOR_ROLLBACK_WIRE_SCHEMA_VERSION
        else rs_schema_version r)),
     (lit ''generation'', JInt (rs_generation r)),
     (lit ''status'', JStr (rs_status r)),
     (lit ''commit'', JStr (rs_commit r)),
     (lit ''previous_commit'', JStr (rs_previous_commit r)),
     (lit ''deadline'', JFloat (rs_deadline r)),
     (lit ''repo'', JStr (rs_repo r)),
     (lit ''uv_path'', JStr (rs_uv_path r)),
     (lit ''stop_grace_seconds'', JFloat (rs_stop_grace_seconds r)),
     (lit ''git_timeout_seconds'', JFloat (rs_git_timeout_seconds r)),
     (lit ''previous_retiring'', JBool (rs_previous_retiring r)),
     (lit ''previous_meta'', JObj (meta_to_dict (rs_previous_meta r))),
     (lit ''new_meta'', if supervisor_wire
        then JObj (supervisor_candidate_wire_descriptor (rs_commit r) (rs_repo r))
        else opt_json (\<lambda>m. JObj (meta_to_dict m)) (rs_new_meta r)),
     (lit ''supervisor_owned'', opt_json JBool (rs_supervisor_owned r)),
     (lit ''previous_restart_meta'', opt_json (\<lambda>m. JObj (meta_to_dict m)) (rs_previous_restart_meta r)),
     (lit ''previous_restart_released'', JBool (rs_previous_restart_released r))])"

text \<open>\<open>data[key]\<close>.\<close>

definition item :: "dict \<Rightarrow> string \<Rightarrow> json res" where
  "item d k = (if dict_has d k then Ok (dict_get d k) else Raise KeyError)"

definition retiring_flag :: "dict \<Rightarrow> string \<Rightarrow> bool res" where
  "retiring_flag d k =
    (if \<not> dict_has d k then Ok False
     else case dict_get d k of JBool b \<Rightarrow> Ok b | _ \<Rightarrow> Raise (TypeError []))"

definition required_json_int :: "json \<Rightarrow> int res" where
  "required_json_int v = (case v of JInt i \<Rightarrow> Ok i | _ \<Rightarrow> Raise (TypeError []))"

definition required_json_string :: "json \<Rightarrow> pystr res" where
  "required_json_string v = (case v of JStr s \<Rightarrow> Ok s | _ \<Rightarrow> Raise (TypeError []))"

definition COMMIT_RE :: "pystr \<Rightarrow> bool" where
  "COMMIT_RE s \<longleftrightarrow> length s = 40 \<and> list_all (\<lambda>c. 48 \<le> c \<and> c \<le> 57 \<or> 97 \<le> c \<and> c \<le> 102) s"

definition required_commit :: "json \<Rightarrow> pystr res" where
  "required_commit v = ebind (required_json_string v) (\<lambda>commit.
     if COMMIT_RE commit then Ok commit else Raise (ValueError []))"

definition required_finite_json_number :: "json \<Rightarrow> pyfloat res" where
  "required_finite_json_number v =
    ebind (case v of JInt i \<Rightarrow> float_of_int i | JFloat x \<Rightarrow> Ok x | _ \<Rightarrow> Raise (TypeError [])) (\<lambda>x.
      if is_finite x then Ok x else Raise (ValueError []))"

definition required_nonnegative_finite_json_number :: "json \<Rightarrow> pyfloat res" where
  "required_nonnegative_finite_json_number v =
    ebind (required_finite_json_number v) (\<lambda>x.
      if float_less x float_zero then Raise (ValueError []) else Ok x)"

definition required_positive_finite_json_number :: "json \<Rightarrow> pyfloat res" where
  "required_positive_finite_json_number v =
    ebind (required_finite_json_number v) (\<lambda>x.
      if float_le x float_zero then Raise (ValueError []) else Ok x)"

definition optional_json_bool :: "json \<Rightarrow> bool option res" where
  "optional_json_bool v = (case v of
      JNull \<Rightarrow> Ok None | JBool b \<Rightarrow> Ok (Some b) | _ \<Rightarrow> Raise (TypeError []))"

definition parse_previous_restart ::
    "dict \<Rightarrow> bool option \<Rightarrow> pystr \<Rightarrow> pystr \<Rightarrow> pystr \<Rightarrow> (WorkerMeta option \<times> bool) res" where
  "parse_previous_restart d supervisor_owned status repo previous_commit =
    ebind (case dict_get d ''previous_restart_meta'' of
        JNull \<Rightarrow> Ok None
      | JObj m \<Rightarrow> ebind (meta_from_dict m) (\<lambda>x. Ok (Some x))
      | _ \<Rightarrow> Raise (TypeError [])) (\<lambda>restart_meta.
    ebind (retiring_flag d ''previous_restart_released'') (\<lambda>restart_released.
    case restart_meta of
        None \<Rightarrow> if restart_released then Raise (TypeError []) else Ok (None, restart_released)
      | Some m \<Rightarrow>
          if supervisor_owned \<noteq> Some False \<or> status \<noteq> MISSION_PENDING \<or> wm_state m \<noteq> STATE_RUNNING
             \<or> wm_repo m \<noteq> repo \<or> wm_git_commit m \<noteq> Some previous_commit
          then Raise (TypeError []) else Ok (restart_meta, restart_released)))"

definition required_generation :: "json \<Rightarrow> int res" where
  "required_generation v = (case v of
      JInt i \<Rightarrow> if i < 1 then Raise (ValueError ''generation must be a positive integer'') else Ok i
    | _ \<Rightarrow> Raise (ValueError ''generation must be a positive integer''))"

definition build_from_dict :: "dict \<Rightarrow> RollbackState res" where
  "build_from_dict d =
    ebind (item d ''previous_meta'') (\<lambda>previous.
    ebind (item d ''new_meta'') (\<lambda>candidate.
    ebind (case previous of JObj p \<Rightarrow> Ok p | _ \<Rightarrow> Raise (TypeError ''previous_meta must be a dict'')) (\<lambda>previous.
    ebind (optional_json_bool (dict_get d ''supervisor_owned'')) (\<lambda>supervisor_owned.
    ebind (ebind (item d ''generation'') required_generation) (\<lambda>generation.
    ebind (ebind (item d ''schema_version'') required_json_int) (\<lambda>schema_version.
    ebind (ebind (item d ''status'') required_json_string) (\<lambda>status.
    if status \<notin> {MISSION_PENDING, MISSION_CONFIRMED, MISSION_ROLLED_BACK}
      then Raise (ValueError ''unexpected status '')
    else
      ebind (ebind (item d ''commit'') required_commit) (\<lambda>commit.
      ebind (ebind (item d ''previous_commit'') required_commit) (\<lambda>previous_commit.
      ebind (ebind (item d ''repo'') required_json_string) (\<lambda>repo.
      ebind (parse_supervisor_candidate_meta candidate supervisor_owned commit repo) (\<lambda>candidate_meta.
      ebind (parse_previous_restart d supervisor_owned status repo previous_commit) (\<lambda>restart.
      ebind (ebind (item d ''deadline'') required_nonnegative_finite_json_number) (\<lambda>deadline.
      ebind (ebind (item d ''uv_path'') required_json_string) (\<lambda>uv_path.
      ebind (ebind (item d ''stop_grace_seconds'') required_positive_finite_json_number) (\<lambda>stop_grace.
      ebind (ebind (item d ''git_timeout_seconds'') required_positive_finite_json_number) (\<lambda>git_timeout.
      ebind (retiring_flag d ''previous_retiring'') (\<lambda>previous_retiring.
      ebind (meta_from_dict previous) (\<lambda>previous_meta.
        Ok \<lparr>rs_schema_version = schema_version, rs_generation = generation, rs_status = status,
          rs_commit = commit, rs_previous_commit = previous_commit, rs_deadline = deadline,
          rs_repo = repo, rs_uv_path = uv_path, rs_stop_grace_seconds = stop_grace,
          rs_git_timeout_seconds = git_timeout, rs_previous_retiring = previous_retiring,
          rs_previous_meta = previous_meta, rs_new_meta = candidate_meta,
          rs_supervisor_owned = supervisor_owned, rs_previous_restart_meta = fst restart,
          rs_previous_restart_released = snd restart\<rparr>))))))))))))))))))"

text \<open>\<open>except (KeyError, TypeError, ValueError)\<close>; JSONDecodeError and UnicodeDecodeError are ValueErrors, OverflowError is not.\<close>

definition key_type_value :: "pyerr \<Rightarrow> bool" where
  "key_type_value e = (case e of KeyError \<Rightarrow> True | TypeError _ \<Rightarrow> True | ValueError _ \<Rightarrow> True
     | JSONDecodeError \<Rightarrow> True | UnicodeDecodeError \<Rightarrow> True | _ \<Rightarrow> False)"

definition mission_malformed :: pyerr where
  "mission_malformed = DeployCtlError ''supervised deployment state is malformed''"

definition mission_from_dict :: "dict \<Rightarrow> RollbackState res" where
  "mission_from_dict d = (case build_from_dict d of
      Inl e \<Rightarrow> Raise (if key_type_value e then mission_malformed else e)
    | Inr r \<Rightarrow> Ok r)"

definition normalize_parsed_state :: "RollbackState \<Rightarrow> RollbackState res" where
  "normalize_parsed_state r =
    (if rs_schema_version r = ROLLBACK_SCHEMA_VERSION then Ok r
     else if rs_schema_version r \<in> set SUPPORTED_ROLLBACK_SCHEMA_VERSIONS
       then Ok (r\<lparr>rs_schema_version := ROLLBACK_SCHEMA_VERSION\<rparr>)
     else Raise (DeployCtlError ''unsupported supervised deployment state version ''))"


section \<open>Specification vocabulary\<close>

definition wf_meta :: "WorkerMeta \<Rightarrow> bool" where
  "wf_meta m \<longleftrightarrow> wm_schema_version m = SCHEMA_VERSION \<and> wm_state m \<in> {STATE_RUNNING, STATE_STOPPED}
     \<and> pred_option ((\<le>) 1) (wm_pid m) \<and> pred_option ((\<le>) 1) (wm_pgid m) \<and> pred_option ((\<le>) 0) (wm_sid m)
     \<and> pred_option ((\<le>) 1) (wm_start_time_ticks m)
     \<and> pred_option wf_time (wm_started_at m) \<and> pred_option wf_time (wm_stopped_at m)"

definition positive_time :: "pyfloat \<Rightarrow> bool" where
  "positive_time x \<longleftrightarrow> is_finite x \<and> \<not> float_le x float_zero"

definition wf_restart :: "RollbackState \<Rightarrow> bool" where
  "wf_restart r \<longleftrightarrow> (case rs_previous_restart_meta r of
      None \<Rightarrow> \<not> rs_previous_restart_released r
    | Some m \<Rightarrow> wf_meta m \<and> rs_supervisor_owned r = Some False \<and> rs_status r = MISSION_PENDING
        \<and> wm_state m = STATE_RUNNING \<and> wm_repo m = rs_repo r
        \<and> wm_git_commit m = Some (rs_previous_commit r))"

definition wf_mission :: "RollbackState \<Rightarrow> bool" where
  "wf_mission r \<longleftrightarrow> 1 \<le> rs_generation r
     \<and> rs_status r \<in> {MISSION_PENDING, MISSION_CONFIRMED, MISSION_ROLLED_BACK}
     \<and> COMMIT_RE (rs_commit r) \<and> COMMIT_RE (rs_previous_commit r) \<and> wf_time (rs_deadline r)
     \<and> positive_time (rs_stop_grace_seconds r) \<and> positive_time (rs_git_timeout_seconds r)
     \<and> wf_meta (rs_previous_meta r) \<and> pred_option wf_meta (rs_new_meta r)
     \<and> (rs_new_meta r = None \<longrightarrow> rs_supervisor_owned r = Some True) \<and> wf_restart r"

definition mission_raises :: "pyerr \<Rightarrow> bool" where
  "mission_raises e \<longleftrightarrow> key_type_value e \<or> e = OverflowError"

text \<open>The candidate section is one a mission of that owner may carry.\<close>

definition candidate_ok :: "RollbackState \<Rightarrow> bool" where
  "candidate_ok r \<longleftrightarrow> (if rs_supervisor_owned r = Some True then rs_new_meta r = None
     else (case rs_new_meta r of None \<Rightarrow> False | Some m \<Rightarrow> wm_pid m \<noteq> None))"

section \<open>Well-formed missions\<close>

lemma required_meta_int_Inr [simp]:
  "required_meta_int d k n = Inr i \<longleftrightarrow> dict_has d k \<and> dict_get d k = JInt i \<and> n \<le> i"
  by (auto simp: required_meta_int_def split: json.splits)

lemma meta_optional_int_Inr:
  "meta_optional_int d k n = Inr y \<longleftrightarrow>
    (if dict_get d k = JNull \<or> \<not> dict_has d k then y = None
     else (\<exists>i. dict_get d k = JInt i \<and> n \<le> i \<and> y = Some i))"
  by (auto simp: meta_optional_int_def)

lemma meta_string_Inr:
  "meta_string d k z = Inr s \<longleftrightarrow> (if dict_has d k then dict_get d k = JStr s else s = z)"
  by (auto simp: meta_string_def split: json.splits)

lemma meta_optional_string_Inr:
  "meta_optional_string d k = Inr y \<longleftrightarrow>
    (if dict_get d k = JNull \<or> \<not> dict_has d k then y = None else (\<exists>s. dict_get d k = JStr s \<and> y = Some s))"
  by (auto simp: meta_optional_string_def meta_string_Inr)

lemma meta_optional_finite_float_wf: "meta_optional_finite_float d k = Inr y \<Longrightarrow> pred_option wf_time y"
  by (auto simp: meta_optional_finite_float_def wf_time_def split: if_splits)

lemma meta_optional_int_wf: "meta_optional_int d k n = Inr y \<Longrightarrow> pred_option ((\<le>) n) y"
  by (auto simp: meta_optional_int_Inr split: if_splits)

lemma meta_worker_state_wf: "meta_worker_state d = Inr x \<Longrightarrow> x \<in> {STATE_RUNNING, STATE_STOPPED}"
  by (auto simp: meta_worker_state_def split: if_splits)

lemma meta_from_dict_wf: "meta_from_dict d = Inr m \<Longrightarrow> wf_meta m"
  unfolding meta_from_dict_def
  by (elim succeedE)
    (auto simp: wf_meta_def intro: meta_optional_int_wf meta_optional_finite_float_wf dest: meta_worker_state_wf)

lemma meta_int_opt_json:
  "pred_option ((\<le>) n) y \<Longrightarrow> dict_has d k \<Longrightarrow> dict_get d k = opt_json JInt y \<Longrightarrow> meta_optional_int d k n = Inr y"
  by (cases y) (auto simp: meta_optional_int_Inr)

lemma meta_string_opt_json:
  "dict_has d k \<Longrightarrow> dict_get d k = opt_json JStr y \<Longrightarrow> meta_optional_string d k = Inr y"
  by (cases y) (auto simp: meta_optional_string_Inr)

lemma meta_float_opt_json:
  "pred_option wf_time y \<Longrightarrow> dict_has d k \<Longrightarrow> dict_get d k = opt_json JFloat y \<Longrightarrow>
    meta_optional_finite_float d k = Inr y"
  by (cases y) (auto simp: meta_optional_finite_float_def wf_time_def)

lemma meta_round_trip:
  assumes "wf_meta m"
  shows "meta_from_dict (meta_to_dict m) = Inr m"
proof -
  note w = assms [unfolded wf_meta_def]
  let ?d = "meta_to_dict m"
  have h: "dict_has ?d k" if "k \<in> set [''schema_version'', ''state'', ''pid'', ''pgid'', ''sid'',
      ''start_time_ticks'', ''token'', ''repo'', ''git_commit'', ''worker_id'', ''log_path'',
      ''started_at'', ''stopped_at'']" for k
    using that unfolding meta_to_dict_def by (auto simp: json_simps)
  have i: "meta_optional_int ?d ''pid'' 1 = Inr (wm_pid m)" "meta_optional_int ?d ''pgid'' 1 = Inr (wm_pgid m)"
    "meta_optional_int ?d ''sid'' 0 = Inr (wm_sid m)"
    "meta_optional_int ?d ''start_time_ticks'' 1 = Inr (wm_start_time_ticks m)"
    using w by (auto intro!: meta_int_opt_json h) (simp_all add: meta_to_dict_def json_simps)
  have s: "meta_optional_string ?d ''token'' = Inr (wm_token m)"
    "meta_optional_string ?d ''git_commit'' = Inr (wm_git_commit m)"
    "meta_optional_string ?d ''worker_id'' = Inr (wm_worker_id m)"
    by (auto intro!: meta_string_opt_json h) (simp_all add: meta_to_dict_def json_simps)
  have f: "meta_optional_finite_float ?d ''started_at'' = Inr (wm_started_at m)"
    "meta_optional_finite_float ?d ''stopped_at'' = Inr (wm_stopped_at m)"
    using w by (auto intro!: meta_float_opt_json h) (simp_all add: meta_to_dict_def json_simps)
  have p: "required_meta_int ?d ''schema_version'' 1 = Inr (wm_schema_version m)"
    "meta_worker_state ?d = Inr (wm_state m)" "meta_string ?d ''repo'' [] = Inr (wm_repo m)"
    "meta_string ?d ''log_path'' [] = Inr (wm_log_path m)"
    using w by (auto simp: meta_worker_state_def meta_string_Inr meta_to_dict_def json_simps SCHEMA_VERSION_def)
  show ?thesis
    using w unfolding meta_from_dict_def i s f p by simp
qed

lemma finite_number_Inr:
  "required_finite_json_number v = Inr x \<Longrightarrow> is_finite x"
  by (auto simp: required_finite_json_number_def split: if_splits)

lemma nonnegative_number_wf: "required_nonnegative_finite_json_number v = Inr x \<Longrightarrow> wf_time x"
  by (auto simp: required_nonnegative_finite_json_number_def wf_time_def dest: finite_number_Inr split: if_splits)

lemma positive_number_wf: "required_positive_finite_json_number v = Inr x \<Longrightarrow> positive_time x"
  by (auto simp: required_positive_finite_json_number_def positive_time_def dest: finite_number_Inr split: if_splits)

lemma number_JFloat [simp]:
  "wf_time x \<Longrightarrow> required_nonnegative_finite_json_number (JFloat x) = Inr x"
  "positive_time x \<Longrightarrow> required_positive_finite_json_number (JFloat x) = Inr x"
  by (simp_all add: required_nonnegative_finite_json_number_def required_positive_finite_json_number_def
      required_finite_json_number_def wf_time_def positive_time_def)

lemma candidate_meta_wf:
  "parse_supervisor_candidate_meta v owned commit repo = Inr y \<Longrightarrow>
    pred_option wf_meta y \<and> (y = None \<longrightarrow> owned = Some True)"
  by (auto simp: parse_supervisor_candidate_meta_def dest: meta_from_dict_wf
      split: json.splits if_splits sum.splits)

lemma previous_restart_wf:
  assumes "parse_previous_restart d owned status repo pc = Inr (y, b)"
  shows "case y of None \<Rightarrow> \<not> b | Some m \<Rightarrow> wf_meta m \<and> owned = Some False \<and> status = MISSION_PENDING
        \<and> wm_state m = STATE_RUNNING \<and> wm_repo m = repo \<and> wm_git_commit m = Some pc"
  using assms
  by (auto simp: parse_previous_restart_def dest: meta_from_dict_wf split: json.splits option.splits if_splits)

lemma required_Inr [simp]:
  "required_json_string v = Inr s \<longleftrightarrow> v = JStr s" "required_json_int v = Inr i \<longleftrightarrow> v = JInt i"
  "required_commit v = Inr s \<longleftrightarrow> v = JStr s \<and> COMMIT_RE s"
  "required_generation v = Inr i \<longleftrightarrow> v = JInt i \<and> 1 \<le> i"
  by (cases v; auto simp: required_json_string_def required_json_int_def required_commit_def
      required_generation_def)+

lemma item_Inr [simp]: "item d k = Inr v \<longleftrightarrow> dict_has d k \<and> v = dict_get d k"
  by (auto simp: item_def)

lemma build_from_dict_wf:
  assumes "build_from_dict d = Inr r"
  shows "wf_mission r"
  using assms unfolding build_from_dict_def
proof (elim succeedE, goal_cases)
  case (1 pv cand p owned g gv sv svv st stv c cv pc pcv repo rv cm restart dl dlv uv uvv sg sgv gt gtv pr pm)
  have restart: "case fst restart of None \<Rightarrow> \<not> snd restart
      | Some m \<Rightarrow> wf_meta m \<and> owned = Some False \<and> st = MISSION_PENDING
        \<and> wm_state m = STATE_RUNNING \<and> wm_repo m = repo \<and> wm_git_commit m = Some pc"
    using previous_restart_wf [of d owned st repo pc "fst restart" "snd restart"] 1(19) by simp
  have times: "wf_time dl" "positive_time sg" "positive_time gt" "wf_meta pm"
    using nonnegative_number_wf [OF 1(21)] positive_number_wf [OF 1(25)] positive_number_wf [OF 1(27)]
      meta_from_dict_wf [OF 1(29)] by simp_all
  have r: "r = \<lparr>rs_schema_version = sv, rs_generation = g, rs_status = st, rs_commit = c,
      rs_previous_commit = pc, rs_deadline = dl, rs_repo = repo, rs_uv_path = uv,
      rs_stop_grace_seconds = sg, rs_git_timeout_seconds = gt, rs_previous_retiring = pr,
      rs_previous_meta = pm, rs_new_meta = cm, rs_supervisor_owned = owned,
      rs_previous_restart_meta = fst restart, rs_previous_restart_released = snd restart\<rparr>"
    using 1(30) by simp
  show ?case
    using candidate_meta_wf [OF 1(18)] restart times 1(6,11,13,15)
    unfolding r wf_mission_def wf_restart_def by (cases "fst restart") simp_all
qed

lemma mission_from_dict_wf: "mission_from_dict d = Inr r \<Longrightarrow> wf_mission r"
  by (auto simp: mission_from_dict_def dest: build_from_dict_wf split: sum.splits)

lemma key_type_value_simps [simp]:
  "key_type_value (TypeError m)" "key_type_value (ValueError m)" "key_type_value KeyError"
  "\<not> key_type_value OverflowError"
  by (simp_all add: key_type_value_def)

lemma field_raises [simp]:
  "raises_only key_type_value (required_meta_int d k n)"
  "raises_only key_type_value (meta_optional_int d k n)"
  "raises_only key_type_value (meta_string d k z)"
  "raises_only key_type_value (meta_worker_state d)"
  "raises_only key_type_value (meta_optional_string d k)"
  "raises_only key_type_value (meta_optional_finite_float d k)"
  "raises_only key_type_value (item d k)"
  "raises_only key_type_value (retiring_flag d k)"
  "raises_only key_type_value (required_json_int v)"
  "raises_only key_type_value (required_json_string v)"
  "raises_only key_type_value (required_commit v)"
  "raises_only key_type_value (required_generation v)"
  "raises_only key_type_value (optional_json_bool v)"
  unfolding meta_optional_int_def meta_worker_state_def meta_optional_string_def
    meta_optional_finite_float_def meta_string_def required_meta_int_def item_def retiring_flag_def
    required_commit_def required_json_int_def required_json_string_def required_generation_def optional_json_bool_def
  by (auto intro!: raises_only_ebind simp: raises_only_def split: json.splits sum.splits)

lemma meta_raises [simp]: "raises_only key_type_value (meta_from_dict d)"
  unfolding meta_from_dict_def by (intro raises_rules) simp_all

lemma candidate_raises [simp]:
  "raises_only key_type_value (parse_supervisor_candidate_meta v owned commit repo)"
  by (auto simp: parse_supervisor_candidate_meta_def dest: raises_onlyD [OF meta_raises]
      split: json.splits sum.splits)

lemma restart_raises [simp]:
  "raises_only key_type_value (parse_previous_restart d owned status repo pc)"
  unfolding parse_previous_restart_def
  by (intro raises_only_ebind) (auto intro!: raises_only_ebind split: json.splits option.splits)

lemma key_type_value_mission: "raises_only key_type_value m \<Longrightarrow> raises_only mission_raises m"
  by (erule raises_only_mono) (simp add: mission_raises_def)

lemma finite_number_raises: "raises_only mission_raises (required_finite_json_number v)"
  unfolding required_finite_json_number_def
  by (intro raises_only_ebind)
    (auto simp: mission_raises_def float_of_int_def Let_def raises_only_def split: json.splits if_splits)

lemma number_raises [simp]:
  "raises_only mission_raises (required_nonnegative_finite_json_number v)"
  "raises_only mission_raises (required_positive_finite_json_number v)"
  unfolding required_nonnegative_finite_json_number_def required_positive_finite_json_number_def
  by (intro raises_rules finite_number_raises; simp add: mission_raises_def)+

lemmas section_raises = field_raises meta_raises candidate_raises restart_raises

lemma build_raises: "raises_only mission_raises (build_from_dict d)"
  unfolding build_from_dict_def
  by (intro raises_rules section_raises [THEN key_type_value_mission] number_raises)
    (auto simp: mission_raises_def split: json.splits)

lemma mission_from_dict_raises:
  "mission_from_dict d = Inl e \<Longrightarrow> e = mission_malformed \<or> e = OverflowError"
  using build_raises [of d]
  by (auto simp: mission_from_dict_def mission_raises_def split: sum.splits if_splits)

section \<open>Round trip\<close>

lemma descriptor_equals_self:
  "dict_equals (supervisor_candidate_wire_descriptor c repo) (supervisor_candidate_wire_descriptor c repo)"
  by (simp add: dict_equals_def supervisor_candidate_wire_descriptor_def value_equals_def py_eq_int_def)

lemma live_meta_not_descriptor:
  "wm_pid m \<noteq> None \<Longrightarrow> \<not> dict_equals (meta_to_dict m) (supervisor_candidate_wire_descriptor c repo)"
  by (auto simp: dict_equals_def supervisor_candidate_wire_descriptor_def meta_to_dict_def value_equals_def)

lemma candidate_round_trip:
  assumes "candidate_ok r" "pred_option wf_meta (rs_new_meta r)"
  shows "parse_supervisor_candidate_meta (dict_get (mission_to_dict r) ''new_meta'')
    (rs_supervisor_owned r) (rs_commit r) (rs_repo r) = Inr (rs_new_meta r)"
proof (cases "rs_supervisor_owned r = Some True")
  case True
  then show ?thesis
    using assms by (simp add: mission_to_dict_def Let_def json_simps parse_supervisor_candidate_meta_def
        descriptor_equals_self candidate_ok_def)
next
  case False
  then obtain m where m: "rs_new_meta r = Some m" "wm_pid m \<noteq> None" "wf_meta m"
    using assms by (auto simp: candidate_ok_def split: option.splits)
  then show ?thesis
    using False by (simp add: mission_to_dict_def Let_def json_simps parse_supervisor_candidate_meta_def
        live_meta_not_descriptor meta_round_trip)
qed

lemma restart_round_trip:
  assumes "wf_restart r"
  shows "parse_previous_restart (mission_to_dict r) (rs_supervisor_owned r) (rs_status r) (rs_repo r)
    (rs_previous_commit r) = Inr (rs_previous_restart_meta r, rs_previous_restart_released r)"
  using assms
  by (cases "rs_previous_restart_meta r")
    (auto simp: wf_restart_def parse_previous_restart_def mission_to_dict_def Let_def json_simps retiring_flag_def
      meta_round_trip)

lemma mission_round_trip:
  assumes wf: "wf_mission r" and cand: "candidate_ok r"
    and version: "rs_schema_version r = ROLLBACK_SCHEMA_VERSION"
  shows "ebind (mission_from_dict (mission_to_dict r)) normalize_parsed_state = Inr r"
proof -
  note w = wf [unfolded wf_mission_def]
  let ?d = "mission_to_dict r"
  let ?v = "if rs_supervisor_owned r = Some True then SUPERVISOR_ROLLBACK_WIRE_SCHEMA_VERSION
    else rs_schema_version r"
  have has: "dict_has ?d k" if "k \<in> set [''schema_version'', ''generation'', ''status'', ''commit'',
      ''previous_commit'', ''deadline'', ''repo'', ''uv_path'', ''stop_grace_seconds'',
      ''git_timeout_seconds'', ''previous_retiring'', ''previous_meta'', ''new_meta'']" for k
    using that unfolding mission_to_dict_def Let_def by (auto simp: json_simps)
  have get: "dict_get ?d ''schema_version'' = JInt ?v" "dict_get ?d ''generation'' = JInt (rs_generation r)"
    "dict_get ?d ''status'' = JStr (rs_status r)" "dict_get ?d ''commit'' = JStr (rs_commit r)"
    "dict_get ?d ''previous_commit'' = JStr (rs_previous_commit r)"
    "dict_get ?d ''deadline'' = JFloat (rs_deadline r)" "dict_get ?d ''repo'' = JStr (rs_repo r)"
    "dict_get ?d ''uv_path'' = JStr (rs_uv_path r)"
    "dict_get ?d ''stop_grace_seconds'' = JFloat (rs_stop_grace_seconds r)"
    "dict_get ?d ''git_timeout_seconds'' = JFloat (rs_git_timeout_seconds r)"
    "dict_get ?d ''previous_retiring'' = JBool (rs_previous_retiring r)"
    "dict_get ?d ''previous_meta'' = JObj (meta_to_dict (rs_previous_meta r))"
    "dict_get ?d ''supervisor_owned'' = opt_json JBool (rs_supervisor_owned r)"
    unfolding mission_to_dict_def Let_def by (simp_all add: json_simps)
  have owned: "optional_json_bool (opt_json JBool (rs_supervisor_owned r)) = Inr (rs_supervisor_owned r)"
    by (cases "rs_supervisor_owned r") (simp_all add: optional_json_bool_def)
  have flag: "retiring_flag ?d ''previous_retiring'' = Inr (rs_previous_retiring r)"
    using get has by (simp add: retiring_flag_def)
  have items: "item ?d k = Inr (dict_get ?d k)" if "k \<in> set [''schema_version'', ''generation'', ''status'',
      ''commit'', ''previous_commit'', ''deadline'', ''repo'', ''uv_path'', ''stop_grace_seconds'',
      ''git_timeout_seconds'', ''previous_retiring'', ''previous_meta'', ''new_meta'']" for k
    using has [OF that] by simp
  have req: "required_generation (JInt (rs_generation r)) = Inr (rs_generation r)"
    "required_json_int (JInt ?v) = Inr ?v"
    "required_json_string (JStr (rs_status r)) = Inr (rs_status r)"
    "required_commit (JStr (rs_commit r)) = Inr (rs_commit r)"
    "required_commit (JStr (rs_previous_commit r)) = Inr (rs_previous_commit r)"
    "required_json_string (JStr (rs_repo r)) = Inr (rs_repo r)"
    "required_json_string (JStr (rs_uv_path r)) = Inr (rs_uv_path r)"
    "required_nonnegative_finite_json_number (JFloat (rs_deadline r)) = Inr (rs_deadline r)"
    "required_positive_finite_json_number (JFloat (rs_stop_grace_seconds r)) = Inr (rs_stop_grace_seconds r)"
    "required_positive_finite_json_number (JFloat (rs_git_timeout_seconds r)) = Inr (rs_git_timeout_seconds r)"
    using w by simp_all
  have cm: "parse_supervisor_candidate_meta (dict_get ?d ''new_meta'') (rs_supervisor_owned r) (rs_commit r)
      (rs_repo r) = Inr (rs_new_meta r)"
    using candidate_round_trip [OF cand] w by blast
  have rm: "parse_previous_restart ?d (rs_supervisor_owned r) (rs_status r) (rs_repo r) (rs_previous_commit r)
      = Inr (rs_previous_restart_meta r, rs_previous_restart_released r)"
    using restart_round_trip w by blast
  have pm: "meta_from_dict (meta_to_dict (rs_previous_meta r)) = Inr (rs_previous_meta r)"
    using meta_round_trip w by blast
  have st: "\<not> rs_status r \<notin> {MISSION_PENDING, MISSION_CONFIRMED, MISSION_ROLLED_BACK}" using w by blast
  have "build_from_dict ?d = Inr (r\<lparr>rs_schema_version := ?v\<rparr>)"
    unfolding build_from_dict_def
    apply (subst items, simp)+
    apply (simp only: ebind_simps get owned req cm rm flag st if_False json.case fst_conv snd_conv
        pm)
    by (cases r) simp
  then show ?thesis
    using version by (simp add: mission_from_dict_def normalize_parsed_state_def ROLLBACK_SCHEMA_VERSION_def
        SUPERVISOR_ROLLBACK_WIRE_SCHEMA_VERSION_def SUPPORTED_ROLLBACK_SCHEMA_VERSIONS_def)
qed

end
