(* ===== verification/SuperviseStore.thy ===== *)
theory SuperviseStore
  imports Mission Effects
begin

text \<open>
  \<open>src/lubko/supervise.py\<close>, the files the supervisor and the command-line tools share: the desired
  intent, the daemon state, the deployment mission, the reserved generation and the pending install
  request with its acknowledgements. A file is kept as what a reader finds: no entry, an entry that
  cannot be reached, a dangling link, a file that cannot be read, bytes that are not UTF-8, or text,
  which is the value \<open>json.loads\<close> returns for it or nothing when it is not JSON. A durable write is
  confirmed, lost, or raises although the new contents stay (\<open>Durable\<close> proves that nothing else can
  happen), as the schedule in the state says; each critical section runs under its lock, which may
  time out or not be openable. The private files are reached through the state token of the
  environment only.

  The operations of \<open>src/lubko/supervisor.py\<close> that answer requests of the control socket are the
  last section.
\<close>

section \<open>Stored files\<close>

datatype stored = Missing | Hidden | Dangling | Unreadable | NotUtf8 | Text "json option"

datatype write_outcome = Confirmed | Lost | Unconfirmed

datatype lock_outcome = Acquired | TimedOut | Unavailable

record store =
  f_desired :: stored
  f_state :: stored
  f_mission :: stored
  f_reserved :: stored
  f_pending :: stored
  f_acks :: "pystr \<Rightarrow> stored"
  f_outcomes :: "write_outcome list"
  f_locks :: "lock_outcome list"
  f_clock :: "pyfloat list"
  f_token :: pystr

text \<open>\<open>path.read_text(encoding="utf-8")\<close>, then \<open>json.loads\<close>.\<close>

definition read_text :: "stored \<Rightarrow> json option res" where
  "read_text f = (case f of
      Missing \<Rightarrow> Raise FileNotFoundError
    | Dangling \<Rightarrow> Raise FileNotFoundError
    | Hidden \<Rightarrow> Raise OSError
    | Unreadable \<Rightarrow> Raise OSError
    | NotUtf8 \<Rightarrow> Raise UnicodeDecodeError
    | Text v \<Rightarrow> Ok v)"

definition json_loads :: "json option \<Rightarrow> json res" where
  "json_loads v = (case v of None \<Rightarrow> Raise JSONDecodeError | Some j \<Rightarrow> Ok j)"

definition holding :: "dict \<Rightarrow> stored" where
  "holding d = Text (Some (JObj d))"

type_synonym ('z, 'a) sio = "('z store_scheme, 'a) eff"

definition durable_put ::
    "(stored \<Rightarrow> 'z store_scheme \<Rightarrow> 'z store_scheme) \<Rightarrow> stored \<Rightarrow> ('z, unit) sio" where
  "durable_put put new s =
    (let s' = s\<lparr>f_outcomes := tl (f_outcomes s)\<rparr> in
     case (if f_outcomes s = [] then Confirmed else hd (f_outcomes s)) of
       Confirmed \<Rightarrow> (Ok (), put new s')
     | Lost \<Rightarrow> (Raise (DurabilityError ''cannot durably write ''), s')
     | Unconfirmed \<Rightarrow> (Raise (DurabilityError ''cannot durably write ''), put new s'))"

definition remove_durable_file ::
    "(stored \<Rightarrow> 'z store_scheme \<Rightarrow> 'z store_scheme) \<Rightarrow> ('z, unit) sio" where
  "remove_durable_file put = io_catch (durable_put put Missing)
     (\<lambda>_. io_raise (DurabilityError ''cannot remove durable state''))"

definition time_time :: "('z, pyfloat) sio" where
  "time_time s = (case f_clock s of
      [] \<Rightarrow> (Ok float_zero, s) | t # ts \<Rightarrow> (Ok t, s\<lparr>f_clock := ts\<rparr>))"

text \<open>A critical section: the lock is taken for it or times out.\<close>

definition under_lock :: "pyerr \<Rightarrow> ('z, 'a) sio \<Rightarrow> ('z, 'a) sio" where
  "under_lock timeout body s =
    (let s' = s\<lparr>f_locks := tl (f_locks s)\<rparr> in
     case (if f_locks s = [] then Acquired else hd (f_locks s)) of
       Acquired \<Rightarrow> body s' | TimedOut \<Rightarrow> (Raise timeout, s') | Unavailable \<Rightarrow> (Raise OSError, s'))"

abbreviation put_desired :: "stored \<Rightarrow> 'z store_scheme \<Rightarrow> 'z store_scheme" where
  "put_desired v \<equiv> f_desired_update (\<lambda>_. v)"
abbreviation put_state :: "stored \<Rightarrow> 'z store_scheme \<Rightarrow> 'z store_scheme" where
  "put_state v \<equiv> f_state_update (\<lambda>_. v)"
abbreviation put_reserved :: "stored \<Rightarrow> 'z store_scheme \<Rightarrow> 'z store_scheme" where
  "put_reserved v \<equiv> f_reserved_update (\<lambda>_. v)"
abbreviation put_pending :: "stored \<Rightarrow> 'z store_scheme \<Rightarrow> 'z store_scheme" where
  "put_pending v \<equiv> f_pending_update (\<lambda>_. v)"
abbreviation put_ack :: "pystr \<Rightarrow> stored \<Rightarrow> 'z store_scheme \<Rightarrow> 'z store_scheme" where
  "put_ack r v \<equiv> f_acks_update (\<lambda>acks. acks(r := v))"

section \<open>The state token\<close>

text \<open>The token of \<open>state.py\<close>: \<open>^[0-9a-f]{64}$\<close> also accepts a final line feed.\<close>

definition TOKEN_PATTERN :: "pystr \<Rightarrow> bool" where
  "TOKEN_PATTERN s \<longleftrightarrow>
    (let body = (if s \<noteq> [] \<and> last s = 10 then butlast s else s) in
     length body = 64 \<and> list_all (\<lambda>c. 48 \<le> c \<and> c \<le> 57 \<or> 97 \<le> c \<and> c \<le> 102) body)"

definition validate_supervisor_state_token :: "pystr \<Rightarrow> pystr res" where
  "validate_supervisor_state_token token =
    (if token = [] then Raise (SupervisorStateTokenError ''LUBKO_SUPERVISOR_STATE_TOKEN is required but empty'')
     else if \<not> TOKEN_PATTERN token
       then Raise (SupervisorStateTokenError ''LUBKO_SUPERVISOR_STATE_TOKEN is invalid'')
     else Ok token)"

definition supervisor_state_token :: "pystr \<Rightarrow> pystr option res" where
  "supervisor_state_token raw =
    (if raw = [] then Ok None else ebind (validate_supervisor_state_token raw) (\<lambda>t. Ok (Some t)))"

text \<open>\<open>supervisor_private_dir\<close> and \<open>state_path\<close>: no private path without the token.\<close>

definition supervisor_private_dir :: "'z store_scheme \<Rightarrow> unit res" where
  "supervisor_private_dir s = ebind (supervisor_state_token (f_token s)) (\<lambda>token.
     if token = None then Raise (SupervisorStateTokenError
       ''LUBKO_SUPERVISOR_STATE_TOKEN is required to resolve private supervisor authority paths'')
     else Ok ())"

definition state_path :: "'z store_scheme \<Rightarrow> unit res" where
  "state_path s = ebind (supervisor_state_token (f_token s)) (\<lambda>token.
     if token = None then Raise (SupervisorStateTokenError
       ''LUBKO_SUPERVISOR_STATE_TOKEN is required to resolve state_path'')
     else Ok ())"

section \<open>The desired intent and the daemon state\<close>

definition relabel_durability :: "string \<Rightarrow> ('s, 'a) eff \<Rightarrow> ('s, 'a) eff" where
  "relabel_durability msg m = io_catch m (\<lambda>e. case e of
      DurabilityError _ \<Rightarrow> io_raise (DurabilityError msg) | _ \<Rightarrow> io_raise e)"

definition write_desired :: "SupervisorDesired \<Rightarrow> ('z, unit) sio" where
  "write_desired d = relabel_durability ''failed to durably write desired intent''
     (io_bind (io_read supervisor_private_dir) (\<lambda>_.
       durable_put put_desired (holding (desired_to_dict d))))"

definition load_desired :: "stored \<Rightarrow> SupervisorDesired option res" where
  "load_desired f = (case read_text f of
      Inl FileNotFoundError \<Rightarrow> Ok None
    | Inl OSError \<Rightarrow> Raise (DesiredIntentError ''cannot read the supervisor desired intent'')
    | Inl e \<Rightarrow> Raise e
    | Inr v \<Rightarrow> (case json_loads v of
          Inl _ \<Rightarrow> Raise (DesiredIntentError ''the supervisor desired intent is not valid JSON'')
        | Inr (JObj d) \<Rightarrow> (case desired_from_dict d of
              Inl _ \<Rightarrow> Raise (DesiredIntentError ''the supervisor desired intent is malformed'')
            | Inr r \<Rightarrow> if sd_schema_version r \<noteq> SCHEMA_VERSION
                then Raise (DesiredIntentError ''unsupported supervisor desired intent version '')
                else Ok (Some r))
        | Inr _ \<Rightarrow> Raise (DesiredIntentError ''the supervisor desired intent must be an object'')))"

definition read_desired_strict :: "'z store_scheme \<Rightarrow> SupervisorDesired option res" where
  "read_desired_strict s = ebind (supervisor_private_dir s) (\<lambda>_. load_desired (f_desired s))"

definition read_desired :: "'z store_scheme \<Rightarrow> SupervisorDesired option res" where
  "read_desired s = (case read_desired_strict s of Inl (DesiredIntentError _) \<Rightarrow> Ok None | r \<Rightarrow> r)"

definition write_state :: "SupervisorState \<Rightarrow> ('z, unit) sio" where
  "write_state st = relabel_durability ''failed to durably write supervisor state''
     (io_bind (io_read state_path) (\<lambda>_. durable_put put_state (holding (state_to_dict st))))"

definition held_state :: SupervisorState where
  "held_state = fresh_state\<lparr>ss_ownership_hold_malformed := True\<rparr>"

definition load_state :: "stored \<Rightarrow> SupervisorState res" where
  "load_state f = (case read_text f of
      Inl FileNotFoundError \<Rightarrow> Ok fresh_state
    | Inl OSError \<Rightarrow> Ok held_state
    | Inl e \<Rightarrow> Raise e
    | Inr v \<Rightarrow> (case json_loads v of
          Inl _ \<Rightarrow> Ok held_state
        | Inr (JObj d) \<Rightarrow>
            if strict_int (dict_get d ''schema_version'') \<noteq> Some SCHEMA_VERSION then Ok held_state
            else state_from_dict d
        | Inr _ \<Rightarrow> Ok held_state))"

definition read_state :: "'z store_scheme \<Rightarrow> SupervisorState res" where
  "read_state s = ebind (state_path s) (\<lambda>_. load_state (f_state s))"

definition keep_authority :: "SupervisorState \<Rightarrow> SupervisorState \<Rightarrow> SupervisorState" where
  "keep_authority current st = st\<lparr>ss_spawning := ss_spawning current,
     ss_spawning_hold_malformed := ss_spawning_hold_malformed current,
     ss_unresolved_child := ss_unresolved_child current,
     ss_unresolved_hold_malformed := ss_unresolved_hold_malformed current,
     ss_ownership_hold_malformed := ss_ownership_hold_malformed current\<rparr>"

definition write_state_preserving_authority :: "SupervisorState \<Rightarrow> ('z, unit) sio" where
  "write_state_preserving_authority st = under_lock ConsumerLockTimeoutError
     (io_bind (io_read read_state) (\<lambda>current. write_state (keep_authority current st)))"

section \<open>Missions and generations\<close>

definition read_rollback_state :: "stored \<Rightarrow> RollbackState option res" where
  "read_rollback_state f = (case read_text f of
      Inl FileNotFoundError \<Rightarrow> Ok None
    | Inl OSError \<Rightarrow> Raise (DeployCtlError ''cannot read supervised deployment state: '')
    | Inl e \<Rightarrow> Raise e
    | Inr v \<Rightarrow> (case json_loads v of
          Inl _ \<Rightarrow> Raise (DeployCtlError ''supervised deployment state is not valid JSON'')
        | Inr (JObj d) \<Rightarrow> ebind (mission_from_dict d) (\<lambda>r.
            ebind (normalize_parsed_state r) (\<lambda>m. Ok (Some m)))
        | Inr _ \<Rightarrow> Raise (DeployCtlError ''supervised deployment state must be an object'')))"

text \<open>\<open>path.lstat()\<close> sees an entry whether or not its target can be read.\<close>

definition mission_state_exists_strict :: "stored \<Rightarrow> bool res" where
  "mission_state_exists_strict f = (case f of
      Missing \<Rightarrow> Ok False
    | Hidden \<Rightarrow> Raise (DesiredIntentError ''cannot inspect supervised deployment mission state: '')
    | _ \<Rightarrow> Ok True)"

definition mission_generation :: "stored \<Rightarrow> int res" where
  "mission_generation f = (case read_rollback_state f of
      Inl (DeployCtlError m) \<Rightarrow> Raise (MissionAuthorityError m)
    | Inl e \<Rightarrow> Raise e
    | Inr None \<Rightarrow> Ok 0
    | Inr (Some m) \<Rightarrow> Ok (rs_generation m))"

text \<open>\<open>isinstance(gen, int)\<close> also holds for the JSON value true, which counts as 1.\<close>

definition load_reserved :: "stored \<Rightarrow> int res" where
  "load_reserved f = (case read_text f of
      Inl FileNotFoundError \<Rightarrow> Ok 0
    | Inl OSError \<Rightarrow> Raise (MissionAuthorityError ''cannot read reserved generation authority'')
    | Inl e \<Rightarrow> Raise e
    | Inr v \<Rightarrow> (case json_loads v of
          Inl _ \<Rightarrow> Raise (MissionAuthorityError ''reserved generation authority is malformed JSON'')
        | Inr (JObj d) \<Rightarrow> (case dict_get d ''generation'' of
              JInt i \<Rightarrow> if i \<le> 0
                then Raise (MissionAuthorityError ''reserved generation authority has invalid generation'')
                else Ok i
            | JBool True \<Rightarrow> Ok 1
            | _ \<Rightarrow> Raise (MissionAuthorityError ''reserved generation authority has invalid generation''))
        | Inr _ \<Rightarrow> Raise (MissionAuthorityError ''reserved generation authority is not a JSON object'')))"

definition reserved_generation :: "'z store_scheme \<Rightarrow> int res" where
  "reserved_generation s = ebind (supervisor_private_dir s) (\<lambda>_. load_reserved (f_reserved s))"

definition next_generation :: "'z store_scheme \<Rightarrow> int res" where
  "next_generation s =
    ebind (read_state s) (\<lambda>state.
    ebind (read_desired_strict s) (\<lambda>desired.
    ebind (mission_generation (f_mission s)) (\<lambda>mission.
    ebind (reserved_generation s) (\<lambda>reserved.
      Ok (max (max (max (ss_applied_generation state)
             (case desired of None \<Rightarrow> 0 | Some d \<Rightarrow> sd_generation d)) mission) reserved + 1)))))"

definition write_run_intent_locked ::
    "pystr \<Rightarrow> pystr \<Rightarrow> pystr \<Rightarrow> pystr option \<Rightarrow> bool \<Rightarrow> bool \<Rightarrow> ('z, int) sio" where
  "write_run_intent_locked commit repo uv_path worker_id restart migration =
    io_bind (io_read next_generation) (\<lambda>generation.
    io_bind time_time (\<lambda>now.
    io_bind (write_desired \<lparr>sd_schema_version = SCHEMA_VERSION, sd_generation = generation,
        sd_commit = commit, sd_repo = repo, sd_uv_path = uv_path, sd_worker_id = worker_id,
        sd_restart = restart, sd_requested_at = now, sd_migration = migration\<rparr>) (\<lambda>_.
      io_return generation)))"

definition ensure_run_intent :: "pystr \<Rightarrow> pystr \<Rightarrow> pystr \<Rightarrow> pystr option \<Rightarrow> ('z, int) sio" where
  "ensure_run_intent commit repo uv_path worker_id =
    io_bind (io_read (\<lambda>s. supervisor_state_token (f_token s))) (\<lambda>token.
    if token = None then io_raise (SupervisorStateTokenError
      ''LUBKO_SUPERVISOR_STATE_TOKEN is required for direct ensure_run_intent'')
    else under_lock GenerationLockTimeoutError
      (io_bind (io_read read_desired_strict) (\<lambda>current. case current of
          Some d \<Rightarrow> if sd_commit d \<noteq> commit
            then io_raise (DesiredAuthorityConflictError ''supervisor desired commit '')
            else io_return (sd_generation d)
        | None \<Rightarrow> io_bind (io_read (\<lambda>s. mission_state_exists_strict (f_mission s))) (\<lambda>exists.
            if exists then io_raise (DesiredAuthorityConflictError
              ''cannot establish supervisor desired state while supervised deployment mission authority exists'')
            else write_run_intent_locked commit repo uv_path worker_id False False))))"

definition request_run ::
    "pystr \<Rightarrow> pystr \<Rightarrow> pystr \<Rightarrow> pystr option \<Rightarrow> bool \<Rightarrow> bool \<Rightarrow> ('z, int) sio" where
  "request_run commit repo uv_path worker_id restart migration =
    under_lock GenerationLockTimeoutError
      (write_run_intent_locked commit repo uv_path worker_id restart migration)"

definition request_restart :: "pystr \<Rightarrow> pystr \<Rightarrow> pystr \<Rightarrow> pystr option \<Rightarrow> ('z, int) sio" where
  "request_restart commit repo uv_path worker_id = request_run commit repo uv_path worker_id True False"

definition clear_migration_flag :: "int \<Rightarrow> ('z, bool) sio" where
  "clear_migration_flag generation = under_lock GenerationLockTimeoutError
    (io_bind (io_read read_desired) (\<lambda>current. case current of
        None \<Rightarrow> io_return False
      | Some d \<Rightarrow> if \<not> sd_migration d \<or> sd_generation d \<noteq> generation then io_return False
          else io_bind (write_desired (d\<lparr>sd_migration := False\<rparr>)) (\<lambda>_. io_return True)))"

section \<open>Pending install requests\<close>

definition validate_pending_request_id :: "pystr \<Rightarrow> pystr res" where
  "validate_pending_request_id request_id =
    (if length request_id \<noteq> 32 \<or> \<not> list_all (\<lambda>c. 48 \<le> c \<and> c \<le> 57 \<or> 97 \<le> c \<and> c \<le> 102) request_id
     then Raise (ValueError ''pending request_id must be exactly 32 lowercase hex chars'')
     else Ok request_id)"

definition write_pending_request ::
    "pystr \<Rightarrow> pystr \<Rightarrow> pystr \<Rightarrow> pystr option \<Rightarrow> pystr \<Rightarrow> ('z, unit) sio" where
  "write_pending_request commit repo uv_path worker_id request_id =
    io_bind (io_lift (validate_pending_request_id request_id)) (\<lambda>_.
    under_lock PendingRequestLockTimeoutError
      (durable_put put_pending (holding
        [(lit ''schema_version'', JInt SCHEMA_VERSION), (lit ''commit'', JStr commit),
         (lit ''repo'', JStr repo), (lit ''uv_path'', JStr uv_path),
         (lit ''worker_id'', opt_json JStr worker_id), (lit ''request_id'', JStr request_id)])))"

definition load_pending_request :: "stored \<Rightarrow> dict option res" where
  "load_pending_request f = (case read_text f of
      Inl FileNotFoundError \<Rightarrow> Ok None
    | Inl OSError \<Rightarrow> Ok None
    | Inl e \<Rightarrow> Raise e
    | Inr v \<Rightarrow> (case json_loads v of Inr (JObj d) \<Rightarrow> Ok (Some d) | _ \<Rightarrow> Ok None))"

definition write_pending_ack :: "pystr \<Rightarrow> bool \<Rightarrow> int option \<Rightarrow> string option \<Rightarrow> ('z, unit) sio" where
  "write_pending_ack request_id ok generation error = durable_put (put_ack request_id) (holding
     ([(lit ''ok'', JBool ok)]
      @ (case generation of None \<Rightarrow> [] | Some g \<Rightarrow> [(lit ''generation'', JInt g)])
      @ (case error of None \<Rightarrow> [] | Some e \<Rightarrow> [(lit ''error'', JStr (lit e))])))"

definition text_or :: "pystr \<Rightarrow> json \<Rightarrow> pystr" where
  "text_or dflt v = (case v of JStr s \<Rightarrow> s | _ \<Rightarrow> dflt)"

definition promote_pending_request_validated :: "dict \<Rightarrow> pystr \<Rightarrow> ('z, bool) sio" where
  "promote_pending_request_validated d request_id = (case dict_get d ''commit'' of
      JStr commit \<Rightarrow>
        if commit = [] then io_bind (write_pending_ack request_id False None (Some ''missing or invalid commit''))
          (\<lambda>_. io_return False)
        else io_bind (io_catch
            (io_bind (ensure_run_intent commit (text_or [] (dict_default d ''repo'' (JStr [])))
                (text_or [] (dict_default d ''uv_path'' (JStr []))) (optional_string (dict_get d ''worker_id'')))
              (\<lambda>g. io_return (Inr g)))
            (\<lambda>e. case e of
                DesiredAuthorityConflictError _ \<Rightarrow> io_return (Inl ''conflict with existing supervisor authority'')
              | DesiredIntentError _ \<Rightarrow> io_return (Inl ''supervisor authority is malformed or unreadable'')
              | MissionAuthorityError _ \<Rightarrow> io_return (Inl ''supervisor authority is malformed or unreadable'')
              | _ \<Rightarrow> io_raise e))
          (\<lambda>answer. case answer of
              Inl why \<Rightarrow> io_bind (write_pending_ack request_id False None (Some why)) (\<lambda>_. io_return False)
            | Inr g \<Rightarrow> io_bind (write_pending_ack request_id True (Some g) None) (\<lambda>_. io_return True))
    | _ \<Rightarrow> io_bind (write_pending_ack request_id False None (Some ''missing or invalid commit''))
          (\<lambda>_. io_return False))"

definition promote_pending_request :: "('z, bool) sio" where
  "promote_pending_request = under_lock PendingRequestLockTimeoutError
    (io_bind (io_read (\<lambda>s. load_pending_request (f_pending s))) (\<lambda>found. case found of
        None \<Rightarrow> io_return False
      | Some d \<Rightarrow> (case dict_get d ''request_id'' of
            JStr raw \<Rightarrow> (case validate_pending_request_id raw of
                Inl _ \<Rightarrow> io_bind (remove_durable_file put_pending) (\<lambda>_. io_return False)
              | Inr request_id \<Rightarrow> io_bind (promote_pending_request_validated d request_id) (\<lambda>processed.
                  io_bind (remove_durable_file put_pending) (\<lambda>_. io_return processed)))
          | _ \<Rightarrow> io_bind (remove_durable_file put_pending) (\<lambda>_. io_return False))))"

section \<open>Requests of the control socket\<close>

definition quoted :: "string \<Rightarrow> string" where
  "quoted s = CHR 0x27 # s @ [CHR 0x27]"

definition response_ok :: "dict \<Rightarrow> dict" where
  "response_ok extra = (lit ''ok'', JBool True) # extra"

definition response_error :: "string \<Rightarrow> dict" where
  "response_error msg = [(lit ''ok'', JBool False), (lit ''error'', JStr (lit msg))]"

text \<open>The handlers end with \<open>except Exception\<close>: nothing escapes them.\<close>

definition answering :: "(pyerr \<Rightarrow> string) \<Rightarrow> ('z, dict) sio \<Rightarrow> ('z, dict) sio" where
  "answering why m = io_catch m (\<lambda>e. io_return (response_error (why e)))"

definition handle_deploy_request :: "dict \<Rightarrow> ('z, dict) sio" where
  "handle_deploy_request payload =
    (case (dict_get payload ''commit'', dict_default payload ''repo'' (JStr []),
        dict_default payload ''uv_path'' (JStr []), dict_default payload ''restart'' (JBool False),
        dict_default payload ''migration'' (JBool False)) of
       (JStr commit, JStr repo, JStr uv_path, JBool restart, JBool migration) \<Rightarrow>
         if commit = [] then io_return (response_error (''missing or invalid '' @ quoted ''commit''))
         else answering (\<lambda>e. if e = GenerationLockTimeoutError then ''generation lock timed out''
               else ''failed to apply deploy request'')
           (io_bind (request_run commit repo uv_path (optional_string (dict_get payload ''worker_id''))
               restart migration) (\<lambda>g. io_return (response_ok [(lit ''generation'', JInt g)])))
     | (JStr commit, JStr _, JStr _, JBool _, _) \<Rightarrow> io_return (response_error
         (if commit = [] then (''missing or invalid '' @ quoted ''commit'') else (quoted ''migration'' @ '' must be a boolean'')))
     | (JStr commit, JStr _, JStr _, _, _) \<Rightarrow> io_return (response_error
         (if commit = [] then (''missing or invalid '' @ quoted ''commit'') else (quoted ''restart'' @ '' must be a boolean'')))
     | (JStr commit, JStr _, _, _, _) \<Rightarrow> io_return (response_error
         (if commit = [] then (''missing or invalid '' @ quoted ''commit'') else (''missing or invalid '' @ quoted ''uv_path'')))
     | (JStr commit, _, _, _, _) \<Rightarrow> io_return (response_error
         (if commit = [] then (''missing or invalid '' @ quoted ''commit'') else (''missing or invalid '' @ quoted ''repo'')))
     | _ \<Rightarrow> io_return (response_error (''missing or invalid '' @ quoted ''commit'')))"

definition handle_authority_snapshot_request :: "('z, dict) sio" where
  "handle_authority_snapshot_request s = (case read_desired_strict s of
      Inl _ \<Rightarrow> (Ok (response_error ''failed to read desired authority''), s)
    | Inr desired \<Rightarrow> (case read_state s of
          Inl _ \<Rightarrow> (Ok (response_error ''failed to read state authority''), s)
        | Inr state \<Rightarrow> (Ok (response_ok
            [(lit ''desired'', opt_json (\<lambda>d. JObj (desired_to_dict d)) desired),
             (lit ''state'', JObj (state_to_dict state))]), s)))"

definition handle_set_spawning_obligation :: "dict \<Rightarrow> ('z, dict) sio" where
  "handle_set_spawning_obligation payload = (case dict_get payload ''obligation'' of
      JObj d \<Rightarrow> (case spawning_from_dict d of
          Inl _ \<Rightarrow> io_return (response_error ''malformed spawning obligation: '')
        | Inr obligation \<Rightarrow> answering (\<lambda>_. ''failed to set spawning obligation'')
            (io_bind (io_read read_state) (\<lambda>current.
             io_bind (write_state_preserving_authority (current\<lparr>ss_spawning := Some obligation\<rparr>)) (\<lambda>_.
               io_return (response_ok [])))))
    | _ \<Rightarrow> io_return (response_error (''missing or invalid '' @ quoted ''obligation'')))"

definition handle_clear_spawning_obligation :: "('z, dict) sio" where
  "handle_clear_spawning_obligation = answering (\<lambda>_. ''failed to clear spawning obligation'')
    (io_bind (io_read read_state) (\<lambda>current.
     io_bind (write_state_preserving_authority (current\<lparr>ss_spawning := None\<rparr>)) (\<lambda>_.
       io_return (response_ok []))))"

definition handle_allocate_generation :: "('z, dict) sio" where
  "handle_allocate_generation =
    answering (\<lambda>e. if e = GenerationLockTimeoutError then ''generation lock timed out''
        else ''failed to allocate generation'')
      (under_lock GenerationLockTimeoutError
        (io_bind (io_read next_generation) (\<lambda>generation.
         io_bind (io_bind (io_read supervisor_private_dir) (\<lambda>_. durable_put put_reserved (holding [(lit ''generation'', JInt generation)]))) (\<lambda>_.
           io_return (response_ok [(lit ''generation'', JInt generation)])))))"

definition handle_ensure_run_intent :: "dict \<Rightarrow> ('z, dict) sio" where
  "handle_ensure_run_intent payload =
    (case (dict_get payload ''commit'', dict_default payload ''repo'' (JStr []),
        dict_default payload ''uv_path'' (JStr [])) of
       (JStr commit, JStr repo, JStr uv_path) \<Rightarrow>
         if commit = [] then io_return (response_error (''missing or invalid '' @ quoted ''commit''))
         else answering (\<lambda>e. case e of GenerationLockTimeoutError \<Rightarrow> ''generation lock timed out''
               | DesiredAuthorityConflictError m \<Rightarrow> m | _ \<Rightarrow> ''failed to ensure run intent'')
           (io_bind (ensure_run_intent commit repo uv_path (optional_string (dict_get payload ''worker_id'')))
             (\<lambda>g. io_return (response_ok [(lit ''generation'', JInt g)])))
     | (JStr commit, JStr _, _) \<Rightarrow> io_return (response_error
         (if commit = [] then (''missing or invalid '' @ quoted ''commit'') else (''missing or invalid '' @ quoted ''uv_path'')))
     | (JStr commit, _, _) \<Rightarrow> io_return (response_error
         (if commit = [] then (''missing or invalid '' @ quoted ''commit'') else (''missing or invalid '' @ quoted ''repo'')))
     | _ \<Rightarrow> io_return (response_error (''missing or invalid '' @ quoted ''commit'')))"

end
