(* ===== verification/AuthorityDb.thy ===== *)
theory AuthorityDb
  imports Authority
begin

text \<open>
  \<open>src/lubko/lifecycle_authority.py\<close>, second half: reading the authority row and changing it by
  compare-and-swap. The table maps row ids to payload text. Every operation is one or two database
  transactions, and a \<open>world\<close> says what happens around them: whether the connection holds in each
  (a lost connection may hide a commit that did land) and what other processes commit between the
  read and the update. Decisions are taken from the row that was read; \<open>perform\<close> runs a decision
  against the table.

  The last section states the abstract machine of an authority row and shows that the operations,
  interleaved in any way, move the row only along its transitions.
\<close>

section \<open>The table and the outside world\<close>

type_synonym table = "uuid \<rightharpoonup> pystr"

datatype link = Up | Down | AckLost

record world =
  w_read :: link
  w_others :: "table \<Rightarrow> table"
  w_commit :: link

definition quiet :: world where
  "quiet = \<lparr>w_read = Up, w_others = id, w_commit = Up\<rparr>"

definition select_payload :: "link \<Rightarrow> table \<Rightarrow> uuid \<Rightarrow> pystr option res" where
  "select_payload link db i = (if link = Up then Ok (db i) else Raise AuthorityUnavailableError)"

definition insert_payload :: "table \<Rightarrow> uuid \<Rightarrow> pystr \<Rightarrow> table" where
  "insert_payload db i payload = (if db i = None then db(i \<mapsto> payload) else db)"

definition update_payload :: "table \<Rightarrow> uuid \<Rightarrow> pystr \<Rightarrow> pystr \<Rightarrow> bool \<times> table" where
  "update_payload db i expected candidate =
    (if db i = Some expected then (True, db(i \<mapsto> candidate)) else (False, db))"

text \<open>\<open>stored = fetched[0]; if not isinstance(stored, str): stored = json.dumps(stored)\<close>.\<close>

definition stored_text :: "json \<Rightarrow> pystr res" where
  "stored_text fetched = (case fetched of JStr s \<Rightarrow> Ok s | v \<Rightarrow> dumps v)"

section \<open>Reads\<close>

definition read_authority :: "link \<Rightarrow> table \<Rightarrow> pystr \<Rightarrow> AuthorityRow option res" where
  "read_authority link db server =
    ebind (authority_row_id server) (\<lambda>row_id.
    ebind (select_payload link db row_id) (\<lambda>fetched. case fetched of
        None \<Rightarrow> Ok None
      | Some t \<Rightarrow> ebind (parse_authority_payload (JStr t) server) (\<lambda>r. Ok (Some r))))"

definition read_stored_payload :: "link \<Rightarrow> table \<Rightarrow> pystr \<Rightarrow> pystr option res" where
  "read_stored_payload link db server =
    ebind (authority_row_id server) (\<lambda>row_id.
    ebind (select_payload link db row_id) (\<lambda>fetched. case fetched of
        None \<Rightarrow> Ok None
      | Some t \<Rightarrow> ebind (stored_text (JStr t)) (\<lambda>stored. Ok (Some stored))))"

definition read_observed :: "link \<Rightarrow> table \<Rightarrow> pystr \<Rightarrow> (pystr \<times> AuthorityRow option) res" where
  "read_observed link db server =
    ebind (authority_row_id server) (\<lambda>row_id.
    ebind (select_payload link db row_id) (\<lambda>fetched. case fetched of
        None \<Rightarrow> Ok ([], None)
      | Some t \<Rightarrow>
          ebind (stored_text (JStr t)) (\<lambda>stored.
          ebind (parse_authority_payload (JStr stored) server) (\<lambda>r. Ok (stored, Some r)))))"

text \<open>One transaction inserts and reads back; other commits may land between its two statements.\<close>

definition bootstrap_authority :: "world \<Rightarrow> table \<Rightarrow> pystr \<Rightarrow> AuthorityRow res \<times> table" where
  "bootstrap_authority w db server = (case authority_row_id server of
      Inl e \<Rightarrow> (Inl e, db)
    | Inr row_id \<Rightarrow>
        if w_commit w = Down then (Raise AuthorityUnavailableError, db)
        else (case neutral_payload server of
            Inl e \<Rightarrow> (Inl e, db)
          | Inr payload \<Rightarrow>
              let db' = w_others w (insert_payload db row_id payload) in
              if w_commit w = AckLost then (Raise AuthorityUnavailableError, db')
              else (case db' row_id of
                  None \<Rightarrow> (Raise AuthorityUnavailableError, db')
                | Some t \<Rightarrow> (parse_authority_payload (JStr t) server, db'))))"

section \<open>Guarded updates\<close>

definition compare_and_swap ::
    "link \<Rightarrow> table \<Rightarrow> pystr \<Rightarrow> pystr \<Rightarrow> pystr \<Rightarrow> bool res \<times> table" where
  "compare_and_swap link db server expected candidate = (case authority_row_id server of
      Inl e \<Rightarrow> (Inl e, db)
    | Inr row_id \<Rightarrow> (case link of
        Down \<Rightarrow> (Raise AuthorityUnavailableError, db)
      | Up \<Rightarrow> (let (won, db') = update_payload db row_id expected candidate in (Ok won, db'))
      | AckLost \<Rightarrow>
          (Raise AuthorityUnavailableError, snd (update_payload db row_id expected candidate))))"

text \<open>\<open>_compare_and_swap(conn, server, expected, canonical_row_text(updated))\<close> and what the caller
  returns for each outcome. The candidate is built before the transaction opens.\<close>

definition swap_row ::
    "world \<Rightarrow> table \<Rightarrow> pystr \<Rightarrow> pystr \<Rightarrow> AuthorityRow \<Rightarrow> (bool \<Rightarrow> 'a res) \<Rightarrow> 'a res \<times> table" where
  "swap_row w db server expected updated k = (case canonical_row_text updated of
      Inl e \<Rightarrow> (Inl e, db)
    | Inr candidate \<Rightarrow>
        (case compare_and_swap (w_commit w) (w_others w db) server expected candidate of
            (Inl e, db') \<Rightarrow> (Inl e, db')
          | (Inr won, db') \<Rightarrow> (k won, db')))"

datatype 'a decision = Answer "'a res" | Swap pystr AuthorityRow "bool \<Rightarrow> 'a res"

definition perform ::
    "world \<Rightarrow> table \<Rightarrow> pystr \<Rightarrow> ((pystr \<times> AuthorityRow option) res \<Rightarrow> 'a decision) \<Rightarrow> 'a res \<times> table"
    where
  "perform w db server decide = (case decide (read_observed (w_read w) db server) of
      Answer r \<Rightarrow> (r, db)
    | Swap expected updated k \<Rightarrow> swap_row w db server expected updated k)"

definition claim_owner :: "AuthorityClaim \<Rightarrow> AuthorityRow \<Rightarrow> AuthorityOwner res" where
  "claim_owner claim current = (case ar_owner current of
      None \<Rightarrow> Raise (AuthorityError ''lifecycle authority fencing epoch no longer matches the claim'')
    | Some ow \<Rightarrow>
        if ar_epoch current \<noteq> ac_epoch claim
          then Raise (AuthorityError ''lifecycle authority fencing epoch no longer matches the claim'')
        else if ao_pid ow \<noteq> ac_pid claim \<or> ao_start_time_ticks ow \<noteq> ac_start_time_ticks claim
            \<or> ao_boot_id ow \<noteq> ac_boot_id claim
          then Raise (AuthorityError ''lifecycle authority fencing epoch no longer matches the claim'')
        else Ok ow)"

definition no_row :: "'a decision" where
  "no_row = Answer (Raise (AuthorityError ''no lifecycle authority row for server; bootstrap first''))"

definition take_decision ::
    "AuthorityOwner \<Rightarrow> (pystr \<times> AuthorityRow option) res \<Rightarrow> AuthorityRow option decision" where
  "take_decision owner observed = (case observed of
      Inl e \<Rightarrow> Answer (Inl e)
    | Inr (_, None) \<Rightarrow> no_row
    | Inr (expected, Some current) \<Rightarrow>
        if ar_owner current = Some owner then Answer (Ok (Some current))
        else let updated = current\<lparr>ar_epoch := ar_epoch current + 1, ar_owner := Some owner\<rparr> in
          Swap expected updated (\<lambda>won. Ok (if won then Some updated else None)))"

definition take_authority ::
    "world \<Rightarrow> table \<Rightarrow> pystr \<Rightarrow> AuthorityOwner \<Rightarrow> AuthorityRow option res \<times> table" where
  "take_authority w db server owner = perform w db server (take_decision owner)"

definition commit_spawn_decision ::
    "AuthorityClaim \<Rightarrow> SpawnObligation \<Rightarrow> (pystr \<times> AuthorityRow option) res \<Rightarrow> bool decision" where
  "commit_spawn_decision claim spawn observed = (case observed of
      Inl e \<Rightarrow> Answer (Inl e)
    | Inr (_, None) \<Rightarrow> no_row
    | Inr (expected, Some current) \<Rightarrow> (case claim_owner claim current of
        Inl e \<Rightarrow> Answer (Inl e)
      | Inr owner \<Rightarrow>
          if ar_spawn current \<noteq> None \<or> ar_worker current \<noteq> None then Answer (Ok False)
          else Swap expected
            (current\<lparr>ar_owner := Some owner, ar_spawn := Some spawn, ar_worker := None\<rparr>) Ok))"

definition commit_spawn_obligation ::
    "world \<Rightarrow> table \<Rightarrow> AuthorityClaim \<Rightarrow> SpawnObligation \<Rightarrow> bool res \<times> table" where
  "commit_spawn_obligation w db claim spawn =
    perform w db (ac_server claim) (commit_spawn_decision claim spawn)"

definition clear_spawn_decision ::
    "AuthorityClaim \<Rightarrow> (pystr \<times> AuthorityRow option) res \<Rightarrow> bool decision" where
  "clear_spawn_decision claim observed = (case observed of
      Inl (AuthorityError m) \<Rightarrow> Answer (Ok False)
    | Inl e \<Rightarrow> Answer (Inl e)
    | Inr (_, None) \<Rightarrow> Answer (Ok False)
    | Inr (expected, Some current) \<Rightarrow> (case claim_owner claim current of
        Inl (AuthorityError m) \<Rightarrow> Answer (Ok False)
      | Inl e \<Rightarrow> Answer (Inl e)
      | Inr owner \<Rightarrow>
          if ar_spawn current = None then Answer (Ok True)
          else Swap expected (current\<lparr>ar_owner := Some owner, ar_spawn := None\<rparr>) Ok))"

definition clear_spawn_obligation :: "world \<Rightarrow> table \<Rightarrow> AuthorityClaim \<Rightarrow> bool res \<times> table" where
  "clear_spawn_obligation w db claim = perform w db (ac_server claim) (clear_spawn_decision claim)"

definition publish_decision ::
    "AuthorityClaim \<Rightarrow> pystr \<Rightarrow> WorkerRecord \<Rightarrow> (pystr \<times> AuthorityRow option) res \<Rightarrow> bool decision" where
  "publish_decision claim spawn_token worker observed = (case observed of
      Inl e \<Rightarrow> Answer (Inl e)
    | Inr (_, None) \<Rightarrow> no_row
    | Inr (expected, Some current) \<Rightarrow> (case claim_owner claim current of
        Inl (AuthorityError m) \<Rightarrow> Answer (Ok False)
      | Inl e \<Rightarrow> Answer (Inl e)
      | Inr owner \<Rightarrow>
          if map_option so_token (ar_spawn current) \<noteq> Some spawn_token then Answer (Ok False)
          else if ar_worker current \<noteq> None then Answer (Ok False)
          else if wr_token worker \<noteq> spawn_token then Answer (Raise (AuthorityError
            ''published worker identity must name the obligated incarnation''))
          else Swap expected
            (current\<lparr>ar_owner := Some owner, ar_spawn := None, ar_worker := Some worker\<rparr>) Ok))"

definition publish_worker ::
    "world \<Rightarrow> table \<Rightarrow> AuthorityClaim \<Rightarrow> pystr \<Rightarrow> WorkerRecord \<Rightarrow> bool res \<times> table" where
  "publish_worker w db claim spawn_token worker =
    perform w db (ac_server claim) (publish_decision claim spawn_token worker)"

definition clear_worker_decision ::
    "AuthorityClaim \<Rightarrow> pystr \<Rightarrow> (pystr \<times> AuthorityRow option) res \<Rightarrow> bool decision" where
  "clear_worker_decision claim token observed = (case observed of
      Inl (AuthorityError m) \<Rightarrow> Answer (Ok False)
    | Inl e \<Rightarrow> Answer (Inl e)
    | Inr (_, None) \<Rightarrow> Answer (Ok False)
    | Inr (expected, Some current) \<Rightarrow> (case claim_owner claim current of
        Inl (AuthorityError m) \<Rightarrow> Answer (Ok False)
      | Inl e \<Rightarrow> Answer (Inl e)
      | Inr owner \<Rightarrow> (case ar_worker current of
          None \<Rightarrow> Answer (Ok True)
        | Some published \<Rightarrow>
            if wr_token published \<noteq> token then Answer (Ok False)
            else Swap expected (current\<lparr>ar_owner := Some owner, ar_worker := None\<rparr>) Ok)))"

definition clear_worker :: "world \<Rightarrow> table \<Rightarrow> AuthorityClaim \<Rightarrow> pystr \<Rightarrow> bool res \<times> table" where
  "clear_worker w db claim token = perform w db (ac_server claim) (clear_worker_decision claim token)"

definition confirm_authority :: "link \<Rightarrow> table \<Rightarrow> AuthorityClaim \<Rightarrow> bool res" where
  "confirm_authority link db claim = (case read_authority link db (ac_server claim) of
      Inl (AuthorityError m) \<Rightarrow> Ok False
    | Inl e \<Rightarrow> Raise e
    | Inr None \<Rightarrow> Ok False
    | Inr (Some row) \<Rightarrow>
        if ar_epoch row \<noteq> ac_epoch claim then Ok False
        else (case ar_owner row of
            None \<Rightarrow> Ok False
          | Some ow \<Rightarrow> Ok (ao_pid ow = ac_pid claim \<and> ao_start_time_ticks ow = ac_start_time_ticks claim
              \<and> ao_boot_id ow = ac_boot_id claim)))"

section \<open>Migration from version 1\<close>

record V1LegacyEvidence =
  ev_live_worker :: "WorkerRecord option"
  ev_worker_ambiguous :: bool
  ev_spawn :: "SpawnObligation option"
  ev_spawn_ambiguous :: bool

definition no_evidence :: V1LegacyEvidence where
  "no_evidence = \<lparr>ev_live_worker = None, ev_worker_ambiguous = False, ev_spawn = None,
     ev_spawn_ambiguous = False\<rparr>"

definition check_migration_evidence :: "V1LegacyEvidence \<Rightarrow> unit res" where
  "check_migration_evidence proven =
    (if ev_worker_ambiguous proven \<or> ev_spawn_ambiguous proven
       then Raise (AuthorityError ''legacy local authority is malformed or ambiguous; holding on v1'')
     else if ev_live_worker proven \<noteq> None \<and> ev_spawn proven \<noteq> None
       then Raise (AuthorityError ''legacy local authority names both a live worker and a blocking spawn'')
     else Ok ())"

definition resolve_migration_sections ::
    "AuthorityRow \<Rightarrow> V1LegacyEvidence \<Rightarrow> (SpawnObligation option \<times> WorkerRecord option) res" where
  "resolve_migration_sections legacy proven =
    (let spawn = (if ar_spawn legacy \<noteq> None then ar_spawn legacy else ev_spawn proven);
         worker = (if ar_worker legacy \<noteq> None then ar_worker legacy else ev_live_worker proven)
     in if ar_spawn legacy \<noteq> None \<and> ev_spawn proven \<noteq> None \<and> ar_spawn legacy \<noteq> ev_spawn proven
          then Raise (AuthorityError ''legacy row and local evidence disagree on the blocking spawn'')
        else if ar_worker legacy \<noteq> None \<and> ev_live_worker proven \<noteq> None
            \<and> ar_worker legacy \<noteq> ev_live_worker proven
          then Raise (AuthorityError ''legacy row and local evidence disagree on the published worker'')
        else if spawn \<noteq> None \<and> worker \<noteq> None
          then Raise (AuthorityError ''migration cannot carry both a spawn obligation and a published worker'')
        else Ok (spawn, worker))"

definition migration_row ::
    "pystr \<Rightarrow> AuthorityRow \<Rightarrow> SpawnObligation option \<Rightarrow> WorkerRecord option \<Rightarrow> AuthorityRow" where
  "migration_row server legacy spawn worker = \<lparr>ar_server = server, ar_epoch = ar_epoch legacy,
     ar_generation = ar_generation legacy, ar_owner = ar_owner legacy, ar_spawn = spawn,
     ar_worker = worker\<rparr>"

definition migrate_decision ::
    "pystr \<Rightarrow> V1LegacyEvidence \<Rightarrow> pystr option res \<Rightarrow> bool decision" where
  "migrate_decision server proven fetched = (case fetched of
      Inl e \<Rightarrow> Answer (Inl e)
    | Inr None \<Rightarrow> no_row
    | Inr (Some stored) \<Rightarrow> (case parse_authority_payload (JStr stored) server of
        Inr _ \<Rightarrow> Answer (Ok True)
      | Inl (AuthorityError m) \<Rightarrow>
          (case ebind (parse_v1_payload (JStr stored) server) (\<lambda>legacy.
                ebind (resolve_migration_sections legacy proven) (\<lambda>(spawn, worker).
                  Ok (migration_row server legacy spawn worker))) of
              Inl e \<Rightarrow> Answer (Inl e)
            | Inr row \<Rightarrow> Swap stored row Ok)
      | Inl e \<Rightarrow> Answer (Inl e)))"

definition migrate_v1_to_v2 ::
    "world \<Rightarrow> table \<Rightarrow> pystr \<Rightarrow> V1LegacyEvidence option \<Rightarrow> bool res \<times> table" where
  "migrate_v1_to_v2 w db server evidence =
    (let proven = (case evidence of None \<Rightarrow> no_evidence | Some ev \<Rightarrow> ev) in
     case check_migration_evidence proven of
       Inl e \<Rightarrow> (Inl e, db)
     | Inr _ \<Rightarrow> (case migrate_decision server proven (read_stored_payload (w_read w) db server) of
           Answer r \<Rightarrow> (r, db)
         | Swap expected updated k \<Rightarrow> swap_row w db server expected updated k))"

section \<open>The abstract machine of an authority row\<close>

datatype event =
    Taken AuthorityOwner
  | Obliged SpawnObligation
  | SpawnCleared
  | Published WorkerRecord
  | WorkerCleared

inductive authority_trans :: "AuthorityRow \<Rightarrow> event \<Rightarrow> AuthorityRow \<Rightarrow> bool" where
  take: "ar_owner r \<noteq> Some ow \<Longrightarrow>
    authority_trans r (Taken ow) (r\<lparr>ar_epoch := ar_epoch r + 1, ar_owner := Some ow\<rparr>)"
| oblige: "ar_owner r \<noteq> None \<Longrightarrow> ar_spawn r = None \<Longrightarrow> ar_worker r = None \<Longrightarrow>
    authority_trans r (Obliged s) (r\<lparr>ar_spawn := Some s\<rparr>)"
| clear_spawn: "ar_owner r \<noteq> None \<Longrightarrow> ar_spawn r \<noteq> None \<Longrightarrow>
    authority_trans r SpawnCleared (r\<lparr>ar_spawn := None\<rparr>)"
| publish: "ar_owner r \<noteq> None \<Longrightarrow> ar_spawn r = Some s \<Longrightarrow> ar_worker r = None \<Longrightarrow>
    wr_token w = so_token s \<Longrightarrow>
    authority_trans r (Published w) (r\<lparr>ar_spawn := None, ar_worker := Some w\<rparr>)"
| clear_worker: "ar_owner r \<noteq> None \<Longrightarrow> ar_worker r \<noteq> None \<Longrightarrow>
    authority_trans r WorkerCleared (r\<lparr>ar_worker := None\<rparr>)"

inductive authority_trace :: "AuthorityRow \<Rightarrow> event list \<Rightarrow> AuthorityRow \<Rightarrow> bool" where
  start: "authority_trace r [] r"
| step: "authority_trace r evs r' \<Longrightarrow> authority_trans r' ev r'' \<Longrightarrow> authority_trace r (evs @ [ev]) r''"

definition occupied :: "AuthorityRow \<Rightarrow> nat" where
  "occupied r = (if ar_spawn r \<noteq> None then 1 else 0) + (if ar_worker r \<noteq> None then 1 else 0)"

definition is_obliged :: "event \<Rightarrow> bool" where
  "is_obliged ev = (case ev of Obliged _ \<Rightarrow> True | _ \<Rightarrow> False)"

definition is_released :: "event \<Rightarrow> bool" where
  "is_released ev = (ev = SpawnCleared \<or> ev = WorkerCleared)"

section \<open>Processes sharing one row\<close>

datatype authority_op =
    OpTake AuthorityOwner
  | OpCommitSpawn AuthorityClaim SpawnObligation
  | OpClearSpawn AuthorityClaim
  | OpPublish AuthorityClaim pystr WorkerRecord
  | OpClearWorker AuthorityClaim pystr

text \<open>The row update an operation attempts after its read, if it attempts one.\<close>

definition swap_of :: "'a decision \<Rightarrow> (pystr \<times> AuthorityRow) option" where
  "swap_of d = (case d of Answer _ \<Rightarrow> None | Swap expected updated _ \<Rightarrow> Some (expected, updated))"

fun op_swap :: "authority_op \<Rightarrow> (pystr \<times> AuthorityRow option) res \<Rightarrow> (pystr \<times> AuthorityRow) option" where
  "op_swap (OpTake owner) observed = swap_of (take_decision owner observed)"
| "op_swap (OpCommitSpawn claim spawn) observed = swap_of (commit_spawn_decision claim spawn observed)"
| "op_swap (OpClearSpawn claim) observed = swap_of (clear_spawn_decision claim observed)"
| "op_swap (OpPublish claim token worker) observed = swap_of (publish_decision claim token worker observed)"
| "op_swap (OpClearWorker claim token) observed = swap_of (clear_worker_decision claim token observed)"

fun op_event :: "authority_op \<Rightarrow> event" where
  "op_event (OpTake owner) = Taken owner"
| "op_event (OpCommitSpawn claim spawn) = Obliged spawn"
| "op_event (OpClearSpawn claim) = SpawnCleared"
| "op_event (OpPublish claim token worker) = Published worker"
| "op_event (OpClearWorker claim token) = WorkerCleared"

fun event_clean :: "event \<Rightarrow> bool" where
  "event_clean (Taken owner) = clean_owner owner"
| "event_clean (Obliged spawn) = clean_spawn spawn"
| "event_clean (Published worker) = clean_worker worker"
| "event_clean _ = True"

text \<open>A process that has read and decided waits with its operation, guard text and candidate text.\<close>

record system =
  sy_db :: table
  sy_pending :: "nat \<rightharpoonup> authority_op \<times> pystr \<times> pystr"
  sy_log :: "event list"

inductive sys_step :: "pystr \<Rightarrow> system \<Rightarrow> system \<Rightarrow> bool" where
  decide: "op_swap op (read_observed Up (sy_db s) server) = Some (expected, updated) \<Longrightarrow>
    event_clean (op_event op) \<Longrightarrow>
    canonical_row_text updated = Inr candidate \<Longrightarrow> sy_pending s p = None \<Longrightarrow>
    sys_step server s (s\<lparr>sy_pending := (sy_pending s)(p \<mapsto> (op, expected, candidate))\<rparr>)"
| commit: "sy_pending s p = Some (op, expected, candidate) \<Longrightarrow> link \<noteq> Down \<Longrightarrow>
    authority_row_id server = Inr i \<Longrightarrow> sy_db s i = Some expected \<Longrightarrow>
    sys_step server s (s\<lparr>sy_db := snd (compare_and_swap link (sy_db s) server expected candidate),
      sy_pending := (sy_pending s)(p := None), sy_log := sy_log s @ [op_event op]\<rparr>)"
| lose: "sy_pending s p = Some (op, expected, candidate) \<Longrightarrow>
    link = Down \<or> authority_row_id server = Inr i \<and> sy_db s i \<noteq> Some expected \<Longrightarrow>
    sys_step server s (s\<lparr>sy_db := snd (compare_and_swap link (sy_db s) server expected candidate),
      sy_pending := (sy_pending s)(p := None)\<rparr>)"
| crash: "sys_step server s (s\<lparr>sy_pending := (sy_pending s)(p := None)\<rparr>)"
| bootstrap: "sys_step server s (s\<lparr>sy_db := snd (bootstrap_authority quiet (sy_db s) server)\<rparr>)"

definition stored_row :: "pystr \<Rightarrow> table \<Rightarrow> AuthorityRow option" where
  "stored_row server db = (case authority_row_id server of
      Inl _ \<Rightarrow> None
    | Inr i \<Rightarrow> (case db i of
        None \<Rightarrow> None
      | Some t \<Rightarrow> (case parse_authority_payload (JStr t) server of Inl _ \<Rightarrow> None | Inr r \<Rightarrow> Some r)))"

text \<open>Every waiting update moves a row along the transition of its operation.\<close>

definition pending_ok :: "pystr \<Rightarrow> system \<Rightarrow> bool" where
  "pending_ok server s \<longleftrightarrow> (\<forall>p op e c. sy_pending s p = Some (op, e, c) \<longrightarrow>
     (\<exists>cur u. parse_authority_payload (JStr e) server = Inr cur \<and> authority_trans cur (op_event op) u
        \<and> parse_authority_payload (JStr c) server = Inr u))"

text \<open>Concrete claim and tables.\<close>

definition sample_claim :: AuthorityClaim where
  "sample_claim = \<lparr>ac_server = sample_server, ac_epoch = 1, ac_pid = 7, ac_start_time_ticks = 9,
     ac_boot_id = lit ''b''\<rparr>"

definition sample_table :: "AuthorityRow \<Rightarrow> table" where
  "sample_table row = (case (authority_row_id sample_server, canonical_row_text row) of
      (Inr i, Inr t) \<Rightarrow> [i \<mapsto> t] | _ \<Rightarrow> Map.empty)"

definition sample_system :: system where
  "sample_system = \<lparr>sy_db = sample_table (neutral_row sample_server), sy_pending = Map.empty, sy_log = []\<rparr>"

definition sample_v1 :: dict where
  "sample_v1 = [(lit ''v'', JInt 1), (lit ''type'', JStr AUTHORITY_TYPE),
     (lit ''server'', JStr sample_server), (lit ''epoch'', JInt 3), (lit ''generation'', JInt 1)]"

inductive_cases authority_transE: "authority_trans r ev r'"

section \<open>Transitions of the abstract machine\<close>

lemma trans_frame:
  "authority_trans r ev r' \<Longrightarrow> ar_server r' = ar_server r \<and> ar_generation r' = ar_generation r"
  by (auto elim: authority_transE)

lemma trans_clean: "authority_trans r ev r' \<Longrightarrow> clean_row r \<Longrightarrow> event_clean ev \<Longrightarrow> clean_row r'"
  by (auto elim!: authority_transE simp: clean_row_def)

lemma trans_exclusive:
  "authority_trans r ev r' \<Longrightarrow> ar_spawn r = None \<or> ar_worker r = None \<Longrightarrow>
   ar_spawn r' = None \<or> ar_worker r' = None"
  by (auto elim: authority_transE)

lemma trans_epoch:
  "authority_trans r ev r' \<Longrightarrow> ar_epoch r' = ar_epoch r \<and> ar_owner r' = ar_owner r
     \<or> ar_epoch r' = ar_epoch r + 1"
  by (auto elim: authority_transE)

lemma trans_occupied:
  "authority_trans r ev r' \<Longrightarrow> (if is_obliged ev then 1 else 0) + occupied r
     = (if is_released ev then 1 else 0) + occupied r'"
  by (auto elim!: authority_transE simp: is_obliged_def is_released_def occupied_def)

lemma trace_epoch:
  assumes "authority_trace r evs r'"
  shows "ar_epoch r \<le> ar_epoch r' \<and> (ar_epoch r = ar_epoch r' \<longrightarrow> ar_owner r = ar_owner r')"
  using assms
proof induction
  case (step r evs r' ev r'')
  then show ?case using trans_epoch [OF step.hyps(2)] by auto
qed simp

lemma trace_frame:
  "authority_trace r evs r' \<Longrightarrow> ar_server r' = ar_server r \<and> ar_generation r' = ar_generation r"
  by (induction rule: authority_trace.induct) (auto dest: trans_frame)

lemma trace_exclusive:
  "authority_trace r evs r' \<Longrightarrow> ar_spawn r = None \<or> ar_worker r = None \<Longrightarrow>
   ar_spawn r' = None \<or> ar_worker r' = None"
  by (induction rule: authority_trace.induct) (auto dest: trans_exclusive)

lemma trace_occupied:
  "authority_trace r evs r' \<Longrightarrow> length (filter is_obliged evs) + occupied r
     = length (filter is_released evs) + occupied r'"
proof (induction rule: authority_trace.induct)
  case (step r evs r' ev r'')
  then show ?case using trans_occupied [OF step.hyps(2)] by (auto split: if_splits)
qed simp

lemma exclusive_occupied: "ar_spawn r = None \<or> ar_worker r = None \<Longrightarrow> occupied r \<le> 1"
  by (auto simp: occupied_def)

section \<open>What each decision asks for\<close>

lemma claim_owner_Inr:
  "claim_owner claim r = Inr ow \<longleftrightarrow> ar_owner r = Some ow \<and> ar_epoch r = ac_epoch claim
     \<and> ao_pid ow = ac_pid claim \<and> ao_start_time_ticks ow = ac_start_time_ticks claim
     \<and> ao_boot_id ow = ac_boot_id claim"
  by (auto simp: claim_owner_def split: option.splits if_splits)

lemma same_owner:
  "ar_owner cur = Some ow \<Longrightarrow> ar_worker cur = None \<Longrightarrow>
     cur\<lparr>ar_owner := Some ow, ar_spawn := x, ar_worker := None\<rparr> = cur\<lparr>ar_spawn := x\<rparr>"
  "ar_owner cur = Some ow \<Longrightarrow> cur\<lparr>ar_owner := Some ow, ar_spawn := x\<rparr> = cur\<lparr>ar_spawn := x\<rparr>"
  "ar_owner cur = Some ow \<Longrightarrow> cur\<lparr>ar_owner := Some ow, ar_spawn := x, ar_worker := y\<rparr>
     = cur\<lparr>ar_spawn := x, ar_worker := y\<rparr>"
  "ar_owner cur = Some ow \<Longrightarrow> cur\<lparr>ar_owner := Some ow, ar_worker := y\<rparr> = cur\<lparr>ar_worker := y\<rparr>"
  by (cases cur, simp)+

lemma take_decision_Swap:
  "take_decision ow m = Swap e u k \<longleftrightarrow> (\<exists>cur. m = Inr (e, Some cur) \<and> ar_owner cur \<noteq> Some ow
     \<and> u = cur\<lparr>ar_epoch := ar_epoch cur + 1, ar_owner := Some ow\<rparr>
     \<and> k = (\<lambda>won. Ok (if won then Some u else None)))"
  by (auto simp: take_decision_def no_row_def Let_def split: sum.splits option.splits if_splits prod.splits)

lemma commit_spawn_decision_Swap:
  assumes "commit_spawn_decision claim s m = Swap e u k"
  obtains cur ow where "m = Inr (e, Some cur)" "claim_owner claim cur = Inr ow" "ar_spawn cur = None"
    "ar_worker cur = None" "u = cur\<lparr>ar_spawn := Some s\<rparr>" "k = Ok"
  using assms
  by (auto simp: commit_spawn_decision_def no_row_def claim_owner_Inr same_owner
      split: sum.splits option.splits if_splits prod.splits)

lemma clear_spawn_decision_Swap:
  assumes "clear_spawn_decision claim m = Swap e u k"
  obtains cur ow where "m = Inr (e, Some cur)" "claim_owner claim cur = Inr ow" "ar_spawn cur \<noteq> None"
    "u = cur\<lparr>ar_spawn := None\<rparr>" "k = Ok"
  using assms
  by (auto simp: clear_spawn_decision_def claim_owner_Inr same_owner
      split: sum.splits option.splits if_splits prod.splits pyerr.splits)

lemma publish_decision_Swap:
  assumes "publish_decision claim token w m = Swap e u k"
  obtains cur ow s where "m = Inr (e, Some cur)" "claim_owner claim cur = Inr ow"
    "ar_spawn cur = Some s" "so_token s = token" "ar_worker cur = None" "wr_token w = token"
    "u = cur\<lparr>ar_spawn := None, ar_worker := Some w\<rparr>" "k = Ok"
  using assms
  by (auto simp: publish_decision_def no_row_def claim_owner_Inr same_owner
      split: sum.splits option.splits if_splits prod.splits pyerr.splits)

lemma clear_worker_decision_Swap:
  assumes "clear_worker_decision claim token m = Swap e u k"
  obtains cur ow w where "m = Inr (e, Some cur)" "claim_owner claim cur = Inr ow"
    "ar_worker cur = Some w" "wr_token w = token" "u = cur\<lparr>ar_worker := None\<rparr>" "k = Ok"
  using assms
  by (auto simp: clear_worker_decision_def claim_owner_Inr same_owner
      split: sum.splits option.splits if_splits prod.splits pyerr.splits)

lemma trans_parse:
  assumes "parse_authority_payload (JStr e) server = Inr cur" "authority_trans cur ev u" "event_clean ev"
    and "canonical_row_text u = Inr c"
  shows "parse_authority_payload (JStr c) server = Inr u"
proof -
  have ok: "wf_row cur" "clean_row cur" "ar_server cur = server"
    using rows.parse_acceptable [OF assms(1)] by (auto simp: row_ok_def)
  have "parse_authority_payload (JStr c) (ar_server u) = Inr u"
    by (rule canonical_parse [OF assms(4) trans_clean [OF assms(2) ok(2) assms(3)]
          trans_exclusive [OF assms(2)]])
      (use ok in \<open>simp add: wf_row_def\<close>)
  then show ?thesis using trans_frame [OF assms(2)] ok by simp
qed

section \<open>The contract of a guarded operation\<close>

text \<open>
  What the compare-and-swap operations share: an update is attempted only on a row that was read, the
  guard is that row's text, and the new row is one transition of the abstract machine away.
\<close>

lemma read_observed_Inr:
  "read_observed link db server = Inr (e, Some cur) \<longleftrightarrow>
    (\<exists>i. authority_row_id server = Inr i \<and> link = Up \<and> db i = Some e
       \<and> parse_authority_payload (JStr e) server = Inr cur)"
  by (cases "authority_row_id server")
    (auto simp: read_observed_def select_payload_def stored_text_def split: option.splits)

lemma compare_and_swap_cases:
  assumes "authority_row_id server = Inr i"
  shows "compare_and_swap link db server e c =
    (if link = Up then Inr (db i = Some e) else Inl AuthorityUnavailableError,
     if link \<noteq> Down \<and> db i = Some e then db(i \<mapsto> c) else db)"
  using assms by (cases link) (auto simp: compare_and_swap_def update_payload_def)

locale guarded_op =
  fixes decide :: "(pystr \<times> AuthorityRow option) res \<Rightarrow> 'a decision"
    and ev :: event
  assumes swap_legal: "decide m = Swap e u k \<Longrightarrow>
    \<exists>cur. m = Inr (e, Some cur) \<and> authority_trans cur ev u"
begin

lemma perform_untouched:
  assumes "\<nexists>e u k. decide (read_observed (w_read w) db server) = Swap e u k"
  shows "snd (perform w db server decide) = db"
  using assms by (cases "decide (read_observed (w_read w) db server)") (auto simp: perform_def)

text \<open>Whatever happens, the table afterwards is the one others left, or that one with this row moved
  along one transition from exactly the row that was observed.\<close>

lemma perform_effect:
  assumes p: "perform w db server decide = (r, db')" and i: "authority_row_id server = Inr i"
    and clean: "event_clean ev"
  shows "db' = db \<or> db' = w_others w db \<or>
    (\<exists>e cur u c. db i = Some e \<and> w_others w db i = Some e
       \<and> parse_authority_payload (JStr e) server = Inr cur \<and> authority_trans cur ev u
       \<and> parse_authority_payload (JStr c) server = Inr u \<and> db' = (w_others w db)(i \<mapsto> c))"
proof (cases "decide (read_observed (w_read w) db server)")
  case (Answer a)
  then show ?thesis using p by (simp add: perform_def)
next
  case (Swap e u k)
  obtain cur where m: "read_observed (w_read w) db server = Inr (e, Some cur)"
    and t: "authority_trans cur ev u"
    using swap_legal [OF Swap] by blast
  have e: "db i = Some e" and cur: "parse_authority_payload (JStr e) server = Inr cur"
    using m i by (auto simp: read_observed_Inr)
  show ?thesis
  proof (cases "canonical_row_text u")
    case (Inl x)
    then show ?thesis using p Swap by (simp add: perform_def swap_row_def)
  next
    case (Inr c)
    have "parse_authority_payload (JStr c) server = Inr u" by (rule trans_parse [OF cur t clean Inr])
    then show ?thesis
      using p Swap Inr e cur t
      by (auto simp: perform_def swap_row_def compare_and_swap_cases [OF i] split: if_splits)
  qed
qed

text \<open>A decision taken on a row that changed in between commits nothing.\<close>

lemma stale_loses:
  assumes "authority_row_id server = Inr i" "w_others w db i \<noteq> db i"
  shows "snd (perform w db server decide) \<in> {db, w_others w db}"
proof (cases "decide (read_observed (w_read w) db server)")
  case (Answer a)
  then show ?thesis by (simp add: perform_def)
next
  case (Swap e u k)
  obtain cur where "read_observed (w_read w) db server = Inr (e, Some cur)"
    using swap_legal [OF Swap] by blast
  then have "db i = Some e" using assms by (auto simp: read_observed_Inr)
  with assms have "w_others w db i \<noteq> Some e" by simp
  then show ?thesis
    using Swap by (auto simp: perform_def swap_row_def compare_and_swap_cases [OF assms(1)]
        split: sum.splits)
qed

text \<open>An unreachable database is not changed.\<close>

lemma outage_keeps:
  assumes "w_read w \<noteq> Up \<or> w_commit w = Down"
  shows "snd (perform w db server decide) \<in> {db, w_others w db}"
proof (cases "decide (read_observed (w_read w) db server)")
  case (Answer a)
  then show ?thesis by (simp add: perform_def)
next
  case (Swap e u k)
  obtain cur i where "read_observed (w_read w) db server = Inr (e, Some cur)"
    "w_read w = Up" "authority_row_id server = Inr i"
    using swap_legal [OF Swap] by (auto simp: read_observed_Inr)
  with assms show ?thesis
    using Swap by (auto simp: perform_def swap_row_def compare_and_swap_cases split: sum.splits)
qed

text \<open>An operation that swaps behaves as if it ran alone at the instant of its commit.\<close>

lemma linearizes:
  assumes "decide (read_observed Up db server) = Swap e u k" "w_read w = Up"
    and "canonical_row_text u = Inr c" "authority_row_id server = Inr i" "w_others w db i = db i"
  shows "perform w db server decide = perform (w\<lparr>w_others := id\<rparr>) (w_others w db) server decide"
proof -
  have "read_observed Up (w_others w db) server = read_observed Up db server"
    using assms by (simp add: read_observed_def select_payload_def)
  then show ?thesis
    using assms by (auto simp: perform_def swap_row_def split: sum.splits)
qed

end

interpretation take_op: guarded_op "take_decision owner" "Taken owner" for owner
  by unfold_locales (auto simp: take_decision_Swap intro!: authority_trans.take)

interpretation commit_spawn_op: guarded_op "commit_spawn_decision claim spawn" "Obliged spawn" for claim spawn
  by unfold_locales
    (auto elim!: commit_spawn_decision_Swap simp: claim_owner_Inr intro!: authority_trans.oblige)

interpretation clear_spawn_op: guarded_op "clear_spawn_decision claim" SpawnCleared for claim
  by unfold_locales
    (auto elim!: clear_spawn_decision_Swap simp: claim_owner_Inr intro!: authority_trans.clear_spawn)

interpretation publish_op: guarded_op "publish_decision claim token worker" "Published worker"
    for claim token worker
  by unfold_locales
    (auto elim!: publish_decision_Swap simp: claim_owner_Inr intro!: authority_trans.publish)

interpretation clear_worker_op: guarded_op "clear_worker_decision claim token" WorkerCleared for claim token
  by unfold_locales
    (auto elim!: clear_worker_decision_Swap simp: claim_owner_Inr intro!: authority_trans.clear_worker)

section \<open>The abstraction function\<close>

lemma stored_row_Some:
  "stored_row server db = Some r \<longleftrightarrow> (\<exists>i t. authority_row_id server = Inr i \<and> db i = Some t
     \<and> parse_authority_payload (JStr t) server = Inr r)"
  by (auto simp: stored_row_def split: sum.splits option.splits)

lemma stored_row_ok: "stored_row server db = Some r \<Longrightarrow> row_ok server r"
  by (auto simp: stored_row_Some intro: rows.parse_acceptable)

lemma stored_row_upd:
  "authority_row_id server = Inr i \<Longrightarrow> parse_authority_payload (JStr c) server = Inr u \<Longrightarrow>
   stored_row server (db(i \<mapsto> c)) = Some u"
  by (simp add: stored_row_Some)

lemma uuid5_encodable: "uuid5 n s = Inr u \<Longrightarrow> list_all encodable s"
  by (auto simp: uuid5_def utf8_encode_def split: if_splits)

lemma row_id_server: "authority_row_id server = Inr i \<Longrightarrow> server \<noteq> [] \<and> clean server"
  by (auto simp: authority_row_id_def dest: uuid5_encodable intro: encodable_clean)

lemma neutral_payload_parse:
  assumes "authority_row_id server = Inr i" "neutral_payload server = Inr p"
  shows "parse_authority_payload (JStr p) server = Inr (neutral_row server)"
proof -
  have "canonical_row_text (neutral_row server) = Inr p" using assms by (auto simp: neutral_payload_def)
  moreover have "clean_row (neutral_row server)"
    using row_id_server [OF assms(1)] by (simp add: clean_row_def neutral_row_def)
  ultimately show ?thesis
    using canonical_parse [of "neutral_row server" p] by (simp add: neutral_row_def)
qed

lemma op_swap_legal:
  assumes "op_swap op m = Some (e, u)"
  shows "\<exists>cur. m = Inr (e, Some cur) \<and> authority_trans cur (op_event op) u"
proof -
  note legal = take_op.swap_legal commit_spawn_op.swap_legal clear_spawn_op.swap_legal
    publish_op.swap_legal clear_worker_op.swap_legal
  show ?thesis
    using assms by (cases op) (auto simp: swap_of_def split: decision.splits dest: legal)
qed

section \<open>The system refines the abstract machine\<close>

lemma sys_step_pending:
  assumes "sys_step server s s'" "pending_ok server s"
  shows "pending_ok server s'"
  using assms
proof cases
  case (decide op expected updated candidate p)
  obtain cur where "parse_authority_payload (JStr expected) server = Inr cur"
    "authority_trans cur (op_event op) updated"
    using op_swap_legal [OF decide(2)] by (auto simp: read_observed_Inr)
  then show ?thesis
    using assms(2) decide trans_parse [OF _ _ decide(3,4)] by (auto simp: pending_ok_def)
qed (auto simp: pending_ok_def)

lemma bootstrap_quiet:
  "authority_row_id server = Inr i \<Longrightarrow> db i \<noteq> None \<Longrightarrow> snd (bootstrap_authority quiet db server) = db"
  by (auto simp: bootstrap_authority_def quiet_def insert_payload_def Let_def split: sum.splits)

lemma sys_step_row:
  assumes "sys_step server s s'" "pending_ok server s" "stored_row server (sy_db s) = Some r"
  shows "\<exists>evs r'. stored_row server (sy_db s') = Some r' \<and> sy_log s' = sy_log s @ evs
     \<and> (evs = [] \<and> r' = r \<or> (\<exists>ev. evs = [ev] \<and> authority_trans r ev r'))"
  using assms(1)
proof cases
  case (commit p op expected candidate link i)
  obtain cur u where "parse_authority_payload (JStr expected) server = Inr cur"
    "authority_trans cur (op_event op) u" "parse_authority_payload (JStr candidate) server = Inr u"
    using assms(2) commit unfolding pending_ok_def by blast
  moreover have "cur = r" using assms(3) commit calculation(1) by (auto simp: stored_row_Some)
  ultimately show ?thesis
    using commit stored_row_upd [OF commit(4)]
    by (auto simp: compare_and_swap_cases [OF commit(4)])
next
  case (lose p op expected candidate link i)
  obtain j where j: "authority_row_id server = Inr j" using assms(3) by (auto simp: stored_row_Some)
  have "snd (compare_and_swap link (sy_db s) server expected candidate) = sy_db s"
    using lose j by (auto simp: compare_and_swap_cases)
  then show ?thesis using lose assms(3) by simp
next
  case bootstrap
  then show ?thesis using assms(3) bootstrap_quiet by (auto simp: stored_row_Some)
qed (use assms(3) in simp_all)

lemma sys_run_row:
  assumes "(sys_step server)\<^sup>*\<^sup>* s s'" "pending_ok server s" "stored_row server (sy_db s) = Some r"
  shows "pending_ok server s' \<and> (\<exists>evs r'. stored_row server (sy_db s') = Some r'
     \<and> sy_log s' = sy_log s @ evs \<and> authority_trace r evs r')"
  using assms
proof (induction rule: rtranclp_induct)
  case base
  then show ?case using authority_trace.start by fastforce
next
  case (step s1 s2)
  then obtain evs r1 where 1: "pending_ok server s1" "stored_row server (sy_db s1) = Some r1"
    "sy_log s1 = sy_log s @ evs" "authority_trace r evs r1" by blast
  from sys_step_row [OF step.hyps(2) 1(1,2)] show ?case
    using 1 sys_step_pending [OF step.hyps(2) 1(1)] authority_trace.step [OF 1(4)] by fastforce
qed

lemma sys_run_pending:
  "(sys_step server)\<^sup>*\<^sup>* s s' \<Longrightarrow> pending_ok server s \<Longrightarrow> pending_ok server s'"
  by (induction rule: rtranclp_induct) (auto dest: sys_step_pending)

lemma pending_ok_empty: "sy_pending s = Map.empty \<Longrightarrow> pending_ok server s"
  by (simp add: pending_ok_def)

context guarded_op
begin

lemma stale_or_offline:
  assumes "authority_row_id server = Inr i" "w_others w db i \<noteq> db i \<or> w_read w \<noteq> Up \<or> w_commit w = Down"
  shows "snd (perform w db server decide) \<in> {db, w_others w db}"
  using assms stale_loses outage_keeps by blast

lemma perform_returns:
  assumes "perform w db server decide = (Inr y, db')"
    and "decide (read_observed (w_read w) db server) = Swap e u k" and "event_clean ev"
  shows "\<exists>cur won. k won = Inr y \<and> read_observed (w_read w) db server = Inr (e, Some cur)
    \<and> (if won then stored_row server (w_others w db) = Some cur \<and> stored_row server db' = Some u
       else db' = w_others w db)"
proof -
  obtain cur where m: "read_observed (w_read w) db server = Inr (e, Some cur)"
    and t: "authority_trans cur ev u"
    using swap_legal [OF assms(2)] by blast
  then obtain i where i: "authority_row_id server = Inr i"
    and cur: "parse_authority_payload (JStr e) server = Inr cur"
    by (auto simp: read_observed_Inr)
  obtain c where c: "canonical_row_text u = Inr c"
    using assms by (cases "canonical_row_text u") (auto simp: perform_def swap_row_def)
  have "k (w_others w db i = Some e) = Inr y"
    "db' = (if w_others w db i = Some e then (w_others w db)(i \<mapsto> c) else w_others w db)"
    using assms c by (auto simp: perform_def swap_row_def compare_and_swap_cases [OF i] split: if_splits)
  then show ?thesis
    using stored_row_upd [OF i trans_parse [OF cur t assms(3) c]] i cur m
    by (intro exI [of _ cur] exI [of _ "w_others w db i = Some e"]) (simp add: stored_row_Some)
qed

end

lemma claim_confirmed:
  "claim_owner claim r = Inr ow \<Longrightarrow> stored_row (ac_server claim) db = Some r \<Longrightarrow>
   confirm_authority Up db claim = Inr True"
  by (auto simp: claim_owner_Inr stored_row_Some confirm_authority_def read_authority_def
      select_payload_def)

lemma confirm_iff:
  "confirm_authority Up db claim = Inr True \<longleftrightarrow>
    (\<exists>r ow. stored_row (ac_server claim) db = Some r \<and> claim_owner claim r = Inr ow)"
  by (auto simp: claim_owner_Inr stored_row_Some confirm_authority_def read_authority_def
      select_payload_def split: sum.splits option.splits pyerr.splits if_splits)

lemma read_stored_Inr:
  "read_stored_payload link db server = Inr (Some t) \<longleftrightarrow>
    (\<exists>i. authority_row_id server = Inr i \<and> link = Up \<and> db i = Some t)"
  by (cases "authority_row_id server")
    (auto simp: read_stored_payload_def select_payload_def stored_text_def split: option.splits)

lemma resolve_sections:
  assumes "resolve_migration_sections legacy proven = Inr (s, w)"
  shows "(s = None \<or> w = None) \<and> (ar_spawn legacy \<noteq> None \<longrightarrow> s = ar_spawn legacy)
    \<and> (ar_worker legacy \<noteq> None \<longrightarrow> w = ar_worker legacy)
    \<and> (ev_spawn proven \<noteq> None \<longrightarrow> s = ev_spawn proven)
    \<and> (ev_live_worker proven \<noteq> None \<longrightarrow> w = ev_live_worker proven)
    \<and> (s = ar_spawn legacy \<or> s = ev_spawn proven) \<and> (w = ar_worker legacy \<or> w = ev_live_worker proven)"
  using assms by (auto simp: resolve_migration_sections_def Let_def split: if_splits)

lemma migrate_decision_Swap:
  assumes "migrate_decision server proven m = Swap t u k"
  obtains legacy s w where "m = Inr (Some t)" "parse_v1_payload (JStr t) server = Inr legacy"
    "resolve_migration_sections legacy proven = Inr (s, w)" "u = migration_row server legacy s w" "k = Ok"
  using assms
  by (auto simp: migrate_decision_def no_row_def split: sum.splits option.splits pyerr.splits prod.splits)

lemma migrated_row_parses:
  assumes "parse_v1_payload (JStr t) server = Inr legacy"
    and "resolve_migration_sections legacy proven = Inr (s, w)"
    and "pred_option clean_spawn (ev_spawn proven)" "pred_option clean_worker (ev_live_worker proven)"
    and "canonical_row_text (migration_row server legacy s w) = Inr c"
  shows "parse_authority_payload (JStr c) server = Inr (migration_row server legacy s w)"
proof -
  have l: "clean_row legacy" "ar_server legacy = server"
    using parse_v1_clean [OF assms(1)] parse_v1_wf [OF assms(1)] by auto
  have r: "s = None \<or> w = None" "s = ar_spawn legacy \<or> s = ev_spawn proven"
    "w = ar_worker legacy \<or> w = ev_live_worker proven"
    using resolve_sections [OF assms(2)] by auto
  have "clean_row (migration_row server legacy s w)"
    using l r(2,3) assms(3,4) by (auto simp: clean_row_def migration_row_def)
  with canonical_parse [OF assms(5)] r(1) show ?thesis by (simp add: migration_row_def)
qed

section \<open>Properties of the authority operations\<close>

text \<open>When \<open>take_authority\<close> reports success, the stored row is the returned one and names the
  new owner. Either the row already named it and the table is untouched, or the row stored at the
  instant of the commit moved to the next epoch with everything but its owner kept: a pre-spawn
  obligation or published worker of the previous owner survives the take.\<close>

theorem take_authority_success:
  assumes "take_authority w db server owner = (Inr (Some r), db')" "clean_owner owner"
  shows "stored_row server db' = Some r \<and> ar_owner r = Some owner \<and>
    (db' = db \<or> (\<exists>cur. stored_row server (w_others w db) = Some cur
       \<and> r = cur\<lparr>ar_epoch := ar_epoch cur + 1, ar_owner := Some owner\<rparr>))"
proof (cases "take_decision owner (read_observed (w_read w) db server)")
  case (Answer a)
  then have "a = Inr (Some r)" "db' = db" using assms by (auto simp: take_authority_def perform_def)
  moreover from this obtain e where "read_observed (w_read w) db server = Inr (e, Some r)"
      "ar_owner r = Some owner"
    using Answer by (auto simp: take_decision_def no_row_def Let_def
        split: sum.splits option.splits prod.splits if_splits)
  ultimately show ?thesis by (auto simp: read_observed_Inr stored_row_Some)
next
  case (Swap e u k)
  have "perform w db server (take_decision owner) = (Inr (Some r), db')"
    using assms(1) by (simp add: take_authority_def)
  from take_op.perform_returns [OF this Swap] assms(2) obtain cur won
    where cur: "k won = Inr (Some r)" "read_observed (w_read w) db server = Inr (e, Some cur)"
      "won \<Longrightarrow> stored_row server (w_others w db) = Some cur \<and> stored_row server db' = Some u"
    by (auto split: if_splits)
  have "u = cur\<lparr>ar_epoch := ar_epoch cur + 1, ar_owner := Some owner\<rparr>"
    "k = (\<lambda>won. Ok (if won then Some u else None))"
    using Swap cur(2) by (auto simp: take_decision_Swap)
  with cur show ?thesis by (cases won) auto
qed

text \<open>A committed pre-spawn obligation was committed by the epoch's holder onto an empty slot: at
  the instant of the commit the claim is confirmed by the stored row, that row carries neither an
  obligation nor a published worker, and afterwards it differs only in carrying the obligation.\<close>

theorem commit_spawn_obligation_success:
  assumes "commit_spawn_obligation w db claim spawn = (Inr True, db')" "clean_spawn spawn"
  shows "\<exists>cur. stored_row (ac_server claim) (w_others w db) = Some cur
    \<and> confirm_authority Up (w_others w db) claim = Inr True
    \<and> ar_spawn cur = None \<and> ar_worker cur = None
    \<and> stored_row (ac_server claim) db' = Some (cur\<lparr>ar_spawn := Some spawn\<rparr>)"
proof (cases "commit_spawn_decision claim spawn (read_observed (w_read w) db (ac_server claim))")
  case (Answer a)
  then show ?thesis
    using assms by (auto simp: commit_spawn_obligation_def perform_def commit_spawn_decision_def
        no_row_def split: sum.splits option.splits prod.splits if_splits)
next
  case (Swap e u k)
  have "perform w db (ac_server claim) (commit_spawn_decision claim spawn) = (Inr True, db')"
    using assms(1) by (simp add: commit_spawn_obligation_def)
  from commit_spawn_op.perform_returns [OF this Swap] assms(2) obtain cur won
    where cur: "k won = Inr True" "read_observed (w_read w) db (ac_server claim) = Inr (e, Some cur)"
      "won \<Longrightarrow> stored_row (ac_server claim) (w_others w db) = Some cur
         \<and> stored_row (ac_server claim) db' = Some u"
    by (auto split: if_splits)
  from Swap show ?thesis
    by (rule commit_spawn_decision_Swap) (use cur claim_confirmed in auto)
qed

text \<open>C13. Publication is atomic: when \<open>publish_worker\<close> reports success, the row stored at the instant
  of the commit confirmed the claim and carried the obligation with the given token, and afterwards it
  carries the worker of the same token and no obligation.\<close>

theorem publish_worker_success:
  assumes "publish_worker w db claim token worker = (Inr True, db')" "clean_worker worker"
  shows "\<exists>cur s. stored_row (ac_server claim) (w_others w db) = Some cur
    \<and> confirm_authority Up (w_others w db) claim = Inr True
    \<and> ar_spawn cur = Some s \<and> so_token s = token \<and> wr_token worker = token
    \<and> stored_row (ac_server claim) db' = Some (cur\<lparr>ar_spawn := None, ar_worker := Some worker\<rparr>)"
proof (cases "publish_decision claim token worker (read_observed (w_read w) db (ac_server claim))")
  case (Answer a)
  then show ?thesis
    using assms by (auto simp: publish_worker_def perform_def publish_decision_def
        no_row_def split: sum.splits option.splits prod.splits if_splits pyerr.splits)
next
  case (Swap e u k)
  have "perform w db (ac_server claim) (publish_decision claim token worker) = (Inr True, db')"
    using assms(1) by (simp add: publish_worker_def)
  from publish_op.perform_returns [OF this Swap] assms(2) obtain cur won
    where cur: "k won = Inr True" "read_observed (w_read w) db (ac_server claim) = Inr (e, Some cur)"
      "won \<Longrightarrow> stored_row (ac_server claim) (w_others w db) = Some cur
         \<and> stored_row (ac_server claim) db' = Some u"
    by (auto split: if_splits)
  from Swap show ?thesis
    by (rule publish_decision_Swap) (use cur claim_confirmed in auto)
qed

text \<open>C2. The operations implement the abstract machine however processes interleave: after any
  sequence of reads, commits, lost races, lost acknowledgements, crashes and bootstraps by any number
  of processes on one server's row, the stored row still parses, and it is reached from the first row
  by exactly the abstract transitions whose commits the log records, in that order.\<close>

theorem authority_run_refines:
  assumes "(sys_step server)\<^sup>*\<^sup>* s0 s" "sy_pending s0 = Map.empty"
    and "stored_row server (sy_db s0) = Some r0"
  shows "\<exists>evs r. stored_row server (sy_db s) = Some r \<and> sy_log s = sy_log s0 @ evs
     \<and> authority_trace r0 evs r"
  using sys_run_row [OF assms(1) pending_ok_empty [OF assms(2)] assms(3)] by blast

text \<open>C1. At most one consumer is ever authorized at a time: in any such run from an empty slot, the
  committed pre-spawn obligations exceed the cleared obligations and cleared workers by one when the
  slot is taken and by none when it is empty, and the slot never holds more than one of the two.\<close>

theorem single_consumer:
  assumes "(sys_step server)\<^sup>*\<^sup>* s0 s" "sy_pending s0 = Map.empty" "sy_log s0 = []"
    and "stored_row server (sy_db s0) = Some r0" "occupied r0 = 0"
  shows "\<exists>r. stored_row server (sy_db s) = Some r \<and> occupied r \<le> 1
     \<and> length (filter is_obliged (sy_log s)) = length (filter is_released (sy_log s)) + occupied r"
proof -
  obtain r where r: "stored_row server (sy_db s) = Some r" "authority_trace r0 (sy_log s) r"
    using sys_run_row [OF assms(1) pending_ok_empty [OF assms(2)] assms(4)] assms(3) by auto
  have "occupied r \<le> 1"
    using stored_row_ok [OF r(1)] by (intro exclusive_occupied) (simp add: row_ok_def wf_row_def)
  with r trace_occupied [OF r(2)] assms(5) show ?thesis by auto
qed

text \<open>C4. Fencing: along any run the epoch never falls, and two claims confirmed at any two moments
  with the same epoch name the same incarnation. So a superseded owner is never confirmed again.\<close>

theorem fencing_exclusion:
  assumes "(sys_step server)\<^sup>*\<^sup>* s0 s1" "sy_pending s0 = Map.empty" "(sys_step server)\<^sup>*\<^sup>* s1 s2"
    and "confirm_authority Up (sy_db s1) c1 = Inr True" "confirm_authority Up (sy_db s2) c2 = Inr True"
    and "ac_server c1 = server" "ac_server c2 = server"
  shows "ac_epoch c1 \<le> ac_epoch c2 \<and> (ac_epoch c1 = ac_epoch c2 \<longrightarrow>
    ac_pid c1 = ac_pid c2 \<and> ac_start_time_ticks c1 = ac_start_time_ticks c2 \<and> ac_boot_id c1 = ac_boot_id c2)"
proof -
  obtain r1 ow1 where 1: "stored_row server (sy_db s1) = Some r1" "claim_owner c1 r1 = Inr ow1"
    using assms by (auto simp: confirm_iff)
  obtain r2 ow2 where 2: "stored_row server (sy_db s2) = Some r2" "claim_owner c2 r2 = Inr ow2"
    using assms by (auto simp: confirm_iff)
  have "pending_ok server s1" by (rule sys_run_pending [OF assms(1) pending_ok_empty [OF assms(2)]])
  then obtain evs where "authority_trace r1 evs r2" using sys_run_row [OF assms(3) _ 1(1)] 2(1) by auto
  then show ?thesis using trace_epoch 1(2) 2(2) by (fastforce simp: claim_owner_Inr)
qed

text \<open>C12. A successful migration loses nothing that blocks a spawn. Either the stored row was already
  version 2 and the table is untouched, or the row stored at the instant of the commit was a version 1
  row and the new row parses as version 2 with its epoch, generation and owner, with every obligation
  and worker the old row or the local evidence named, and with at most one of the two.\<close>

theorem migration_success:
  assumes m: "migrate_v1_to_v2 w db server (Some proven) = (Inr True, db')"
    and clean: "pred_option clean_spawn (ev_spawn proven)" "pred_option clean_worker (ev_live_worker proven)"
  shows "db' = db \<and> stored_row server db \<noteq> None \<or>
    (\<exists>i t legacy r. authority_row_id server = Inr i \<and> w_others w db i = Some t
      \<and> parse_v1_payload (JStr t) server = Inr legacy \<and> stored_row server db' = Some r
      \<and> ar_epoch r = ar_epoch legacy \<and> ar_generation r = ar_generation legacy
      \<and> ar_owner r = ar_owner legacy \<and> (ar_spawn r = None \<or> ar_worker r = None)
      \<and> (ar_spawn legacy \<noteq> None \<longrightarrow> ar_spawn r = ar_spawn legacy)
      \<and> (ev_spawn proven \<noteq> None \<longrightarrow> ar_spawn r = ev_spawn proven)
      \<and> (ar_worker legacy \<noteq> None \<longrightarrow> ar_worker r = ar_worker legacy)
      \<and> (ev_live_worker proven \<noteq> None \<longrightarrow> ar_worker r = ev_live_worker proven))"
proof (cases "migrate_decision server proven (read_stored_payload (w_read w) db server)")
  case (Answer a)
  then have a: "a = Inr True" "db' = db"
    using m by (auto simp: migrate_v1_to_v2_def Let_def split: sum.splits)
  obtain t r where "read_stored_payload (w_read w) db server = Inr (Some t)"
    "parse_authority_payload (JStr t) server = Inr r"
    using Answer a(1) by (auto simp: migrate_decision_def no_row_def
        split: sum.splits option.splits pyerr.splits prod.splits)
  then have "stored_row server db = Some r" by (auto simp: read_stored_Inr stored_row_Some)
  with a show ?thesis by simp
next
  case (Swap t u k)
  then obtain legacy s w' where d: "read_stored_payload (w_read w) db server = Inr (Some t)"
    "parse_v1_payload (JStr t) server = Inr legacy"
    "resolve_migration_sections legacy proven = Inr (s, w')" "u = migration_row server legacy s w'" "k = Ok"
    by (rule migrate_decision_Swap)
  obtain i where i: "authority_row_id server = Inr i" using d(1) by (auto simp: read_stored_Inr)
  have sw: "swap_row w db server t u k = (Inr True, db')"
    using m Swap by (auto simp: migrate_v1_to_v2_def Let_def split: sum.splits)
  then obtain c where c: "canonical_row_text u = Inr c"
    by (cases "canonical_row_text u") (auto simp: swap_row_def)
  have "w_others w db i = Some t" "db' = (w_others w db)(i \<mapsto> c)"
    using sw c d(5) by (auto simp: swap_row_def compare_and_swap_cases [OF i] split: if_splits)
  moreover have "parse_authority_payload (JStr c) server = Inr u"
    using migrated_row_parses [OF d(2,3) clean] c d(4) by simp
  ultimately show ?thesis
    using i d(2) resolve_sections [OF d(3)] stored_row_upd [OF i]
    by (intro disjI2 exI [of _ i] exI [of _ t] exI [of _ legacy] exI [of _ u])
      (simp add: d(4) migration_row_def)
qed

text \<open>Every failed migration leaves version 1 in place: unless the call returned \<open>True\<close>, or its
  commit landed and only the acknowledgement was lost, the table is as the other processes left it.\<close>

theorem migration_failure_keeps_table:
  assumes "migrate_v1_to_v2 w db server evidence = (r, db')" "r \<noteq> Inr True" "w_commit w \<noteq> AckLost"
  shows "db' = db \<or> db' = w_others w db"
proof -
  let ?p = "case evidence of None \<Rightarrow> no_evidence | Some ev \<Rightarrow> ev"
  show ?thesis
  proof (cases "migrate_decision server ?p (read_stored_payload (w_read w) db server)")
    case (Answer a)
    then show ?thesis using assms(1) by (auto simp: migrate_v1_to_v2_def Let_def split: sum.splits)
  next
    case (Swap t u k)
    then obtain i where k: "k = Ok" and i: "authority_row_id server = Inr i"
      by (auto elim!: migrate_decision_Swap simp: read_stored_Inr)
    have "db' = db \<or> swap_row w db server t u k = (r, db')"
      using assms(1) Swap by (auto simp: migrate_v1_to_v2_def Let_def split: sum.splits)
    then show ?thesis
      using assms(2,3) k
      by (cases "w_commit w")
        (auto simp: swap_row_def compare_and_swap_cases [OF i] split: sum.splits if_splits)
  qed
qed

text \<open>First writers converge: whoever bootstraps, the row is written only when there was none,
  and then it is the neutral row; a bootstrap that follows returns the same row and changes nothing.\<close>

theorem bootstrap_converges:
  assumes "bootstrap_authority quiet db server = (Inr r, db1)"
  shows "stored_row server db1 = Some r \<and> bootstrap_authority quiet db1 server = (Inr r, db1)
    \<and> (db1 = db \<or> stored_row server db = None \<and> r = neutral_row server)"
proof -
  obtain i p where i: "authority_row_id server = Inr i" and p: "neutral_payload server = Inr p"
    and db1: "db1 = insert_payload db i p" and r: "Some (Inr r) = map_option (\<lambda>t. parse_authority_payload (JStr t) server) (db1 i)"
    using assms by (auto simp: bootstrap_authority_def quiet_def Let_def split: sum.splits option.splits)
  have "db1 = db \<or> db i = None \<and> db1 = db(i \<mapsto> p)" using db1 by (auto simp: insert_payload_def)
  moreover have "bootstrap_authority quiet db1 server = (Inr r, db1)"
    using i p r db1 by (auto simp: bootstrap_authority_def quiet_def Let_def insert_payload_def split: if_splits option.splits)
  moreover have "stored_row server db1 = Some r" using r i by (cases "db1 i") (auto simp: stored_row_Some)
  ultimately show ?thesis
    using neutral_payload_parse [OF i p] i r by (auto simp: stored_row_Some stored_row_def)
qed


section \<open>Concrete runs\<close>

lemma quiet_swap:
  assumes "authority_row_id server = Inr i" "db i = Some e"
    and "parse_authority_payload (JStr e) server = Inr cur"
    and "decide (Inr (e, Some cur)) = Swap e u k" "canonical_row_text u = Inr c"
  shows "perform quiet db server decide = (k True, db(i \<mapsto> c))"
proof -
  have "read_observed Up db server = Inr (e, Some cur)" using assms by (auto simp: read_observed_Inr)
  then show ?thesis
    using assms by (simp add: perform_def quiet_def swap_row_def compare_and_swap_cases)
qed

lemma sample_id: "\<exists>i. authority_row_id sample_server = Inr i"
  by (simp add: authority_row_id_def sample_server_def uuid5_def utf8_encode_def Let_def
      require_server_identity_def)

lemma sample_table_at:
  assumes "ordinary_row r" "clean_row r" "ar_server r = sample_server"
  obtains i e where "authority_row_id sample_server = Inr i" "sample_table r = [i \<mapsto> e]"
    "parse_authority_payload (JStr e) sample_server = Inr r" "canonical_row_text r = Inr e"
proof -
  obtain i where "authority_row_id sample_server = Inr i" using sample_id by blast
  moreover obtain e where "canonical_row_text r = Inr e"
    "parse_authority_payload (JStr e) sample_server = Inr r"
    using sample_printed [OF assms(1,2)] assms(3) by auto
  ultimately show thesis using that by (simp add: sample_table_def)
qed

lemma sample_servers [simp]:
  "ar_server (neutral_row s) = s" "ar_server owned_row = sample_server"
  "ar_server obliged_row = sample_server" "ar_server published_row = sample_server"
  by (simp_all add: sample_defs)

lemmas sample_tables =
  sample_table_at [OF sample_ordinary(1) sample_clean(4)] sample_table_at [OF sample_ordinary(2) sample_clean(5)]
  sample_table_at [OF sample_ordinary(3) sample_clean(6)] sample_table_at [OF sample_ordinary(4) sample_clean(7)]

text \<open>An operation that decides to move one ordinary row to another succeeds when left alone.\<close>

lemma sample_swap:
  assumes "ordinary_row r" "clean_row r" "ar_server r = sample_server" "ordinary_row u"
    and "\<And>e. decide (Inr (e, Some r)) = Swap e u k"
  shows "\<exists>db'. perform quiet (sample_table r) sample_server decide = (k True, db')"
proof -
  obtain i e where t: "authority_row_id sample_server = Inr i" "sample_table r = [i \<mapsto> e]"
    "parse_authority_payload (JStr e) sample_server = Inr r"
    using assms(1-3) by (rule sample_table_at)
  obtain c where "canonical_row_text u = Inr c" using ordinary_prints [OF assms(4)] by blast
  with quiet_swap [where decide = decide and k = k, OF t(1) _ t(3) assms(5)] t(2) show ?thesis by fastforce
qed

lemma sample_take: "\<exists>db'. take_authority quiet (sample_table (neutral_row sample_server)) sample_server sample_owner
    = (Inr (Some owned_row), db')"
  unfolding take_authority_def
  using sample_swap [where decide = "take_decision sample_owner" and u = owned_row
      and k = "\<lambda>won. Ok (if won then Some owned_row else None)", OF sample_ordinary(1) sample_clean(4) _ sample_ordinary(2)]
  by (simp add: take_decision_Swap) (simp add: owned_row_def neutral_row_def)

lemma sample_commit: "\<exists>db'. commit_spawn_obligation quiet (sample_table owned_row) sample_claim sample_spawn
    = (Inr True, db')"
proof -
  have "commit_spawn_decision sample_claim sample_spawn (Inr (e, Some owned_row)) = Swap e obliged_row Ok" for e
    by (simp add: commit_spawn_decision_def claim_owner_def sample_claim_def sample_defs)
  from sample_swap [OF sample_ordinary(2) sample_clean(5) _ sample_ordinary(3) this] show ?thesis
    by (simp add: commit_spawn_obligation_def sample_claim_def)
qed

lemma sample_publish: "\<exists>db'. publish_worker quiet (sample_table obliged_row) sample_claim (lit ''t'') sample_worker
    = (Inr True, db')"
proof -
  have "publish_decision sample_claim (lit ''t'') sample_worker (Inr (e, Some obliged_row)) = Swap e published_row Ok" for e
    by (simp add: publish_decision_def claim_owner_def sample_claim_def sample_defs)
  from sample_swap [OF sample_ordinary(3) sample_clean(6) _ sample_ordinary(4) this] show ?thesis
    by (simp add: publish_worker_def sample_claim_def)
qed

theorem take_authority_success_witness:
  "\<exists>db'. stored_row sample_server db' = Some owned_row \<and> ar_owner owned_row = Some sample_owner"
  using sample_take take_authority_success [OF _ sample_clean(1)] by blast

theorem commit_spawn_obligation_success_witness:
  "\<exists>db' cur. stored_row sample_server (sample_table owned_row) = Some cur
    \<and> confirm_authority Up (sample_table owned_row) sample_claim = Inr True
    \<and> stored_row sample_server db' = Some (cur\<lparr>ar_spawn := Some sample_spawn\<rparr>)"
  using sample_commit commit_spawn_obligation_success [OF _ sample_clean(2)]
  by (fastforce simp: quiet_def sample_claim_def)

theorem publish_worker_success_witness:
  "\<exists>db' cur. stored_row sample_server (sample_table obliged_row) = Some cur
    \<and> confirm_authority Up (sample_table obliged_row) sample_claim = Inr True
    \<and> stored_row sample_server db' = Some (cur\<lparr>ar_spawn := None, ar_worker := Some sample_worker\<rparr>)"
  using sample_publish publish_worker_success [OF _ sample_clean(3)]
  by (fastforce simp: quiet_def sample_claim_def)

text \<open>A concrete run: one process reads and decides to take the row, then commits.\<close>

lemma sample_run:
  "\<exists>s. (sys_step sample_server)\<^sup>*\<^sup>* sample_system s \<and> sy_log s = [Taken sample_owner]
     \<and> stored_row sample_server (sy_db s) = Some owned_row"
proof -
  obtain i e where t: "authority_row_id sample_server = Inr i" "sample_table (neutral_row sample_server) = [i \<mapsto> e]"
    "parse_authority_payload (JStr e) sample_server = Inr (neutral_row sample_server)"
    by (rule sample_tables(1)) auto
  obtain c where c: "canonical_row_text owned_row = Inr c"
    "parse_authority_payload (JStr c) sample_server = Inr owned_row"
    using sample_printed [OF sample_ordinary(2) sample_clean(5)] by auto
  let ?s1 = "sample_system\<lparr>sy_pending := (sy_pending sample_system)(0 \<mapsto> (OpTake sample_owner, e, c))\<rparr>"
  let ?s2 = "?s1\<lparr>sy_db := snd (compare_and_swap Up (sy_db ?s1) sample_server e c),
      sy_pending := (sy_pending ?s1)(0 := None), sy_log := sy_log ?s1 @ [op_event (OpTake sample_owner)]\<rparr>"
  have "read_observed Up (sy_db sample_system) sample_server = Inr (e, Some (neutral_row sample_server))"
    using t by (simp add: read_observed_Inr sample_system_def)
  then have "op_swap (OpTake sample_owner) (read_observed Up (sy_db sample_system) sample_server) = Some (e, owned_row)"
    by (simp add: swap_of_def take_decision_def Let_def owned_row_def neutral_row_def)
  then have 1: "sys_step sample_server sample_system ?s1"
    by (rule sys_step.decide) (use c in \<open>simp_all add: sample_clean sample_system_def\<close>)
  have 2: "sys_step sample_server ?s1 ?s2"
    by (rule sys_step.commit [of _ _ _ _ _ Up, OF _ _ t(1)]) (use t in \<open>simp_all add: sample_system_def\<close>)
  have "stored_row sample_server (sy_db ?s2) = Some owned_row"
    using t c(2) stored_row_upd [OF t(1) c(2)] by (simp add: compare_and_swap_cases [OF t(1)] sample_system_def)
  with 1 2 show ?thesis
    by (intro exI [of _ ?s2]) (auto simp: sample_system_def intro: converse_rtranclp_into_rtranclp)
qed

lemma sample_stored:
  "ordinary_row r \<Longrightarrow> clean_row r \<Longrightarrow> ar_server r = sample_server \<Longrightarrow>
   stored_row sample_server (sample_table r) = Some r"
  by (rule sample_table_at) (auto simp: stored_row_Some)

lemma sample_start: "sy_pending sample_system = Map.empty" "sy_log sample_system = []"
  "stored_row sample_server (sy_db sample_system) = Some (neutral_row sample_server)"
  "occupied (neutral_row sample_server) = 0"
  using sample_stored [OF sample_ordinary(1) sample_clean(4)]
  by (simp_all add: sample_system_def occupied_def neutral_row_def)

theorem authority_run_refines_witness:
  "\<exists>(s :: system) r. stored_row sample_server (sy_db s) = Some r \<and> sy_log s = [Taken sample_owner]
     \<and> authority_trace (neutral_row sample_server) (sy_log s) r"
proof -
  obtain s where s: "(sys_step sample_server)\<^sup>*\<^sup>* sample_system s" "sy_log s = [Taken sample_owner]"
    using sample_run by blast
  from authority_run_refines [OF s(1) sample_start(1,3)] s(2) sample_start(2)
  obtain r where "stored_row sample_server (sy_db s) = Some r"
    "authority_trace (neutral_row sample_server) (sy_log s) r" by auto
  with s(2) show ?thesis by blast
qed

theorem single_consumer_witness:
  "\<exists>s r. (sys_step sample_server)\<^sup>*\<^sup>* sample_system s \<and> stored_row sample_server (sy_db s) = Some r \<and> occupied r \<le> 1
     \<and> length (filter is_obliged (sy_log s)) = length (filter is_released (sy_log s)) + occupied r"
  using sample_run single_consumer [OF _ sample_start] by blast

theorem fencing_exclusion_witness:
  "\<exists>s. (sys_step sample_server)\<^sup>*\<^sup>* sample_system s \<and> confirm_authority Up (sy_db s) sample_claim = Inr True
     \<and> ac_epoch sample_claim \<le> ac_epoch sample_claim"
proof -
  obtain s where s: "(sys_step sample_server)\<^sup>*\<^sup>* sample_system s"
    "stored_row sample_server (sy_db s) = Some owned_row" using sample_run by blast
  have c: "confirm_authority Up (sy_db s) sample_claim = Inr True"
    using s(2) by (auto simp: confirm_iff claim_owner_Inr sample_claim_def sample_defs)
  have "ac_server sample_claim = sample_server" by (simp add: sample_claim_def)
  from fencing_exclusion [OF s(1) sample_start(1) rtranclp.rtrancl_refl c c this this] s(1) c
  show ?thesis by blast
qed

lemma sample_v1_decoded: "decode_authority (JStr (json_text (JObj sample_v1))) = Inr sample_v1"
proof -
  have f: "fits 600 (JObj sample_v1)"
    unfolding sample_v1_def
    by (rule fits_obj [where ns = "[19, 21, 402, 19, 19]"])
      (auto simp: small_def fits_type printable_def lit_def sample_server_def intro!: fits_parts)
  then have "plain (JObj sample_v1)" "length (json_text (JObj sample_v1)) \<le> 600" by (auto simp only: fits_def)
  then show ?thesis
    using loads_json_text [of "JObj sample_v1"] ascii_utf8 [OF ascii_json [of "JObj sample_v1"]]
    by (simp only: decode_authority_text AUTHORITY_MAX_BYTES_def) simp
qed

lemma sample_migration:
  "\<exists>i db'. authority_row_id sample_server = Inr i
     \<and> migrate_v1_to_v2 quiet [i \<mapsto> json_text (JObj sample_v1)] sample_server (Some no_evidence) = (Inr True, db')"
proof -
  let ?t = "json_text (JObj sample_v1)"
  let ?r = "(neutral_row sample_server)\<lparr>ar_epoch := 3, ar_generation := 1\<rparr>"
  obtain i where i: "authority_row_id sample_server = Inr i" using sample_id by blast
  have "parse_authority_payload (JStr ?t) sample_server
      = Inl (AuthorityError ''unsupported lifecycle authority version: '')"
    using sample_v1_decoded
    by (simp add: parse_authority_payload_def) (simp add: sample_v1_def json_simps py_eq_int_def AUTHORITY_VERSION_def)
  moreover have "parse_v1_payload (JStr ?t) sample_server = Inr ?r"
    using sample_v1_decoded
    by (simp add: parse_v1_payload_def) (simp add: sample_v1_def json_simps py_eq_int_def is_bool_def
        LEGACY_AUTHORITY_VERSION_def parse_sections_def parse_owner_def parse_spawn_def parse_worker_def neutral_row_def)
  moreover have "ordinary_row ?r"
    using sample_ordinary(1) by (simp add: ordinary_row_def wf_row_def neutral_row_def small_def)
  then obtain c where "canonical_row_text ?r = Inr c" using ordinary_prints by blast
  ultimately show ?thesis
    using i by (simp add: migrate_v1_to_v2_def check_migration_evidence_def no_evidence_def migrate_decision_def
        read_stored_payload_def select_payload_def stored_text_def quiet_def resolve_migration_sections_def
        migration_row_def neutral_row_def swap_row_def compare_and_swap_cases)
qed

theorem migration_success_witness:
  "\<exists>i db'. migrate_v1_to_v2 quiet [i \<mapsto> json_text (JObj sample_v1)] sample_server (Some no_evidence) = (Inr True, db')
     \<and> stored_row sample_server db' \<noteq> None"
proof -
  obtain i db' where m: "migrate_v1_to_v2 quiet [i \<mapsto> json_text (JObj sample_v1)] sample_server (Some no_evidence)
      = (Inr True, db')" using sample_migration by blast
  from migration_success [OF m] show ?thesis using m by (auto simp: no_evidence_def)
qed

theorem migration_failure_keeps_table_witness:
  "\<exists>m. migrate_v1_to_v2 quiet Map.empty sample_server None = (Inl (AuthorityError m), Map.empty)
     \<and> (Map.empty :: table) \<in> {Map.empty, w_others quiet Map.empty}"
proof -
  obtain i where "authority_row_id sample_server = Inr i" using sample_id by blast
  then obtain m where m: "migrate_v1_to_v2 quiet Map.empty sample_server None = (Inl (AuthorityError m), Map.empty)"
    by (simp add: migrate_v1_to_v2_def check_migration_evidence_def no_evidence_def migrate_decision_def
        read_stored_payload_def select_payload_def quiet_def no_row_def)
  have "w_commit quiet \<noteq> AckLost" by (simp add: quiet_def)
  with migration_failure_keeps_table [OF m] m show ?thesis by auto
qed

theorem bootstrap_converges_witness:
  "\<exists>db1. stored_row sample_server db1 = Some (neutral_row sample_server)
    \<and> bootstrap_authority quiet db1 sample_server = (Inr (neutral_row sample_server), db1)"
proof -
  obtain i where i: "authority_row_id sample_server = Inr i" using sample_id by blast
  obtain p where p: "neutral_payload sample_server = Inr p"
    using ordinary_prints [OF sample_ordinary(1)]
    by (auto simp: neutral_payload_def require_server_identity_def sample_server_def)
  have "bootstrap_authority quiet Map.empty sample_server = (Inr (neutral_row sample_server), [i \<mapsto> p])"
    using i p neutral_payload_parse [OF i p]
    by (simp add: bootstrap_authority_def quiet_def insert_payload_def)
  from bootstrap_converges [OF this] show ?thesis by blast
qed


end
