(* ===== verification/LifecycleState.thy ===== *)
theory LifecycleState
  imports Prelude
begin

text \<open>
  \<open>src/lubko/lifecycle_state.py\<close>: the facts the lifecycle decides on, their invariants, and the
  guards of every substantive operation. The durable sources and the process observations that
  \<open>reconcile_authority_facts\<close> consults are a record of what each read returned; everything it
  computes from them is modelled. The failpoint registry is a map.
\<close>

section \<open>Failpoints\<close>

type_synonym failpoints = "string \<rightharpoonup> pyerr option"

definition arm_failpoint :: "string \<Rightarrow> pyerr option \<Rightarrow> failpoints \<Rightarrow> failpoints" where
  "arm_failpoint name exc fps = fps(name \<mapsto> exc)"

definition disarm_failpoints :: "failpoints \<Rightarrow> failpoints" where
  "disarm_failpoints fps = Map.empty"

definition failpoint :: "failpoints \<Rightarrow> string \<Rightarrow> unit res" where
  "failpoint fps name = (case fps name of
      None \<Rightarrow> Ok ()
    | Some (Some exc) \<Rightarrow> Raise exc
    | Some None \<Rightarrow> Raise (FailpointError name))"

text \<open>The block runs with the failpoint armed; the registry is cleared whatever the block did.\<close>

definition armed_failpoint ::
    "string \<Rightarrow> pyerr option \<Rightarrow> (failpoints \<Rightarrow> 'a res \<times> failpoints) \<Rightarrow> failpoints \<Rightarrow> 'a res \<times> failpoints" where
  "armed_failpoint name exc block fps =
    (case block (arm_failpoint name exc fps) of (r, fps') \<Rightarrow> (r, disarm_failpoints fps'))"

section \<open>Facts\<close>

datatype LifecyclePhase = UNMANAGED | OWNERSHIP_PENDING | SPAWN_OBLIGATION | SPAWNING | RUNNING
  | RETIRING | STOPPED | RECOVERING | MISSION_PENDING | CONFIRMED | ROLLED_BACK

record AuthorityFacts =
  desired_generation :: int
  applied_generation :: int
  mission_status :: "string option"
  mission_generation :: "int option"
  mission_commit :: "string option"
  owned_worker_pid :: "int option"
  owned_worker_commit :: "string option"
  owned_worker_identity_proven :: bool
  pre_spawn_obligation :: bool
  unresolved_child :: bool
  candidate_ready :: bool
  rollback_pending :: bool
  durable_malformed :: bool
  supervisor_child_present :: bool
  current_child_identity_proven :: bool
  ownership_hold_malformed :: bool
  unresolved_hold_malformed :: bool
  spawning_hold_malformed :: bool
  identity_observation_unknown :: bool

definition live_consumers :: "AuthorityFacts \<Rightarrow> nat" where
  "live_consumers facts = length (filter id
     [owned_worker_identity_proven facts \<or> supervisor_child_present facts, unresolved_child facts])"

section \<open>Reconciliation\<close>

text \<open>What each source holds, as far as the reconciliation reads it.\<close>

record MetaView =
  mv_state :: string
  mv_pid :: "int option"
  mv_start_time_ticks :: "int option"
  mv_git_commit :: "string option"

record MissionView =
  ms_status :: string
  ms_generation :: int
  ms_commit :: string

record ChildView =
  ch_pid :: int
  ch_start_time_ticks :: int

record StateView =
  sv_applied_generation :: int
  sv_child :: "ChildView option"
  sv_spawning :: bool
  sv_unresolved_child :: bool
  sv_ready :: bool
  sv_ownership_hold_malformed :: bool
  sv_unresolved_hold_malformed :: bool
  sv_spawning_hold_malformed :: bool

text \<open>The results of the reads, and the process observations of \<open>lifecycle\<close> and \<open>supervise\<close>.\<close>

record Sources =
  read_meta_strict :: "MetaView option res"
  read_rollback_state :: "MissionView option res"
  read_desired_client :: "int option res"
  read_state_client :: "StateView option res"
  worker_alive :: "MetaView \<Rightarrow> bool"
  process_absence_proven :: "int \<Rightarrow> int option \<Rightarrow> bool"
  child_alive :: "ChildView \<Rightarrow> bool"
  child_is_our_direct_child :: "ChildView \<Rightarrow> bool"

definition meta_unknown :: "Sources \<Rightarrow> MetaView \<Rightarrow> bool" where
  "meta_unknown src m \<longleftrightarrow> \<not> worker_alive src m \<and> mv_state m = ''running'' \<and>
     (case mv_pid m of None \<Rightarrow> True
      | Some pid \<Rightarrow> \<not> process_absence_proven src pid (mv_start_time_ticks m))"

definition reconcile_authority_facts :: "Sources \<Rightarrow> AuthorityFacts res" where
  "reconcile_authority_facts src =
    (let meta = (case read_meta_strict src of Inl _ \<Rightarrow> None | Inr m \<Rightarrow> m);
         meta_bad = \<not> is_ok (read_meta_strict src);
         owned_pid = (case meta of None \<Rightarrow> None | Some m \<Rightarrow> mv_pid m);
         owned_proven = (case meta of None \<Rightarrow> False | Some m \<Rightarrow> worker_alive src m);
         unknown = (case meta of None \<Rightarrow> False | Some m \<Rightarrow> meta_unknown src m)
     in
     ebind (case read_rollback_state src of
         Inl (DeployCtlError m) \<Rightarrow> Ok (None, True)
       | Inl e \<Rightarrow> Raise e
       | Inr mission \<Rightarrow> Ok (mission, False)) (\<lambda>(mission, mission_bad).
     let desired_bad = \<not> is_ok (read_desired_client src);
         desired = (case read_desired_client src of Inr (Some g) \<Rightarrow> g | _ \<Rightarrow> 0);
         state = (case read_state_client src of Inl _ \<Rightarrow> None | Inr s \<Rightarrow> s);
         state_bad = \<not> is_ok (read_state_client src);
         hold_bad = (case state of None \<Rightarrow> False
           | Some s \<Rightarrow> sv_ownership_hold_malformed s \<or> sv_unresolved_hold_malformed s
               \<or> sv_spawning_hold_malformed s);
         child = (case state of None \<Rightarrow> None | Some s \<Rightarrow> sv_child s);
         child_present = (case child of None \<Rightarrow> False | Some c \<Rightarrow> child_alive src c);
         unknown' = (case child of
             Some c \<Rightarrow> unknown \<or> \<not> child_present
               \<and> \<not> process_absence_proven src (ch_pid c) (Some (ch_start_time_ticks c))
           | None \<Rightarrow> unknown)
     in Ok \<lparr>
       desired_generation = desired,
       applied_generation = (case state of None \<Rightarrow> 0 | Some s \<Rightarrow> sv_applied_generation s),
       mission_status = map_option ms_status mission,
       mission_generation = map_option ms_generation mission,
       mission_commit = map_option ms_commit mission,
       owned_worker_pid = owned_pid,
       owned_worker_commit = (case meta of None \<Rightarrow> None | Some m \<Rightarrow> mv_git_commit m),
       owned_worker_identity_proven = owned_proven,
       pre_spawn_obligation = (case state of None \<Rightarrow> False | Some s \<Rightarrow> sv_spawning s),
       unresolved_child = (case state of None \<Rightarrow> False | Some s \<Rightarrow> sv_unresolved_child s),
       candidate_ready = (case state of None \<Rightarrow> False | Some s \<Rightarrow> sv_ready s),
       rollback_pending = (case mission of None \<Rightarrow> False | Some m \<Rightarrow> ms_status m = ''pending''),
       durable_malformed = meta_bad \<or> mission_bad \<or> desired_bad \<or> state_bad \<or> hold_bad,
       supervisor_child_present = child_present,
       current_child_identity_proven =
         (case child of None \<Rightarrow> False | Some c \<Rightarrow> child_is_our_direct_child src c),
       ownership_hold_malformed = (case state of None \<Rightarrow> False | Some s \<Rightarrow> sv_ownership_hold_malformed s),
       unresolved_hold_malformed = (case state of None \<Rightarrow> False | Some s \<Rightarrow> sv_unresolved_hold_malformed s),
       spawning_hold_malformed = (case state of None \<Rightarrow> False | Some s \<Rightarrow> sv_spawning_hold_malformed s),
       identity_observation_unknown = unknown'\<rparr>))"

fun first_phase :: "(bool \<times> LifecyclePhase) list \<Rightarrow> LifecyclePhase" where
  "first_phase [] = UNMANAGED"
| "first_phase ((condition, phase) # rest) = (if condition then phase else first_phase rest)"

definition phase_from_facts :: "AuthorityFacts \<Rightarrow> LifecyclePhase" where
  "phase_from_facts facts = first_phase
    [(durable_malformed facts \<or> identity_observation_unknown facts \<or> ownership_hold_malformed facts
        \<or> unresolved_hold_malformed facts \<or> spawning_hold_malformed facts, OWNERSHIP_PENDING),
     (mission_status facts = Some ''pending'', MISSION_PENDING),
     (mission_status facts = Some ''confirmed'', CONFIRMED),
     (mission_status facts = Some ''rolled_back'', ROLLED_BACK),
     (supervisor_child_present facts \<or> owned_worker_identity_proven facts, RUNNING),
     (pre_spawn_obligation facts, SPAWN_OBLIGATION),
     (unresolved_child facts, SPAWNING)]"

definition current_phase :: "Sources \<Rightarrow> LifecyclePhase res" where
  "current_phase src = ebind (reconcile_authority_facts src) (\<lambda>facts. Ok (phase_from_facts facts))"

section \<open>Invariants\<close>

datatype invariant_code = SINGLE_CONSUMER | GENERATION_MONOTONIC | MALFORMED_NEVER_ERASED
  | NO_REPLACEMENT_WHILE_UNRESOLVED | NO_SIGNAL_WITHOUT_PROOF | CRASH_CONVERGES_TO_ONE_OR_ZERO
  | NO_LIVE_CONSUMER_WITHOUT_AUTHORITY

definition trusted_generation :: "AuthorityFacts \<Rightarrow> int" where
  "trusted_generation facts = (case (mission_status facts = Some ''pending'', mission_generation facts) of
      (True, Some g) \<Rightarrow> max (desired_generation facts) g
    | _ \<Rightarrow> desired_generation facts)"

definition generation_monotonic_violations :: "AuthorityFacts \<Rightarrow> invariant_code list" where
  "generation_monotonic_violations facts =
    (if applied_generation facts < 0 then [GENERATION_MONOTONIC]
     else if applied_generation facts > trusted_generation facts then [GENERATION_MONOTONIC]
     else [])"

definition authority_violations :: "AuthorityFacts \<Rightarrow> invariant_code list" where
  "authority_violations facts =
    (let live_owned = owned_worker_identity_proven facts \<or> supervisor_child_present facts;
         blocking = pre_spawn_obligation facts \<or> unresolved_child facts
           \<or> ownership_hold_malformed facts \<or> unresolved_hold_malformed facts
           \<or> spawning_hold_malformed facts
     in (if live_consumers facts > 1 then [SINGLE_CONSUMER, CRASH_CONVERGES_TO_ONE_OR_ZERO] else [])
        @ generation_monotonic_violations facts
        @ (if durable_malformed facts \<and> \<not> blocking \<and> \<not> live_owned then [MALFORMED_NEVER_ERASED] else [])
        @ (if unresolved_child facts \<and> (pre_spawn_obligation facts \<or> supervisor_child_present facts)
           then [NO_REPLACEMENT_WHILE_UNRESOLVED] else [])
        @ (if supervisor_child_present facts \<and> owned_worker_pid facts \<noteq> None
             \<and> \<not> owned_worker_identity_proven facts then [NO_SIGNAL_WITHOUT_PROOF] else [])
        @ (if live_owned \<and> durable_malformed facts then [NO_LIVE_CONSUMER_WITHOUT_AUTHORITY] else []))"

definition check_authority_invariants :: "AuthorityFacts \<Rightarrow> invariant_code list" where
  "check_authority_invariants facts = authority_violations facts"

definition invariant_name :: "invariant_code \<Rightarrow> string" where
  "invariant_name c = (case c of
      SINGLE_CONSUMER \<Rightarrow> ''SINGLE_CONSUMER'' | GENERATION_MONOTONIC \<Rightarrow> ''GENERATION_MONOTONIC''
    | MALFORMED_NEVER_ERASED \<Rightarrow> ''MALFORMED_NEVER_ERASED''
    | NO_REPLACEMENT_WHILE_UNRESOLVED \<Rightarrow> ''NO_REPLACEMENT_WHILE_UNRESOLVED''
    | NO_SIGNAL_WITHOUT_PROOF \<Rightarrow> ''NO_SIGNAL_WITHOUT_PROOF''
    | CRASH_CONVERGES_TO_ONE_OR_ZERO \<Rightarrow> ''CRASH_CONVERGES_TO_ONE_OR_ZERO''
    | NO_LIVE_CONSUMER_WITHOUT_AUTHORITY \<Rightarrow> ''NO_LIVE_CONSUMER_WITHOUT_AUTHORITY'')"

definition assert_authority_invariants :: "AuthorityFacts \<Rightarrow> unit res" where
  "assert_authority_invariants facts = (case authority_violations facts of
      [] \<Rightarrow> Ok () | code # _ \<Rightarrow> Raise (AuthorityInvariantError (invariant_name code)))"

section \<open>Guards\<close>

definition authorize_spawn :: "AuthorityFacts \<Rightarrow> bool" where
  "authorize_spawn facts =
    (if durable_malformed facts \<or> identity_observation_unknown facts then False
     else if pre_spawn_obligation facts \<or> unresolved_child facts then False
     else if owned_worker_identity_proven facts \<or> supervisor_child_present facts then False
     else live_consumers facts = 0)"

definition authorize_recovery :: "AuthorityFacts \<Rightarrow> bool" where
  "authorize_recovery facts =
    (if durable_malformed facts \<or> identity_observation_unknown facts then False
     else if \<not> unresolved_child facts then False
     else check_authority_invariants facts = [])"

definition authorize_retirement :: "AuthorityFacts \<Rightarrow> bool" where
  "authorize_retirement facts =
    (if durable_malformed facts then False else current_child_identity_proven facts)"

record SupervisorConvergenceFacts =
  sc_target_commit :: string
  sc_minimum_generation :: int
  sc_desired_commit :: string
  sc_desired_generation :: int
  sc_applied_commit :: "string option"
  sc_applied_generation :: int
  sc_ready :: "bool option"
  sc_holding :: bool
  sc_live_child :: bool

definition authorize_supervisor_convergence :: "SupervisorConvergenceFacts \<Rightarrow> bool" where
  "authorize_supervisor_convergence facts =
    (if sc_minimum_generation facts < 0 then False
     else if sc_desired_commit facts \<noteq> sc_target_commit facts
       \<or> sc_applied_commit facts \<noteq> Some (sc_target_commit facts) then False
     else if sc_desired_generation facts < sc_minimum_generation facts then False
     else if \<not> (sc_minimum_generation facts \<le> sc_applied_generation facts
       \<and> sc_applied_generation facts \<le> sc_desired_generation facts) then False
     else sc_ready facts = Some True \<and> \<not> sc_holding facts \<and> sc_live_child facts)"

definition authorize_mission_publish :: "AuthorityFacts \<Rightarrow> bool" where
  "authorize_mission_publish facts =
    (if durable_malformed facts then False else mission_status facts \<noteq> Some ''pending'')"

definition authorize_mission_confirm :: "AuthorityFacts \<Rightarrow> bool" where
  "authorize_mission_confirm facts =
    (if durable_malformed facts then False
     else if mission_status facts = Some ''confirmed'' then True
     else mission_status facts = Some ''pending'' \<and> candidate_ready facts)"

definition authorize_mission_rollback :: "AuthorityFacts \<Rightarrow> bool" where
  "authorize_mission_rollback facts =
    (if durable_malformed facts then False
     else if mission_status facts = Some ''rolled_back'' then True
     else mission_status facts = Some ''pending'')"

definition mutation_blocker_reason :: "MissionView option res \<Rightarrow> string option res" where
  "mutation_blocker_reason mission = (case mission of
      Inl (DeployCtlError m) \<Rightarrow> Ok (Some ''supervised deployment state is unreadable or corrupt'')
    | Inl e \<Rightarrow> Raise e
    | Inr None \<Rightarrow> Ok None
    | Inr (Some m) \<Rightarrow>
        if ms_status m = ''pending'' then Ok (Some ''a supervised checkout is still pending confirmation'')
        else if ms_status m \<notin> {''confirmed'', ''rolled_back''}
          then Ok (Some ''supervised deployment state has unknown status'')
        else Ok None)"

definition mutation_blocked :: "MissionView option res \<Rightarrow> bool res" where
  "mutation_blocked mission = ebind (mutation_blocker_reason mission) (\<lambda>r. Ok (r \<noteq> None))"

definition refuses_version_change :: "'m option \<Rightarrow> string \<Rightarrow> string option \<Rightarrow> bool" where
  "refuses_version_change previous commit git_commit \<longleftrightarrow>
     previous \<noteq> None \<and> git_commit \<noteq> Some commit"

section \<open>Missions under their guards\<close>

text \<open>The status of the supervised mission as the guarded operations move it, other facts changing freely.\<close>

inductive mission_step :: "AuthorityFacts \<Rightarrow> AuthorityFacts \<Rightarrow> bool" where
  publish: "authorize_mission_publish f \<Longrightarrow> mission_status f' = Some ''pending'' \<Longrightarrow> mission_step f f'"
| confirm: "authorize_mission_confirm f \<Longrightarrow> mission_status f' = Some ''confirmed'' \<Longrightarrow> mission_step f f'"
| rollback: "authorize_mission_rollback f \<Longrightarrow> mission_status f' = Some ''rolled_back'' \<Longrightarrow> mission_step f f'"
| observe: "mission_status f' = mission_status f \<Longrightarrow> mission_step f f'"

text \<open>Concrete facts: nothing running and nothing pending.\<close>

definition idle_facts :: AuthorityFacts where
  "idle_facts = \<lparr>desired_generation = 2, applied_generation = 2, mission_status = None,
     mission_generation = None, mission_commit = None, owned_worker_pid = None,
     owned_worker_commit = None, owned_worker_identity_proven = False, pre_spawn_obligation = False,
     unresolved_child = False, candidate_ready = False, rollback_pending = False,
     durable_malformed = False, supervisor_child_present = False,
     current_child_identity_proven = False, ownership_hold_malformed = False,
     unresolved_hold_malformed = False, spawning_hold_malformed = False,
     identity_observation_unknown = False\<rparr>"

definition unreadable_sources :: Sources where
  "unreadable_sources = \<lparr>read_meta_strict = Inr None, read_rollback_state = Inr None,
     read_desired_client = Inr (Some 2), read_state_client = Raise OSError,
     worker_alive = (\<lambda>_. False), process_absence_proven = (\<lambda>_ _. True), child_alive = (\<lambda>_. False),
     child_is_our_direct_child = (\<lambda>_. False)\<rparr>"

inductive_cases mission_stepE: "mission_step f f'"

section \<open>Guards fail closed\<close>

text \<open>The contract every guard keeps: corrupt durable state authorizes nothing.\<close>

locale fail_closed_guard =
  fixes guard :: "AuthorityFacts \<Rightarrow> bool"
  assumes malformed_refused: "durable_malformed facts \<Longrightarrow> \<not> guard facts"
begin

lemma unreadable_refused:
  "reconcile_authority_facts src = Inr facts \<Longrightarrow> durable_malformed facts \<Longrightarrow> \<not> guard facts"
  using malformed_refused .

lemma authorized_sound: "guard facts \<Longrightarrow> \<not> durable_malformed facts"
  using malformed_refused by blast

end

text \<open>The guards that start or converge a process also refuse an undetermined observation.\<close>

locale identity_guard = fail_closed_guard +
  assumes unknown_refused: "identity_observation_unknown facts \<Longrightarrow> \<not> guard facts"

interpretation spawn_guard: identity_guard authorize_spawn
  by unfold_locales (simp_all add: authorize_spawn_def)

interpretation recovery_guard: identity_guard authorize_recovery
  by unfold_locales (simp_all add: authorize_recovery_def)

interpretation retirement_guard: fail_closed_guard authorize_retirement
  by unfold_locales (simp add: authorize_retirement_def)

interpretation publish_guard: fail_closed_guard authorize_mission_publish
  by unfold_locales (simp add: authorize_mission_publish_def)

interpretation confirm_guard: fail_closed_guard authorize_mission_confirm
  by unfold_locales (simp add: authorize_mission_confirm_def)

interpretation rollback_guard: fail_closed_guard authorize_mission_rollback
  by unfold_locales (simp add: authorize_mission_rollback_def)

lemmas guards_fail_closed = spawn_guard.malformed_refused recovery_guard.malformed_refused
  retirement_guard.malformed_refused publish_guard.malformed_refused confirm_guard.malformed_refused
  rollback_guard.malformed_refused

section \<open>Reconciled facts\<close>

lemma reconcile_malformed:
  assumes "reconcile_authority_facts src = Inr facts"
    and "\<not> is_ok (read_meta_strict src) \<or> \<not> is_ok (read_rollback_state src)
       \<or> \<not> is_ok (read_desired_client src) \<or> \<not> is_ok (read_state_client src)"
  shows "durable_malformed facts"
proof -
  have "\<exists>e. read_rollback_state src = Inl e \<Longrightarrow> \<exists>m. read_rollback_state src = Inl (DeployCtlError m)"
    using assms(1) by (auto simp: reconcile_authority_facts_def Let_def split: pyerr.splits)
  then show ?thesis
    using assms by (cases "read_rollback_state src") (auto simp: reconcile_authority_facts_def Let_def)
qed

lemma live_consumers_iff:
  "live_consumers facts = (if owned_worker_identity_proven facts \<or> supervisor_child_present facts then 1 else 0)
     + (if unresolved_child facts then 1 else 0)"
  by (simp add: live_consumers_def)

lemma authorize_spawn_iff:
  "authorize_spawn facts \<longleftrightarrow> \<not> durable_malformed facts \<and> \<not> identity_observation_unknown facts
     \<and> \<not> pre_spawn_obligation facts \<and> \<not> unresolved_child facts
     \<and> \<not> owned_worker_identity_proven facts \<and> \<not> supervisor_child_present facts"
  by (auto simp: authorize_spawn_def live_consumers_iff)

lemma no_violations_iff:
  "authority_violations facts = [] \<longleftrightarrow>
     live_consumers facts \<le> 1 \<and> 0 \<le> applied_generation facts
     \<and> applied_generation facts \<le> trusted_generation facts
     \<and> (durable_malformed facts \<longrightarrow> \<not> owned_worker_identity_proven facts \<and> \<not> supervisor_child_present facts
          \<and> (pre_spawn_obligation facts \<or> unresolved_child facts \<or> ownership_hold_malformed facts
             \<or> unresolved_hold_malformed facts \<or> spawning_hold_malformed facts))
     \<and> (unresolved_child facts \<longrightarrow> \<not> pre_spawn_obligation facts \<and> \<not> supervisor_child_present facts)
     \<and> (supervisor_child_present facts \<longrightarrow> owned_worker_pid facts \<noteq> None \<longrightarrow> owned_worker_identity_proven facts)"
  by (auto simp: authority_violations_def generation_monotonic_violations_def Let_def)

section \<open>Properties of the guards\<close>



text \<open>A spawn is authorized only onto an empty slot: no consumer is live, none is unresolved or
  obligated, and publishing the new child makes exactly one live consumer and leaves the
  single-consumer and no-replacement invariants intact.\<close>

theorem authorized_spawn_is_single:
  assumes "authorize_spawn facts"
  shows "live_consumers facts = 0 \<and> live_consumers (facts\<lparr>supervisor_child_present := True\<rparr>) = 1
    \<and> SINGLE_CONSUMER \<notin> set (check_authority_invariants (facts\<lparr>supervisor_child_present := True\<rparr>))
    \<and> NO_REPLACEMENT_WHILE_UNRESOLVED
        \<notin> set (check_authority_invariants (facts\<lparr>supervisor_child_present := True\<rparr>))"
  using assms
  by (auto simp: authorize_spawn_iff live_consumers_iff check_authority_invariants_def
      authority_violations_def generation_monotonic_violations_def Let_def split: if_splits)

theorem authorized_spawn_is_single_witness:
  "authorize_spawn idle_facts \<and> live_consumers (idle_facts\<lparr>supervisor_child_present := True\<rparr>) = 1"
proof -
  have "authorize_spawn idle_facts" by (simp add: authorize_spawn_iff idle_facts_def)
  with authorized_spawn_is_single [OF this] show ?thesis by simp
qed

text \<open>Recovery and spawn exclude each other, and recovery competes with nothing: when recovery is
  authorized there is an unresolved child, and no proven worker, no published child and no pre-spawn
  obligation beside it, and the applied generation is within what is trusted.\<close>

theorem authorized_recovery_is_exclusive:
  assumes "authorize_recovery facts"
  shows "\<not> authorize_spawn facts \<and> unresolved_child facts \<and> live_consumers facts = 1
    \<and> \<not> owned_worker_identity_proven facts \<and> \<not> supervisor_child_present facts
    \<and> \<not> pre_spawn_obligation facts
    \<and> 0 \<le> applied_generation facts \<and> applied_generation facts \<le> trusted_generation facts"
  using assms
  by (auto simp: authorize_recovery_def authorize_spawn_iff check_authority_invariants_def
      no_violations_iff live_consumers_iff split: if_splits)

theorem authorized_recovery_is_exclusive_witness:
  "authorize_recovery (idle_facts\<lparr>unresolved_child := True\<rparr>)
     \<and> \<not> authorize_spawn (idle_facts\<lparr>unresolved_child := True\<rparr>)"
proof -
  have "authorize_recovery (idle_facts\<lparr>unresolved_child := True\<rparr>)"
    by (simp add: authorize_recovery_def check_authority_invariants_def no_violations_iff live_consumers_iff
        trusted_generation_def idle_facts_def)
  with authorized_recovery_is_exclusive [OF this] show ?thesis by simp
qed

text \<open>The invariant check is exact: it is clean precisely when at most one consumer is live, the
  applied generation is non-negative and trusted, malformed state is blocked and beside no live
  consumer, an unresolved child stands alone, and a published child beside a recorded worker is
  proven; the raising form raises exactly when it is not clean.\<close>

theorem invariant_check_is_exact:
  "(check_authority_invariants facts = [] \<longleftrightarrow>
     live_consumers facts \<le> 1 \<and> 0 \<le> applied_generation facts
     \<and> applied_generation facts \<le> trusted_generation facts
     \<and> (\<not> durable_malformed facts \<or> \<not> owned_worker_identity_proven facts \<and> \<not> supervisor_child_present facts
          \<and> (pre_spawn_obligation facts \<or> unresolved_child facts \<or> ownership_hold_malformed facts
             \<or> unresolved_hold_malformed facts \<or> spawning_hold_malformed facts))
     \<and> \<not> (unresolved_child facts \<and> (pre_spawn_obligation facts \<or> supervisor_child_present facts))
     \<and> \<not> (supervisor_child_present facts \<and> owned_worker_pid facts \<noteq> None
          \<and> \<not> owned_worker_identity_proven facts))
   \<and> (assert_authority_invariants facts = Inr () \<longleftrightarrow> check_authority_invariants facts = [])"
proof -
  have "assert_authority_invariants facts = Inr () \<longleftrightarrow> authority_violations facts = []"
    by (simp add: assert_authority_invariants_def split: list.splits)
  then show ?thesis by (auto simp: check_authority_invariants_def no_violations_iff)
qed

theorem invariant_check_is_exact_witness:
  "check_authority_invariants idle_facts = [] \<and> assert_authority_invariants idle_facts = Inr ()"
  using invariant_check_is_exact [of idle_facts]
  by (simp add: idle_facts_def live_consumers_def trusted_generation_def)

lemma mission_terminal:
  assumes "mission_step f f'" "mission_status f = Some ''confirmed'' \<or> mission_status f = Some ''rolled_back''"
  shows "mission_status f' = mission_status f \<or> mission_status f' = Some ''pending''"
  using assms
  by (auto elim!: mission_stepE simp: authorize_mission_confirm_def authorize_mission_rollback_def
      split: if_splits)

text \<open>A mission is never both confirmed and rolled back: whatever happens to the other facts, no
  sequence of guarded mission steps without a new publication leads from confirmed to rolled back or
  the other way.\<close>

theorem terminal_missions_stay:
  assumes "(\<lambda>a b. mission_step a b \<and> mission_status b \<noteq> Some ''pending'')\<^sup>*\<^sup>* f f'"
    and "mission_status f = Some ''confirmed'' \<or> mission_status f = Some ''rolled_back''"
  shows "mission_status f' = mission_status f"
  using assms by (induction rule: rtranclp_induct) (auto dest: mission_terminal)

theorem terminal_missions_stay_witness:
  "mission_status (idle_facts\<lparr>mission_status := Some ''confirmed'', candidate_ready := True\<rparr>)
     = mission_status (idle_facts\<lparr>mission_status := Some ''confirmed''\<rparr>)"
proof (rule terminal_missions_stay)
  show "(\<lambda>a b. mission_step a b \<and> mission_status b \<noteq> Some ''pending'')\<^sup>*\<^sup>*
      (idle_facts\<lparr>mission_status := Some ''confirmed''\<rparr>)
      (idle_facts\<lparr>mission_status := Some ''confirmed'', candidate_ready := True\<rparr>)"
    by (rule r_into_rtranclp) (simp add: mission_step.confirm authorize_mission_confirm_def idle_facts_def)
qed simp

text \<open>Leaving an armed failpoint disarms every failpoint, also one armed by an enclosing block.\<close>

theorem armed_failpoint_clears_all:
  "snd (armed_failpoint name exc block fps) = Map.empty
   \<and> fst (armed_failpoint ''outer'' None (\<lambda>f. let (_, f') = armed_failpoint ''inner'' None (\<lambda>g. (Ok (), g)) f
        in (failpoint f' ''outer'', f')) Map.empty) = Inr ()"
  by (simp add: armed_failpoint_def disarm_failpoints_def arm_failpoint_def failpoint_def split: prod.splits)

end
