(* ===== verification/WorkerProbe.thy ===== *)
theory WorkerProbe
  imports Mission Effects GroupReclaim
begin

text \<open>
  Exact process identities. \<open>src/lubko/lifecycle.py\<close>: \<open>process_identity\<close>, \<open>process_has_token\<close>,
  \<open>identity_matches\<close>, \<open>worker_alive\<close> and \<open>process_absence_proven\<close>; \<open>src/lubko/supervise.py\<close>:
  \<open>child_alive\<close> and \<open>child_is_our_direct_child\<close>. The kernel is the history of \<open>ProcTable\<close> with the
  two system calls and the \<open>status\<close> file these functions read besides; every observation happens at
  an instant of its own.
\<close>

section \<open>The host\<close>

record Host = Kernel +
  h_getpgid :: "nat \<Rightarrow> int \<Rightarrow> int option"
  h_getsid :: "nat \<Rightarrow> int \<Rightarrow> int option"
  h_status :: "nat \<Rightarrow> int \<Rightarrow> pybytes option"
  h_getpid :: int

type_synonym 'a probe = "(World, 'a) eff"

definition io_act :: "'a act \<Rightarrow> 'a probe" where
  "io_act a w = (case run_state a w of (x, w') \<Rightarrow> (Ok x, w'))"

abbreviation kernel_of :: "'z Host_scheme \<Rightarrow> Kernel" where
  "kernel_of H \<equiv> Kernel.truncate H"

section \<open>Identities\<close>

record ProcessIdentity =
  pi_pid :: int
  pi_pgid :: int
  pi_sid :: int
  pi_start_time_ticks :: int

definition process_identity :: "'z Host_scheme \<Rightarrow> int \<Rightarrow> ProcessIdentity option probe" where
  "process_identity H pid =
    io_bind (io_act (process_is_zombie (kernel_of H) pid)) (\<lambda>zombie.
    if zombie then io_return None
    else io_bind (io_act (proc_start_ticks (kernel_of H) pid)) (\<lambda>ticks. case ticks of
        None \<Rightarrow> io_return None
      | Some start_time_ticks \<Rightarrow>
          io_bind (io_act (observe (\<lambda>t. h_getpgid H t pid))) (\<lambda>pgid. case pgid of
              None \<Rightarrow> io_return None
            | Some pgid \<Rightarrow>
                io_bind (io_act (observe (\<lambda>t. h_getsid H t pid))) (\<lambda>sid. case sid of
                    None \<Rightarrow> io_return None
                  | Some sid \<Rightarrow> io_return (Some \<lparr>pi_pid = pid, pi_pgid = pgid, pi_sid = sid,
                      pi_start_time_ticks = start_time_ticks\<rparr>)))))"

definition LIFECYCLE_MARKER_VAR :: pystr where
  "LIFECYCLE_MARKER_VAR = lit ''LUBKO_LIFECYCLE_TOKEN''"

definition process_has_token :: "'z Host_scheme \<Rightarrow> int \<Rightarrow> pystr \<Rightarrow> bool probe" where
  "process_has_token H pid token =
    io_bind (io_lift (utf8_encode (LIFECYCLE_MARKER_VAR @ [61] @ token))) (\<lambda>expected.
    io_bind (io_act (observe (\<lambda>t. Option.bind (k_procs H t pid) pr_environ))) (\<lambda>environ. case environ of
        None \<Rightarrow> io_return False
      | Some bs \<Rightarrow> io_return (expected \<in> set (split_nul bs))))"

definition identity_matches :: "WorkerMeta \<Rightarrow> ProcessIdentity \<Rightarrow> bool" where
  "identity_matches meta identity =
    (case wm_pid meta of None \<Rightarrow> False | Some pid \<Rightarrow>
      if wm_start_time_ticks meta = None \<or> wm_start_time_ticks meta \<noteq> Some (pi_start_time_ticks identity) then False
      else if wm_pgid meta \<noteq> None \<and> wm_pgid meta \<noteq> Some (pi_pgid identity) then False
      else if wm_sid meta \<noteq> None \<and> wm_sid meta \<noteq> Some (pi_sid identity) then False
      else pid = pi_pid identity)"

definition worker_alive :: "'z Host_scheme \<Rightarrow> WorkerMeta \<Rightarrow> bool probe" where
  "worker_alive H meta = (case wm_pid meta of
      None \<Rightarrow> io_return False
    | Some pid \<Rightarrow>
        io_bind (process_identity H pid) (\<lambda>identity. case identity of
            None \<Rightarrow> io_return False
          | Some i \<Rightarrow>
              if \<not> identity_matches meta i then io_return False
              else (case wm_token meta of
                  None \<Rightarrow> io_return True
                | Some token \<Rightarrow> process_has_token H pid token)))"

text \<open>\<open>process_absence_proven\<close> reads the file itself: no entry, another error, or its bytes.\<close>

definition absence_in_stat :: "pybytes \<Rightarrow> int option \<Rightarrow> bool" where
  "absence_in_stat stat start_time_ticks =
    (let flds = (case rfind_byte 41 stat of None \<Rightarrow> [] | Some p \<Rightarrow> split_ws (drop (p + 2) stat)) in
     if length flds < STAT_MIN_FIELDS then False
     else if flds ! STAT_STATE_FIELD_INDEX \<in> {[90], [88]} then True
     else (case (py_int (flds ! STAT_STARTTIME_FIELD_INDEX), start_time_ticks) of
         (Some observed, Some recorded) \<Rightarrow> observed \<noteq> recorded
       | _ \<Rightarrow> False))"

definition process_absence_proven :: "'z Host_scheme \<Rightarrow> int \<Rightarrow> int option \<Rightarrow> bool probe" where
  "process_absence_proven H pid start_time_ticks = io_act (observe (\<lambda>t. case k_procs H t pid of
      None \<Rightarrow> True
    | Some p \<Rightarrow> (case pr_stat p of None \<Rightarrow> False | Some stat \<Rightarrow> absence_in_stat stat start_time_ticks)))"

definition identity_is_private_session :: "ProcessIdentity \<Rightarrow> bool" where
  "identity_is_private_session i \<longleftrightarrow> pi_pgid i = pi_pid i \<and> pi_sid i = pi_pid i"

section \<open>Children of the supervisor\<close>

definition child_alive :: "'z Host_scheme \<Rightarrow> WorkerChild \<Rightarrow> bool probe" where
  "child_alive H child =
    io_bind (io_act (process_is_zombie (kernel_of H) (wc_pid child))) (\<lambda>zombie.
    if zombie then io_return False
    else io_bind (io_act (proc_start_ticks (kernel_of H) (wc_pid child))) (\<lambda>ticks.
      io_return (ticks = Some (wc_start_time_ticks child))))"

text \<open>\<open>bytes.splitlines()\<close>.\<close>

fun split_lines :: "pybytes \<Rightarrow> pybytes list" where
  "split_lines [] = []"
| "split_lines [b] = (if b = 10 \<or> b = 13 then [[]] else [[b]])"
| "split_lines (b # c # bs) =
    (if b = 13 \<and> c = 10 then [] # split_lines bs
     else if b = 10 \<or> b = 13 then [] # split_lines (c # bs)
     else (case split_lines (c # bs) of [] \<Rightarrow> [[b]]
       | l # ls \<Rightarrow> if c = 10 \<or> c = 13 then [b] # ls else (b # l) # ls))"

definition status_ppid :: "pybytes \<Rightarrow> int option" where
  "status_ppid status = (case find (\<lambda>l. take 5 l = map of_nat (lit ''PPid:'')) (split_lines status) of
      None \<Rightarrow> None
    | Some line \<Rightarrow> (case split_ws line of _ # v # _ \<Rightarrow> py_int v | _ \<Rightarrow> None))"

definition child_is_our_direct_child :: "'z Host_scheme \<Rightarrow> WorkerChild \<Rightarrow> bool probe" where
  "child_is_our_direct_child H child =
    io_bind (child_alive H child) (\<lambda>alive.
    if \<not> alive then io_return False
    else io_bind (io_act (observe (\<lambda>t. h_status H t (wc_pid child)))) (\<lambda>status.
      io_return (Option.bind status status_ppid = Some (h_getpid H))))"

end
