(* ===== verification/WorkerStop.thy ===== *)
theory WorkerStop
  imports WorkerProbe LifecycleState PyUuid
begin

text \<open>
  \<open>src/lubko/lifecycle.py\<close>: \<open>stop_worker\<close>, which retires a recorded worker: pin the process, prove its
  identity and token, ask every proven member of its group to drain, wait, and kill what did not.
  \<open>src/lubko/worker.py\<close>: the drain sentinel it watches. Besides the host, the monotonic clock and the
  sentinel files are functions of the instant; \<open>ws_fuel\<close> bounds the iterations of a waiting loop.
\<close>

record Stopper = Host +
  ws_monotonic :: "nat \<Rightarrow> pyfloat"
  ws_sentinel :: "nat \<Rightarrow> pystr \<Rightarrow> pybytes option"
  ws_failpoints :: failpoints
  ws_fuel :: nat

definition DEFAULT_CANCEL_GRACE_SECONDS :: pyfloat where
  "DEFAULT_CANCEL_GRACE_SECONDS = FFin 5 0"

definition STOP_DRAIN_OVERHEAD_SLACK_SECONDS :: pyfloat where
  "STOP_DRAIN_OVERHEAD_SLACK_SECONDS = FFin 2 0"

definition float_max :: "pyfloat \<Rightarrow> pyfloat \<Rightarrow> pyfloat" where
  "float_max a b = (if float_less a b then b else a)"

definition time_monotonic :: "'z Stopper_scheme \<Rightarrow> pyfloat probe" where
  "time_monotonic H = io_act (observe (ws_monotonic H))"

definition drain_sentinel_matches :: "'z Stopper_scheme \<Rightarrow> pystr \<Rightarrow> bool probe" where
  "drain_sentinel_matches H incarnation = io_bind (io_act (observe (\<lambda>t. ws_sentinel H t incarnation))) (\<lambda>file.
     case file of
       None \<Rightarrow> io_return False
     | Some bs \<Rightarrow> if utf8_encode (utf8_decode bs) \<noteq> Ok bs then io_raise UnicodeDecodeError
         else io_return (strip_chars uni_space (utf8_decode bs) = incarnation))"

section \<open>Signals to a group\<close>

definition live_group_member_pids :: "'z Host_scheme \<Rightarrow> int \<Rightarrow> int list probe" where
  "live_group_member_pids H pgid = io_bind (io_act (observe (k_listing H))) (\<lambda>listing. case listing of
      None \<Rightarrow> io_return []
    | Some names \<Rightarrow> io_act (all_in_group (kernel_of H) pgid names))"

definition signal_member :: "'z Host_scheme \<Rightarrow> int \<Rightarrow> int \<Rightarrow> pystr \<Rightarrow> int \<Rightarrow> bool probe" where
  "signal_member H pgid sig token pid =
    io_bind (io_act (open_pidfd (kernel_of H) pid)) (\<lambda>pin. case pin of
        None \<Rightarrow> io_return False
      | Some pidfd \<Rightarrow>
          io_bind (io_act (process_pgrp (kernel_of H) pid)) (\<lambda>pgrp.
          if pgrp \<noteq> Some pgid then io_return False
          else io_bind (process_has_token H pid token) (\<lambda>owned.
            if \<not> owned then io_return False
            else io_act (pidfd_send_signal (kernel_of H) pid pidfd sig))))"

fun signal_members :: "'z Host_scheme \<Rightarrow> int \<Rightarrow> int \<Rightarrow> pystr \<Rightarrow> int list \<Rightarrow> bool probe" where
  "signal_members H pgid sig token [] = io_return False"
| "signal_members H pgid sig token (pid # pids) =
    io_bind (signal_member H pgid sig token pid) (\<lambda>sent.
    io_bind (signal_members H pgid sig token pids) (\<lambda>attempted. io_return (sent \<or> attempted)))"

definition signal_exact_group :: "'z Host_scheme \<Rightarrow> int \<Rightarrow> int \<Rightarrow> pystr option \<Rightarrow> bool probe" where
  "signal_exact_group H pgid sig token = (case token of
      None \<Rightarrow> io_return False
    | Some tok \<Rightarrow> io_bind (live_group_member_pids H pgid) (signal_members H pgid sig tok))"

section \<open>Retirement\<close>

text \<open>\<open>Some True\<close>: gone; \<open>Some False\<close>: the recorded worker lives; \<open>None\<close>: unknown.\<close>

definition worker_retirement_state :: "'z Host_scheme \<Rightarrow> WorkerMeta \<Rightarrow> bool option probe" where
  "worker_retirement_state H meta = (case wm_pid meta of
      None \<Rightarrow> io_return (Some True)
    | Some pid \<Rightarrow> io_bind (process_identity H pid) (\<lambda>identity. case identity of
        None \<Rightarrow> io_bind (WorkerProbe.process_absence_proven H pid (wm_start_time_ticks meta)) (\<lambda>absent.
          io_return (if absent then Some True else None))
      | Some i \<Rightarrow> io_return
          (if identity_matches meta i then Some False
           else if wm_start_time_ticks meta \<noteq> None \<and> Some (pi_start_time_ticks i) \<noteq> wm_start_time_ticks meta
             then Some True else None)))"

fun retirement_loop :: "nat \<Rightarrow> 'z Stopper_scheme \<Rightarrow> WorkerMeta \<Rightarrow> pyfloat \<Rightarrow> bool probe" where
  "retirement_loop 0 H meta deadline = io_raise NoReturn"
| "retirement_loop (Suc n) H meta deadline = io_bind (time_monotonic H) (\<lambda>now.
    if \<not> float_less now deadline
    then io_bind (worker_retirement_state H meta) (\<lambda>r. io_return (r = Some True))
    else io_bind (worker_retirement_state H meta) (\<lambda>r.
      if r = Some True then io_return True else retirement_loop n H meta deadline))"

definition wait_for_retirement :: "'z Stopper_scheme \<Rightarrow> WorkerMeta \<Rightarrow> pyfloat \<Rightarrow> bool probe" where
  "wait_for_retirement H meta deadline = retirement_loop (ws_fuel H) H meta deadline"

text \<open>The inner loop, once the sentinel was seen.\<close>

fun drained_loop :: "nat \<Rightarrow> 'z Stopper_scheme \<Rightarrow> WorkerMeta \<Rightarrow> pyfloat \<Rightarrow> bool probe" where
  "drained_loop 0 H meta deadline = io_raise NoReturn"
| "drained_loop (Suc n) H meta deadline = io_bind (time_monotonic H) (\<lambda>now.
    if \<not> float_less now deadline then io_return False
    else io_bind (worker_retirement_state H meta) (\<lambda>r.
      if r = Some True then io_return True else drained_loop n H meta deadline))"

fun drain_loop :: "nat \<Rightarrow> 'z Stopper_scheme \<Rightarrow> WorkerMeta \<Rightarrow> pyfloat \<Rightarrow> bool probe" where
  "drain_loop 0 H meta deadline = io_raise NoReturn"
| "drain_loop (Suc n) H meta deadline = io_bind (time_monotonic H) (\<lambda>now.
    if \<not> float_less now deadline then io_return False
    else io_bind (worker_retirement_state H meta) (\<lambda>r.
      if r = Some True then io_return True
      else io_bind (case wm_token meta of None \<Rightarrow> io_return False | Some token \<Rightarrow> drain_sentinel_matches H token) (\<lambda>drained.
        if drained then drained_loop (ws_fuel H) H meta deadline
        else drain_loop n H meta deadline)))"

definition wait_for_drain :: "'z Stopper_scheme \<Rightarrow> WorkerMeta \<Rightarrow> pyfloat \<Rightarrow> bool probe" where
  "wait_for_drain H meta deadline = drain_loop (ws_fuel H) H meta deadline"

text \<open>\<open>time.sleep(kill_floor - time.monotonic())\<close>: a negative length raises.\<close>

definition sleep_until :: "'z Stopper_scheme \<Rightarrow> pyfloat \<Rightarrow> unit probe" where
  "sleep_until H kill_floor = io_bind (time_monotonic H) (\<lambda>now.
     if \<not> float_less now kill_floor then io_return ()
     else io_bind (time_monotonic H) (\<lambda>later.
       if float_less (float_sub kill_floor later) float_zero
       then io_raise (ValueError ''sleep length must be non-negative'') else io_return ()))"

definition stop_pinned :: "'z Stopper_scheme \<Rightarrow> WorkerMeta \<Rightarrow> pyfloat \<Rightarrow> pyfloat \<Rightarrow> bool probe" where
  "stop_pinned H meta grace cancel_grace = (case wm_pid meta of
      None \<Rightarrow> io_return True
    | Some pid \<Rightarrow> io_bind (process_identity H pid) (\<lambda>identity. case identity of
        None \<Rightarrow> WorkerProbe.process_absence_proven H pid (wm_start_time_ticks meta)
      | Some i \<Rightarrow>
          if \<not> identity_matches meta i then io_return True
          else io_bind (case wm_token meta of None \<Rightarrow> io_return False | Some token \<Rightarrow> process_has_token H pid token) (\<lambda>owned.
            if \<not> owned then io_return False
            else io_bind (time_monotonic H) (\<lambda>start.
              let kill_floor = float_add (float_add start cancel_grace) STOP_DRAIN_OVERHEAD_SLACK_SECONDS;
                  wait_deadline = float_add start (float_max grace (float_add cancel_grace STOP_DRAIN_OVERHEAD_SLACK_SECONDS)) in
              io_bind (signal_exact_group H (pi_pgid i) SIGTERM (wm_token meta)) (\<lambda>_.
              io_bind (wait_for_drain H meta wait_deadline) (\<lambda>drained.
              if drained then io_return True
              else io_bind (sleep_until H kill_floor) (\<lambda>_.
                io_bind (worker_retirement_state H meta) (\<lambda>retired.
                if retired = Some True then io_return True
                else io_bind (signal_exact_group H (pi_pgid i) SIGKILL (wm_token meta)) (\<lambda>_.
                  io_bind (time_monotonic H) (\<lambda>now.
                    wait_for_retirement H meta (float_add now grace)))))))))))"

definition stop_worker :: "'z Stopper_scheme \<Rightarrow> WorkerMeta \<Rightarrow> pyfloat \<Rightarrow> pyfloat \<Rightarrow> bool probe" where
  "stop_worker H meta grace cancel_grace = (case wm_pid meta of
      None \<Rightarrow> io_return True
    | Some pid \<Rightarrow> io_bind (io_lift (failpoint (ws_failpoints H) ''process_retirement'')) (\<lambda>_.
        io_bind (io_act (open_pidfd (kernel_of H) pid)) (\<lambda>pin. case pin of
            None \<Rightarrow> WorkerProbe.process_absence_proven H pid (wm_start_time_ticks meta)
          | Some _ \<Rightarrow> stop_pinned H meta grace cancel_grace)))"

section \<open>Specification vocabulary\<close>

text \<open>The process at a process id carries the lifecycle token in its environment.\<close>

definition token_at :: "'z Host_scheme \<Rightarrow> nat \<Rightarrow> int \<Rightarrow> pystr \<Rightarrow> bool" where
  "token_at H t pid token \<longleftrightarrow> (case (utf8_encode (LIFECYCLE_MARKER_VAR @ [61] @ token), Option.bind (k_procs H t pid) pr_environ) of
      (Inr marker, Some environ) \<Rightarrow> marker \<in> set (split_nul environ)
    | _ \<Rightarrow> False)"

text \<open>A delivered signal went to a process that was seen in the group and with the token while it
  occupied the process id.\<close>

definition proven_target :: "'z Host_scheme \<Rightarrow> int \<Rightarrow> pystr \<Rightarrow> nat \<Rightarrow> nat \<Rightarrow> nat \<times> int \<times> int \<Rightarrow> bool" where
  "proven_target H pgid token lo hi s \<longleftrightarrow> (case s of (i, pid, sig) \<Rightarrow> (sig = SIGTERM \<or> sig = SIGKILL)
     \<and> (\<exists>t1 t2. lo \<le> t1 \<and> t1 < t2 \<and> t2 < hi
        \<and> occupant (kernel_of H) t1 pid = Some i \<and> pgrp_at (kernel_of H) t1 pid = Some pgid
        \<and> occupant (kernel_of H) t2 pid = Some i \<and> token_at H t2 pid token))"

definition proven_sends :: "'z Host_scheme \<Rightarrow> int \<Rightarrow> pystr option \<Rightarrow> World \<Rightarrow> World \<Rightarrow> bool" where
  "proven_sends H pgid token w w' \<longleftrightarrow> w_now w \<le> w_now w' \<and>
     (\<exists>sent. w_sent w' = w_sent w @ sent \<and> list_all (\<lambda>s. case token of None \<Rightarrow> False
        | Some tok \<Rightarrow> proven_target H pgid tok (w_now w) (w_now w') s) sent)"

text \<open>The recorded process instance is seen alive: its start time, and not a zombie.\<close>

definition seen_running :: "'z Host_scheme \<Rightarrow> int \<Rightarrow> int \<Rightarrow> nat \<Rightarrow> bool" where
  "seen_running H pid ticks t \<longleftrightarrow> (case Option.bind (k_procs H t pid) pr_stat of
      None \<Rightarrow> False
    | Some stat \<Rightarrow> stat_start_ticks stat = Some ticks \<and> stat_state stat \<noteq> Some (lit ''Z'') \<and> stat_state stat \<noteq> Some (lit ''X''))"

text \<open>What lets \<open>stop_worker\<close> report success at an instant: the instance is not seen alive, or its group or
  session is not the recorded one.\<close>

definition not_recorded :: "'z Host_scheme \<Rightarrow> WorkerMeta \<Rightarrow> int \<Rightarrow> int \<Rightarrow> nat \<Rightarrow> bool" where
  "not_recorded H meta pid ticks t \<longleftrightarrow> \<not> seen_running H pid ticks t
     \<or> (\<exists>g. wm_pgid meta = Some g \<and> h_getpgid H t pid \<noteq> None \<and> h_getpgid H t pid \<noteq> Some g)
     \<or> (\<exists>s. wm_sid meta = Some s \<and> h_getsid H t pid \<noteq> None \<and> h_getsid H t pid \<noteq> Some s)"

definition true_within :: "(nat \<Rightarrow> bool) \<Rightarrow> bool probe \<Rightarrow> bool" where
  "true_within Q m \<longleftrightarrow> (\<forall>w w'. m w = (Inr True, w') \<longrightarrow> (\<exists>t. w_now w \<le> t \<and> t < w_now w' \<and> Q t))"

text \<open>Hosts for concrete runs: one process at id 10 that carries the token \<open>t\<close> and never ends; the
  group the host reports for it is a parameter.\<close>

definition sample_environ :: pybytes where
  "sample_environ = map of_nat (lit ''LUBKO_LIFECYCLE_TOKEN=t'')"

definition lasting_host :: "int \<Rightarrow> Stopper" where
  "lasting_host g = \<lparr>
    k_procs = (\<lambda>_ pid. if pid = 10
      then Some \<lparr>pr_id = 1, pr_stat = Some (sample_stat ''100''), pr_environ = Some sample_environ\<rparr> else None),
    k_listing = (\<lambda>_. Some [lit ''10'']), k_pin_error = (\<lambda>_. False), k_send_error = (\<lambda>_. False), k_monotonic = int,
    h_getpgid = (\<lambda>_ _. Some g), h_getsid = (\<lambda>_ _. Some g), h_status = (\<lambda>_ _. None), h_getpid = 1,
    ws_monotonic = (\<lambda>t. FFin (int t) 0), ws_sentinel = (\<lambda>_ _. None), ws_failpoints = Map.empty, ws_fuel = 100\<rparr>"

definition sample_meta :: WorkerMeta where
  "sample_meta = \<lparr>wm_schema_version = 1, wm_state = STATE_RUNNING, wm_pid = Some 10, wm_pgid = Some 10,
     wm_sid = Some 10, wm_start_time_ticks = Some 100, wm_token = Some (lit ''t''), wm_repo = [],
     wm_git_commit = None, wm_worker_id = None, wm_log_path = [], wm_started_at = None, wm_stopped_at = None\<rparr>"


section \<open>Signals\<close>

lemma run_io_act: "run_state a w = (x, w') \<Longrightarrow> io_act a w = (Inr x, w')"
  by (simp add: io_act_def)

lemma act_observe [simp]: "io_act (observe f) w = (Inr (f (w_now w)), w\<lparr>w_now := Suc (w_now w)\<rparr>)"
  by (simp add: io_act_def run_observe)

lemma act_simps [simp]:
  "io_act (proc_start_ticks K pid) w = (Inr (ticks_at K (w_now w) pid), w\<lparr>w_now := Suc (w_now w)\<rparr>)"
  "io_act (process_pgrp K pid) w = (Inr (pgrp_at K (w_now w) pid), w\<lparr>w_now := Suc (w_now w)\<rparr>)"
  "io_act (open_pidfd K pid) w = (Inr (if k_pin_error K (w_now w) then None else occupant K (w_now w) pid),
     w\<lparr>w_now := Suc (w_now w)\<rparr>)"
  by (simp_all add: io_act_def observe_simps)

lemma act_zombie [simp]: "io_act (process_is_zombie K pid) w = (Inr (case Option.bind (Option.bind (k_procs K (w_now w) pid) pr_stat) stat_state of
     None \<Rightarrow> True | Some c \<Rightarrow> c \<in> set dead_states), w\<lparr>w_now := Suc (w_now w)\<rparr>)"
  by (simp add: io_act_def process_is_zombie_def process_state_char_def read_proc_stat_def observe_simps)

lemma act_send: "io_act (pidfd_send_signal K pid fd sig) w = (b, w') \<Longrightarrow>
    w_now w' = Suc (w_now w) \<and> (w_sent w' = w_sent w
      \<or> occupant K (w_now w) pid = Some fd \<and> w_sent w' = w_sent w @ [(fd, pid, sig)])"
  by (auto simp: io_act_def pidfd_send_signal_def occupant_def split: if_splits)

lemma kernel_fields [simp]: "k_procs (kernel_of H) = k_procs H" "k_listing (kernel_of H) = k_listing H"
  "k_pin_error (kernel_of H) = k_pin_error H"
  by (simp_all add: Kernel.truncate_def)

lemma has_token_run:
  "process_has_token H pid token w = (r, w') \<Longrightarrow>
    (w' = w \<or> w' = w\<lparr>w_now := Suc (w_now w)\<rparr>) \<and> (r = Inr True \<longrightarrow> token_at H (w_now w) pid token \<and> w' = w\<lparr>w_now := Suc (w_now w)\<rparr>)"
  by (auto simp: process_has_token_def effect_defs token_at_def split: sum.splits option.splits)

lemma proven_target_mono:
  "proven_target H pgid token lo hi s \<Longrightarrow> lo' \<le> lo \<Longrightarrow> hi \<le> hi' \<Longrightarrow> proven_target H pgid token lo' hi' s"
  by (auto simp: proven_target_def split: prod.splits) (meson order.trans order.strict_trans2)+

interpretation sends: evolution "proven_sends H pgid token" for H pgid token
proof
  show "proven_sends H pgid token w w" for w by (simp add: proven_sends_def)
next
  fix w1 w2 w3
  assume a: "proven_sends H pgid token w1 w2" and b: "proven_sends H pgid token w2 w3"
  obtain s1 s2 where s: "w_sent w2 = w_sent w1 @ s1" "w_sent w3 = w_sent w2 @ s2"
    "list_all (\<lambda>s. case token of None \<Rightarrow> False | Some tok \<Rightarrow> proven_target H pgid tok (w_now w1) (w_now w2) s) s1"
    "list_all (\<lambda>s. case token of None \<Rightarrow> False | Some tok \<Rightarrow> proven_target H pgid tok (w_now w2) (w_now w3) s) s2"
    and t: "w_now w1 \<le> w_now w2" "w_now w2 \<le> w_now w3"
    using a b by (auto simp: proven_sends_def)
  then show "proven_sends H pgid token w1 w3"
    unfolding proven_sends_def
    by (intro conjI exI [of _ "s1 @ s2"]) (auto simp: list_all_iff split: option.splits
        intro: proven_target_mono [OF _ order.refl t(2)] proven_target_mono [OF _ t(1) order.refl])
qed

lemma observed_sends: "evolves (proven_sends H pgid token) (io_act (observe f))"
  by (simp add: evolves_def proven_sends_def)

lemma quiet_sends: "quiet w w' \<Longrightarrow> proven_sends H pgid token w w'"
  by (simp add: quiet_def proven_sends_def)

lemma member_sends:
  assumes ok: "kernel_ok (kernel_of H)" and sig: "sig = SIGTERM \<or> sig = SIGKILL"
  shows "evolves (proven_sends H pgid (Some token)) (signal_member H pgid sig token pid)"
  unfolding evolves_def
proof
  fix w :: World
  let ?n = "w_now w" and ?K = "kernel_of H"
  obtain r w' where run: "signal_member H pgid sig token pid w = (r, w')" by fastforce
  have "proven_sends H pgid (Some token) w w'"
  proof (cases "quiet w w'")
    case False
    obtain fd where pin: "occupant ?K ?n pid = Some fd" and g: "pgrp_at ?K (Suc ?n) pid = Some pgid"
      and tok: "process_has_token H pid token (w\<lparr>w_now := Suc (Suc ?n)\<rparr>) = (Inr True, w\<lparr>w_now := Suc (Suc (Suc ?n))\<rparr>)"
      and send: "io_act (pidfd_send_signal ?K pid fd sig) (w\<lparr>w_now := Suc (Suc (Suc ?n))\<rparr>) = (r, w')"
      using run False has_token_run [of H pid token "w\<lparr>w_now := Suc (Suc ?n)\<rparr>"]
      by (cases "process_has_token H pid token (w\<lparr>w_now := Suc (Suc ?n)\<rparr>)")
        (auto simp: signal_member_def effect_defs quiet_def split: option.splits if_splits sum.splits)
    from act_send [OF send] False have hit: "occupant ?K (Suc (Suc (Suc ?n))) pid = Some fd"
      and w': "w_now w' = Suc (Suc (Suc (Suc ?n)))" "w_sent w' = w_sent w @ [(fd, pid, sig)]"
      by (auto simp: quiet_def)
    have "occupant ?K (Suc ?n) pid = Some fd" "occupant ?K (Suc (Suc ?n)) pid = Some fd"
      using kernel_stays [OF ok pin hit] by simp_all
    moreover have "token_at H (Suc (Suc ?n)) pid token" using has_token_run [OF tok] by simp
    ultimately have "proven_target H pgid token ?n (w_now w') (fd, pid, sig)"
      unfolding proven_target_def prod.case using g w'(1) sig
      by (intro conjI, simp) (rule exI [of _ "Suc ?n"], rule exI [of _ "Suc (Suc ?n)"], simp)
    then show ?thesis using w' by (simp add: proven_sends_def)
  qed (rule quiet_sends)
  then show "proven_sends H pgid (Some token) w (snd (signal_member H pgid sig token pid w))" using run by simp
qed

lemma members_sends:
  assumes "kernel_ok (kernel_of H)" "sig = SIGTERM \<or> sig = SIGKILL"
  shows "evolves (proven_sends H pgid (Some token)) (signal_members H pgid sig token pids)"
  by (induction pids) (simp_all only: signal_members.simps, (intro sends.rules member_sends assms, assumption?)+)

lemma group_listing_sends: "evolves (proven_sends H pgid' token) (live_group_member_pids H pgid)"
proof -
  have "evolves (proven_sends H pgid' token) (io_act (all_in_group (kernel_of H) pgid names))" for names
    unfolding evolves_def
  proof
    fix w :: World
    obtain pids w' where "run_state (all_in_group (kernel_of H) pgid names) w = (pids, w')" by fastforce
    with all_in_group_spec [OF this] show "proven_sends H pgid' token w (snd (io_act (all_in_group (kernel_of H) pgid names) w))"
      by (simp add: io_act_def quiet_sends)
  qed
  then show ?thesis unfolding live_group_member_pids_def by (intro sends.rules observed_sends)
qed

lemma exact_group_sends:
  assumes "kernel_ok (kernel_of H)" "sig = SIGTERM \<or> sig = SIGKILL"
  shows "evolves (proven_sends H pgid token) (signal_exact_group H pgid sig token)"
  unfolding signal_exact_group_def
  by (cases token) (simp_all add: sends.basic sends.bind [OF group_listing_sends members_sends [OF assms]])

lemma probe_sends:
  "evolves (proven_sends H' pgid token) (process_identity H pid)"
  "evolves (proven_sends H' pgid token) (process_has_token H pid tok)"
  "evolves (proven_sends H' pgid token) (WorkerProbe.process_absence_proven H pid ticks)"
  "evolves (proven_sends H' pgid token) (time_monotonic S)"
  "evolves (proven_sends H' pgid token) (drain_sentinel_matches S tok)"
  "evolves (proven_sends H' pgid token) (io_act (open_pidfd K pid))"
proof -
  have tick: "evolves (proven_sends H' pgid token) m" if "\<And>w. snd (m w) = w\<lparr>w_now := Suc (w_now w)\<rparr>" for m :: "'x probe"
    by (simp add: evolves_def that quiet_sends quiet_def)
  show "evolves (proven_sends H' pgid token) (process_identity H pid)"
    "evolves (proven_sends H' pgid token) (process_has_token H pid tok)"
    "evolves (proven_sends H' pgid token) (WorkerProbe.process_absence_proven H pid ticks)"
    "evolves (proven_sends H' pgid token) (time_monotonic S)"
    "evolves (proven_sends H' pgid token) (drain_sentinel_matches S tok)"
    "evolves (proven_sends H' pgid token) (io_act (open_pidfd K pid))"
    unfolding process_identity_def process_has_token_def WorkerProbe.process_absence_proven_def time_monotonic_def
      drain_sentinel_matches_def
    by (intro sends.rules tick; simp)+
qed

lemma retirement_sends: "evolves (proven_sends H' pgid token) (worker_retirement_state H meta)"
  unfolding worker_retirement_state_def by (intro sends.rules probe_sends)

lemma loop_sends:
  "evolves (proven_sends H' pgid token) (retirement_loop n H meta deadline)"
  "evolves (proven_sends H' pgid token) (drained_loop n H meta deadline)"
  by (induction n) (simp_all only: retirement_loop.simps drained_loop.simps,
      (intro sends.rules probe_sends retirement_sends, assumption?)+)

lemma drain_sends: "evolves (proven_sends H' pgid token) (drain_loop n H meta deadline)"
  by (induction n) (simp_all only: drain_loop.simps,
      (intro sends.rules probe_sends retirement_sends loop_sends, assumption?)+)

lemma sleep_sends: "evolves (proven_sends H' pgid token) (sleep_until H kill_floor)"
  unfolding sleep_until_def by (intro sends.rules probe_sends)

lemma identity_matches_pgid: "identity_matches meta i \<Longrightarrow> wm_pgid meta = Some g \<Longrightarrow> pi_pgid i = g"
  by (auto simp: identity_matches_def split: option.splits if_splits)

lemma let_sends: "evolves (proven_sends H' pgid token) (f a) \<Longrightarrow> evolves (proven_sends H' pgid token) (Let a f)"
  by simp

lemma stop_pinned_sends:
  assumes ok: "kernel_ok (kernel_of H)" and g: "wm_pgid meta = Some g"
  shows "evolves (proven_sends H g (wm_token meta)) (stop_pinned H meta grace cancel_grace)"
  unfolding stop_pinned_def wait_for_drain_def wait_for_retirement_def
proof (intro sends.rules probe_sends let_sends retirement_sends loop_sends drain_sends sleep_sends, goal_cases)
  case (1 pid identity i)
  then have "pi_pgid i = g" using g identity_matches_pgid by blast
  then show ?case using exact_group_sends [OF ok, of SIGTERM g] by simp
next
  case (2 pid identity i)
  then have "pi_pgid i = g" using g identity_matches_pgid by blast
  then show ?case using exact_group_sends [OF ok, of SIGKILL g] by simp
qed

text \<open>C7. Whatever \<open>stop_worker\<close> returns or raises, every signal it sends goes to one pinned
  process that was observed in the recorded process group and, later, with the recorded lifecycle
  token in its environment, both within the call and while it was the pinned process: no signal
  without a recorded token, none to a process that took over the number or left the group before
  the observation.\<close>

theorem stop_worker_signals_exactly:
  assumes "kernel_ok (kernel_of H)" "wm_pgid meta = Some g" "stop_worker H meta grace cancel_grace w = (r, w')"
  shows "\<exists>sent. w_sent w' = w_sent w @ sent \<and> list_all (\<lambda>s. case wm_token meta of None \<Rightarrow> False
    | Some token \<Rightarrow> proven_target H g token (w_now w) (w_now w') s) sent"
proof -
  have "evolves (proven_sends H g (wm_token meta)) (stop_worker H meta grace cancel_grace)"
    unfolding stop_worker_def by (intro sends.rules probe_sends stop_pinned_sends assms)
  then show ?thesis using assms(3) unfolding evolves_def proven_sends_def by (metis snd_conv)
qed

section \<open>Evidence of retirement\<close>

lemma absence_sound:
  "absence_in_stat stat (Some ticks) \<Longrightarrow> stat_start_ticks stat = Some ticks \<Longrightarrow>
   stat_state stat = Some (lit ''Z'') \<or> stat_state stat = Some (lit ''X'')"
  by (auto simp: absence_in_stat_def stat_start_ticks_def stat_state_def split_stat_fields_def STAT_MIN_FIELDS_def Let_def
      ascii_decode_def lit_def split: option.splits if_splits)

lemma absence_unseen:
  "WorkerProbe.process_absence_proven H pid (Some ticks) w = (Inr True, w') \<Longrightarrow>
    \<not> seen_running H pid ticks (w_now w) \<and> w' = w\<lparr>w_now := Suc (w_now w)\<rparr>"
  using absence_sound
  by (auto simp: WorkerProbe.process_absence_proven_def seen_running_def split: option.splits)

lemma seen_running_ticks: "seen_running H pid ticks t \<Longrightarrow> ticks_at (kernel_of H) t pid = Some ticks"
  by (cases "Option.bind (k_procs H t pid) pr_stat") (auto simp: seen_running_def ticks_at_def)

lemma identity_unseen:
  assumes "process_identity H pid w = (Inr (Some i), w')"
  shows "w_now w' = w_now w + 4 \<and> pi_pid i = pid
    \<and> (pi_start_time_ticks i \<noteq> ticks \<longrightarrow> \<not> seen_running H pid ticks (Suc (w_now w)))
    \<and> h_getpgid H (w_now w + 2) pid = Some (pi_pgid i) \<and> h_getsid H (w_now w + 3) pid = Some (pi_sid i)"
  using assms seen_running_ticks [of H pid ticks "Suc (w_now w)"]
  by (auto simp: process_identity_def effect_defs numeral_eq_Suc split: option.splits if_splits)

lemma identity_time: "process_identity H pid w = (r, w') \<Longrightarrow> w_now w < w_now w'"
  by (auto simp: process_identity_def effect_defs split: option.splits if_splits)

lemma retirement_unseen:
  assumes "worker_retirement_state H meta w = (Inr (Some True), w')"
    and "wm_pid meta = Some pid" "wm_start_time_ticks meta = Some ticks"
  shows "\<exists>t. w_now w \<le> t \<and> t < w_now w' \<and> \<not> seen_running H pid ticks t"
proof -
  obtain identity w1 where i: "process_identity H pid w = (Inr identity, w1)"
    using assms by (cases "process_identity H pid w"; cases "fst (process_identity H pid w)")
      (auto simp: worker_retirement_state_def effect_defs)
  show ?thesis
  proof (cases identity)
    case None
    have "WorkerProbe.process_absence_proven H pid (Some ticks) w1 = (Inr True, w')"
      using assms i None by (cases "WorkerProbe.process_absence_proven H pid (Some ticks) w1")
        (auto simp: worker_retirement_state_def effect_defs split: sum.splits if_splits)
    from absence_unseen [OF this] identity_time [OF i] show ?thesis
      by (intro exI [of _ "w_now w1"]) auto
  next
    case (Some x)
    have "pi_start_time_ticks x \<noteq> ticks" "w' = w1"
      using assms i Some by (auto simp: worker_retirement_state_def effect_defs split: if_splits)
    with identity_unseen [OF i [unfolded Some], of ticks] show ?thesis
      by (intro exI [of _ "Suc (w_now w)"]) auto
  qed
qed

lemma within_bind:
  assumes "evolves (proven_sends H g tok) m" "\<And>x. true_within Q (k x)"
  shows "true_within Q (io_bind m k)"
  unfolding true_within_def
proof (intro allI impI)
  fix w w' assume r: "io_bind m k w = (Inr True, w')"
  obtain r1 w1 where m: "m w = (r1, w1)" by fastforce
  have "w_now w \<le> w_now w1" using assms(1) m by (auto simp: evolves_def proven_sends_def dest: spec [of _ w])
  moreover obtain x where "k x w1 = (Inr True, w')" using r m by (cases r1) (auto simp: io_bind_def)
  ultimately show "\<exists>t. w_now w \<le> t \<and> t < w_now w' \<and> Q t"
    using assms(2) unfolding true_within_def by (meson order.trans)
qed

lemma within_basic: "true_within Q (io_return False)" "true_within Q (io_raise e)"
  by (simp_all add: true_within_def io_return_def io_raise_def)

lemma within_if:
  "(b \<Longrightarrow> true_within Q m) \<Longrightarrow> (\<not> b \<Longrightarrow> true_within Q m') \<Longrightarrow> true_within Q (if b then m else m')"
  by simp

lemma within_retired:
  assumes "wm_pid meta = Some pid" "wm_start_time_ticks meta = Some ticks" "\<And>r. true_within (not_recorded H meta pid ticks) (k r)"
  shows "true_within (not_recorded H meta pid ticks)
    (io_bind (worker_retirement_state H meta) (\<lambda>r. if r = Some True then io_return True else k r))"
  unfolding true_within_def
proof (intro allI impI)
  fix w w' assume r: "io_bind (worker_retirement_state H meta) (\<lambda>r. if r = Some True then io_return True else k r) w = (Inr True, w')"
  obtain r1 w1 where m: "worker_retirement_state H meta w = (r1, w1)" by fastforce
  have le: "w_now w \<le> w_now w1"
    using retirement_sends [of H 0 None H meta] m by (auto simp: evolves_def proven_sends_def dest: spec [of _ w])
  show "\<exists>t. w_now w \<le> t \<and> t < w_now w' \<and> not_recorded H meta pid ticks t"
  proof (cases "r1 = Inr (Some True)")
    case True
    with r m have "w' = w1" by (simp add: io_bind_def io_return_def)
    with retirement_unseen [of H meta w w1 pid ticks] m True assms(1,2) show ?thesis unfolding not_recorded_def by blast
  next
    case False
    then obtain x where "k x w1 = (Inr True, w')" using r m by (cases r1) (auto simp: io_bind_def split: if_splits)
    with assms(3) le show ?thesis unfolding true_within_def by (meson order.trans)
  qed
qed

lemma within_retired_answer:
  assumes "wm_pid meta = Some pid" "wm_start_time_ticks meta = Some ticks"
  shows "true_within (not_recorded H meta pid ticks)
    (io_bind (worker_retirement_state H meta) (\<lambda>r. io_return (r = Some True)))"
proof -
  have "(\<lambda>r. io_return (r = Some True) :: bool probe) = (\<lambda>r. if r = Some True then io_return True else io_return False)" by (auto simp: fun_eq_iff)
  then show ?thesis using within_retired [OF assms, of H "\<lambda>_. io_return False"] within_basic by simp
qed

lemma within_absent:
  "true_within (not_recorded H meta pid ticks) (WorkerProbe.process_absence_proven H pid (Some ticks))"
  unfolding true_within_def
proof (intro allI impI)
  fix w w' assume "WorkerProbe.process_absence_proven H pid (Some ticks) w = (Inr True, w')"
  from absence_unseen [OF this] show "\<exists>t. w_now w \<le> t \<and> t < w_now w' \<and> not_recorded H meta pid ticks t"
    by (intro exI [of _ "w_now w"]) (auto simp: not_recorded_def)
qed

lemmas within_rules = within_if within_basic within_bind [OF probe_sends(4)]

lemma within_loops:
  assumes "wm_pid meta = Some pid" "wm_start_time_ticks meta = Some ticks"
  shows "true_within (not_recorded H meta pid ticks) (retirement_loop n H meta deadline)"
    "true_within (not_recorded H meta pid ticks) (drained_loop n H meta deadline)"
  by (induction n) (simp_all only: retirement_loop.simps drained_loop.simps,
      (intro within_rules within_retired [OF assms] within_retired_answer [OF assms], assumption?)+)

lemma sentinel_sends: "evolves (proven_sends H' g tok')
    (case wm_token meta of None \<Rightarrow> io_return False | Some token \<Rightarrow> drain_sentinel_matches H token)"
  by (intro sends.rules probe_sends)

lemma within_drain:
  assumes "wm_pid meta = Some pid" "wm_start_time_ticks meta = Some ticks"
  shows "true_within (not_recorded H meta pid ticks) (drain_loop n H meta deadline)"
  by (induction n) (simp_all only: drain_loop.simps,
      (intro within_rules within_retired [OF assms] within_bind [OF sentinel_sends] within_loops [OF assms], assumption?)+)

lemma within_mismatch:
  assumes i: "process_identity H pid w = (Inr (Some i), w')" and "\<not> identity_matches meta i"
    and "wm_pid meta = Some pid" "wm_start_time_ticks meta = Some ticks"
  shows "\<exists>t. w_now w \<le> t \<and> t < w_now w' \<and> not_recorded H meta pid ticks t"
proof -
  note facts = identity_unseen [OF i, of ticks]
  consider "pi_start_time_ticks i \<noteq> ticks" | g where "wm_pgid meta = Some g" "g \<noteq> pi_pgid i"
    | s where "wm_sid meta = Some s" "s \<noteq> pi_sid i"
    using assms facts by (auto simp: identity_matches_def split: if_splits)
  then show ?thesis
  proof cases
    case 1
    with facts show ?thesis by (intro exI [of _ "Suc (w_now w)"]) (simp add: not_recorded_def)
  next
    case 2
    with facts show ?thesis by (intro exI [of _ "w_now w + 2"]) (simp add: not_recorded_def)
  next
    case 3
    with facts show ?thesis by (intro exI [of _ "w_now w + 3"]) (simp add: not_recorded_def)
  qed
qed

lemma within_escalation:
  assumes "wm_pid meta = Some pid" "wm_start_time_ticks meta = Some ticks" "kernel_ok (kernel_of H)"
  shows "true_within (not_recorded H meta pid ticks)
    (io_bind (sleep_until H kill_floor) (\<lambda>_.
     io_bind (worker_retirement_state H meta) (\<lambda>retired.
       if retired = Some True then io_return True
       else io_bind (signal_exact_group H g SIGKILL (wm_token meta)) (\<lambda>_.
         io_bind (time_monotonic H) (\<lambda>now. wait_for_retirement H meta (float_add now grace))))))"
  unfolding wait_for_retirement_def
  by (intro within_bind [OF sleep_sends [of H 0 None]] within_retired [OF assms(1,2)]
      within_bind [OF exact_group_sends [OF assms(3)]] within_rules within_loops [OF assms(1,2)]) simp

lemma within_stop_pinned:
  assumes r: "wm_pid meta = Some pid" "wm_start_time_ticks meta = Some ticks" "kernel_ok (kernel_of H)"
  shows "true_within (not_recorded H meta pid ticks) (stop_pinned H meta grace cancel_grace)"
proof -
  have drain: "true_within (not_recorded H meta pid ticks) (io_bind (wait_for_drain H meta d) (\<lambda>drained. if drained then io_return True else k))"
    if k: "true_within (not_recorded H meta pid ticks) k" for d k
    unfolding true_within_def
  proof (intro allI impI)
    fix w w' assume run: "io_bind (wait_for_drain H meta d) (\<lambda>drained. if drained then io_return True else k) w = (Inr True, w')"
    obtain r1 w1 where m: "wait_for_drain H meta d w = (r1, w1)" by fastforce
    have le: "w_now w \<le> w_now w1"
      using drain_sends [of H 0 None "ws_fuel H" H meta d] m
      by (auto simp: wait_for_drain_def evolves_def proven_sends_def dest: spec [of _ w])
    show "\<exists>t. w_now w \<le> t \<and> t < w_now w' \<and> not_recorded H meta pid ticks t"
    proof (cases "r1 = Inr True")
      case True
      with run m have "w' = w1" by (simp add: io_bind_def io_return_def)
      with within_drain [OF r(1,2), of H "ws_fuel H" d] m True show ?thesis
        unfolding wait_for_drain_def true_within_def by blast
    next
      case False
      with run m have "k w1 = (Inr True, w')" by (cases r1) (auto simp: io_bind_def split: if_splits)
      with k le show ?thesis unfolding true_within_def by (meson order.trans)
    qed
  qed
  have owned: "evolves (proven_sends H 0 None)
      (case wm_token meta of None \<Rightarrow> io_return False | Some token \<Rightarrow> process_has_token H pid token)"
    by (intro sends.rules probe_sends)
  have proceed: "true_within (not_recorded H meta pid ticks)
      (io_bind (case wm_token meta of None \<Rightarrow> io_return False | Some token \<Rightarrow> process_has_token H pid token) (\<lambda>owned.
        if \<not> owned then io_return False
        else io_bind (time_monotonic H) (\<lambda>start.
          io_bind (signal_exact_group H g SIGTERM (wm_token meta)) (\<lambda>_.
          io_bind (wait_for_drain H meta (dl start)) (\<lambda>drained. if drained then io_return True
          else io_bind (sleep_until H (fl start)) (\<lambda>_.
            io_bind (worker_retirement_state H meta) (\<lambda>retired. if retired = Some True then io_return True
            else io_bind (signal_exact_group H g SIGKILL (wm_token meta)) (\<lambda>_.
              io_bind (time_monotonic H) (\<lambda>now. wait_for_retirement H meta (float_add now grace))))))))))" for g dl fl
    by (intro within_bind [OF owned] within_bind [OF exact_group_sends [OF r(3)]] within_rules drain
        within_escalation [OF r]) simp
  show ?thesis
    unfolding true_within_def
  proof (intro allI impI)
    fix w w' assume run: "stop_pinned H meta grace cancel_grace w = (Inr True, w')"
    obtain ri w1 where i: "process_identity H pid w = (ri, w1)" by fastforce
    note le = identity_time [OF i]
    consider (none) "ri = Inr None" | (other) x where "ri = Inr (Some x)" "\<not> identity_matches meta x"
      | (same) x where "ri = Inr (Some x)" "identity_matches meta x"
      using run i r(1) by (cases ri) (auto simp: stop_pinned_def io_bind_def split: option.splits)
    then show "\<exists>t. w_now w \<le> t \<and> t < w_now w' \<and> not_recorded H meta pid ticks t"
    proof cases
      case none
      with run i r(1,2) have "WorkerProbe.process_absence_proven H pid (Some ticks) w1 = (Inr True, w')"
        by (simp add: stop_pinned_def io_bind_def)
      with within_absent [of H meta pid ticks] le show ?thesis
        unfolding true_within_def by (meson less_imp_le order.trans)
    next
      case other
      with run i r(1) have "w' = w1" by (simp add: stop_pinned_def io_bind_def io_return_def)
      with within_mismatch i other r show ?thesis by blast
    next
      case same
      note step = run [unfolded stop_pinned_def r(1) option.case Let_def, simplified io_bind_def [of "process_identity H pid"] i]
      with same proceed [of "pi_pgid x"] le show ?thesis
        unfolding true_within_def by (simp, meson less_imp_le order.trans)
    qed
  qed
qed


section \<open>Concrete hosts\<close>

lemma lasting_fields [simp]:
  "k_procs (lasting_host g) t pid = (if pid = 10
     then Some \<lparr>pr_id = 1, pr_stat = Some (sample_stat ''100''), pr_environ = Some sample_environ\<rparr> else None)"
  "k_listing (lasting_host g) t = Some [lit ''10'']" "\<not> k_pin_error (lasting_host g) t"
  "h_getpgid (lasting_host g) t pid = Some g" "h_getsid (lasting_host g) t pid = Some g"
  "ws_failpoints (lasting_host g) = Map.empty"
  by (simp_all add: lasting_host_def)

lemma split_nul_single: "0 \<notin> set bs \<Longrightarrow> split_nul bs = [bs]"
  by (induction bs) auto

lemma sample_token: "utf8_encode (LIFECYCLE_MARKER_VAR @ [61] @ lit ''t'') = Inr sample_environ"
  "sample_environ \<in> set (split_nul sample_environ)" "stat_state (sample_stat ''100'') = Some (lit ''S'')"
proof -
  show "utf8_encode (LIFECYCLE_MARKER_VAR @ [61] @ lit ''t'') = Inr sample_environ"
    by (simp add: LIFECYCLE_MARKER_VAR_def sample_environ_def lit_def utf8_encode_def encodable_def utf8_char_def)
  have "0 \<notin> set sample_environ" by (simp add: sample_environ_def lit_def)
  then show "sample_environ \<in> set (split_nul sample_environ)" by (simp add: split_nul_single)
  show "stat_state (sample_stat ''100'') = Some (lit ''S'')" by code_simp
qed

lemma lasting_facts:
  "ticks_at (kernel_of (lasting_host g)) t pid = (if pid = 10 then Some 100 else None)"
  "occupant (kernel_of (lasting_host g)) t pid = (if pid = 10 then Some 1 else None)"
  by (simp_all add: ticks_at_def occupant_def sample_stat_facts)

lemma lasting_host_ok: "kernel_ok (kernel_of (lasting_host g))"
  by (auto simp: kernel_ok_def lasting_facts split: if_splits)

lemma lasting_identity:
  "process_identity (lasting_host g) 10 w = (Inr (Some \<lparr>pi_pid = 10, pi_pgid = g, pi_sid = g, pi_start_time_ticks = 100\<rparr>),
     w\<lparr>w_now := w_now w + 4\<rparr>)"
  by (simp add: process_identity_def effect_defs lasting_facts sample_token dead_states_def numeral_eq_Suc)

lemma lasting_seen: "seen_running (lasting_host g) 10 100 t \<and> token_at (lasting_host g) t 10 (lit ''t'')"
  using sample_token by (simp add: seen_running_def token_at_def sample_stat_facts)

text \<open>\<open>stop_worker\<close> reports a worker retired without a signal when the process has the
  recorded number, start time and lifecycle token and runs, but its process group is not the
  recorded one; the comment on that branch justifies it by a different start time.\<close>

theorem stop_worker_abandons_live_worker:
  "stop_worker (lasting_host 11) sample_meta grace cancel_grace w = (Inr True, w\<lparr>w_now := w_now w + 5\<rparr>)
    \<and> seen_running (lasting_host 11) 10 100 t \<and> token_at (lasting_host 11) t 10 (lit ''t'')"
  using lasting_seen
  by (simp add: stop_worker_def stop_pinned_def sample_meta_def effect_defs lasting_identity identity_matches_def
      failpoint_def lasting_facts)


theorem stop_worker_signals_exactly_witness:
  "\<exists>r w' sent. stop_worker (lasting_host 10) sample_meta float_zero float_zero \<lparr>w_now = 0, w_sent = []\<rparr> = (r, w')
    \<and> w_sent w' = sent \<and> list_all (\<lambda>s. proven_target (lasting_host 10) 10 (lit ''t'') 0 (w_now w') s) sent"
proof -
  obtain r w' where run: "stop_worker (lasting_host 10) sample_meta float_zero float_zero \<lparr>w_now = 0, w_sent = []\<rparr> = (r, w')"
    by fastforce
  have "wm_pgid sample_meta = Some 10" "wm_token sample_meta = Some (lit ''t'')" by (simp_all add: sample_meta_def)
  then show ?thesis using stop_worker_signals_exactly [OF lasting_host_ok _ run, of 10] run by auto
qed

end
