(* ===== verification/RuntimeTree.thy ===== *)
theory RuntimeTree
  imports PyUuid Authority Effects "HOL-Library.AList"
begin

text \<open>
  \<open>src/lubko/cli.py\<close>, the directory trees of the per-commit runtimes: permission bits, sealing, and
  the content digest that binds a tree to its commit. A tree is what \<open>lstat\<close>, \<open>scandir\<close>, \<open>readlink\<close>
  and \<open>open\<close> see: a directory may not be listable and a file not readable, an entry may be listed
  and then fail to be inspected (\<open>Gone\<close>), and a link comes with what following it finds. The trees
  belong to the user of the process, so \<open>chmod\<close> works on them.
\<close>

unbundle bit_operations_syntax

section \<open>SHA-256\<close>

definition rotr :: "nat \<Rightarrow> 32 word \<Rightarrow> 32 word" where
  "rotr n w = drop_bit n w OR push_bit (32 - n) w"

text \<open>
  The constants are the first 32 bits of the fractional parts of roots of primes: cube roots for the
  rounds, square roots for the initial state. \<open>root_bits\<close> sets the bits of an integer root from the top.
\<close>

fun root_bits :: "nat \<Rightarrow> int \<Rightarrow> nat \<Rightarrow> int \<Rightarrow> int" where
  "root_bits k x 0 r = r"
| "root_bits k x (Suc i) r = root_bits k x i (if (r + 2 ^ i) ^ k \<le> x then r + 2 ^ i else r)"

definition fraction_word :: "nat \<Rightarrow> nat \<Rightarrow> 32 word" where
  "fraction_word k p = word_of_int (root_bits k (int p * 2 ^ (32 * k)) 40 0)"

definition first_primes :: "nat \<Rightarrow> nat list" where
  "first_primes n = take n (filter (\<lambda>p. list_all (\<lambda>d. p mod d \<noteq> 0) [2..<p]) [2..<312])"

definition sha256_keys :: "32 word list" where
  "sha256_keys = map (fraction_word 3) (first_primes 64)"

text \<open>The message schedule, newest word first.\<close>

fun sha256_extend :: "nat \<Rightarrow> 32 word list \<Rightarrow> 32 word list" where
  "sha256_extend 0 ws = ws"
| "sha256_extend (Suc n) ws =
    (let x = ws ! 14; y = ws ! 1;
         s0 = rotr 7 x XOR rotr 18 x XOR drop_bit 3 x;
         s1 = rotr 17 y XOR rotr 19 y XOR drop_bit 10 y
     in sha256_extend n ((ws ! 15 + s0 + ws ! 6 + s1) # ws))"

type_synonym sha256_state =
  "32 word \<times> 32 word \<times> 32 word \<times> 32 word \<times> 32 word \<times> 32 word \<times> 32 word \<times> 32 word"

fun sha256_rounds :: "(32 word \<times> 32 word) list \<Rightarrow> sha256_state \<Rightarrow> sha256_state" where
  "sha256_rounds [] s = s"
| "sha256_rounds ((k, w) # kws) (a, b, c, d, e, f, g, h) =
    (let t1 = h + (rotr 6 e XOR rotr 11 e XOR rotr 25 e) + ((e AND f) XOR (NOT e AND g)) + k + w;
         t2 = (rotr 2 a XOR rotr 13 a XOR rotr 22 a) + ((a AND b) XOR (a AND c) XOR (b AND c))
     in sha256_rounds kws (t1 + t2, a, b, c, d + t1, e, f, g))"

fun sha256_block :: "32 word list \<Rightarrow> sha256_state \<Rightarrow> sha256_state" where
  "sha256_block ws (a, b, c, d, e, f, g, h) =
    (case sha256_rounds (zip sha256_keys (rev (sha256_extend 48 (rev ws)))) (a, b, c, d, e, f, g, h) of
       (a', b', c', d', e', f', g', h') \<Rightarrow>
         (a + a', b + b', c + c', d + d', e + e', f + f', g + g', h + h'))"

function sha256_blocks :: "32 word list \<Rightarrow> sha256_state \<Rightarrow> sha256_state" where
  "sha256_blocks ws s = (if ws = [] then s else sha256_blocks (drop 16 ws) (sha256_block (take 16 ws) s))"
  by pat_completeness auto
termination
  by (relation "measure (\<lambda>(ws, s). length ws)") auto

declare sha256_blocks.simps [simp del]

text \<open>The padding is that of SHA-1.\<close>

definition sha256_initial :: sha256_state where
  "sha256_initial = (case map (fraction_word 2) (first_primes 8) of
     [a, b, c, d, e, f, g, h] \<Rightarrow> (a, b, c, d, e, f, g, h) | _ \<Rightarrow> (0, 0, 0, 0, 0, 0, 0, 0))"

definition sha256 :: "pybytes \<Rightarrow> pybytes" where
  "sha256 bs =
    (case sha256_blocks (be_words (sha1_pad bs)) sha256_initial of
       (a, b, c, d, e, f, g, h) \<Rightarrow> concat (map (\<lambda>w. be_bytes 4 (uint w)) [a, b, c, d, e, f, g, h]))"

section \<open>Trees\<close>

type_synonym mode = "16 word"

datatype node =
    File mode "pybytes option"
  | Link pystr "node option"
  | Dir mode bool "(pystr \<times> node) list"
  | Special mode
  | Gone

definition WRITE_BITS :: mode where "WRITE_BITS = 0x92"
definition S_IWUSR :: mode where "S_IWUSR = 0x80"

fun follow :: "node \<Rightarrow> node option" where
  "follow (Link t None) = None"
| "follow (Link t (Some n)) = follow n"
| "follow Gone = None"
| "follow n = Some n"

fun find_path :: "pystr list \<Rightarrow> node \<Rightarrow> node option" where
  "find_path [] n = follow n"
| "find_path (p # ps) n = (case follow n of
      Some (Dir m r es) \<Rightarrow> Option.bind (map_of es p) (find_path ps)
    | _ \<Rightarrow> None)"

text \<open>A regular file's bytes, or that they cannot be read; nothing for anything else.\<close>

definition content_of :: "node option \<Rightarrow> pybytes option option" where
  "content_of x = (case x of Some (File _ c) \<Rightarrow> Some c | _ \<Rightarrow> None)"

definition is_file :: "pystr list \<Rightarrow> node \<Rightarrow> bool" where
  "is_file ps n \<longleftrightarrow> content_of (find_path ps n) \<noteq> None"

section \<open>Sealing\<close>

text \<open>\<open>os.walk\<close> visits a directory's entries, then the directory; it skips one it cannot list and does
  not descend into links, but the root itself may be one.\<close>

fun chmod_walk :: "(mode \<Rightarrow> mode) \<Rightarrow> node \<Rightarrow> node" where
  "chmod_walk f (File m c) = File (f m) c"
| "chmod_walk f (Link t n) = Link t n"
| "chmod_walk f (Dir m r es) = Dir (f m) r (if r then map (\<lambda>(k, n). (k, chmod_walk f n)) es else es)"
| "chmod_walk f (Special m) = Special (f m)"
| "chmod_walk f Gone = Gone"

fun chmod_linked :: "(mode \<Rightarrow> mode) \<Rightarrow> node \<Rightarrow> node" where
  "chmod_linked f (Dir m r es) = Dir m r (if r then map (\<lambda>(k, n). (k, chmod_walk f n)) es else es)"
| "chmod_linked f (Link t (Some n)) = Link t (Some (chmod_linked f n))"
| "chmod_linked f n = n"

definition chmod_tree :: "(mode \<Rightarrow> mode) \<Rightarrow> node \<Rightarrow> node" where
  "chmod_tree f root = (case root of
      Dir m r es \<Rightarrow> if r then chmod_walk f root else root
    | Link _ _ \<Rightarrow> chmod_linked f root
    | _ \<Rightarrow> root)"

definition seal_tree :: "node \<Rightarrow> node" where
  "seal_tree = chmod_tree (\<lambda>m. m AND NOT WRITE_BITS)"

definition unseal_tree :: "node \<Rightarrow> node" where
  "unseal_tree = chmod_tree (\<lambda>m. m OR S_IWUSR)"

fun read_only_below :: "node \<Rightarrow> bool" where
  "read_only_below (File m c) = (m AND WRITE_BITS = 0)"
| "read_only_below (Link t n) = True"
| "read_only_below (Dir m r es) = (m AND WRITE_BITS = 0 \<and> (r \<longrightarrow> list_all (\<lambda>(k, n). read_only_below n) es))"
| "read_only_below (Special m) = (m AND WRITE_BITS = 0)"
| "read_only_below Gone = False"

text \<open>\<open>root.is_dir()\<close> follows a link; the mode of a link itself has every permission bit.\<close>

definition tree_is_read_only :: "node \<Rightarrow> bool" where
  "tree_is_read_only root = (case follow root of
      Some (Dir m r es) \<Rightarrow> if \<not> r then True else (case root of Link _ _ \<Rightarrow> False | _ \<Rightarrow> read_only_below root)
    | _ \<Rightarrow> False)"

section \<open>The content digest\<close>

definition RUNTIME_MANIFEST_NAME :: pystr where
  "RUNTIME_MANIFEST_NAME = lit ''lubko-runtime.json''"

definition relative :: "pystr \<Rightarrow> pystr \<Rightarrow> pystr" where
  "relative prefix name = (if prefix = [] then prefix @ name else prefix @ [47] @ name)"

fun collect :: "pystr \<Rightarrow> (pystr \<times> node) list \<Rightarrow> (pystr \<times> node) list res" where
  "collect prefix [] = Ok []"
| "collect prefix ((name, n) # es) =
    (if prefix = [] \<and> name = RUNTIME_MANIFEST_NAME then collect prefix es
     else if n = Gone then Raise OSError
     else ebind (case n of Dir m r ds \<Rightarrow> if r then collect (relative prefix name) ds else Raise OSError
            | _ \<Rightarrow> Ok []) (\<lambda>below.
       ebind (collect prefix es) (\<lambda>rest. Ok ((relative prefix name, n) # below @ rest))))"

definition masked_mode :: "mode \<Rightarrow> mode" where
  "masked_mode m = m AND NOT WRITE_BITS AND 0x1FF"

definition contributions :: "pystr \<times> node \<Rightarrow> pybytes list res" where
  "contributions e = (case e of (rel, n) \<Rightarrow> ebind (utf8_encode rel) (\<lambda>name. case n of
      File m c \<Rightarrow> (case c of
          None \<Rightarrow> Raise OSError
        | Some bs \<Rightarrow> Ok [name, [0x66], be_bytes 2 (uint (masked_mode m)), sha256 bs])
    | Link t _ \<Rightarrow> ebind (utf8_encode t) (\<lambda>target. Ok [name, [0x6c], target])
    | Dir _ _ _ \<Rightarrow> Ok [name, [0x64]]
    | Special m \<Rightarrow> Ok [name, [0x6f], be_bytes 2 (uint (masked_mode m))]
    | Gone \<Rightarrow> Raise OSError))"

fun all_contributions :: "(pystr \<times> node) list \<Rightarrow> pybytes list res" where
  "all_contributions [] = Ok []"
| "all_contributions (e # es) = ebind (contributions e) (\<lambda>c. ebind (all_contributions es) (\<lambda>cs. Ok (c @ cs)))"

definition update_frame :: "pybytes \<Rightarrow> pybytes res" where
  "update_frame data =
    (if length data < 2 ^ 64 then Ok (be_bytes 8 (int (length data)) @ data) else Raise OverflowError)"

fun update_frames :: "pybytes list \<Rightarrow> pybytes res" where
  "update_frames [] = Ok []"
| "update_frames (d # ds) = ebind (update_frame d) (\<lambda>x. ebind (update_frames ds) (\<lambda>xs. Ok (x @ xs)))"

text \<open>The canonical encoding of a tree, of which the digest is taken.\<close>

definition tree_entries :: "node \<Rightarrow> (pystr \<times> node) list res" where
  "tree_entries root = (case follow root of
      Some (Dir m r es) \<Rightarrow> if r then ebind (collect [] es) (\<lambda>l. Ok (sort_key fst l)) else Raise OSError
    | _ \<Rightarrow> Raise OSError)"

definition tree_encoding :: "node \<Rightarrow> pybytes res" where
  "tree_encoding root = ebind (tree_entries root) (\<lambda>l. ebind (all_contributions l) update_frames)"

definition runtime_content_digest :: "node \<Rightarrow> pybytes res" where
  "runtime_content_digest root = ebind (tree_encoding root) (\<lambda>code. Ok (sha256 code))"

section \<open>What a digest stands for\<close>

text \<open>The content of a tree: every entry below the root but the manifest with its kind, its permission
  bits without the write bits, its bytes or its target.\<close>

datatype evidence = EFile mode pybytes | ELink pystr | EDir | ESpecial mode | ENothing

fun evidence_of :: "node \<Rightarrow> evidence" where
  "evidence_of (File m (Some bs)) = EFile (masked_mode m) bs"
| "evidence_of (File m None) = ENothing"
| "evidence_of (Link t n) = ELink t"
| "evidence_of (Dir m r es) = EDir"
| "evidence_of (Special m) = ESpecial (masked_mode m)"
| "evidence_of Gone = ENothing"

definition content_view :: "node \<Rightarrow> (pystr \<times> evidence) list res" where
  "content_view root = ebind (tree_entries root) (\<lambda>l. Ok (map (\<lambda>(rel, n). (rel, evidence_of n)) l))"

text \<open>The texts that are hashed for the digest of a tree: its encoding and the contents of its files.\<close>

fun file_content :: "node \<Rightarrow> pybytes list" where
  "file_content (File m (Some bs)) = [bs]"
| "file_content n = []"

definition file_contents :: "(pystr \<times> node) list \<Rightarrow> pybytes list" where
  "file_contents l = concat (map (\<lambda>(rel, n). file_content n) l)"

definition hashed_texts :: "node \<Rightarrow> pybytes list" where
  "hashed_texts root =
    (case tree_encoding root of Inl _ \<Rightarrow> [] | Inr code \<Rightarrow> [code])
    @ (case tree_entries root of Inl _ \<Rightarrow> [] | Inr l \<Rightarrow> file_contents l)"

definition collision :: "pybytes list \<Rightarrow> pybytes list \<Rightarrow> bool" where
  "collision xs ys \<longleftrightarrow> list_ex (\<lambda>x. list_ex (\<lambda>y. x \<noteq> y \<and> sha256 x = sha256 y) ys) xs"

text \<open>No write bit anywhere in the tree, links apart.\<close>

fun unwritable :: "node \<Rightarrow> bool" where
  "unwritable (File m c) = (m AND WRITE_BITS = 0)"
| "unwritable (Link t n) = True"
| "unwritable (Dir m r es) = (m AND WRITE_BITS = 0 \<and> list_all (\<lambda>(k, n). unwritable n) es)"
| "unwritable (Special m) = (m AND WRITE_BITS = 0)"
| "unwritable Gone = False"

text \<open>Every entry can be inspected and every directory listed; names are not empty and unique.\<close>

fun inspectable :: "node \<Rightarrow> bool" where
  "inspectable (Dir m r es) = (r \<and> list_all (\<lambda>(k, n). inspectable n) es)"
| "inspectable Gone = False"
| "inspectable n = True"

fun named :: "node \<Rightarrow> bool" where
  "named (Dir m r es) = (distinct (map fst es) \<and> list_all (\<lambda>(k, n). k \<noteq> [] \<and> named n) es)"
| "named n = True"


section \<open>Specification vocabulary\<close>

definition chmod_entry :: "(mode \<Rightarrow> mode) \<Rightarrow> pystr \<times> node \<Rightarrow> pystr \<times> node" where
  "chmod_entry f e = (case e of (k, n) \<Rightarrow> (k, chmod_walk f n))"

section \<open>The encoding can be read back\<close>

lemma be_bytes_length [simp]: "length (be_bytes n x) = n"
  by (simp add: be_bytes_def)

lemma be_bytes_Suc: "be_bytes (Suc n) x = word_of_int (x div 256 ^ n) # be_bytes n x"
  by (simp add: be_bytes_def upt_rec [of 0] map_Suc_upt [symmetric] del: upt_Suc)

lemma be_bytes_mod: "be_bytes n x = be_bytes n y \<Longrightarrow> x mod 256 ^ n = y mod 256 ^ n"
proof (induction n)
  case (Suc n)
  have split: "z mod 256 ^ Suc n = z div 256 ^ n mod 256 * 256 ^ n + z mod 256 ^ n" for z :: int
    using zmod_zmult2_eq [of 256 z "256 ^ n"] by (simp add: mult.commute power_Suc2 del: power_Suc)
  from Suc.prems have "word_of_int (x div 256 ^ n) = (word_of_int (y div 256 ^ n) :: 8 word)"
    and "be_bytes n x = be_bytes n y"
    by (simp_all add: be_bytes_Suc)
  then have "x div 256 ^ n mod 256 = y div 256 ^ n mod 256" "x mod 256 ^ n = y mod 256 ^ n"
    using Suc.IH by (simp_all add: word_of_int_eq_iff take_bit_eq_mod)
  then show ?case by (simp only: split)
qed simp

lemma be_bytes_inject:
  "be_bytes n x = be_bytes n y \<Longrightarrow> 0 \<le> x \<Longrightarrow> x < 256 ^ n \<Longrightarrow> 0 \<le> y \<Longrightarrow> y < 256 ^ n \<Longrightarrow> x = y"
  using be_bytes_mod [of n x y] by simp

lemma update_frame_Inr:
  "update_frame d = Inr x \<longleftrightarrow> length d < 2 ^ 64 \<and> x = be_bytes 8 (int (length d)) @ d"
  by (auto simp: update_frame_def)

lemma update_frame_inject:
  assumes "update_frame d = Inr x" "update_frame d' = Inr x'" "x @ r = x' @ r'"
  shows "d = d' \<and> r = r'"
proof -
  have l: "length d < 2 ^ 64" "length d' < 2 ^ 64"
    and e: "be_bytes 8 (int (length d)) @ d @ r = be_bytes 8 (int (length d')) @ d' @ r'"
    using assms by (auto simp: update_frame_Inr)
  from e have b: "be_bytes 8 (int (length d)) = be_bytes 8 (int (length d'))" and t: "d @ r = d' @ r'"
    by (simp_all add: append_eq_append_conv)
  have "int (length d) = int (length d')"
    by (rule be_bytes_inject [OF b]) (use l in \<open>simp_all\<close>)
  with t show ?thesis by simp
qed

lemma update_frames_inject: "update_frames ds = Inr x \<Longrightarrow> update_frames ds' = Inr x \<Longrightarrow> ds = ds'"
proof (induction ds arbitrary: ds' x)
  case Nil
  then show ?case by (cases ds') (auto simp: update_frame_Inr dest: arg_cong [where f = length])
next
  case (Cons d ds)
  obtain a b where x: "update_frame d = Inr a" "update_frames ds = Inr b" "x = a @ b"
    using Cons.prems(1) by auto
  from Cons.prems(2) x show ?case
  proof (cases ds')
    case (Cons d' es)
    then obtain a' b' where y: "update_frame d' = Inr a'" "update_frames es = Inr b'" "x = a' @ b'"
      using Cons.prems(2) by auto
    from update_frame_inject [OF x(1) y(1), of b b'] x(3) y(3) have "d = d'" "b = b'" by auto
    with Cons.IH [OF x(2)] y(2) Cons show ?thesis by auto
  qed (auto simp: update_frame_Inr dest: arg_cong [where f = length])
qed

lemma utf8_encode_inject: "utf8_encode s = Inr x \<Longrightarrow> utf8_encode t = Inr x \<Longrightarrow> s = t"
  by (metis utf8_decode_encode)

lemma mode_bytes_inject: "be_bytes 2 (uint (m :: mode)) = be_bytes 2 (uint m') \<Longrightarrow> m = m'"
  using be_bytes_inject [of 2 "uint m" "uint m'"] uint_bounded [of m] uint_bounded [of m']
  by (simp add: word_uint_eq_iff)

lemma collision_append: "collision (xs @ ys) (xs' @ ys') \<longleftrightarrow>
    collision xs xs' \<or> collision xs ys' \<or> collision ys xs' \<or> collision ys ys'"
  by (auto simp: collision_def list_ex_iff)

lemma contributions_inject:
  assumes "contributions (rel, n) = Inr c" "contributions (rel', n') = Inr c'" "c @ r = c' @ r'"
  shows "rel = rel' \<and> r = r' \<and>
    (evidence_of n = evidence_of n' \<or> collision (file_content n) (file_content n'))"
  using assms
  by (cases n; cases n')
    (auto simp: contributions_def collision_def dest: utf8_encode_inject mode_bytes_inject split: option.splits)

lemma contributions_length: "contributions e = Inr c \<Longrightarrow> c \<noteq> []"
  by (cases e; cases "snd e") (auto simp: contributions_def split: option.splits)

lemma file_contents_Cons: "file_contents ((rel, n) # l) = file_content n @ file_contents l"
  by (simp add: file_contents_def)

lemma all_contributions_inject:
  assumes "all_contributions l = Inr c" "all_contributions l' = Inr c"
  shows "map (\<lambda>(rel, n). (rel, evidence_of n)) l = map (\<lambda>(rel, n). (rel, evidence_of n)) l'
    \<or> collision (file_contents l) (file_contents l')"
  using assms
proof (induction l arbitrary: l' c)
  case Nil
  then show ?case by (cases l') (auto dest: contributions_length)
next
  case (Cons e l)
  obtain rel n where e: "e = (rel, n)" by fastforce
  obtain a b where x: "contributions (rel, n) = Inr a" "all_contributions l = Inr b" "c = a @ b"
    using Cons.prems(1) by (auto simp: e)
  show ?case
  proof (cases l')
    case Nil
    then show ?thesis using Cons.prems x by (auto dest: contributions_length)
  next
    case l: (Cons e' l1)
    obtain rel' n' where e': "e' = (rel', n')" by fastforce
    obtain a' b' where y: "contributions (rel', n') = Inr a'" "all_contributions l1 = Inr b'" "c = a' @ b'"
      using Cons.prems(2) by (auto simp: l e')
    from contributions_inject [OF x(1) y(1), of b b'] x(3) y(3)
    have same: "rel = rel'" "b = b'" "evidence_of n = evidence_of n' \<or> collision (file_content n) (file_content n')"
      by auto
    from Cons.IH [OF x(2)] y(2) same(2)
    have "map (\<lambda>(rel, n). (rel, evidence_of n)) l = map (\<lambda>(rel, n). (rel, evidence_of n)) l1
      \<or> collision (file_contents l) (file_contents l1)" by auto
    then show ?thesis using same by (auto simp: e e' l file_contents_Cons collision_append)
  qed
qed

theorem content_digest_binding:
  assumes "runtime_content_digest r = Inr d" "runtime_content_digest r' = Inr d"
  shows "content_view r = content_view r' \<or> collision (hashed_texts r) (hashed_texts r')"
proof -
  obtain l c x where r: "tree_entries r = Inr l" "all_contributions l = Inr c" "update_frames c = Inr x" "d = sha256 x"
    using assms(1) by (auto simp: runtime_content_digest_def tree_encoding_def)
  obtain l' c' x' where r': "tree_entries r' = Inr l'" "all_contributions l' = Inr c'" "update_frames c' = Inr x'"
      "d = sha256 x'"
    using assms(2) by (auto simp: runtime_content_digest_def tree_encoding_def)
  have h: "hashed_texts r = [x] @ file_contents l" "hashed_texts r' = [x'] @ file_contents l'"
    using r r' by (simp_all add: hashed_texts_def tree_encoding_def file_contents_def)
  show ?thesis
  proof (cases "x = x'")
    case True
    with update_frames_inject r r' have "c = c'" by blast
    moreover have "collision (file_contents l) (file_contents l') \<Longrightarrow> ?thesis"
      by (simp only: h collision_append simp_thms)
    ultimately show ?thesis using all_contributions_inject [OF r(2), of l'] r r' by (auto simp: content_view_def)
  next
    case False
    then show ?thesis using r(4) r'(4) h by (auto simp: collision_append collision_def)
  qed
qed

section \<open>Sealing\<close>

lemma masked_seal [simp]: "masked_mode (m AND NOT WRITE_BITS) = masked_mode m"
  by (simp add: masked_mode_def and.assoc)

lemma masked_unseal [simp]: "masked_mode (m OR S_IWUSR) = masked_mode m"
proof -
  have "S_IWUSR AND NOT WRITE_BITS = 0" by (simp add: S_IWUSR_def WRITE_BITS_def)
  then show ?thesis by (simp add: masked_mode_def bit.conj_disj_distrib2 and.assoc [symmetric])
qed

lemma sealed_mode [simp]: "(m AND NOT WRITE_BITS) AND WRITE_BITS = (0 :: mode)"
  by (simp add: and.assoc)

lemma chmod_entry_map: "(\<lambda>(k, n). (k, chmod_walk f n)) = chmod_entry f"
  by (rule ext) (simp add: chmod_entry_def)

lemma chmod_entry_simp [simp]: "chmod_entry f (k, n) = (k, chmod_walk f n)"
  by (simp add: chmod_entry_def)

lemma chmod_walk_Gone [simp]: "chmod_walk f n = Gone \<longleftrightarrow> n = Gone"
  by (cases n) auto

lemma collect_chmod:
  "collect prefix (map (chmod_entry f) es) = ebind (collect prefix es) (\<lambda>l. Ok (map (chmod_entry f) l))"
proof (induction prefix es rule: collect.induct)
  case (2 prefix name n es)
  show ?case
  proof (cases n)
    case (Dir m r ds)
    then show ?thesis using 2
      by (cases "collect (relative prefix name) ds"; cases "collect prefix es")
        (auto simp: chmod_entry_map)
  qed (use 2 in \<open>cases "collect prefix es"; auto\<close>)+
qed simp

lemma sort_key_chmod: "sort_key fst (map (chmod_entry f) l) = map (chmod_entry f) (sort_key fst l)"
proof -
  have "insort_key fst (chmod_entry f e) (map (chmod_entry f) l) = map (chmod_entry f) (insort_key fst e l)" for e l
    by (induction l) (auto simp: chmod_entry_def split: prod.splits)
  then show ?thesis by (induction l) auto
qed

lemma follow_chmod_linked: "follow (chmod_linked f n) = (case follow n of
    Some (Dir m r es) \<Rightarrow> Some (Dir m r (if r then map (chmod_entry f) es else es)) | x \<Rightarrow> x)"
  by (induction n rule: follow.induct) (auto simp: chmod_entry_map)

lemma tree_entries_chmod:
  "tree_entries (chmod_tree f root) = ebind (tree_entries root) (\<lambda>l. Ok (map (chmod_entry f) l))"
  by (cases root) (auto simp: tree_entries_def chmod_tree_def follow_chmod_linked collect_chmod sort_key_chmod
      chmod_entry_map ebind_assoc split: option.splits node.splits)

lemma contributions_chmod:
  "(\<And>m. masked_mode (f m) = masked_mode m) \<Longrightarrow> contributions (chmod_entry f e) = contributions e"
  by (cases e; cases "snd e") (auto simp: contributions_def)

lemma all_contributions_chmod:
  "(\<And>m. masked_mode (f m) = masked_mode m) \<Longrightarrow> all_contributions (map (chmod_entry f) l) = all_contributions l"
  by (induction l) (simp_all add: contributions_chmod)

lemma digest_chmod:
  assumes "\<And>m. masked_mode (f m) = masked_mode m"
  shows "runtime_content_digest (chmod_tree f root) = runtime_content_digest root"
  by (cases "tree_entries root")
    (simp_all add: runtime_content_digest_def tree_encoding_def tree_entries_chmod
      all_contributions_chmod [OF assms])

lemma inspectable_unwritable: "read_only_below n \<Longrightarrow> inspectable n \<Longrightarrow> unwritable n"
  by (induction n) (fastforce simp: list_all_iff)+

lemma sealed_read_only: "inspectable n \<Longrightarrow> read_only_below (chmod_walk (\<lambda>m. m AND NOT WRITE_BITS) n)"
  by (induction n) (auto simp: list_all_iff)

lemma inspectable_chmod: "inspectable (chmod_walk f n) \<longleftrightarrow> inspectable n"
  by (induction n) (auto simp: list_all_iff)

lemma relative_ne: "name \<noteq> [] \<Longrightarrow> relative prefix name \<noteq> []"
  by (simp add: relative_def)

lemma collect_inspectable:
  "collect prefix es = Inr l \<Longrightarrow> list_all (\<lambda>(k, n). k \<noteq> [] \<and> named n) es \<Longrightarrow>
   list_all (\<lambda>(k, n). prefix = [] \<and> k = RUNTIME_MANIFEST_NAME \<or> inspectable n) es"
proof (induction prefix es arbitrary: l rule: collect.induct)
  case (2 prefix name n es)
  show ?case
  proof (cases "prefix = [] \<and> name = RUNTIME_MANIFEST_NAME")
    case True
    then show ?thesis using 2 by auto
  next
    case False
    then obtain below rest where below: "(case n of Dir m r ds \<Rightarrow> if r then collect (relative prefix name) ds
          else Raise OSError | _ \<Rightarrow> Ok []) = Inr below"
      and rest: "collect prefix es = Inr rest" and "n \<noteq> Gone"
      using 2(4) by (auto split: if_splits)
    moreover have "inspectable n"
    proof (cases n)
      case (Dir m r ds)
      with below have "r" "collect (relative prefix name) ds = Inr below" by (auto split: if_splits)
      then show ?thesis using 2(2) [OF False _ Dir] 2(5) Dir relative_ne [of name prefix] by (auto simp: list_all_iff)
    qed (use \<open>n \<noteq> Gone\<close> in auto)
    ultimately show ?thesis using 2(3) [OF False _ below] 2(5) by auto
  qed
qed simp

end
