(* ===== verification/CliRuntime.thy ===== *)
theory CliRuntime
  imports RuntimeTree Supervise
begin

text \<open>
  \<open>src/lubko/cli.py\<close>: the per-commit runtimes under one root, the \<open>current\<close> link, the manifest that
  binds a runtime to its commit, building, activation and removal. The two programs a build runs,
  \<open>git archive\<close> and \<open>uv sync\<close>, are arguments; so is what the supervisor reports as its own commits.
\<close>

section \<open>Names\<close>

definition ENTRY_POINTS :: "pystr list" where
  "ENTRY_POINTS = map lit [''lubko-worker'', ''lubko-supervisor'', ''lubko-deploy'', ''lubko-deploy-ctl'',
     ''lubko-install'']"

definition RETIRED_ENTRY_POINTS :: "pystr list" where
  "RETIRED_ENTRY_POINTS = map lit [''lubko-agent'', ''my-lubko-agent'', ''lubko-board'']"

definition RUNTIME_MANIFEST_SCHEMA :: int where "RUNTIME_MANIFEST_SCHEMA = 2"
definition CURRENT_LINK_NAME :: pystr where "CURRENT_LINK_NAME = lit ''current''"
definition CURRENT_TMP_NAME :: pystr where "CURRENT_TMP_NAME = lit ''current.tmp''"

definition is_valid_commit_name :: "pystr \<Rightarrow> bool" where
  "is_valid_commit_name name \<longleftrightarrow> length name = 40 \<and> list_all (\<lambda>c. hex_digit c \<noteq> None) name"

definition validate_commit_name :: "pystr \<Rightarrow> unit res" where
  "validate_commit_name commit = (if is_valid_commit_name commit then Ok ()
     else Raise (CliError ''runtime commits must be exactly 40 hexadecimal characters''))"

section \<open>The runtimes on disk\<close>

text \<open>\<open>c_roots\<close> lists the directory \<open>cli/\<close> without the \<open>current\<close> link, \<open>c_current\<close> is the last
  component of that link's target, if it can be read.\<close>

record cli_store =
  c_roots :: "(pystr \<times> node) list"
  c_current :: "pystr option"

type_synonym 'a cli = "(cli_store, 'a) eff"

definition cli_commit_dir :: "pystr \<Rightarrow> cli_store \<Rightarrow> node option res" where
  "cli_commit_dir commit s = ebind (validate_commit_name commit) (\<lambda>_. Ok (map_of (c_roots s) commit))"

definition current_commit :: "cli_store \<Rightarrow> pystr option" where
  "current_commit s = c_current s"

definition bin_dir :: "pystr list" where
  "bin_dir = map lit [''.venv'', ''bin'']"

definition cli_entry_executable :: "pystr \<Rightarrow> pystr \<Rightarrow> cli_store \<Rightarrow> bool res" where
  "cli_entry_executable commit entry s = ebind (cli_commit_dir commit s) (\<lambda>root.
     Ok (case root of None \<Rightarrow> False | Some n \<Rightarrow> is_file (bin_dir @ [entry]) n))"

fun all_present :: "pystr \<Rightarrow> pystr list \<Rightarrow> cli_store \<Rightarrow> bool res" where
  "all_present commit [] s = Ok True"
| "all_present commit (entry # es) s = ebind (cli_entry_executable commit entry s) (\<lambda>present.
     if present then all_present commit es s else Ok False)"

definition root_is_usable :: "pystr \<Rightarrow> cli_store \<Rightarrow> bool res" where
  "root_is_usable commit s = all_present commit ENTRY_POINTS s"

definition known_entry_points :: "pystr list" where
  "known_entry_points = ENTRY_POINTS @ RETIRED_ENTRY_POINTS"

fun present_names :: "pystr \<Rightarrow> pystr list \<Rightarrow> cli_store \<Rightarrow> pystr list res" where
  "present_names commit [] s = Ok []"
| "present_names commit (entry # es) s = ebind (cli_entry_executable commit entry s) (\<lambda>present.
     ebind (present_names commit es s) (\<lambda>names. Ok (if present then entry # names else names)))"

definition root_entry_points :: "pystr \<Rightarrow> cli_store \<Rightarrow> pystr list res" where
  "root_entry_points commit s = present_names commit known_entry_points s"

definition satisfies_entry_points :: "pystr list \<Rightarrow> pystr list \<Rightarrow> bool" where
  "satisfies_entry_points present required =
    (if present = [] \<or> required = [] then False else list_all (\<lambda>e. e \<in> set present) required)"

section \<open>The manifest\<close>

text \<open>\<open>bytes.fromhex\<close> skips ASCII white space between bytes.\<close>

fun bytes_fromhex :: "pystr \<Rightarrow> pybytes option" where
  "bytes_fromhex [] = Some []"
| "bytes_fromhex [c] = (if ascii_space c then Some [] else None)"
| "bytes_fromhex (c # d # r) =
    (if ascii_space c then bytes_fromhex (d # r)
     else (case (hex_digit c, hex_digit d) of
         (Some h, Some l) \<Rightarrow> map_option ((#) (of_nat (16 * h + l))) (bytes_fromhex r)
       | _ \<Rightarrow> None))"

definition bytes_hex :: "pybytes \<Rightarrow> pystr" where
  "bytes_hex bs = concat (map (\<lambda>b. [hex_char (unat b div 16), hex_char (unat b mod 16)]) bs)"

definition manifest_digest :: "json \<Rightarrow> pystr \<Rightarrow> pybytes option" where
  "manifest_digest data commit = (case data of
      JObj d \<Rightarrow>
        if \<not> (py_eq_int (dict_get d ''schema_version'') RUNTIME_MANIFEST_SCHEMA
            \<and> dict_get d ''commit'' = JStr commit) then None
        else (case dict_get d ''content_digest'' of JStr expected \<Rightarrow> bytes_fromhex expected | _ \<Rightarrow> None)
    | _ \<Rightarrow> None)"

text \<open>\<open>json.loads(path.read_text())\<close>; every error of either is an \<open>OSError\<close> or a \<open>ValueError\<close>.\<close>

definition read_manifest :: "node \<Rightarrow> json option" where
  "read_manifest root = (case content_of (find_path [RUNTIME_MANIFEST_NAME] root) of
      Some (Some bs) \<Rightarrow>
        if utf8_encode (utf8_decode bs) = Ok bs
        then (case loads (utf8_decode bs) of Inl _ \<Rightarrow> None | Inr j \<Rightarrow> Some j) else None
    | _ \<Rightarrow> None)"

definition put_root :: "pystr \<Rightarrow> node \<Rightarrow> cli_store \<Rightarrow> cli_store" where
  "put_root commit n s = s\<lparr>c_roots := AList.update commit n (c_roots s)\<rparr>"

text \<open>\<open>shutil.rmtree\<close> with errors ignored: whatever is not a directory stays.\<close>

definition remove_root :: "pystr \<Rightarrow> cli_store \<Rightarrow> cli_store" where
  "remove_root commit s = (case map_of (c_roots s) commit of
      Some (Dir _ _ _) \<Rightarrow> s\<lparr>c_roots := AList.delete commit (c_roots s)\<rparr>
    | _ \<Rightarrow> s)"

text \<open>\<open>if root.is_dir(): _seal_tree(root)\<close>.\<close>

definition on_root :: "(node \<Rightarrow> node) \<Rightarrow> pystr \<Rightarrow> unit cli" where
  "on_root f commit = io_bind (io_read (cli_commit_dir commit)) (\<lambda>root. case root of
      None \<Rightarrow> io_return ()
    | Some n \<Rightarrow> (case follow n of Some (Dir _ _ _) \<Rightarrow> io_do (put_root commit (f n)) | _ \<Rightarrow> io_return ()))"

definition seal_runtime :: "pystr \<Rightarrow> unit cli" where
  "seal_runtime = on_root seal_tree"

definition unseal_runtime :: "pystr \<Rightarrow> unit cli" where
  "unseal_runtime = on_root unseal_tree"

text \<open>The digest of the tree is the expected one; \<open>except OSError\<close>.\<close>

definition digest_matches :: "node \<Rightarrow> pybytes \<Rightarrow> bool res" where
  "digest_matches root expected = (case runtime_content_digest root of
      Inl OSError \<Rightarrow> Ok False
    | Inl e \<Rightarrow> Raise e
    | Inr d \<Rightarrow> Ok (d = expected))"

definition runtime_is_usable :: "pystr \<Rightarrow> bool cli" where
  "runtime_is_usable commit =
    (if \<not> is_valid_commit_name commit then io_return False
     else io_bind (io_read (root_is_usable commit)) (\<lambda>complete.
       if \<not> complete then io_return False
       else io_bind (io_read (cli_commit_dir commit)) (\<lambda>root. case root of
           None \<Rightarrow> io_return False
         | Some n \<Rightarrow> (case Option.bind (read_manifest n) (\<lambda>data. manifest_digest data commit) of
             None \<Rightarrow> io_return False
           | Some expected \<Rightarrow> io_bind (io_lift (digest_matches n expected)) (\<lambda>same.
               if \<not> same then io_return False
               else if tree_is_read_only n then io_return True
               else io_bind (io_get current_commit) (\<lambda>current.
                 if current \<noteq> Some commit then io_return False
                 else io_bind (seal_runtime commit) (\<lambda>_.
                   io_bind (io_read (cli_commit_dir commit)) (\<lambda>sealed. case sealed of
                       None \<Rightarrow> io_return False
                     | Some n \<Rightarrow> if \<not> tree_is_read_only n then io_return False
                         else io_lift (digest_matches n expected)))))))))"

definition runtime_satisfies :: "pystr \<Rightarrow> pystr list \<Rightarrow> bool cli" where
  "runtime_satisfies commit required = io_bind (runtime_is_usable commit) (\<lambda>usable.
     if \<not> usable then io_return False
     else io_bind (io_read (root_entry_points commit)) (\<lambda>present.
       io_return (satisfies_entry_points present required)))"

section \<open>Writing into a runtime\<close>

text \<open>\<open>Path.write_text\<close>: a file keeps its mode, a link is written through, a directory refuses.\<close>

definition write_file :: "mode \<Rightarrow> pybytes \<Rightarrow> node option \<Rightarrow> node option" where
  "write_file m bs old = (case old of
      None \<Rightarrow> Some (File m (Some bs))
    | Some (File m' _) \<Rightarrow> Some (File m' (Some bs))
    | Some (Link t None) \<Rightarrow> Some (Link t (Some (File m (Some bs))))
    | Some (Link t (Some (File m' _))) \<Rightarrow> Some (Link t (Some (File m' (Some bs))))
    | Some _ \<Rightarrow> None)"

fun alter_path :: "pystr list \<Rightarrow> (node option \<Rightarrow> node option) \<Rightarrow> node \<Rightarrow> node option" where
  "alter_path ps f (Link t (Some n)) = map_option (\<lambda>n'. Link t (Some n')) (alter_path ps f n)"
| "alter_path [p] f (Dir m r es) = map_option (\<lambda>n. Dir m r (AList.update p n es)) (f (map_of es p))"
| "alter_path (p # q # ps) f (Dir m r es) = (case map_of es p of
      None \<Rightarrow> None
    | Some n \<Rightarrow> map_option (\<lambda>n'. Dir m r (AList.update p n' es)) (alter_path (q # ps) f n))"
| "alter_path ps f n = None"

definition DEFAULT_MODE :: mode where "DEFAULT_MODE = 0x1A4"
definition SCRIPT_MODE :: mode where "SCRIPT_MODE = 0x1ED"

definition bridge_text :: "pystr \<Rightarrow> pystr" where
  "bridge_text entry =
     lit ''#!/bin/sh'' @ [10]
     @ lit ''# Retired Lubko entry point, bridged for supervisor upgrade compatibility.'' @ [10]
     @ lit ''printf '' @ [39] @ lit ''%s: this entry point was removed from the maintained CLIs.'' @ [92, 110, 39]
     @ lit '' \"'' @ entry @ lit ''\" >&2'' @ [10]
     @ lit ''printf '' @ [39] @ lit ''It is bridged only so an already-deployed supervisor can still validate''
     @ [92, 110, 39] @ lit '' >&2'' @ [10]
     @ lit ''printf '' @ [39] @ lit ''and launch this runtime; use a maintained entry point instead.'' @ [92, 110, 39]
     @ lit '' >&2'' @ [10]
     @ lit ''exit 127'' @ [10]"

definition ascii_bytes :: "pystr \<Rightarrow> pybytes" where
  "ascii_bytes s = map of_nat s"

fun install_bridges :: "pystr \<Rightarrow> pystr list \<Rightarrow> unit cli" where
  "install_bridges commit [] = io_return ()"
| "install_bridges commit (entry # es) = io_bind (io_read (cli_commit_dir commit)) (\<lambda>root.
    if Option.bind root (find_path (bin_dir @ [entry])) \<noteq> None then install_bridges commit es
    else (case Option.bind root (alter_path (bin_dir @ [entry])
          (write_file SCRIPT_MODE (ascii_bytes (bridge_text entry)))) of
        None \<Rightarrow> io_raise (CliError ''could not bridge the retired entry point '')
      | Some n \<Rightarrow> io_bind (io_do (put_root commit n)) (\<lambda>_. install_bridges commit es)))"

definition install_entry_point_bridges :: "pystr \<Rightarrow> unit cli" where
  "install_entry_point_bridges commit = install_bridges commit RETIRED_ENTRY_POINTS"

definition manifest_value :: "pystr \<Rightarrow> pybytes \<Rightarrow> json" where
  "manifest_value commit d = JObj [(lit ''schema_version'', JInt RUNTIME_MANIFEST_SCHEMA),
     (lit ''commit'', JStr commit), (lit ''content_digest'', JStr (bytes_hex d))]"

definition write_runtime_manifest :: "pystr \<Rightarrow> unit cli" where
  "write_runtime_manifest commit = io_bind (io_read (cli_commit_dir commit)) (\<lambda>root. case root of
      None \<Rightarrow> io_raise (CliError ''could not digest the runtime tree for commit '')
    | Some n \<Rightarrow> (case runtime_content_digest n of
        Inl OSError \<Rightarrow> io_raise (CliError ''could not digest the runtime tree for commit '')
      | Inl e \<Rightarrow> io_raise e
      | Inr d \<Rightarrow> io_bind (io_lift (ebind (dumps (manifest_value commit d)) (\<lambda>t. utf8_encode (t @ [10])))) (\<lambda>bs.
          case alter_path [RUNTIME_MANIFEST_NAME] (write_file DEFAULT_MODE bs) n of
            None \<Rightarrow> io_raise OSError
          | Some n' \<Rightarrow> io_do (put_root commit n'))))"

section \<open>Building, activating and removing\<close>

text \<open>\<open>git archive\<close> extracted into an empty directory, and \<open>uv sync\<close> in it; None is a failure of the
  program, a timeout or a bad archive.\<close>

record Builder =
  b_archive :: "pystr \<Rightarrow> node option"
  b_sync :: "node \<Rightarrow> node option"

definition materialize :: "Builder \<Rightarrow> pystr \<Rightarrow> unit cli" where
  "materialize B commit = (case b_archive B commit of
      None \<Rightarrow> io_raise (CliError ''could not archive commit '')
    | Some extracted \<Rightarrow> io_bind (io_do (put_root commit extracted)) (\<lambda>_. case b_sync B extracted of
        None \<Rightarrow> io_raise (CliError ''could not synchronize the CLI environment: '')
      | Some synced \<Rightarrow> io_do (put_root commit synced)))"

text \<open>The old tree is removed and an empty directory made; both fail on anything but a directory.\<close>

definition fresh_root :: "pystr \<Rightarrow> unit cli" where
  "fresh_root commit = io_bind (io_read (cli_commit_dir commit)) (\<lambda>root.
     if (case root of None \<Rightarrow> True | Some (Dir _ _ _) \<Rightarrow> True | _ \<Rightarrow> False)
     then io_do (put_root commit (Dir SCRIPT_MODE True [])) else io_raise OSError)"

definition build_cli_root :: "Builder \<Rightarrow> pystr \<Rightarrow> unit cli" where
  "build_cli_root B commit =
    io_bind (io_lift (validate_commit_name commit)) (\<lambda>_.
    io_bind (runtime_is_usable commit) (\<lambda>usable. if usable then io_return ()
    else io_bind (io_get current_commit) (\<lambda>current. if current = Some commit
      then io_raise (CliError ''refusing to rebuild confirmed CLI environment for commit '')
    else io_bind (unseal_runtime commit) (\<lambda>_.
      io_bind (fresh_root commit) (\<lambda>_.
      io_bind (io_catch (materialize B commit) (\<lambda>e. io_bind (io_do (remove_root commit)) (\<lambda>_. io_raise e))) (\<lambda>_.
      io_bind (io_read (root_is_usable commit)) (\<lambda>complete. if \<not> complete
        then io_bind (io_do (remove_root commit)) (\<lambda>_. io_raise (CliError ''CLI environment for commit ''))
      else io_bind (install_entry_point_bridges commit) (\<lambda>_.
        io_bind (write_runtime_manifest commit) (\<lambda>_.
        io_bind (seal_runtime commit) (\<lambda>_.
        io_bind (runtime_is_usable commit) (\<lambda>usable. if usable then io_return ()
        else io_bind (unseal_runtime commit) (\<lambda>_.
          io_bind (io_do (remove_root commit)) (\<lambda>_.
            io_raise (CliError ''CLI environment for commit ''))))))))))))))"

text \<open>\<open>write_symlink_durable\<close> is confirmed, fails before the switch, or fails after it (\<open>Durable\<close>).\<close>

datatype link_outcome = Switched | NotSwitched | SwitchUnconfirmed

definition set_current :: "link_outcome \<Rightarrow> pystr \<Rightarrow> unit cli" where
  "set_current outcome commit = io_bind (io_lift (validate_commit_name commit)) (\<lambda>_. case outcome of
      Switched \<Rightarrow> io_do (\<lambda>s. s\<lparr>c_current := Some commit\<rparr>)
    | NotSwitched \<Rightarrow> io_raise (CliError ''could not activate CLI commit '')
    | SwitchUnconfirmed \<Rightarrow> io_bind (io_do (\<lambda>s. s\<lparr>c_current := Some commit\<rparr>)) (\<lambda>_.
        io_raise (CliError ''could not activate CLI commit '')))"

definition reconcile_pointer :: "link_outcome \<Rightarrow> pystr \<Rightarrow> bool cli" where
  "reconcile_pointer outcome commit = io_bind (runtime_is_usable commit) (\<lambda>usable.
     if \<not> usable then io_return False
     else io_bind (io_get current_commit) (\<lambda>current.
       if current = Some commit then io_return True
       else io_catch (io_bind (set_current outcome commit) (\<lambda>_. io_return True))
         (\<lambda>e. case e of CliError _ \<Rightarrow> io_return False | _ \<Rightarrow> io_raise e)))"

text \<open>The arguments are the answers of the supervisor: an error is a connection that failed.\<close>

definition supervisor_authoritative_commits ::
    "SupervisorDesired option res \<Rightarrow> SupervisorState res \<Rightarrow> pystr list" where
  "supervisor_authoritative_commits desired state =
    (case desired of Inr (Some d) \<Rightarrow> filter is_valid_commit_name [sd_commit d] | _ \<Rightarrow> [])
    @ (case state of
        Inl _ \<Rightarrow> []
      | Inr st \<Rightarrow> filter is_valid_commit_name (case ss_commit st of None \<Rightarrow> [] | Some c \<Rightarrow> [c])
          @ filter is_valid_commit_name (case ss_supervisor_runtime_commit st of None \<Rightarrow> [] | Some c \<Rightarrow> [c]))"

definition remove_cli_root :: "pystr list \<Rightarrow> pystr \<Rightarrow> unit cli" where
  "remove_cli_root authoritative commit = io_bind (io_get current_commit) (\<lambda>current.
     if \<not> is_valid_commit_name commit \<or> Some commit = current then io_return ()
     else if commit \<in> set authoritative then io_return ()
     else io_bind (io_read (cli_commit_dir commit)) (\<lambda>root.
       if Option.bind root follow = None then io_return ()
       else io_bind (unseal_runtime commit) (\<lambda>_. io_do (remove_root commit))))"

fun gc_loop :: "pystr list \<Rightarrow> pystr list \<Rightarrow> unit cli" where
  "gc_loop keep [] = io_return ()"
| "gc_loop keep (name # names) =
    io_bind (if name \<in> {CURRENT_LINK_NAME, CURRENT_TMP_NAME} \<or> name \<in> set keep then io_return ()
      else io_bind (if is_valid_commit_name name then unseal_runtime name else io_return ()) (\<lambda>_.
        io_do (remove_root name))) (\<lambda>_. gc_loop keep names)"

definition gc_cli_roots :: "pystr list \<Rightarrow> pystr list \<Rightarrow> unit cli" where
  "gc_cli_roots authoritative keep = io_bind (io_get current_commit) (\<lambda>current.
     io_bind (io_get (\<lambda>s. map fst (c_roots s)))
       (gc_loop (keep @ (case current of None \<Rightarrow> [] | Some c \<Rightarrow> [c]) @ authoritative)))"

section \<open>Sweeps and concrete runtimes\<close>

text \<open>What removing a name may leave of it: no directory.\<close>

definition collected :: "node option \<Rightarrow> node option \<Rightarrow> bool" where
  "collected old new = (case old of None \<Rightarrow> new = None | Some (Dir _ _ _) \<Rightarrow> new = None | Some _ \<Rightarrow> True)"

definition spared :: "pystr list \<Rightarrow> pystr \<Rightarrow> bool" where
  "spared keep c \<longleftrightarrow> c \<in> {CURRENT_LINK_NAME, CURRENT_TMP_NAME} \<or> c \<in> set keep"

text \<open>An entry whose contribution can be computed.\<close>

definition digestible :: "pystr \<times> node \<Rightarrow> bool" where
  "digestible e \<longleftrightarrow> list_all encodable (fst e) \<and> length (fst e) < 2 ^ 60 \<and> (case snd e of
      File _ c \<Rightarrow> c \<noteq> None
    | Link t _ \<Rightarrow> list_all encodable t \<and> length t < 2 ^ 60
    | Gone \<Rightarrow> False
    | _ \<Rightarrow> True)"

definition sample_commit :: pystr where
  "sample_commit = replicate 40 97"

definition sample_entries :: "(pystr \<times> node) list" where
  "sample_entries = [(lit ''.venv'', Dir SCRIPT_MODE True [(lit ''bin'', Dir SCRIPT_MODE True
     (map (\<lambda>e. (e, File SCRIPT_MODE (Some []))) known_entry_points))])]"

definition sample_runtime :: node where
  "sample_runtime = Dir SCRIPT_MODE True sample_entries"

definition sample_cli_store :: cli_store where
  "sample_cli_store = \<lparr>c_roots = [], c_current = None\<rparr>"

definition sample_builder :: Builder where
  "sample_builder = \<lparr>b_archive = (\<lambda>_. Some (Dir SCRIPT_MODE True [])), b_sync = (\<lambda>_. Some sample_runtime)\<rparr>"


section \<open>Usable runtimes\<close>

lemma root_is_usable_Inr:
  "is_valid_commit_name c \<Longrightarrow> root_is_usable c s = Inr b \<Longrightarrow>
   b = (\<exists>n. map_of (c_roots s) c = Some n \<and> list_all (\<lambda>e. is_file (bin_dir @ [e]) n) ENTRY_POINTS)"
proof -
  assume v: "is_valid_commit_name c" and u: "root_is_usable c s = Inr b"
  have "all_present c es s = Inr b \<Longrightarrow>
      b = (case map_of (c_roots s) c of None \<Rightarrow> es = [] | Some n \<Rightarrow> list_all (\<lambda>e. is_file (bin_dir @ [e]) n) es)" for es
    using v by (induction es)
      (auto simp: cli_entry_executable_def cli_commit_dir_def validate_commit_name_def split: option.splits if_splits)
  from this [of ENTRY_POINTS] u show ?thesis
    by (auto simp: root_is_usable_def ENTRY_POINTS_def split: option.splits)
qed

lemma valid_commit_dir [simp]: "is_valid_commit_name c \<Longrightarrow> cli_commit_dir c s = Inr (map_of (c_roots s) c)"
  by (simp add: cli_commit_dir_def validate_commit_name_def)

lemma root_put [simp]: "map_of (c_roots (put_root c n s)) c' = (if c' = c then Some n else map_of (c_roots s) c')"
  by (simp add: put_root_def update_conv')

lemma current_put [simp]: "c_current (put_root c n s) = c_current s"
  by (simp add: put_root_def)

lemma on_root_result:
  "is_valid_commit_name c \<Longrightarrow> on_root f c s = (Inr (), case map_of (c_roots s) c of
      Some n \<Rightarrow> (case follow n of Some (Dir m r es) \<Rightarrow> put_root c (f n) s | _ \<Rightarrow> s) | None \<Rightarrow> s)"
  by (auto simp: on_root_def effect_defs io_do_def split: option.splits node.splits)

lemma digest_matches_Inr: "digest_matches n d = Inr True \<longleftrightarrow> runtime_content_digest n = Inr d"
  by (auto simp: digest_matches_def split: sum.splits pyerr.splits)

lemma seal_digest [simp]: "runtime_content_digest (seal_tree n) = runtime_content_digest n"
  unfolding seal_tree_def by (rule digest_chmod) simp

lemma usable_cases:
  assumes "runtime_is_usable c s = (Inr True, s')"
  obtains n data d where "is_valid_commit_name c" "map_of (c_roots s) c = Some n"
    "list_all (\<lambda>e. is_file (bin_dir @ [e]) n) ENTRY_POINTS"
    "read_manifest n = Some data" "manifest_digest data c = Some d" "runtime_content_digest n = Inr d"
    "tree_is_read_only n \<and> s' = s
      \<or> c_current s = Some c \<and> tree_is_read_only (seal_tree n) \<and> s' = put_root c (seal_tree n) s"
proof -
  have v: "is_valid_commit_name c"
    using assms by (auto simp: runtime_is_usable_def io_return_def split: if_splits)
  obtain b where b: "root_is_usable c s = Inr b"
    using assms v by (cases "root_is_usable c s") (auto simp: runtime_is_usable_def effect_defs)
  have "b" using assms v b by (auto simp: runtime_is_usable_def effect_defs split: if_splits)
  with root_is_usable_Inr [OF v b] obtain n where n: "map_of (c_roots s) c = Some n"
    "list_all (\<lambda>e. is_file (bin_dir @ [e]) n) ENTRY_POINTS" by auto
  obtain data d where d: "read_manifest n = Some data" "manifest_digest data c = Some d"
    "runtime_content_digest n = Inr d"
    using assms v b n(1) \<open>b\<close>
    by (auto simp: runtime_is_usable_def effect_defs bind_eq_None_conv bind_eq_Some_conv digest_matches_Inr
        split: option.splits sum.splits if_splits)
  have f: "\<exists>m r es. follow n = Some (Dir m r es)"
    using d(3) by (auto simp: runtime_content_digest_def tree_encoding_def tree_entries_def split: option.splits node.splits)
  have "tree_is_read_only n \<and> s' = s
      \<or> c_current s = Some c \<and> tree_is_read_only (seal_tree n) \<and> s' = put_root c (seal_tree n) s"
    using assms v b n(1) \<open>b\<close> d f
    by (auto simp: runtime_is_usable_def effect_defs on_root_result seal_runtime_def current_commit_def
        digest_matches_def split: if_splits)
  with that v n d show thesis by blast
qed

lemma named_chmod: "named (chmod_walk f n) \<longleftrightarrow> named n"
  by (induction n) (auto simp: list_all_iff comp_def case_prod_unfold)

lemma follow_file_inspectable: "follow n = Some (File m c) \<Longrightarrow> inspectable n"
  by (cases n) auto

lemma read_only_unwritable:
  assumes ro: "tree_is_read_only n" and d: "runtime_content_digest n = Inr d" and "named n"
    and m: "read_manifest n = Some data"
  shows "unwritable n"
proof -
  obtain md es where n: "n = Dir md True es" and ro: "read_only_below n"
    using ro d by (auto simp: tree_is_read_only_def runtime_content_digest_def tree_encoding_def tree_entries_def
        split: option.splits node.splits if_splits)
  obtain l where "collect [] es = Inr l"
    using d by (auto simp: n runtime_content_digest_def tree_encoding_def tree_entries_def)
  from collect_inspectable [OF this] \<open>named n\<close>
  have es: "list_all (\<lambda>(k, x). k = RUNTIME_MANIFEST_NAME \<or> inspectable x) es" by (simp add: n)
  have "inspectable x" if x: "(RUNTIME_MANIFEST_NAME, x) \<in> set es" for x
  proof -
    have "map_of es RUNTIME_MANIFEST_NAME = Some x" using x \<open>named n\<close> by (simp add: n)
    then show ?thesis
      using m by (auto simp: read_manifest_def content_of_def n intro: follow_file_inspectable split: option.splits node.splits)
  qed
  with es have "inspectable n" by (auto simp: n list_all_iff)
  with ro show ?thesis by (rule inspectable_unwritable)
qed

lemma content_of_chmod: "content_of (find_path ps (chmod_walk f n)) = content_of (find_path ps n)"
proof (induction ps arbitrary: n)
  case Nil
  then show ?case by (cases n) (auto simp: content_of_def)
next
  case (Cons p ps)
  have "map_of (map (\<lambda>(k, n). (k, chmod_walk f n)) es) p = map_option (chmod_walk f) (map_of es p)" for es
    by (induction es) auto
  then show ?case using Cons by (cases n) (auto simp: bind_map_option comp_def split: option.splits bind_splits)
qed

lemma content_of_seal: "n = Dir m r es \<Longrightarrow> content_of (find_path ps (seal_tree n)) = content_of (find_path ps n)"
  by (simp add: seal_tree_def chmod_tree_def content_of_chmod del: chmod_walk.simps)

section \<open>Building\<close>

lemma hex_ascii [simp]: "n < 16 \<Longrightarrow> \<not> ascii_space (hex_char n)"
  by (auto simp: hex_char_def ascii_space_def)

lemma fromhex_hex: "bytes_fromhex (bytes_hex bs) = Some bs"
proof (induction bs)
  case (Cons b bs)
  have "unat b < 256" using unsigned_less [where 'b = 8 and 'a = nat, of b] by simp
  moreover have "of_nat (16 * (unat b div 16) + unat b mod 16) = b" by simp
  ultimately show ?case using Cons by (simp add: bytes_hex_def)
qed (simp add: bytes_hex_def)

lemma hex_char_encodable: "n < 16 \<Longrightarrow> encodable (hex_char n)"
  by (auto simp: encodable_def hex_char_def)

lemma bytes_hex_clean: "clean (bytes_hex d)"
proof (rule encodable_clean)
  have "unat b div 16 < 16" "unat b mod 16 < 16" for b :: "8 word" using unsigned_less [where 'b = 8 and 'a = nat, of b] by simp_all
  then show "list_all encodable (bytes_hex d)" by (induction d) (auto simp: bytes_hex_def hex_char_encodable)
qed

lemma valid_commit_clean: "is_valid_commit_name c \<Longrightarrow> clean c"
  by (rule encodable_clean)
    (auto simp: is_valid_commit_name_def list_all_iff encodable_def hex_digit_def split: if_splits)

lemma loads_line: "plain j \<Longrightarrow> loads (json_text j @ [10]) = Inr j"
  using parsesD [OF parses_plain, of j "[10]" "Suc (2 * length (json_text j @ [10]))"]
  by (simp add: loads_def stops_def skip_ws_def [of "[10]"] del: parse_value.simps length_append)

lemma plain_manifest: "is_valid_commit_name c \<Longrightarrow> plain (manifest_value c d)"
  by (simp add: manifest_value_def valid_commit_clean bytes_hex_clean RUNTIME_MANIFEST_SCHEMA_def digits_ok_small
      max_str_digits_def nat_text.simps)

lemma manifest_roundtrip:
  assumes "is_valid_commit_name c"
  shows "\<exists>t bs. dumps (manifest_value c d) = Inr t \<and> utf8_encode (t @ [10]) = Inr bs
    \<and> loads (utf8_decode bs) = Inr (sort_json (manifest_value c d)) \<and> utf8_encode (utf8_decode bs) = Inr bs"
proof -
  let ?j = "sort_json (manifest_value c d)"
  have p: "plain (manifest_value c d)" "plain ?j" using assms by (simp_all add: plain_manifest plain_sort_json)
  obtain bs where bs: "utf8_encode (json_text ?j @ [10]) = Inr bs"
    using ascii_utf8 [OF ascii_json [OF p(2)]] by (auto simp: utf8_encode_def encodable_def)
  then show ?thesis using p loads_line [OF p(2)] utf8_decode_encode [OF bs] by (simp add: plain_dumps)
qed

lemma manifest_read: "manifest_digest (sort_json (manifest_value c d)) c = Some d"
proof -
  let ?ps = "[(lit ''schema_version'', JInt RUNTIME_MANIFEST_SCHEMA), (lit ''commit'', JStr c),
     (lit ''content_digest'', JStr (bytes_hex d))]"
  let ?ds = "sort_key fst (map (\<lambda>(k, v). (k, sort_json v)) ?ps)"
  have "sort_json (manifest_value c d) = JObj ?ds" by (simp only: manifest_value_def sort_json.simps)
  moreover have "dict_get ?ds k = sort_json (dict_get ?ps k)" for k by (rule dict_get_sorted) simp
  then have "dict_get ?ds ''schema_version'' = JInt RUNTIME_MANIFEST_SCHEMA" "dict_get ?ds ''commit'' = JStr c"
    "dict_get ?ds ''content_digest'' = JStr (bytes_hex d)"
    by (simp_all only: dict_get_Cons lit_inject if_True if_False sort_json.simps simp_thms list.inject char.inject refl)
  ultimately show ?thesis by (simp only: manifest_digest_def json.case) (simp add: fromhex_hex py_eq_int_def)
qed

lemma root_is_usable_eq:
  assumes v: "is_valid_commit_name c" and n: "map_of (c_roots s) c = Some n"
  shows "root_is_usable c s = Inr (list_all (\<lambda>e. is_file (bin_dir @ [e]) n) ENTRY_POINTS)"
proof -
  have "all_present c es s = Inr (list_all (\<lambda>e. is_file (bin_dir @ [e]) n) es)" for es
    using v n by (induction es) (auto simp: cli_entry_executable_def)
  then show ?thesis by (simp add: root_is_usable_def)
qed

lemma usable_intro:
  assumes "is_valid_commit_name c" "map_of (c_roots s) c = Some n"
    "list_all (\<lambda>e. is_file (bin_dir @ [e]) n) ENTRY_POINTS" "read_manifest n = Some j"
    "manifest_digest j c = Some d" "runtime_content_digest n = Inr d" "tree_is_read_only n"
  shows "runtime_is_usable c s = (Inr True, s)"
  using assms by (simp add: runtime_is_usable_def effect_defs root_is_usable_eq digest_matches_def)

lemma unusable_keeps:
  assumes "runtime_is_usable c s = (r, s')" "c_current s \<noteq> Some c"
  shows "s' = s"
proof (cases "is_valid_commit_name c")
  case v: True
  show ?thesis
  proof (cases "map_of (c_roots s) c")
    case (Some n)
    then show ?thesis using assms v
      by (auto simp: runtime_is_usable_def effect_defs root_is_usable_eq current_commit_def
          split: option.splits if_splits sum.splits)
  next
    case None
    have "all_present c es s = Inr (es = [])" for es
      using v None by (cases es) (auto simp: cli_entry_executable_def)
    then show ?thesis using assms v None
      by (auto simp: runtime_is_usable_def root_is_usable_def effect_defs split: if_splits)
  qed
qed (use assms in \<open>simp add: runtime_is_usable_def io_return_def\<close>)

lemma put_put [simp]: "put_root c n (put_root c n' s) = put_root c n s"
  by (simp add: put_root_def update_last)

lemma unseal_result:
  "is_valid_commit_name c \<Longrightarrow> \<exists>s'. unseal_runtime c s = (Inr (), s') \<and> (s' = s \<or> (\<exists>n. s' = put_root c n s
     \<and> map_of (c_roots s) c \<noteq> None))
     \<and> (\<forall>m r es. map_of (c_roots s) c = Some (Dir m r es) \<longrightarrow> (\<exists>m' es'. map_of (c_roots s') c = Some (Dir m' r es')))"
  by (auto simp: unseal_runtime_def on_root_result unseal_tree_def chmod_tree_def split: option.splits node.splits)

lemma bridges_present:
  "is_valid_commit_name c \<Longrightarrow> map_of (c_roots s) c = Some n \<Longrightarrow>
   list_all (\<lambda>e. is_file (bin_dir @ [e]) n) es \<Longrightarrow> install_bridges c es s = (Inr (), s)"
  by (induction es) (auto simp: effect_defs is_file_def content_of_def split: option.splits)

lemma collect_append:
  "collect p (xs @ ys) = ebind (collect p xs) (\<lambda>a. ebind (collect p ys) (\<lambda>b. Ok (a @ b)))"
  by (induction p xs rule: collect.induct)
    (simp_all add: ebind_assoc split: node.splits, simp_all add: ebind_def split: sum.splits)

lemma update_fresh: "k \<notin> fst ` set es \<Longrightarrow> AList.update k v es = es @ [(k, v)]"
  by (induction es) auto

lemma collect_manifest:
  "RUNTIME_MANIFEST_NAME \<notin> fst ` set es \<Longrightarrow> collect [] (AList.update RUNTIME_MANIFEST_NAME f es) = collect [] es"
  by (cases "collect [] es") (simp_all add: update_fresh collect_append)

lemma entry_path_update:
  "find_path (bin_dir @ [e]) (Dir m r (AList.update RUNTIME_MANIFEST_NAME f es)) = find_path (bin_dir @ [e]) (Dir m r es)"
  by (simp add: bin_dir_def RUNTIME_MANIFEST_NAME_def update_conv')

lemma bound_digest:
  assumes "n = Dir m True es" "RUNTIME_MANIFEST_NAME \<notin> fst ` set es"
  shows "runtime_content_digest (Dir m True (AList.update RUNTIME_MANIFEST_NAME f es)) = runtime_content_digest n"
    "content_view (Dir m True (AList.update RUNTIME_MANIFEST_NAME f es)) = content_view n"
  using assms by (simp_all add: runtime_content_digest_def content_view_def tree_encoding_def tree_entries_def collect_manifest)

lemma seal_view [simp]: "content_view (seal_tree n) = content_view n"
proof -
  have "(\<lambda>(rel, x). (rel, evidence_of x)) \<circ> chmod_entry (\<lambda>m. m AND NOT WRITE_BITS) = (\<lambda>(rel, x). (rel, evidence_of x))"
  proof
    fix e :: "pystr \<times> node"
    obtain rel x where "e = (rel, x)" by fastforce
    then show "((\<lambda>(rel, x). (rel, evidence_of x)) \<circ> chmod_entry (\<lambda>m. m AND NOT WRITE_BITS)) e = (\<lambda>(rel, x). (rel, evidence_of x)) e"
      by (cases x rule: evidence_of.cases) auto
  qed
  then show ?thesis by (simp add: content_view_def seal_tree_def tree_entries_chmod ebind_assoc)
qed

lemma sealed_bound:
  assumes n: "n = Dir m True es" "RUNTIME_MANIFEST_NAME \<notin> fst ` set es" "inspectable n"
    and e: "list_all (\<lambda>e. is_file (bin_dir @ [e]) n) xs"
    and bs: "utf8_encode (utf8_decode bs) = Inr bs" "loads (utf8_decode bs) = Inr j"
    and t: "t = seal_tree (Dir m True (AList.update RUNTIME_MANIFEST_NAME (File k (Some bs)) es))"
  shows "tree_is_read_only t" "list_all (\<lambda>e. is_file (bin_dir @ [e]) t) xs" "read_manifest t = Some j"
    "runtime_content_digest t = runtime_content_digest n" "content_view t = content_view n"
proof -
  have i: "inspectable (Dir m True (AList.update RUNTIME_MANIFEST_NAME (File k (Some bs)) es))"
    using n by (simp add: update_fresh)
  then show "tree_is_read_only t"
    using sealed_read_only [OF i] unfolding t by (simp add: tree_is_read_only_def seal_tree_def chmod_tree_def)
  show "list_all (\<lambda>e. is_file (bin_dir @ [e]) t) xs"
    using e n(1) by (simp add: t is_file_def content_of_seal entry_path_update del: find_path.simps)
  show "read_manifest t = Some j"
    unfolding read_manifest_def t by (subst content_of_seal [OF refl]) (simp add: content_of_def update_conv' bs)
  show "runtime_content_digest t = runtime_content_digest n" "content_view t = content_view n"
    using bound_digest [OF n(1,2)] by (simp_all add: t)
qed


lemma chmod_linked_Link: "chmod_linked f (Link t x) = Link t (map_option (chmod_linked f) x)"
  by (cases x) auto

lemma sealed_manifest: "tree_is_read_only (seal_tree n) \<Longrightarrow> runtime_content_digest n = Inr d \<Longrightarrow>
    read_manifest (seal_tree n) = read_manifest n"
proof -
  assume ro: "tree_is_read_only (seal_tree n)" and d: "runtime_content_digest n = Inr d"
  obtain m es where f: "follow n = Some (Dir m True es)"
    using d by (auto simp: runtime_content_digest_def tree_encoding_def tree_entries_def
        split: option.splits node.splits if_splits)
  have "\<exists>m es. n = Dir m True es"
  proof (cases n)
    case (Link t x)
    then have "seal_tree n = Link t (map_option (chmod_linked (\<lambda>m. m AND NOT WRITE_BITS)) x)"
      "\<exists>es'. follow (seal_tree n) = Some (Dir m True es')"
      using f by (simp_all add: seal_tree_def chmod_tree_def chmod_linked_Link [symmetric] follow_chmod_linked del: follow.simps)
    then show ?thesis using ro by (auto simp: tree_is_read_only_def)
  qed (use f in auto)
  then show ?thesis by (auto simp only: read_manifest_def content_of_seal)
qed

text \<open>C9. A runtime is reported usable only when its name is a full commit hash, every maintained entry
  point is a file in it, its manifest binds exactly this commit to the digest recomputed over the tree,
  and the tree that is left has no write bit on anything but links (directory names being non-empty and
  unique). Nothing else changed: the tree is the one that was there, or, for the commit \<open>current\<close>
  selects and no other, that tree sealed again, with the same content; no other runtime was touched.\<close>

theorem runtime_is_usable_sound:
  assumes "runtime_is_usable c s = (Inr True, s')"
  shows "is_valid_commit_name c \<and> c_current s' = c_current s
    \<and> (\<exists>n n' data d. map_of (c_roots s) c = Some n \<and> map_of (c_roots s') c = Some n'
      \<and> list_all (\<lambda>e. is_file (bin_dir @ [e]) n) ENTRY_POINTS
      \<and> read_manifest n = Some data \<and> manifest_digest data c = Some d
      \<and> runtime_content_digest n = Inr d \<and> content_view n' = content_view n
      \<and> tree_is_read_only n' \<and> (named n' \<longrightarrow> unwritable n')
      \<and> (n' = n \<or> c_current s = Some c \<and> n' = seal_tree n))
    \<and> (\<forall>c'. c' \<noteq> c \<longrightarrow> map_of (c_roots s') c' = map_of (c_roots s) c')"
proof -
  obtain n data d where v: "is_valid_commit_name c" and n: "map_of (c_roots s) c = Some n"
    "list_all (\<lambda>e. is_file (bin_dir @ [e]) n) ENTRY_POINTS"
    "read_manifest n = Some data" "manifest_digest data c = Some d" "runtime_content_digest n = Inr d"
    and s': "tree_is_read_only n \<and> s' = s
      \<or> c_current s = Some c \<and> tree_is_read_only (seal_tree n) \<and> s' = put_root c (seal_tree n) s"
    by (rule usable_cases [OF assms])
  from s' show ?thesis
  proof
    assume "tree_is_read_only n \<and> s' = s"
    then show ?thesis using v n read_only_unwritable by auto
  next
    assume "c_current s = Some c \<and> tree_is_read_only (seal_tree n) \<and> s' = put_root c (seal_tree n) s"
    moreover from this have "read_manifest (seal_tree n) = Some data"
      using n(3,5) sealed_manifest [of n] by auto
    ultimately show ?thesis using v n read_only_unwritable [of "seal_tree n"] by auto
  qed
qed

section \<open>Removal\<close>

lemma remove_root_at: "map_of (c_roots (remove_root c s)) c' =
    (if c' = c \<and> (case map_of (c_roots s) c of Some (Dir _ _ _) \<Rightarrow> True | _ \<Rightarrow> False) then None
     else map_of (c_roots s) c')"
  by (auto simp: remove_root_def delete_conv' split: option.splits node.splits)

lemma remove_root_current [simp]: "c_current (remove_root c s) = c_current s"
  by (auto simp: remove_root_def split: option.splits node.splits)

lemma gc_step:
  assumes "\<not> spared keep name"
  obtains s1 where "gc_loop keep (name # names) s = gc_loop keep names s1" "c_current s1 = c_current s"
    "\<And>c. c \<noteq> name \<Longrightarrow> map_of (c_roots s1) c = map_of (c_roots s) c"
    "collected (map_of (c_roots s) name) (map_of (c_roots s1) name)"
    "\<And>m r es. map_of (c_roots s1) name \<noteq> Some (Dir m r es)"
proof -
  define s0 where "s0 = (if is_valid_commit_name name then snd (unseal_runtime name s) else s)"
  have s0: "c_current s0 = c_current s" "\<And>c. c \<noteq> name \<Longrightarrow> map_of (c_roots s0) c = map_of (c_roots s) c"
    "map_of (c_roots s) name = None \<Longrightarrow> map_of (c_roots s0) name = None"
    "\<And>m r es. map_of (c_roots s) name = Some (Dir m r es) \<Longrightarrow> \<exists>m es. map_of (c_roots s0) name = Some (Dir m r es)"
    using unseal_result [of name s] by (auto simp: s0_def)
  have "gc_loop keep (name # names) s = gc_loop keep names (remove_root name s0)"
    using assms unseal_result [of name s] by (auto simp: effect_defs io_do_def s0_def spared_def)
  then show thesis
    by (rule that) (use s0 in \<open>auto simp: remove_root_at collected_def split: option.splits node.splits\<close>)
qed

lemma gc_loop_effect:
  "\<exists>s'. gc_loop keep names s = (Inr (), s') \<and> c_current s' = c_current s
    \<and> (\<forall>c. if c \<in> set names \<and> \<not> spared keep c then collected (map_of (c_roots s) c) (map_of (c_roots s') c)
         else map_of (c_roots s') c = map_of (c_roots s) c)"
proof (induction names arbitrary: s)
  case Nil
  then show ?case by (simp add: io_return_def)
next
  case (Cons name names)
  show ?case
  proof (cases "spared keep name")
    case True
    then have "gc_loop keep (name # names) s = gc_loop keep names s" by (auto simp: effect_defs spared_def)
    then show ?thesis using Cons.IH [of s] True by (metis set_ConsD list.set_intros(2))
  next
    case False
    obtain s1 where s1: "gc_loop keep (name # names) s = gc_loop keep names s1" "c_current s1 = c_current s"
      "\<And>c. c \<noteq> name \<Longrightarrow> map_of (c_roots s1) c = map_of (c_roots s) c"
      "collected (map_of (c_roots s) name) (map_of (c_roots s1) name)"
      "\<And>m r es. map_of (c_roots s1) name \<noteq> Some (Dir m r es)"
      by (rule gc_step [OF False, of names s]) (rule that; blast)
    obtain s' where s': "gc_loop keep names s1 = (Inr (), s')" "c_current s' = c_current s1"
      "\<And>c. if c \<in> set names \<and> \<not> spared keep c then collected (map_of (c_roots s1) c) (map_of (c_roots s') c)
         else map_of (c_roots s') c = map_of (c_roots s1) c"
      using Cons.IH [of s1] by auto
    have "collected (map_of (c_roots s) name) (map_of (c_roots s') name)"
      using s'(3) [of name] s1(4,5) by (auto simp: collected_def split: if_splits option.splits node.splits)
    moreover have "if c \<in> set names \<and> \<not> spared keep c then collected (map_of (c_roots s) c) (map_of (c_roots s') c)
         else map_of (c_roots s') c = map_of (c_roots s) c" if "c \<noteq> name" for c
      using s'(3) [of c] unfolding s1(3) [OF that] .
    ultimately have "if c \<in> set (name # names) \<and> \<not> spared keep c then collected (map_of (c_roots s) c) (map_of (c_roots s') c)
         else map_of (c_roots s') c = map_of (c_roots s) c" for c
      using False by (cases "c = name") auto
    then show ?thesis using s1(1,2) s'(1,2) by metis
  qed
qed


section \<open>A concrete runtime\<close>

lemma sha256_length [simp]: "length (sha256 bs) = 32"
  by (simp add: sha256_def split: prod.splits)

lemma utf8_size_le: "utf8_size s \<le> 4 * length s"
proof (induction s)
  case (Cons c s)
  then show ?case using utf8_char_length [of c] by (simp add: utf8_size_def)
qed (simp add: utf8_size_def)

lemma digestible_contributions:
  assumes "digestible e"
  shows "\<exists>c. contributions e = Inr c \<and> list_all (\<lambda>d. length d < 2 ^ 64) c"
proof -
  obtain rel n where e: "e = (rel, n)" by fastforce
  have short: "length (concat (map utf8_char t)) < 2 ^ 64" if "length t < 2 ^ 60" for t
    using that utf8_size_le [of t] by (simp add: utf8_size_def)
  then show ?thesis
    using assms by (cases n rule: evidence_of.cases) (auto simp: e digestible_def contributions_def utf8_encode_def)
qed

lemma update_frames_total: "list_all (\<lambda>d. length d < 2 ^ 64) ds \<Longrightarrow> \<exists>x. update_frames ds = Inr x"
  by (induction ds) (auto simp: update_frame_def)

lemma digestible_contributions_all:
  "list_all digestible l \<Longrightarrow> \<exists>c. all_contributions l = Inr c \<and> list_all (\<lambda>d. length d < 2 ^ 64) c"
  by (induction l) (auto dest!: digestible_contributions simp del: split_paired_Ex)

lemma digest_total:
  assumes "collect [] es = Inr l" "list_all digestible l"
  shows "\<exists>d. runtime_content_digest (Dir m True es) = Inr d"
proof -
  have "list_all digestible (sort_key fst l)" using assms(2) by (simp add: list_all_iff)
  then obtain c where "all_contributions (sort_key fst l) = Inr c" "list_all (\<lambda>d. length d < 2 ^ 64) c"
    using digestible_contributions_all by blast
  with update_frames_total assms(1) show ?thesis
    by (fastforce simp: runtime_content_digest_def tree_encoding_def tree_entries_def)
qed

lemma sample_runtime_facts:
  "inspectable sample_runtime" "list_all (\<lambda>e. is_file (bin_dir @ [e]) sample_runtime) known_entry_points"
  "is_valid_commit_name sample_commit" "\<exists>d. runtime_content_digest sample_runtime = Inr d"
proof -
  show "inspectable sample_runtime" by (simp add: sample_runtime_def sample_entries_def known_entry_points_def
        ENTRY_POINTS_def RETIRED_ENTRY_POINTS_def)
  show "list_all (\<lambda>e. is_file (bin_dir @ [e]) sample_runtime) known_entry_points"
    by (simp add: sample_runtime_def sample_entries_def known_entry_points_def
        ENTRY_POINTS_def RETIRED_ENTRY_POINTS_def is_file_def content_of_def bin_dir_def)
  show "is_valid_commit_name sample_commit"
    by (simp add: is_valid_commit_name_def sample_commit_def hex_digit_def list_all_iff)
  show "\<exists>d. runtime_content_digest sample_runtime = Inr d"
    unfolding sample_runtime_def
  proof (rule digest_total)
    let ?l = "(lit ''.venv'', Dir SCRIPT_MODE True [(lit ''bin'', Dir SCRIPT_MODE True (map (\<lambda>e. (e, File SCRIPT_MODE (Some []))) known_entry_points))])
      # (relative (lit ''.venv'') (lit ''bin''), Dir SCRIPT_MODE True (map (\<lambda>e. (e, File SCRIPT_MODE (Some []))) known_entry_points))
      # map (\<lambda>e. (relative (relative (lit ''.venv'') (lit ''bin'')) e, File SCRIPT_MODE (Some []))) known_entry_points"
    show "collect [] sample_entries = Inr ?l"
      by (simp add: sample_entries_def RUNTIME_MANIFEST_NAME_def relative_def known_entry_points_def
        ENTRY_POINTS_def RETIRED_ENTRY_POINTS_def)
    show "list_all digestible ?l"
      by (simp add: digestible_def relative_def known_entry_points_def ENTRY_POINTS_def RETIRED_ENTRY_POINTS_def encodable_def)
  qed
qed

lemma sample_usable:
  "\<exists>w t. write_runtime_manifest sample_commit (put_root sample_commit sample_runtime sample_cli_store)
       = (Inr (), put_root sample_commit w sample_cli_store)
     \<and> read_manifest w = read_manifest t
     \<and> runtime_is_usable sample_commit (put_root sample_commit t sample_cli_store)
       = (Inr True, put_root sample_commit t sample_cli_store)"
proof -
  obtain d where d: "runtime_content_digest sample_runtime = Inr d" using sample_runtime_facts(4) by blast
  obtain line bs where bs: "dumps (manifest_value sample_commit d) = Inr line" "utf8_encode (line @ [10]) = Inr bs"
    "loads (utf8_decode bs) = Inr (sort_json (manifest_value sample_commit d))" "utf8_encode (utf8_decode bs) = Inr bs"
    using manifest_roundtrip [OF sample_runtime_facts(3), of d] by blast
  define w where "w = Dir SCRIPT_MODE True (AList.update RUNTIME_MANIFEST_NAME (File DEFAULT_MODE (Some bs)) sample_entries)"
  have fresh: "RUNTIME_MANIFEST_NAME \<notin> fst ` set sample_entries"
    by (simp add: sample_entries_def RUNTIME_MANIFEST_NAME_def)
  have known: "list_all (\<lambda>e. is_file (bin_dir @ [e]) sample_runtime) ENTRY_POINTS"
    using sample_runtime_facts(2) by (simp add: known_entry_points_def)
  note t = sealed_bound [OF sample_runtime_def fresh sample_runtime_facts(1) known bs(4,3) refl, of DEFAULT_MODE,
      folded w_def]
  have "write_runtime_manifest sample_commit (put_root sample_commit sample_runtime sample_cli_store)
      = (Inr (), put_root sample_commit w sample_cli_store)"
    using d bs fresh sample_runtime_facts(3) map_of_eq_None_iff [of sample_entries RUNTIME_MANIFEST_NAME]
    by (simp add: write_runtime_manifest_def effect_defs io_do_def sample_runtime_def write_file_def w_def)
  moreover have "read_manifest w = read_manifest (seal_tree w)"
    by (simp only: read_manifest_def content_of_seal [OF w_def])
  moreover have "runtime_is_usable sample_commit (put_root sample_commit (seal_tree w) sample_cli_store)
      = (Inr True, put_root sample_commit (seal_tree w) sample_cli_store)"
    by (rule usable_intro [OF sample_runtime_facts(3) _ t(2,3) manifest_read]) (use t d in simp_all)
  ultimately show ?thesis by blast
qed

theorem runtime_is_usable_sound_witness:
  "\<exists>t n'. is_valid_commit_name sample_commit \<and> content_view n' = content_view t \<and> tree_is_read_only n'"
  using sample_usable runtime_is_usable_sound [of sample_commit] by (metis (no_types, lifting))


section \<open>Tampering\<close>

lemma content_of_written:
  "alter_path [p] (write_file k bs) n = Some n' \<Longrightarrow> content_of (find_path [p] n') = Some (Some bs)"
proof (induction n arbitrary: n')
  case (Link t x)
  then show ?case by (cases x) auto
next
  case (Dir m r es)
  then obtain x where x: "write_file k bs (map_of es p) = Some x" "n' = Dir m r (AList.update p x es)" by auto
  then have "content_of (follow x) = Some (Some bs)"
    by (auto simp: write_file_def content_of_def split: option.splits node.splits)
  then show ?case using x by (simp add: update_conv')
qed auto

lemma manifest_written:
  assumes "write_runtime_manifest c s = (Inr (), s1)" "is_valid_commit_name c"
  obtains built n' d where "map_of (c_roots s) c = Some built" "runtime_content_digest built = Inr d"
    "map_of (c_roots s1) c = Some n'" "read_manifest n' = Some (sort_json (manifest_value c d))"
proof -
  obtain built d bs n' where b: "map_of (c_roots s) c = Some built" "runtime_content_digest built = Inr d"
    "ebind (dumps (manifest_value c d)) (\<lambda>t. utf8_encode (t @ [10])) = Inr bs"
    "alter_path [RUNTIME_MANIFEST_NAME] (write_file DEFAULT_MODE bs) built = Some n'" "s1 = put_root c n' s"
    using assms
    by (auto simp: write_runtime_manifest_def effect_defs io_do_def split: option.splits sum.splits pyerr.splits)
  have "read_manifest n' = Some (sort_json (manifest_value c d))"
    using manifest_roundtrip [OF assms(2), of d] b(3) content_of_written [OF b(4)] by (auto simp: read_manifest_def)
  with that b show thesis by auto
qed



end
