(* ===== verification/Health.thy ===== *)
theory Health
  imports SuperviseStore WorkerProbe PyUuid
begin

text \<open>
  \<open>src/lubko/health.py\<close>: the health snapshot a worker publishes under its incarnation token, its
  strict reader, and what the supervisor concludes from it: liveness, from the snapshot and one pinned
  kernel process, and operational readiness, from the snapshot alone. The text of a reason is reduced
  to the condition it names.
\<close>

section \<open>Reading one value\<close>

definition required_json_int_min :: "json \<Rightarrow> int \<Rightarrow> int res" where
  "required_json_int_min value minimum = (case value of
      JInt i \<Rightarrow> if i < minimum then Raise (ValueError '' must be >= '') else Ok i
    | _ \<Rightarrow> Raise (TypeError '' must be a JSON integer''))"

definition optional_json_int_zero :: "json \<Rightarrow> int \<Rightarrow> int res" where
  "optional_json_int_zero value minimum = (case value of
      JNull \<Rightarrow> Ok 0
    | JInt i \<Rightarrow> if i < minimum then Raise (ValueError '' must be >= '') else Ok i
    | _ \<Rightarrow> Raise (TypeError '' must be an integer''))"

definition coerce_str :: "json \<Rightarrow> pystr res" where
  "coerce_str value = (case value of
      JNull \<Rightarrow> Ok [] | JStr s \<Rightarrow> Ok s | _ \<Rightarrow> Raise (TypeError '' must be a string''))"

definition required_nonempty_str :: "json \<Rightarrow> pystr res" where
  "required_nonempty_str value =
    (if value = JNull then Raise (ValueError '' is required'')
     else ebind (coerce_str value) (\<lambda>s.
       if s = [] then Raise (ValueError '' must not be empty'') else Ok s))"

definition optional_uuid_str :: "json \<Rightarrow> pystr option res" where
  "optional_uuid_str value =
    (if value = JNull then Ok None
     else ebind (required_nonempty_str value) (\<lambda>s.
       ebind (uuid_of_str s) (\<lambda>u. Ok (Some (uuid_str u)))))"

definition coerce_incarnation_token :: "json \<Rightarrow> pystr res" where
  "coerce_incarnation_token value =
    ebind (coerce_str value) (\<lambda>token. ebind (validate_incarnation_token token) (\<lambda>_. Ok token))"

definition coerce_float :: "json \<Rightarrow> pyfloat option res" where
  "coerce_float value = (case value of
      JNull \<Rightarrow> Ok None
    | JInt i \<Rightarrow> ebind (float_of_int i) (\<lambda>x. Ok (Some x))
    | JFloat x \<Rightarrow> Ok (Some x)
    | _ \<Rightarrow> Raise (TypeError '' must be a number''))"

definition strict_json_bool :: "dict \<Rightarrow> string \<Rightarrow> bool res" where
  "strict_json_bool d k =
    (if \<not> dict_has d k then Ok False
     else case dict_get d k of JBool b \<Rightarrow> Ok b | _ \<Rightarrow> Raise (TypeError '' must be a boolean''))"

text \<open>The lower bound of a number: none, \<open>minimum=0.0\<close> or \<open>minimum_exclusive=0.0\<close>.\<close>

datatype float_bound = Unbounded | AtLeastZero | AboveZero

definition within :: "float_bound \<Rightarrow> pyfloat \<Rightarrow> bool" where
  "within b x = (case b of
      Unbounded \<Rightarrow> True | AtLeastZero \<Rightarrow> \<not> float_less x float_zero | AboveZero \<Rightarrow> \<not> float_le x float_zero)"

definition required_finite_float :: "json \<Rightarrow> float_bound \<Rightarrow> pyfloat res" where
  "required_finite_float value b =
    (if value = JNull then Raise (ValueError '' is required'')
     else ebind (coerce_float value) (\<lambda>result. case result of
         None \<Rightarrow> Raise (ValueError '' must be a finite timestamp'')
       | Some x \<Rightarrow> if \<not> is_finite x then Raise (ValueError '' must be a finite timestamp'')
           else if \<not> within b x then Raise (ValueError '' must be >= '') else Ok x))"

definition optional_finite_float :: "json \<Rightarrow> float_bound \<Rightarrow> pyfloat option res" where
  "optional_finite_float value b = ebind (coerce_float value) (\<lambda>result. case result of
      None \<Rightarrow> Ok None
    | Some x \<Rightarrow> if \<not> is_finite x then Raise (ValueError ''timestamp must be finite'')
        else if \<not> within b x then Raise (ValueError '' must be >= '') else Ok (Some x))"

definition finite_or_zero :: "pyfloat \<Rightarrow> pyfloat" where
  "finite_or_zero x = (if is_finite x then x else float_zero)"

definition finite_or_none :: "pyfloat option \<Rightarrow> pyfloat option" where
  "finite_or_none v = (case v of None \<Rightarrow> None | Some x \<Rightarrow> if is_finite x then v else None)"

section \<open>The snapshot\<close>

definition WORKER_HEALTH_SCHEMA_VERSION :: int where "WORKER_HEALTH_SCHEMA_VERSION = 1"
definition LEGACY_RICH_WORKER_HEALTH_SCHEMA_VERSION :: int where
  "LEGACY_RICH_WORKER_HEALTH_SCHEMA_VERSION = 3"
definition WORKER_HEALTH_OBSERVABILITY_VERSION :: int where "WORKER_HEALTH_OBSERVABILITY_VERSION = 3"

record WorkerHealth =
  wh_schema_version :: int
  wh_worker_id :: pystr
  wh_worker_incarnation :: pystr
  wh_pid :: int
  wh_start_time_ticks :: int
  wh_started_at :: pyfloat
  wh_published_at :: pyfloat
  wh_alive :: bool
  wh_db_connected :: bool
  wh_db_connected_at :: "pyfloat option"
  wh_db_error_at :: "pyfloat option"
  wh_active_jobs :: int
  wh_stopping_jobs :: int
  wh_completed_jobs :: int
  wh_oldest_active_job_age_seconds :: "pyfloat option"
  wh_lease_safety_margin_seconds :: pyfloat
  wh_min_lease_safety_remaining_seconds :: "pyfloat option"
  wh_db_operation_deadline_seconds :: pyfloat
  wh_db_last_activity_at :: "pyfloat option"
  wh_db_deadline_breached_at :: "pyfloat option"
  wh_db_deadline_breach_count :: int
  wh_capture_streams_open :: int
  wh_spool_held_bytes :: int
  wh_scan_batch_limit :: int
  wh_last_scan_batch_size :: int
  wh_last_cancellation_scan_at :: "pyfloat option"
  wh_last_recovery_at :: "pyfloat option"
  wh_last_gc_at :: "pyfloat option"
  wh_cancellation_scan_overdue :: bool
  wh_recovery_overdue :: bool
  wh_gc_overdue :: bool
  wh_gc_batch_limit :: int
  wh_gc_batch_bound_hit :: bool
  wh_cancellation_batch_limit :: int
  wh_cancellation_batch_bound_hit :: bool
  wh_recovery_batch_limit :: int
  wh_recovery_batch_bound_hit :: bool
  wh_shutting_down :: bool
  wh_oldest_active_job_id :: "pystr option"

definition health_to_dict :: "WorkerHealth \<Rightarrow> dict" where
  "health_to_dict h =
    [(lit ''schema_version'', JInt (wh_schema_version h)),
     (lit ''observability_version'', JInt WORKER_HEALTH_OBSERVABILITY_VERSION),
     (lit ''worker_id'', JStr (wh_worker_id h)),
     (lit ''worker_incarnation'', JStr (wh_worker_incarnation h)),
     (lit ''pid'', JInt (wh_pid h)),
     (lit ''start_time_ticks'', JInt (wh_start_time_ticks h)),
     (lit ''started_at'', JFloat (finite_or_zero (wh_started_at h))),
     (lit ''published_at'', JFloat (finite_or_zero (wh_published_at h))),
     (lit ''alive'', JBool (wh_alive h)),
     (lit ''db_connected'', JBool (wh_db_connected h)),
     (lit ''db_connected_at'', opt_json JFloat (finite_or_none (wh_db_connected_at h))),
     (lit ''db_error_at'', opt_json JFloat (finite_or_none (wh_db_error_at h))),
     (lit ''active_jobs'', JInt (wh_active_jobs h)),
     (lit ''stopping_jobs'', JInt (wh_stopping_jobs h)),
     (lit ''completed_jobs'', JInt (wh_completed_jobs h)),
     (lit ''oldest_active_job_age_seconds'', opt_json JFloat (finite_or_none (wh_oldest_active_job_age_seconds h))),
     (lit ''lease_safety_margin_seconds'', JFloat (finite_or_zero (wh_lease_safety_margin_seconds h))),
     (lit ''min_lease_safety_remaining_seconds'', opt_json JFloat (finite_or_none (wh_min_lease_safety_remaining_seconds h))),
     (lit ''db_operation_deadline_seconds'', JFloat (finite_or_zero (wh_db_operation_deadline_seconds h))),
     (lit ''db_last_activity_at'', opt_json JFloat (finite_or_none (wh_db_last_activity_at h))),
     (lit ''db_deadline_breached_at'', opt_json JFloat (finite_or_none (wh_db_deadline_breached_at h))),
     (lit ''db_deadline_breach_count'', JInt (wh_db_deadline_breach_count h)),
     (lit ''capture_streams_open'', JInt (wh_capture_streams_open h)),
     (lit ''spool_held_bytes'', JInt (wh_spool_held_bytes h)),
     (lit ''scan_batch_limit'', JInt (wh_scan_batch_limit h)),
     (lit ''last_scan_batch_size'', JInt (wh_last_scan_batch_size h)),
     (lit ''last_cancellation_scan_at'', opt_json JFloat (finite_or_none (wh_last_cancellation_scan_at h))),
     (lit ''last_recovery_at'', opt_json JFloat (finite_or_none (wh_last_recovery_at h))),
     (lit ''last_gc_at'', opt_json JFloat (finite_or_none (wh_last_gc_at h))),
     (lit ''cancellation_scan_overdue'', JBool (wh_cancellation_scan_overdue h)),
     (lit ''recovery_overdue'', JBool (wh_recovery_overdue h)),
     (lit ''gc_overdue'', JBool (wh_gc_overdue h)),
     (lit ''gc_batch_limit'', JInt (wh_gc_batch_limit h)),
     (lit ''gc_batch_bound_hit'', JBool (wh_gc_batch_bound_hit h)),
     (lit ''cancellation_batch_limit'', JInt (wh_cancellation_batch_limit h)),
     (lit ''cancellation_batch_bound_hit'', JBool (wh_cancellation_batch_bound_hit h)),
     (lit ''recovery_batch_limit'', JInt (wh_recovery_batch_limit h)),
     (lit ''recovery_batch_bound_hit'', JBool (wh_recovery_batch_bound_hit h)),
     (lit ''shutting_down'', JBool (wh_shutting_down h)),
     (lit ''oldest_active_job_id'', opt_json JStr (wh_oldest_active_job_id h))]"

text \<open>\<open>data.get(field, default if not rich_observability else None)\<close>.\<close>

definition rich_default :: "dict \<Rightarrow> string \<Rightarrow> bool \<Rightarrow> json \<Rightarrow> json" where
  "rich_default d k rich dflt = (if dict_has d k then dict_get d k else if rich then JNull else dflt)"

definition health_fields :: "dict \<Rightarrow> bool \<Rightarrow> int \<Rightarrow> WorkerHealth res" where
  "health_fields d rich version =
    ebind (required_nonempty_str (dict_get d ''worker_id'')) (\<lambda>worker_id.
    ebind (coerce_incarnation_token (dict_get d ''worker_incarnation'')) (\<lambda>worker_incarnation.
    ebind (required_json_int_min (dict_get d ''pid'') 1) (\<lambda>pid.
    ebind (required_json_int_min (dict_get d ''start_time_ticks'') 1) (\<lambda>start_time_ticks.
    ebind (required_finite_float (dict_get d ''started_at'') AtLeastZero) (\<lambda>started_at.
    ebind (required_finite_float (dict_get d ''published_at'') AtLeastZero) (\<lambda>published_at.
    ebind (strict_json_bool d ''alive'') (\<lambda>alive.
    ebind (strict_json_bool d ''db_connected'') (\<lambda>db_connected.
    ebind (optional_finite_float (dict_get d ''db_connected_at'') AtLeastZero) (\<lambda>db_connected_at.
    ebind (optional_finite_float (dict_get d ''db_error_at'') AtLeastZero) (\<lambda>db_error_at.
    ebind (optional_json_int_zero (dict_get d ''active_jobs'') 0) (\<lambda>active_jobs.
    ebind (optional_json_int_zero (dict_get d ''stopping_jobs'') 0) (\<lambda>stopping_jobs.
    ebind (optional_json_int_zero (dict_get d ''completed_jobs'') 0) (\<lambda>completed_jobs.
    ebind (optional_finite_float (dict_get d ''oldest_active_job_age_seconds'') AtLeastZero) (\<lambda>oldest_active_job_age_seconds.
    ebind (required_finite_float (rich_default d ''lease_safety_margin_seconds'' rich (JFloat (FFin 0 0))) AtLeastZero) (\<lambda>lease_safety_margin_seconds.
    ebind (optional_finite_float (dict_get d ''min_lease_safety_remaining_seconds'') Unbounded) (\<lambda>min_lease_safety_remaining_seconds.
    ebind (required_finite_float (rich_default d ''db_operation_deadline_seconds'' rich (JFloat (FFin 1 0))) AboveZero) (\<lambda>db_operation_deadline_seconds.
    ebind (optional_finite_float (dict_get d ''db_last_activity_at'') AtLeastZero) (\<lambda>db_last_activity_at.
    ebind (optional_finite_float (dict_get d ''db_deadline_breached_at'') AtLeastZero) (\<lambda>db_deadline_breached_at.
    ebind (optional_json_int_zero (dict_get d ''db_deadline_breach_count'') 0) (\<lambda>db_deadline_breach_count.
    ebind (optional_json_int_zero (dict_get d ''capture_streams_open'') 0) (\<lambda>capture_streams_open.
    ebind (optional_json_int_zero (dict_get d ''spool_held_bytes'') 0) (\<lambda>spool_held_bytes.
    ebind (required_json_int_min (rich_default d ''scan_batch_limit'' rich (JInt 1)) 1) (\<lambda>scan_batch_limit.
    ebind (optional_json_int_zero (dict_get d ''last_scan_batch_size'') 0) (\<lambda>last_scan_batch_size.
    ebind (optional_finite_float (dict_get d ''last_cancellation_scan_at'') AtLeastZero) (\<lambda>last_cancellation_scan_at.
    ebind (optional_finite_float (dict_get d ''last_recovery_at'') AtLeastZero) (\<lambda>last_recovery_at.
    ebind (optional_finite_float (dict_get d ''last_gc_at'') AtLeastZero) (\<lambda>last_gc_at.
    ebind (strict_json_bool d ''cancellation_scan_overdue'') (\<lambda>cancellation_scan_overdue.
    ebind (strict_json_bool d ''recovery_overdue'') (\<lambda>recovery_overdue.
    ebind (strict_json_bool d ''gc_overdue'') (\<lambda>gc_overdue.
    ebind (required_json_int_min (rich_default d ''gc_batch_limit'' rich (JInt 1)) 1) (\<lambda>gc_batch_limit.
    ebind (strict_json_bool d ''gc_batch_bound_hit'') (\<lambda>gc_batch_bound_hit.
    ebind (required_json_int_min (rich_default d ''cancellation_batch_limit'' rich (JInt 1)) 1) (\<lambda>cancellation_batch_limit.
    ebind (strict_json_bool d ''cancellation_batch_bound_hit'') (\<lambda>cancellation_batch_bound_hit.
    ebind (required_json_int_min (rich_default d ''recovery_batch_limit'' rich (JInt 1)) 1) (\<lambda>recovery_batch_limit.
    ebind (strict_json_bool d ''recovery_batch_bound_hit'') (\<lambda>recovery_batch_bound_hit.
    ebind (strict_json_bool d ''shutting_down'') (\<lambda>shutting_down.
    ebind (optional_uuid_str (dict_get d ''oldest_active_job_id'')) (\<lambda>oldest_active_job_id.
      Ok \<lparr>wh_schema_version = version,
        wh_worker_id = worker_id,
        wh_worker_incarnation = worker_incarnation,
        wh_pid = pid,
        wh_start_time_ticks = start_time_ticks,
        wh_started_at = started_at,
        wh_published_at = published_at,
        wh_alive = alive,
        wh_db_connected = db_connected,
        wh_db_connected_at = db_connected_at,
        wh_db_error_at = db_error_at,
        wh_active_jobs = active_jobs,
        wh_stopping_jobs = stopping_jobs,
        wh_completed_jobs = completed_jobs,
        wh_oldest_active_job_age_seconds = oldest_active_job_age_seconds,
        wh_lease_safety_margin_seconds = lease_safety_margin_seconds,
        wh_min_lease_safety_remaining_seconds = min_lease_safety_remaining_seconds,
        wh_db_operation_deadline_seconds = db_operation_deadline_seconds,
        wh_db_last_activity_at = db_last_activity_at,
        wh_db_deadline_breached_at = db_deadline_breached_at,
        wh_db_deadline_breach_count = db_deadline_breach_count,
        wh_capture_streams_open = capture_streams_open,
        wh_spool_held_bytes = spool_held_bytes,
        wh_scan_batch_limit = scan_batch_limit,
        wh_last_scan_batch_size = last_scan_batch_size,
        wh_last_cancellation_scan_at = last_cancellation_scan_at,
        wh_last_recovery_at = last_recovery_at,
        wh_last_gc_at = last_gc_at,
        wh_cancellation_scan_overdue = cancellation_scan_overdue,
        wh_recovery_overdue = recovery_overdue,
        wh_gc_overdue = gc_overdue,
        wh_gc_batch_limit = gc_batch_limit,
        wh_gc_batch_bound_hit = gc_batch_bound_hit,
        wh_cancellation_batch_limit = cancellation_batch_limit,
        wh_cancellation_batch_bound_hit = cancellation_batch_bound_hit,
        wh_recovery_batch_limit = recovery_batch_limit,
        wh_recovery_batch_bound_hit = recovery_batch_bound_hit,
        wh_shutting_down = shutting_down,
        wh_oldest_active_job_id = oldest_active_job_id\<rparr>))))))))))))))))))))))))))))))))))))))"

definition health_from_dict :: "dict \<Rightarrow> WorkerHealth res" where
  "health_from_dict d =
    ebind (required_json_int_min (dict_get d ''schema_version'') 0) (\<lambda>version.
    if version \<notin> {WORKER_HEALTH_SCHEMA_VERSION, LEGACY_RICH_WORKER_HEALTH_SCHEMA_VERSION}
      then Raise (ValueError ''unsupported worker health schema version'')
    else
      let observability_raw = dict_get d ''observability_version'' in
      ebind (if observability_raw = JNull then Ok ()
          else ebind (required_json_int_min observability_raw 1) (\<lambda>v.
            if v \<noteq> WORKER_HEALTH_OBSERVABILITY_VERSION
            then Raise (ValueError ''unsupported worker health observability version'') else Ok ())) (\<lambda>_.
        health_fields d (version = LEGACY_RICH_WORKER_HEALTH_SCHEMA_VERSION \<or> observability_raw \<noteq> JNull) version))"

text \<open>\<open>_read_health_file\<close> and \<open>read_worker_health_by_incarnation\<close>; the file of an incarnation is an argument.\<close>

definition read_health_file :: "stored \<Rightarrow> WorkerHealth option res" where
  "read_health_file f = (case read_text f of
      Inl e \<Rightarrow> if e = OSError \<or> e = FileNotFoundError then Ok None else Raise e
    | Inr v \<Rightarrow> (case json_loads v of
        Inl _ \<Rightarrow> Ok None
      | Inr (JObj d) \<Rightarrow> (case health_from_dict d of
            Inl e \<Rightarrow> if key_type_value e then Ok None else Raise e
          | Inr h \<Rightarrow> Ok (Some h))
      | Inr _ \<Rightarrow> Ok None))"

definition read_worker_health_by_incarnation :: "(pystr \<Rightarrow> stored) \<Rightarrow> pystr \<Rightarrow> WorkerHealth option res" where
  "read_worker_health_by_incarnation files incarnation = (case validate_incarnation_token incarnation of
      Inl _ \<Rightarrow> Ok None | Inr _ \<Rightarrow> read_health_file (files incarnation))"

section \<open>Retained evidence\<close>

text \<open>
  One directory of incarnation files. \<open>ev_stat\<close> is the modification time in nanoseconds and the size
  (None: \<open>stat\<close> fails), \<open>ev_removable\<close> whether \<open>unlink\<close> succeeds; the result is the files left.
\<close>

record evidence =
  ev_name :: pystr
  ev_is_file :: bool
  ev_stat :: "(int \<times> int) option"
  ev_removable :: bool

record EvidenceWindow =
  ew_now :: pyfloat
  ew_retention_seconds :: pyfloat
  ew_max_files :: int
  ew_max_bytes :: int

definition NANOSECONDS_PER_SECOND :: int where "NANOSECONDS_PER_SECOND = 1000000000"
definition EVIDENCE_RETENTION_SECONDS :: pyfloat where "EVIDENCE_RETENTION_SECONDS = FFin 172800 0"
definition MAX_RETAINED_EVIDENCE_FILES :: int where "MAX_RETAINED_EVIDENCE_FILES = 8"
definition MAX_RETAINED_EVIDENCE_BYTES :: int where "MAX_RETAINED_EVIDENCE_BYTES = 16 * 1024 * 1024"

text \<open>\<open>a / b\<close> of two ints, \<open>b\<close> positive: the quotient rounded once.\<close>

definition int_ratio :: "int \<Rightarrow> int \<Rightarrow> pyfloat" where
  "int_ratio a b = (if a = 0 then float_zero else round_ratio (a < 0) \<bar>a\<bar> b)"

definition ev_mtime :: "evidence \<Rightarrow> int" where
  "ev_mtime e = (case ev_stat e of None \<Rightarrow> 0 | Some (m, _) \<Rightarrow> m)"

definition ev_size :: "evidence \<Rightarrow> int" where
  "ev_size e = (case ev_stat e of None \<Rightarrow> 0 | Some (_, n) \<Rightarrow> n)"

definition kept_name :: "pystr \<Rightarrow> pystr \<Rightarrow> bool" where
  "kept_name keep_prefix name \<longleftrightarrow> name = keep_prefix \<or> strip_prefix (keep_prefix @ [46]) name \<noteq> None"

definition is_recent :: "EvidenceWindow \<Rightarrow> evidence \<Rightarrow> bool" where
  "is_recent w e = float_less
     (float_sub (ew_now w) (int_ratio (ev_mtime e) NANOSECONDS_PER_SECOND)) (ew_retention_seconds w)"

text \<open>The loop over the superseded files, newest first, with the files and bytes retained so far.\<close>

fun prune_loop :: "EvidenceWindow \<Rightarrow> int \<Rightarrow> int \<Rightarrow> evidence list \<Rightarrow> evidence list" where
  "prune_loop w retained_files retained_bytes [] = []"
| "prune_loop w retained_files retained_bytes (e # es) =
    (if is_recent w e \<and> retained_files < ew_max_files w \<and> retained_bytes + ev_size e \<le> ew_max_bytes w
     then e # prune_loop w (retained_files + 1) (retained_bytes + ev_size e) es
     else (if ev_removable e then [] else [e]) @ prune_loop w retained_files retained_bytes es)"

definition is_superseded :: "pystr \<Rightarrow> (pystr \<Rightarrow> bool) \<Rightarrow> evidence \<Rightarrow> bool" where
  "is_superseded keep_prefix pattern e \<longleftrightarrow>
     pattern (ev_name e) \<and> ev_is_file e \<and> \<not> kept_name keep_prefix (ev_name e)"

definition prune_dir :: "pystr \<Rightarrow> (pystr \<Rightarrow> bool) \<Rightarrow> EvidenceWindow \<Rightarrow> evidence list \<Rightarrow> evidence list" where
  "prune_dir keep_prefix pattern w files =
     filter (\<lambda>e. \<not> is_superseded keep_prefix pattern e) files
     @ prune_loop w 0 0 (sort_key (\<lambda>e. - ev_mtime e) (filter (is_superseded keep_prefix pattern) files))"

text \<open>The patterns \<open>health-*.json\<close> and \<open>worker-*.log*\<close>.\<close>

definition health_pattern :: "pystr \<Rightarrow> bool" where
  "health_pattern name = (case strip_prefix (lit ''health-'') name of
      None \<Rightarrow> False
    | Some r \<Rightarrow> 5 \<le> length r \<and> drop (length r - 5) r = lit ''.json'')"

fun has_infix :: "pystr \<Rightarrow> pystr \<Rightarrow> bool" where
  "has_infix p [] = (p = [])"
| "has_infix p (c # s) = (strip_prefix p (c # s) \<noteq> None \<or> has_infix p s)"

definition log_pattern :: "pystr \<Rightarrow> bool" where
  "log_pattern name = (case strip_prefix (lit ''worker-'') name of
      None \<Rightarrow> False | Some r \<Rightarrow> has_infix (lit ''.log'') r)"

definition prune_old_incarnation_artifacts ::
    "pystr \<Rightarrow> pyfloat \<Rightarrow> evidence list \<times> evidence list \<Rightarrow> evidence list \<times> evidence list" where
  "prune_old_incarnation_artifacts token now dirs =
    (let w = \<lparr>ew_now = now, ew_retention_seconds = EVIDENCE_RETENTION_SECONDS,
        ew_max_files = MAX_RETAINED_EVIDENCE_FILES, ew_max_bytes = MAX_RETAINED_EVIDENCE_BYTES\<rparr>
     in (prune_dir (lit ''health-'' @ token @ lit ''.json'') health_pattern w (fst dirs),
         prune_dir (lit ''worker-'' @ token @ lit ''.log'') log_pattern w (snd dirs)))"

section \<open>Operational readiness\<close>

record OperationalReadiness =
  or_ready :: bool
  or_reasons :: "string list"
  or_any_scan_overdue :: bool
  or_cancellation_scan_overdue :: bool
  or_recovery_overdue :: bool
  or_gc_overdue :: bool
  or_lease_safety_negative :: bool
  or_min_lease_safety_remaining_seconds :: "pyfloat option"
  or_unrecovered_db_deadline_breach :: bool
  or_unrecovered_db_error :: bool
  or_shutting_down :: bool

definition db_deadline_breach_recovered :: "WorkerHealth \<Rightarrow> bool" where
  "db_deadline_breach_recovered h = (case wh_db_deadline_breached_at h of
      None \<Rightarrow> True
    | Some breached \<Rightarrow> (case wh_db_last_activity_at h of
        None \<Rightarrow> False | Some activity \<Rightarrow> float_less breached activity))"

definition db_error_recovered :: "WorkerHealth \<Rightarrow> bool" where
  "db_error_recovered h = (case wh_db_error_at h of
      None \<Rightarrow> True
    | Some failed \<Rightarrow> if \<not> wh_db_connected h then False
        else (case wh_db_connected_at h of None \<Rightarrow> False | Some at \<Rightarrow> float_less failed at))"

definition interpret_operational_readiness :: "WorkerHealth \<Rightarrow> OperationalReadiness" where
  "interpret_operational_readiness h =
    (let any_scan_overdue = (wh_cancellation_scan_overdue h \<or> wh_recovery_overdue h \<or> wh_gc_overdue h);
         lease_safety_negative = (case wh_min_lease_safety_remaining_seconds h of
           None \<Rightarrow> False | Some x \<Rightarrow> float_less x float_zero);
         unrecovered_breach = (\<not> db_deadline_breach_recovered h);
         unrecovered_error = (\<not> db_error_recovered h);
         reasons = (if any_scan_overdue then [''overdue scans''] else [])
           @ (if lease_safety_negative then [''lease safety negative''] else [])
           @ (if unrecovered_breach then [''unrecovered DB deadline breach''] else [])
           @ (if unrecovered_error then [''unrecovered DB error''] else [])
           @ (if wh_shutting_down h then [''shutting down''] else [])
     in \<lparr>or_ready = (reasons = []), or_reasons = reasons, or_any_scan_overdue = any_scan_overdue,
         or_cancellation_scan_overdue = wh_cancellation_scan_overdue h,
         or_recovery_overdue = wh_recovery_overdue h, or_gc_overdue = wh_gc_overdue h,
         or_lease_safety_negative = lease_safety_negative,
         or_min_lease_safety_remaining_seconds = wh_min_lease_safety_remaining_seconds h,
         or_unrecovered_db_deadline_breach = unrecovered_breach,
         or_unrecovered_db_error = unrecovered_error, or_shutting_down = wh_shutting_down h\<rparr>)"

section \<open>Liveness\<close>

text \<open>\<open>_process_is_live\<close>: one read of \<open>/proc/<pid>/stat\<close>.\<close>

definition stat_is_live :: "pybytes \<Rightarrow> bool" where
  "stat_is_live stat = (case rfind_byte 41 stat of
      None \<Rightarrow> False
    | Some p \<Rightarrow> (case split_ws (drop (p + 2) stat) of
        [] \<Rightarrow> False | state # _ \<Rightarrow> state \<notin> {[90], [88]}))"

definition process_is_live :: "'z Host_scheme \<Rightarrow> int \<Rightarrow> bool probe" where
  "process_is_live H pid = io_act (observe (\<lambda>t.
     case Option.bind (k_procs H t pid) pr_stat of None \<Rightarrow> False | Some stat \<Rightarrow> stat_is_live stat))"

definition pinned_snapshot_process_live :: "'z Host_scheme \<Rightarrow> WorkerHealth \<Rightarrow> bool probe" where
  "pinned_snapshot_process_live H h =
    io_bind (io_act (open_pidfd (kernel_of H) (wh_pid h))) (\<lambda>pinned. case pinned of
        None \<Rightarrow> io_return False
      | Some pidfd \<Rightarrow> io_bind (io_act (proc_start_ticks (kernel_of H) (wh_pid h))) (\<lambda>ticks.
          if ticks \<noteq> Some (wh_start_time_ticks h) then io_return False
          else io_bind (process_is_live H (wh_pid h)) (\<lambda>live.
            if \<not> live then io_return False
            else io_bind (io_act (pidfd_send_signal (kernel_of H) (wh_pid h) pidfd 0)) (\<lambda>present.
              io_return (present \<and> wh_alive h)))))"


section \<open>Specification vocabulary\<close>

definition allowed :: "float_bound \<Rightarrow> pyfloat \<Rightarrow> bool" where
  "allowed b x \<longleftrightarrow> is_finite x \<and> within b x"

definition canonical_uuid :: "pystr \<Rightarrow> bool" where
  "canonical_uuid s = (case uuid_of_str s of Inl _ \<Rightarrow> False | Inr u \<Rightarrow> uuid_str u = s)"

definition health_wf :: "WorkerHealth \<Rightarrow> bool" where
  "health_wf h \<longleftrightarrow> wh_schema_version h \<in> {WORKER_HEALTH_SCHEMA_VERSION, LEGACY_RICH_WORKER_HEALTH_SCHEMA_VERSION}
    \<and> wh_worker_id h \<noteq> []
    \<and> SAFE_FILENAME_RE (wh_worker_incarnation h)
    \<and> 1 \<le> wh_pid h
    \<and> 1 \<le> wh_start_time_ticks h
    \<and> allowed AtLeastZero (wh_started_at h)
    \<and> allowed AtLeastZero (wh_published_at h)
    \<and> pred_option (allowed AtLeastZero) (wh_db_connected_at h)
    \<and> pred_option (allowed AtLeastZero) (wh_db_error_at h)
    \<and> 0 \<le> wh_active_jobs h
    \<and> 0 \<le> wh_stopping_jobs h
    \<and> 0 \<le> wh_completed_jobs h
    \<and> pred_option (allowed AtLeastZero) (wh_oldest_active_job_age_seconds h)
    \<and> allowed AtLeastZero (wh_lease_safety_margin_seconds h)
    \<and> pred_option (allowed Unbounded) (wh_min_lease_safety_remaining_seconds h)
    \<and> allowed AboveZero (wh_db_operation_deadline_seconds h)
    \<and> pred_option (allowed AtLeastZero) (wh_db_last_activity_at h)
    \<and> pred_option (allowed AtLeastZero) (wh_db_deadline_breached_at h)
    \<and> 0 \<le> wh_db_deadline_breach_count h
    \<and> 0 \<le> wh_capture_streams_open h
    \<and> 0 \<le> wh_spool_held_bytes h
    \<and> 1 \<le> wh_scan_batch_limit h
    \<and> 0 \<le> wh_last_scan_batch_size h
    \<and> pred_option (allowed AtLeastZero) (wh_last_cancellation_scan_at h)
    \<and> pred_option (allowed AtLeastZero) (wh_last_recovery_at h)
    \<and> pred_option (allowed AtLeastZero) (wh_last_gc_at h)
    \<and> 1 \<le> wh_gc_batch_limit h
    \<and> 1 \<le> wh_cancellation_batch_limit h
    \<and> 1 \<le> wh_recovery_batch_limit h
    \<and> pred_option canonical_uuid (wh_oldest_active_job_id h)"

definition survivors :: "pystr \<Rightarrow> (pystr \<Rightarrow> bool) \<Rightarrow> evidence list \<Rightarrow> evidence list" where
  "survivors keep_prefix pattern = filter (\<lambda>e. is_superseded keep_prefix pattern e \<and> ev_removable e)"

definition sample_health :: dict where
  "sample_health =
    [(lit ''schema_version'', JInt 1), (lit ''worker_id'', JStr (lit ''w'')), (lit ''worker_incarnation'', JStr (lit ''ab12'')),
     (lit ''pid'', JInt 7), (lit ''start_time_ticks'', JInt 9), (lit ''started_at'', JFloat (FFin 5 0)),
     (lit ''published_at'', JInt 6), (lit ''alive'', JBool True)]"

lemma read_int [simp]:
  "required_json_int_min (JInt i) m = (if i < m then Raise (ValueError '' must be >= '') else Ok i)"
  "optional_json_int_zero (JInt i) m = (if i < m then Raise (ValueError '' must be >= '') else Ok i)"
  by (simp_all add: required_json_int_min_def optional_json_int_zero_def)

lemma safe_filename_nonempty: "\<not> SAFE_FILENAME_RE []"
  by (simp add: SAFE_FILENAME_RE_def)

lemma read_str [simp]:
  "required_nonempty_str (JStr s) = (if s = [] then Raise (ValueError '' must not be empty'') else Ok s)"
  "SAFE_FILENAME_RE s \<Longrightarrow> coerce_incarnation_token (JStr s) = Ok s"
  using safe_filename_nonempty
  by (auto simp: required_nonempty_str_def coerce_incarnation_token_def coerce_str_def validate_incarnation_token_def)

lemma canonical_uuid_nonempty: "\<not> canonical_uuid []"
  by (auto simp: canonical_uuid_def uuid_str_def Let_def split: sum.splits)

lemma read_uuid [simp]: "pred_option canonical_uuid v \<Longrightarrow> optional_uuid_str (opt_json JStr v) = Ok v"
  using canonical_uuid_nonempty
  by (cases v) (auto simp: optional_uuid_str_def canonical_uuid_def split: sum.splits)

lemma read_float [simp]:
  "allowed b x \<Longrightarrow> required_finite_float (JFloat (finite_or_zero x)) b = Ok x"
  "pred_option (allowed b) v \<Longrightarrow> optional_finite_float (opt_json JFloat (finite_or_none v)) b = Ok v"
  by (cases v; simp add: allowed_def required_finite_float_def optional_finite_float_def coerce_float_def
      finite_or_zero_def finite_or_none_def)+

lemma health_lookup:
  "map_of (health_to_dict h) (lit ''schema_version'') = Some (JInt (wh_schema_version h))"
  "map_of (health_to_dict h) (lit ''observability_version'') = Some (JInt WORKER_HEALTH_OBSERVABILITY_VERSION)"
  "map_of (health_to_dict h) (lit ''worker_id'') = Some (JStr (wh_worker_id h))"
  "map_of (health_to_dict h) (lit ''worker_incarnation'') = Some (JStr (wh_worker_incarnation h))"
  "map_of (health_to_dict h) (lit ''pid'') = Some (JInt (wh_pid h))"
  "map_of (health_to_dict h) (lit ''start_time_ticks'') = Some (JInt (wh_start_time_ticks h))"
  "map_of (health_to_dict h) (lit ''started_at'') = Some (JFloat (finite_or_zero (wh_started_at h)))"
  "map_of (health_to_dict h) (lit ''published_at'') = Some (JFloat (finite_or_zero (wh_published_at h)))"
  "map_of (health_to_dict h) (lit ''alive'') = Some (JBool (wh_alive h))"
  "map_of (health_to_dict h) (lit ''db_connected'') = Some (JBool (wh_db_connected h))"
  "map_of (health_to_dict h) (lit ''db_connected_at'') = Some (opt_json JFloat (finite_or_none (wh_db_connected_at h)))"
  "map_of (health_to_dict h) (lit ''db_error_at'') = Some (opt_json JFloat (finite_or_none (wh_db_error_at h)))"
  "map_of (health_to_dict h) (lit ''active_jobs'') = Some (JInt (wh_active_jobs h))"
  "map_of (health_to_dict h) (lit ''stopping_jobs'') = Some (JInt (wh_stopping_jobs h))"
  "map_of (health_to_dict h) (lit ''completed_jobs'') = Some (JInt (wh_completed_jobs h))"
  "map_of (health_to_dict h) (lit ''oldest_active_job_age_seconds'') = Some (opt_json JFloat (finite_or_none (wh_oldest_active_job_age_seconds h)))"
  "map_of (health_to_dict h) (lit ''lease_safety_margin_seconds'') = Some (JFloat (finite_or_zero (wh_lease_safety_margin_seconds h)))"
  "map_of (health_to_dict h) (lit ''min_lease_safety_remaining_seconds'') = Some (opt_json JFloat (finite_or_none (wh_min_lease_safety_remaining_seconds h)))"
  "map_of (health_to_dict h) (lit ''db_operation_deadline_seconds'') = Some (JFloat (finite_or_zero (wh_db_operation_deadline_seconds h)))"
  "map_of (health_to_dict h) (lit ''db_last_activity_at'') = Some (opt_json JFloat (finite_or_none (wh_db_last_activity_at h)))"
  "map_of (health_to_dict h) (lit ''db_deadline_breached_at'') = Some (opt_json JFloat (finite_or_none (wh_db_deadline_breached_at h)))"
  "map_of (health_to_dict h) (lit ''db_deadline_breach_count'') = Some (JInt (wh_db_deadline_breach_count h))"
  "map_of (health_to_dict h) (lit ''capture_streams_open'') = Some (JInt (wh_capture_streams_open h))"
  "map_of (health_to_dict h) (lit ''spool_held_bytes'') = Some (JInt (wh_spool_held_bytes h))"
  "map_of (health_to_dict h) (lit ''scan_batch_limit'') = Some (JInt (wh_scan_batch_limit h))"
  "map_of (health_to_dict h) (lit ''last_scan_batch_size'') = Some (JInt (wh_last_scan_batch_size h))"
  "map_of (health_to_dict h) (lit ''last_cancellation_scan_at'') = Some (opt_json JFloat (finite_or_none (wh_last_cancellation_scan_at h)))"
  "map_of (health_to_dict h) (lit ''last_recovery_at'') = Some (opt_json JFloat (finite_or_none (wh_last_recovery_at h)))"
  "map_of (health_to_dict h) (lit ''last_gc_at'') = Some (opt_json JFloat (finite_or_none (wh_last_gc_at h)))"
  "map_of (health_to_dict h) (lit ''cancellation_scan_overdue'') = Some (JBool (wh_cancellation_scan_overdue h))"
  "map_of (health_to_dict h) (lit ''recovery_overdue'') = Some (JBool (wh_recovery_overdue h))"
  "map_of (health_to_dict h) (lit ''gc_overdue'') = Some (JBool (wh_gc_overdue h))"
  "map_of (health_to_dict h) (lit ''gc_batch_limit'') = Some (JInt (wh_gc_batch_limit h))"
  "map_of (health_to_dict h) (lit ''gc_batch_bound_hit'') = Some (JBool (wh_gc_batch_bound_hit h))"
  "map_of (health_to_dict h) (lit ''cancellation_batch_limit'') = Some (JInt (wh_cancellation_batch_limit h))"
  "map_of (health_to_dict h) (lit ''cancellation_batch_bound_hit'') = Some (JBool (wh_cancellation_batch_bound_hit h))"
  "map_of (health_to_dict h) (lit ''recovery_batch_limit'') = Some (JInt (wh_recovery_batch_limit h))"
  "map_of (health_to_dict h) (lit ''recovery_batch_bound_hit'') = Some (JBool (wh_recovery_batch_bound_hit h))"
  "map_of (health_to_dict h) (lit ''shutting_down'') = Some (JBool (wh_shutting_down h))"
  "map_of (health_to_dict h) (lit ''oldest_active_job_id'') = Some (opt_json JStr (wh_oldest_active_job_id h))"
  by (simp_all add: health_to_dict_def)

lemma health_written_fields:
  assumes "health_wf h"
  shows "health_fields (health_to_dict h) rich (wh_schema_version h) = Ok h"
  using assms unfolding health_wf_def
  by (simp add: health_fields_def dict_get_def dict_has_def rich_default_def strict_json_bool_def health_lookup)

lemma health_written: "health_wf h \<Longrightarrow> health_from_dict (health_to_dict h) = Ok h"
  using health_written_fields [of h True]
  by (auto simp: health_from_dict_def dict_get_def health_lookup health_wf_def WORKER_HEALTH_SCHEMA_VERSION_def
      LEGACY_RICH_WORKER_HEALTH_SCHEMA_VERSION_def WORKER_HEALTH_OBSERVABILITY_VERSION_def)

lemma int_read:
  "required_json_int_min v m = Ok i \<Longrightarrow> m \<le> i" "optional_json_int_zero v 0 = Ok i \<Longrightarrow> 0 \<le> i"
  by (auto simp: required_json_int_min_def optional_json_int_zero_def split: json.splits if_splits)

lemma str_read:
  "required_nonempty_str v = Ok s \<Longrightarrow> s \<noteq> []" "coerce_incarnation_token v = Ok s \<Longrightarrow> SAFE_FILENAME_RE s"
  by (auto simp: required_nonempty_str_def coerce_incarnation_token_def validate_incarnation_token_def ebind_def
      split: json.splits if_splits sum.splits)

lemma float_read:
  "required_finite_float v b = Ok x \<Longrightarrow> allowed b x" "optional_finite_float v b = Ok w \<Longrightarrow> pred_option (allowed b) w"
  by (auto simp: required_finite_float_def optional_finite_float_def allowed_def ebind_def
      split: sum.splits option.splits if_splits)

lemma uuid_read: "optional_uuid_str v = Ok w \<Longrightarrow> pred_option canonical_uuid w"
  by (auto simp: optional_uuid_str_def canonical_uuid_def ebind_def split: sum.splits if_splits)

lemmas values_read = int_read str_read float_read uuid_read

lemma health_fields_wf:
  assumes "health_fields d rich version = Ok h"
    and "version \<in> {WORKER_HEALTH_SCHEMA_VERSION, LEGACY_RICH_WORKER_HEALTH_SCHEMA_VERSION}"
  shows "health_wf h"
  using assms unfolding health_fields_def
  by (elim ebindE) (clarsimp simp: health_wf_def, blast dest: values_read)

lemma health_read_wf: "health_from_dict d = Ok h \<Longrightarrow> health_wf h"
  unfolding health_from_dict_def Let_def
  by (elim ebindE) (auto split: if_splits dest: health_fields_wf)

section \<open>Bounded evidence\<close>

lemma prune_loop_subset: "set (prune_loop w f b es) \<subseteq> set es"
  by (induction es arbitrary: f b) auto

lemma prune_loop_budget:
  assumes "\<forall>e\<in>set es. 0 \<le> ev_size e" "f \<le> ew_max_files w" "b \<le> ew_max_bytes w"
  shows "f + int (length (filter ev_removable (prune_loop w f b es))) \<le> ew_max_files w
    \<and> b + sum_list (map ev_size (filter ev_removable (prune_loop w f b es))) \<le> ew_max_bytes w"
  using assms
proof (induction w f b es rule: prune_loop.induct)
  case (2 w f b e es)
  show ?case
  proof (cases "is_recent w e \<and> f < ew_max_files w \<and> b + ev_size e \<le> ew_max_bytes w")
    case True
    with 2 show ?thesis by (auto simp: algebra_simps)
  next
    case False
    with 2 show ?thesis by auto
  qed
qed simp

lemma prune_loop_recent: "e \<in> set (prune_loop w f b es) \<Longrightarrow> ev_removable e \<Longrightarrow> is_recent w e"
  by (induction w f b es rule: prune_loop.induct) (auto split: if_splits)

text \<open>A recent file goes only when the newer files kept before it exhaust the budget.\<close>

lemma prune_loop_newest:
  assumes "e \<in> set es" "e \<notin> set (prune_loop w f b es)" "is_recent w e" "sorted_wrt (\<lambda>x y. ev_mtime y \<le> ev_mtime x) es"
  obtains ks where "set ks \<subseteq> set (prune_loop w f b es)" "\<forall>k\<in>set ks. ev_mtime e \<le> ev_mtime k"
    "ew_max_files w \<le> f + int (length ks) \<or> ew_max_bytes w < b + sum_list (map ev_size ks) + ev_size e"
  using assms
proof (induction w f b es arbitrary: thesis rule: prune_loop.induct)
  case (2 w f b x es)
  show ?case
  proof (cases "is_recent w x \<and> f < ew_max_files w \<and> b + ev_size x \<le> ew_max_bytes w")
    case True
    with 2 have "e \<in> set es" "e \<notin> set (prune_loop w (f + 1) (b + ev_size x) es)" by auto
    with 2 True obtain ks where ks: "set ks \<subseteq> set (prune_loop w (f + 1) (b + ev_size x) es)"
      "\<forall>k\<in>set ks. ev_mtime e \<le> ev_mtime k"
      "ew_max_files w \<le> f + 1 + int (length ks) \<or> ew_max_bytes w < b + ev_size x + sum_list (map ev_size ks) + ev_size e"
      by (metis sorted_wrt.simps(2))
    with 2 True \<open>e \<in> set es\<close> show ?thesis
      by (intro 2(3) [of "x # ks"]) auto
  next
    case False
    show ?thesis
    proof (cases "e = x")
      case True
      with False 2 show ?thesis by (intro 2(3) [of "[]"]) auto
    next
      case ne: False
      have "e \<in> set es" "e \<notin> set (prune_loop w f b es)" using 2(4,5) ne False by auto
      then obtain ks where "set ks \<subseteq> set (prune_loop w f b es)" "\<forall>k\<in>set ks. ev_mtime e \<le> ev_mtime k"
          "ew_max_files w \<le> f + int (length ks) \<or> ew_max_bytes w < b + sum_list (map ev_size ks) + ev_size e"
        using 2(2) [OF False] 2(6,7) by (metis sorted_wrt.simps(2))
      with False show ?thesis by (intro 2(3) [of ks]) auto
    qed
  qed
qed simp

lemma newest_first: "sorted_wrt (\<lambda>x y. ev_mtime y \<le> ev_mtime x) (sort_key (\<lambda>e. - ev_mtime e) es)"
proof -
  have "sorted_wrt (\<lambda>x y. - ev_mtime x \<le> - ev_mtime y) (sort_key (\<lambda>e. - ev_mtime e) es)"
    using sorted_sort_key [of "\<lambda>e. - ev_mtime e" es] by (simp add: sorted_map)
  then show ?thesis by simp
qed

lemma survivors_eq:
  "survivors k p (prune_dir k p w files) = filter ev_removable
    (prune_loop w 0 0 (sort_key (\<lambda>e. - ev_mtime e) (filter (is_superseded k p) files)))"
proof -
  let ?es = "sort_key (\<lambda>e. - ev_mtime e) (filter (is_superseded k p) files)"
  have "filter (\<lambda>e. is_superseded k p e \<and> ev_removable e) (prune_loop w 0 0 ?es)
      = filter ev_removable (prune_loop w 0 0 ?es)"
    using prune_loop_subset [of w 0 0 ?es] by (intro filter_cong) auto
  then show ?thesis by (simp add: survivors_def prune_dir_def)
qed


lemma health_overflow:
  "float_of_int n = Inl OverflowError \<Longrightarrow> required_finite_float (JInt n) b = Inl OverflowError"
  by (simp add: required_finite_float_def coerce_float_def)


lemma dict_get_set [simp]:
  "dict_get (dict_set (lit k) v d) k' = (if k' = k then v else dict_get d k')"
  by (simp add: dict_get_def map_of_dict_set)

lemma started_at_overflow:
  assumes "health_fields d rich version = Ok h" "2 ^ 1024 \<le> n"
  shows "health_fields (dict_set (lit ''started_at'') (JInt n) d) rich version = Inl OverflowError"
proof -
  have "required_finite_float (JInt n) b = Inl OverflowError" for b
    using float_of_int_overflow [OF assms(2)] by (rule health_overflow)
  with assms(1) show ?thesis unfolding health_fields_def by (elim ebindE) simp
qed

text \<open>A snapshot that reads well and then has a start time too large for a float makes the
  reader raise OverflowError, although it is documented to return None on any problem.\<close>

theorem health_overflow_escapes:
  assumes ok: "health_from_dict d = Ok h" and n: "2 ^ 1024 \<le> n"
  shows "read_health_file (holding (dict_set (lit ''started_at'') (JInt n) d)) = Inl OverflowError"
proof -
  have "health_from_dict (dict_set (lit ''started_at'') (JInt n) d) = Inl OverflowError"
    using ok unfolding health_from_dict_def Let_def
    by (elim ebindE) (auto simp: started_at_overflow [OF _ n] split: if_splits)
  then show ?thesis
    by (simp add: read_health_file_def holding_def read_text_def json_loads_def key_type_value_def)
qed

lemma sample_health_reads: "is_ok (health_from_dict sample_health)"
  by code_simp

theorem health_overflow_escapes_witness:
  "read_health_file (holding (dict_set (lit ''started_at'') (JInt (2 ^ 1024)) sample_health)) = Inl OverflowError"
proof -
  obtain h where "health_from_dict sample_health = Ok h"
    using sample_health_reads by (cases "health_from_dict sample_health") (auto simp: is_ok_def)
  then show ?thesis by (rule health_overflow_escapes) simp
qed

text \<open>C27. A dict the reader accepts gives a snapshot within its documented ranges: a readable schema
  version, a filename-safe incarnation token, positive process number and start time, finite times,
  counts that are not negative. Writing such a snapshot and reading it back returns it unchanged.\<close>

theorem health_snapshot_roundtrip:
  assumes "health_from_dict d = Ok h"
  shows "health_wf h \<and> health_from_dict (health_to_dict h) = Ok h"
  using health_read_wf [OF assms] health_written by blast

theorem health_snapshot_roundtrip_witness:
  "\<exists>h. health_from_dict sample_health = Ok h \<and> health_from_dict (health_to_dict h) = Ok h"
proof -
  obtain h where "health_from_dict sample_health = Ok h"
    using sample_health_reads by (cases "health_from_dict sample_health") (auto simp: is_ok_def)
  with health_snapshot_roundtrip [OF this] show ?thesis by blast
qed

end
