(* ===== verification/SupervisorWorld.thy ===== *)
theory SupervisorWorld
  imports SuperviseStore AuthorityDb LifecycleState WorkerStop CliRuntime Health
begin

text \<open>
  The world of the supervisor daemon, \<open>src/lubko/supervisor.py\<close>: the files of \<open>SuperviseStore\<close>, the
  worker metadata file, the table with the authority row, the fields of \<open>SupervisorDaemon\<close> and the
  host. What the daemon does not control is an \<open>Env\<close>: every answer of the kernel, the clock, the
  database connection, the runtimes on disk and the recovery of command groups is a function of the
  instant at which it is asked. Diagnostic texts and log lines are left out; no decision reads them.

  \<open>d_table\<close> is the table as the daemon's last database operation left it; what other processes have
  committed since then shows at the next operation. The ghost field \<open>d_log\<close> keeps what the daemon did
  to workers, each deed with \<open>d_table\<close> at that moment: a process started with a token, and a worker
  handed to \<open>stop_worker\<close>.
\<close>

section \<open>Settings\<close>

record Settings =
  se_poll_interval :: pyfloat
  se_backoff_base :: pyfloat
  se_backoff_max :: pyfloat
  se_stable_window :: pyfloat
  se_stop_grace :: pyfloat
  se_identity_timeout :: pyfloat
  se_postgres_timeout :: pyfloat
  se_lock_timeout :: pyfloat
  se_probe_timeout :: pyfloat
  se_readiness_interval :: pyfloat
  se_no_progress_grace :: pyfloat
  se_no_progress_required_probes :: int

definition settings_post_init :: "Settings \<Rightarrow> unit res" where
  "settings_post_init c =
    (if \<not> list_all is_finite [se_poll_interval c, se_backoff_base c, se_backoff_max c, se_stable_window c,
        se_stop_grace c, se_identity_timeout c, se_postgres_timeout c, se_lock_timeout c, se_probe_timeout c,
        se_readiness_interval c, se_no_progress_grace c]
     then Raise (ValueError ''must be finite'')
     else if float_le (se_poll_interval c) float_zero
       then Raise (ValueError ''LUBKO_SUPERVISOR_POLL_SECONDS must be positive'')
     else if float_le (se_backoff_base c) float_zero \<or> float_less (se_backoff_max c) (se_backoff_base c)
       then Raise (ValueError ''LUBKO_SUPERVISOR backoff settings are invalid'')
     else if float_le (se_stable_window c) float_zero
       then Raise (ValueError ''LUBKO_SUPERVISOR_STABLE_WINDOW_SECONDS must be positive'')
     else if float_le (se_stop_grace c) float_zero
       then Raise (ValueError ''LUBKO_SUPERVISOR_STOP_GRACE_SECONDS must be positive'')
     else if float_le (se_identity_timeout c) float_zero
       then Raise (ValueError ''LUBKO_SUPERVISOR_IDENTITY_TIMEOUT_SECONDS must be positive'')
     else if float_le (se_postgres_timeout c) float_zero \<or> float_le (se_lock_timeout c) float_zero
       then Raise (ValueError ''LUBKO_SUPERVISOR database timeout settings must be positive'')
     else if float_le (se_probe_timeout c) float_zero \<or> float_le (se_readiness_interval c) float_zero
       then Raise (ValueError ''LUBKO_SUPERVISOR readiness probe settings must be positive'')
     else if float_le (se_no_progress_grace c) float_zero
       then Raise (ValueError ''LUBKO_SUPERVISOR_NO_PROGRESS_GRACE_SECONDS must be positive'')
     else if se_no_progress_required_probes c < 1
       then Raise (ValueError ''LUBKO_SUPERVISOR_NO_PROGRESS_REQUIRED_PROBES must be at least one'')
     else Ok ())"

section \<open>Environment and state\<close>

text \<open>
  \<open>e_poll\<close> and \<open>e_wait\<close> are \<open>Popen.poll\<close> and \<open>Popen.wait\<close> with a timeout (False: \<open>TimeoutExpired\<close>),
  \<open>e_popen\<close> starts the worker (None: the start failed), \<open>e_waitpid\<close> is False on \<open>ChildProcessError\<close>;
  \<open>e_connect\<close> is the error of opening the database connection, \<open>e_others\<close> what other processes
  committed since the daemon's last database operation, \<open>e_db\<close> what happens around one;
  \<open>e_cli\<close> what others did to the runtimes since then, \<open>e_builder\<close> and \<open>e_link\<close> the tools of a build and the
  switch of the pointer; \<open>e_health\<close> is the health file of an incarnation, \<open>e_consumes\<close> the outcome of
  \<open>verify_worker_consumes_queue_detailed\<close>; \<open>e_reclaim\<close> is \<open>recover_owned_job_groups\<close> with its configuration and connection (None:
  one of them failed). The clock, the drain sentinels, the failpoints and the fuel of a polling loop are
  those of \<open>WorkerStop\<close>.
\<close>

datatype QueueConsumption = CONSUMED | NOT_CONSUMED | INDETERMINATE

record Env = Stopper +
  e_settings :: Settings
  e_poll :: "nat \<Rightarrow> int \<Rightarrow> int option"
  e_wait :: "nat \<Rightarrow> int \<Rightarrow> bool"
  e_waitpid :: "nat \<Rightarrow> int \<Rightarrow> bool"
  e_popen :: "nat \<Rightarrow> int option"
  e_random_bytes :: "nat \<Rightarrow> pybytes"
  e_boot_id_file :: "nat \<Rightarrow> pybytes option"
  e_pdeathsig :: bool
  e_worker_id :: pystr
  e_reclaim :: "nat \<Rightarrow> pystr \<Rightarrow> ReclaimedGroups option"
  e_cli :: "nat \<Rightarrow> cli_store \<Rightarrow> cli_store"
  e_builder :: "nat \<Rightarrow> Builder"
  e_link :: "nat \<Rightarrow> link_outcome"
  e_health :: "nat \<Rightarrow> pystr \<Rightarrow> stored"
  e_consumes :: "nat \<Rightarrow> WorkerChild \<Rightarrow> pystr \<Rightarrow> QueueConsumption res"
  e_cli_root_dir :: pystr
  e_log_path :: "pystr \<Rightarrow> pystr"
  e_others :: "nat \<Rightarrow> table \<Rightarrow> table"
  e_db :: "nat \<Rightarrow> world"
  e_connect :: "nat \<Rightarrow> pyerr option"

datatype deed = Started pystr table | Stopped WorkerMeta table

text \<open>Evidence of absent progress of one incarnation.\<close>

record NoProgressEvidence =
  np_token :: pystr
  np_first_observed_at :: pyfloat
  np_consecutive_probes :: int

record daemon = store +
  d_world :: World
  d_cli :: cli_store
  d_meta :: stored
  d_table :: table
  d_claim :: "AuthorityClaim option"
  d_connected :: bool
  d_proc :: "int option"
  d_active :: "WorkerChild option"
  d_mem_next_attempt_at :: "pyfloat option"
  d_no_progress :: "NoProgressEvidence option"
  d_log :: "deed list"

type_synonym 'a dm = "(daemon, 'a) eff"

definition probing :: "'a probe \<Rightarrow> 'a dm" where
  "probing p s = (case p (d_world s) of (r, w) \<Rightarrow> (r, s\<lparr>d_world := w\<rparr>))"

definition ask :: "(nat \<Rightarrow> 'a) \<Rightarrow> 'a dm" where
  "ask f = probing (io_act (observe f))"

text \<open>An operation of \<open>cli\<close> on the runtimes as this instant finds them.\<close>

definition ask_cli :: "Env \<Rightarrow> 'a cli \<Rightarrow> 'a dm" where
  "ask_cli E f = io_bind (ask (e_cli E)) (\<lambda>others s.
     case f (others (d_cli s)) of (r, c) \<Rightarrow> (r, s\<lparr>d_cli := c\<rparr>))"

text \<open>\<open>supervise.current_boot_id\<close>: the file may be missing; bytes that are not UTF-8 raise.\<close>

definition current_boot_id :: "Env \<Rightarrow> pystr option dm" where
  "current_boot_id E = io_bind (ask (e_boot_id_file E)) (\<lambda>file. case file of
      None \<Rightarrow> io_return None
    | Some bs \<Rightarrow> if utf8_encode (utf8_decode bs) \<noteq> Ok bs then io_raise UnicodeDecodeError
        else io_return (let s = strip_chars uni_space (utf8_decode bs) in if s = [] then None else Some s))"

text \<open>\<open>secrets.token_hex(16)\<close>.\<close>

definition token_hex :: "Env \<Rightarrow> pystr dm" where
  "token_hex E = ask (\<lambda>t. bytes_hex (e_random_bytes E t))"

definition hit_failpoint :: "Env \<Rightarrow> string \<Rightarrow> unit dm" where
  "hit_failpoint E name = io_lift (failpoint (ws_failpoints E) name)"

definition os_or_durability :: "pyerr \<Rightarrow> bool" where
  "os_or_durability e = (case e of OSError \<Rightarrow> True | FileNotFoundError \<Rightarrow> True | PermissionError \<Rightarrow> True
     | DurabilityError _ \<Rightarrow> True | _ \<Rightarrow> False)"

definition is_authority_error :: "pyerr \<Rightarrow> bool" where
  "is_authority_error e = (case e of AuthorityError _ \<Rightarrow> True | _ \<Rightarrow> False)"

definition is_recovery_error :: "pyerr \<Rightarrow> bool" where
  "is_recovery_error e = (case e of OwnedGroupRecoveryError _ \<Rightarrow> True | _ \<Rightarrow> False)"

definition is_durability_error :: "pyerr \<Rightarrow> bool" where
  "is_durability_error e = (case e of DurabilityError _ \<Rightarrow> True | _ \<Rightarrow> False)"

definition is_intent_error :: "pyerr \<Rightarrow> bool" where
  "is_intent_error e = (case e of DesiredIntentError _ \<Rightarrow> True | _ \<Rightarrow> False)"

definition is_cli_error :: "pyerr \<Rightarrow> bool" where
  "is_cli_error e = (case e of CliError _ \<Rightarrow> True | _ \<Rightarrow> False)"

definition is_mission_error :: "pyerr \<Rightarrow> bool" where
  "is_mission_error e = (case e of DeployCtlError _ \<Rightarrow> True | _ \<Rightarrow> False)"

text \<open>\<open>except (OSError, DurabilityError)\<close>: the write is dropped.\<close>

definition best_effort :: "unit dm \<Rightarrow> unit dm" where
  "best_effort m = io_catch m (\<lambda>e. if os_or_durability e then io_return () else io_raise e)"

definition io_when :: "bool \<Rightarrow> ('s, unit) eff \<Rightarrow> ('s, unit) eff" where
  "io_when b m = (if b then m else io_return ())"

section \<open>Metadata of the worker\<close>

abbreviation put_meta :: "stored \<Rightarrow> daemon \<Rightarrow> daemon" where
  "put_meta v \<equiv> d_meta_update (\<lambda>_. v)"

definition write_meta :: "Env \<Rightarrow> WorkerMeta \<Rightarrow> unit dm" where
  "write_meta E meta = io_bind (hit_failpoint E ''metadata_publication'') (\<lambda>_.
     durable_put put_meta (holding (meta_to_dict meta)))"

definition read_meta_strict :: "stored \<Rightarrow> WorkerMeta option res" where
  "read_meta_strict f = (case f of
      Missing \<Rightarrow> Ok None
    | Dangling \<Rightarrow> Raise (WorkerMetadataError ''maintained-worker metadata is present but unreadable'')
    | _ \<Rightarrow> (case read_text f of
        Inl OSError \<Rightarrow> Raise (WorkerMetadataError ''cannot read maintained-worker metadata'')
      | Inl e \<Rightarrow> Raise e
      | Inr v \<Rightarrow> (case json_loads v of
            Inl _ \<Rightarrow> Raise (WorkerMetadataError ''maintained-worker metadata is not valid JSON'')
          | Inr (JObj d) \<Rightarrow> (case meta_from_dict d of
                Inl e \<Rightarrow> if key_type_value e
                  then Raise (WorkerMetadataError ''maintained-worker metadata is malformed'') else Raise e
              | Inr m \<Rightarrow> Ok (Some m))
          | Inr _ \<Rightarrow> Raise (WorkerMetadataError ''maintained-worker metadata must be a JSON object''))))"

definition runtime_dir :: "Env \<Rightarrow> pystr option \<Rightarrow> pystr res" where
  "runtime_dir E commit = (case commit of
      None \<Rightarrow> Ok []
    | Some c \<Rightarrow> if c = [] then Ok []
        else ebind (validate_commit_name c) (\<lambda>_. Ok (e_cli_root_dir E @ [47] @ c)))"

definition child_to_meta :: "Env \<Rightarrow> WorkerChild \<Rightarrow> pystr \<Rightarrow> WorkerMeta" where
  "child_to_meta E child repo = \<lparr>wm_schema_version = SCHEMA_VERSION, wm_state = STATE_RUNNING,
     wm_pid = Some (wc_pid child), wm_pgid = Some (wc_pgid child), wm_sid = Some (wc_sid child),
     wm_start_time_ticks = Some (wc_start_time_ticks child), wm_token = Some (wc_token child),
     wm_repo = repo, wm_git_commit = None, wm_worker_id = Some (wc_worker_id child),
     wm_log_path = e_log_path E (wc_token child), wm_started_at = Some (wc_spawned_at child),
     wm_stopped_at = None\<rparr>"

section \<open>The facts the guards decide on\<close>

text \<open>
  \<open>reconcile_authority_facts\<close> with its readers and probes: the sources are read and the processes
  observed in the order of the code, each observation at an instant of its own, and the facts are
  those of \<open>LifecycleState\<close>. Where metadata and state name one process, its absence counts as proven
  if both observations prove it, which is how the code combines them.
\<close>

definition text_of :: "pystr \<Rightarrow> string" where
  "text_of = map char_of"

definition meta_view :: "WorkerMeta \<Rightarrow> MetaView" where
  "meta_view m = \<lparr>mv_state = text_of (wm_state m), mv_pid = wm_pid m,
     mv_start_time_ticks = wm_start_time_ticks m, mv_git_commit = map_option text_of (wm_git_commit m)\<rparr>"

definition mission_view :: "RollbackState \<Rightarrow> MissionView" where
  "mission_view m = \<lparr>ms_status = text_of (rs_status m), ms_generation = rs_generation m,
     ms_commit = text_of (rs_commit m)\<rparr>"

definition child_view :: "WorkerChild \<Rightarrow> ChildView" where
  "child_view c = \<lparr>ch_pid = wc_pid c, ch_start_time_ticks = wc_start_time_ticks c\<rparr>"

definition state_view :: "SupervisorState \<Rightarrow> StateView" where
  "state_view st = \<lparr>sv_applied_generation = ss_applied_generation st,
     sv_child = map_option child_view (ss_child st), sv_spawning = ss_spawning st \<noteq> None,
     sv_unresolved_child = ss_unresolved_child st \<noteq> None, sv_ready = ss_ready st,
     sv_ownership_hold_malformed = ss_ownership_hold_malformed st,
     sv_unresolved_hold_malformed = ss_unresolved_hold_malformed st,
     sv_spawning_hold_malformed = ss_spawning_hold_malformed st\<rparr>"

definition authority_sources :: "Env \<Rightarrow> Sources dm" where
  "authority_sources E =
    io_bind (io_get (\<lambda>s. read_meta_strict (d_meta s))) (\<lambda>meta_read.
    let meta = (case meta_read of Inr (Some m) \<Rightarrow> Some m | _ \<Rightarrow> None) in
    io_bind (case meta of None \<Rightarrow> io_return False | Some m \<Rightarrow> probing (WorkerProbe.worker_alive E m)) (\<lambda>owned_proven.
    io_bind (case meta of
        Some m \<Rightarrow> if \<not> owned_proven \<and> wm_state m = STATE_RUNNING
          then (case wm_pid m of None \<Rightarrow> io_return True
            | Some pid \<Rightarrow> probing (WorkerProbe.process_absence_proven E pid (wm_start_time_ticks m)))
          else io_return True
      | None \<Rightarrow> io_return True) (\<lambda>meta_absent.
    io_bind (io_get (\<lambda>s. SuperviseStore.read_rollback_state (f_mission s))) (\<lambda>mission_read.
    io_bind (io_get (\<lambda>s. read_desired_strict s)) (\<lambda>desired_read.
    io_bind (io_get (\<lambda>s. read_state s)) (\<lambda>state_read.
    let child = (case state_read of Inr st \<Rightarrow> ss_child st | Inl _ \<Rightarrow> None) in
    io_bind (case child of None \<Rightarrow> io_return False | Some c \<Rightarrow> probing (WorkerProbe.child_alive E c)) (\<lambda>child_present.
    io_bind (case child of
        Some c \<Rightarrow> if child_present then io_return True
          else probing (WorkerProbe.process_absence_proven E (wc_pid c) (Some (wc_start_time_ticks c)))
      | None \<Rightarrow> io_return True) (\<lambda>child_absent.
    io_bind (case child of None \<Rightarrow> io_return False | Some c \<Rightarrow> probing (WorkerProbe.child_is_our_direct_child E c)) (\<lambda>direct.
      io_return (Sources.make
        (ebind meta_read (\<lambda>m. Ok (map_option meta_view m)))
        (ebind mission_read (\<lambda>m. Ok (map_option mission_view m)))
        (ebind desired_read (\<lambda>d. Ok (map_option sd_generation d)))
        (ebind state_read (\<lambda>st. Ok (Some (state_view st))))
        (\<lambda>_. owned_proven)
        (\<lambda>pid ticks. (if map_option (\<lambda>m. (wm_pid m, wm_start_time_ticks m)) meta = Some (Some pid, ticks)
             then meta_absent else True)
           \<and> (if map_option (\<lambda>c. (wc_pid c, Some (wc_start_time_ticks c))) child = Some (pid, ticks)
             then child_absent else True))
        (\<lambda>_. child_present)
        (\<lambda>_. direct)))))))))))"

definition authority_facts :: "Env \<Rightarrow> AuthorityFacts dm" where
  "authority_facts E = io_bind (authority_sources E) (\<lambda>src. io_lift (reconcile_authority_facts src))"

section \<open>Owned groups\<close>

definition require_owned_group_recovery_converged :: "ReclaimedGroups \<Rightarrow> unit res" where
  "require_owned_group_recovery_converged result =
    (if rg_malformed result \<noteq> [] then Raise (OwnedGroupRecoveryError ''malformed persisted process-group authority'')
     else if rg_surviving result \<noteq> [] then Raise (OwnedGroupRecoveryError ''still alive after recovery'')
     else if rg_unresolved result \<noteq> [] then Raise (OwnedGroupRecoveryError ''could not be identity-verified'')
     else Ok ())"

definition recover_owned_groups :: "Env \<Rightarrow> pystr \<Rightarrow> unit dm" where
  "recover_owned_groups E incarnation =
    (if incarnation = [] then io_return ()
     else io_bind (hit_failpoint E ''db_recovery'') (\<lambda>_.
       io_bind (ask (\<lambda>t. e_reclaim E t incarnation)) (\<lambda>result. case result of
           None \<Rightarrow> io_raise (OwnedGroupRecoveryError ''cannot recover owned groups'')
         | Some r \<Rightarrow> io_lift (require_owned_group_recovery_converged r))))"

definition groups_recovered :: "Env \<Rightarrow> pystr \<Rightarrow> bool dm" where
  "groups_recovered E token = io_catch (io_bind (recover_owned_groups E token) (\<lambda>_. io_return True))
     (\<lambda>e. if is_recovery_error e then io_return False else io_raise e)"

end
