(* ===== verification/SupervisorDb.thy ===== *)
theory SupervisorDb
  imports SupervisorWorld
begin

text \<open>
  The methods of \<open>SupervisorDaemon\<close> that reach the authority row: each works through the cached
  connection, reports an outage or a lost claim as a refusal, and drops the connection on an outage
  so that no decision rests on a stale epoch.
\<close>

section \<open>The connection\<close>

definition discard_authority_connection :: "unit dm" where
  "discard_authority_connection = io_do (\<lambda>s. s\<lparr>d_connected := False\<rparr>)"

text \<open>\<open>if self._authority_conn is None: self._authority_conn = self._open_authority_connection()\<close>.\<close>

definition open_authority_connection :: "Env \<Rightarrow> unit dm" where
  "open_authority_connection E = io_bind (io_get d_connected) (\<lambda>connected.
     if connected then io_return ()
     else io_bind (ask (e_connect E)) (\<lambda>error. case error of
         Some e \<Rightarrow> io_raise e
       | None \<Rightarrow> io_do (\<lambda>s. s\<lparr>d_connected := True\<rparr>)))"

definition is_outage :: "pyerr \<Rightarrow> bool" where
  "is_outage e = (e = AuthorityUnavailableError \<or> e = DatabaseError)"

definition spawn_authority_connection :: "Env \<Rightarrow> bool dm" where
  "spawn_authority_connection E = io_catch
     (io_bind (open_authority_connection E) (\<lambda>_. io_return True))
     (\<lambda>e. if is_outage e then io_bind discard_authority_connection (\<lambda>_. io_return False) else io_raise e)"

text \<open>One operation on the table, with what happens around it at this instant.\<close>

definition db_operation :: "Env \<Rightarrow> (world \<Rightarrow> table \<Rightarrow> 'a res \<times> table) \<Rightarrow> 'a dm" where
  "db_operation E f = io_bind (ask (\<lambda>t. (e_others E t, e_db E t))) (\<lambda>(others, w) s.
     case f w (others (d_table s)) of (r, db) \<Rightarrow> (r, s\<lparr>d_table := db\<rparr>))"

text \<open>
  The shape all of them share: no claim or no connection refuses; an outage drops the connection and
  refuses; an \<open>AuthorityError\<close> refuses where the method catches it.
\<close>

definition under_claim ::
    "Env \<Rightarrow> 'a \<Rightarrow> bool \<Rightarrow> (AuthorityClaim \<Rightarrow> 'a dm) \<Rightarrow> 'a dm" where
  "under_claim E refused catches_mismatch f = io_bind (io_get d_claim) (\<lambda>claim. case claim of
      None \<Rightarrow> io_return refused
    | Some c \<Rightarrow> io_bind (spawn_authority_connection E) (\<lambda>connected.
        if \<not> connected then io_return refused
        else io_catch (f c) (\<lambda>e.
          if is_outage e then io_bind discard_authority_connection (\<lambda>_. io_return refused)
          else if is_authority_error e \<and> catches_mismatch then io_return refused else io_raise e)))"

section \<open>Confirmation\<close>

definition confirm_claim :: "Env \<Rightarrow> bool dm" where
  "confirm_claim E = io_bind (io_get d_claim) (\<lambda>claim. case claim of
      None \<Rightarrow> io_return False
    | Some c \<Rightarrow> io_catch
        (io_bind (open_authority_connection E) (\<lambda>_.
           db_operation E (\<lambda>w db. (confirm_authority (w_read w) db c, db))))
        (\<lambda>e. if is_outage e then io_bind discard_authority_connection (\<lambda>_. io_return False) else io_raise e))"

section \<open>Spawn obligations\<close>

definition db_spawn_record :: "SpawningObligation \<Rightarrow> SpawnObligation" where
  "db_spawn_record ob = \<lparr>so_token = sp_token ob, so_commit = sp_commit ob, so_creator_pid = sp_creator_pid ob,
     so_creator_start_time_ticks = sp_creator_start_time_ticks ob, so_boot_id = sp_boot_id ob,
     so_pid = sp_pid ob, so_start_time_ticks = sp_start_time_ticks ob,
     so_parent_death_signal = sp_parent_death_signal ob\<rparr>"

definition commit_spawn_authority :: "Env \<Rightarrow> SpawningObligation \<Rightarrow> bool dm" where
  "commit_spawn_authority E ob = under_claim E False True (\<lambda>claim.
     db_operation E (\<lambda>w db. commit_spawn_obligation w db claim (db_spawn_record ob)))"

definition clear_spawn_authority :: "Env \<Rightarrow> bool dm" where
  "clear_spawn_authority E = under_claim E False False (\<lambda>claim.
     db_operation E (\<lambda>w db. clear_spawn_obligation w db claim))"

definition read_spawn_authority :: "Env \<Rightarrow> (bool \<times> SpawningObligation option) dm" where
  "read_spawn_authority E = under_claim E (False, None) True (\<lambda>claim.
     io_bind (db_operation E (\<lambda>w db. (read_authority (w_read w) db (ac_server claim), db))) (\<lambda>row.
       case Option.bind row ar_spawn of
         None \<Rightarrow> io_return (True, None)
       | Some sp \<Rightarrow> io_bind time_time (\<lambda>now. io_return (True, Some
           \<lparr>sp_token = so_token sp, sp_commit = so_commit sp, sp_creator_pid = so_creator_pid sp,
            sp_creator_start_time_ticks = so_creator_start_time_ticks sp, sp_pid = so_pid sp,
            sp_start_time_ticks = so_start_time_ticks sp, sp_created_at = now, sp_boot_id = so_boot_id sp,
            sp_parent_death_signal = so_parent_death_signal sp\<rparr>))))"

definition cache_spawn_local :: "SupervisorState \<Rightarrow> unit dm" where
  "cache_spawn_local st = best_effort (write_state st)"

text \<open>\<open>replace(read_state(), spawning=ob)\<close>, written to the cache.\<close>

definition cache_spawning :: "SpawningObligation option \<Rightarrow> unit dm" where
  "cache_spawning ob = io_bind (io_read read_state) (\<lambda>st. cache_spawn_local (st\<lparr>ss_spawning := ob\<rparr>))"

section \<open>Published workers\<close>

definition db_worker_record :: "WorkerChild \<Rightarrow> pystr \<Rightarrow> WorkerRecord" where
  "db_worker_record child commit = \<lparr>wr_token = wc_token child, wr_commit = commit, wr_pid = wc_pid child,
     wr_pgid = wc_pgid child, wr_sid = wc_sid child, wr_start_time_ticks = wc_start_time_ticks child,
     wr_worker_id = wc_worker_id child\<rparr>"

definition db_worker_to_child :: "WorkerRecord \<Rightarrow> WorkerChild dm" where
  "db_worker_to_child r = io_bind time_time (\<lambda>now. io_return \<lparr>wc_pid = wr_pid r, wc_pgid = wr_pgid r,
     wc_sid = wr_sid r, wc_start_time_ticks = wr_start_time_ticks r, wc_token = wr_token r,
     wc_worker_id = wr_worker_id r, wc_spawned_at = now\<rparr>)"

definition publish_worker_authority :: "Env \<Rightarrow> WorkerChild \<Rightarrow> pystr \<Rightarrow> pystr \<Rightarrow> bool dm" where
  "publish_worker_authority E child commit token = under_claim E False True (\<lambda>claim.
     db_operation E (\<lambda>w db. publish_worker w db claim token (db_worker_record child commit)))"

definition clear_worker_authority :: "Env \<Rightarrow> pystr \<Rightarrow> bool dm" where
  "clear_worker_authority E token = under_claim E False False (\<lambda>claim.
     db_operation E (\<lambda>w db. clear_worker w db claim token))"

definition read_worker_authority :: "Env \<Rightarrow> (bool \<times> WorkerRecord option) dm" where
  "read_worker_authority E = under_claim E (False, None) True (\<lambda>claim.
     io_bind (db_operation E (\<lambda>w db. (read_authority (w_read w) db (ac_server claim), db))) (\<lambda>row.
       case row of None \<Rightarrow> io_return (False, None) | Some r \<Rightarrow> io_return (True, ar_worker r)))"

definition db_record_matches_child :: "WorkerRecord option \<Rightarrow> WorkerChild \<Rightarrow> pystr option \<Rightarrow> bool" where
  "db_record_matches_child record child commit = (case record of
      None \<Rightarrow> False
    | Some r \<Rightarrow>
        if commit \<noteq> None \<and> commit \<noteq> Some (wr_commit r) then False
        else wr_token r = wc_token child \<and> wr_pid r = wc_pid child \<and> wr_pgid r = wc_pgid child
          \<and> wr_sid r = wc_sid child \<and> wr_start_time_ticks r = wc_start_time_ticks child
          \<and> wr_worker_id r = wc_worker_id child)"

definition db_worker_meta :: "Env \<Rightarrow> WorkerRecord \<Rightarrow> WorkerMeta res" where
  "db_worker_meta E r = ebind (runtime_dir E (Some (wr_commit r))) (\<lambda>repo. Ok \<lparr>wm_schema_version = SCHEMA_VERSION, wm_state = STATE_RUNNING,
     wm_pid = Some (wr_pid r), wm_pgid = Some (wr_pgid r), wm_sid = Some (wr_sid r),
     wm_start_time_ticks = Some (wr_start_time_ticks r), wm_token = Some (wr_token r),
     wm_repo = repo, wm_git_commit = Some (wr_commit r),
     wm_worker_id = Some (wr_worker_id r), wm_log_path = e_log_path E (wr_token r),
     wm_started_at = None, wm_stopped_at = None\<rparr>)"

definition active_worker_live :: "Env \<Rightarrow> bool dm" where
  "active_worker_live E = io_bind (io_get (\<lambda>s. (d_active s, d_proc s))) (\<lambda>(active, proc).
     case (active, proc) of
       (Some child, Some pid) \<Rightarrow>
         if pid \<noteq> wc_pid child then io_return False
         else io_bind (ask (\<lambda>t. e_poll E t pid)) (\<lambda>code.
           if code \<noteq> None then io_return False
           else io_bind (probing (io_act (proc_start_ticks (kernel_of E) (wc_pid child)))) (\<lambda>ticks.
             io_return (ticks = Some (wc_start_time_ticks child))))
     | _ \<Rightarrow> io_return False)"

definition forget_active :: "pystr \<Rightarrow> unit dm" where
  "forget_active token = io_do (\<lambda>s.
     if map_option wc_token (d_active s) = Some token then s\<lparr>d_active := None\<rparr> else s)"

text \<open>\<open>record.token and drain_sentinel_matches(record.token)\<close>, then recovery unless it was drained.\<close>

definition drained :: "Env \<Rightarrow> pystr \<Rightarrow> bool dm" where
  "drained E token = (if token = [] then io_return False else probing (drain_sentinel_matches E token))"

text \<open>\<open>lifecycle.stop_worker(meta, self.settings.stop_grace_seconds)\<close>; the request goes into the log.\<close>

definition logged_stop :: "Env \<Rightarrow> WorkerMeta \<Rightarrow> bool dm" where
  "logged_stop E meta = io_bind (io_do (\<lambda>s. s\<lparr>d_log := d_log s @ [Stopped meta (d_table s)]\<rparr>)) (\<lambda>_.
     probing (WorkerStop.stop_worker E meta (se_stop_grace (e_settings E)) DEFAULT_CANCEL_GRACE_SECONDS))"

definition retire_db_worker :: "Env \<Rightarrow> WorkerRecord \<Rightarrow> bool dm" where
  "retire_db_worker E record =
    io_bind (io_lift (db_worker_meta E record)) (\<lambda>meta.
    io_bind (probing (WorkerProbe.worker_alive E meta)) (\<lambda>live.
    io_bind (if live then logged_stop E meta else io_return True) (\<lambda>stopped.
    if \<not> stopped then io_return False
    else io_bind (drained E (wr_token record)) (\<lambda>clean.
      io_bind (if clean then io_return True else groups_recovered E (wr_token record)) (\<lambda>recovered.
      if \<not> recovered then io_return False
      else io_bind (clear_worker_authority E (wr_token record)) (\<lambda>cleared.
        if \<not> cleared then io_return False
        else io_bind (forget_active (wr_token record)) (\<lambda>_. io_return True)))))))"

text \<open>The published record is this daemon's own live worker for the commit.\<close>

definition own_live_worker :: "Env \<Rightarrow> WorkerRecord \<Rightarrow> pystr \<Rightarrow> bool dm" where
  "own_live_worker E r commit = io_bind (io_get d_active) (\<lambda>active.
     if map_option wc_token active = Some (wr_token r) \<and> wr_commit r = commit then active_worker_live E
     else io_return False)"

definition reconcile_db_worker :: "Env \<Rightarrow> pystr \<Rightarrow> bool dm" where
  "reconcile_db_worker E commit = io_bind (io_get d_claim) (\<lambda>claim.
     if claim = None then io_return False
     else io_bind (read_worker_authority E) (\<lambda>(ok, record).
       if \<not> ok then io_return False
       else (case record of
           None \<Rightarrow> io_return True
         | Some r \<Rightarrow> io_bind (own_live_worker E r commit) (\<lambda>own.
             if own then io_return True
             else io_bind (if wr_commit r \<noteq> commit
                 then probing (io_act (proc_start_ticks (kernel_of E) (wr_pid r))) else io_return None) (\<lambda>_.
               retire_db_worker E r)))))"

definition db_worker_running :: "Env \<Rightarrow> pystr \<Rightarrow> bool option dm" where
  "db_worker_running E commit = io_bind (io_get d_claim) (\<lambda>claim.
     if claim = None then io_return None
     else io_bind (read_worker_authority E) (\<lambda>(ok, record).
       if \<not> ok then io_return None
       else (case record of
           None \<Rightarrow> io_return (Some False)
         | Some r \<Rightarrow> io_bind (own_live_worker E r commit) (\<lambda>own. io_return (Some own)))))"

end
