(* ===== verification/SupervisorResolve.thy ===== *)
theory SupervisorResolve
  imports SupervisorDb
begin

text \<open>
  \<open>src/lubko/supervisor.py\<close>: converging a worker that was started earlier. A child that may still
  run is signalled only through its exact identity; the obligation or hold that blocks a replacement
  is dropped only when the process is proven gone and the command groups of its incarnation are
  recovered.
\<close>

definition monotonic_now :: "Env \<Rightarrow> pyfloat dm" where
  "monotonic_now E = probing (time_monotonic E)"

definition start_ticks :: "Env \<Rightarrow> int \<Rightarrow> int option dm" where
  "start_ticks E pid = probing (io_act (proc_start_ticks (kernel_of E) pid))"

text \<open>\<open>write_state(replace(read_state(), ...))\<close>.\<close>

definition rewrite_state :: "(SupervisorState \<Rightarrow> SupervisorState) \<Rightarrow> unit dm" where
  "rewrite_state f = io_bind (io_read read_state) (\<lambda>st. write_state (f st))"

text \<open>\<open>self.proc.wait(timeout=...)\<close> with its exceptions suppressed, then \<open>self.proc = None\<close>.\<close>

definition reap_proc :: "Env \<Rightarrow> unit dm" where
  "reap_proc E = io_bind (io_get d_proc) (\<lambda>proc. case proc of
      None \<Rightarrow> io_return ()
    | Some pid \<Rightarrow> io_bind (ask (\<lambda>t. e_wait E t pid)) (\<lambda>_. io_do (\<lambda>s. s\<lparr>d_proc := None\<rparr>)))"

section \<open>Our own direct child\<close>

text \<open>\<open>Popen.terminate\<close> and \<open>Popen.kill\<close>: nothing is sent to a child that was already reaped.\<close>

definition signal_child :: "Env \<Rightarrow> int \<Rightarrow> int \<Rightarrow> unit probe" where
  "signal_child E pid sig w = (Ok (), w\<lparr>w_now := Suc (w_now w), w_sent := w_sent w @
     (if e_poll E (w_now w) pid = None
      then (case k_procs E (w_now w) pid of None \<Rightarrow> [] | Some p \<Rightarrow> [(pr_id p, pid, sig)]) else [])\<rparr>)"

definition converge_direct_child :: "Env \<Rightarrow> int \<Rightarrow> bool dm" where
  "converge_direct_child E pid =
    io_bind (probing (signal_child E pid SIGTERM)) (\<lambda>_.
    io_bind (ask (\<lambda>t. e_wait E t pid)) (\<lambda>reaped.
    if reaped then io_return True
    else io_bind (probing (signal_child E pid SIGKILL)) (\<lambda>_. ask (\<lambda>t. e_wait E t pid))))"

fun wait_for_identity_loop :: "nat \<Rightarrow> Env \<Rightarrow> int \<Rightarrow> pyfloat \<Rightarrow> ProcessIdentity option dm" where
  "wait_for_identity_loop 0 E pid deadline = io_raise NoReturn"
| "wait_for_identity_loop (Suc n) E pid deadline =
    io_bind (probing (process_identity E pid)) (\<lambda>identity.
    if (case identity of Some i \<Rightarrow> pi_pgid i = pid \<and> pi_sid i = pid | None \<Rightarrow> False) then io_return identity
    else io_bind (io_get d_proc) (\<lambda>proc.
      io_bind (case proc of None \<Rightarrow> io_return False
          | Some p \<Rightarrow> io_bind (ask (\<lambda>t. e_poll E t p)) (\<lambda>code. io_return (code \<noteq> None))) (\<lambda>exited.
      if exited then io_return None
      else io_bind (monotonic_now E) (\<lambda>now.
        if float_le deadline now then io_return None else wait_for_identity_loop n E pid deadline))))"

definition wait_for_identity :: "Env \<Rightarrow> int \<Rightarrow> ProcessIdentity option dm" where
  "wait_for_identity E pid = io_bind (monotonic_now E) (\<lambda>now.
     wait_for_identity_loop (ws_fuel E) E pid (float_add now (se_identity_timeout (e_settings E))))"

fun await_observable_loop :: "nat \<Rightarrow> Env \<Rightarrow> int \<Rightarrow> pyfloat \<Rightarrow> ProcessIdentity option dm" where
  "await_observable_loop 0 E pid deadline = io_raise NoReturn"
| "await_observable_loop (Suc n) E pid deadline =
    io_bind (probing (process_identity E pid)) (\<lambda>identity. case identity of
        Some i \<Rightarrow> io_return (Some i)
      | None \<Rightarrow> io_bind (ask (\<lambda>t. e_poll E t pid)) (\<lambda>code.
          if code \<noteq> None then io_return None
          else io_bind (monotonic_now E) (\<lambda>now.
            if float_le deadline now then io_return None else await_observable_loop n E pid deadline)))"

definition await_observable_identity :: "Env \<Rightarrow> int \<Rightarrow> ProcessIdentity option dm" where
  "await_observable_identity E pid = io_bind (monotonic_now E) (\<lambda>now.
     await_observable_loop (ws_fuel E) E pid (float_add now (se_stop_grace (e_settings E))))"

section \<open>Holds on an unresolved child\<close>

definition owned_hold_child :: "Env \<Rightarrow> UnresolvedChild \<Rightarrow> int option dm" where
  "owned_hold_child E hold = io_bind (io_get d_proc) (\<lambda>proc.
     if proc \<noteq> Some (uc_pid hold) then io_return None
     else io_bind (ask (\<lambda>t. e_waitpid E t (uc_pid hold))) (\<lambda>ours.
       if \<not> ours then io_return None
       else (case uc_start_time_ticks hold of
           None \<Rightarrow> io_return proc
         | Some ticks \<Rightarrow> io_bind (start_ticks E (uc_pid hold)) (\<lambda>observed.
             io_return (if observed \<noteq> Some ticks then None else proc)))))"

definition unresolved_alive :: "Env \<Rightarrow> UnresolvedChild \<Rightarrow> bool dm" where
  "unresolved_alive E hold = io_bind (owned_hold_child E hold) (\<lambda>child. case child of
      Some pid \<Rightarrow> io_bind (ask (\<lambda>t. e_poll E t pid)) (\<lambda>code. io_return (code = None))
    | None \<Rightarrow> io_bind (start_ticks E (uc_pid hold)) (\<lambda>observed. io_return
        (if uc_start_time_ticks hold = None then observed \<noteq> None else observed = uc_start_time_ticks hold)))"

fun await_unresolved_loop :: "nat \<Rightarrow> Env \<Rightarrow> UnresolvedChild \<Rightarrow> pyfloat \<Rightarrow> bool dm" where
  "await_unresolved_loop 0 E hold deadline = io_raise NoReturn"
| "await_unresolved_loop (Suc n) E hold deadline =
    io_bind (unresolved_alive E hold) (\<lambda>alive.
    if \<not> alive then io_return True
    else io_bind (monotonic_now E) (\<lambda>now.
      if float_le deadline now then io_return False else await_unresolved_loop n E hold deadline))"

definition await_unresolved_exit :: "Env \<Rightarrow> UnresolvedChild \<Rightarrow> bool dm" where
  "await_unresolved_exit E hold = io_bind (monotonic_now E) (\<lambda>now.
     await_unresolved_loop (ws_fuel E) E hold (float_add now (se_stop_grace (e_settings E))))"

definition converge_unresolved :: "Env \<Rightarrow> UnresolvedChild \<Rightarrow> bool dm" where
  "converge_unresolved E hold = io_bind (unresolved_alive E hold) (\<lambda>alive.
     if \<not> alive then io_return True
     else (case uc_start_time_ticks hold of
         None \<Rightarrow> await_unresolved_exit E hold
       | Some ticks \<Rightarrow>
           io_bind (probing (io_act (open_pidfd (kernel_of E) (uc_pid hold)))) (\<lambda>pinned. case pinned of
               None \<Rightarrow> io_return False
             | Some pidfd \<Rightarrow> io_bind (start_ticks E (uc_pid hold)) (\<lambda>observed.
                 if observed \<noteq> Some ticks then io_return False
                 else io_bind (probing (io_act (pidfd_send_signal (kernel_of E) (uc_pid hold) pidfd SIGTERM))) (\<lambda>_.
                   io_bind (await_unresolved_exit E hold) (\<lambda>gone.
                   if gone then io_return True
                   else io_bind (probing (io_act (pidfd_send_signal (kernel_of E) (uc_pid hold) pidfd SIGKILL))) (\<lambda>_.
                     await_unresolved_exit E hold)))))))"

text \<open>\<open>next_attempt_at = time.monotonic() + poll_interval_seconds\<close>, then the turn is refused.\<close>

definition hold_for_a_poll :: "Env \<Rightarrow> bool dm" where
  "hold_for_a_poll E = io_bind (monotonic_now E) (\<lambda>now.
     io_bind (rewrite_state (\<lambda>st. st\<lparr>ss_next_attempt_at := Some (float_add now (se_poll_interval (e_settings E)))\<rparr>))
       (\<lambda>_. io_return False))"

definition resolve_unresolved_child :: "Env \<Rightarrow> bool dm" where
  "resolve_unresolved_child E = io_bind (io_read read_state) (\<lambda>state.
     if ss_ownership_hold_malformed state \<or> ss_unresolved_hold_malformed state then hold_for_a_poll E
     else (case ss_unresolved_child state of
         None \<Rightarrow> io_return True
       | Some hold \<Rightarrow> io_bind (authority_facts E) (\<lambda>facts.
           if \<not> authorize_recovery facts then hold_for_a_poll E
           else io_bind (converge_unresolved E hold) (\<lambda>gone.
             if \<not> gone then hold_for_a_poll E
             else io_bind (groups_recovered E (uc_token hold)) (\<lambda>recovered.
               if \<not> recovered then io_return False
               else io_bind (rewrite_state (\<lambda>st. st\<lparr>ss_unresolved_child := None\<rparr>)) (\<lambda>_. io_return True))))))"

section \<open>Pre-spawn obligations\<close>

definition resolve_pidless_spawn :: "Env \<Rightarrow> SpawningObligation \<Rightarrow> bool dm" where
  "resolve_pidless_spawn E ob = io_bind (current_boot_id E) (\<lambda>boot_id.
     if sp_boot_id ob \<noteq> None \<and> boot_id \<noteq> None \<and> sp_boot_id ob \<noteq> boot_id then io_return True
     else io_bind (if sp_creator_start_time_ticks ob \<noteq> 0 \<and> sp_creator_pid ob = h_getpid E
         then io_bind (start_ticks E (h_getpid E)) (\<lambda>ticks.
           io_return (ticks = Some (sp_creator_start_time_ticks ob)))
         else io_return False) (\<lambda>this_incarnation.
       if this_incarnation then
         io_bind (io_get d_proc) (\<lambda>proc.
         io_bind (case proc of None \<Rightarrow> io_return False
             | Some pid \<Rightarrow> io_bind (ask (\<lambda>t. e_poll E t pid)) (\<lambda>code. io_return (code = None))) (\<lambda>running.
         if running then io_return False
         else io_bind (reap_proc E) (\<lambda>_. groups_recovered E (sp_token ob))))
       else if \<not> sp_parent_death_signal ob then io_return False
       else if \<not> e_pdeathsig E then io_return False
       else groups_recovered E (sp_token ob)))"

definition hold_of :: "SpawningObligation \<Rightarrow> UnresolvedChild" where
  "hold_of ob = \<lparr>uc_pid = (case sp_pid ob of None \<Rightarrow> 0 | Some p \<Rightarrow> p),
     uc_start_time_ticks = sp_start_time_ticks ob, uc_token = sp_token ob, uc_spawned_at = sp_created_at ob\<rparr>"

definition resolve_identified_spawn :: "Env \<Rightarrow> SpawningObligation \<Rightarrow> bool dm" where
  "resolve_identified_spawn E ob = io_bind (unresolved_alive E (hold_of ob)) (\<lambda>alive.
     if \<not> alive then
       io_bind (groups_recovered E (sp_token ob)) (\<lambda>recovered.
       if \<not> recovered then io_return False
       else io_bind (io_read read_state) (\<lambda>state.
         io_bind (io_when (case ss_unresolved_child state of None \<Rightarrow> False
             | Some leftover \<Rightarrow> uc_pid leftover = uc_pid (hold_of ob) \<and> uc_token leftover = uc_token (hold_of ob))
           (write_state (state\<lparr>ss_unresolved_child := None\<rparr>))) (\<lambda>_. io_return True)))
     else
       io_bind (rewrite_state (\<lambda>st. st\<lparr>ss_unresolved_child := Some (hold_of ob)\<rparr>)) (\<lambda>_.
       io_bind (converge_unresolved E (hold_of ob)) (\<lambda>gone.
       if \<not> gone then hold_for_a_poll E
       else io_bind (groups_recovered E (sp_token ob)) (\<lambda>recovered.
         if \<not> recovered then io_return False
         else io_bind (rewrite_state (\<lambda>st. st\<lparr>ss_unresolved_child := None\<rparr>)) (\<lambda>_. io_return True)))))"

definition publication_in_progress :: "SupervisorState \<Rightarrow> SpawningObligation \<Rightarrow> bool" where
  "publication_in_progress state ob = (case (ss_child state, sp_pid ob) of
      (Some child, Some pid) \<Rightarrow> ss_commit state = Some (sp_commit ob) \<and> wc_token child = sp_token ob
        \<and> wc_pid child = pid \<and> Some (wc_start_time_ticks child) = sp_start_time_ticks ob
    | _ \<Rightarrow> False)"

definition finish_publication :: "Env \<Rightarrow> SupervisorState \<Rightarrow> SpawningObligation \<Rightarrow> bool dm" where
  "finish_publication E state ob = (case ss_child state of
      None \<Rightarrow> io_return False
    | Some child \<Rightarrow> io_bind (io_lift (runtime_dir E (Some (sp_commit ob)))) (\<lambda>repo.
        io_bind (io_catch (io_bind (write_meta E ((child_to_meta E child repo)
              \<lparr>wm_git_commit := Some (sp_commit ob)\<rparr>)) (\<lambda>_. io_return True))
          (\<lambda>e. if os_or_durability e then io_return False else io_raise e)) (\<lambda>written.
        if \<not> written then io_return False
        else io_bind (clear_spawn_authority E) (\<lambda>cleared.
          if \<not> cleared then io_return False
          else io_bind (cache_spawning None) (\<lambda>_. io_return True)))))"

definition settle_spawning_obligation :: "Env \<Rightarrow> SupervisorState \<Rightarrow> SpawningObligation \<Rightarrow> bool dm" where
  "settle_spawning_obligation E state ob =
    (if publication_in_progress state ob then finish_publication E state ob
     else io_bind (if sp_pid ob = None then resolve_pidless_spawn E ob else resolve_identified_spawn E ob) (\<lambda>resolved.
       if \<not> resolved then io_return False
       else io_bind (clear_spawn_authority E) (\<lambda>cleared.
         if \<not> cleared then io_return False
         else io_bind (cache_spawning None) (\<lambda>_. io_return True))))"

definition adopt_db_published :: "Env \<Rightarrow> SpawningObligation \<Rightarrow> bool dm" where
  "adopt_db_published E ob = io_bind (io_get d_claim) (\<lambda>claim.
     if claim = None then io_return False
     else io_bind (read_worker_authority E) (\<lambda>(ok, record).
       if \<not> ok then io_return False
       else (case record of
           None \<Rightarrow> io_return False
         | Some r \<Rightarrow> if wr_token r \<noteq> sp_token ob then io_return False
             else io_bind (db_worker_to_child r) (\<lambda>child.
               io_bind (io_do (\<lambda>s. s\<lparr>d_active := Some child\<rparr>)) (\<lambda>_.
               io_bind (cache_spawning None) (\<lambda>_. io_return True))))))"

definition resolve_spawning_obligation :: "Env \<Rightarrow> bool dm" where
  "resolve_spawning_obligation E = io_bind (io_read read_state) (\<lambda>state.
     if ss_spawning_hold_malformed state then hold_for_a_poll E
     else (case ss_spawning state of
         None \<Rightarrow> io_bind (read_spawn_authority E) (\<lambda>(ok, committed).
           if \<not> ok then io_return False
           else (case committed of
               None \<Rightarrow> io_return True
             | Some ob \<Rightarrow> io_bind (cache_spawning (Some ob)) (\<lambda>_. settle_spawning_obligation E state ob)))
       | Some ob \<Rightarrow> io_bind (adopt_db_published E ob) (\<lambda>adopted.
           if adopted then io_return True else settle_spawning_obligation E state ob)))"

end
