(* ===== verification/SupervisorSpawn.thy ===== *)
theory SupervisorSpawn
  imports SupervisorResolve
begin

text \<open>
  \<open>src/lubko/supervisor.py\<close>: which commit the worker must run, starting it behind a committed
  obligation, publishing it, and the decisions of one reconciliation up to the point where a worker
  is ensured.
\<close>

section \<open>The intended worker\<close>

definition confirmed_runtime :: "Env \<Rightarrow> (bool \<times> pystr option) dm" where
  "confirmed_runtime E = io_bind (ask_cli E (io_get current_commit)) (\<lambda>confirmed. case confirmed of
      None \<Rightarrow> io_return (False, None)
    | Some c \<Rightarrow> io_bind (ask_cli E (runtime_is_usable c)) (\<lambda>usable.
        io_return (if usable then (True, Some c) else (False, None))))"

text \<open>The pair of \<open>("run", commit)\<close> or \<open>("hold", None)\<close>: the first component is whether to run.\<close>

definition derive_without_mission :: "pystr option \<Rightarrow> bool \<times> pystr option" where
  "derive_without_mission desired_commit =
    (case desired_commit of None \<Rightarrow> (False, None) | Some c \<Rightarrow> (True, Some c))"

definition derive_with_mission :: "RollbackState \<Rightarrow> int \<Rightarrow> pystr option \<Rightarrow> bool \<times> pystr option" where
  "derive_with_mission m desired_gen desired_commit =
    (if rs_generation m < desired_gen
       then (case desired_commit of None \<Rightarrow> (False, None) | Some c \<Rightarrow> (True, Some c))
     else if rs_status m = Mission.MISSION_PENDING \<and> rs_supervisor_owned m \<noteq> Some True then (False, None)
     else if rs_generation m > desired_gen
       then (if rs_status m = Mission.MISSION_PENDING then (True, Some (rs_commit m)) else (False, None))
     else if rs_status m = Mission.MISSION_PENDING
       then (if desired_commit = Some (rs_commit m) then (True, Some (rs_commit m)) else (False, None))
     else (False, None))"

definition derive_action :: "Env \<Rightarrow> (bool \<times> pystr option) dm" where
  "derive_action E = io_bind (io_get read_desired_strict) (\<lambda>desired_read. case desired_read of
      Inl e \<Rightarrow> if is_intent_error e then confirmed_runtime E else io_raise e
    | Inr desired \<Rightarrow> io_bind (io_get (\<lambda>s. SuperviseStore.read_rollback_state (f_mission s))) (\<lambda>mission_read.
        case mission_read of
          Inl e \<Rightarrow> if is_mission_error e then confirmed_runtime E else io_raise e
        | Inr None \<Rightarrow> io_return (derive_without_mission (map_option sd_commit desired))
        | Inr (Some m) \<Rightarrow> io_return (derive_with_mission m
            (case desired of None \<Rightarrow> 0 | Some d \<Rightarrow> sd_generation d) (map_option sd_commit desired))))"

section \<open>Backoff\<close>

definition backoff_seconds :: "Env \<Rightarrow> int \<Rightarrow> pyfloat res" where
  "backoff_seconds E restart_count =
    ebind (float_pow2 (max 0 (restart_count - 1))) (\<lambda>factor.
      Ok (float_min (float_mul (se_backoff_base (e_settings E)) factor) (se_backoff_max (e_settings E))))"

definition in_backoff :: "pyfloat \<Rightarrow> bool dm" where
  "in_backoff now = io_bind (io_read read_state) (\<lambda>st. io_return (case ss_next_attempt_at st of
      None \<Rightarrow> False | Some t \<Rightarrow> float_less now t))"

definition write_state_authority_safe :: "SupervisorState \<Rightarrow> bool dm" where
  "write_state_authority_safe st = io_catch
     (io_bind (write_state_preserving_authority st) (\<lambda>_. io_return True))
     (\<lambda>e. if e = ConsumerLockTimeoutError then io_return False else io_raise e)"

definition record_spawn_failure :: "Env \<Rightarrow> pystr \<Rightarrow> pyfloat \<Rightarrow> unit dm" where
  "record_spawn_failure E commit now = io_bind (io_read read_state) (\<lambda>st.
     io_bind (io_lift (backoff_seconds E (ss_restart_count st))) (\<lambda>backoff.
       write_state (st\<lparr>ss_mode := MODE_RUN, ss_commit := Some commit, ss_intent := INTENT_RUN,
         ss_ready := False, ss_next_readiness_at := None, ss_next_attempt_at := Some (float_add now backoff)\<rparr>)))"

section \<open>Settling a start that was not published\<close>

definition unresolved_record :: "int \<Rightarrow> int option \<Rightarrow> pystr \<Rightarrow> pyfloat \<Rightarrow> UnresolvedChild" where
  "unresolved_record pid ticks token at =
    \<lparr>uc_pid = pid, uc_start_time_ticks = ticks, uc_token = token, uc_spawned_at = at\<rparr>"

definition release_unproven_spawn_authority :: "Env \<Rightarrow> pystr \<Rightarrow> bool \<Rightarrow> bool dm" where
  "release_unproven_spawn_authority E token hold_persisted =
    io_bind (groups_recovered E token) (\<lambda>recovered.
    if \<not> recovered then io_return False
    else io_bind (rewrite_state (\<lambda>st. st\<lparr>ss_spawning := None,
          ss_unresolved_child := (if hold_persisted then None else ss_unresolved_child st)\<rparr>)) (\<lambda>_.
      io_bind (io_do (\<lambda>s. s\<lparr>d_proc := None\<rparr>)) (\<lambda>_. io_return True)))"

definition record_proven_private_child :: "Env \<Rightarrow> ProcessIdentity \<Rightarrow> pystr \<Rightarrow> pystr \<Rightarrow> unit dm" where
  "record_proven_private_child E i token worker_id =
    io_bind (hit_failpoint E ''supervisor.spawning_clearance'') (\<lambda>_.
    io_bind (io_read read_state) (\<lambda>st. io_bind time_time (\<lambda>now.
      write_state (st\<lparr>ss_child := Some \<lparr>wc_pid = pi_pid i, wc_pgid = pi_pgid i, wc_sid = pi_sid i,
          wc_start_time_ticks = pi_start_time_ticks i, wc_token = token, wc_worker_id = worker_id,
          wc_spawned_at = now\<rparr>, ss_unresolved_child := None, ss_spawning := None\<rparr>))))"

text \<open>\<open>_persist_unobservable_hold\<close> and \<open>_record_shared_group_hold\<close> write the same hold, without and
  with start-time ticks.\<close>

definition write_authority_free_hold :: "int \<Rightarrow> int option \<Rightarrow> pystr \<Rightarrow> unit dm" where
  "write_authority_free_hold pid ticks token = io_bind (io_read read_state) (\<lambda>st. io_bind time_time (\<lambda>now.
     write_state (st\<lparr>ss_unresolved_child := Some (unresolved_record pid ticks token now), ss_spawning := None\<rparr>)))"

definition persist_unobservable_hold :: "int \<Rightarrow> pystr \<Rightarrow> bool \<Rightarrow> bool dm" where
  "persist_unobservable_hold pid token already_persisted =
    (if already_persisted then io_return True
     else io_bind (write_authority_free_hold pid None token) (\<lambda>_. io_return True))"

fun settle_loop :: "nat \<Rightarrow> Env \<Rightarrow> int \<Rightarrow> pystr \<Rightarrow> pystr \<Rightarrow> bool \<Rightarrow> unit dm" where
  "settle_loop 0 E pid token worker_id hold_persisted = io_raise NoReturn"
| "settle_loop (Suc n) E pid token worker_id hold_persisted =
    io_bind (converge_direct_child E pid) (\<lambda>reaped.
    if reaped then io_bind (release_unproven_spawn_authority E token hold_persisted) (\<lambda>_. io_return ())
    else io_bind (await_observable_identity E pid) (\<lambda>observed. case observed of
        None \<Rightarrow> io_bind (ask (\<lambda>t. e_poll E t pid)) (\<lambda>code.
          if code \<noteq> None then io_bind (release_unproven_spawn_authority E token hold_persisted) (\<lambda>_. io_return ())
          else io_bind (persist_unobservable_hold pid token hold_persisted) (\<lambda>persisted.
            settle_loop n E pid token worker_id persisted))
      | Some i \<Rightarrow>
          if identity_is_private_session i then record_proven_private_child E i token worker_id
          else write_authority_free_hold pid (Some (pi_start_time_ticks i)) token))"

definition settle_unproven_spawn :: "Env \<Rightarrow> int \<Rightarrow> pystr \<Rightarrow> pystr \<Rightarrow> WorkerChild option dm" where
  "settle_unproven_spawn E pid token worker_id =
    io_bind (ask (\<lambda>t. e_poll E t pid)) (\<lambda>code.
    io_bind (if code \<noteq> None then io_bind (release_unproven_spawn_authority E token False) (\<lambda>_. io_return ())
        else settle_loop (ws_fuel E) E pid token worker_id False) (\<lambda>_. io_return None))"

definition preserve_blocking_obligation :: "SpawningObligation \<Rightarrow> int \<Rightarrow> int option \<Rightarrow> unit dm" where
  "preserve_blocking_obligation ob pid ticks = io_catch
     (rewrite_state (\<lambda>st. st\<lparr>ss_spawning := Some ((case ss_spawning st of Some current \<Rightarrow> current | None \<Rightarrow> ob)
         \<lparr>sp_pid := Some pid, sp_start_time_ticks := ticks\<rparr>)\<rparr>))
     (\<lambda>e. if is_durability_error e then io_return () else io_raise e)"

definition recover_unpublished_spawn :: "Env \<Rightarrow> int \<Rightarrow> SpawningObligation \<Rightarrow> int option \<Rightarrow> WorkerChild option dm" where
  "recover_unpublished_spawn E pid ob ticks = io_bind (converge_direct_child E pid) (\<lambda>reaped.
     if reaped then
       io_bind (io_do (\<lambda>s. s\<lparr>d_proc := None\<rparr>)) (\<lambda>_.
       io_bind (groups_recovered E (sp_token ob)) (\<lambda>recovered.
       io_bind (if recovered then rewrite_state (\<lambda>st. st\<lparr>ss_spawning := None\<rparr>)
           else preserve_blocking_obligation ob pid ticks) (\<lambda>_. io_return None)))
     else
       io_bind (hit_failpoint E ''supervisor.unresolved_child_write'') (\<lambda>_.
       io_bind (write_authority_free_hold pid ticks (sp_token ob)) (\<lambda>_. io_return None)))"

section \<open>Starting a worker\<close>

definition resolve_spawn_executable :: "Env \<Rightarrow> pystr \<Rightarrow> bool dm" where
  "resolve_spawn_executable E commit = io_bind (ask_cli E (runtime_is_usable commit)) (\<lambda>usable.
     if \<not> usable then io_return False
     else ask_cli E (io_read (cli_entry_executable commit (lit ''lubko-worker''))))"

text \<open>\<open>subprocess.Popen\<close>: a new child, or nothing when the start failed.\<close>

definition popen :: "Env \<Rightarrow> pystr \<Rightarrow> int option dm" where
  "popen E token = io_bind (ask (e_popen E)) (\<lambda>started. case started of
      None \<Rightarrow> io_return None
    | Some pid \<Rightarrow> io_bind (io_do (\<lambda>s. s\<lparr>d_log := d_log s @ [Started token (d_table s)]\<rparr>)) (\<lambda>_. io_return (Some pid)))"

definition publish_spawned_child ::
    "Env \<Rightarrow> int \<Rightarrow> SpawningObligation \<Rightarrow> int option \<Rightarrow> pystr \<Rightarrow> pystr \<Rightarrow> WorkerChild option dm" where
  "publish_spawned_child E pid ob child_ticks token worker_id =
    io_bind (hit_failpoint E ''supervisor.pid_upgrade_write'') (\<lambda>_.
    io_bind (authority_facts E) (\<lambda>facts.
    if check_authority_invariants facts \<noteq> [] then recover_unpublished_spawn E pid ob child_ticks
    else
      io_bind (best_effort (rewrite_state (\<lambda>st. st\<lparr>ss_spawning :=
          Some (ob\<lparr>sp_pid := Some pid, sp_start_time_ticks := child_ticks\<rparr>)\<rparr>))) (\<lambda>_.
      io_bind (wait_for_identity E pid) (\<lambda>identity. case identity of
          None \<Rightarrow> settle_unproven_spawn E pid token worker_id
        | Some i \<Rightarrow> io_bind time_time (\<lambda>now. io_return (Some \<lparr>wc_pid = pi_pid i, wc_pgid = pi_pgid i,
            wc_sid = pi_sid i, wc_start_time_ticks = pi_start_time_ticks i, wc_token = token,
            wc_worker_id = worker_id, wc_spawned_at = now\<rparr>))))))"

definition chosen_worker_id :: "Env \<Rightarrow> SupervisorDesired option \<Rightarrow> pystr" where
  "chosen_worker_id E desired = (case Option.bind desired sd_worker_id of
      Some w \<Rightarrow> if w = [] then e_worker_id E else w | None \<Rightarrow> e_worker_id E)"

text \<open>From the committed obligation to the publication of the started process.\<close>

definition start_obliged :: "Env \<Rightarrow> SpawningObligation \<Rightarrow> pystr \<Rightarrow> WorkerChild option dm" where
  "start_obliged E ob worker_id =
    io_bind (commit_spawn_authority E ob) (\<lambda>committed.
    if \<not> committed then io_return None
    else io_bind (cache_spawning (Some ob)) (\<lambda>_.
      io_bind (popen E (sp_token ob)) (\<lambda>started. case started of
          None \<Rightarrow> io_bind (clear_spawn_authority E) (\<lambda>cleared.
            if \<not> cleared then io_return None
            else io_bind (cache_spawning None) (\<lambda>_. io_return None))
        | Some pid \<Rightarrow>
            io_bind (io_do (\<lambda>s. s\<lparr>d_proc := Some pid\<rparr>)) (\<lambda>_.
            io_bind (start_ticks E pid) (\<lambda>child_ticks.
              publish_spawned_child E pid ob child_ticks (sp_token ob) worker_id)))))"

definition spawn_worker :: "Env \<Rightarrow> pystr \<Rightarrow> WorkerChild option dm" where
  "spawn_worker E commit =
    io_bind (resolve_spawn_executable E commit) (\<lambda>executable.
    if \<not> executable then io_return None
    else io_bind (token_hex E) (\<lambda>token.
      io_bind (io_read read_desired) (\<lambda>desired.
      if \<not> e_pdeathsig E then io_return None
      else io_bind (start_ticks E (h_getpid E)) (\<lambda>creator_ticks.
        io_bind time_time (\<lambda>created_at.
        io_bind (current_boot_id E) (\<lambda>boot_id.
        io_bind (hit_failpoint E ''supervisor.spawning_write'') (\<lambda>_.
        io_bind (authority_facts E) (\<lambda>facts.
        if \<not> authorize_spawn facts then io_return None
        else start_obliged E \<lparr>sp_token = token, sp_commit = commit, sp_creator_pid = h_getpid E,
              sp_creator_start_time_ticks = (case creator_ticks of None \<Rightarrow> 0 | Some t \<Rightarrow> t),
              sp_pid = None, sp_start_time_ticks = None, sp_created_at = created_at,
              sp_boot_id = boot_id, sp_parent_death_signal = True\<rparr> (chosen_worker_id E desired)))))))))"

section \<open>Publication\<close>

definition spawn_obligation_for :: "Env \<Rightarrow> WorkerChild \<Rightarrow> SpawningObligation option dm" where
  "spawn_obligation_for E child = io_bind (io_read read_state) (\<lambda>st. case ss_spawning st of
      Some ob \<Rightarrow> io_return (Some ob)
    | None \<Rightarrow> io_bind (read_spawn_authority E) (\<lambda>(ok, committed). io_return (case committed of
        Some ob \<Rightarrow> if ok \<and> sp_token ob = wc_token child then Some ob else None
      | None \<Rightarrow> None)))"

definition converge_spawn_without_obligation :: "Env \<Rightarrow> WorkerChild \<Rightarrow> pyfloat \<Rightarrow> unit dm" where
  "converge_spawn_without_obligation E child now =
    io_bind (io_read read_state) (\<lambda>st.
    io_bind (io_lift (backoff_seconds E (ss_restart_count st))) (\<lambda>backoff.
    let next_attempt_at = float_add now backoff;
        persist_hold = io_bind (io_read read_state) (\<lambda>st. io_bind time_time (\<lambda>at.
          write_state (st\<lparr>ss_unresolved_child := Some (unresolved_record (wc_pid child)
              (Some (wc_start_time_ticks child)) (wc_token child) at),
            ss_next_attempt_at := Some next_attempt_at\<rparr>))) in
    io_bind (io_get d_proc) (\<lambda>proc.
    io_bind (case proc of None \<Rightarrow> io_return False | Some pid \<Rightarrow> converge_direct_child E pid) (\<lambda>reaped.
    if reaped then
      io_bind (io_do (\<lambda>s. s\<lparr>d_proc := None\<rparr>)) (\<lambda>_.
      io_bind (groups_recovered E (wc_token child)) (\<lambda>recovered.
      if recovered then rewrite_state (\<lambda>st. st\<lparr>ss_next_attempt_at := Some next_attempt_at\<rparr>)
      else persist_hold))
    else persist_hold))))"

definition cache_published_child :: "Env \<Rightarrow> WorkerChild \<Rightarrow> pystr \<Rightarrow> pyfloat \<Rightarrow> SpawningObligation \<Rightarrow> unit dm" where
  "cache_published_child E child commit now ob =
    io_bind (io_read read_state) (\<lambda>st.
    io_bind (best_effort (write_state (st\<lparr>ss_mode := MODE_RUN, ss_commit := Some commit, ss_child := Some child,
        ss_intent := INTENT_RUN, ss_next_attempt_at := None, ss_last_spawn_at := Some now, ss_ready := False,
        ss_next_readiness_at := Some (float_add now (se_readiness_interval (e_settings E))),
        ss_spawning := Some (ob\<lparr>sp_pid := Some (wc_pid child),
          sp_start_time_ticks := Some (wc_start_time_ticks child)\<rparr>)\<rparr>))) (\<lambda>_.
    io_bind (io_lift (runtime_dir E (Some commit))) (\<lambda>repo.
    io_bind (best_effort (write_meta E ((child_to_meta E child repo)\<lparr>wm_git_commit := Some commit\<rparr>))) (\<lambda>_.
    io_bind (clear_spawn_authority E) (\<lambda>cleared. io_when cleared (cache_spawning None))))))"

definition spawn_and_publish :: "Env \<Rightarrow> pystr \<Rightarrow> unit dm" where
  "spawn_and_publish E commit =
    io_bind (under_lock GenerationLockTimeoutError
      (io_bind (io_read read_state) (\<lambda>_.
       io_bind (derive_action E) (\<lambda>(run, authorized_commit).
       if \<not> run \<or> authorized_commit \<noteq> Some commit then io_return None
       else io_bind (confirm_claim E) (\<lambda>confirmed.
         if \<not> confirmed then io_return None
         else io_bind (spawn_worker E commit) (\<lambda>child. io_return (Some child))))))) (\<lambda>attempt. case attempt of
        None \<Rightarrow> io_return ()
      | Some child_or_none \<Rightarrow> io_bind (monotonic_now E) (\<lambda>now. case child_or_none of
            None \<Rightarrow> record_spawn_failure E commit now
          | Some child \<Rightarrow> io_bind (spawn_obligation_for E child) (\<lambda>obligation.
              io_bind (io_get d_claim) (\<lambda>claim.
              io_bind (case obligation of
                  Some ob \<Rightarrow> if claim \<noteq> None
                    then io_bind (publish_worker_authority E child commit (sp_token ob)) (\<lambda>published.
                      io_return (if published then Some ob else None))
                    else io_return (Some ob)
                | None \<Rightarrow> io_return None) (\<lambda>published. case published of
                    None \<Rightarrow> converge_spawn_without_obligation E child now
                  | Some ob \<Rightarrow>
                      io_bind (io_do (\<lambda>s. s\<lparr>d_active := Some child, d_mem_next_attempt_at := None\<rparr>)) (\<lambda>_.
                        cache_published_child E child commit now ob))))))"

definition gate_db_spawn :: "Env \<Rightarrow> bool dm" where
  "gate_db_spawn E = io_bind (io_get (\<lambda>s. (d_claim s, d_mem_next_attempt_at s))) (\<lambda>(claim, next_attempt).
     if claim = None then io_return False
     else (case next_attempt of
         None \<Rightarrow> io_return True
       | Some t \<Rightarrow> io_bind (monotonic_now E) (\<lambda>now. io_return (\<not> float_less now t))))"

definition ensure_consumer_locked :: "Env \<Rightarrow> pystr \<Rightarrow> unit dm" where
  "ensure_consumer_locked E commit =
    io_bind (confirm_claim E) (\<lambda>confirmed. if \<not> confirmed then io_return ()
    else io_bind (gate_db_spawn E) (\<lambda>open. if \<not> open then io_return ()
    else io_bind (resolve_spawning_obligation E) (\<lambda>resolved. if \<not> resolved then io_return ()
    else io_bind (resolve_unresolved_child E) (\<lambda>resolved. if \<not> resolved then io_return ()
    else io_bind (reconcile_db_worker E commit) (\<lambda>clear. if \<not> clear then io_return ()
    else io_bind (db_worker_running E commit) (\<lambda>running.
      if running \<noteq> Some False then io_return () else spawn_and_publish E commit))))))"

definition ensure_worker :: "Env \<Rightarrow> pystr \<Rightarrow> unit dm" where
  "ensure_worker E commit = io_catch (under_lock ConsumerLockTimeoutError (ensure_consumer_locked E commit))
     (\<lambda>e. if e = ConsumerLockTimeoutError then io_return () else io_raise e)"

end
