(* ===== verification/SupervisorLoop.thy ===== *)
theory SupervisorLoop
  imports SupervisorSpawn
begin

text \<open>
  \<open>src/lubko/supervisor.py\<close>: retirement, crash handling and applying a desired intent.
\<close>

section \<open>Retirement\<close>

definition recorded_child_alive :: "Env \<Rightarrow> SupervisorState \<Rightarrow> bool dm" where
  "recorded_child_alive E st = (case ss_child st of
      None \<Rightarrow> io_return False
    | Some child \<Rightarrow> io_bind (io_lift (runtime_dir E (ss_commit st))) (\<lambda>repo.
        io_bind (probing (WorkerProbe.worker_alive E (child_to_meta E child repo))) (\<lambda>alive.
        if \<not> alive then io_return False
        else io_bind (probing (io_act (process_ppid (kernel_of E) (wc_pid child)))) (\<lambda>ppid.
          io_return (ppid = Some (h_getpid E))))))"

definition retire_child :: "Env \<Rightarrow> bool \<Rightarrow> bool dm" where
  "retire_child E authority_locked = io_bind (io_read read_state) (\<lambda>state. case ss_child state of
      None \<Rightarrow> io_return True
    | Some child \<Rightarrow>
        io_bind (confirm_claim E) (\<lambda>confirmed. if \<not> confirmed then io_return False
        else io_bind (read_worker_authority E) (\<lambda>(ok, record).
          if \<not> ok \<or> \<not> db_record_matches_child record child (ss_commit state) then io_return False
          else io_bind (io_lift (runtime_dir E (ss_commit state))) (\<lambda>repo. let meta = child_to_meta E child repo in
            io_bind (probing (WorkerProbe.worker_alive E meta)) (\<lambda>live.
            io_bind (if live then io_bind (authority_facts E) (\<lambda>facts. io_return (authorize_retirement facts))
                else io_return True) (\<lambda>allowed. if \<not> allowed then io_return False
            else io_bind (logged_stop E meta) (\<lambda>stopped. if \<not> stopped then io_return False
            else io_bind (drained E (wc_token child)) (\<lambda>clean.
              io_bind (io_when (\<not> clean) (recover_owned_groups E (wc_token child))) (\<lambda>_.
              io_bind (reap_proc E) (\<lambda>_.
              io_bind (if authority_locked
                  then io_bind (rewrite_state (\<lambda>st. st\<lparr>ss_child := None, ss_ready := False,
                      ss_next_readiness_at := None\<rparr>)) (\<lambda>_. io_return True)
                  else write_state_authority_safe (state\<lparr>ss_child := None, ss_ready := False,
                      ss_next_readiness_at := None\<rparr>)) (\<lambda>written.
              if \<not> written then io_return False
              else io_bind (forget_active (wc_token child)) (\<lambda>_. io_return True))))))))))))"

definition ensure_held :: "Env \<Rightarrow> unit dm" where
  "ensure_held E = io_bind (io_read read_state) (\<lambda>st.
     io_when (ss_child st \<noteq> None) (io_bind (retire_child E False) (\<lambda>_. io_return ())))"

definition clear_child :: "unit dm" where
  "clear_child = io_bind (io_do (\<lambda>s. s\<lparr>d_proc := None\<rparr>)) (\<lambda>_.
     io_bind (io_read read_state) (\<lambda>st.
     io_bind (case ss_child st of None \<Rightarrow> io_return () | Some c \<Rightarrow> forget_active (wc_token c)) (\<lambda>_.
     io_bind (write_state_authority_safe (st\<lparr>ss_child := None\<rparr>)) (\<lambda>_. io_return ()))))"

section \<open>Crashes\<close>

definition poll_proc :: "Env \<Rightarrow> int option dm" where
  "poll_proc E = io_bind (io_get d_proc) (\<lambda>proc. case proc of
      None \<Rightarrow> io_return None | Some pid \<Rightarrow> ask (\<lambda>t. e_poll E t pid))"

definition handle_crash :: "Env \<Rightarrow> SupervisorState \<Rightarrow> pyfloat \<Rightarrow> unit dm" where
  "handle_crash E state now =
    io_bind (poll_proc E) (\<lambda>returncode.
    io_bind (case ss_child state of
        None \<Rightarrow> io_return True
      | Some child \<Rightarrow> io_bind (drained E (wc_token child)) (\<lambda>clean.
          if clean then io_return True else groups_recovered E (wc_token child))) (\<lambda>recovered.
    if \<not> recovered then
      io_bind time_time (\<lambda>at.
      io_bind (io_lift (backoff_seconds E (ss_restart_count state + 1))) (\<lambda>backoff.
      io_bind (write_state_authority_safe (state\<lparr>ss_last_exit := Some \<lparr>le_returncode = returncode, le_at = at\<rparr>,
          ss_intent := INTENT_RUN, ss_next_attempt_at := Some (float_add now backoff), ss_ready := False,
          ss_next_readiness_at := None\<rparr>)) (\<lambda>_. io_return ())))
    else
      io_bind (io_lift (backoff_seconds E (ss_restart_count state + 1))) (\<lambda>backoff.
      io_bind time_time (\<lambda>at.
      io_bind (write_state_authority_safe (state\<lparr>ss_restart_count := ss_restart_count state + 1,
          ss_next_attempt_at := Some (float_add now backoff),
          ss_last_exit := Some \<lparr>le_returncode = returncode, le_at = at\<rparr>, ss_intent := INTENT_RUN,
          ss_child := None\<rparr>)) (\<lambda>written.
      if \<not> written then io_return ()
      else io_bind (io_do (\<lambda>s. s\<lparr>d_proc := None\<rparr>)) (\<lambda>_.
        case ss_child state of None \<Rightarrow> io_return () | Some child \<Rightarrow> forget_active (wc_token child)))))))"

definition handle_db_crash :: "Env \<Rightarrow> pyfloat \<Rightarrow> unit dm" where
  "handle_db_crash E now = io_bind (io_get d_active) (\<lambda>active. case active of
      None \<Rightarrow> io_return ()
    | Some child \<Rightarrow> io_bind (groups_recovered E (wc_token child)) (\<lambda>recovered. if \<not> recovered then io_return ()
        else io_bind (clear_worker_authority E (wc_token child)) (\<lambda>cleared. if \<not> cleared then io_return ()
        else io_bind (io_do (\<lambda>s. s\<lparr>d_active := None\<rparr>)) (\<lambda>_.
          io_bind (reap_proc E) (\<lambda>_.
          io_bind (io_read read_state) (\<lambda>st.
          io_bind (io_lift (backoff_seconds E (ss_restart_count st + 1))) (\<lambda>backoff.
          io_bind (io_do (\<lambda>s. s\<lparr>d_mem_next_attempt_at := Some (float_add now backoff)\<rparr>)) (\<lambda>_.
          io_catch
            (io_bind (io_read read_state) (\<lambda>st.
             io_bind (poll_proc E) (\<lambda>returncode.
             io_bind time_time (\<lambda>at.
             io_bind (write_state_authority_safe (st\<lparr>ss_restart_count := ss_restart_count st + 1,
                 ss_next_attempt_at := Some (float_add now backoff),
                 ss_last_exit := Some \<lparr>le_returncode = returncode, le_at = at\<rparr>,
                 ss_intent := INTENT_RUN, ss_child := None\<rparr>)) (\<lambda>_. io_return ())))))
            (\<lambda>e. if os_or_durability e \<or> e = ConsumerLockTimeoutError then io_return () else io_raise e)))))))))"

definition db_crash_blocks :: "Env \<Rightarrow> pyfloat \<Rightarrow> bool dm" where
  "db_crash_blocks E now = io_bind (io_get d_active) (\<lambda>active.
     if active = None then io_return False
     else io_bind (active_worker_live E) (\<lambda>live. if live then io_return False
       else io_bind (handle_db_crash E now) (\<lambda>_.
         io_bind (io_get d_mem_next_attempt_at) (\<lambda>t.
           if (case t of None \<Rightarrow> False | Some x \<Rightarrow> float_less now x) then io_return True else in_backoff now))))"

definition maybe_reset_backoff :: "Env \<Rightarrow> SupervisorState \<Rightarrow> pyfloat \<Rightarrow> unit dm" where
  "maybe_reset_backoff E state now =
    (if ss_restart_count state = 0 \<and> ss_next_attempt_at state = None then io_return ()
     else if ss_child state = None then io_return ()
     else io_bind (recorded_child_alive E state) (\<lambda>alive.
       if \<not> alive then io_return ()
       else (case ss_last_spawn_at state of
           None \<Rightarrow> io_return ()
         | Some t \<Rightarrow>
             if float_less (float_sub now t) (se_stable_window (e_settings E)) then io_return ()
             else io_bind (write_state_authority_safe (state\<lparr>ss_restart_count := 0, ss_next_attempt_at := None,
                 ss_last_exit := None\<rparr>)) (\<lambda>_. io_return ()))))"

section \<open>Applying a desired intent\<close>

definition defer_attempt :: "Env \<Rightarrow> int \<Rightarrow> unit dm" where
  "defer_attempt E restart_count = io_bind (monotonic_now E) (\<lambda>now.
     io_bind (io_read read_state) (\<lambda>st.
     io_bind (io_lift (backoff_seconds E restart_count)) (\<lambda>backoff.
     io_bind (write_state_authority_safe (st\<lparr>ss_next_attempt_at := Some (float_add now backoff)\<rparr>)) (\<lambda>_.
       io_return ()))))"

definition apply_desired :: "Env \<Rightarrow> SupervisorDesired \<Rightarrow> unit dm" where
  "apply_desired E d =
    (if sd_commit d = [] then io_return ()
     else io_bind (io_read read_state) (\<lambda>state.
       io_bind (io_get d_claim) (\<lambda>claim. if claim = None then io_return ()
       else io_bind (db_worker_running E (sd_commit d)) (\<lambda>running. case running of
           None \<Rightarrow> io_return ()
         | Some db_running \<Rightarrow>
             (let already_running = (db_running \<and> \<not> sd_restart d) in
              io_bind (if already_running then io_return True
                  else ask_cli E (runtime_satisfies (sd_commit d) ENTRY_POINTS)) (\<lambda>launchable.
              if \<not> launchable then defer_attempt E (ss_restart_count state)
              else io_bind (if already_running then io_return True
                  else io_bind (io_read read_state) (\<lambda>_. retire_child E False)) (\<lambda>retired.
                if \<not> retired then defer_attempt E (ss_restart_count state)
                else io_bind (io_read read_state) (\<lambda>current.
                  io_bind (if already_running \<and> ss_commit current = Some (sd_commit d) \<and> ss_child current \<noteq> None
                      then recorded_child_alive E current else io_return False) (\<lambda>preserve_readiness.
                  io_bind (write_state_authority_safe (current\<lparr>ss_applied_generation := sd_generation d,
                      ss_mode := MODE_RUN, ss_commit := Some (sd_commit d), ss_intent := INTENT_RUN,
                      ss_restart_count := 0, ss_next_attempt_at := None,
                      ss_ready := (if preserve_readiness then ss_ready current else False),
                      ss_next_readiness_at := (if preserve_readiness then ss_next_readiness_at current
                        else None)\<rparr>)) (\<lambda>written.
                  if \<not> written then io_return ()
                  else io_when (\<not> already_running) (ensure_worker E (sd_commit d))))))))))))"

definition apply_newer_desired :: "Env \<Rightarrow> SupervisorState \<Rightarrow> pystr option \<Rightarrow> bool dm" where
  "apply_newer_desired E state commit = io_bind (io_get read_desired_strict) (\<lambda>desired_read. case desired_read of
      Inl e \<Rightarrow> if \<not> is_intent_error e then io_raise e
        else io_bind (ask_cli E (io_get current_commit)) (\<lambda>confirmed.
        io_bind (case commit of
            Some c \<Rightarrow> if confirmed = Some c then ask_cli E (runtime_is_usable c) else io_return False
          | None \<Rightarrow> io_return False) (\<lambda>usable.
        if usable then io_return False else io_bind (ensure_held E) (\<lambda>_. io_return True)))
    | Inr desired \<Rightarrow> (case desired of
        Some d \<Rightarrow> if commit = Some (sd_commit d) \<and> sd_generation d > ss_applied_generation state
          then io_bind (apply_desired E d) (\<lambda>_. io_return True) else io_return False
      | None \<Rightarrow> io_return False))"

definition record_mission_progress :: "Env \<Rightarrow> pystr \<Rightarrow> unit dm" where
  "record_mission_progress E commit = io_bind (io_get read_desired_strict) (\<lambda>desired_read. case desired_read of
      Inl e \<Rightarrow> if is_intent_error e then io_return () else io_raise e
    | Inr desired \<Rightarrow> io_bind (io_get (\<lambda>s. SuperviseStore.read_rollback_state (f_mission s))) (\<lambda>mission_read.
        case mission_read of
          Inl e \<Rightarrow> if is_mission_error e then io_return () else io_raise e
        | Inr None \<Rightarrow> io_return ()
        | Inr (Some m) \<Rightarrow>
            if rs_status m \<noteq> Mission.MISSION_PENDING \<or> rs_commit m \<noteq> commit
              \<or> rs_generation m < (case desired of None \<Rightarrow> 0 | Some d \<Rightarrow> sd_generation d) then io_return ()
            else io_bind (io_read read_state) (\<lambda>current.
              if ss_child current \<noteq> None \<and> ss_commit current = Some commit
                \<and> rs_generation m > ss_applied_generation current
              then io_bind (recorded_child_alive E current) (\<lambda>alive.
                if alive then io_bind (write_state_authority_safe
                    (current\<lparr>ss_applied_generation := rs_generation m\<rparr>)) (\<lambda>_. io_return ())
                else io_return ())
              else io_return ())))"

definition normalize_cross_boot_state :: "Env \<Rightarrow> unit dm" where
  "normalize_cross_boot_state E = io_bind (io_read read_state) (\<lambda>state.
     if ss_ownership_hold_malformed state then io_return ()
     else io_bind (current_boot_id E) (\<lambda>boot_id.
       if ss_boot_id state = boot_id \<and> boot_id \<noteq> None then io_return ()
       else io_bind (write_state_authority_safe (state\<lparr>ss_boot_id := boot_id, ss_next_attempt_at := None,
           ss_last_spawn_at := None, ss_next_readiness_at := None, ss_ready := False\<rparr>)) (\<lambda>_. io_return ())))"

section \<open>One reconciliation\<close>

definition reconcile_child :: "Env \<Rightarrow> SupervisorState \<Rightarrow> pyfloat \<Rightarrow> bool dm" where
  "reconcile_child E state now =
    io_bind (if ss_child state = None then io_return True else recorded_child_alive E state) (\<lambda>fine.
    if \<not> fine then (case ss_child state of
        None \<Rightarrow> io_return True
      | Some child \<Rightarrow> io_bind (io_lift (runtime_dir E (ss_commit state))) (\<lambda>repo.
          io_bind (probing (WorkerProbe.worker_alive E (child_to_meta E child repo))) (\<lambda>alive.
          if alive then io_return True
          else if ss_intent state \<noteq> INTENT_RUN then io_bind clear_child (\<lambda>_. io_return True)
          else io_bind (handle_crash E state now) (\<lambda>_.
            io_bind (in_backoff now) (\<lambda>waiting. io_return (\<not> waiting))))))
    else io_bind (db_crash_blocks E now) (\<lambda>blocks.
      if blocks then io_return False
      else io_bind (maybe_reset_backoff E state now) (\<lambda>_. io_return True)))"

end
