(* ===== verification/SupervisorReady.thy ===== *)
theory SupervisorReady
  imports SupervisorLoop
begin

text \<open>
  \<open>src/lubko/supervisor.py\<close>: the readiness probe, with the evidence on which a live worker may be
  retired for its health, and the completion of a cold migration. \<open>Hooks\<close> are the steps of the daemon
  that the library does not model: the handoff to another supervisor version, the requests of the
  control socket that are answered while a probe waits, and the convergence of the startup files.
\<close>

record Hooks =
  hk_handoff :: "unit dm"
  hk_control :: "unit dm"
  hk_startup_artifacts :: "unit dm"

section \<open>Health of the exact worker\<close>

record EffectiveHealth =
  eh_live :: bool
  eh_stale :: bool
  eh_operational :: OperationalReadiness

definition MAX_STALENESS_SECONDS :: pyfloat where "MAX_STALENESS_SECONDS = FFin 10 0"

definition interpret_worker_health :: "Env \<Rightarrow> WorkerHealth \<Rightarrow> EffectiveHealth dm" where
  "interpret_worker_health E h =
    (let effective = (\<lambda>live stale. io_return \<lparr>eh_live = live, eh_stale = stale,
        eh_operational = interpret_operational_readiness h\<rparr>) in
     if \<not> is_finite (wh_published_at h) then effective False True
     else io_bind time_time (\<lambda>now.
       if float_less now (wh_published_at h) then effective False True
       else if float_less MAX_STALENESS_SECONDS (float_sub now (wh_published_at h)) then effective False True
       else if wh_pid h \<le> 0 then effective False False
       else io_bind (probing (pinned_snapshot_process_live E h)) (\<lambda>live. effective live False)))"

definition read_health :: "Env \<Rightarrow> pystr \<Rightarrow> WorkerHealth option dm" where
  "read_health E token = io_bind (ask (\<lambda>t. read_worker_health_by_incarnation (e_health E t) token)) io_lift"

definition snapshot_of_child :: "WorkerHealth \<Rightarrow> WorkerChild \<Rightarrow> bool" where
  "snapshot_of_child h child \<longleftrightarrow> wh_pid h = wc_pid child
     \<and> wh_start_time_ticks h = wc_start_time_ticks child \<and> wh_worker_incarnation h = wc_token child"

definition check_worker_health :: "Env \<Rightarrow> WorkerChild \<Rightarrow> bool dm" where
  "check_worker_health E child = io_bind (read_health E (wc_token child)) (\<lambda>snapshot. case snapshot of
      None \<Rightarrow> io_return False
    | Some h \<Rightarrow> if \<not> snapshot_of_child h child then io_return False
        else io_bind (interpret_worker_health E h) (\<lambda>eff.
          io_return (eh_live eff \<and> or_ready (eh_operational eff))))"

definition worker_health_proves_immediate_safety_breach :: "Env \<Rightarrow> WorkerChild \<Rightarrow> bool dm" where
  "worker_health_proves_immediate_safety_breach E child =
    io_bind (read_health E (wc_token child)) (\<lambda>snapshot. case snapshot of
      None \<Rightarrow> io_return False
    | Some h \<Rightarrow> if \<not> snapshot_of_child h child then io_return False
        else io_bind (interpret_worker_health E h) (\<lambda>eff.
          io_return (eh_live eff \<and> or_lease_safety_negative (eh_operational eff))))"

section \<open>Evidence of absent progress\<close>

definition note_progress ::
    "WorkerChild \<Rightarrow> QueueConsumption \<Rightarrow> pyfloat \<Rightarrow> NoProgressEvidence option \<Rightarrow> NoProgressEvidence option" where
  "note_progress child consumption now noted = (case consumption of
      CONSUMED \<Rightarrow> None
    | INDETERMINATE \<Rightarrow> noted
    | NOT_CONSUMED \<Rightarrow> (case noted of
        None \<Rightarrow> Some \<lparr>np_token = wc_token child, np_first_observed_at = now, np_consecutive_probes = 1\<rparr>
      | Some ev \<Rightarrow> Some (ev\<lparr>np_consecutive_probes := np_consecutive_probes ev + 1\<rparr>)))"

definition no_progress_evidence_confirms ::
    "Settings \<Rightarrow> WorkerChild \<Rightarrow> pyfloat \<Rightarrow> NoProgressEvidence option \<Rightarrow> bool" where
  "no_progress_evidence_confirms c child now noted = (case noted of
      None \<Rightarrow> False
    | Some ev \<Rightarrow>
        if np_token ev \<noteq> wc_token child then False
        else if np_consecutive_probes ev < se_no_progress_required_probes c then False
        else float_le (se_no_progress_grace c) (float_sub now (np_first_observed_at ev)))"

definition reset_forward_progress_evidence :: "unit dm" where
  "reset_forward_progress_evidence = io_do (\<lambda>s. s\<lparr>d_no_progress := None\<rparr>)"

definition record_health_retirement :: "Env \<Rightarrow> pyfloat \<Rightarrow> unit dm" where
  "record_health_retirement E now = io_bind (io_read read_state) (\<lambda>state.
     io_bind (io_lift (backoff_seconds E (ss_restart_count state + 1))) (\<lambda>backoff.
     io_bind (write_state_authority_safe (state\<lparr>ss_restart_count := ss_restart_count state + 1,
         ss_next_attempt_at := Some (float_add now backoff), ss_intent := INTENT_RUN, ss_ready := False,
         ss_next_readiness_at := None\<rparr>)) (\<lambda>written.
     if \<not> written then io_return ()
     else io_bind (io_do (\<lambda>s. s\<lparr>d_proc := None\<rparr>)) (\<lambda>_. reset_forward_progress_evidence))))"

definition retire_child_for_safety :: "Env \<Rightarrow> unit dm" where
  "retire_child_for_safety E = io_bind reset_forward_progress_evidence (\<lambda>_.
     io_bind (retire_child E False) (\<lambda>_. io_return ()))"

definition retire_child_for_absent_forward_progress :: "Env \<Rightarrow> pyfloat \<Rightarrow> unit dm" where
  "retire_child_for_absent_forward_progress E now = io_bind (retire_child E False) (\<lambda>retired.
     if \<not> retired then io_return () else record_health_retirement E now)"

definition record_not_ready :: "Env \<Rightarrow> SupervisorState \<Rightarrow> pyfloat \<Rightarrow> unit dm" where
  "record_not_ready E state now = io_bind (write_state_authority_safe (state\<lparr>ss_ready := False,
       ss_next_readiness_at := Some (float_add now (se_readiness_interval (e_settings E)))\<rparr>))
     (\<lambda>_. io_return ())"

section \<open>The readiness probe\<close>

definition check_readiness :: "Env \<Rightarrow> Hooks \<Rightarrow> WorkerChild \<Rightarrow> pystr \<Rightarrow> (bool \<times> QueueConsumption) dm" where
  "check_readiness E H child probe_cwd = io_bind (hk_control H) (\<lambda>_.
     io_bind (ask (\<lambda>t. e_consumes E t child probe_cwd)) (\<lambda>outcome.
     io_bind (io_lift outcome) (\<lambda>consumption.
     if consumption \<noteq> CONSUMED then io_return (False, consumption)
     else io_bind (check_worker_health E child) (\<lambda>healthy. io_return (healthy, consumption)))))"

text \<open>The probe of a worker already declared ready, and of one that is not.\<close>

definition check_ready_worker :: "Env \<Rightarrow> SupervisorState \<Rightarrow> WorkerChild \<Rightarrow> pyfloat \<Rightarrow> unit dm" where
  "check_ready_worker E state child now = io_bind (check_worker_health E child) (\<lambda>healthy.
     if healthy then reset_forward_progress_evidence
     else io_bind (worker_health_proves_immediate_safety_breach E child) (\<lambda>breach.
       if breach then retire_child_for_safety E
       else io_bind (io_get (\<lambda>s. no_progress_evidence_confirms (e_settings E) child now (d_no_progress s))) (\<lambda>confirmed.
         if confirmed then retire_child_for_absent_forward_progress E now
         else record_not_ready E state now)))"

definition probe_unready_worker :: "Env \<Rightarrow> Hooks \<Rightarrow> SupervisorState \<Rightarrow> WorkerChild \<Rightarrow> pyfloat \<Rightarrow> unit dm" where
  "probe_unready_worker E H state child now = io_bind (io_lift (runtime_dir E (ss_commit state))) (\<lambda>probe_cwd.
     io_bind (check_readiness E H child probe_cwd) (\<lambda>(ready, consumption).
     io_bind (io_do (\<lambda>s. s\<lparr>d_no_progress := note_progress child consumption now (d_no_progress s)\<rparr>)) (\<lambda>_.
     io_bind (io_get (\<lambda>s. no_progress_evidence_confirms (e_settings E) child now (d_no_progress s))) (\<lambda>confirmed.
     if confirmed then retire_child_for_absent_forward_progress E now
     else if \<not> ready then record_not_ready E state now
     else io_bind (write_state_authority_safe (state\<lparr>ss_ready := True, ss_next_readiness_at := None\<rparr>)) (\<lambda>_.
       io_return ())))))"

text \<open>
  After a successful probe the code also moves the stable symlinks and prunes old evidence (\<open>Health\<close>);
  neither is read by a decision of the daemon.
\<close>

definition probe_readiness :: "Env \<Rightarrow> Hooks \<Rightarrow> pyfloat \<Rightarrow> unit dm" where
  "probe_readiness E H now = io_bind (io_read read_state) (\<lambda>state. case ss_child state of
      None \<Rightarrow> io_return ()
    | Some child \<Rightarrow> io_bind (recorded_child_alive E state) (\<lambda>alive. if \<not> alive then io_return ()
        else io_bind (io_do (\<lambda>s. if \<exists>ev. d_no_progress s = Some ev \<and> np_token ev \<noteq> wc_token child
            then s\<lparr>d_no_progress := None\<rparr> else s)) (\<lambda>_.
          if ss_ready state then check_ready_worker E state child now
          else if (case ss_next_readiness_at state of None \<Rightarrow> False | Some t \<Rightarrow> float_less now t) then io_return ()
          else probe_unready_worker E H state child now)))"

section \<open>Cold migration\<close>

definition complete_cold_migration_locked :: "Env \<Rightarrow> SupervisorDesired \<Rightarrow> unit dm" where
  "complete_cold_migration_locked E desired = io_bind (io_get read_desired_strict) (\<lambda>desired_read. case desired_read of
      Inl e \<Rightarrow> if is_intent_error e then io_return () else io_raise e
    | Inr current \<Rightarrow>
        if (case current of None \<Rightarrow> True | Some d \<Rightarrow> \<not> sd_migration d
            \<or> sd_generation d \<noteq> sd_generation desired \<or> sd_commit d \<noteq> sd_commit desired) then io_return ()
        else io_bind (io_get (\<lambda>s. SuperviseStore.read_rollback_state (f_mission s))) (\<lambda>mission_read. case mission_read of
            Inl e \<Rightarrow> if is_mission_error e then io_return () else io_raise e
          | Inr mission \<Rightarrow>
              if (case mission of None \<Rightarrow> False | Some m \<Rightarrow> rs_generation m > sd_generation desired)
              then io_bind (clear_migration_flag (sd_generation desired)) (\<lambda>_. io_return ())
              else io_bind (io_read read_state) (\<lambda>state.
                if \<not> ss_ready state \<or> ss_applied_generation state < sd_generation desired
                  \<or> ss_commit state \<noteq> Some (sd_commit desired) then io_return ()
                else io_bind (ask (e_builder E)) (\<lambda>builder.
                  io_bind (io_catch (io_bind (ask_cli E (build_cli_root builder (sd_commit desired))) (\<lambda>_. io_return True))
                    (\<lambda>e. if is_cli_error e then io_return False else io_raise e)) (\<lambda>built.
                  if \<not> built then io_return ()
                  else io_bind (ask_cli E (io_get current_commit)) (\<lambda>confirmed.
                    io_bind (if confirmed = Some (sd_commit desired) then io_return True
                      else io_bind (ask (e_link E)) (\<lambda>outcome.
                        io_catch (io_bind (ask_cli E (set_current outcome (sd_commit desired))) (\<lambda>_. io_return True))
                          (\<lambda>e. if is_cli_error e then io_return False else io_raise e))) (\<lambda>activated.
                    if \<not> activated then io_return ()
                    else io_bind (remove_durable_file (\<lambda>v s. s\<lparr>f_mission := v\<rparr>)) (\<lambda>_.
                      io_bind (clear_migration_flag (sd_generation desired)) (\<lambda>_. io_return ())))))))))"

definition complete_cold_migration :: "Env \<Rightarrow> unit dm" where
  "complete_cold_migration E = io_bind (io_get read_desired_strict) (\<lambda>desired_read. case desired_read of
      Inl e \<Rightarrow> if is_intent_error e then io_return () else io_raise e
    | Inr desired \<Rightarrow> (case desired of
        None \<Rightarrow> io_return ()
      | Some d \<Rightarrow> if \<not> sd_migration d then io_return ()
          else io_catch (under_lock LockTimeoutError (complete_cold_migration_locked E d))
            (\<lambda>e. if e = LockTimeoutError \<or> e = GenerationLockTimeoutError then io_return () else io_raise e)))"

section \<open>Specification vocabulary\<close>

definition observe_all :: "WorkerChild \<Rightarrow> (QueueConsumption \<times> pyfloat) list \<Rightarrow> NoProgressEvidence option" where
  "observe_all child obs = fold (\<lambda>(c, now). note_progress child c now) obs None"

text \<open>The conclusive failures since progress was last seen, the latest first.\<close>

definition misses :: "(QueueConsumption \<times> pyfloat) list \<Rightarrow> pyfloat list" where
  "misses obs = map snd (filter (\<lambda>(c, _). c = NOT_CONSUMED) (takeWhile (\<lambda>(c, _). c \<noteq> CONSUMED) (rev obs)))"

definition sample_settings :: Settings where
  "sample_settings = \<lparr>se_poll_interval = FFin 1 0, se_backoff_base = FFin 1 0, se_backoff_max = FFin 60 0,
     se_stable_window = FFin 30 0, se_stop_grace = FFin 10 0, se_identity_timeout = FFin 5 0,
     se_postgres_timeout = FFin 5 0, se_lock_timeout = FFin 5 0, se_probe_timeout = FFin 5 0,
     se_readiness_interval = FFin 5 0, se_no_progress_grace = FFin 60 0, se_no_progress_required_probes = 3\<rparr>"

definition sample_env :: Env where
  "sample_env = \<lparr>
    k_procs = k_procs (lasting_host 10), k_listing = k_listing (lasting_host 10), k_pin_error = (\<lambda>_. False),
    k_send_error = (\<lambda>_. False), k_monotonic = int,
    h_getpgid = (\<lambda>_ _. Some 10), h_getsid = (\<lambda>_ _. Some 10), h_status = (\<lambda>_ _. None), h_getpid = 1,
    ws_monotonic = (\<lambda>t. FFin (int t) 0), ws_sentinel = (\<lambda>_ _. None), ws_failpoints = Map.empty, ws_fuel = 100,
    e_settings = sample_settings, e_poll = (\<lambda>_ _. None), e_wait = (\<lambda>_ _. True), e_waitpid = (\<lambda>_ _. True),
    e_popen = (\<lambda>_. Some 10), e_random_bytes = (\<lambda>_. replicate 16 7), e_boot_id_file = (\<lambda>_. None),
    e_pdeathsig = True, e_worker_id = lit ''w'', e_reclaim = (\<lambda>_ _. None), e_cli = (\<lambda>_ c. c),
    e_builder = (\<lambda>_. \<lparr>b_archive = (\<lambda>_. None), b_sync = (\<lambda>_. None)\<rparr>), e_link = (\<lambda>_. Switched),
    e_health = (\<lambda>_ _. Missing), e_consumes = (\<lambda>_ _ _. Ok NOT_CONSUMED), e_cli_root_dir = lit ''/cli'',
    e_log_path = id, e_others = (\<lambda>_ db. db), e_db = (\<lambda>_. AuthorityDb.quiet), e_connect = (\<lambda>_. None)\<rparr>"

section \<open>Sustained absence of progress\<close>

lemma misses_snoc: "misses (obs @ [(c, now)]) = (case c of CONSUMED \<Rightarrow> [] | NOT_CONSUMED \<Rightarrow> now # misses obs | INDETERMINATE \<Rightarrow> misses obs)"
  by (simp add: misses_def split: QueueConsumption.split)

lemma observe_all_misses:
  "observe_all child obs = (if misses obs = [] then None else Some \<lparr>np_token = wc_token child,
     np_first_observed_at = last (misses obs), np_consecutive_probes = int (length (misses obs))\<rparr>)"
proof (induction obs rule: rev_induct)
  case (snoc x obs)
  obtain c now where x: "x = (c, now)" by fastforce
  have "observe_all child (obs @ [x]) = note_progress child c now (observe_all child obs)"
    by (simp add: observe_all_def x)
  with snoc show ?case
    by (cases c) (simp_all add: x misses_snoc note_progress_def)
qed (simp add: observe_all_def misses_def)

text \<open>C11. For every sequence of probe outcomes of one worker, the evidence the daemon keeps justifies a
  retirement exactly when the required number of conclusive failures followed the last consumed
  probe, the first of them at least the grace period ago. Probes that could not be performed count
  neither for nor against, and one consumed probe forgets all earlier failures.\<close>

theorem no_progress_is_sustained_absence:
  "no_progress_evidence_confirms c child now (observe_all child obs) \<longleftrightarrow>
     misses obs \<noteq> [] \<and> se_no_progress_required_probes c \<le> int (length (misses obs))
     \<and> float_le (se_no_progress_grace c) (float_sub now (last (misses obs)))"
  by (auto simp: no_progress_evidence_confirms_def observe_all_misses)

section \<open>Backoff\<close>

lemma settings_finite:
  "settings_post_init c = Ok () \<Longrightarrow> is_finite (se_backoff_base c) \<and> is_finite (se_backoff_max c)"
  unfolding settings_post_init_def by (elim guardE) simp

lemma round_dyadic_number: "round_dyadic x y \<noteq> FNaN"
proof -
  have number: "(if c then FInf neg else FFin a e) \<noteq> FNaN" for c neg a e by simp
  have "round_ratio neg n d \<noteq> FNaN" for neg n d
    unfolding round_ratio_def Let_def case_prod_beta by (rule number)
  then show ?thesis by (simp add: round_dyadic_def float_zero_def)
qed

lemma float_min_bounded: "x \<noteq> FNaN \<Longrightarrow> is_finite y \<Longrightarrow> float_le (float_min x y) y"
  using float_min_le [of x y] float_le_refl [of y]
  by (cases x) (auto simp: float_min_def is_finite_def float_less_def float_le_def split: pyfloat.splits)

text \<open>C26. With settings that pass their check, the delay before a restart is at most the configured
  maximum for the first 1024 consecutive failures; from failure 1025 on computing it raises
  OverflowError, so the crash of the worker is never recorded and no worker is started.\<close>

theorem backoff_bounded_then_raises:
  assumes "settings_post_init (e_settings E) = Ok ()"
  shows "(n \<le> 1024 \<longrightarrow> (\<exists>x. backoff_seconds E n = Ok x \<and> float_le x (se_backoff_max (e_settings E))))
    \<and> (1025 \<le> n \<longrightarrow> backoff_seconds E n = Inl OverflowError)"
proof (intro conjI impI)
  let ?c = "e_settings E"
  obtain b f where base: "se_backoff_base ?c = FFin b f" and fin: "is_finite (se_backoff_max ?c)"
    using settings_finite [OF assms] by (auto simp: is_finite_iff)
  assume "n \<le> 1024"
  then have "float_pow2 (max 0 (n - 1)) = Ok (FFin 1 (max 0 (n - 1)))" by (simp add: float_pow2_def)
  with base round_dyadic_number show "\<exists>x. backoff_seconds E n = Ok x \<and> float_le x (se_backoff_max ?c)"
    by (simp add: backoff_seconds_def float_mul_def float_min_bounded [OF _ fin])
next
  assume "1025 \<le> n"
  then show "backoff_seconds E n = Inl OverflowError" by (simp add: backoff_seconds_def float_pow2_def)
qed

theorem backoff_bounded_then_raises_witness:
  "(\<exists>x. backoff_seconds sample_env 100 = Ok x \<and> float_le x (FFin 60 0)) \<and> backoff_seconds sample_env 1025 = Inl OverflowError"
proof -
  have "settings_post_init (e_settings sample_env) = Ok ()" "se_backoff_max (e_settings sample_env) = FFin 60 0"
    by (simp_all add: sample_env_def sample_settings_def settings_post_init_def is_finite_def float_le_def float_less_def
        float_zero_def mantissa_at_def)
  then show ?thesis
    using backoff_bounded_then_raises [of sample_env 100] backoff_bounded_then_raises [of sample_env 1025] by simp
qed

end
