(* ===== verification/SupervisorTurn.thy ===== *)
theory SupervisorTurn
  imports SupervisorReady
begin

text \<open>
  \<open>src/lubko/supervisor.py\<close>: one reconciliation, the step the daemon repeats, and its life from the claim to the shutdown. The steps of it that the
  library does not model are arguments, \<open>Hooks\<close>.
\<close>

definition reconcile :: "Env \<Rightarrow> Hooks \<Rightarrow> pyfloat \<Rightarrow> unit dm" where
  "reconcile E H now =
    io_bind promote_pending_request (\<lambda>_.
    io_bind (io_read read_state) (\<lambda>state.
    if ss_ownership_hold_malformed state then io_bind (write_state_authority_safe state) (\<lambda>_. io_return ())
    else io_bind (hk_handoff H) (\<lambda>_.
      io_bind (derive_action E) (\<lambda>(run, commit).
      io_bind (if run then apply_newer_desired E state commit else io_return False) (\<lambda>applied.
      if applied then io_return ()
      else io_bind (reconcile_child E state now) (\<lambda>proceed.
        if \<not> proceed then io_return ()
        else if \<not> run then ensure_held E
        else io_bind (in_backoff now) (\<lambda>waiting.
          if waiting then io_return ()
          else (case commit of
              None \<Rightarrow> io_return ()
            | Some c \<Rightarrow> io_bind (ensure_worker E c) (\<lambda>_.
                io_bind (record_mission_progress E c) (\<lambda>_.
                io_bind (probe_readiness E H now) (\<lambda>_.
                io_bind (complete_cold_migration E) (\<lambda>_. hk_startup_artifacts H))))))))))))"

section \<open>The life of the daemon\<close>

text \<open>
  \<open>run\<close> from the moment the claim is established: the daemon's own commit is recorded, the state of an
  earlier boot is normalised, each tick answers the waiting requests and reconciles, with every
  exception of a reconciliation logged and dropped, and the shutdown converges what it can. The number
  of ticks until the stop signal is an argument; the status and pid files are left out.
\<close>

definition persist_runtime_commit :: "pystr option \<Rightarrow> unit dm" where
  "persist_runtime_commit runtime_commit = io_bind (io_read read_state) (\<lambda>state.
     if ss_supervisor_runtime_commit state = runtime_commit then io_return ()
     else write_state_preserving_authority (state\<lparr>ss_supervisor_runtime_commit := runtime_commit\<rparr>))"

definition tick :: "Env \<Rightarrow> Hooks \<Rightarrow> unit dm" where
  "tick E H = io_bind (hk_control H) (\<lambda>_. io_bind (monotonic_now E) (\<lambda>now.
     io_catch (reconcile E H now) (\<lambda>_. io_return ())))"

fun run_ticks :: "nat \<Rightarrow> Env \<Rightarrow> Hooks \<Rightarrow> unit dm" where
  "run_ticks 0 E H = io_return ()"
| "run_ticks (Suc n) E H = io_bind (tick E H) (\<lambda>_. run_ticks n E H)"

definition retire_published_worker :: "Env \<Rightarrow> unit dm" where
  "retire_published_worker E = io_bind (read_worker_authority E) (\<lambda>(ok, published).
     case published of
       None \<Rightarrow> io_return ()
     | Some r \<Rightarrow> io_when ok (io_bind (retire_db_worker E r) (\<lambda>_. io_return ())))"

definition shutdown_locked :: "Env \<Rightarrow> unit dm" where
  "shutdown_locked E = io_bind (io_read read_state) (\<lambda>state.
     io_bind (if ss_child state \<noteq> None then retire_child E True else io_return True) (\<lambda>_.
     io_bind (retire_published_worker E) (\<lambda>_.
     io_bind (resolve_spawning_obligation E) (\<lambda>_.
     io_bind (resolve_unresolved_child E) (\<lambda>_. io_return ())))))"

definition shutdown :: "Env \<Rightarrow> unit dm" where
  "shutdown E = io_catch (under_lock ConsumerLockTimeoutError (shutdown_locked E))
     (\<lambda>e. if e = ConsumerLockTimeoutError then io_return () else io_raise e)"

definition run_daemon :: "Env \<Rightarrow> Hooks \<Rightarrow> pystr option \<Rightarrow> nat \<Rightarrow> unit dm" where
  "run_daemon E H runtime_commit ticks =
    io_bind (persist_runtime_commit runtime_commit) (\<lambda>_.
    io_bind (normalize_cross_boot_state E) (\<lambda>_.
    io_bind (run_ticks ticks E H) (\<lambda>_. shutdown E)))"

end
