(* ===== verification/Generations.thy ===== *)
theory Generations
  imports SuperviseStore
begin

text \<open>
  What the requests of \<open>SuperviseStore\<close> do to the durable authority: generations are handed out
  strictly increasing, run intents are stored exactly, blocking authority survives every write outside
  the consumer lock, and install requests never replace authority. The two locales state what makes a
  counter monotone and which relations between stores every computation keeps; both are interpreted on
  the requests of the control socket.
\<close>

section \<open>Specification vocabulary\<close>

text \<open>The files generations are read from, with the token that reaches them.\<close>

definition same_authority :: "'z store_scheme \<Rightarrow> 'z store_scheme \<Rightarrow> bool" where
  "same_authority s s' \<longleftrightarrow> f_token s' = f_token s \<and> f_state s' = f_state s \<and> f_desired s' = f_desired s
     \<and> f_mission s' = f_mission s \<and> f_reserved s' = f_reserved s"

definition clock_ok :: "'z store_scheme \<Rightarrow> bool" where
  "clock_ok s \<longleftrightarrow> list_all wf_time (f_clock s)"

datatype transition = Deploy dict | Reserve | EnsureRun dict | SetSpawning dict | ClearSpawning
  | ClearMigration int | Promote

definition granted :: "dict res \<Rightarrow> int option" where
  "granted r = (case r of Inr d \<Rightarrow> (case dict_get d ''generation'' of JInt g \<Rightarrow> Some g | _ \<Rightarrow> None) | _ \<Rightarrow> None)"

fun run_transition :: "transition \<Rightarrow> 'z store_scheme \<Rightarrow> int option \<times> 'z store_scheme" where
  "run_transition (Deploy p) s = (let (r, s') = handle_deploy_request p s in (granted r, s'))"
| "run_transition Reserve s = (let (r, s') = handle_allocate_generation s in (granted r, s'))"
| "run_transition (EnsureRun p) s = (None, snd (handle_ensure_run_intent p s))"
| "run_transition (SetSpawning p) s = (None, snd (handle_set_spawning_obligation p s))"
| "run_transition ClearSpawning s = (None, snd (handle_clear_spawning_obligation s))"
| "run_transition (ClearMigration g) s = (None, snd (clear_migration_flag g s))"
| "run_transition Promote s = (None, snd (promote_pending_request s))"

fun run_transitions :: "transition list \<Rightarrow> 'z store_scheme \<Rightarrow> int list \<times> 'z store_scheme" where
  "run_transitions [] s = ([], s)"
| "run_transitions (c # cs) s =
    (let (g, s1) = run_transition c s; (gs, s2) = run_transitions cs s1
     in ((case g of None \<Rightarrow> [] | Some x \<Rightarrow> [x]) @ gs, s2))"

definition desired_gen :: "SupervisorDesired option \<Rightarrow> int" where
  "desired_gen d = (case d of None \<Rightarrow> 0 | Some x \<Rightarrow> sd_generation x)"

definition advances :: "'z store_scheme \<Rightarrow> 'z store_scheme \<Rightarrow> bool" where
  "advances s s' \<longleftrightarrow> (clock_ok s \<longrightarrow> clock_ok s' \<and>
     (\<forall>n'. next_generation s' = Ok n' \<longrightarrow> (\<exists>n. next_generation s = Ok n \<and> n \<le> n')))"

text \<open>The answers of the functions that only read, on a store with nothing in it.\<close>

definition empty_store :: "pystr \<Rightarrow> store" where
  "empty_store token = \<lparr>f_desired = Missing, f_state = Missing, f_mission = Missing, f_reserved = Missing,
     f_pending = Missing, f_acks = (\<lambda>_. Missing), f_outcomes = [], f_locks = [], f_clock = [], f_token = token\<rparr>"

definition sample_token :: pystr where
  "sample_token = replicate 64 97"

definition sample_obligation :: SpawningObligation where
  "sample_obligation = \<lparr>sp_token = lit ''t'', sp_commit = lit ''c'', sp_creator_pid = 7,
     sp_creator_start_time_ticks = 8, sp_pid = None, sp_start_time_ticks = None, sp_created_at = float_zero,
     sp_boot_id = None, sp_parent_death_signal = True\<rparr>"

definition installs_only :: "'z store_scheme \<Rightarrow> 'z store_scheme \<Rightarrow> bool" where
  "installs_only s s' \<longleftrightarrow> f_token s' = f_token s \<and> f_state s' = f_state s \<and> f_mission s' = f_mission s
     \<and> f_reserved s' = f_reserved s
     \<and> (f_desired s' \<noteq> f_desired s \<longrightarrow> read_desired_strict s = Ok None \<and> f_mission s = Missing)"

section \<open>Counters that never go back\<close>

text \<open>
  What makes the generations handed out strictly increase: the next value can be read after a step
  only if it could be read before, a step never lowers it, and a step that hands a value out hands
  out the next one or more and leaves a larger next one.
\<close>

locale monotone_counter =
  fixes upcoming :: "'s \<Rightarrow> int res" and good :: "'s \<Rightarrow> bool"
    and step :: "'c \<Rightarrow> 's \<Rightarrow> int option \<times> 's"
    and steps :: "'c list \<Rightarrow> 's \<Rightarrow> int list \<times> 's"
  assumes keeps_good: "good s \<Longrightarrow> step c s = (r, s') \<Longrightarrow> good s'"
    and never_lowers: "good s \<Longrightarrow> step c s = (r, s') \<Longrightarrow> upcoming s' = Ok n' \<Longrightarrow>
      \<exists>n. upcoming s = Ok n \<and> n \<le> n'"
    and hands_out: "good s \<Longrightarrow> step c s = (Some g, s') \<Longrightarrow>
      (\<exists>n. upcoming s = Ok n \<and> n \<le> g) \<and> (\<forall>n'. upcoming s' = Ok n' \<longrightarrow> g < n')"
    and steps_Nil: "steps [] s = ([], s)"
    and steps_Cons: "steps (c # cs) s =
      (let (g, s1) = step c s; (gs, s2) = steps cs s1
       in ((case g of None \<Rightarrow> [] | Some x \<Rightarrow> [x]) @ gs, s2))"
begin

definition above :: "int \<Rightarrow> 's \<Rightarrow> bool" where
  "above b s \<longleftrightarrow> (\<forall>n. upcoming s = Ok n \<longrightarrow> b < n)"

lemma above_step: "good s \<Longrightarrow> step c s = (r, s') \<Longrightarrow> above b s \<Longrightarrow> above b s'"
  using never_lowers unfolding above_def by fastforce

lemma above_handed_out:
  assumes "good s" "step c s = (Some g, s')" "above b s"
  shows "b < g \<and> above g s'"
  using hands_out [OF assms(1,2)] assms(3) unfolding above_def by fastforce

lemma handed_out_increasing:
  "good s \<Longrightarrow> above b s \<Longrightarrow> steps cs s = (gs, s') \<Longrightarrow> sorted_wrt (<) (b # gs)"
proof (induction cs arbitrary: s b gs)
  case Nil
  then show ?case by (simp add: steps_Nil)
next
  case (Cons c cs)
  obtain r s1 where c: "step c s = (r, s1)" by fastforce
  obtain gs1 where cs: "steps cs s1 = (gs1, s')" and gs: "gs = (case r of None \<Rightarrow> [] | Some x \<Rightarrow> [x]) @ gs1"
    using Cons.prems(3) c by (auto simp: steps_Cons split: prod.splits)
  note IH = Cons.IH [OF keeps_good [OF Cons.prems(1) c] _ cs]
  show ?case
  proof (cases r)
    case None
    then show ?thesis using IH [OF above_step [OF Cons.prems(1) c Cons.prems(2)]] gs by simp
  next
    case (Some g)
    with above_handed_out [OF Cons.prems(1) _ Cons.prems(2)] c have "b < g" "above g s1" by auto
    then show ?thesis using IH [of g] gs Some by auto
  qed
qed

lemma handed_out_fresh:
  assumes "good s" "upcoming s = Ok n" "steps cs s = (gs, s')"
  shows "sorted_wrt (<) gs \<and> (\<forall>g\<in>set gs. n \<le> g)"
proof -
  have "above (n - 1) s" using assms(2) by (simp add: above_def)
  from handed_out_increasing [OF assms(1) this assms(3)] show ?thesis by auto
qed

end

section \<open>Effects of the writers\<close>

lemma same_authority_refl [simp]: "same_authority s s"
  by (simp add: same_authority_def)

lemma same_authority_trans: "same_authority s t \<Longrightarrow> same_authority t u \<Longrightarrow> same_authority s u"
  by (simp add: same_authority_def)

lemma same_authority_updates [simp]:
  "same_authority s (s\<lparr>f_outcomes := x\<rparr>)" "same_authority s (s\<lparr>f_locks := y\<rparr>)" "same_authority s (s\<lparr>f_clock := z\<rparr>)"
  "same_authority s (s\<lparr>f_pending := p\<rparr>)" "same_authority s (f_acks_update h s)"
  by (simp_all add: same_authority_def)

lemma same_authority_reads:
  "same_authority s s' \<Longrightarrow> supervisor_private_dir s' = supervisor_private_dir s"
  "same_authority s s' \<Longrightarrow> state_path s' = state_path s"
  "same_authority s s' \<Longrightarrow> read_state s' = read_state s"
  "same_authority s s' \<Longrightarrow> read_desired_strict s' = read_desired_strict s"
  "same_authority s s' \<Longrightarrow> reserved_generation s' = reserved_generation s"
  "same_authority s s' \<Longrightarrow> next_generation s' = next_generation s"
  by (simp_all add: same_authority_def supervisor_private_dir_def state_path_def read_state_def
      read_desired_strict_def reserved_generation_def next_generation_def)

lemma durable_put_cases:
  assumes "durable_put put new s = (r, s')"
  obtains (kept) "r = Raise (DurabilityError ''cannot durably write '')" "s' = s\<lparr>f_outcomes := tl (f_outcomes s)\<rparr>"
  | (stored) "s' = put new (s\<lparr>f_outcomes := tl (f_outcomes s)\<rparr>)"
      "r = Ok () \<or> r = Raise (DurabilityError ''cannot durably write '')"
  using assms by (auto simp: durable_put_def Let_def split: write_outcome.splits)

lemma under_lock_cases:
  assumes "under_lock timeout body s = (r, s')"
  obtains (refused) "r = Raise timeout \<or> r = Raise OSError" "s' = s\<lparr>f_locks := tl (f_locks s)\<rparr>"
  | (locked) "body (s\<lparr>f_locks := tl (f_locks s)\<rparr>) = (r, s')"
  using assms by (auto simp: under_lock_def Let_def split: lock_outcome.splits)

lemma relabel_durability_ends:
  assumes "relabel_durability msg m s = (r, s')"
  obtains r0 where "m s = (r0, s')" "\<And>x. r = Ok x \<longleftrightarrow> r0 = Ok x"
proof -
  obtain r0 t where m: "m s = (r0, t)" by fastforce
  show ?thesis
  proof (cases r0)
    case (Inl e)
    then show ?thesis using assms m that by (cases e) (auto simp: relabel_durability_def effect_defs)
  qed (use assms m that in \<open>auto simp: relabel_durability_def effect_defs\<close>)
qed

text \<open>Every authority write: the path is resolved, then the contents are kept or replaced.\<close>

lemma authority_write_cases:
  assumes "relabel_durability msg (io_bind (io_read path) (\<lambda>_. durable_put put new)) s = (r, s')"
  obtains (kept) "same_authority s s'" "f_clock s' = f_clock s" "r \<noteq> Ok ()"
  | (stored) "s' = put new (s\<lparr>f_outcomes := tl (f_outcomes s)\<rparr>)" "path s = Ok ()"
  using assms
  by (auto simp: effect_defs split: sum.splits elim!: relabel_durability_ends durable_put_cases)

lemma write_desired_cases:
  assumes "write_desired d s = (r, s')"
  obtains (kept) "same_authority s s'" "f_clock s' = f_clock s" "r \<noteq> Ok ()"
  | (stored) s1 where "same_authority s s1" "s' = s1\<lparr>f_desired := holding (desired_to_dict d)\<rparr>"
      "f_clock s' = f_clock s"
  by (rule authority_write_cases [OF assms [unfolded write_desired_def]])
    (use that(2) [of "s\<lparr>f_outcomes := tl (f_outcomes s)\<rparr>"] that(1) in auto)

lemma write_desired_ok:
  assumes "write_desired d s = (Ok (), s')"
  shows "f_desired s' = holding (desired_to_dict d)"
  using assms by (cases rule: write_desired_cases) simp_all

lemma load_desired_written: "wf_desired d \<Longrightarrow> load_desired (holding (desired_to_dict d)) = Ok (Some d)"
  by (simp add: load_desired_def holding_def read_text_def json_loads_def desired_round_trip wf_desired_def)

lemma load_desired_wf: "load_desired f = Ok (Some d) \<Longrightarrow> wf_desired d"
  by (auto simp: load_desired_def desired_from_dict_wf split: sum.splits pyerr.splits json.splits if_splits)

lemma next_generation_Ok:
  "next_generation s = Ok n \<longleftrightarrow> (\<exists>st d m v. read_state s = Ok st \<and> read_desired_strict s = Ok d
     \<and> mission_generation (f_mission s) = Ok m \<and> reserved_generation s = Ok v
     \<and> n = max (max (max (ss_applied_generation st) (desired_gen d)) m) v + 1)"
  by (auto simp: next_generation_def desired_gen_def)

lemma reads_after_desired [simp]:
  "supervisor_private_dir (s\<lparr>f_desired := x\<rparr>) = supervisor_private_dir s"
  "read_state (s\<lparr>f_desired := x\<rparr>) = read_state s"
  "reserved_generation (s\<lparr>f_desired := x\<rparr>) = reserved_generation s"
  "read_desired_strict (s\<lparr>f_desired := x\<rparr>) = ebind (supervisor_private_dir s) (\<lambda>_. load_desired x)"
  by (simp_all add: supervisor_private_dir_def read_state_def state_path_def reserved_generation_def
      read_desired_strict_def)

text \<open>Storing a readable intent whose generation is not below the present one never lowers the next.\<close>

lemma next_generation_new_desired:
  assumes "read_desired_strict s = Ok d" "wf_desired d'" "desired_gen d \<le> sd_generation d'"
    and "next_generation (s\<lparr>f_desired := holding (desired_to_dict d')\<rparr>) = Ok n'"
  shows "\<exists>n. next_generation s = Ok n \<and> n \<le> n' \<and> sd_generation d' < n'"
  using assms by (auto simp: next_generation_Ok load_desired_written desired_gen_def)

lemma advances_trans: "advances s t \<Longrightarrow> advances t u \<Longrightarrow> advances s u"
  unfolding advances_def by (meson order_trans)

lemma advances_same: "same_authority s s' \<Longrightarrow> f_clock s' = f_clock s \<Longrightarrow> advances s s'"
  by (simp add: advances_def clock_ok_def same_authority_reads)

lemma advances_refl [simp]: "advances s s"
  by (simp add: advances_same)

lemma time_time_effect:
  assumes "time_time s = (r, s')" "clock_ok s"
  shows "(\<exists>t. r = Ok t \<and> wf_time t) \<and> same_authority s s' \<and> clock_ok s'"
  using assms by (cases "f_clock s") (auto simp: time_time_def clock_ok_def)

lemma write_run_intent_cases:
  assumes "write_run_intent_locked commit repo uv wid rs mg s = (r, s')" and "clock_ok s"
  obtains (kept) "same_authority s s'" "clock_ok s'" "\<And>g. r \<noteq> Ok g"
  | (written) g t s1 where "next_generation s = Ok g" "wf_time t" "clock_ok s'" "same_authority s s1"
      "s' = s1\<lparr>f_desired := holding (desired_to_dict \<lparr>sd_schema_version = SCHEMA_VERSION, sd_generation = g,
        sd_commit = commit, sd_repo = repo, sd_uv_path = uv, sd_worker_id = wid, sd_restart = rs,
        sd_requested_at = t, sd_migration = mg\<rparr>)\<rparr>" "\<And>x. r = Ok x \<Longrightarrow> x = g"
proof (cases "next_generation s")
  case (Inl e)
  then show ?thesis using assms by (intro kept) (auto simp: write_run_intent_locked_def effect_defs)
next
  case (Inr g)
  obtain rt s1 where t: "time_time s = (rt, s1)" by fastforce
  from time_time_effect [OF t assms(2)] obtain now where now: "rt = Ok now" "wf_time now"
    and s1: "same_authority s s1" "clock_ok s1" by blast
  let ?d = "\<lparr>sd_schema_version = SCHEMA_VERSION, sd_generation = g, sd_commit = commit, sd_repo = repo,
    sd_uv_path = uv, sd_worker_id = wid, sd_restart = rs, sd_requested_at = now, sd_migration = mg\<rparr>"
  obtain rw s2 where w: "write_desired ?d s1 = (rw, s2)" by fastforce
  have r: "s' = s2" "r = (case rw of Inl e \<Rightarrow> Inl e | Inr _ \<Rightarrow> Ok g)"
    using assms(1) Inr t now(1) w
    by (auto simp: write_run_intent_locked_def effect_defs split: sum.splits)
  from w show ?thesis
  proof (cases rule: write_desired_cases)
    case kept
    then show ?thesis using r s1 that(1) same_authority_trans [OF s1(1)] by (auto simp: clock_ok_def split: sum.splits)
  next
    case (stored s3)
    show ?thesis
      by (rule that(2) [OF Inr now(2) _ same_authority_trans [OF s1(1) stored(1)]])
        (use stored r s1 in \<open>auto simp: clock_ok_def split: sum.splits\<close>)
  qed
qed

text \<open>A generation is never negative, so the next one is a valid generation of an intent.\<close>

lemma load_state_wf: "load_state f = Ok st \<Longrightarrow> wf_state st"
proof -
  have "wf_state fresh_state" "wf_state held_state"
    by (simp_all add: wf_state_def fresh_state_def held_state_def)
  then show "load_state f = Ok st \<Longrightarrow> wf_state st"
    by (auto simp: load_state_def dest: state_from_dict_wf split: sum.splits pyerr.splits json.splits if_splits)
qed

lemma read_state_wf: "read_state s = Ok st \<Longrightarrow> wf_state st"
  by (auto simp: read_state_def load_state_wf)

lemma next_generation_pos: "next_generation s = Ok n \<Longrightarrow> 0 < n"
  by (auto simp: next_generation_Ok max_def wf_state_def dest!: read_state_wf)

lemma write_run_intent_advances:
  assumes "write_run_intent_locked commit repo uv wid rs mg s = (r, s')" and "clock_ok s"
  shows "advances s s' \<and> (\<forall>g. r = Ok g \<longrightarrow>
    next_generation s = Ok g \<and> (\<forall>n'. next_generation s' = Ok n' \<longrightarrow> g < n'))"
  using assms
proof (cases rule: write_run_intent_cases)
  case kept
  then show ?thesis by (simp add: advances_def same_authority_reads)
next
  case (written g t s1)
  have n: "next_generation s1 = Ok g" using written same_authority_reads(6) by fastforce
  from n obtain d where d: "read_desired_strict s1 = Ok d" "desired_gen d \<le> g"
    by (auto simp: next_generation_Ok)
  have w: "wf_desired \<lparr>sd_schema_version = SCHEMA_VERSION, sd_generation = g,
        sd_commit = commit, sd_repo = repo, sd_uv_path = uv, sd_worker_id = wid, sd_restart = rs,
        sd_requested_at = t, sd_migration = mg\<rparr>"
    using next_generation_pos [OF n] written by (simp add: wf_desired_def)
  show ?thesis
    using next_generation_new_desired [OF d(1) w] d(2) written n
    by (auto simp: advances_def)
qed

lemma under_lock_advances:
  assumes "under_lock timeout body s = (r, s')" "\<And>t. body t = (r, s') \<Longrightarrow> advances t s'"
  shows "advances s s'"
  using assms(1)
proof (cases rule: under_lock_cases)
  case refused
  then show ?thesis by (simp add: advances_same)
next
  case locked
  show ?thesis
    by (rule advances_trans [OF advances_same assms(2) [OF locked]]) simp_all
qed

lemma answering_ends:
  assumes "answering why m s = (r, s')"
  obtains r0 where "m s = (r0, s')" "r = (case r0 of Inl e \<Rightarrow> Ok (response_error (why e)) | Inr x \<Rightarrow> Ok x)"
  using assms by (auto simp: answering_def effect_defs split: prod.splits sum.splits)

lemma granted_simps [simp]:
  "granted (Ok (response_error e)) = None" "granted (Ok (response_ok [(lit ''generation'', JInt g)])) = Some g"
  "granted (Inl x) = None"
  by (simp_all add: granted_def response_error_def response_ok_def json_simps)

subsection \<open>Run intents\<close>

lemma request_run_advances:
  assumes "request_run commit repo uv wid rs mg s = (r, s')" "clock_ok s"
  shows "advances s s' \<and> (\<forall>g. r = Ok g \<longrightarrow>
    next_generation s = Ok g \<and> (\<forall>n'. next_generation s' = Ok n' \<longrightarrow> g < n'))"
  using assms(1) unfolding request_run_def
proof (cases rule: under_lock_cases)
  case refused
  then show ?thesis by (auto simp: advances_same)
next
  case locked
  have c: "clock_ok (s\<lparr>f_locks := tl (f_locks s)\<rparr>)" using assms(2) by (simp add: clock_ok_def)
  have n: "next_generation (s\<lparr>f_locks := tl (f_locks s)\<rparr>) = next_generation s"
    by (rule same_authority_reads) simp
  show ?thesis
    using write_run_intent_advances [OF locked c] n advances_trans [OF advances_same [of s "s\<lparr>f_locks := tl (f_locks s)\<rparr>"]]
    by auto
qed

lemma deploy_ends:
  assumes "handle_deploy_request p s = (r, s')"
  obtains (ignored) "s' = s" "granted r = None"
  | (run) commit repo uv wid rs mg q where "request_run commit repo uv wid rs mg s = (q, s')"
      "granted r = (case q of Inl _ \<Rightarrow> None | Inr g \<Rightarrow> Some g)"
proof -
  have "(s' = s \<and> granted r = None) \<or> (\<exists>commit repo uv wid rs mg q. request_run commit repo uv wid rs mg s = (q, s')
      \<and> granted r = (case q of Inl _ \<Rightarrow> None | Inr g \<Rightarrow> Some g))"
  proof (cases "\<exists>commit repo uv rs mg. dict_get p ''commit'' = JStr commit \<and> commit \<noteq> [] \<and> dict_default p ''repo'' (JStr []) = JStr repo
      \<and> dict_default p ''uv_path'' (JStr []) = JStr uv \<and> dict_default p ''restart'' (JBool False) = JBool rs
      \<and> dict_default p ''migration'' (JBool False) = JBool mg")
    case True
    then obtain commit repo uv rs mg where e: "dict_get p ''commit'' = JStr commit" "commit \<noteq> []"
      "dict_default p ''repo'' (JStr []) = JStr repo"
      "dict_default p ''uv_path'' (JStr []) = JStr uv" "dict_default p ''restart'' (JBool False) = JBool rs"
      "dict_default p ''migration'' (JBool False) = JBool mg" by blast
    obtain q where "request_run commit repo uv (optional_string (dict_get p ''worker_id'')) rs mg s = (q, s')"
        "granted r = (case q of Inl _ \<Rightarrow> None | Inr g \<Rightarrow> Some g)"
      using assms e(2) unfolding handle_deploy_request_def e prod.case json.case
      by (auto simp: effect_defs elim!: answering_ends split: prod.splits sum.splits)
    then show ?thesis by blast
  next
    case False
    then show ?thesis
      using assms unfolding handle_deploy_request_def
      by (auto simp: io_return_def split: json.splits if_splits)
  qed
  then show ?thesis using that by blast
qed

lemma clear_migration_advances:
  assumes "clear_migration_flag g s = (r, s')"
  shows "advances s s'"
  using assms unfolding clear_migration_flag_def
proof (rule under_lock_advances)
  fix t
  assume b: "(io_bind (io_read read_desired) (\<lambda>current. case current of None \<Rightarrow> io_return False
      | Some d \<Rightarrow> if \<not> sd_migration d \<or> sd_generation d \<noteq> g then io_return False
          else io_bind (write_desired (d\<lparr>sd_migration := False\<rparr>)) (\<lambda>_. io_return True))) t = (r, s')"
  show "advances t s'"
  proof (cases "\<exists>d. read_desired t = Ok (Some d) \<and> sd_migration d \<and> sd_generation d = g")
    case False
    then have "s' = t" using b by (auto simp: effect_defs split: sum.splits option.splits if_splits)
    then show ?thesis by simp
  next
    case True
    then obtain d where d: "read_desired t = Ok (Some d)" "sd_migration d" "sd_generation d = g" by blast
    obtain q where w: "write_desired (d\<lparr>sd_migration := False\<rparr>) t = (q, s')"
      using b d by (auto simp: effect_defs split: sum.splits prod.splits)
    have r: "read_desired_strict t = Ok (Some d)"
      using d(1) by (auto simp: read_desired_def split: sum.splits pyerr.splits)
    have wf: "wf_desired (d\<lparr>sd_migration := False\<rparr>)"
      using r load_desired_wf by (auto simp: read_desired_strict_def wf_desired_def)
    from w show ?thesis
    proof (cases rule: write_desired_cases)
      case kept
      then show ?thesis by (simp add: advances_same)
    next
      case (stored s1)
      have r1: "read_desired_strict s1 = Ok (Some d)" using r stored same_authority_reads(4) by fastforce
      have "next_generation s1 = next_generation t" using stored same_authority_reads(6) by fastforce
      with next_generation_new_desired [OF r1 wf] stored show ?thesis
        by (auto simp: advances_def clock_ok_def desired_gen_def)
    qed
  qed
qed

subsection \<open>Reservations\<close>

lemma next_generation_reserved:
  assumes "next_generation s = Ok g" "supervisor_private_dir s = Ok ()"
    and "next_generation (s\<lparr>f_reserved := holding [(lit ''generation'', JInt g)]\<rparr>) = Ok n'"
  shows "g < n'"
proof -
  have "load_reserved (holding [(lit ''generation'', JInt g)]) = Ok g"
    using next_generation_pos [OF assms(1)]
    by (simp add: load_reserved_def holding_def read_text_def json_loads_def json_simps)
  then show ?thesis
    using assms(2,3) by (auto simp: next_generation_Ok reserved_generation_def supervisor_private_dir_def)
qed

lemma allocate_ends:
  assumes "handle_allocate_generation s = (r, s')"
  shows "advances s s' \<and> (\<forall>g. granted r = Some g \<longrightarrow>
    next_generation s = Ok g \<and> (\<forall>n'. next_generation s' = Ok n' \<longrightarrow> g < n'))"
proof -
  let ?body = "io_bind (io_read next_generation) (\<lambda>generation.
         io_bind (io_bind (io_read supervisor_private_dir) (\<lambda>_. durable_put put_reserved
            (holding [(lit ''generation'', JInt generation)]))) (\<lambda>_.
           io_return (response_ok [(lit ''generation'', JInt generation)])))"
  obtain r0 where u: "under_lock GenerationLockTimeoutError ?body s = (r0, s')"
      and r: "granted r = granted r0"
    using assms unfolding handle_allocate_generation_def
    by (elim answering_ends) (auto split: sum.splits)
  show ?thesis
    using u
  proof (cases rule: under_lock_cases)
    case refused
    then show ?thesis using r by (auto simp: advances_same)
  next
    case locked
    let ?t = "s\<lparr>f_locks := tl (f_locks s)\<rparr>"
    have n: "next_generation ?t = next_generation s" by (rule same_authority_reads) simp
    show ?thesis
    proof (cases "next_generation ?t = Inl (projl (next_generation ?t)) \<or> supervisor_private_dir ?t \<noteq> Ok ()")
      case True
      then have "s' = ?t" "granted r0 = None"
        using locked by (cases "next_generation ?t"; cases "supervisor_private_dir ?t"; auto simp: effect_defs)+
      then show ?thesis using r by (auto simp: advances_same)
    next
      case False
      then obtain g where g: "next_generation ?t = Ok g" and p: "supervisor_private_dir ?t = Ok ()"
        by (cases "next_generation ?t") auto
      obtain q where w: "durable_put put_reserved (holding [(lit ''generation'', JInt g)]) ?t = (q, s')"
          and q: "r0 = (case q of Inl e \<Rightarrow> Inl e | Inr _ \<Rightarrow> Ok (response_ok [(lit ''generation'', JInt g)]))"
        using locked g p by (auto simp: effect_defs split: sum.splits prod.splits)
      let ?u = "?t\<lparr>f_outcomes := tl (f_outcomes ?t)\<rparr>"
      have nu: "next_generation ?u = Ok g" "supervisor_private_dir ?u = Ok ()"
        using g p same_authority_reads(6) [of ?t ?u] same_authority_reads(1) [of ?t ?u] by auto
      from w show ?thesis
      proof (cases rule: durable_put_cases)
        case kept
        have "advances s s'" by (rule advances_same) (use kept in \<open>simp_all add: same_authority_def\<close>)
        then show ?thesis using r q kept by simp
      next
        case stored
        have "n' > g" if "next_generation s' = Ok n'" for n'
          using next_generation_reserved [OF nu] that stored by simp
        moreover have "clock_ok s \<Longrightarrow> clock_ok s'" using stored by (simp add: clock_ok_def)
        ultimately show ?thesis using r q g n by (auto simp: advances_def split: sum.splits intro: less_imp_le)
      qed
    qed
  qed
qed

subsection \<open>Ensuring an intent\<close>

lemma ensure_run_intent_advances:
  assumes "ensure_run_intent commit repo uv wid s = (r, s')" "clock_ok s"
  shows "advances s s'"
proof (cases "\<exists>t. supervisor_state_token (f_token s) = Ok (Some t)")
  case False
  then have "s' = s" using assms(1)
    by (auto simp: ensure_run_intent_def effect_defs split: sum.splits if_splits)
  then show ?thesis by simp
next
  case True
  then have "under_lock GenerationLockTimeoutError
      (io_bind (io_read read_desired_strict) (\<lambda>current. case current of
          Some d \<Rightarrow> if sd_commit d \<noteq> commit
            then io_raise (DesiredAuthorityConflictError ''supervisor desired commit '')
            else io_return (sd_generation d)
        | None \<Rightarrow> io_bind (io_read (\<lambda>s. mission_state_exists_strict (f_mission s))) (\<lambda>exists.
            if exists then io_raise (DesiredAuthorityConflictError
              ''cannot establish supervisor desired state while supervised deployment mission authority exists'')
            else write_run_intent_locked commit repo uv wid False False))) s = (r, s')"
    using assms(1) by (auto simp: ensure_run_intent_def io_bind_def io_read_def)
  then show ?thesis
  proof (cases rule: under_lock_cases)
    case refused
    then show ?thesis by (simp add: advances_same)
  next
    case locked
    let ?t = "s\<lparr>f_locks := tl (f_locks s)\<rparr>"
    have "s' = ?t \<or> write_run_intent_locked commit repo uv wid False False ?t = (r, s')"
      using locked by (auto simp: effect_defs split: sum.splits option.splits if_splits)
    moreover have "clock_ok ?t" using assms(2) by (simp add: clock_ok_def)
    moreover have "advances s ?t" by (simp add: advances_same)
    ultimately show ?thesis using write_run_intent_advances advances_trans by blast
  qed
qed

lemma handle_ensure_advances:
  assumes "handle_ensure_run_intent p s = (r, s')" "clock_ok s"
  shows "advances s s'"
proof (cases "\<exists>commit repo uv. dict_get p ''commit'' = JStr commit \<and> commit \<noteq> [] \<and> dict_default p ''repo'' (JStr []) = JStr repo
      \<and> dict_default p ''uv_path'' (JStr []) = JStr uv")
  case True
  then obtain commit repo uv where e: "dict_get p ''commit'' = JStr commit" "commit \<noteq> []"
    "dict_default p ''repo'' (JStr []) = JStr repo" "dict_default p ''uv_path'' (JStr []) = JStr uv" by blast
  obtain q where "ensure_run_intent commit repo uv (optional_string (dict_get p ''worker_id'')) s = (q, s')"
    using assms(1) e(2) unfolding handle_ensure_run_intent_def e prod.case json.case
    by (auto simp: effect_defs elim!: answering_ends split: prod.splits sum.splits)
  then show ?thesis using ensure_run_intent_advances assms(2) by blast
next
  case False
  then have "s' = s"
    using assms(1) unfolding handle_ensure_run_intent_def
    by (auto simp: io_return_def split: json.splits if_splits)
  then show ?thesis by simp
qed

subsection \<open>State writes that keep the blocking authority\<close>

lemma load_state_written: "wf_state st \<Longrightarrow> load_state (holding (state_to_dict st)) = Ok st"
  using state_fields_parse [OF state_to_dict_fields, of st] state_to_dict_fields [of st]
  by (simp add: load_state_def holding_def read_text_def json_loads_def state_fields_def wf_state_def)

lemma wf_keep_authority: "wf_state st \<Longrightarrow> wf_state current \<Longrightarrow> wf_state (keep_authority current st)"
  by (simp add: wf_state_def keep_authority_def)

lemma keep_authority_applied [simp]: "ss_applied_generation (keep_authority c st) = ss_applied_generation st"
  by (simp add: keep_authority_def)

lemma write_state_cases:
  assumes "write_state st s = (r, s')"
  obtains (kept) "same_authority s s'" "f_clock s' = f_clock s" "r \<noteq> Ok ()"
  | (stored) "s' = (s\<lparr>f_outcomes := tl (f_outcomes s)\<rparr>)\<lparr>f_state := holding (state_to_dict st)\<rparr>" "state_path s = Ok ()"
  by (rule authority_write_cases [OF assms [unfolded write_state_def]]) (use that in auto)

lemma reads_after_state [simp]:
  "supervisor_private_dir (s\<lparr>f_state := x\<rparr>) = supervisor_private_dir s"
  "state_path (s\<lparr>f_state := x\<rparr>) = state_path s"
  "read_state (s\<lparr>f_state := x\<rparr>) = ebind (state_path s) (\<lambda>_. load_state x)"
  "reserved_generation (s\<lparr>f_state := x\<rparr>) = reserved_generation s"
  "read_desired_strict (s\<lparr>f_state := x\<rparr>) = read_desired_strict s"
  by (simp_all add: supervisor_private_dir_def read_state_def state_path_def reserved_generation_def
      read_desired_strict_def)

lemma next_generation_new_state:
  assumes "read_state s = Ok current" "wf_state st" "ss_applied_generation current \<le> ss_applied_generation st"
    and "next_generation (s\<lparr>f_state := holding (state_to_dict st)\<rparr>) = Ok n'"
  shows "\<exists>n. next_generation s = Ok n \<and> n \<le> n'"
  using assms by (auto simp: next_generation_Ok load_state_written)

lemma write_preserving_cases:
  assumes "write_state_preserving_authority st s = (r, s')"
  obtains (kept) "same_authority s s'" "f_clock s' = f_clock s" "r \<noteq> Ok ()"
  | (stored) current s1 where "read_state s = Ok current" "same_authority s s1" "f_clock s1 = f_clock s"
      "s' = s1\<lparr>f_state := holding (state_to_dict (keep_authority current st))\<rparr>" "state_path s = Ok ()"
  using assms unfolding write_state_preserving_authority_def
proof (cases rule: under_lock_cases)
  case refused
  then show ?thesis using that(1) by auto
next
  case locked
  let ?t = "s\<lparr>f_locks := tl (f_locks s)\<rparr>"
  have eq: "same_authority s ?t" "read_state ?t = read_state s" "state_path ?t = state_path s"
    using same_authority_reads [of s ?t] by auto
  show ?thesis
  proof (cases "read_state s")
    case (Inl e)
    then show ?thesis using locked eq that(1) by (auto simp: effect_defs)
  next
    case (Inr current)
    then have "write_state (keep_authority current st) ?t = (r, s')" using locked eq by (simp add: effect_defs)
    then show ?thesis
    proof (cases rule: write_state_cases)
      case kept
      then show ?thesis using that(1) same_authority_trans [OF eq(1)] by simp
    next
      case stored
      show ?thesis
        by (rule that(2) [OF Inr, of "?t\<lparr>f_outcomes := tl (f_outcomes ?t)\<rparr>"])
          (use stored eq in \<open>simp_all add: same_authority_def\<close>)
    qed
  qed
qed

lemma write_preserving_advances:
  assumes "write_state_preserving_authority st s = (r, s')" "wf_state st"
    and "\<And>current. read_state s = Ok current \<Longrightarrow> ss_applied_generation current \<le> ss_applied_generation st"
  shows "advances s s'"
  using assms(1)
proof (cases rule: write_preserving_cases)
  case kept
  then show ?thesis by (simp add: advances_same)
next
  case (stored current s1)
  have "read_state s1 = Ok current" "next_generation s1 = next_generation s"
    using stored same_authority_reads [of s s1] by auto
  moreover have "wf_state (keep_authority current st)"
    by (rule wf_keep_authority [OF assms(2) read_state_wf [OF stored(1)]])
  ultimately show ?thesis
    using next_generation_new_state [of s1 current "keep_authority current st"] assms(3) [OF stored(1)] stored
    by (auto simp: advances_def clock_ok_def)
qed

lemma spawning_handlers_advance:
  assumes "answering why (io_bind (io_read read_state) (\<lambda>current.
      io_bind (write_state_preserving_authority (current\<lparr>ss_spawning := sp\<rparr>)) (\<lambda>_. io_return x))) s = (r, s')"
    and "pred_option wf_spawning sp"
  shows "advances s s'"
proof -
  obtain r0 where b: "io_bind (io_read read_state) (\<lambda>current.
      io_bind (write_state_preserving_authority (current\<lparr>ss_spawning := sp\<rparr>)) (\<lambda>_. io_return x)) s = (r0, s')"
    using assms(1) by (elim answering_ends)
  show ?thesis
  proof (cases "read_state s")
    case (Inl e)
    then show ?thesis using b by (simp add: effect_defs)
  next
    case (Inr current)
    then obtain q where w: "write_state_preserving_authority (current\<lparr>ss_spawning := sp\<rparr>) s = (q, s')"
      using b by (auto simp: effect_defs split: prod.splits sum.splits)
    have "wf_state (current\<lparr>ss_spawning := sp\<rparr>)"
      using read_state_wf [OF Inr] assms(2) by (simp add: wf_state_def)
    then show ?thesis using write_preserving_advances [OF w] Inr by simp
  qed
qed

lemma set_spawning_advances:
  assumes "handle_set_spawning_obligation p s = (r, s')"
  shows "advances s s'"
proof (cases "\<exists>d sp. dict_get p ''obligation'' = JObj d \<and> spawning_from_dict d = Ok sp")
  case True
  then obtain d sp where d: "dict_get p ''obligation'' = JObj d" "spawning_from_dict d = Ok sp" by blast
  have "pred_option wf_spawning (Some sp)" using spawning_from_dict_wf [OF d(2)] by simp
  then show ?thesis
    using spawning_handlers_advance assms unfolding handle_set_spawning_obligation_def d json.case sum.case
    by blast
next
  case False
  then have "s' = s" using assms by (auto simp: handle_set_spawning_obligation_def io_return_def split: json.splits sum.splits)
  then show ?thesis by simp
qed

lemma clear_spawning_advances:
  assumes "handle_clear_spawning_obligation s = (r, s')"
  shows "advances s s'"
  using spawning_handlers_advance [OF assms [unfolded handle_clear_spawning_obligation_def]] by simp

subsection \<open>Promotion\<close>

text \<open>Computations over the store keep a preorder that ignores the schedule of the locks.\<close>

locale store_evolution = evolution R for R :: "'z store_scheme \<Rightarrow> 'z store_scheme \<Rightarrow> bool" +
  assumes schedule: "R s (s\<lparr>f_locks := l\<rparr>)" "R s (s\<lparr>f_outcomes := w\<rparr>)"
    and public: "R s (s\<lparr>f_pending := p\<rparr>)" "R s (f_acks_update h s)"
begin

lemma lock: "evolves R m \<Longrightarrow> evolves R (under_lock e m)"
  unfolding evolves_def
proof (intro allI)
  fix s assume m: "\<forall>s. R s (snd (m s))"
  obtain r s' where u: "under_lock e m s = (r, s')" by fastforce
  then show "R s (snd (under_lock e m s))"
    by (cases rule: under_lock_cases)
      (use u m schedule(1) trans in \<open>auto, metis snd_conv\<close>)
qed

lemma put: "(\<And>s. R s (put v s)) \<Longrightarrow> evolves R (durable_put put v)"
  unfolding evolves_def
proof (intro allI)
  fix s assume p: "\<And>s. R s (put v s)"
  obtain r s' where u: "durable_put put v s = (r, s')" by fastforce
  then show "R s (snd (durable_put put v s))"
    by (cases rule: durable_put_cases)
      (use u schedule(2) trans [OF schedule(2) [of s "tl (f_outcomes s)"] p] in simp_all)
qed

lemma answers: "evolves R m \<Longrightarrow> evolves R (answering why m)"
  unfolding answering_def by (intro rules)

lemma text_branch: "(\<And>x. evolves R (k x)) \<Longrightarrow> evolves R l \<Longrightarrow> evolves R (case j of JStr x \<Rightarrow> k x | _ \<Rightarrow> l)"
  by (simp split: json.splits)

lemma promotion_answer:
  "evolves R (case e of
      DesiredAuthorityConflictError _ \<Rightarrow> io_return (Inl ''conflict with existing supervisor authority'')
    | DesiredIntentError _ \<Rightarrow> io_return (Inl ''supervisor authority is malformed or unreadable'')
    | MissionAuthorityError _ \<Rightarrow> io_return (Inl ''supervisor authority is malformed or unreadable'')
    | _ \<Rightarrow> io_raise e)"
  by (cases e) (simp_all add: basic)

lemma promotion:
  assumes "\<And>commit repo uv wid. evolves R (ensure_run_intent commit repo uv wid)"
  shows "evolves R promote_pending_request"
  unfolding promote_pending_request_def promote_pending_request_validated_def write_pending_ack_def remove_durable_file_def
  by (intro rules lock put public text_branch promotion_answer assms)

end

lemma ensure_evolves: "evolves advances (ensure_run_intent commit repo uv wid)"
  unfolding evolves_def
proof
  fix s :: "'a store_scheme"
  show "advances s (snd (ensure_run_intent commit repo uv wid s))"
    using ensure_run_intent_advances [OF prod.collapse [symmetric], of s commit repo uv wid]
    by (cases "clock_ok s") (simp_all add: advances_def)
qed

interpretation adv: store_evolution advances
  by unfold_locales (auto intro: advances_same advances_trans)

section \<open>The control requests hand out increasing generations\<close>

lemma run_transition_advances:
  assumes "run_transition c s = (r, s')" "clock_ok s"
  shows "advances s s' \<and> (\<forall>g. r = Some g \<longrightarrow>
    next_generation s = Ok g \<and> (\<forall>n'. next_generation s' = Ok n' \<longrightarrow> g < n'))"
proof (cases c)
  case (Deploy p)
  obtain q where h: "handle_deploy_request p s = (q, s')" "r = granted q"
    using assms(1) Deploy by (auto split: prod.splits)
  from h(1) show ?thesis
    by (cases rule: deploy_ends)
      (use h(2) request_run_advances assms(2) in \<open>fastforce split: sum.splits\<close>)+
next
  case Reserve
  then obtain q where "handle_allocate_generation s = (q, s')" "r = granted q"
    using assms(1) by (auto split: prod.splits)
  then show ?thesis using allocate_ends [of s q s'] by simp
next
  case Promote
  then show ?thesis using assms adv.promotion [OF ensure_evolves] by (auto simp: evolves_def)
next
  case (EnsureRun p)
  then show ?thesis using assms handle_ensure_advances [of p s _ s', OF prod_eqI] by simp
next
  case (SetSpawning p)
  then show ?thesis using assms set_spawning_advances [of p s _ s', OF prod_eqI] by simp
next
  case ClearSpawning
  then show ?thesis using assms clear_spawning_advances [of s _ s', OF prod_eqI] by simp
next
  case (ClearMigration g)
  then show ?thesis using assms clear_migration_advances [of g s _ s', OF prod_eqI] by simp
qed

interpretation generations: monotone_counter next_generation clock_ok run_transition run_transitions
proof
  show "clock_ok s \<Longrightarrow> run_transition c s = (r, s') \<Longrightarrow> clock_ok s'" for s s' :: "'a store_scheme" and c r
    using run_transition_advances by (auto simp: advances_def)
  show "clock_ok s \<Longrightarrow> run_transition c s = (r, s') \<Longrightarrow> next_generation s' = Ok n' \<Longrightarrow>
      \<exists>n. next_generation s = Ok n \<and> n \<le> n'" for s s' :: "'a store_scheme" and c r n'
    using run_transition_advances [of c s r s'] by (auto simp: advances_def)
  show "clock_ok s \<Longrightarrow> run_transition c s = (Some g, s') \<Longrightarrow>
      (\<exists>n. next_generation s = Ok n \<and> n \<le> g) \<and> (\<forall>n'. next_generation s' = Ok n' \<longrightarrow> g < n')"
    for s s' :: "'a store_scheme" and c g
    using run_transition_advances [of c s "Some g" s'] by auto
qed simp_all

section \<open>Properties\<close>

lemma empty_store_simps [simp]:
  "f_token (empty_store t) = t" "f_desired (empty_store t) = Missing" "f_state (empty_store t) = Missing"
  "f_mission (empty_store t) = Missing" "f_reserved (empty_store t) = Missing" "f_pending (empty_store t) = Missing"
  "f_locks (empty_store t) = []" "f_outcomes (empty_store t) = []" "f_clock (empty_store t) = []"
  by (simp_all add: empty_store_def)

lemma read_state_schedule [simp]: "read_state (s\<lparr>f_locks := x\<rparr>) = read_state s" "state_path (s\<lparr>f_locks := x\<rparr>) = state_path s"
  by (simp_all add: read_state_def state_path_def)

lemma sample_token_valid: "supervisor_state_token sample_token = Ok (Some sample_token)"
proof -
  have "last sample_token \<noteq> 10" "sample_token \<noteq> []" by (simp_all add: sample_token_def)
  then show ?thesis
    by (simp add: supervisor_state_token_def validate_supervisor_state_token_def TOKEN_PATTERN_def Let_def)
      (simp add: sample_token_def list_all_iff)
qed

lemma sample_paths [simp]:
  "f_token s = sample_token \<Longrightarrow> supervisor_private_dir s = Ok ()"
  "f_token s = sample_token \<Longrightarrow> state_path s = Ok ()"
  by (simp_all add: supervisor_private_dir_def state_path_def sample_token_valid)

lemma missing_reads [simp]:
  "load_desired Missing = Ok None" "load_state Missing = Ok fresh_state" "mission_generation Missing = Ok 0"
  "load_reserved Missing = Ok 0"
  by (simp_all add: load_desired_def load_state_def mission_generation_def read_rollback_state_def
      load_reserved_def read_text_def)

lemma next_generation_empty: "next_generation (empty_store sample_token) = Ok 1"
proof -
  have "f_token (empty_store sample_token) = sample_token" by (simp add: empty_store_def)
  then show ?thesis
    by (simp add: next_generation_Ok read_state_def read_desired_strict_def reserved_generation_def)
      (simp add: empty_store_def desired_gen_def fresh_state_def)
qed



text \<open>A run request stores exactly the intent that was asked for, under a generation above the applied,
  desired, mission and reserved ones, and changes no other authority; when it raises, the files are
  as before, unless the durable write failed after the new intent had replaced the old one.
\<close>

theorem request_run_outcome:
  assumes "clock_ok s" "request_run commit repo uv wid rs mg s = (r, s')"
  shows "f_token s' = f_token s \<and> f_state s' = f_state s \<and> f_mission s' = f_mission s \<and> f_reserved s' = f_reserved s
    \<and> (f_desired s' = f_desired s \<and> \<not> is_ok r \<or>
       (\<exists>g t st d m v. read_desired_strict s' = Ok (Some \<lparr>sd_schema_version = SCHEMA_VERSION,
            sd_generation = g, sd_commit = commit, sd_repo = repo, sd_uv_path = uv, sd_worker_id = wid,
            sd_restart = rs, sd_requested_at = t, sd_migration = mg\<rparr>)
          \<and> read_state s = Ok st \<and> ss_applied_generation st < g
          \<and> read_desired_strict s = Ok d \<and> pred_option (\<lambda>x. sd_generation x < g) d
          \<and> mission_generation (f_mission s) = Ok m \<and> m < g
          \<and> reserved_generation s = Ok v \<and> v < g
          \<and> (\<forall>x. r = Ok x \<longrightarrow> x = g)))"
  using assms(2) unfolding request_run_def
proof (cases rule: under_lock_cases)
  case refused
  then show ?thesis by auto
next
  case locked
  let ?t = "s\<lparr>f_locks := tl (f_locks s)\<rparr>"
  have c: "clock_ok ?t" using assms(1) by (simp add: clock_ok_def)
  have same: "same_authority s ?t" by simp
  from locked c show ?thesis
  proof (cases rule: write_run_intent_cases)
    case kept
    have "\<not> is_ok r" using kept(3) by (cases r) auto
    then show ?thesis using same_authority_trans [OF same kept(1)] by (auto simp: same_authority_def)
  next
    case (written g t s1)
    have s1: "same_authority s s1" by (rule same_authority_trans [OF same written(4)])
    have g: "next_generation s = Ok g" using written(1) same_authority_reads(6) [OF same] by simp
    let ?d = "\<lparr>sd_schema_version = SCHEMA_VERSION, sd_generation = g, sd_commit = commit, sd_repo = repo,
      sd_uv_path = uv, sd_worker_id = wid, sd_restart = rs, sd_requested_at = t, sd_migration = mg\<rparr>"
    have wf: "wf_desired ?d" using next_generation_pos [OF g] written(2) by (simp add: wf_desired_def)
    from g obtain st d m v where reads: "read_state s = Ok st" "read_desired_strict s = Ok d"
        "mission_generation (f_mission s) = Ok m" "reserved_generation s = Ok v"
      and max: "g = max (max (max (ss_applied_generation st) (desired_gen d)) m) v + 1"
      by (auto simp: next_generation_Ok)
    have p: "supervisor_private_dir s1 = Ok ()"
      using reads(2) same_authority_reads(1) [OF s1] by (auto simp: read_desired_strict_def)
    have "read_desired_strict s' = Ok (Some ?d)"
      using written(5) p by (simp add: load_desired_written [OF wf])
    moreover have "pred_option (\<lambda>x. sd_generation x < g) d"
      using max by (cases d) (auto simp: desired_gen_def)
    moreover have "ss_applied_generation st < g" "m < g" "v < g" using max by auto
    ultimately show ?thesis
      using reads written(5,6) s1 unfolding same_authority_def by fastforce
  qed
qed

theorem request_run_outcome_witness:
  "\<exists>r s'. request_run (lit ''c'') (lit ''/r'') [] None False False (empty_store sample_token) = (r, s')
     \<and> f_state s' = Missing \<and> (f_desired s' = Missing \<longrightarrow> \<not> is_ok r)"
proof -
  obtain r s' where r: "request_run (lit ''c'') (lit ''/r'') [] None False False (empty_store sample_token) = (r, s')"
    by fastforce
  have "clock_ok (empty_store sample_token)" by (simp add: clock_ok_def empty_store_def)
  from request_run_outcome [OF this r] show ?thesis
    using r by (auto simp: empty_store_def read_desired_strict_def)
qed

lemma write_preserving_reread:
  assumes "read_state s = Ok current" "wf_state st" and "write_state_preserving_authority st s = (r, s')"
  shows "\<exists>after. read_state s' = Ok after \<and> (after = current \<and> \<not> is_ok r \<or> after = keep_authority current st)"
  using assms(3)
proof (cases rule: write_preserving_cases)
  case kept
  then show ?thesis using assms(1) same_authority_reads(3) [OF kept(1)] by (cases r) auto
next
  case (stored c s1)
  have c: "c = current" using stored(1) assms(1) by simp
  have "load_state (holding (state_to_dict (keep_authority current st))) = Ok (keep_authority current st)"
    by (rule load_state_written [OF wf_keep_authority [OF assms(2) read_state_wf [OF assms(1)]]])
  then show ?thesis using stored c same_authority_reads(2) [OF stored(2)] by simp
qed

lemma spawning_answer_no_effect:
  assumes "read_state s = Ok current" "pred_option wf_spawning sp"
    and "answering why (io_bind (io_read read_state) (\<lambda>current.
      io_bind (write_state_preserving_authority (current\<lparr>ss_spawning := sp\<rparr>)) (\<lambda>_. io_return x))) s = (r, s')"
  shows "\<exists>after. read_state s' = Ok after \<and> ss_spawning after = ss_spawning current"
proof -
  obtain q where w: "write_state_preserving_authority (current\<lparr>ss_spawning := sp\<rparr>) s = (q, s')"
    using assms(1,3) by (elim answering_ends) (auto simp: effect_defs split: prod.splits sum.splits)
  have "wf_state (current\<lparr>ss_spawning := sp\<rparr>)"
    using read_state_wf [OF assms(1)] assms(2) by (simp add: wf_state_def)
  from write_preserving_reread [OF assms(1) this w] show ?thesis by (auto simp: keep_authority_def)
qed

text \<open>C21. No transition written outside the consumer lock erases blocking authority: after
  \<open>write_state_preserving_authority\<close>, confirmed or not, the obligation, the unresolved child and the
  three malformed holds are those that were on disk when the lock was taken, and the other fields are
  the old ones or the written ones.
\<close>

theorem blocking_authority_preserved:
  assumes "read_state s = Ok current" "wf_state st"
    and "write_state_preserving_authority st s = (r, s')"
  shows "\<exists>after. read_state s' = Ok after \<and> (after = current \<and> \<not> is_ok r \<or> after = keep_authority current st)
    \<and> ss_spawning after = ss_spawning current
    \<and> ss_spawning_hold_malformed after = ss_spawning_hold_malformed current
    \<and> ss_unresolved_child after = ss_unresolved_child current
    \<and> ss_unresolved_hold_malformed after = ss_unresolved_hold_malformed current
    \<and> ss_ownership_hold_malformed after = ss_ownership_hold_malformed current"
  using write_preserving_reread [OF assms] assms(1) by (auto simp: keep_authority_def)

theorem blocking_authority_preserved_witness:
  "\<exists>after. read_state (snd (write_state_preserving_authority (fresh_state\<lparr>ss_ready := True\<rparr>)
       ((empty_store sample_token)\<lparr>f_state := Unreadable\<rparr>))) = Ok after \<and> ss_ownership_hold_malformed after"
proof -
  let ?s = "(empty_store sample_token)\<lparr>f_state := Unreadable\<rparr>"
  have "read_state ?s = Ok held_state"
    by (simp add: load_state_def read_text_def)
  moreover have "wf_state (fresh_state\<lparr>ss_ready := True\<rparr>)"
    using load_state_wf [OF missing_reads(2)] by (simp add: wf_state_def)
  ultimately show ?thesis
    using blocking_authority_preserved [OF _ _ prod.collapse [symmetric], of ?s held_state "fresh_state\<lparr>ss_ready := True\<rparr>"]
    by (auto simp: held_state_def)
qed

text \<open>The two obligation requests of the control socket are answered without effect: whatever
  obligation is sent, and also when the obligation is to be cleared, the obligation on disk afterwards
  is the one that was there before.
\<close>

theorem spawning_requests_have_no_effect:
  assumes "read_state s = Ok current"
    and "handle_set_spawning_obligation p s = (r, s') \<or> handle_clear_spawning_obligation s = (r, s')"
  shows "\<exists>after. read_state s' = Ok after \<and> ss_spawning after = ss_spawning current"
  using assms(2)
proof
  assume h: "handle_set_spawning_obligation p s = (r, s')"
  show ?thesis
  proof (cases "\<exists>d sp. dict_get p ''obligation'' = JObj d \<and> spawning_from_dict d = Ok sp")
    case True
    then obtain d sp where d: "dict_get p ''obligation'' = JObj d" "spawning_from_dict d = Ok sp" by blast
    show ?thesis
      by (rule spawning_answer_no_effect [OF assms(1), of "Some sp"])
        (use h spawning_from_dict_wf [OF d(2)] in \<open>simp_all add: handle_set_spawning_obligation_def d\<close>)
  next
    case False
    then have "s' = s" using h by (auto simp: handle_set_spawning_obligation_def io_return_def split: json.splits sum.splits)
    then show ?thesis using assms(1) by simp
  qed
next
  assume "handle_clear_spawning_obligation s = (r, s')"
  then show ?thesis
    unfolding handle_clear_spawning_obligation_def by (rule spawning_answer_no_effect [OF assms(1), rotated]) simp
qed

theorem spawning_requests_have_no_effect_witness:
  "\<exists>after. let s = (empty_store sample_token)\<lparr>f_state :=
        holding (state_to_dict (fresh_state\<lparr>ss_spawning := Some sample_obligation\<rparr>))\<rparr>
     in fst (handle_clear_spawning_obligation s) = Ok (response_ok [])
      \<and> read_state (snd (handle_clear_spawning_obligation s)) = Ok after
      \<and> ss_spawning after = Some sample_obligation"
proof -
  let ?c = "fresh_state\<lparr>ss_spawning := Some sample_obligation\<rparr>"
  let ?s = "(empty_store sample_token)\<lparr>f_state := holding (state_to_dict ?c)\<rparr>"
  have "wf_state ?c"
    using load_state_wf [OF missing_reads(2)]
    by (simp add: wf_state_def wf_spawning_def sample_obligation_def token_ok_def validate_incarnation_token_def
        SAFE_FILENAME_RE_def safe_char_def lit_def)
  then have r: "read_state ?s = Ok ?c" by (simp add: load_state_written)
  have ok: "fst (handle_clear_spawning_obligation ?s) = Ok (response_ok [])"
    using r by (simp add: handle_clear_spawning_obligation_def answering_def effect_defs
        write_state_preserving_authority_def under_lock_def Let_def
        write_state_def relabel_durability_def durable_put_def)
  obtain r1 s1 where h: "handle_clear_spawning_obligation ?s = (r1, s1)" by fastforce
  from spawning_requests_have_no_effect [OF r disjI2, OF h] show ?thesis using ok h by (auto simp: Let_def)
qed

section \<open>Pending install requests\<close>

interpretation installing: store_evolution installs_only
proof
  fix s t u :: "'a store_scheme"
  assume "installs_only s t" "installs_only t u"
  moreover have "read_desired_strict t = read_desired_strict s" if "f_desired t = f_desired s" "f_token t = f_token s"
    using that by (simp add: read_desired_strict_def supervisor_private_dir_def)
  ultimately show "installs_only s u" by (auto simp: installs_only_def)
qed (simp_all add: installs_only_def)

lemma write_run_intent_touches:
  assumes "write_run_intent_locked commit repo uv wid rs mg s = (r, s')"
  shows "f_token s' = f_token s \<and> f_state s' = f_state s \<and> f_mission s' = f_mission s \<and> f_reserved s' = f_reserved s"
  using assms
  by (auto simp: write_run_intent_locked_def effect_defs time_time_def same_authority_def
      split: sum.splits prod.splits list.splits elim!: write_desired_cases)

lemma ensure_installs: "evolves installs_only (ensure_run_intent commit repo uv wid)"
proof -
  have "evolves installs_only
      (io_bind (io_read read_desired_strict) (\<lambda>current. case current of
          Some d \<Rightarrow> if sd_commit d \<noteq> commit
            then io_raise (DesiredAuthorityConflictError ''supervisor desired commit '')
            else io_return (sd_generation d)
        | None \<Rightarrow> io_bind (io_read (\<lambda>s. mission_state_exists_strict (f_mission s))) (\<lambda>exists.
            if exists then io_raise (DesiredAuthorityConflictError
              ''cannot establish supervisor desired state while supervised deployment mission authority exists'')
            else write_run_intent_locked commit repo uv wid False False)))"
    unfolding evolves_def
  proof (rule allI, goal_cases)
    case (1 s)
    let ?w = "write_run_intent_locked commit repo uv wid False False s"
    have "installs_only s (snd ?w)" if "read_desired_strict s = Ok None" "f_mission s = Missing"
      using that write_run_intent_touches [OF prod.collapse [symmetric], of commit repo uv wid False False s]
      by (simp add: installs_only_def)
    then show ?case
      by (simp add: effect_defs mission_state_exists_strict_def installing.refl
          split: sum.splits option.splits if_splits stored.splits)
  qed
  from installing.lock [OF this] show ?thesis
    unfolding ensure_run_intent_def
    by (intro installing.bind [OF installing.basic(3)]) (rule installing.branches(1) [OF installing.basic(2)])
qed

text \<open>Promoting a pending install request never replaces lifecycle authority: whatever the pending file
  holds and however locks and writes go, the daemon state, the mission and the reservation are
  untouched, and the desired intent changes only where none was stored and no mission entry of any
  kind existed.
\<close>

theorem promotion_never_replaces_authority:
  "let s' = snd (promote_pending_request s)
   in f_state s' = f_state s \<and> f_mission s' = f_mission s \<and> f_reserved s' = f_reserved s
    \<and> (f_desired s' = f_desired s \<or> read_desired_strict s = Ok None \<and> f_mission s = Missing)"
  using installing.promotion [OF ensure_installs]
  by (auto simp: evolves_def installs_only_def Let_def)

lemma idle_schedule [simp]:
  "f_locks s = [] \<Longrightarrow> s\<lparr>f_locks := []\<rparr> = s" "f_outcomes s = [] \<Longrightarrow> s\<lparr>f_outcomes := []\<rparr> = s"
  by (cases s; simp)+

text \<open>A pending install request written into a store without desired intent or mission is promoted and
  acknowledged: with locks and writes succeeding, the next promotion stores an intent for exactly the
  requested commit, checkout and worker under the next generation, answers that generation in the
  acknowledgement of the request and removes the request.
\<close>

theorem install_request_promoted:
  assumes "supervisor_state_token (f_token s) = Ok (Some token)" "f_locks s = []" "f_outcomes s = []" "clock_ok s"
    and "validate_pending_request_id rid = Ok rid" "commit \<noteq> []"
    and "read_desired_strict s = Ok None" "f_mission s = Missing" "next_generation s = Ok g"
    and "write_pending_request commit repo uv wid rid s = (Ok (), s1)" "promote_pending_request s1 = (r, s2)"
  shows "r = Ok True \<and> f_pending s2 = Missing
    \<and> f_acks s2 rid = holding [(lit ''ok'', JBool True), (lit ''generation'', JInt g)]
    \<and> (\<exists>d. read_desired_strict s2 = Ok (Some d) \<and> sd_commit d = commit \<and> sd_repo d = repo \<and> sd_uv_path d = uv
         \<and> sd_worker_id d = wid \<and> sd_generation d = g \<and> \<not> sd_restart d \<and> \<not> sd_migration d)"
proof -
  let ?p = "[(lit ''schema_version'', JInt SCHEMA_VERSION), (lit ''commit'', JStr commit), (lit ''repo'', JStr repo),
    (lit ''uv_path'', JStr uv), (lit ''worker_id'', opt_json JStr wid), (lit ''request_id'', JStr rid)]"
  have s1: "s1 = s\<lparr>f_pending := holding ?p\<rparr>"
    using assms(2,3,5,10) by (simp add: write_pending_request_def effect_defs under_lock_def Let_def durable_put_def)
  have same: "same_authority s s1" by (simp add: s1)
  have reads: "read_desired_strict s1 = Ok None" "next_generation s1 = Ok g" "supervisor_private_dir s1 = Ok ()"
    using assms(1,7,9) same_authority_reads [OF same] by (simp_all add: supervisor_private_dir_def)
  obtain t s2' where now: "time_time s1 = (Ok t, s2')" "wf_time t" and s2': "f_locks s2' = []" "f_outcomes s2' = []"
      "f_pending s2' = holding ?p" "f_acks s2' = f_acks s1" "same_authority s1 s2'"
    using assms(2-4) by (cases "f_clock s1") (auto simp: time_time_def s1 clock_ok_def)
  let ?d = "\<lparr>sd_schema_version = SCHEMA_VERSION, sd_generation = g, sd_commit = commit, sd_repo = repo,
    sd_uv_path = uv, sd_worker_id = wid, sd_restart = False, sd_requested_at = t, sd_migration = False\<rparr>"
  let ?s3 = "s2'\<lparr>f_desired := holding (desired_to_dict ?d)\<rparr>"
  have w: "write_run_intent_locked commit repo uv wid False False s1 = (Ok g, ?s3)"
    using reads now s2' same_authority_reads(1) [OF s2'(5)]
    by (simp add: write_run_intent_locked_def effect_defs write_desired_def relabel_durability_def durable_put_def)
  have e: "ensure_run_intent commit repo uv wid s1 = (Ok g, ?s3)"
    using assms(1,2,8) reads w
    by (simp add: ensure_run_intent_def effect_defs under_lock_def Let_def s1 mission_state_exists_strict_def)
  have o: "optional_string (opt_json JStr wid) = wid" by (cases wid) (simp_all add: optional_string_def)
  have p: "promote_pending_request s1 =
      (Ok True, ?s3\<lparr>f_acks := (f_acks s1)(rid := holding [(lit ''ok'', JBool True), (lit ''generation'', JInt g)]),
         f_pending := Missing\<rparr>)"
    using e assms(2,5,6) s2'
    by (simp add: promote_pending_request_def under_lock_def Let_def effect_defs load_pending_request_def read_text_def
        json_loads_def s1 holding_def promote_pending_request_validated_def json_simps dict_default_def text_or_def o
        write_pending_ack_def durable_put_def remove_durable_file_def)
  have wf: "wf_desired ?d" using next_generation_pos [OF assms(9)] now(2) by (simp add: wf_desired_def)
  have "supervisor_private_dir s2' = Ok ()" using reads same_authority_reads(1) [OF s2'(5)] by simp
  then have "read_desired_strict s2 = Ok (Some ?d)"
    using p assms(11) load_desired_written [OF wf]
    by (auto simp: read_desired_strict_def supervisor_private_dir_def)
  then show ?thesis using p assms(11) by auto
qed

theorem install_request_promoted_witness:
  "let s1 = snd (write_pending_request (lit ''c'') (lit ''/r'') [] None (replicate 32 97) (empty_store sample_token));
       (r, s2) = promote_pending_request s1
   in r = Ok True \<and> f_acks s2 (replicate 32 97) = holding [(lit ''ok'', JBool True), (lit ''generation'', JInt 1)]"
proof -
  let ?s = "empty_store sample_token"
  let ?w = "write_pending_request (lit ''c'') (lit ''/r'') [] None (replicate 32 97) ?s"
  have rid: "validate_pending_request_id (replicate 32 97) = Ok (replicate 32 97)"
    by (simp add: validate_pending_request_id_def list_all_iff)
  have "?w = (Ok (), snd ?w)"
    by (simp add: write_pending_request_def effect_defs under_lock_def Let_def durable_put_def rid)
  moreover obtain r s2 where "promote_pending_request (snd ?w) = (r, s2)" by fastforce
  moreover have "read_desired_strict ?s = Ok None" by (simp add: read_desired_strict_def)
  ultimately show ?thesis
    using install_request_promoted [of ?s sample_token "replicate 32 97" "lit ''c''" 1 "lit ''/r''" "[]" None
        "snd ?w" r s2] rid next_generation_empty
    by (simp add: sample_token_valid clock_ok_def lit_def)
qed

lemma promotion_wedged:
  "f_pending s = NotUtf8 \<Longrightarrow> f_locks s = [] \<Longrightarrow>
    promote_pending_request s = (Raise UnicodeDecodeError, s)"
  by (simp add: promote_pending_request_def under_lock_def Let_def effect_defs load_pending_request_def read_text_def)

lemma undecodable_authority_escapes:
  assumes "supervisor_state_token (f_token s) = Ok (Some token)"
  shows "f_state s = NotUtf8 \<Longrightarrow> read_state s = Raise UnicodeDecodeError"
    "f_desired s = NotUtf8 \<Longrightarrow> read_desired_strict s = Raise UnicodeDecodeError"
    "f_mission s = NotUtf8 \<Longrightarrow> mission_generation (f_mission s) = Raise UnicodeDecodeError"
  using assms
  by (simp_all add: read_state_def state_path_def load_state_def read_text_def read_desired_strict_def
      supervisor_private_dir_def load_desired_def mission_generation_def read_rollback_state_def)

end
