(* ===== verification/SupervisorSafety.thy ===== *)
theory SupervisorSafety
  imports SupervisorTurn Generations
begin

text \<open>
  What the supervisor daemon may do to workers. The locales carry a relation on states through every
  operation of the daemon: \<open>file_evolution\<close> through those that observe and write files,
  \<open>daemon_evolution\<close> through those that reach the table and the fields of the daemon, and \<open>daemon_turn\<close>,
  given the operations that act on workers, through a reconciliation and the daemon's whole life. Their
  interpretations show that each deed is covered by the authority row, and that a worker is stopped
  for its health on evidence about exactly that worker.
\<close>

section \<open>Specification vocabulary\<close>

definition lawful :: "AuthorityClaim option \<Rightarrow> deed \<Rightarrow> bool" where
  "lawful claim d = (case claim of
      None \<Rightarrow> False
    | Some c \<Rightarrow> (case d of
        Started token db \<Rightarrow> (case stored_row (ac_server c) db of
            None \<Rightarrow> False
          | Some row \<Rightarrow> is_ok (claim_owner c row) \<and> ar_worker row = None
              \<and> map_option so_token (ar_spawn row) = Some token)
      | Stopped meta db \<Rightarrow> (case Option.bind (stored_row (ac_server c) db) ar_worker of
            None \<Rightarrow> False
          | Some worker \<Rightarrow> wm_pid meta = Some (wr_pid worker) \<and> wm_pgid meta = Some (wr_pgid worker)
              \<and> wm_sid meta = Some (wr_sid worker)
              \<and> wm_start_time_ticks meta = Some (wr_start_time_ticks worker)
              \<and> wm_token meta = Some (wr_token worker))))"

definition lawful_step :: "daemon \<Rightarrow> daemon \<Rightarrow> bool" where
  "lawful_step s s' \<longleftrightarrow> d_claim s' = d_claim s
     \<and> (\<exists>new. d_log s' = d_log s @ new \<and> list_all (lawful (d_claim s)) new)"

text \<open>Steps that leave the table, the claim and the log alone.\<close>

definition same_row :: "daemon \<Rightarrow> daemon \<Rightarrow> bool" where
  "same_row s s' \<longleftrightarrow> d_table s' = d_table s \<and> d_claim s' = d_claim s \<and> d_log s' = d_log s"

definition names_worker :: "WorkerRecord \<Rightarrow> daemon \<Rightarrow> bool" where
  "names_worker r s \<longleftrightarrow> (case d_claim s of None \<Rightarrow> False
     | Some c \<Rightarrow> Option.bind (stored_row (ac_server c) (d_table s)) ar_worker = Some r)"

definition describes :: "WorkerMeta \<Rightarrow> WorkerRecord \<Rightarrow> bool" where
  "describes meta r \<longleftrightarrow> wm_pid meta = Some (wr_pid r) \<and> wm_pgid meta = Some (wr_pgid r) \<and> wm_sid meta = Some (wr_sid r)
     \<and> wm_start_time_ticks meta = Some (wr_start_time_ticks r) \<and> wm_token meta = Some (wr_token r)"

text \<open>Lawful from the states in which the row names the worker, which steps that leave the row alone keep.\<close>

definition lawful_given :: "WorkerRecord \<Rightarrow> 'a dm \<Rightarrow> bool" where
  "lawful_given r m \<longleftrightarrow> (\<forall>s. names_worker r s \<longrightarrow> lawful_step s (snd (m s)))"

definition same_watch :: "daemon \<Rightarrow> daemon \<Rightarrow> bool" where
  "same_watch s s' \<longleftrightarrow> d_log s' = d_log s \<and> d_no_progress s' = d_no_progress s"

definition proven_breach :: "Env \<Rightarrow> WorkerChild \<Rightarrow> bool" where
  "proven_breach E child \<longleftrightarrow> (\<exists>t h t'. read_worker_health_by_incarnation (e_health E t) (wc_token child) = Ok (Some h)
     \<and> snapshot_of_child h child \<and> or_lease_safety_negative (interpret_operational_readiness h) \<and> wh_alive h
     \<and> t < t' \<and> ticks_at (kernel_of E) t' (wc_pid child) = Some (wc_start_time_ticks child))"

definition kept_evidence :: "daemon \<Rightarrow> WorkerChild \<Rightarrow> NoProgressEvidence option" where
  "kept_evidence s child = (case d_no_progress s of
      None \<Rightarrow> None | Some ev \<Rightarrow> if np_token ev = wc_token child then Some ev else None)"

definition sample_daemon :: daemon where
  "sample_daemon = \<lparr>f_desired = Missing, f_state = Missing, f_mission = Missing, f_reserved = Missing, f_pending = Missing,
     f_acks = (\<lambda>_. Missing), f_outcomes = [], f_locks = [], f_clock = [], f_token = replicate 64 97,
     d_world = \<lparr>w_now = 0, w_sent = []\<rparr>, d_cli = \<lparr>c_roots = [], c_current = None\<rparr>, d_meta = Missing,
     d_table = Map.empty, d_claim = None, d_connected = False, d_proc = None, d_active = None,
     d_mem_next_attempt_at = None, d_no_progress = None, d_log = []\<rparr>"

definition idle_hooks :: Hooks where
  "idle_hooks = \<lparr>hk_handoff = io_return (), hk_control = io_return (), hk_startup_artifacts = io_return ()\<rparr>"

named_theorems daemon_rules \<open>steps of the daemon that keep to a relation\<close>

section \<open>Steps on the files\<close>

locale file_evolution = store_evolution R for R :: "daemon \<Rightarrow> daemon \<Rightarrow> bool" +
  assumes files: "R s (s\<lparr>f_state := v\<rparr>)" "R s (s\<lparr>f_desired := v\<rparr>)" "R s (s\<lparr>f_clock := clock\<rparr>)"
      "R s (s\<lparr>d_meta := v\<rparr>)" "R s (s\<lparr>d_cli := runtimes\<rparr>)" "R s (s\<lparr>f_mission := v\<rparr>)"
    and world: "R s (s\<lparr>d_world := w\<rparr>)"

begin

lemmas basics [daemon_rules] = bind catch basic branches lock

lemma act [daemon_rules]: "(\<And>s. R s (f s)) \<Longrightarrow> evolves R (io_do f)"
  by (simp add: evolves_def io_do_def)

lemma pair [daemon_rules]: "(\<And>a b. evolves R (f a b)) \<Longrightarrow> evolves R (case p of (a, b) \<Rightarrow> f a b)"
  by (cases p) simp

lemma letting [daemon_rules]: "evolves R (f a) \<Longrightarrow> evolves R (Let a f)"
  by simp

lemma bind_post:
  assumes "evolves R m" "\<And>s x s'. m s = (Inr x, s') \<Longrightarrow> P x" "\<And>x. P x \<Longrightarrow> evolves R (k x)"
  shows "evolves R (io_bind m k)"
  unfolding evolves_def
proof
  fix s
  obtain r s1 where m: "m s = (r, s1)" by fastforce
  show "R s (snd (io_bind m k s))"
    using assms m by (cases r) (auto simp: evolves_def io_bind_def dest: spec [of _ s] intro: trans)
qed

lemma guarded [daemon_rules]: "evolves R m \<Longrightarrow> evolves R (io_when b m)"
  unfolding io_when_def by (intro daemon_rules)

lemma observed [daemon_rules]: "evolves R (probing p)"
  by (auto simp: evolves_def probing_def split: prod.splits intro: world)

lemma asked [daemon_rules]: "evolves R (ask f)" "evolves R (hit_failpoint E name)"
    "evolves R (monotonic_now E)" "evolves R (start_ticks E pid)" "evolves R (token_hex E)" "evolves R (current_boot_id E)"
  unfolding ask_def hit_failpoint_def monotonic_now_def start_ticks_def token_hex_def current_boot_id_def
  by (intro daemon_rules)+

lemma asked_cli [daemon_rules]: "evolves R (ask_cli E f)"
  unfolding ask_cli_def
  by (intro bind asked) (auto simp: evolves_def split: prod.splits intro: files)

lemma clock [daemon_rules]: "evolves R time_time"
  by (auto simp: evolves_def time_time_def refl split: list.splits intro: files)

lemma relabelled [daemon_rules]: "evolves R m \<Longrightarrow> evolves R (relabel_durability msg m)"
proof -
  assume "evolves R m"
  moreover have "evolves R (case e of DurabilityError _ \<Rightarrow> io_raise (DurabilityError msg) | _ \<Rightarrow> io_raise e)" for e
    by (cases e) (simp_all add: basic)
  ultimately show ?thesis unfolding relabel_durability_def by (intro catch)
qed

lemma writes [daemon_rules]:
  "evolves R (write_state st)" "evolves R (write_desired d)" "evolves R (write_meta E m)"
  unfolding write_state_def write_desired_def write_meta_def by (intro daemon_rules put files)+

lemma dropped [daemon_rules]: "evolves R m \<Longrightarrow> evolves R (best_effort m)"
  unfolding best_effort_def by (intro daemon_rules)

lemma state_rewrites [daemon_rules]:
  "evolves R (rewrite_state f)" "evolves R (write_state_preserving_authority st)" "evolves R (cache_spawn_local st)"
  unfolding rewrite_state_def write_state_preserving_authority_def cache_spawn_local_def by (intro daemon_rules)+

lemma safe_writes [daemon_rules]:
  "evolves R (write_state_authority_safe st)" "evolves R (cache_spawning ob)"
  unfolding write_state_authority_safe_def cache_spawning_def by (intro daemon_rules)+

lemma sources [daemon_rules]:
  "evolves R (authority_sources E)"
  unfolding authority_sources_def by (intro daemon_rules)+

lemma facts [daemon_rules]:
  "evolves R (authority_facts E)"
  unfolding authority_facts_def by (intro daemon_rules)+

lemma recovery [daemon_rules]:
  "evolves R (recover_owned_groups E tok)"
  unfolding recover_owned_groups_def by (intro daemon_rules)+

lemma recovered [daemon_rules]:
  "evolves R (groups_recovered E tok)"
  unfolding groups_recovered_def by (intro daemon_rules)+

lemma row_to_child [daemon_rules]:
  "evolves R (db_worker_to_child r)"
  unfolding db_worker_to_child_def by (intro daemon_rules)+

lemma liveness [daemon_rules]:
  "evolves R (active_worker_live E)" "evolves R (drained E tok)" "evolves R (poll_proc E)" "evolves R (recorded_child_alive E st)"
  unfolding active_worker_live_def drained_def poll_proc_def recorded_child_alive_def by (intro daemon_rules)+

lemma own_worker [daemon_rules]:
  "evolves R (own_live_worker E r commit)"
  unfolding own_live_worker_def by (intro daemon_rules)+

lemma health [daemon_rules]:
  "evolves R (interpret_worker_health E h)" "evolves R (read_health E tok)"
  unfolding interpret_worker_health_def read_health_def by (intro daemon_rules)+

lemma health_checks [daemon_rules]:
  "evolves R (check_worker_health E child)" "evolves R (worker_health_proves_immediate_safety_breach E child)"
  unfolding check_worker_health_def worker_health_proves_immediate_safety_breach_def by (intro daemon_rules)+

lemma migration_flag [daemon_rules]: "evolves R (clear_migration_flag g)"
  unfolding clear_migration_flag_def by (intro daemon_rules)

lemma migrates [daemon_rules]: "evolves R (complete_cold_migration E)"
  unfolding complete_cold_migration_def complete_cold_migration_locked_def remove_durable_file_def
  by (intro daemon_rules put files)

end

section \<open>Steps of the daemon\<close>

locale daemon_evolution = file_evolution +
  assumes table: "R s (s\<lparr>d_table := db\<rparr>)"
    and fields: "R s (s\<lparr>d_connected := b\<rparr>)" "R s (s\<lparr>d_proc := p\<rparr>)" "R s (s\<lparr>d_active := a\<rparr>)"
      "R s (s\<lparr>d_mem_next_attempt_at := t\<rparr>)" "R s (s\<lparr>d_no_progress := n\<rparr>)"

begin

lemma connection [daemon_rules]:
  "evolves R discard_authority_connection" "evolves R (open_authority_connection E)"
  unfolding discard_authority_connection_def open_authority_connection_def by (intro daemon_rules fields)+

lemma database [daemon_rules]: "evolves R (db_operation E f)"
  unfolding db_operation_def
  by (intro bind asked pair) (auto simp: evolves_def split: prod.splits intro: table)

lemma connected [daemon_rules]:
  "evolves R (spawn_authority_connection E)"
  unfolding spawn_authority_connection_def by (intro daemon_rules)+

lemma claimed [daemon_rules]: "(\<And>c. evolves R (f c)) \<Longrightarrow> evolves R (under_claim E x b f)"
  unfolding under_claim_def by (intro daemon_rules)

lemma forgets [daemon_rules]: "evolves R (forget_active tok)"
  unfolding forget_active_def by (intro act) (simp add: refl fields)

lemma confirming [daemon_rules]:
  "evolves R (confirm_claim E)"
  unfolding confirm_claim_def by (intro daemon_rules fields)+

lemma row_operations [daemon_rules]:
  "evolves R (commit_spawn_authority E ob)" "evolves R (clear_spawn_authority E)" "evolves R (read_spawn_authority E)" "evolves R (publish_worker_authority E child commit tok)" "evolves R (clear_worker_authority E tok)" "evolves R (read_worker_authority E)"
  unfolding commit_spawn_authority_def clear_spawn_authority_def read_spawn_authority_def publish_worker_authority_def clear_worker_authority_def read_worker_authority_def by (intro daemon_rules fields)+

lemma row_worker_running [daemon_rules]:
  "evolves R (db_worker_running E commit)"
  unfolding db_worker_running_def by (intro daemon_rules fields)+

lemma reaps [daemon_rules]:
  "evolves R (reap_proc E)"
  unfolding reap_proc_def by (intro daemon_rules fields)+

lemma converges [daemon_rules]:
  "evolves R (converge_direct_child E pid)"
  unfolding converge_direct_child_def by (intro daemon_rules fields)+

lemma waiting_loops [daemon_rules]:
  "evolves R (wait_for_identity_loop n E pid deadline)" "evolves R (await_observable_loop n E pid deadline)"
  by (induction n) (simp_all only: wait_for_identity_loop.simps await_observable_loop.simps,
      (intro daemon_rules, assumption?)+)

lemma waits [daemon_rules]:
  "evolves R (wait_for_identity E pid)" "evolves R (await_observable_identity E pid)" "evolves R (owned_hold_child E hold)"
  unfolding wait_for_identity_def await_observable_identity_def owned_hold_child_def by (intro daemon_rules fields)+

lemma hold_alive [daemon_rules]:
  "evolves R (unresolved_alive E hold)"
  unfolding unresolved_alive_def by (intro daemon_rules fields)+

lemma unresolved_loop [daemon_rules]: "evolves R (await_unresolved_loop n E hold deadline)"
  by (induction n) (simp_all only: await_unresolved_loop.simps, (intro daemon_rules, assumption?)+)

lemma unresolved_exit [daemon_rules]:
  "evolves R (await_unresolved_exit E hold)"
  unfolding await_unresolved_exit_def by (intro daemon_rules fields)+

lemma unresolved_converged [daemon_rules]:
  "evolves R (converge_unresolved E hold)" "evolves R (hold_for_a_poll E)"
  unfolding converge_unresolved_def hold_for_a_poll_def by (intro daemon_rules fields)+

lemma unresolved [daemon_rules]:
  "evolves R (resolve_unresolved_child E)"
  unfolding resolve_unresolved_child_def by (intro daemon_rules fields)+

lemma spawn_fates [daemon_rules]:
  "evolves R (resolve_pidless_spawn E ob)" "evolves R (resolve_identified_spawn E ob)" "evolves R (finish_publication E st ob)"
  unfolding resolve_pidless_spawn_def resolve_identified_spawn_def finish_publication_def by (intro daemon_rules fields)+

lemma settles_spawn [daemon_rules]:
  "evolves R (settle_spawning_obligation E st ob)" "evolves R (adopt_db_published E ob)"
  unfolding settle_spawning_obligation_def adopt_db_published_def by (intro daemon_rules fields)+

lemma resolves_spawn [daemon_rules]:
  "evolves R (resolve_spawning_obligation E)"
  unfolding resolve_spawning_obligation_def by (intro daemon_rules fields)+

lemma intended [daemon_rules]:
  "evolves R (confirmed_runtime E)"
  unfolding confirmed_runtime_def by (intro daemon_rules fields)+

lemma derives [daemon_rules]:
  "evolves R (derive_action E)" "evolves R (in_backoff now)" "evolves R (record_spawn_failure E commit now)"
  unfolding derive_action_def in_backoff_def record_spawn_failure_def by (intro daemon_rules fields)+

lemma releases [daemon_rules]:
  "evolves R (release_unproven_spawn_authority E tok b)" "evolves R (record_proven_private_child E i tok wid)" "evolves R (write_authority_free_hold pid ticks tok)"
  unfolding release_unproven_spawn_authority_def record_proven_private_child_def write_authority_free_hold_def by (intro daemon_rules fields)+

lemma unobservable [daemon_rules]:
  "evolves R (persist_unobservable_hold pid tok b)"
  unfolding persist_unobservable_hold_def by (intro daemon_rules fields)+

lemma settle_loops [daemon_rules]: "evolves R (settle_loop n E pid tok wid b)"
  by (induction n arbitrary: b) (simp_all only: settle_loop.simps, (intro daemon_rules, assumption?)+)

lemma settles [daemon_rules]:
  "evolves R (settle_unproven_spawn E pid tok wid)" "evolves R (preserve_blocking_obligation ob pid ticks)"
  unfolding settle_unproven_spawn_def preserve_blocking_obligation_def by (intro daemon_rules fields)+

lemma unpublished [daemon_rules]:
  "evolves R (recover_unpublished_spawn E pid ob ticks)" "evolves R (resolve_spawn_executable E commit)"
  unfolding recover_unpublished_spawn_def resolve_spawn_executable_def by (intro daemon_rules fields)+

lemma publishes [daemon_rules]:
  "evolves R (publish_spawned_child E pid ob ticks tok wid)"
  unfolding publish_spawned_child_def by (intro daemon_rules fields)+

lemma published [daemon_rules]:
  "evolves R (spawn_obligation_for E child)" "evolves R (converge_spawn_without_obligation E child now)" "evolves R (cache_published_child E child commit now ob)" "evolves R (gate_db_spawn E)"
  unfolding spawn_obligation_for_def converge_spawn_without_obligation_def cache_published_child_def gate_db_spawn_def by (intro daemon_rules fields)+

lemma clears [daemon_rules]:
  "evolves R clear_child"
  unfolding clear_child_def by (intro daemon_rules fields)+

lemma crashes [daemon_rules]:
  "evolves R (handle_crash E st now)" "evolves R (handle_db_crash E now)"
  unfolding handle_crash_def handle_db_crash_def by (intro daemon_rules fields)+

lemma crash_blocks [daemon_rules]:
  "evolves R (db_crash_blocks E now)" "evolves R (maybe_reset_backoff E st now)" "evolves R (defer_attempt E n)"
  unfolding db_crash_blocks_def maybe_reset_backoff_def defer_attempt_def by (intro daemon_rules fields)+

lemma progress [daemon_rules]:
  "evolves R (record_mission_progress E commit)" "evolves R (normalize_cross_boot_state E)"
  unfolding record_mission_progress_def normalize_cross_boot_state_def by (intro daemon_rules fields)+

lemma child_turn [daemon_rules]:
  "evolves R (reconcile_child E st now)"
  unfolding reconcile_child_def by (intro daemon_rules fields)+

lemma evidence_reset [daemon_rules]: "evolves R reset_forward_progress_evidence"
  unfolding reset_forward_progress_evidence_def by (intro daemon_rules fields)

lemma readiness [daemon_rules]:
  "evolves R (record_health_retirement E now)" "evolves R (record_not_ready E st now)"
  unfolding record_health_retirement_def record_not_ready_def by (intro daemon_rules fields)+

lemma installs [daemon_rules]: "evolves R (ensure_run_intent commit repo uv wid)"
  unfolding ensure_run_intent_def write_run_intent_locked_def by (intro daemon_rules)

lemma promotes [daemon_rules]: "evolves R promote_pending_request"
  by (intro promotion daemon_rules)

end

section \<open>A turn of the daemon\<close>

text \<open>The three operations that act on workers are left to the relation at hand.\<close>

locale daemon_turn = daemon_evolution +
  fixes E :: Env
  assumes starts [daemon_rules]: "evolves R (spawn_worker E commit)"
    and retires [daemon_rules]: "evolves R (retire_child E locked)"
    and retires_row [daemon_rules]: "evolves R (reconcile_db_worker E commit)"
    and retires_published [daemon_rules]: "evolves R (retire_published_worker E)"

begin

lemma publishes_start [daemon_rules]:
  "evolves R (spawn_and_publish E commit)"
  unfolding spawn_and_publish_def by (intro daemon_rules trans [OF fields(3) fields(4)])+

lemma ensures [daemon_rules]:
  "evolves R (ensure_consumer_locked E commit)" "evolves R (ensure_held E)"
  unfolding ensure_consumer_locked_def ensure_held_def by (intro daemon_rules)+

lemma ensures_worker [daemon_rules]:
  "evolves R (ensure_worker E commit)"
  unfolding ensure_worker_def by (intro daemon_rules)+

lemma applies [daemon_rules]:
  "evolves R (apply_desired E d)"
  unfolding apply_desired_def by (intro daemon_rules)+

lemma applies_newer [daemon_rules]:
  "evolves R (apply_newer_desired E st commit)"
  unfolding apply_newer_desired_def by (intro daemon_rules)+

lemma health_retires [daemon_rules]:
  "evolves R (retire_child_for_safety E)" "evolves R (retire_child_for_absent_forward_progress E now)"
  unfolding retire_child_for_safety_def retire_child_for_absent_forward_progress_def by (intro daemon_rules)+

lemma checks_ready [daemon_rules]: "evolves R (check_ready_worker E st child now)"
  unfolding check_ready_worker_def by (intro daemon_rules)

lemma probes:
  assumes "evolves R (hk_control H)"
  shows "evolves R (probe_readiness E H now)"
  unfolding probe_readiness_def probe_unready_worker_def check_readiness_def
  by (intro daemon_rules fields assms) (auto simp: refl intro: fields)

lemma turn:
  assumes "evolves R (hk_handoff H)" "evolves R (hk_control H)" "evolves R (hk_startup_artifacts H)"
  shows "evolves R (reconcile E H now)"
  unfolding reconcile_def by (intro daemon_rules assms probes)

lemma shuts_down [daemon_rules]: "evolves R (shutdown E)"
  unfolding shutdown_def shutdown_locked_def by (intro daemon_rules)

lemma starts_up [daemon_rules]: "evolves R (persist_runtime_commit commit)"
  unfolding persist_runtime_commit_def by (intro daemon_rules)

lemma ticks:
  assumes "evolves R (hk_handoff H)" "evolves R (hk_control H)" "evolves R (hk_startup_artifacts H)"
  shows "evolves R (run_ticks n E H)"
  by (induction n) (simp_all only: run_ticks.simps tick_def, (intro daemon_rules turn assms, assumption?)+)

lemma runs:
  assumes "evolves R (hk_handoff H)" "evolves R (hk_control H)" "evolves R (hk_startup_artifacts H)"
  shows "evolves R (run_daemon E H commit n)"
  unfolding run_daemon_def by (intro daemon_rules ticks assms)

end

section \<open>Lawful deeds\<close>

interpretation still: file_evolution same_row
  by unfold_locales (auto simp: same_row_def)

interpretation law: daemon_evolution lawful_step
proof unfold_locales
  fix s t u
  assume "lawful_step s t" "lawful_step t u"
  then show "lawful_step s u" by (auto simp: lawful_step_def)
qed (auto simp: lawful_step_def)

lemma same_row_lawful: "same_row s s' \<Longrightarrow> lawful_step s s'"
  by (simp add: same_row_def lawful_step_def)

lemma still_keeps: "evolves same_row m \<Longrightarrow> m s = (r, s') \<Longrightarrow> same_row s s'"
  unfolding evolves_def by (metis snd_conv)

lemma law_keeps: "evolves lawful_step m \<Longrightarrow> m s = (r, s') \<Longrightarrow> lawful_step s s'"
  unfolding evolves_def by (metis snd_conv)

section \<open>Starting\<close>

lemma ask_run: "ask f s = (Inr (f (w_now (d_world s))), s\<lparr>d_world := (d_world s)\<lparr>w_now := Suc (w_now (d_world s))\<rparr>\<rparr>)"
  by (simp add: ask_def probing_def)

lemma connection_keeps:
  "spawn_authority_connection E s = (r, s') \<Longrightarrow> d_claim s' = d_claim s"
proof -
  assume "spawn_authority_connection E s = (r, s')"
  from law_keeps [OF law.connected this] show ?thesis by (simp add: lawful_step_def)
qed

lemma under_claim_cases:
  assumes run: "under_claim E refused b f s = (Inr x, s')" and "x \<noteq> refused"
  obtains c s1 where "d_claim s1 = Some c" "f c s1 = (Inr x, s')"
proof -
  obtain c where c: "d_claim s = Some c"
    using assms by (cases "d_claim s") (auto simp: under_claim_def effect_defs)
  obtain r s1 where conn: "spawn_authority_connection E s = (r, s1)" by fastforce
  have "r = Inr True"
    using assms c conn by (cases r) (auto simp: under_claim_def effect_defs split: if_splits)
  moreover obtain r2 s2 where "f c s1 = (r2, s2)" by fastforce
  ultimately have "f c s1 = (Inr x, s')"
    using assms c conn
    by (cases r2) (auto simp: under_claim_def effect_defs discard_authority_connection_def io_do_def split: if_splits)
  with that connection_keeps [OF conn] c show thesis by simp
qed

lemma db_operation_run:
  assumes "db_operation E f s = (r, s')"
  obtains w db where "f w db = (r, d_table s')" "d_claim s' = d_claim s"
  using assms
  by (auto simp: db_operation_def ask_run effect_defs split: prod.splits)

lemma committed_obligation:
  assumes run: "commit_spawn_authority E ob s = (Inr True, s')" and clean: "clean_spawn (db_spawn_record ob)"
  shows "lawful (d_claim s') (Started (sp_token ob) (d_table s'))"
proof -
  obtain c s1 where c: "d_claim s1 = Some c"
    and op: "db_operation E (\<lambda>w db. commit_spawn_obligation w db c (db_spawn_record ob)) s1 = (Inr True, s')"
    using run unfolding commit_spawn_authority_def by (rule under_claim_cases) simp
  from op obtain w db where "commit_spawn_obligation w db c (db_spawn_record ob) = (Inr True, d_table s')"
      and c': "d_claim s' = Some c"
    by (rule db_operation_run) (use c in simp)
  from commit_spawn_obligation_success [OF this(1) clean]
  obtain cur ow where "claim_owner c cur = Inr ow" "ar_worker cur = None"
    "stored_row (ac_server c) (d_table s') = Some (cur\<lparr>ar_spawn := Some (db_spawn_record ob)\<rparr>)"
    by (auto simp: confirm_iff)
  moreover have "claim_owner c (cur\<lparr>ar_spawn := x\<rparr>) = claim_owner c cur" for x
    by (simp add: claim_owner_def split: option.split)
  ultimately show ?thesis using c' by (simp add: lawful_def db_spawn_record_def is_ok_def)
qed

lemma popen_lawful:
  assumes "lawful (d_claim s) (Started token (d_table s))"
  shows "lawful_step s (snd (popen E token s))"
  using assms
  by (auto simp: popen_def ask_run effect_defs io_do_def lawful_step_def split: prod.splits option.splits sum.splits)

lemma start_lawful:
  assumes clean: "clean_spawn (db_spawn_record ob)"
  shows "evolves lawful_step (start_obliged E ob wid)"
  unfolding evolves_def
proof
  fix s
  let ?after = "\<lambda>started. case started of
          None \<Rightarrow> io_bind (clear_spawn_authority E) (\<lambda>cleared.
            if \<not> cleared then io_return None
            else io_bind (cache_spawning None) (\<lambda>_. io_return None))
        | Some pid \<Rightarrow>
            io_bind (io_do (\<lambda>s. s\<lparr>d_proc := Some pid\<rparr>)) (\<lambda>_.
            io_bind (start_ticks E pid) (\<lambda>child_ticks.
              publish_spawned_child E pid ob child_ticks (sp_token ob) wid))"
  have after: "evolves lawful_step (?after started)" for started
    by (intro daemon_rules law.fields)
  obtain r s1 where c: "commit_spawn_authority E ob s = (r, s1)" by fastforce
  have s1: "lawful_step s s1" by (rule law_keeps [OF law.row_operations(1) c])
  show "lawful_step s (snd (start_obliged E ob wid s))"
  proof (cases "r = Inr True")
    case False
    then show ?thesis using c s1 by (cases r) (auto simp: start_obliged_def effect_defs)
  next
    case True
    obtain r2 s2 where k: "cache_spawning (Some ob) s1 = (r2, s2)" by fastforce
    have same: "same_row s1 s2" by (rule still_keeps [OF still.safe_writes(2) k])
    have s2: "lawful_step s s2" using s1 same_row_lawful [OF same] law.trans by blast
    obtain r3 s3 where p: "popen E (sp_token ob) s2 = (r3, s3)" by fastforce
    have "lawful (d_claim s2) (Started (sp_token ob) (d_table s2))"
      using committed_obligation [OF c [unfolded True] clean] same by (simp add: same_row_def)
    with popen_lawful [of s2 "sp_token ob" E] p s2 have s3: "lawful_step s s3" using law.trans by fastforce
    have "\<And>x. lawful_step s3 (snd (?after x s3))" using after unfolding evolves_def by blast
    then have "\<And>x. lawful_step s (snd (?after x s3))" using s3 law.trans by blast
    then show ?thesis using c True k p s2 s3
      by (cases r2; cases r3) (auto simp: start_obliged_def io_bind_def)
  qed
qed

lemma boot_id_clean: "current_boot_id E s = (Inr b, s') \<Longrightarrow> pred_option clean b"
proof -
  have strip: "list_all encodable s \<Longrightarrow> list_all encodable (strip_chars P s)" for P s
    unfolding strip_chars_def list_all_iff by (auto dest!: set_dropWhileD)
  assume "current_boot_id E s = (Inr b, s')"
  then show ?thesis
    by (auto simp: current_boot_id_def ask_run effect_defs Let_def encodable_clean strip
        split: option.splits prod.splits if_splits)
qed

lemma token_clean: "token_hex E s = (Inr t, s') \<Longrightarrow> clean t"
  by (auto simp: token_hex_def ask_run effect_defs bytes_hex_clean split: prod.splits)

lemma executable_valid: "resolve_spawn_executable E commit s = (Inr True, s') \<Longrightarrow> is_valid_commit_name commit"
  by (cases "is_valid_commit_name commit")
    (auto simp: resolve_spawn_executable_def ask_cli_def ask_run effect_defs runtime_is_usable_def
      split: prod.splits if_splits)

lemma spawn_lawful: "evolves lawful_step (spawn_worker E commit)"
proof -
  have obliged: "evolves lawful_step (start_obliged E \<lparr>sp_token = token, sp_commit = commit, sp_creator_pid = p,
      sp_creator_start_time_ticks = t, sp_pid = None, sp_start_time_ticks = None, sp_created_at = at,
      sp_boot_id = boot, sp_parent_death_signal = True\<rparr> wid)"
    if "is_valid_commit_name commit" "clean token" "pred_option clean boot" for token p t at boot wid
    by (rule start_lawful) (use that in \<open>simp add: clean_spawn_def db_spawn_record_def valid_commit_clean\<close>)
  show ?thesis
    unfolding spawn_worker_def
    by (rule law.bind_post [where P = "\<lambda>b. b \<longrightarrow> is_valid_commit_name commit"],
        rule law.unpublished(2), use executable_valid in \<open>metis (full_types)\<close>,
        rule law.branches(1), rule law.basic(1),
        rule law.bind_post [where P = clean, OF law.asked(5) token_clean], assumption,
        rule law.bind, rule law.basic(3), rule law.branches(1), rule law.basic(1),
        rule law.bind, rule law.asked(4), rule law.bind, rule law.clock,
        rule law.bind_post [where P = "pred_option clean", OF law.asked(6) boot_id_clean], assumption)
      (intro daemon_rules obliged; simp)
qed

section \<open>Stopping\<close>

lemma read_worker_names:
  assumes run: "read_worker_authority E s = (Inr (True, Some r), s')"
  shows "names_worker r s'"
proof -
  obtain c s1 where c: "d_claim s1 = Some c"
    and op: "io_bind (db_operation E (\<lambda>w db. (read_authority (w_read w) db (ac_server c), db))) (\<lambda>row.
       case row of None \<Rightarrow> io_return (False, None) | Some x \<Rightarrow> io_return (True, ar_worker x)) s1 = (Inr (True, Some r), s')"
    using run unfolding read_worker_authority_def by (rule under_claim_cases) simp
  obtain m s2 where d: "db_operation E (\<lambda>w db. (read_authority (w_read w) db (ac_server c), db)) s1 = (m, s2)" by fastforce
  have "\<exists>w :: world. m = read_authority (w_read w) (d_table s2) (ac_server c) \<and> d_claim s2 = Some c"
    using d by (rule db_operation_run) (use c in auto)
  then obtain w :: world where m: "m = read_authority (w_read w) (d_table s2) (ac_server c)" and c2: "d_claim s2 = Some c"
    by blast
  obtain row where row: "m = Inr (Some row)" "ar_worker row = Some r" "s' = s2"
    using op d by (cases m) (auto simp: effect_defs split: option.splits)
  have "stored_row (ac_server c) (d_table s2) = Some row"
    using m row(1) by (auto simp: read_authority_def select_payload_def stored_row_Some ebind_def split: option.splits if_splits sum.splits)
  then show ?thesis using c2 row by (simp add: names_worker_def)
qed

lemma names_worker_same: "names_worker r s \<Longrightarrow> same_row s s' \<Longrightarrow> names_worker r s'"
  by (auto simp: names_worker_def same_row_def split: option.splits)

lemma given_always: "evolves lawful_step m \<Longrightarrow> lawful_given r m"
  by (simp add: evolves_def lawful_given_def)

lemma given_if: "(b \<Longrightarrow> lawful_given r m) \<Longrightarrow> (\<not> b \<Longrightarrow> lawful_given r m') \<Longrightarrow> lawful_given r (if b then m else m')"
  by simp

lemma given_lift: "lawful_given r (k x) \<Longrightarrow> lawful_given r (io_bind (io_lift (Inr x)) k)"
  by (simp add: lawful_given_def effect_defs)

lemma given_look:
  assumes m: "evolves same_row m" and k: "\<And>x. lawful_given r (k x)"
  shows "lawful_given r (io_bind m k)"
  unfolding lawful_given_def
proof (intro allI impI)
  fix s
  assume names: "names_worker r s"
  obtain x s1 where run: "m s = (x, s1)" by fastforce
  have same: "same_row s s1" by (rule still_keeps [OF m run])
  have "lawful_step s1 (snd (k y s1))" for y
    using k names_worker_same [OF names same] unfolding lawful_given_def by blast
  with same_row_lawful [OF same] run show "lawful_step s (snd (io_bind m k s))"
    by (cases x) (auto simp: io_bind_def intro: law.trans)
qed

lemma given_act:
  assumes m: "lawful_given r m" and k: "\<And>x. evolves lawful_step (k x)"
  shows "lawful_given r (io_bind m k)"
  unfolding lawful_given_def
proof (intro allI impI)
  fix s
  assume names: "names_worker r s"
  obtain x s1 where run: "m s = (x, s1)" by fastforce
  have "lawful_step s s1" using m names run unfolding lawful_given_def by fastforce
  moreover have "lawful_step s1 (snd (k y s1))" for y using k unfolding evolves_def by blast
  ultimately show "lawful_step s (snd (io_bind m k s))"
    using run by (cases x) (auto simp: io_bind_def intro: law.trans)
qed

lemma reads_the_worker:
  assumes none: "\<And>ok. evolves lawful_step (k (ok, None))" "\<And>r. evolves lawful_step (k (False, Some r))"
    and some: "\<And>r. lawful_given r (k (True, Some r))"
  shows "evolves lawful_step (io_bind (read_worker_authority E) k)"
  unfolding evolves_def
proof
  fix s
  obtain x s1 where run: "read_worker_authority E s = (x, s1)" by fastforce
  have s1: "lawful_step s s1" by (rule law_keeps [OF law.row_operations(6) run])
  have "lawful_step s1 (snd (k y s1))" if "x = Inr y" for y
  proof -
    obtain ok found where y: "y = (ok, found)" by fastforce
    show ?thesis
    proof (cases "ok \<and> found \<noteq> None")
      case True
      then obtain r where r: "y = (True, Some r)" using y by auto
      then have "names_worker r s1" using run that read_worker_names by blast
      with some r show ?thesis unfolding lawful_given_def by blast
    next
      case False
      with y none show ?thesis unfolding evolves_def by (cases found) auto
    qed
  qed
  with s1 run show "lawful_step s (snd (io_bind (read_worker_authority E) k s))"
    by (cases x) (auto simp: io_bind_def intro: law.trans)
qed

lemma stop_lawful: "describes meta r \<Longrightarrow> lawful_given r (logged_stop E meta)"
  by (auto simp: lawful_given_def logged_stop_def probing_def effect_defs io_do_def lawful_step_def lawful_def
      names_worker_def describes_def split: prod.splits option.splits)

lemma db_meta_describes: "db_worker_meta E r = Inr meta \<Longrightarrow> describes meta r"
  by (auto simp: db_worker_meta_def describes_def ebind_def split: sum.splits)

lemma matching_child_describes:
  "db_record_matches_child (Some r) child commit \<Longrightarrow> describes (child_to_meta E child repo) r"
  by (simp add: db_record_matches_child_def child_to_meta_def describes_def split: if_splits)

lemma retire_row_lawful: "lawful_given r (retire_db_worker E r)"
proof (cases "db_worker_meta E r")
  case (Inl e)
  then show ?thesis by (simp add: retire_db_worker_def lawful_given_def effect_defs law.refl)
next
  case (Inr meta)
  have stop: "lawful_given r (if live then logged_stop E meta else io_return True)" for live
    by (intro given_if stop_lawful [OF db_meta_describes [OF Inr]] given_always [OF law.basic(1)])
  have rest: "lawful_given r (io_bind (probing (WorkerProbe.worker_alive E meta)) (\<lambda>live.
    io_bind (if live then logged_stop E meta else io_return True) (\<lambda>stopped.
    if \<not> stopped then io_return False
    else io_bind (drained E (wr_token r)) (\<lambda>clean.
      io_bind (if clean then io_return True else groups_recovered E (wr_token r)) (\<lambda>recovered.
      if \<not> recovered then io_return False
      else io_bind (clear_worker_authority E (wr_token r)) (\<lambda>cleared.
        if \<not> cleared then io_return False
        else io_bind (forget_active (wr_token r)) (\<lambda>_. io_return True)))))))"
    by (rule given_look [OF still.observed], rule given_act [OF stop]) (intro daemon_rules)
  then show ?thesis unfolding retire_db_worker_def Inr by (rule given_lift)
qed

lemma reconcile_row_lawful: "evolves lawful_step (reconcile_db_worker E commit)"
  unfolding reconcile_db_worker_def
proof (rule law.bind [OF law.basic(4)], rule law.branches(1), rule law.basic(1), rule reads_the_worker)
  fix r
  show "lawful_given r (case (True, Some r) of (ok, record) \<Rightarrow>
       if \<not> ok then io_return False
       else (case record of
           None \<Rightarrow> io_return True
         | Some r \<Rightarrow> io_bind (own_live_worker E r commit) (\<lambda>own.
             if own then io_return True
             else io_bind (if wr_commit r \<noteq> commit
                 then probing (io_act (proc_start_ticks (kernel_of E) (wr_pid r))) else io_return None) (\<lambda>_.
               retire_db_worker E r))))"
    unfolding prod.case option.case if_False not_True_eq_False
    by (rule given_look [OF still.own_worker], rule given_if [OF given_always [OF law.basic(1)]],
        rule given_look [OF _ retire_row_lawful]) (intro daemon_rules)
qed (simp_all add: law.basic)

lemma retire_child_lawful: "evolves lawful_step (retire_child E locked)"
  unfolding retire_child_def
proof (rule law.bind [OF law.basic(3)])
  fix st
  let ?after = "\<lambda>child (stopped :: bool). if \<not> stopped then io_return False
            else io_bind (drained E (wc_token child)) (\<lambda>clean.
              io_bind (io_when (\<not> clean) (recover_owned_groups E (wc_token child))) (\<lambda>_.
              io_bind (reap_proc E) (\<lambda>_.
              io_bind (if locked
                  then io_bind (rewrite_state (\<lambda>st. st\<lparr>ss_child := None, ss_ready := False,
                      ss_next_readiness_at := None\<rparr>)) (\<lambda>_. io_return True)
                  else write_state_authority_safe (st\<lparr>ss_child := None, ss_ready := False,
                      ss_next_readiness_at := None\<rparr>)) (\<lambda>written.
              if \<not> written then io_return False
              else io_bind (forget_active (wc_token child)) (\<lambda>_. io_return True)))))"
  let ?stops = "\<lambda>child repo. let meta = child_to_meta E child repo in
            io_bind (probing (WorkerProbe.worker_alive E meta)) (\<lambda>live.
            io_bind (if live then io_bind (authority_facts E) (\<lambda>facts. io_return (authorize_retirement facts))
                else io_return True) (\<lambda>allowed. if \<not> allowed then io_return False
            else io_bind (logged_stop E meta) (?after child)))"
  have after: "evolves lawful_step (?after child stopped)" for child stopped
    by (intro daemon_rules)
  have stops: "lawful_given r (io_bind (io_lift repo) (?stops child))"
    if "db_record_matches_child (Some r) child (ss_commit st)" for r child repo
    unfolding Let_def
    by (rule given_look [OF still.basic(5)], rule given_look [OF still.observed], rule given_look, intro daemon_rules,
        rule given_if [OF given_always [OF law.basic(1)]],
        rule given_act [OF stop_lawful [OF matching_child_describes [OF that]] after])
  have found: "evolves lawful_step (io_bind (read_worker_authority E) (\<lambda>(ok, found).
      if \<not> ok \<or> \<not> db_record_matches_child found child (ss_commit st) then io_return False
      else io_bind (io_lift (runtime_dir E (ss_commit st))) (?stops child)))" for child
  proof (rule reads_the_worker)
    fix r
    show "lawful_given r (case (True, Some r) of (ok, found) \<Rightarrow>
        if \<not> ok \<or> \<not> db_record_matches_child found child (ss_commit st) then io_return False
        else io_bind (io_lift (runtime_dir E (ss_commit st))) (?stops child))"
      unfolding prod.case
      by (rule given_if, rule given_always [OF law.basic(1)], rule stops) simp
  qed (simp_all add: law.basic db_record_matches_child_def)
  show "evolves lawful_step (case ss_child st of None \<Rightarrow> io_return True | Some child \<Rightarrow>
        io_bind (confirm_claim E) (\<lambda>confirmed. if \<not> confirmed then io_return False
        else io_bind (read_worker_authority E) (\<lambda>(ok, found).
          if \<not> ok \<or> \<not> db_record_matches_child found child (ss_commit st) then io_return False
          else io_bind (io_lift (runtime_dir E (ss_commit st))) (?stops child))))"
    by (intro daemon_rules found)
qed

lemma retire_published_lawful: "evolves lawful_step (retire_published_worker E)"
  unfolding retire_published_worker_def
proof (rule reads_the_worker)
  fix r
  show "lawful_given r (case (True, Some r) of (ok, published) \<Rightarrow> case published of None \<Rightarrow> io_return ()
     | Some r \<Rightarrow> io_when ok (io_bind (retire_db_worker E r) (\<lambda>_. io_return ())))"
    unfolding prod.case option.case io_when_def if_True by (rule given_act [OF retire_row_lawful law.basic(1)])
qed (simp_all add: law.basic io_when_def)

interpretation duty: daemon_turn lawful_step E for E
  by unfold_locales (rule spawn_lawful retire_child_lawful reconcile_row_lawful retire_published_lawful)+


section \<open>Retirement for health\<close>

interpretation watch: file_evolution same_watch
  by unfold_locales (auto simp: same_watch_def)

lemma watched: "evolves same_watch m \<Longrightarrow> m s = (r, s') \<Longrightarrow> same_watch s s'"
  unfolding evolves_def by (metis snd_conv)

lemma pinned_live_ticks:
  assumes "pinned_snapshot_process_live E h w = (Inr True, w')"
  shows "wh_alive h \<and> ticks_at (kernel_of E) (Suc (w_now w)) (wh_pid h) = Some (wh_start_time_ticks h)"
  using assms
  by (auto simp: pinned_snapshot_process_live_def effect_defs split: prod.splits sum.splits option.splits if_splits)

lemma live_health:
  assumes "interpret_worker_health E h s = (Inr eff, s')" "eh_live eff"
  shows "eh_operational eff = interpret_operational_readiness h \<and> wh_alive h
    \<and> ticks_at (kernel_of E) (Suc (w_now (d_world s))) (wh_pid h) = Some (wh_start_time_ticks h)"
proof -
  obtain now s1 where t: "time_time s = (Inr now, s1)" "d_world s1 = d_world s"
    by (cases "f_clock s") (auto simp: time_time_def)
  obtain w' where "pinned_snapshot_process_live E h (d_world s) = (Inr True, w')"
    "eh_operational eff = interpret_operational_readiness h"
    using assms t
    by (auto simp: interpret_worker_health_def effect_defs Let_def probing_def split: if_splits prod.splits sum.splits)
  with pinned_live_ticks show ?thesis by blast
qed

lemma breach_proven:
  assumes run: "worker_health_proves_immediate_safety_breach E child s = (Inr True, s')"
  shows "proven_breach E child"
proof -
  obtain h where h: "read_worker_health_by_incarnation (e_health E (w_now (d_world s))) (wc_token child) = Ok (Some h)"
      "snapshot_of_child h child"
    and rest: "io_bind (interpret_worker_health E h) (\<lambda>eff. io_return (eh_live eff \<and> or_lease_safety_negative (eh_operational eff)))
      (s\<lparr>d_world := (d_world s)\<lparr>w_now := Suc (w_now (d_world s))\<rparr>\<rparr>) = (Inr True, s')"
    using run
    by (cases "read_worker_health_by_incarnation (e_health E (w_now (d_world s))) (wc_token child)")
      (auto simp: worker_health_proves_immediate_safety_breach_def read_health_def ask_run effect_defs
        split: option.splits if_splits)
  then obtain eff s2 where eff: "interpret_worker_health E h (s\<lparr>d_world := (d_world s)\<lparr>w_now := Suc (w_now (d_world s))\<rparr>\<rparr>) = (Inr eff, s2)"
      "eh_live eff" "or_lease_safety_negative (eh_operational eff)"
    by (auto simp: effect_defs split: prod.splits sum.splits)
  from live_health [OF eff(1,2)] h eff(3) show ?thesis
    unfolding proven_breach_def snapshot_of_child_def
    by (intro exI [of _ "w_now (d_world s)"] exI [of _ h] exI [of _ "Suc (Suc (w_now (d_world s)))"]) simp
qed

lemma ready_worker_stopped:
  assumes run: "check_ready_worker E st child now s = (r, s')"
  shows "d_log s' = d_log s \<or> proven_breach E child
    \<or> no_progress_evidence_confirms (e_settings E) child now (d_no_progress s)"
proof -
  obtain r1 s1 where h: "check_worker_health E child s = (r1, s1)" by fastforce
  obtain r2 s2 where b: "worker_health_proves_immediate_safety_breach E child s1 = (r2, s2)" by fastforce
  obtain r3 s3 where n: "record_not_ready E st now s2 = (r3, s3)" by fastforce
  have "same_watch s s1" by (rule watched [OF watch.health_checks(1) h])
  moreover have "same_watch s1 s2" by (rule watched [OF watch.health_checks(2) b])
  moreover have "evolves same_watch (record_not_ready E st now)"
    unfolding record_not_ready_def by (intro daemon_rules)
  then have "same_watch s2 s3" using watched n by blast
  ultimately show ?thesis
    using run h b n breach_proven [of E child s1 s2]
    by (cases r1; cases r2) (auto simp: check_ready_worker_def reset_forward_progress_evidence_def same_watch_def effect_defs
        io_do_def split: if_splits)
qed

lemma readiness_watched:
  assumes "evolves same_watch (hk_control H)"
  shows "evolves same_watch (check_readiness E H child cwd)"
  unfolding check_readiness_def by (intro daemon_rules assms)

lemma readiness_consumption:
  assumes "check_readiness E H child cwd s = (Inr (ready, consumption), s')"
  shows "\<exists>t. e_consumes E t child cwd = Ok consumption"
proof -
  obtain r1 s1 where c: "hk_control H s = (r1, s1)" by fastforce
  show ?thesis using assms c
    by (cases r1; cases "e_consumes E (w_now (d_world s1)) child cwd")
      (auto simp: check_readiness_def ask_run effect_defs split: if_splits prod.splits sum.splits)
qed

lemma unready_worker_stopped:
  assumes control: "evolves same_watch (hk_control H)" and run: "probe_unready_worker E H st child now s = (r, s')"
  shows "d_log s' = d_log s \<or> (\<exists>t cwd consumption. e_consumes E t child cwd = Ok consumption
    \<and> no_progress_evidence_confirms (e_settings E) child now (note_progress child consumption now (d_no_progress s)))"
proof (cases "runtime_dir E (ss_commit st)")
  case (Inl e)
  then show ?thesis using run by (auto simp: probe_unready_worker_def effect_defs)
next
  case (Inr cwd)
  obtain r1 s1 where p: "check_readiness E H child cwd s = (r1, s1)" by fastforce
  have same: "same_watch s s1" by (rule watched [OF readiness_watched [OF control] p])
  show ?thesis
  proof (cases r1)
    case (Inl e)
    then show ?thesis using run p same Inr by (auto simp: probe_unready_worker_def effect_defs same_watch_def)
  next
    case r1: (Inr found)
    obtain ready consumption where f: "found = (ready, consumption)" by fastforce
    have c: "\<exists>t. e_consumes E t child cwd = Ok consumption" using readiness_consumption p r1 f by blast
    let ?s2 = "s1\<lparr>d_no_progress := note_progress child consumption now (d_no_progress s1)\<rparr>"
    obtain r3 s3 where n: "record_not_ready E st now ?s2 = (r3, s3)" by fastforce
    obtain r4 s4 where o: "write_state_authority_safe (st\<lparr>ss_ready := True, ss_next_readiness_at := None\<rparr>) ?s2 = (r4, s4)"
      by fastforce
    have "evolves same_watch (record_not_ready E st now)"
      unfolding record_not_ready_def by (intro daemon_rules)
    then have "same_watch ?s2 s3" using watched n by blast
    moreover have "same_watch ?s2 s4" by (rule watched [OF watch.safe_writes(1) o])
    ultimately have "d_log s' = d_log s \<or>
        no_progress_evidence_confirms (e_settings E) child now (note_progress child consumption now (d_no_progress s))"
      using run p r1 f Inr same n o
      by (cases r4) (auto simp: probe_unready_worker_def effect_defs io_do_def same_watch_def split: if_splits)
    with c show ?thesis by blast
  qed
qed


section \<open>Concrete daemons\<close>

lemma idle_hooks_fields [simp]:
  "hk_handoff idle_hooks = io_return ()" "hk_control idle_hooks = io_return ()" "hk_startup_artifacts idle_hooks = io_return ()"
  by (simp_all add: idle_hooks_def)



end
