(* ===== verification/Spec2Isabelle.thy ===== *)
theory Spec2Isabelle
  imports Durable OutputPublish JobQueue SupervisorSafety
begin

text \<open>
  A verification library for lubko, a daemon that runs commands which clients submit through a
  PostgreSQL table. The sources are the modules under \<open>src/src/lubko\<close>.

  \<^bold>\<open>The program.\<close> A client inserts a JSON payload (\<open>protocol.py\<close>) as a row of a two-column table.
  Workers (\<open>worker.py\<close>) claim pending rows, run the command in a process group of its own, capture
  its output in bounded buffers, publish the live tail and archive older output as chunk rows, keep
  a lease alive, honour cancellations, and store the result. A supervisor keeps exactly one worker
  per server alive: the right to start one is a row of the same table (\<open>lifecycle_authority.py\<close>),
  fenced by an epoch, and every decision is gated by guards over facts that are reconciled from
  durable sources (\<open>lifecycle_state.py\<close>). Files that must survive a crash are written by
  \<open>durable.py\<close>. After a worker died, its command groups are found and terminated by identity, never
  by name (\<open>worker.py\<close>, \<open>_exact_signal.py\<close>, \<open>_process_group.py\<close>).

  \<^bold>\<open>Theories and what they model.\<close>

  \<^item> \<open>Prelude\<close>: results with exceptions as values, theorem collections, the interface of a text codec.
  \<^item> \<open>PyStr\<close>, \<open>PyJson\<close>, \<open>PyJsonText\<close>, \<open>PyUuid\<close>: what the sources use of Python: strings as code points,
    UTF-8, JSON printing and parsing with Python's limits, UUIDs; printing and parsing are inverse.
  \<^item> \<open>ProtocolVersioning\<close>, \<open>Protocol\<close>: \<open>protocol_versioning.py\<close> and \<open>protocol.py\<close>, one definition per
    builder and parser, every refusal a value. Payloads and chunks round-trip through their text,
    accepted payloads are well formed, other protocol versions are refused.
  \<^item> \<open>Authority\<close>, \<open>AuthorityDb\<close>: \<open>lifecycle_authority.py\<close>. The row as stored text, and every
    compare-and-swap operation over the table with lost connections, lost acknowledgements and
    interleaved writers. The locale \<open>guarded_op\<close> is the contract of such an operation and is
    interpreted for each of them; runs refine an abstract machine with one owner, one obligation
    or one worker; epochs fence; the migration from version 1 keeps what blocks a spawn.
  \<^item> \<open>LifecycleState\<close>: \<open>lifecycle_state.py\<close>. Facts, phase, invariants, guards, mission gates and
    failpoints. The locales \<open>fail_closed_guard\<close> and \<open>identity_guard\<close> state that a guard refuses on
    unreadable or unproven facts; all guards are interpretations.
  \<^item> \<open>Durable\<close>: \<open>durable.py\<close> over a file system with volatile and stable contents, faults at every
    system call, short writes and locks. No torn file is ever visible, success survives a crash,
    a failed confirmation is rolled back, locks are given back.
  \<^item> \<open>OutputCodec\<close>, \<open>OutputCapture\<close>, \<open>OutputPublish\<close>: the output path of \<open>worker.py\<close>: decoding and
    bounded windows, draining a pipe into the spool, planning chunks and publishing. Loops whose
    end depends on the data are partial functions in the option monad and are shown to return.
  \<^item> \<open>ProcTable\<close>, \<open>GroupReclaim\<close>: the process table and the ownership proofs. The kernel is a history
    of who occupies each process id at every instant; each observation moves to the next instant,
    so processes may exit and ids may be reused between any two steps. The locale
    \<open>exact_signaller\<close> is the contract of pinned delivery. Signals reach only proven processes,
    recovery accounts for every row, and the polling loops return once the clock advances.
  \<^item> \<open>JobTimes\<close>, \<open>JobDb\<close>, \<open>JobQueue\<close>: the job rows and the SQL statements of \<open>worker.py\<close> on them:
    claim, process identity, leases, cancellation, stale recovery, finishing, quarantine, the
    version reaper, deletion, collection, publication and the recovery query. A row is kept as what
    PostgreSQL reads in its text. The locale \<open>row_write\<close> is the promise of a write and is
    interpreted for every statement; it is lifted to runs that interleave all sessions: a job is
    claimed at most once, a finished job is final, rows of other servers are never touched.

  \<^item> \<open>PyFloat\<close>: finite floats with the rounding, comparison and overflow Python has; \<open>Effects\<close>:
    computations that may raise over a state, triples and the locale \<open>evolution\<close>.
  \<^item> \<open>Supervise\<close>, \<open>Mission\<close>: the durable records of \<open>supervise.py\<close>, the worker metadata of
    \<open>lifecycle.py\<close> and the mission of \<open>deployctl.py\<close> with their strict parsers. Authority in a file is
    read or turned into a hold, and what was read is written back unchanged.
  \<^item> \<open>SuperviseStore\<close>, \<open>Generations\<close>: the files of the supervisor and the requests of its control
    socket, with every outcome of reads, writes and locks. The locale \<open>monotone_counter\<close> says what
    makes generations increase, \<open>store_evolution\<close> which relations every request keeps.

  \<^item> \<open>WorkerProbe\<close>, \<open>WorkerStop\<close>: exact process identities (\<open>lifecycle.py\<close>, \<open>supervise.py\<close>) and
    \<open>stop_worker\<close> with its waits. Only pinned members of the recorded group that carry the recorded
    token are signalled, and a worker is reported retired only on an observation of the kernel.
  \<^item> \<open>RuntimeTree\<close>, \<open>CliRuntime\<close>: \<open>cli.py\<close>. SHA-256, trees of files with their permission bits, sealing
    and the content digest; names, manifests, building, the \<open>current\<close> pointer and collection. A
    runtime is reported usable only if it is complete, sealed and has the recorded content, what a
    build leaves is usable, and collection spares what is needed.
  \<^item> \<open>Health\<close>: \<open>health.py\<close>. The snapshot a worker publishes and its strict reader, liveness and
    operational readiness, and the bounded retention of old evidence.
  \<^item> \<open>SupervisorWorld\<close>, \<open>SupervisorDb\<close>, \<open>SupervisorResolve\<close>, \<open>SupervisorSpawn\<close>, \<open>SupervisorLoop\<close>,
    \<open>SupervisorReady\<close>, \<open>SupervisorTurn\<close>: \<open>supervisor.py\<close>, one definition per method of the daemon that
    decides or changes something: the files, the table, the processes and the fields of
    \<open>SupervisorDaemon\<close> are one state, and a reconciliation is composed as the code composes it.
  \<^item> \<open>SupervisorSafety\<close>: the locales \<open>file_evolution\<close>, \<open>daemon_evolution\<close> and \<open>daemon_turn\<close> carry a
    relation through every operation of the daemon; interpreted on the deeds of the daemon they show
    that it starts and stops workers only as the authority row allows, and on its evidence that a
    worker is stopped for its health only when it is proven unsafe or without progress.

  \<^bold>\<open>Parameters.\<close> What is not code of the repository is an argument of the definitions, with the
  properties relied on as named hypotheses: the kernel history (\<open>kernel_ok\<close>: a process never returns
  to an id it left, two processes on one id differ in start time; \<open>clock_advances\<close>), PostgreSQL
  (\<open>sql_ok\<close>: ordering permutes, numbers and containers never print as a word), the answers of
  the database to the authority operations, system-call faults and the readers of durable state. For
  the daemon they are one record, \<open>Env\<close>: the kernel, the clocks, the outcome of starting and waiting for
  processes, what other processes commit to the table and change on disk before each of the daemon's
  operations, the queue probe and the recovery of command groups; \<open>Hooks\<close> are the steps of a turn that
  are left out, and \<open>Builder\<close> is git and uv.
  Every such hypothesis is met by a concrete instance in a witness.

  \<^bold>\<open>Bounds.\<close> Python integers are unbounded; bytes are 8-bit words and UUIDs 128-bit words. The
  JSON parser has fuel, for which the length of the text is enough. The polling loops of
  \<open>stop_worker\<close> and of the daemon end by the clock, which is an argument: they take \<open>ws_fuel\<close> iterations at
  most and then raise \<open>NoReturn\<close>, an error of the model alone. The properties of the daemon and of
  \<open>stop_worker\<close> hold for every fuel, so also for what a longer run has done by then.

  \<^bold>\<open>What the model showed.\<close> Some theorems state behaviour the sources do not intend: a range of
  output can be archived nowhere and then trimmed (\<open>publication_gap\<close>), a group signal can reach an
  unrelated process when the group is replaced between the proof of its leader and the listing of
  its members (\<open>sweep_race\<close>), one row that is JSON but not castable stops every scan
  (\<open>uncastable_row_blocks_scans\<close>), two requests of the control socket answer without effect
  (\<open>spawning_requests_have_no_effect\<close>), a live worker that moved to another process group is reported
  retired (\<open>stop_worker_abandons_live_worker\<close>), the restart delay overflows after 1024 failures and
  stops the daemon from restarting a worker (\<open>backoff_bounded_then_raises\<close>), and a huge number in a
  health file escapes its reader (\<open>health_overflow_escapes\<close>).

  \<^bold>\<open>Not modelled.\<close> Of the supervisor: the establishment of its claim at startup, the handoff to another
  version by \<open>execve\<close>, sockets and signal handlers, status files and logging. Deployment and release
  handling, the startup contract, the installer and the command-line front ends: they orchestrate
  sockets, git and service files around the modelled core. In \<open>worker.py\<close>, spawning and the main loop.
  Of \<open>cli.py\<close>, launchers and subprocess handling. Floating-point CPU accounting and the raw
  system-call fallbacks of \<open>_exact_signal.py\<close>.
\<close>

end
